(* ===== verification/Rust_Prelude.thy ===== *)
theory Rust_Prelude
  imports Main "HOL-Library.Word"
begin

text \<open>
  What every component of the development shares: the machine integers of the Rust sources as
  fixed-width words, Rust's \<open>as\<close> casts and shifts, the outcome type of a function that may
  panic, and the generic lemmas on words that carry the component proofs.

  \<^item> \<open>u8\<close> \<dots> \<open>u128\<close> and \<open>i32\<close> are bit patterns. An unsigned reading is
    \<^const>\<open>unat\<close>, a signed one \<^const>\<open>sint\<close>; a widening cast of a signed value is
    \<^const>\<open>scast\<close>, of an unsigned one \<^const>\<open>ucast\<close>, and a narrowing cast
    is \<^const>\<open>ucast\<close>, as Rust's \<open>as\<close> does.
  \<^item> \<open>rust_shl\<close>, \<open>rust_shr\<close>, \<open>rust_sar\<close> are \<open><<\<close> and \<open>>>\<close> of the release
    profile: the shift amount is reduced modulo the width. The arithmetic is that of the release
    profile too (no overflow checks), so \<open>+\<close>, \<open>-\<close> and \<open>*\<close> wrap.
  \<^item> A function that may panic (\<open>assert!\<close>, \<open>unreachable!\<close>, \<open>unwrap\<close>) returns
    an \<^typ>\<open>'a option\<close>; \<^const>\<open>None\<close> is the panic.
\<close>

unbundle bit_operations_syntax

type_synonym u8 = "8 word"
type_synonym u16 = "16 word"
type_synonym u32 = "32 word"
type_synonym u64 = "64 word"
type_synonym u128 = "128 word"
type_synonym i32 = "32 word"
type_synonym i64 = "64 word"

section \<open>Rust's shifts\<close>

definition rust_shl :: "'a::len word \<Rightarrow> nat \<Rightarrow> 'a word" where
  "rust_shl x n = push_bit (n mod LENGTH('a)) x"

definition rust_shr :: "'a::len word \<Rightarrow> nat \<Rightarrow> 'a word" where
  "rust_shr x n = drop_bit (n mod LENGTH('a)) x"

definition rust_sar :: "'a::len word \<Rightarrow> nat \<Rightarrow> 'a word" where
  "rust_sar x n = signed_drop_bit (n mod LENGTH('a)) x"

text \<open>\<open>leading_zeros\<close> of an unsigned integer, counted from the top bit.\<close>

definition leading_zeros :: "'a::len word \<Rightarrow> nat" where
  "leading_zeros w = length (takeWhile Not (map (bit w) (rev [0..<LENGTH('a)])))"

section \<open>Results\<close>

text \<open>
  A function with a \<open>&mut\<close> state that returns a \<open>Result\<close> and may panic. The error value of the
  interpreter is \<open>()\<close>; its data is in the state. \<open>Panic\<close> is a panic, \<open>unreachable!()\<close>, or undefined
  behaviour (\<open>unreachable_unchecked\<close>), after which there is no state. \<open>and_then\<close> is the
  operator \<open>?\<close> followed by the rest of the function.
\<close>

datatype (plugins only: code size) ('a, 's) res = Ok 'a 's | Err 's | Panic

definition and_then :: "('a, 's) res \<Rightarrow> ('a \<Rightarrow> 's \<Rightarrow> ('b, 's) res) \<Rightarrow> ('b, 's) res" where
  "and_then r k = (case r of Ok v s \<Rightarrow> k v s | Err s \<Rightarrow> Err s | Panic \<Rightarrow> Panic)"

text \<open>A predicate on the state a result leaves, whether it is \<open>Ok\<close> or \<open>Err\<close>, that also
  excludes a panic.\<close>

definition leaves :: "('a, 's) res \<Rightarrow> ('s \<Rightarrow> bool) \<Rightarrow> bool" where
  "leaves r P = (case r of Ok v s \<Rightarrow> P s | Err s \<Rightarrow> P s | Panic \<Rightarrow> False)"

text \<open>The same for the states of the results that exist.\<close>

definition keeps :: "('a, 's) res \<Rightarrow> ('s \<Rightarrow> bool) \<Rightarrow> bool" where
  "keeps r P = (case r of Ok v s \<Rightarrow> P s | Err s \<Rightarrow> P s | Panic \<Rightarrow> True)"

section \<open>Words bit by bit\<close>

lemma word_eq_all_bits:
  fixes x y :: "'a::len word"
  assumes "list_all (\<lambda>k. bit x k = bit y k) [0..<LENGTH('a)]"
  shows "x = y"
  using assms by (auto intro!: bit_word_eqI simp: list_all_iff)

lemma bit_high_word: "LENGTH('a) \<le> n \<Longrightarrow> bit (w::'a::len word) n = False"
  using bit_imp_le_length not_le by blast

lemma even_bit_0: "even w \<Longrightarrow> bit w 0 = False" for w :: "'a::len word"
  by (simp add: bit_0)

lemma less_pow2_bit:
  fixes x :: "'a::len word"
  assumes "unat x < 2 ^ n" "n \<le> k"
  shows "\<not> bit x k"
proof
  assume "bit x k"
  then have "bit (unat x) k" by (simp add: bit_unsigned_iff)
  then have "2 ^ k \<le> unat x"
    by (metis bit_take_bit_iff nat_less_le not_less take_bit_nat_eq_self_iff linorder_not_less)
  with assms show False
    by (meson le_less_trans not_less power_increasing one_le_numeral)
qed

lemma sint_fits_bit:
  fixes w :: "'a::len word"
  assumes "- (2 ^ n) \<le> sint w" "sint w < 2 ^ n" "n < k" "k < LENGTH('a)"
  shows "bit w k = bit w n"
proof -
  have e: "signed_take_bit n (sint w) = sint w"
    using assms(1,2) by (simp add: signed_take_bit_int_eq_self)
  have "bit w k = bit (sint w) k"
    using assms(4) by (simp add: bit_simps)
  also have "\<dots> = bit (signed_take_bit n (sint w)) k" by (simp add: e)
  also have "\<dots> = bit (sint w) n" using assms(3) by (simp add: bit_signed_take_bit_iff min_def)
  also have "\<dots> = bit w n" using assms(3,4) by (simp add: bit_simps)
  finally show ?thesis .
qed

lemma unat_pow2:
  assumes "k < LENGTH('a)"
  shows "unat (2 ^ k :: 'a::len word) = 2 ^ k"
proof -
  have "(2 :: nat) ^ k < 2 ^ LENGTH('a)" using assms by (intro power_strict_increasing) simp_all
  then have "unat (of_nat (2 ^ k) :: 'a word) = 2 ^ k" by (simp only: unat_of_nat) simp
  then show ?thesis by simp
qed

lemma word8_eqI:
  fixes x y :: "8 word"
  assumes "bit x 0 = bit y 0" and "bit x 1 = bit y 1" and "bit x 2 = bit y 2" and "bit x 3 = bit y 3"
    and "bit x 4 = bit y 4" and "bit x 5 = bit y 5" and "bit x 6 = bit y 6" and "bit x 7 = bit y 7"
  shows "x = y"
proof (rule word_eq_all_bits)
  show "list_all (\<lambda>k. bit x k = bit y k) [0..<LENGTH(8)]"
    using assms by (simp add: upt_rec [of 0] upt_rec [of "Suc 0"] upt_rec_numeral flip: numeral_2_eq_2)
qed

lemma word16_eqI:
  fixes x y :: "16 word"
  assumes "bit x 0 = bit y 0" and "bit x 1 = bit y 1" and "bit x 2 = bit y 2" and "bit x 3 = bit y 3"
    and "bit x 4 = bit y 4" and "bit x 5 = bit y 5" and "bit x 6 = bit y 6" and "bit x 7 = bit y 7"
    and "bit x 8 = bit y 8" and "bit x 9 = bit y 9" and "bit x 10 = bit y 10" and "bit x 11 = bit y 11"
    and "bit x 12 = bit y 12" and "bit x 13 = bit y 13" and "bit x 14 = bit y 14" and "bit x 15 = bit y 15"
  shows "x = y"
proof (rule word_eq_all_bits)
  show "list_all (\<lambda>k. bit x k = bit y k) [0..<LENGTH(16)]"
    using assms by (simp add: upt_rec [of 0] upt_rec [of "Suc 0"] upt_rec_numeral flip: numeral_2_eq_2)
qed

lemma word32_eqI:
  fixes x y :: "32 word"
  assumes "bit x 0 = bit y 0" and "bit x 1 = bit y 1" and "bit x 2 = bit y 2" and "bit x 3 = bit y 3"
    and "bit x 4 = bit y 4" and "bit x 5 = bit y 5" and "bit x 6 = bit y 6" and "bit x 7 = bit y 7"
    and "bit x 8 = bit y 8" and "bit x 9 = bit y 9" and "bit x 10 = bit y 10" and "bit x 11 = bit y 11"
    and "bit x 12 = bit y 12" and "bit x 13 = bit y 13" and "bit x 14 = bit y 14" and "bit x 15 = bit y 15"
    and "bit x 16 = bit y 16" and "bit x 17 = bit y 17" and "bit x 18 = bit y 18" and "bit x 19 = bit y 19"
    and "bit x 20 = bit y 20" and "bit x 21 = bit y 21" and "bit x 22 = bit y 22" and "bit x 23 = bit y 23"
    and "bit x 24 = bit y 24" and "bit x 25 = bit y 25" and "bit x 26 = bit y 26" and "bit x 27 = bit y 27"
    and "bit x 28 = bit y 28" and "bit x 29 = bit y 29" and "bit x 30 = bit y 30" and "bit x 31 = bit y 31"
  shows "x = y"
proof (rule word_eq_all_bits)
  show "list_all (\<lambda>k. bit x k = bit y k) [0..<LENGTH(32)]"
    using assms by (simp add: upt_rec [of 0] upt_rec [of "Suc 0"] upt_rec_numeral flip: numeral_2_eq_2)
qed

lemma word64_eqI:
  fixes x y :: "64 word"
  assumes "bit x 0 = bit y 0" and "bit x 1 = bit y 1" and "bit x 2 = bit y 2" and "bit x 3 = bit y 3"
    and "bit x 4 = bit y 4" and "bit x 5 = bit y 5" and "bit x 6 = bit y 6" and "bit x 7 = bit y 7"
    and "bit x 8 = bit y 8" and "bit x 9 = bit y 9" and "bit x 10 = bit y 10" and "bit x 11 = bit y 11"
    and "bit x 12 = bit y 12" and "bit x 13 = bit y 13" and "bit x 14 = bit y 14" and "bit x 15 = bit y 15"
    and "bit x 16 = bit y 16" and "bit x 17 = bit y 17" and "bit x 18 = bit y 18" and "bit x 19 = bit y 19"
    and "bit x 20 = bit y 20" and "bit x 21 = bit y 21" and "bit x 22 = bit y 22" and "bit x 23 = bit y 23"
    and "bit x 24 = bit y 24" and "bit x 25 = bit y 25" and "bit x 26 = bit y 26" and "bit x 27 = bit y 27"
    and "bit x 28 = bit y 28" and "bit x 29 = bit y 29" and "bit x 30 = bit y 30" and "bit x 31 = bit y 31"
    and "bit x 32 = bit y 32" and "bit x 33 = bit y 33" and "bit x 34 = bit y 34" and "bit x 35 = bit y 35"
    and "bit x 36 = bit y 36" and "bit x 37 = bit y 37" and "bit x 38 = bit y 38" and "bit x 39 = bit y 39"
    and "bit x 40 = bit y 40" and "bit x 41 = bit y 41" and "bit x 42 = bit y 42" and "bit x 43 = bit y 43"
    and "bit x 44 = bit y 44" and "bit x 45 = bit y 45" and "bit x 46 = bit y 46" and "bit x 47 = bit y 47"
    and "bit x 48 = bit y 48" and "bit x 49 = bit y 49" and "bit x 50 = bit y 50" and "bit x 51 = bit y 51"
    and "bit x 52 = bit y 52" and "bit x 53 = bit y 53" and "bit x 54 = bit y 54" and "bit x 55 = bit y 55"
    and "bit x 56 = bit y 56" and "bit x 57 = bit y 57" and "bit x 58 = bit y 58" and "bit x 59 = bit y 59"
    and "bit x 60 = bit y 60" and "bit x 61 = bit y 61" and "bit x 62 = bit y 62" and "bit x 63 = bit y 63"
  shows "x = y"
proof (rule word_eq_all_bits)
  show "list_all (\<lambda>k. bit x k = bit y k) [0..<LENGTH(64)]"
    using assms by (simp add: upt_rec [of 0] upt_rec [of "Suc 0"] upt_rec_numeral flip: numeral_2_eq_2)
qed

section \<open>Reasoning about results\<close>

lemma and_then_simps [simp]:
  "and_then (Ok v s) k = k v s" "and_then (Err s) k = Err s" "and_then Panic k = Panic"
  by (simp_all add: and_then_def)

lemma leaves_simps [simp]:
  "leaves (Ok v s) P = P s" "leaves (Err s) P = P s" "leaves Panic P = False"
  by (simp_all add: leaves_def)

lemma keeps_simps [simp]:
  "keeps (Ok v s) P = P s" "keeps (Err s) P = P s" "keeps Panic P = True"
  by (simp_all add: keeps_def)

lemma keeps_and_then [intro]:
  assumes "keeps r P" "\<And>v s. r = Ok v s \<Longrightarrow> P s \<Longrightarrow> keeps (k v s) P"
  shows "keeps (and_then r k) P"
  using assms by (cases r) auto

lemma and_then_Ok_iff:
  "and_then r k = Ok v s \<longleftrightarrow> (\<exists>v' s'. r = Ok v' s' \<and> k v' s' = Ok v s)"
  by (cases r) auto

lemma keeps_if [intro]:
  "(c \<Longrightarrow> keeps a P) \<Longrightarrow> (\<not> c \<Longrightarrow> keeps b P) \<Longrightarrow> keeps (if c then a else b) P"
  by simp

lemma keeps_mono: "keeps r P \<Longrightarrow> (\<And>s. P s \<Longrightarrow> Q s) \<Longrightarrow> keeps r Q"
  by (cases r) auto

end
