(* ===== verification/Riscv_Op.thy ===== *)
theory Riscv_Op
  imports Rust_Prelude
begin

text \<open>
  The RISC-V instruction type of \<open>lib/riscv/src/op.rs\<close> and the CSR numbers of
  \<open>lib/riscv/src/csr.rs\<close>.

  The Rust enum \<open>Op\<close> has 161 constructors. Constructors with the same operands and the same
  base opcode are factored here into one constructor with a selector (\<open>Lb\<close>, \<open>Lh\<close>,
  \<dots> are \<open>OpLoad Lb_k\<close>, \<open>OpLoad Lh_k\<close>, \<dots>), and every constructor of the
  source that is factored this way is an abbreviation with the source's name and operand order.
  The two types are isomorphic, and the decoder and the interpreter are written with the source's
  names. A \<open>Csr\<close> is the \<open>u16\<close> the newtype wraps.
\<close>

section \<open>Control and status registers\<close>

type_synonym Csr = u16

abbreviation Csr_Fflags :: Csr where "Csr_Fflags \<equiv> 0x001"
abbreviation Csr_Frm :: Csr where "Csr_Frm \<equiv> 0x002"
abbreviation Csr_Fcsr :: Csr where "Csr_Fcsr \<equiv> 0x003"
abbreviation Csr_Cycle :: Csr where "Csr_Cycle \<equiv> 0xC00"
abbreviation Csr_Time :: Csr where "Csr_Time \<equiv> 0xC01"
abbreviation Csr_Instret :: Csr where "Csr_Instret \<equiv> 0xC02"
abbreviation Csr_Cycleh :: Csr where "Csr_Cycleh \<equiv> 0xC80"
abbreviation Csr_Timeh :: Csr where "Csr_Timeh \<equiv> 0xC81"
abbreviation Csr_Instreth :: Csr where "Csr_Instreth \<equiv> 0xC82"
abbreviation Csr_Sstatus :: Csr where "Csr_Sstatus \<equiv> 0x100"
abbreviation Csr_Sie :: Csr where "Csr_Sie \<equiv> 0x104"
abbreviation Csr_Stvec :: Csr where "Csr_Stvec \<equiv> 0x105"
abbreviation Csr_Scounteren :: Csr where "Csr_Scounteren \<equiv> 0x106"
abbreviation Csr_Sscratch :: Csr where "Csr_Sscratch \<equiv> 0x140"
abbreviation Csr_Sepc :: Csr where "Csr_Sepc \<equiv> 0x141"
abbreviation Csr_Scause :: Csr where "Csr_Scause \<equiv> 0x142"
abbreviation Csr_Stval :: Csr where "Csr_Stval \<equiv> 0x143"
abbreviation Csr_Sip :: Csr where "Csr_Sip \<equiv> 0x144"
abbreviation Csr_Satp :: Csr where "Csr_Satp \<equiv> 0x180"
abbreviation Csr_Mvendorid :: Csr where "Csr_Mvendorid \<equiv> 0xF11"
abbreviation Csr_Marchid :: Csr where "Csr_Marchid \<equiv> 0xF12"
abbreviation Csr_Mimpid :: Csr where "Csr_Mimpid \<equiv> 0xF13"
abbreviation Csr_Mhartid :: Csr where "Csr_Mhartid \<equiv> 0xF14"
abbreviation Csr_Mstatus :: Csr where "Csr_Mstatus \<equiv> 0x300"
abbreviation Csr_Misa :: Csr where "Csr_Misa \<equiv> 0x301"
abbreviation Csr_Medeleg :: Csr where "Csr_Medeleg \<equiv> 0x302"
abbreviation Csr_Mideleg :: Csr where "Csr_Mideleg \<equiv> 0x303"
abbreviation Csr_Mie :: Csr where "Csr_Mie \<equiv> 0x304"
abbreviation Csr_Mtvec :: Csr where "Csr_Mtvec \<equiv> 0x305"
abbreviation Csr_Mcounteren :: Csr where "Csr_Mcounteren \<equiv> 0x306"
abbreviation Csr_Mscratch :: Csr where "Csr_Mscratch \<equiv> 0x340"
abbreviation Csr_Mepc :: Csr where "Csr_Mepc \<equiv> 0x341"
abbreviation Csr_Mcause :: Csr where "Csr_Mcause \<equiv> 0x342"
abbreviation Csr_Mtval :: Csr where "Csr_Mtval \<equiv> 0x343"
abbreviation Csr_Mip :: Csr where "Csr_Mip \<equiv> 0x344"
abbreviation Csr_Mcycle :: Csr where "Csr_Mcycle \<equiv> 0xB00"
abbreviation Csr_Mtime :: Csr where "Csr_Mtime \<equiv> 0xB01"
abbreviation Csr_Minstret :: Csr where "Csr_Minstret \<equiv> 0xB02"

definition csr_min_prv_level :: "Csr \<Rightarrow> u8" where
  "csr_min_prv_level c = ucast (drop_bit 8 c AND 0b11)"

definition csr_readonly :: "Csr \<Rightarrow> bool" where
  "csr_readonly c \<longleftrightarrow> drop_bit 10 c AND 0b11 = 0b11"

section \<open>The instruction type\<close>

datatype (plugins only: code size) Ordering = Relaxed | Release | Acquire | SeqCst

datatype (plugins only: code size) load_op = Lb_k | Lh_k | Lw_k | Ld_k | Lbu_k | Lhu_k | Lwu_k
datatype (plugins only: code size) imm_op = Addi_k | Slli_k | Slti_k | Sltiu_k | Xori_k | Srli_k | Srai_k | Ori_k | Andi_k
datatype (plugins only: code size) imm32_op = Addiw_k | Slliw_k | Srliw_k | Sraiw_k
datatype (plugins only: code size) store_op = Sb_k | Sh_k | Sw_k | Sd_k
datatype (plugins only: code size) reg_op =
  Add_k | Sub_k | Sll_k | Slt_k | Sltu_k | Xor_k | Srl_k | Sra_k | Or_k | And_k
datatype (plugins only: code size) reg32_op = Addw_k | Subw_k | Sllw_k | Srlw_k | Sraw_k
datatype (plugins only: code size) branch_op = Beq_k | Bne_k | Blt_k | Bge_k | Bltu_k | Bgeu_k
datatype (plugins only: code size) csr_op = Csrrw_k | Csrrs_k | Csrrc_k
datatype (plugins only: code size) csri_op = Csrrwi_k | Csrrsi_k | Csrrci_k
datatype (plugins only: code size) mul_op = Mul_k | Mulh_k | Mulhsu_k | Mulhu_k | Div_k | Divu_k | Rem_k | Remu_k
datatype (plugins only: code size) mul32_op = Mulw_k | Divw_k | Divuw_k | Remw_k | Remuw_k
datatype (plugins only: code size) amo_width = W32 | D64
datatype (plugins only: code size) amo_op =
  Sc_k | Amoswap_k | Amoadd_k | Amoxor_k | Amoand_k | Amoor_k
  | Amomin_k | Amomax_k | Amominu_k | Amomaxu_k
datatype (plugins only: code size) fp_fmt = FmtS | FmtD
datatype (plugins only: code size) farith_op = Fadd_k | Fsub_k | Fmul_k | Fdiv_k
datatype (plugins only: code size) fsgn_op = Fsgnj_k | Fsgnjn_k | Fsgnjx_k | Fmin_k | Fmax_k
datatype (plugins only: code size) int_fmt = IntW | IntWu | IntL | IntLu
datatype (plugins only: code size) fcmp_op = Feq_k | Flt_k | Fle_k
datatype (plugins only: code size) fmadd_op = Fmadd_k | Fmsub_k | Fnmsub_k | Fnmadd_k

datatype (plugins only: code size) Op =
    Illegal
  | OpLoad load_op u8 u8 i32
  | Fence
  | FenceI
  | OpImm imm_op u8 u8 i32
  | Auipc u8 i32
  | OpImm32 imm32_op u8 u8 i32
  | OpStore store_op u8 u8 i32
  | OpReg reg_op u8 u8 u8
  | Lui u8 i32
  | OpReg32 reg32_op u8 u8 u8
  | OpBranch branch_op u8 u8 i32
  | Jalr u8 u8 i32
  | Jal u8 i32
  | Ecall
  | Ebreak
  | OpCsr csr_op u8 u8 Csr
  | OpCsrI csri_op u8 u8 Csr
  | OpMul mul_op u8 u8 u8
  | OpMul32 mul32_op u8 u8 u8
  | OpLr amo_width u8 u8 Ordering
  | OpAmo amo_op amo_width u8 u8 u8 Ordering
  | OpFLoad fp_fmt u8 u8 i32
  | OpFStore fp_fmt u8 u8 i32
  | OpFArith farith_op fp_fmt u8 u8 u8 u8
  | OpFSqrt fp_fmt u8 u8 u8
  | OpFSgn fsgn_op fp_fmt u8 u8 u8
  | OpFCvtToInt int_fmt fp_fmt u8 u8 u8
  | OpFMvToInt fp_fmt u8 u8
  | OpFClass fp_fmt u8 u8
  | OpFCmp fcmp_op fp_fmt u8 u8 u8
  | OpFCvtFromInt int_fmt fp_fmt u8 u8 u8
  | OpFMvFromInt fp_fmt u8 u8
  | OpFMadd fmadd_op fp_fmt u8 u8 u8 u8 u8
  | FcvtSD u8 u8 u8
  | FcvtDS u8 u8 u8
  | Mret
  | Sret
  | Wfi
  | SfenceVma u8 u8

text \<open>The factored constructors under their names in the source.\<close>

abbreviation Lb :: "u8 \<Rightarrow> u8 \<Rightarrow> i32 \<Rightarrow> Op" where
  "Lb \<equiv> OpLoad Lb_k"
abbreviation Lh :: "u8 \<Rightarrow> u8 \<Rightarrow> i32 \<Rightarrow> Op" where
  "Lh \<equiv> OpLoad Lh_k"
abbreviation Lw :: "u8 \<Rightarrow> u8 \<Rightarrow> i32 \<Rightarrow> Op" where
  "Lw \<equiv> OpLoad Lw_k"
abbreviation Ld :: "u8 \<Rightarrow> u8 \<Rightarrow> i32 \<Rightarrow> Op" where
  "Ld \<equiv> OpLoad Ld_k"
abbreviation Lbu :: "u8 \<Rightarrow> u8 \<Rightarrow> i32 \<Rightarrow> Op" where
  "Lbu \<equiv> OpLoad Lbu_k"
abbreviation Lhu :: "u8 \<Rightarrow> u8 \<Rightarrow> i32 \<Rightarrow> Op" where
  "Lhu \<equiv> OpLoad Lhu_k"
abbreviation Lwu :: "u8 \<Rightarrow> u8 \<Rightarrow> i32 \<Rightarrow> Op" where
  "Lwu \<equiv> OpLoad Lwu_k"
abbreviation Addi :: "u8 \<Rightarrow> u8 \<Rightarrow> i32 \<Rightarrow> Op" where
  "Addi \<equiv> OpImm Addi_k"
abbreviation Slli :: "u8 \<Rightarrow> u8 \<Rightarrow> i32 \<Rightarrow> Op" where
  "Slli \<equiv> OpImm Slli_k"
abbreviation Slti :: "u8 \<Rightarrow> u8 \<Rightarrow> i32 \<Rightarrow> Op" where
  "Slti \<equiv> OpImm Slti_k"
abbreviation Sltiu :: "u8 \<Rightarrow> u8 \<Rightarrow> i32 \<Rightarrow> Op" where
  "Sltiu \<equiv> OpImm Sltiu_k"
abbreviation Xori :: "u8 \<Rightarrow> u8 \<Rightarrow> i32 \<Rightarrow> Op" where
  "Xori \<equiv> OpImm Xori_k"
abbreviation Srli :: "u8 \<Rightarrow> u8 \<Rightarrow> i32 \<Rightarrow> Op" where
  "Srli \<equiv> OpImm Srli_k"
abbreviation Srai :: "u8 \<Rightarrow> u8 \<Rightarrow> i32 \<Rightarrow> Op" where
  "Srai \<equiv> OpImm Srai_k"
abbreviation Ori :: "u8 \<Rightarrow> u8 \<Rightarrow> i32 \<Rightarrow> Op" where
  "Ori \<equiv> OpImm Ori_k"
abbreviation Andi :: "u8 \<Rightarrow> u8 \<Rightarrow> i32 \<Rightarrow> Op" where
  "Andi \<equiv> OpImm Andi_k"
abbreviation Addiw :: "u8 \<Rightarrow> u8 \<Rightarrow> i32 \<Rightarrow> Op" where
  "Addiw \<equiv> OpImm32 Addiw_k"
abbreviation Slliw :: "u8 \<Rightarrow> u8 \<Rightarrow> i32 \<Rightarrow> Op" where
  "Slliw \<equiv> OpImm32 Slliw_k"
abbreviation Srliw :: "u8 \<Rightarrow> u8 \<Rightarrow> i32 \<Rightarrow> Op" where
  "Srliw \<equiv> OpImm32 Srliw_k"
abbreviation Sraiw :: "u8 \<Rightarrow> u8 \<Rightarrow> i32 \<Rightarrow> Op" where
  "Sraiw \<equiv> OpImm32 Sraiw_k"
abbreviation Sb :: "u8 \<Rightarrow> u8 \<Rightarrow> i32 \<Rightarrow> Op" where
  "Sb \<equiv> OpStore Sb_k"
abbreviation Sh :: "u8 \<Rightarrow> u8 \<Rightarrow> i32 \<Rightarrow> Op" where
  "Sh \<equiv> OpStore Sh_k"
abbreviation Sw :: "u8 \<Rightarrow> u8 \<Rightarrow> i32 \<Rightarrow> Op" where
  "Sw \<equiv> OpStore Sw_k"
abbreviation Sd :: "u8 \<Rightarrow> u8 \<Rightarrow> i32 \<Rightarrow> Op" where
  "Sd \<equiv> OpStore Sd_k"
abbreviation Add :: "u8 \<Rightarrow> u8 \<Rightarrow> u8 \<Rightarrow> Op" where
  "Add \<equiv> OpReg Add_k"
abbreviation Sub :: "u8 \<Rightarrow> u8 \<Rightarrow> u8 \<Rightarrow> Op" where
  "Sub \<equiv> OpReg Sub_k"
abbreviation Sll :: "u8 \<Rightarrow> u8 \<Rightarrow> u8 \<Rightarrow> Op" where
  "Sll \<equiv> OpReg Sll_k"
abbreviation Slt :: "u8 \<Rightarrow> u8 \<Rightarrow> u8 \<Rightarrow> Op" where
  "Slt \<equiv> OpReg Slt_k"
abbreviation Sltu :: "u8 \<Rightarrow> u8 \<Rightarrow> u8 \<Rightarrow> Op" where
  "Sltu \<equiv> OpReg Sltu_k"
abbreviation Xor :: "u8 \<Rightarrow> u8 \<Rightarrow> u8 \<Rightarrow> Op" where
  "Xor \<equiv> OpReg Xor_k"
abbreviation Srl :: "u8 \<Rightarrow> u8 \<Rightarrow> u8 \<Rightarrow> Op" where
  "Srl \<equiv> OpReg Srl_k"
abbreviation Sra :: "u8 \<Rightarrow> u8 \<Rightarrow> u8 \<Rightarrow> Op" where
  "Sra \<equiv> OpReg Sra_k"
abbreviation Or :: "u8 \<Rightarrow> u8 \<Rightarrow> u8 \<Rightarrow> Op" where
  "Or \<equiv> OpReg Or_k"
abbreviation And :: "u8 \<Rightarrow> u8 \<Rightarrow> u8 \<Rightarrow> Op" where
  "And \<equiv> OpReg And_k"
abbreviation Addw :: "u8 \<Rightarrow> u8 \<Rightarrow> u8 \<Rightarrow> Op" where
  "Addw \<equiv> OpReg32 Addw_k"
abbreviation Subw :: "u8 \<Rightarrow> u8 \<Rightarrow> u8 \<Rightarrow> Op" where
  "Subw \<equiv> OpReg32 Subw_k"
abbreviation Sllw :: "u8 \<Rightarrow> u8 \<Rightarrow> u8 \<Rightarrow> Op" where
  "Sllw \<equiv> OpReg32 Sllw_k"
abbreviation Srlw :: "u8 \<Rightarrow> u8 \<Rightarrow> u8 \<Rightarrow> Op" where
  "Srlw \<equiv> OpReg32 Srlw_k"
abbreviation Sraw :: "u8 \<Rightarrow> u8 \<Rightarrow> u8 \<Rightarrow> Op" where
  "Sraw \<equiv> OpReg32 Sraw_k"
abbreviation Beq :: "u8 \<Rightarrow> u8 \<Rightarrow> i32 \<Rightarrow> Op" where
  "Beq \<equiv> OpBranch Beq_k"
abbreviation Bne :: "u8 \<Rightarrow> u8 \<Rightarrow> i32 \<Rightarrow> Op" where
  "Bne \<equiv> OpBranch Bne_k"
abbreviation Blt :: "u8 \<Rightarrow> u8 \<Rightarrow> i32 \<Rightarrow> Op" where
  "Blt \<equiv> OpBranch Blt_k"
abbreviation Bge :: "u8 \<Rightarrow> u8 \<Rightarrow> i32 \<Rightarrow> Op" where
  "Bge \<equiv> OpBranch Bge_k"
abbreviation Bltu :: "u8 \<Rightarrow> u8 \<Rightarrow> i32 \<Rightarrow> Op" where
  "Bltu \<equiv> OpBranch Bltu_k"
abbreviation Bgeu :: "u8 \<Rightarrow> u8 \<Rightarrow> i32 \<Rightarrow> Op" where
  "Bgeu \<equiv> OpBranch Bgeu_k"
abbreviation Csrrw :: "u8 \<Rightarrow> u8 \<Rightarrow> Csr \<Rightarrow> Op" where
  "Csrrw \<equiv> OpCsr Csrrw_k"
abbreviation Csrrs :: "u8 \<Rightarrow> u8 \<Rightarrow> Csr \<Rightarrow> Op" where
  "Csrrs \<equiv> OpCsr Csrrs_k"
abbreviation Csrrc :: "u8 \<Rightarrow> u8 \<Rightarrow> Csr \<Rightarrow> Op" where
  "Csrrc \<equiv> OpCsr Csrrc_k"
abbreviation Csrrwi :: "u8 \<Rightarrow> u8 \<Rightarrow> Csr \<Rightarrow> Op" where
  "Csrrwi \<equiv> OpCsrI Csrrwi_k"
abbreviation Csrrsi :: "u8 \<Rightarrow> u8 \<Rightarrow> Csr \<Rightarrow> Op" where
  "Csrrsi \<equiv> OpCsrI Csrrsi_k"
abbreviation Csrrci :: "u8 \<Rightarrow> u8 \<Rightarrow> Csr \<Rightarrow> Op" where
  "Csrrci \<equiv> OpCsrI Csrrci_k"
abbreviation Mul :: "u8 \<Rightarrow> u8 \<Rightarrow> u8 \<Rightarrow> Op" where
  "Mul \<equiv> OpMul Mul_k"
abbreviation Mulh :: "u8 \<Rightarrow> u8 \<Rightarrow> u8 \<Rightarrow> Op" where
  "Mulh \<equiv> OpMul Mulh_k"
abbreviation Mulhsu :: "u8 \<Rightarrow> u8 \<Rightarrow> u8 \<Rightarrow> Op" where
  "Mulhsu \<equiv> OpMul Mulhsu_k"
abbreviation Mulhu :: "u8 \<Rightarrow> u8 \<Rightarrow> u8 \<Rightarrow> Op" where
  "Mulhu \<equiv> OpMul Mulhu_k"
abbreviation Div :: "u8 \<Rightarrow> u8 \<Rightarrow> u8 \<Rightarrow> Op" where
  "Div \<equiv> OpMul Div_k"
abbreviation Divu :: "u8 \<Rightarrow> u8 \<Rightarrow> u8 \<Rightarrow> Op" where
  "Divu \<equiv> OpMul Divu_k"
abbreviation Rem :: "u8 \<Rightarrow> u8 \<Rightarrow> u8 \<Rightarrow> Op" where
  "Rem \<equiv> OpMul Rem_k"
abbreviation Remu :: "u8 \<Rightarrow> u8 \<Rightarrow> u8 \<Rightarrow> Op" where
  "Remu \<equiv> OpMul Remu_k"
abbreviation Mulw :: "u8 \<Rightarrow> u8 \<Rightarrow> u8 \<Rightarrow> Op" where
  "Mulw \<equiv> OpMul32 Mulw_k"
abbreviation Divw :: "u8 \<Rightarrow> u8 \<Rightarrow> u8 \<Rightarrow> Op" where
  "Divw \<equiv> OpMul32 Divw_k"
abbreviation Divuw :: "u8 \<Rightarrow> u8 \<Rightarrow> u8 \<Rightarrow> Op" where
  "Divuw \<equiv> OpMul32 Divuw_k"
abbreviation Remw :: "u8 \<Rightarrow> u8 \<Rightarrow> u8 \<Rightarrow> Op" where
  "Remw \<equiv> OpMul32 Remw_k"
abbreviation Remuw :: "u8 \<Rightarrow> u8 \<Rightarrow> u8 \<Rightarrow> Op" where
  "Remuw \<equiv> OpMul32 Remuw_k"
abbreviation LrW :: "u8 \<Rightarrow> u8 \<Rightarrow> Ordering \<Rightarrow> Op" where
  "LrW \<equiv> OpLr W32"
abbreviation LrD :: "u8 \<Rightarrow> u8 \<Rightarrow> Ordering \<Rightarrow> Op" where
  "LrD \<equiv> OpLr D64"
abbreviation ScW :: "u8 \<Rightarrow> u8 \<Rightarrow> u8 \<Rightarrow> Ordering \<Rightarrow> Op" where
  "ScW \<equiv> OpAmo Sc_k W32"
abbreviation ScD :: "u8 \<Rightarrow> u8 \<Rightarrow> u8 \<Rightarrow> Ordering \<Rightarrow> Op" where
  "ScD \<equiv> OpAmo Sc_k D64"
abbreviation AmoswapW :: "u8 \<Rightarrow> u8 \<Rightarrow> u8 \<Rightarrow> Ordering \<Rightarrow> Op" where
  "AmoswapW \<equiv> OpAmo Amoswap_k W32"
abbreviation AmoswapD :: "u8 \<Rightarrow> u8 \<Rightarrow> u8 \<Rightarrow> Ordering \<Rightarrow> Op" where
  "AmoswapD \<equiv> OpAmo Amoswap_k D64"
abbreviation AmoaddW :: "u8 \<Rightarrow> u8 \<Rightarrow> u8 \<Rightarrow> Ordering \<Rightarrow> Op" where
  "AmoaddW \<equiv> OpAmo Amoadd_k W32"
abbreviation AmoaddD :: "u8 \<Rightarrow> u8 \<Rightarrow> u8 \<Rightarrow> Ordering \<Rightarrow> Op" where
  "AmoaddD \<equiv> OpAmo Amoadd_k D64"
abbreviation AmoxorW :: "u8 \<Rightarrow> u8 \<Rightarrow> u8 \<Rightarrow> Ordering \<Rightarrow> Op" where
  "AmoxorW \<equiv> OpAmo Amoxor_k W32"
abbreviation AmoxorD :: "u8 \<Rightarrow> u8 \<Rightarrow> u8 \<Rightarrow> Ordering \<Rightarrow> Op" where
  "AmoxorD \<equiv> OpAmo Amoxor_k D64"
abbreviation AmoandW :: "u8 \<Rightarrow> u8 \<Rightarrow> u8 \<Rightarrow> Ordering \<Rightarrow> Op" where
  "AmoandW \<equiv> OpAmo Amoand_k W32"
abbreviation AmoandD :: "u8 \<Rightarrow> u8 \<Rightarrow> u8 \<Rightarrow> Ordering \<Rightarrow> Op" where
  "AmoandD \<equiv> OpAmo Amoand_k D64"
abbreviation AmoorW :: "u8 \<Rightarrow> u8 \<Rightarrow> u8 \<Rightarrow> Ordering \<Rightarrow> Op" where
  "AmoorW \<equiv> OpAmo Amoor_k W32"
abbreviation AmoorD :: "u8 \<Rightarrow> u8 \<Rightarrow> u8 \<Rightarrow> Ordering \<Rightarrow> Op" where
  "AmoorD \<equiv> OpAmo Amoor_k D64"
abbreviation AmominW :: "u8 \<Rightarrow> u8 \<Rightarrow> u8 \<Rightarrow> Ordering \<Rightarrow> Op" where
  "AmominW \<equiv> OpAmo Amomin_k W32"
abbreviation AmominD :: "u8 \<Rightarrow> u8 \<Rightarrow> u8 \<Rightarrow> Ordering \<Rightarrow> Op" where
  "AmominD \<equiv> OpAmo Amomin_k D64"
abbreviation AmomaxW :: "u8 \<Rightarrow> u8 \<Rightarrow> u8 \<Rightarrow> Ordering \<Rightarrow> Op" where
  "AmomaxW \<equiv> OpAmo Amomax_k W32"
abbreviation AmomaxD :: "u8 \<Rightarrow> u8 \<Rightarrow> u8 \<Rightarrow> Ordering \<Rightarrow> Op" where
  "AmomaxD \<equiv> OpAmo Amomax_k D64"
abbreviation AmominuW :: "u8 \<Rightarrow> u8 \<Rightarrow> u8 \<Rightarrow> Ordering \<Rightarrow> Op" where
  "AmominuW \<equiv> OpAmo Amominu_k W32"
abbreviation AmominuD :: "u8 \<Rightarrow> u8 \<Rightarrow> u8 \<Rightarrow> Ordering \<Rightarrow> Op" where
  "AmominuD \<equiv> OpAmo Amominu_k D64"
abbreviation AmomaxuW :: "u8 \<Rightarrow> u8 \<Rightarrow> u8 \<Rightarrow> Ordering \<Rightarrow> Op" where
  "AmomaxuW \<equiv> OpAmo Amomaxu_k W32"
abbreviation AmomaxuD :: "u8 \<Rightarrow> u8 \<Rightarrow> u8 \<Rightarrow> Ordering \<Rightarrow> Op" where
  "AmomaxuD \<equiv> OpAmo Amomaxu_k D64"
abbreviation Flw :: "u8 \<Rightarrow> u8 \<Rightarrow> i32 \<Rightarrow> Op" where
  "Flw \<equiv> OpFLoad FmtS"
abbreviation Fsw :: "u8 \<Rightarrow> u8 \<Rightarrow> i32 \<Rightarrow> Op" where
  "Fsw \<equiv> OpFStore FmtS"
abbreviation FaddS :: "u8 \<Rightarrow> u8 \<Rightarrow> u8 \<Rightarrow> u8 \<Rightarrow> Op" where
  "FaddS \<equiv> OpFArith Fadd_k FmtS"
abbreviation FsubS :: "u8 \<Rightarrow> u8 \<Rightarrow> u8 \<Rightarrow> u8 \<Rightarrow> Op" where
  "FsubS \<equiv> OpFArith Fsub_k FmtS"
abbreviation FmulS :: "u8 \<Rightarrow> u8 \<Rightarrow> u8 \<Rightarrow> u8 \<Rightarrow> Op" where
  "FmulS \<equiv> OpFArith Fmul_k FmtS"
abbreviation FdivS :: "u8 \<Rightarrow> u8 \<Rightarrow> u8 \<Rightarrow> u8 \<Rightarrow> Op" where
  "FdivS \<equiv> OpFArith Fdiv_k FmtS"
abbreviation FsqrtS :: "u8 \<Rightarrow> u8 \<Rightarrow> u8 \<Rightarrow> Op" where
  "FsqrtS \<equiv> OpFSqrt FmtS"
abbreviation FsgnjS :: "u8 \<Rightarrow> u8 \<Rightarrow> u8 \<Rightarrow> Op" where
  "FsgnjS \<equiv> OpFSgn Fsgnj_k FmtS"
abbreviation FsgnjnS :: "u8 \<Rightarrow> u8 \<Rightarrow> u8 \<Rightarrow> Op" where
  "FsgnjnS \<equiv> OpFSgn Fsgnjn_k FmtS"
abbreviation FsgnjxS :: "u8 \<Rightarrow> u8 \<Rightarrow> u8 \<Rightarrow> Op" where
  "FsgnjxS \<equiv> OpFSgn Fsgnjx_k FmtS"
abbreviation FminS :: "u8 \<Rightarrow> u8 \<Rightarrow> u8 \<Rightarrow> Op" where
  "FminS \<equiv> OpFSgn Fmin_k FmtS"
abbreviation FmaxS :: "u8 \<Rightarrow> u8 \<Rightarrow> u8 \<Rightarrow> Op" where
  "FmaxS \<equiv> OpFSgn Fmax_k FmtS"
abbreviation FcvtWS :: "u8 \<Rightarrow> u8 \<Rightarrow> u8 \<Rightarrow> Op" where
  "FcvtWS \<equiv> OpFCvtToInt IntW FmtS"
abbreviation FcvtWuS :: "u8 \<Rightarrow> u8 \<Rightarrow> u8 \<Rightarrow> Op" where
  "FcvtWuS \<equiv> OpFCvtToInt IntWu FmtS"
abbreviation FcvtLS :: "u8 \<Rightarrow> u8 \<Rightarrow> u8 \<Rightarrow> Op" where
  "FcvtLS \<equiv> OpFCvtToInt IntL FmtS"
abbreviation FcvtLuS :: "u8 \<Rightarrow> u8 \<Rightarrow> u8 \<Rightarrow> Op" where
  "FcvtLuS \<equiv> OpFCvtToInt IntLu FmtS"
abbreviation FmvXW :: "u8 \<Rightarrow> u8 \<Rightarrow> Op" where
  "FmvXW \<equiv> OpFMvToInt FmtS"
abbreviation FclassS :: "u8 \<Rightarrow> u8 \<Rightarrow> Op" where
  "FclassS \<equiv> OpFClass FmtS"
abbreviation FeqS :: "u8 \<Rightarrow> u8 \<Rightarrow> u8 \<Rightarrow> Op" where
  "FeqS \<equiv> OpFCmp Feq_k FmtS"
abbreviation FltS :: "u8 \<Rightarrow> u8 \<Rightarrow> u8 \<Rightarrow> Op" where
  "FltS \<equiv> OpFCmp Flt_k FmtS"
abbreviation FleS :: "u8 \<Rightarrow> u8 \<Rightarrow> u8 \<Rightarrow> Op" where
  "FleS \<equiv> OpFCmp Fle_k FmtS"
abbreviation FcvtSW :: "u8 \<Rightarrow> u8 \<Rightarrow> u8 \<Rightarrow> Op" where
  "FcvtSW \<equiv> OpFCvtFromInt IntW FmtS"
abbreviation FcvtSWu :: "u8 \<Rightarrow> u8 \<Rightarrow> u8 \<Rightarrow> Op" where
  "FcvtSWu \<equiv> OpFCvtFromInt IntWu FmtS"
abbreviation FcvtSL :: "u8 \<Rightarrow> u8 \<Rightarrow> u8 \<Rightarrow> Op" where
  "FcvtSL \<equiv> OpFCvtFromInt IntL FmtS"
abbreviation FcvtSLu :: "u8 \<Rightarrow> u8 \<Rightarrow> u8 \<Rightarrow> Op" where
  "FcvtSLu \<equiv> OpFCvtFromInt IntLu FmtS"
abbreviation FmvWX :: "u8 \<Rightarrow> u8 \<Rightarrow> Op" where
  "FmvWX \<equiv> OpFMvFromInt FmtS"
abbreviation FmaddS :: "u8 \<Rightarrow> u8 \<Rightarrow> u8 \<Rightarrow> u8 \<Rightarrow> u8 \<Rightarrow> Op" where
  "FmaddS \<equiv> OpFMadd Fmadd_k FmtS"
abbreviation FmsubS :: "u8 \<Rightarrow> u8 \<Rightarrow> u8 \<Rightarrow> u8 \<Rightarrow> u8 \<Rightarrow> Op" where
  "FmsubS \<equiv> OpFMadd Fmsub_k FmtS"
abbreviation FnmsubS :: "u8 \<Rightarrow> u8 \<Rightarrow> u8 \<Rightarrow> u8 \<Rightarrow> u8 \<Rightarrow> Op" where
  "FnmsubS \<equiv> OpFMadd Fnmsub_k FmtS"
abbreviation FnmaddS :: "u8 \<Rightarrow> u8 \<Rightarrow> u8 \<Rightarrow> u8 \<Rightarrow> u8 \<Rightarrow> Op" where
  "FnmaddS \<equiv> OpFMadd Fnmadd_k FmtS"
abbreviation Fld :: "u8 \<Rightarrow> u8 \<Rightarrow> i32 \<Rightarrow> Op" where
  "Fld \<equiv> OpFLoad FmtD"
abbreviation Fsd :: "u8 \<Rightarrow> u8 \<Rightarrow> i32 \<Rightarrow> Op" where
  "Fsd \<equiv> OpFStore FmtD"
abbreviation FaddD :: "u8 \<Rightarrow> u8 \<Rightarrow> u8 \<Rightarrow> u8 \<Rightarrow> Op" where
  "FaddD \<equiv> OpFArith Fadd_k FmtD"
abbreviation FsubD :: "u8 \<Rightarrow> u8 \<Rightarrow> u8 \<Rightarrow> u8 \<Rightarrow> Op" where
  "FsubD \<equiv> OpFArith Fsub_k FmtD"
abbreviation FmulD :: "u8 \<Rightarrow> u8 \<Rightarrow> u8 \<Rightarrow> u8 \<Rightarrow> Op" where
  "FmulD \<equiv> OpFArith Fmul_k FmtD"
abbreviation FdivD :: "u8 \<Rightarrow> u8 \<Rightarrow> u8 \<Rightarrow> u8 \<Rightarrow> Op" where
  "FdivD \<equiv> OpFArith Fdiv_k FmtD"
abbreviation FsqrtD :: "u8 \<Rightarrow> u8 \<Rightarrow> u8 \<Rightarrow> Op" where
  "FsqrtD \<equiv> OpFSqrt FmtD"
abbreviation FsgnjD :: "u8 \<Rightarrow> u8 \<Rightarrow> u8 \<Rightarrow> Op" where
  "FsgnjD \<equiv> OpFSgn Fsgnj_k FmtD"
abbreviation FsgnjnD :: "u8 \<Rightarrow> u8 \<Rightarrow> u8 \<Rightarrow> Op" where
  "FsgnjnD \<equiv> OpFSgn Fsgnjn_k FmtD"
abbreviation FsgnjxD :: "u8 \<Rightarrow> u8 \<Rightarrow> u8 \<Rightarrow> Op" where
  "FsgnjxD \<equiv> OpFSgn Fsgnjx_k FmtD"
abbreviation FminD :: "u8 \<Rightarrow> u8 \<Rightarrow> u8 \<Rightarrow> Op" where
  "FminD \<equiv> OpFSgn Fmin_k FmtD"
abbreviation FmaxD :: "u8 \<Rightarrow> u8 \<Rightarrow> u8 \<Rightarrow> Op" where
  "FmaxD \<equiv> OpFSgn Fmax_k FmtD"
abbreviation FcvtWD :: "u8 \<Rightarrow> u8 \<Rightarrow> u8 \<Rightarrow> Op" where
  "FcvtWD \<equiv> OpFCvtToInt IntW FmtD"
abbreviation FcvtWuD :: "u8 \<Rightarrow> u8 \<Rightarrow> u8 \<Rightarrow> Op" where
  "FcvtWuD \<equiv> OpFCvtToInt IntWu FmtD"
abbreviation FcvtLD :: "u8 \<Rightarrow> u8 \<Rightarrow> u8 \<Rightarrow> Op" where
  "FcvtLD \<equiv> OpFCvtToInt IntL FmtD"
abbreviation FcvtLuD :: "u8 \<Rightarrow> u8 \<Rightarrow> u8 \<Rightarrow> Op" where
  "FcvtLuD \<equiv> OpFCvtToInt IntLu FmtD"
abbreviation FmvXD :: "u8 \<Rightarrow> u8 \<Rightarrow> Op" where
  "FmvXD \<equiv> OpFMvToInt FmtD"
abbreviation FclassD :: "u8 \<Rightarrow> u8 \<Rightarrow> Op" where
  "FclassD \<equiv> OpFClass FmtD"
abbreviation FeqD :: "u8 \<Rightarrow> u8 \<Rightarrow> u8 \<Rightarrow> Op" where
  "FeqD \<equiv> OpFCmp Feq_k FmtD"
abbreviation FltD :: "u8 \<Rightarrow> u8 \<Rightarrow> u8 \<Rightarrow> Op" where
  "FltD \<equiv> OpFCmp Flt_k FmtD"
abbreviation FleD :: "u8 \<Rightarrow> u8 \<Rightarrow> u8 \<Rightarrow> Op" where
  "FleD \<equiv> OpFCmp Fle_k FmtD"
abbreviation FcvtDW :: "u8 \<Rightarrow> u8 \<Rightarrow> u8 \<Rightarrow> Op" where
  "FcvtDW \<equiv> OpFCvtFromInt IntW FmtD"
abbreviation FcvtDWu :: "u8 \<Rightarrow> u8 \<Rightarrow> u8 \<Rightarrow> Op" where
  "FcvtDWu \<equiv> OpFCvtFromInt IntWu FmtD"
abbreviation FcvtDL :: "u8 \<Rightarrow> u8 \<Rightarrow> u8 \<Rightarrow> Op" where
  "FcvtDL \<equiv> OpFCvtFromInt IntL FmtD"
abbreviation FcvtDLu :: "u8 \<Rightarrow> u8 \<Rightarrow> u8 \<Rightarrow> Op" where
  "FcvtDLu \<equiv> OpFCvtFromInt IntLu FmtD"
abbreviation FmvDX :: "u8 \<Rightarrow> u8 \<Rightarrow> Op" where
  "FmvDX \<equiv> OpFMvFromInt FmtD"
abbreviation FmaddD :: "u8 \<Rightarrow> u8 \<Rightarrow> u8 \<Rightarrow> u8 \<Rightarrow> u8 \<Rightarrow> Op" where
  "FmaddD \<equiv> OpFMadd Fmadd_k FmtD"
abbreviation FmsubD :: "u8 \<Rightarrow> u8 \<Rightarrow> u8 \<Rightarrow> u8 \<Rightarrow> u8 \<Rightarrow> Op" where
  "FmsubD \<equiv> OpFMadd Fmsub_k FmtD"
abbreviation FnmsubD :: "u8 \<Rightarrow> u8 \<Rightarrow> u8 \<Rightarrow> u8 \<Rightarrow> u8 \<Rightarrow> Op" where
  "FnmsubD \<equiv> OpFMadd Fnmsub_k FmtD"
abbreviation FnmaddD :: "u8 \<Rightarrow> u8 \<Rightarrow> u8 \<Rightarrow> u8 \<Rightarrow> u8 \<Rightarrow> Op" where
  "FnmaddD \<equiv> OpFMadd Fnmadd_k FmtD"

section \<open>Methods of \<open>Op\<close>\<close>

definition csr_changes_control_flow :: "Csr \<Rightarrow> bool" where
  "csr_changes_control_flow csr \<longleftrightarrow>
     csr = Csr_Instret \<or> csr = Csr_Instreth \<or> csr = Csr_Satp"

definition can_change_control_flow :: "Op \<Rightarrow> bool" where
  "can_change_control_flow op = (case op of
       OpBranch _ _ _ _ \<Rightarrow> True
     | Jalr _ _ _ \<Rightarrow> True
     | Jal _ _ \<Rightarrow> True
     | Mret \<Rightarrow> True
     | Sret \<Rightarrow> True
     | Ecall \<Rightarrow> True
     | Ebreak \<Rightarrow> True
     | Illegal \<Rightarrow> True
     | FenceI \<Rightarrow> True
     | SfenceVma _ _ \<Rightarrow> True
     | OpCsr _ _ _ csr \<Rightarrow> csr_changes_control_flow csr
     | OpCsrI _ _ _ csr \<Rightarrow> csr_changes_control_flow csr
     | _ \<Rightarrow> False)"

text \<open>The least privilege level an operation may be executed at.\<close>

definition min_prv_level :: "Op \<Rightarrow> u8" where
  "min_prv_level op = (case op of
       OpCsr _ _ _ csr \<Rightarrow> csr_min_prv_level csr
     | OpCsrI _ _ _ csr \<Rightarrow> csr_min_prv_level csr
     | Mret \<Rightarrow> 3
     | Sret \<Rightarrow> 1
     | Wfi \<Rightarrow> 1
     | SfenceVma _ _ \<Rightarrow> 1
     | _ \<Rightarrow> 0)"

text \<open>
  The integer registers \<open>(rd, rs1, rs2)\<close> of an operation, 0 where it has none. The
  floating-point register operands are not reported.
\<close>

definition get_regs :: "Op \<Rightarrow> u8 \<times> u8 \<times> u8" where
  "get_regs op = (case op of
       Illegal \<Rightarrow> (0, 0, 0)
     | Lui rd _ \<Rightarrow> (rd, 0, 0)
     | Auipc rd _ \<Rightarrow> (rd, 0, 0)
     | Jal rd _ \<Rightarrow> (rd, 0, 0)
     | OpBranch _ rs1 rs2 _ \<Rightarrow> (0, rs1, rs2)
     | OpLoad _ rd rs1 _ \<Rightarrow> (rd, rs1, 0)
     | Jalr rd rs1 _ \<Rightarrow> (rd, rs1, 0)
     | Fence \<Rightarrow> (0, 0, 0)
     | FenceI \<Rightarrow> (0, 0, 0)
     | Ecall \<Rightarrow> (0, 0, 0)
     | Ebreak \<Rightarrow> (0, 0, 0)
     | Mret \<Rightarrow> (0, 0, 0)
     | Sret \<Rightarrow> (0, 0, 0)
     | Wfi \<Rightarrow> (0, 0, 0)
     | SfenceVma rs1 rs2 \<Rightarrow> (0, rs1, rs2)
     | OpStore _ rs1 rs2 _ \<Rightarrow> (0, rs1, rs2)
     | OpImm _ rd rs1 _ \<Rightarrow> (rd, rs1, 0)
     | OpImm32 _ rd rs1 _ \<Rightarrow> (rd, rs1, 0)
     | OpReg _ rd rs1 rs2 \<Rightarrow> (rd, rs1, rs2)
     | OpReg32 _ rd rs1 rs2 \<Rightarrow> (rd, rs1, rs2)
     | OpMul _ rd rs1 rs2 \<Rightarrow> (rd, rs1, rs2)
     | OpMul32 _ rd rs1 rs2 \<Rightarrow> (rd, rs1, rs2)
     | OpCsr _ rd rs1 _ \<Rightarrow> (rd, rs1, 0)
     | OpCsrI _ rd _ _ \<Rightarrow> (rd, 0, 0)
     | OpLr _ rd rs1 _ \<Rightarrow> (rd, rs1, 0)
     | OpAmo _ _ rd rs1 rs2 _ \<Rightarrow> (rd, rs1, rs2)
     | OpFLoad _ _ rs1 _ \<Rightarrow> (0, rs1, 0)
     | OpFStore _ rs1 _ _ \<Rightarrow> (0, rs1, 0)
     | OpFArith _ _ _ _ _ _ \<Rightarrow> (0, 0, 0)
     | OpFSgn _ _ _ _ _ \<Rightarrow> (0, 0, 0)
     | OpFSqrt _ _ _ _ \<Rightarrow> (0, 0, 0)
     | FcvtSD _ _ _ \<Rightarrow> (0, 0, 0)
     | FcvtDS _ _ _ \<Rightarrow> (0, 0, 0)
     | OpFCvtToInt _ _ rd _ _ \<Rightarrow> (rd, 0, 0)
     | OpFMvToInt _ rd _ \<Rightarrow> (rd, 0, 0)
     | OpFClass _ rd _ \<Rightarrow> (rd, 0, 0)
     | OpFCvtFromInt _ _ _ rs1 _ \<Rightarrow> (0, rs1, 0)
     | OpFMvFromInt _ _ rs1 \<Rightarrow> (0, rs1, 0)
     | OpFCmp _ _ rd _ _ \<Rightarrow> (rd, 0, 0)
     | OpFMadd _ _ _ _ _ _ _ \<Rightarrow> (0, 0, 0))"

end
