(* ===== verification/Riscv_Decode.thy ===== *)
theory Riscv_Decode
  imports Riscv_Op
begin

text \<open>
  The instruction decoder, \<open>lib/riscv/src/decode.rs\<close>: the field and immediate extractors of
  the 32-bit and of the compressed 16-bit formats, \<open>decode_compressed\<close> and \<open>decode\<close>.

  A signed right shift of the source (\<open>i32 >> n\<close>) is \<^const>\<open>signed_drop_bit\<close>; an
  unsigned one \<^const>\<open>drop_bit\<close>. \<open>unreachable!()\<close> and a failed \<open>assert!\<close> are
  \<^const>\<open>None\<close>. The two large functions are cut at the source's outer \<open>match\<close>: one
  definition per quadrant of \<open>decode_compressed\<close> and one per base opcode of \<open>decode\<close>.
\<close>

section \<open>Fields of 32-bit instructions\<close>

definition rd_of :: "u32 \<Rightarrow> u8" where
  "rd_of bits = ucast (drop_bit 7 bits AND 0b11111)"

definition rs1_of :: "u32 \<Rightarrow> u8" where
  "rs1_of bits = ucast (drop_bit 15 bits AND 0b11111)"

definition rs2_of :: "u32 \<Rightarrow> u8" where
  "rs2_of bits = ucast (drop_bit 20 bits AND 0b11111)"

definition rs3_of :: "u32 \<Rightarrow> u8" where
  "rs3_of bits = ucast (drop_bit 27 bits AND 0b11111)"

definition funct3 :: "u32 \<Rightarrow> u32" where
  "funct3 bits = drop_bit 12 bits AND 0b111"

definition funct7 :: "u32 \<Rightarrow> u32" where
  "funct7 bits = drop_bit 25 bits AND 0b1111111"

definition csr_of :: "u32 \<Rightarrow> u16" where
  "csr_of bits = ucast (drop_bit 20 bits)"

definition i_imm :: "u32 \<Rightarrow> i32" where
  "i_imm bits = signed_drop_bit 20 bits"

definition s_imm :: "u32 \<Rightarrow> i32" where
  "s_imm bits =
     signed_drop_bit 20 (bits AND 0xFE000000) OR signed_drop_bit 7 (bits AND 0xF80)"

definition b_imm :: "u32 \<Rightarrow> i32" where
  "b_imm bits =
     signed_drop_bit 19 (bits AND 0x80000000) OR push_bit 4 (bits AND 0x80)
     OR signed_drop_bit 20 (bits AND 0x7E000000) OR signed_drop_bit 7 (bits AND 0xF00)"

definition u_imm :: "u32 \<Rightarrow> i32" where
  "u_imm bits = bits AND 0xFFFFF000"

definition j_imm :: "u32 \<Rightarrow> i32" where
  "j_imm instr =
     signed_drop_bit 11 (instr AND 0x80000000) OR signed_drop_bit 0 (instr AND 0xFF000)
     OR signed_drop_bit 9 (instr AND 0x100000) OR signed_drop_bit 20 (instr AND 0x7FE00000)"

section \<open>Fields of compressed instructions\<close>

definition c_funct3 :: "u16 \<Rightarrow> u32" where
  "c_funct3 bits = ucast (drop_bit 13 bits AND 0b111)"

definition c_rd :: "u16 \<Rightarrow> u8" where
  "c_rd bits = ucast (drop_bit 7 bits AND 0b11111)"

definition c_rs1 :: "u16 \<Rightarrow> u8" where
  "c_rs1 bits = c_rd bits"

definition c_rs2 :: "u16 \<Rightarrow> u8" where
  "c_rs2 bits = ucast (drop_bit 2 bits AND 0b11111)"

definition c_rds :: "u16 \<Rightarrow> u8" where
  "c_rds bits = ucast (drop_bit 2 bits AND 0b111) + 8"

definition c_rs1s :: "u16 \<Rightarrow> u8" where
  "c_rs1s bits = ucast (drop_bit 7 bits AND 0b111) + 8"

definition c_rs2s :: "u16 \<Rightarrow> u8" where
  "c_rs2s bits = c_rds bits"

definition c_bits :: "u16 \<Rightarrow> u16 \<Rightarrow> i32" where
  "c_bits bits m = ucast (bits AND m)"

definition ci_imm :: "u16 \<Rightarrow> i32" where
  "ci_imm bits =
     signed_drop_bit (31 - 5) (push_bit (31 - 12) (c_bits bits 0x1000))
     OR signed_drop_bit 2 (c_bits bits 0x7C)"

definition ci_lwsp_imm :: "u16 \<Rightarrow> i32" where
  "ci_lwsp_imm bits =
     push_bit 4 (c_bits bits 0xC) OR signed_drop_bit 7 (c_bits bits 0x1000)
     OR signed_drop_bit 2 (c_bits bits 0x70)"

definition ci_ldsp_imm :: "u16 \<Rightarrow> i32" where
  "ci_ldsp_imm bits =
     push_bit 4 (c_bits bits 0x1C) OR signed_drop_bit 7 (c_bits bits 0x1000)
     OR signed_drop_bit 2 (c_bits bits 0x60)"

definition ci_addi16sp_imm :: "u16 \<Rightarrow> i32" where
  "ci_addi16sp_imm bits =
     signed_drop_bit (31 - 9) (push_bit (31 - 12) (c_bits bits 0x1000))
     OR push_bit 4 (c_bits bits 0x18) OR push_bit 1 (c_bits bits 0x20)
     OR push_bit 3 (c_bits bits 0x4) OR signed_drop_bit 2 (c_bits bits 0x40)"

definition css_swsp_imm :: "u16 \<Rightarrow> i32" where
  "css_swsp_imm bits =
     signed_drop_bit 1 (c_bits bits 0x180) OR signed_drop_bit 7 (c_bits bits 0x1E00)"

definition css_sdsp_imm :: "u16 \<Rightarrow> i32" where
  "css_sdsp_imm bits =
     signed_drop_bit 1 (c_bits bits 0x380) OR signed_drop_bit 7 (c_bits bits 0x1C00)"

definition ciw_imm :: "u16 \<Rightarrow> i32" where
  "ciw_imm bits =
     signed_drop_bit 1 (c_bits bits 0x780) OR signed_drop_bit 7 (c_bits bits 0x1800)
     OR signed_drop_bit 2 (c_bits bits 0x20) OR signed_drop_bit 4 (c_bits bits 0x40)"

definition cl_lw_imm :: "u16 \<Rightarrow> i32" where
  "cl_lw_imm bits =
     push_bit 1 (c_bits bits 0x20) OR signed_drop_bit 7 (c_bits bits 0x1C00)
     OR signed_drop_bit 4 (c_bits bits 0x40)"

definition cl_ld_imm :: "u16 \<Rightarrow> i32" where
  "cl_ld_imm bits =
     push_bit 1 (c_bits bits 0x60) OR signed_drop_bit 7 (c_bits bits 0x1C00)"

definition cs_sw_imm :: "u16 \<Rightarrow> i32" where
  "cs_sw_imm bits = cl_lw_imm bits"

definition cs_sd_imm :: "u16 \<Rightarrow> i32" where
  "cs_sd_imm bits = cl_ld_imm bits"

definition cb_imm :: "u16 \<Rightarrow> i32" where
  "cb_imm bits =
     signed_drop_bit (31 - 8) (push_bit (31 - 12) (c_bits bits 0x1000))
     OR push_bit 1 (c_bits bits 0x60) OR push_bit 3 (c_bits bits 0x4)
     OR signed_drop_bit 7 (c_bits bits 0xC00) OR signed_drop_bit 2 (c_bits bits 0x18)"

definition cj_imm :: "u16 \<Rightarrow> i32" where
  "cj_imm bits =
     signed_drop_bit (31 - 11) (push_bit (31 - 12) (c_bits bits 0x1000))
     OR push_bit 2 (c_bits bits 0x100) OR signed_drop_bit 1 (c_bits bits 0x600)
     OR push_bit 1 (c_bits bits 0x40) OR signed_drop_bit 1 (c_bits bits 0x80)
     OR push_bit 3 (c_bits bits 0x4) OR signed_drop_bit 7 (c_bits bits 0x800)
     OR signed_drop_bit 2 (c_bits bits 0x38)"

section \<open>Compressed instructions\<close>

definition decode_c0 :: "u16 \<Rightarrow> Op option" where
  "decode_c0 bits =
    (let function = c_funct3 bits in
     if function = 0b000 then
       (let imm = ciw_imm bits in
        if imm = 0 then Some Illegal else Some (Addi (c_rds bits) 2 imm))
     else if function = 0b001 then Some (Fld (c_rds bits) (c_rs1s bits) (cl_ld_imm bits))
     else if function = 0b010 then Some (Lw (c_rds bits) (c_rs1s bits) (cl_lw_imm bits))
     else if function = 0b011 then Some (Ld (c_rds bits) (c_rs1s bits) (cl_ld_imm bits))
     else if function = 0b100 then Some Illegal
     else if function = 0b101 then Some (Fsd (c_rs1s bits) (c_rs2s bits) (cs_sd_imm bits))
     else if function = 0b110 then Some (Sw (c_rs1s bits) (c_rs2s bits) (cs_sw_imm bits))
     else if function = 0b111 then Some (Sd (c_rs1s bits) (c_rs2s bits) (cs_sd_imm bits))
     else None)"

definition decode_c1_alu :: "u16 \<Rightarrow> Op option" where
  "decode_c1_alu bits =
    (let rs1 = c_rs1s bits;
         sel = drop_bit 10 bits AND 0b11
     in
     if sel = 0b00 then Some (Srli rs1 rs1 (ci_imm bits AND 63))
     else if sel = 0b01 then Some (Srai rs1 rs1 (ci_imm bits AND 63))
     else if sel = 0b10 then Some (Andi rs1 rs1 (ci_imm bits))
     else if sel = 0b11 then
       (let rs2 = c_rs2s bits;
            f = drop_bit 5 bits AND 0b11
        in
        if bits AND 0x1000 = 0 then
          (if f = 0b00 then Some (Sub rs1 rs1 rs2)
           else if f = 0b01 then Some (Xor rs1 rs1 rs2)
           else if f = 0b10 then Some (Or rs1 rs1 rs2)
           else if f = 0b11 then Some (And rs1 rs1 rs2)
           else None)
        else
          (if f = 0b00 then Some (Subw rs1 rs1 rs2)
           else if f = 0b01 then Some (Addw rs1 rs1 rs2)
           else Some Illegal))
     else None)"

definition decode_c1 :: "u16 \<Rightarrow> Op option" where
  "decode_c1 bits =
    (let function = c_funct3 bits in
     if function = 0b000 then (let rd = c_rd bits in Some (Addi rd rd (ci_imm bits)))
     else if function = 0b001 then
       (let rd = c_rd bits in
        if rd = 0 then Some Illegal else Some (Addiw rd rd (ci_imm bits)))
     else if function = 0b010 then Some (Addi (c_rd bits) 0 (ci_imm bits))
     else if function = 0b011 then
       (let rd = c_rd bits in
        if rd = 2 then
          (let imm = ci_addi16sp_imm bits in
           if imm = 0 then Some Illegal else Some (Addi 2 2 imm))
        else Some (Lui rd (push_bit 12 (ci_imm bits))))
     else if function = 0b100 then decode_c1_alu bits
     else if function = 0b101 then Some (Jal 0 (cj_imm bits))
     else if function = 0b110 then Some (Beq (c_rs1s bits) 0 (cb_imm bits))
     else if function = 0b111 then Some (Bne (c_rs1s bits) 0 (cb_imm bits))
     else None)"

definition decode_c2 :: "u16 \<Rightarrow> Op option" where
  "decode_c2 bits =
    (let function = c_funct3 bits in
     if function = 0b000 then
       (let rd = c_rd bits in Some (Slli rd rd (ci_imm bits AND 63)))
     else if function = 0b001 then Some (Fld (c_rd bits) 2 (ci_ldsp_imm bits))
     else if function = 0b010 then
       (let rd = c_rd bits in
        if rd = 0 then Some Illegal else Some (Lw rd 2 (ci_lwsp_imm bits)))
     else if function = 0b011 then
       (let rd = c_rd bits in
        if rd = 0 then Some Illegal else Some (Ld rd 2 (ci_ldsp_imm bits)))
     else if function = 0b100 then
       (let rs2 = c_rs2 bits in
        if bits AND 0x1000 = 0 then
          (if rs2 = 0 then
             (let rs1 = c_rs1 bits in
              if rs1 = 0 then Some Illegal else Some (Jalr 0 rs1 0))
           else Some (Add (c_rd bits) 0 rs2))
        else
          (let rs1 = c_rs1 bits in
           if rs1 = 0 then Some Ebreak
           else if rs2 = 0 then Some (Jalr 1 rs1 0)
           else (let rd = c_rd bits in Some (Add rd rd rs2))))
     else if function = 0b101 then Some (Fsd 2 (c_rs2 bits) (css_sdsp_imm bits))
     else if function = 0b110 then Some (Sw 2 (c_rs2 bits) (css_swsp_imm bits))
     else if function = 0b111 then Some (Sd 2 (c_rs2 bits) (css_sdsp_imm bits))
     else None)"

definition decode_compressed :: "u16 \<Rightarrow> Op option" where
  "decode_compressed bits =
    (let q = bits AND 0b11 in
     if q = 0b00 then decode_c0 bits
     else if q = 0b01 then decode_c1 bits
     else if q = 0b10 then decode_c2 bits
     else None)"

section \<open>32-bit instructions\<close>

text \<open>The macro \<open>rm!\<close>: the rounding modes 5 and 6 are reserved and make the decoder return
  \<open>Illegal\<close>.\<close>

definition with_rm :: "u32 \<Rightarrow> (u8 \<Rightarrow> Op) \<Rightarrow> Op" where
  "with_rm function mk =
    (let rm = (ucast function :: u8) in if rm > 4 \<and> rm \<noteq> 0b111 then Illegal else mk rm)"

definition decode_load :: "u32 \<Rightarrow> Op" where
  "decode_load bits =
    (let function = funct3 bits; rd = rd_of bits; rs1 = rs1_of bits; imm = i_imm bits in
     if function = 0b000 then Lb rd rs1 imm
     else if function = 0b001 then Lh rd rs1 imm
     else if function = 0b010 then Lw rd rs1 imm
     else if function = 0b011 then Ld rd rs1 imm
     else if function = 0b100 then Lbu rd rs1 imm
     else if function = 0b101 then Lhu rd rs1 imm
     else if function = 0b110 then Lwu rd rs1 imm
     else Illegal)"

definition decode_load_fp :: "u32 \<Rightarrow> Op" where
  "decode_load_fp bits =
    (let function = funct3 bits; rd = rd_of bits; rs1 = rs1_of bits; imm = i_imm bits in
     if function = 0b010 then Flw rd rs1 imm
     else if function = 0b011 then Fld rd rs1 imm
     else Illegal)"

definition decode_op_imm :: "u32 \<Rightarrow> Op option" where
  "decode_op_imm bits =
    (let function = funct3 bits; rd = rd_of bits; rs1 = rs1_of bits; imm = i_imm bits in
     if function = 0b000 then Some (Addi rd rs1 imm)
     else if function = 0b001 then
       Some (if sint imm \<ge> 64 then Illegal else Slli rd rs1 imm)
     else if function = 0b010 then Some (Slti rd rs1 imm)
     else if function = 0b011 then Some (Sltiu rd rs1 imm)
     else if function = 0b100 then Some (Xori rd rs1 imm)
     else if function = 0b101 then
       Some (if sint (imm AND NOT 0x400) \<ge> 64 then Illegal
             else if imm AND 0x400 \<noteq> 0 then Srai rd rs1 (imm AND NOT 0x400)
             else Srli rd rs1 imm)
     else if function = 0b110 then Some (Ori rd rs1 imm)
     else if function = 0b111 then Some (Andi rd rs1 imm)
     else None)"

definition decode_misc_mem :: "u32 \<Rightarrow> Op" where
  "decode_misc_mem bits =
    (let function = funct3 bits in
     if function = 0b000 then Fence
     else if function = 0b001 then FenceI
     else Illegal)"

definition decode_op_imm32 :: "u32 \<Rightarrow> Op" where
  "decode_op_imm32 bits =
    (let function = funct3 bits; rd = rd_of bits; rs1 = rs1_of bits; imm = i_imm bits in
     if function = 0b000 then Addiw rd rs1 imm
     else if function = 0b001 then
       (if sint imm \<ge> 32 then Illegal else Slliw rd rs1 imm)
     else if function = 0b101 then
       (if sint (imm AND NOT 0x400) \<ge> 32 then Illegal
        else if imm AND 0x400 \<noteq> 0 then Sraiw rd rs1 (imm AND NOT 0x400)
        else Srliw rd rs1 imm)
     else Illegal)"

definition decode_store :: "u32 \<Rightarrow> Op" where
  "decode_store bits =
    (let function = funct3 bits; rs1 = rs1_of bits; rs2 = rs2_of bits; imm = s_imm bits in
     if function = 0b000 then Sb rs1 rs2 imm
     else if function = 0b001 then Sh rs1 rs2 imm
     else if function = 0b010 then Sw rs1 rs2 imm
     else if function = 0b011 then Sd rs1 rs2 imm
     else Illegal)"

definition decode_store_fp :: "u32 \<Rightarrow> Op" where
  "decode_store_fp bits =
    (let function = funct3 bits; rs1 = rs1_of bits; rs2 = rs2_of bits; imm = s_imm bits in
     if function = 0b010 then Fsw rs1 rs2 imm
     else if function = 0b011 then Fsd rs1 rs2 imm
     else Illegal)"

definition decode_aqrl :: "u32 \<Rightarrow> Ordering option" where
  "decode_aqrl bits =
    (let v = funct7 bits AND 3 in
     if v = 0 then Some Relaxed
     else if v = 1 then Some Release
     else if v = 2 then Some Acquire
     else if v = 3 then Some SeqCst
     else None)"

definition decode_amo_w :: "u32 \<Rightarrow> u8 \<Rightarrow> u8 \<Rightarrow> u8 \<Rightarrow> Ordering \<Rightarrow> Op" where
  "decode_amo_w func rd rs1 rs2 aqrl =
    (if func = 0b00010 then (if rs2 \<noteq> 0 then Illegal else LrW rd rs1 aqrl)
     else if func = 0b00011 then ScW rd rs1 rs2 aqrl
     else if func = 0b00001 then AmoswapW rd rs1 rs2 aqrl
     else if func = 0b00000 then AmoaddW rd rs1 rs2 aqrl
     else if func = 0b00100 then AmoxorW rd rs1 rs2 aqrl
     else if func = 0b01100 then AmoandW rd rs1 rs2 aqrl
     else if func = 0b01000 then AmoorW rd rs1 rs2 aqrl
     else if func = 0b10000 then AmominW rd rs1 rs2 aqrl
     else if func = 0b10100 then AmomaxW rd rs1 rs2 aqrl
     else if func = 0b11000 then AmominuW rd rs1 rs2 aqrl
     else if func = 0b11100 then AmomaxuW rd rs1 rs2 aqrl
     else Illegal)"

definition decode_amo_d :: "u32 \<Rightarrow> u8 \<Rightarrow> u8 \<Rightarrow> u8 \<Rightarrow> Ordering \<Rightarrow> Op" where
  "decode_amo_d func rd rs1 rs2 aqrl =
    (if func = 0b00010 then (if rs2 \<noteq> 0 then Illegal else LrD rd rs1 aqrl)
     else if func = 0b00011 then ScD rd rs1 rs2 aqrl
     else if func = 0b00001 then AmoswapD rd rs1 rs2 aqrl
     else if func = 0b00000 then AmoaddD rd rs1 rs2 aqrl
     else if func = 0b00100 then AmoxorD rd rs1 rs2 aqrl
     else if func = 0b01100 then AmoandD rd rs1 rs2 aqrl
     else if func = 0b01000 then AmoorD rd rs1 rs2 aqrl
     else if func = 0b10000 then AmominD rd rs1 rs2 aqrl
     else if func = 0b10100 then AmomaxD rd rs1 rs2 aqrl
     else if func = 0b11000 then AmominuD rd rs1 rs2 aqrl
     else if func = 0b11100 then AmomaxuD rd rs1 rs2 aqrl
     else Illegal)"

definition decode_amo :: "u32 \<Rightarrow> Op option" where
  "decode_amo bits =
    (let function = funct3 bits; rd = rd_of bits; rs1 = rs1_of bits; rs2 = rs2_of bits;
         func = drop_bit 2 (funct7 bits)
     in
     case decode_aqrl bits of
       None \<Rightarrow> None
     | Some aqrl \<Rightarrow>
         Some (if function = 0b010 then decode_amo_w func rd rs1 rs2 aqrl
               else if function = 0b011 then decode_amo_d func rd rs1 rs2 aqrl
               else Illegal))"

definition decode_op :: "u32 \<Rightarrow> Op option" where
  "decode_op bits =
    (let function = funct3 bits; rd = rd_of bits; rs1 = rs1_of bits; rs2 = rs2_of bits;
         f7 = funct7 bits
     in
     if f7 = 0b0000001 then
       (if function = 0b000 then Some (Mul rd rs1 rs2)
        else if function = 0b001 then Some (Mulh rd rs1 rs2)
        else if function = 0b010 then Some (Mulhsu rd rs1 rs2)
        else if function = 0b011 then Some (Mulhu rd rs1 rs2)
        else if function = 0b100 then Some (Div rd rs1 rs2)
        else if function = 0b101 then Some (Divu rd rs1 rs2)
        else if function = 0b110 then Some (Rem rd rs1 rs2)
        else if function = 0b111 then Some (Remu rd rs1 rs2)
        else None)
     else if f7 = 0b0000000 then
       (if function = 0b000 then Some (Add rd rs1 rs2)
        else if function = 0b001 then Some (Sll rd rs1 rs2)
        else if function = 0b010 then Some (Slt rd rs1 rs2)
        else if function = 0b011 then Some (Sltu rd rs1 rs2)
        else if function = 0b100 then Some (Xor rd rs1 rs2)
        else if function = 0b101 then Some (Srl rd rs1 rs2)
        else if function = 0b110 then Some (Or rd rs1 rs2)
        else if function = 0b111 then Some (And rd rs1 rs2)
        else None)
     else if f7 = 0b0100000 then
       (if function = 0b000 then Some (Sub rd rs1 rs2)
        else if function = 0b101 then Some (Sra rd rs1 rs2)
        else Some Illegal)
     else Some Illegal)"

definition decode_op32 :: "u32 \<Rightarrow> Op" where
  "decode_op32 bits =
    (let function = funct3 bits; rd = rd_of bits; rs1 = rs1_of bits; rs2 = rs2_of bits;
         f7 = funct7 bits
     in
     if f7 = 0b0000001 then
       (if function = 0b000 then Mulw rd rs1 rs2
        else if function = 0b100 then Divw rd rs1 rs2
        else if function = 0b101 then Divuw rd rs1 rs2
        else if function = 0b110 then Remw rd rs1 rs2
        else if function = 0b111 then Remuw rd rs1 rs2
        else Illegal)
     else if f7 = 0b0000000 then
       (if function = 0b000 then Addw rd rs1 rs2
        else if function = 0b001 then Sllw rd rs1 rs2
        else if function = 0b101 then Srlw rd rs1 rs2
        else Illegal)
     else if f7 = 0b0100000 then
       (if function = 0b000 then Subw rd rs1 rs2
        else if function = 0b101 then Sraw rd rs1 rs2
        else Illegal)
     else Illegal)"

definition decode_madd :: "u32 \<Rightarrow> Op" where
  "decode_madd bits =
    (let function = funct3 bits; rd = rd_of bits; rs1 = rs1_of bits; rs2 = rs2_of bits;
         fmt = funct7 bits AND 3
     in
     if fmt = 0b00 then with_rm function (FmaddS rd rs1 rs2 (rs3_of bits))
     else if fmt = 0b01 then with_rm function (FmaddD rd rs1 rs2 (rs3_of bits))
     else Illegal)"

definition decode_msub :: "u32 \<Rightarrow> Op" where
  "decode_msub bits =
    (let function = funct3 bits; rd = rd_of bits; rs1 = rs1_of bits; rs2 = rs2_of bits;
         fmt = funct7 bits AND 3
     in
     if fmt = 0b00 then with_rm function (FmsubS rd rs1 rs2 (rs3_of bits))
     else if fmt = 0b01 then with_rm function (FmsubD rd rs1 rs2 (rs3_of bits))
     else Illegal)"

definition decode_nmsub :: "u32 \<Rightarrow> Op" where
  "decode_nmsub bits =
    (let function = funct3 bits; rd = rd_of bits; rs1 = rs1_of bits; rs2 = rs2_of bits;
         fmt = funct7 bits AND 3
     in
     if fmt = 0b00 then with_rm function (FnmsubS rd rs1 rs2 (rs3_of bits))
     else if fmt = 0b01 then with_rm function (FnmsubD rd rs1 rs2 (rs3_of bits))
     else Illegal)"

definition decode_nmadd :: "u32 \<Rightarrow> Op" where
  "decode_nmadd bits =
    (let function = funct3 bits; rd = rd_of bits; rs1 = rs1_of bits; rs2 = rs2_of bits;
         fmt = funct7 bits AND 3
     in
     if fmt = 0b00 then with_rm function (FnmaddS rd rs1 rs2 (rs3_of bits))
     else if fmt = 0b01 then with_rm function (FnmaddD rd rs1 rs2 (rs3_of bits))
     else Illegal)"

definition decode_op_fp :: "u32 \<Rightarrow> Op" where
  "decode_op_fp bits =
    (let function = funct3 bits; rd = rd_of bits; rs1 = rs1_of bits; rs2 = rs2_of bits;
         function7 = funct7 bits
     in
     if function7 = 0b0000000 then with_rm function (FaddS rd rs1 rs2)
     else if function7 = 0b0000001 then with_rm function (FaddD rd rs1 rs2)
     else if function7 = 0b0000100 then with_rm function (FsubS rd rs1 rs2)
     else if function7 = 0b0000101 then with_rm function (FsubD rd rs1 rs2)
     else if function7 = 0b0001000 then with_rm function (FmulS rd rs1 rs2)
     else if function7 = 0b0001001 then with_rm function (FmulD rd rs1 rs2)
     else if function7 = 0b0001100 then with_rm function (FdivS rd rs1 rs2)
     else if function7 = 0b0001101 then with_rm function (FdivD rd rs1 rs2)
     else if function7 = 0b0101100 then
       (if rs2 = 0b00000 then with_rm function (FsqrtS rd rs1)
        else Illegal)
     else if function7 = 0b0101101 then
       (if rs2 = 0b00000 then with_rm function (FsqrtD rd rs1)
        else Illegal)
     else if function7 = 0b0010000 then
       (if function = 0b000 then FsgnjS rd rs1 rs2
        else if function = 0b001 then FsgnjnS rd rs1 rs2
        else if function = 0b010 then FsgnjxS rd rs1 rs2
        else Illegal)
     else if function7 = 0b0010001 then
       (if function = 0b000 then FsgnjD rd rs1 rs2
        else if function = 0b001 then FsgnjnD rd rs1 rs2
        else if function = 0b010 then FsgnjxD rd rs1 rs2
        else Illegal)
     else if function7 = 0b0010100 then
       (if function = 0b000 then FminS rd rs1 rs2
        else if function = 0b001 then FmaxS rd rs1 rs2
        else Illegal)
     else if function7 = 0b0010101 then
       (if function = 0b000 then FminD rd rs1 rs2
        else if function = 0b001 then FmaxD rd rs1 rs2
        else Illegal)
     else if function7 = 0b0100000 then
       (if rs2 = 0b00001 then with_rm function (FcvtSD rd rs1)
        else Illegal)
     else if function7 = 0b0100001 then
       (if rs2 = 0b00000 then with_rm function (FcvtDS rd rs1)
        else Illegal)
     else if function7 = 0b1100000 then
       (if rs2 = 0b00000 then with_rm function (FcvtWS rd rs1)
        else if rs2 = 0b00001 then with_rm function (FcvtWuS rd rs1)
        else if rs2 = 0b00010 then with_rm function (FcvtLS rd rs1)
        else if rs2 = 0b00011 then with_rm function (FcvtLuS rd rs1)
        else Illegal)
     else if function7 = 0b1100001 then
       (if rs2 = 0b00000 then with_rm function (FcvtWD rd rs1)
        else if rs2 = 0b00001 then with_rm function (FcvtWuD rd rs1)
        else if rs2 = 0b00010 then with_rm function (FcvtLD rd rs1)
        else if rs2 = 0b00011 then with_rm function (FcvtLuD rd rs1)
        else Illegal)
     else if function7 = 0b1110000 then
       (if rs2 = 0b00000 \<and> function = 0b000 then FmvXW rd rs1
        else if rs2 = 0b00000 \<and> function = 0b001 then FclassS rd rs1
        else Illegal)
     else if function7 = 0b1110001 then
       (if rs2 = 0b00000 \<and> function = 0b000 then FmvXD rd rs1
        else if rs2 = 0b00000 \<and> function = 0b001 then FclassD rd rs1
        else Illegal)
     else if function7 = 0b1010000 then
       (if function = 0b000 then FleS rd rs1 rs2
        else if function = 0b001 then FltS rd rs1 rs2
        else if function = 0b010 then FeqS rd rs1 rs2
        else Illegal)
     else if function7 = 0b1010001 then
       (if function = 0b000 then FleD rd rs1 rs2
        else if function = 0b001 then FltD rd rs1 rs2
        else if function = 0b010 then FeqD rd rs1 rs2
        else Illegal)
     else if function7 = 0b1101000 then
       (if rs2 = 0b00000 then with_rm function (FcvtSW rd rs1)
        else if rs2 = 0b00001 then with_rm function (FcvtSWu rd rs1)
        else if rs2 = 0b00010 then with_rm function (FcvtSL rd rs1)
        else if rs2 = 0b00011 then with_rm function (FcvtSLu rd rs1)
        else Illegal)
     else if function7 = 0b1101001 then
       (if rs2 = 0b00000 then with_rm function (FcvtDW rd rs1)
        else if rs2 = 0b00001 then with_rm function (FcvtDWu rd rs1)
        else if rs2 = 0b00010 then with_rm function (FcvtDL rd rs1)
        else if rs2 = 0b00011 then with_rm function (FcvtDLu rd rs1)
        else Illegal)
     else if function7 = 0b1111000 then
       (if rs2 = 0b00000 \<and> function = 0b000 then FmvWX rd rs1
        else Illegal)
     else if function7 = 0b1111001 then
       (if rs2 = 0b00000 \<and> function = 0b000 then FmvDX rd rs1
        else Illegal)
     else Illegal)"

definition decode_branch :: "u32 \<Rightarrow> Op" where
  "decode_branch bits =
    (let function = funct3 bits; rs1 = rs1_of bits; rs2 = rs2_of bits; imm = b_imm bits in
     if function = 0b000 then Beq rs1 rs2 imm
     else if function = 0b001 then Bne rs1 rs2 imm
     else if function = 0b100 then Blt rs1 rs2 imm
     else if function = 0b101 then Bge rs1 rs2 imm
     else if function = 0b110 then Bltu rs1 rs2 imm
     else if function = 0b111 then Bgeu rs1 rs2 imm
     else Illegal)"

definition decode_system :: "u32 \<Rightarrow> Op option" where
  "decode_system bits =
    (let function = funct3 bits; rd = rd_of bits; rs1 = rs1_of bits; rs2 = rs2_of bits in
     if function = 0b000 then
       Some (if bits = 0x73 then Ecall
             else if bits = 0x100073 then Ebreak
             else if bits = 0x30200073 then Mret
             else if bits = 0x10200073 then Sret
             else if bits = 0x10500073 then Wfi
             else if rd = 0 \<and> funct7 bits = 0b0001001 then SfenceVma rs1 rs2
             else Illegal)
     else if function = 0b100 then Some Illegal
     else
       (let csr = csr_of bits;
            readonly = (function AND 0b010 \<noteq> 0 \<and> rs1 = 0)
        in
        if csr_readonly csr \<and> \<not> readonly then Some Illegal
        else if function = 0b001 then Some (Csrrw rd rs1 csr)
        else if function = 0b010 then Some (Csrrs rd rs1 csr)
        else if function = 0b011 then Some (Csrrc rd rs1 csr)
        else if function = 0b101 then Some (Csrrwi rd rs1 csr)
        else if function = 0b110 then Some (Csrrsi rd rs1 csr)
        else if function = 0b111 then Some (Csrrci rd rs1 csr)
        else None))"

definition decode :: "u32 \<Rightarrow> Op option" where
  "decode bits =
    (if bits AND 3 \<noteq> 3 then None
     else if bits AND 0x1f = 0x1f then Some Illegal
     else
       (let opcode = bits AND 0b1111111 in
        if opcode = 0b0000011 then Some (decode_load bits)
        else if opcode = 0b0000111 then Some (decode_load_fp bits)
        else if opcode = 0b0010011 then decode_op_imm bits
        else if opcode = 0b0001111 then Some (decode_misc_mem bits)
        else if opcode = 0b0011011 then Some (decode_op_imm32 bits)
        else if opcode = 0b0100011 then Some (decode_store bits)
        else if opcode = 0b0100111 then Some (decode_store_fp bits)
        else if opcode = 0b0101111 then decode_amo bits
        else if opcode = 0b0110011 then decode_op bits
        else if opcode = 0b0110111 then Some (Lui (rd_of bits) (u_imm bits))
        else if opcode = 0b0111011 then Some (decode_op32 bits)
        else if opcode = 0b1000011 then Some (decode_madd bits)
        else if opcode = 0b1000111 then Some (decode_msub bits)
        else if opcode = 0b1001011 then Some (decode_nmsub bits)
        else if opcode = 0b1001111 then Some (decode_nmadd bits)
        else if opcode = 0b0010111 then Some (Auipc (rd_of bits) (u_imm bits))
        else if opcode = 0b1010011 then Some (decode_op_fp bits)
        else if opcode = 0b1100011 then Some (decode_branch bits)
        else if opcode = 0b1100111 then Some (Jalr (rd_of bits) (rs1_of bits) (i_imm bits))
        else if opcode = 0b1101111 then Some (Jal (rd_of bits) (j_imm bits))
        else if opcode = 0b1110011 then decode_system bits
        else Some Illegal))"

end
