(* ===== verification/Riscv_Encode.thy ===== *)
theory Riscv_Encode
  imports Riscv_Decode
begin

text \<open>
  The specification the decoder is verified against: the instruction formats of the RISC-V
  manual as an encoder \<open>encode\<close> on \<open>Op\<close>, and \<open>encodable\<close>, the operations whose
  operands fit their fields. This theory models no code.
\<close>

section \<open>Instruction formats\<close>

text \<open>All formats but U and J share the same field boundaries; each field is cut to its width.\<close>

definition enc :: "u32 \<Rightarrow> u32 \<Rightarrow> u32 \<Rightarrow> u32 \<Rightarrow> u32 \<Rightarrow> u32 \<Rightarrow> u32" where
  "enc f7 r2 r1 f3 r0 opc =
     push_bit 25 f7 OR push_bit 20 (r2 AND 31) OR push_bit 15 (r1 AND 31)
     OR push_bit 12 (f3 AND 7) OR push_bit 7 (r0 AND 31) OR (opc AND 127)"

definition enc_r :: "u32 \<Rightarrow> u8 \<Rightarrow> u8 \<Rightarrow> u32 \<Rightarrow> u8 \<Rightarrow> u32 \<Rightarrow> u32" where
  "enc_r f7 rs2 rs1 f3 rd opc = enc f7 (ucast rs2) (ucast rs1) f3 (ucast rd) opc"

definition enc_i :: "i32 \<Rightarrow> u8 \<Rightarrow> u32 \<Rightarrow> u8 \<Rightarrow> u32 \<Rightarrow> u32" where
  "enc_i imm rs1 f3 rd opc = enc (drop_bit 5 imm) imm (ucast rs1) f3 (ucast rd) opc"

definition enc_s :: "i32 \<Rightarrow> u8 \<Rightarrow> u8 \<Rightarrow> u32 \<Rightarrow> u32 \<Rightarrow> u32" where
  "enc_s imm rs2 rs1 f3 opc = enc (drop_bit 5 imm) (ucast rs2) (ucast rs1) f3 imm opc"

definition enc_b :: "i32 \<Rightarrow> u8 \<Rightarrow> u8 \<Rightarrow> u32 \<Rightarrow> u32 \<Rightarrow> u32" where
  "enc_b imm rs2 rs1 f3 opc =
     enc (drop_bit 6 (imm AND 0x1000) OR drop_bit 5 (imm AND 0x7E0)) (ucast rs2) (ucast rs1) f3
       ((imm AND 0x1E) OR drop_bit 11 (imm AND 0x800)) opc"

definition enc_u :: "i32 \<Rightarrow> u8 \<Rightarrow> u32 \<Rightarrow> u32" where
  "enc_u imm rd opc =
     (imm AND 0xFFFFF000) OR push_bit 7 (ucast rd AND 31) OR (opc AND 127)"

definition enc_j :: "i32 \<Rightarrow> u8 \<Rightarrow> u32 \<Rightarrow> u32" where
  "enc_j imm rd opc =
     enc_u (push_bit 11 (imm AND 0x100000) OR push_bit 20 (imm AND 0x7FE)
            OR push_bit 9 (imm AND 0x800) OR (imm AND 0xFF000)) rd opc"

section \<open>Function codes\<close>

primrec load_f3 :: "load_op \<Rightarrow> u32" where
  "load_f3 Lb_k = 0" | "load_f3 Lh_k = 1" | "load_f3 Lw_k = 2" | "load_f3 Ld_k = 3"
| "load_f3 Lbu_k = 4" | "load_f3 Lhu_k = 5" | "load_f3 Lwu_k = 6"

primrec store_f3 :: "store_op \<Rightarrow> u32" where
  "store_f3 Sb_k = 0" | "store_f3 Sh_k = 1" | "store_f3 Sw_k = 2" | "store_f3 Sd_k = 3"

primrec branch_f3 :: "branch_op \<Rightarrow> u32" where
  "branch_f3 Beq_k = 0" | "branch_f3 Bne_k = 1" | "branch_f3 Blt_k = 4"
| "branch_f3 Bge_k = 5" | "branch_f3 Bltu_k = 6" | "branch_f3 Bgeu_k = 7"

primrec imm_f3 :: "imm_op \<Rightarrow> u32" where
  "imm_f3 Addi_k = 0" | "imm_f3 Slli_k = 1" | "imm_f3 Slti_k = 2" | "imm_f3 Sltiu_k = 3"
| "imm_f3 Xori_k = 4" | "imm_f3 Srli_k = 5" | "imm_f3 Srai_k = 5" | "imm_f3 Ori_k = 6"
| "imm_f3 Andi_k = 7"

primrec imm32_f3 :: "imm32_op \<Rightarrow> u32" where
  "imm32_f3 Addiw_k = 0" | "imm32_f3 Slliw_k = 1" | "imm32_f3 Srliw_k = 5"
| "imm32_f3 Sraiw_k = 5"

primrec reg_f :: "reg_op \<Rightarrow> u32 \<times> u32" where
  "reg_f Add_k = (0, 0)" | "reg_f Sub_k = (0x20, 0)" | "reg_f Sll_k = (0, 1)"
| "reg_f Slt_k = (0, 2)" | "reg_f Sltu_k = (0, 3)" | "reg_f Xor_k = (0, 4)"
| "reg_f Srl_k = (0, 5)" | "reg_f Sra_k = (0x20, 5)" | "reg_f Or_k = (0, 6)"
| "reg_f And_k = (0, 7)"

primrec reg32_f :: "reg32_op \<Rightarrow> u32 \<times> u32" where
  "reg32_f Addw_k = (0, 0)" | "reg32_f Subw_k = (0x20, 0)" | "reg32_f Sllw_k = (0, 1)"
| "reg32_f Srlw_k = (0, 5)" | "reg32_f Sraw_k = (0x20, 5)"

primrec mul_f3 :: "mul_op \<Rightarrow> u32" where
  "mul_f3 Mul_k = 0" | "mul_f3 Mulh_k = 1" | "mul_f3 Mulhsu_k = 2" | "mul_f3 Mulhu_k = 3"
| "mul_f3 Div_k = 4" | "mul_f3 Divu_k = 5" | "mul_f3 Rem_k = 6" | "mul_f3 Remu_k = 7"

primrec mul32_f3 :: "mul32_op \<Rightarrow> u32" where
  "mul32_f3 Mulw_k = 0" | "mul32_f3 Divw_k = 4" | "mul32_f3 Divuw_k = 5"
| "mul32_f3 Remw_k = 6" | "mul32_f3 Remuw_k = 7"

primrec csr_f3 :: "csr_op \<Rightarrow> u32" where
  "csr_f3 Csrrw_k = 1" | "csr_f3 Csrrs_k = 2" | "csr_f3 Csrrc_k = 3"

primrec csri_f3 :: "csri_op \<Rightarrow> u32" where
  "csri_f3 Csrrwi_k = 5" | "csri_f3 Csrrsi_k = 6" | "csri_f3 Csrrci_k = 7"

primrec amo_f5 :: "amo_op \<Rightarrow> u32" where
  "amo_f5 Sc_k = 3" | "amo_f5 Amoswap_k = 1" | "amo_f5 Amoadd_k = 0" | "amo_f5 Amoxor_k = 4"
| "amo_f5 Amoand_k = 12" | "amo_f5 Amoor_k = 8" | "amo_f5 Amomin_k = 16"
| "amo_f5 Amomax_k = 20" | "amo_f5 Amominu_k = 24" | "amo_f5 Amomaxu_k = 28"

primrec aqrl_bits :: "Ordering \<Rightarrow> u32" where
  "aqrl_bits Relaxed = 0" | "aqrl_bits Release = 1" | "aqrl_bits Acquire = 2"
| "aqrl_bits SeqCst = 3"

primrec amo_f3 :: "amo_width \<Rightarrow> u32" where
  "amo_f3 W32 = 2" | "amo_f3 D64 = 3"

primrec fmt_bits :: "fp_fmt \<Rightarrow> u32" where
  "fmt_bits FmtS = 0" | "fmt_bits FmtD = 1"

primrec fp_f3 :: "fp_fmt \<Rightarrow> u32" where
  "fp_f3 FmtS = 2" | "fp_f3 FmtD = 3"

primrec farith_f7 :: "farith_op \<Rightarrow> u32" where
  "farith_f7 Fadd_k = 0x00" | "farith_f7 Fsub_k = 0x04" | "farith_f7 Fmul_k = 0x08"
| "farith_f7 Fdiv_k = 0x0C"

primrec fsgn_f :: "fsgn_op \<Rightarrow> u32 \<times> u32" where
  "fsgn_f Fsgnj_k = (0x10, 0)" | "fsgn_f Fsgnjn_k = (0x10, 1)" | "fsgn_f Fsgnjx_k = (0x10, 2)"
| "fsgn_f Fmin_k = (0x14, 0)" | "fsgn_f Fmax_k = (0x14, 1)"

primrec int_fmt_rs2 :: "int_fmt \<Rightarrow> u8" where
  "int_fmt_rs2 IntW = 0" | "int_fmt_rs2 IntWu = 1" | "int_fmt_rs2 IntL = 2"
| "int_fmt_rs2 IntLu = 3"

primrec fcmp_f3 :: "fcmp_op \<Rightarrow> u32" where
  "fcmp_f3 Fle_k = 0" | "fcmp_f3 Flt_k = 1" | "fcmp_f3 Feq_k = 2"

primrec fmadd_opc :: "fmadd_op \<Rightarrow> u32" where
  "fmadd_opc Fmadd_k = 0x43" | "fmadd_opc Fmsub_k = 0x47" | "fmadd_opc Fnmsub_k = 0x4B"
| "fmadd_opc Fnmadd_k = 0x4F"

section \<open>The encoder\<close>

definition srai_bit :: "imm_op \<Rightarrow> u32" where
  "srai_bit k = (if k = Srai_k then 0x400 else 0)"

definition sraiw_bit :: "imm32_op \<Rightarrow> u32" where
  "sraiw_bit k = (if k = Sraiw_k then 0x400 else 0)"

definition encode :: "Op \<Rightarrow> u32" where
  "encode op = (case op of
       Illegal \<Rightarrow> 0x1F
     | OpLoad k rd rs1 imm \<Rightarrow> enc_i imm rs1 (load_f3 k) rd 0x03
     | Fence \<Rightarrow> 0x0FF0000F
     | FenceI \<Rightarrow> 0x0000100F
     | OpImm k rd rs1 imm \<Rightarrow> enc_i (imm OR srai_bit k) rs1 (imm_f3 k) rd 0x13
     | Auipc rd imm \<Rightarrow> enc_u imm rd 0x17
     | OpImm32 k rd rs1 imm \<Rightarrow> enc_i (imm OR sraiw_bit k) rs1 (imm32_f3 k) rd 0x1B
     | OpStore k rs1 rs2 imm \<Rightarrow> enc_s imm rs2 rs1 (store_f3 k) 0x23
     | OpReg k rd rs1 rs2 \<Rightarrow> enc_r (fst (reg_f k)) rs2 rs1 (snd (reg_f k)) rd 0x33
     | Lui rd imm \<Rightarrow> enc_u imm rd 0x37
     | OpReg32 k rd rs1 rs2 \<Rightarrow> enc_r (fst (reg32_f k)) rs2 rs1 (snd (reg32_f k)) rd 0x3B
     | OpBranch k rs1 rs2 imm \<Rightarrow> enc_b imm rs2 rs1 (branch_f3 k) 0x63
     | Jalr rd rs1 imm \<Rightarrow> enc_i imm rs1 0 rd 0x67
     | Jal rd imm \<Rightarrow> enc_j imm rd 0x6F
     | Ecall \<Rightarrow> 0x00000073
     | Ebreak \<Rightarrow> 0x00100073
     | OpCsr k rd rs1 csr \<Rightarrow> enc_i (ucast csr) rs1 (csr_f3 k) rd 0x73
     | OpCsrI k rd imm csr \<Rightarrow> enc_i (ucast csr) imm (csri_f3 k) rd 0x73
     | OpMul k rd rs1 rs2 \<Rightarrow> enc_r 1 rs2 rs1 (mul_f3 k) rd 0x33
     | OpMul32 k rd rs1 rs2 \<Rightarrow> enc_r 1 rs2 rs1 (mul32_f3 k) rd 0x3B
     | OpLr w rd rs1 aqrl \<Rightarrow> enc_r (0x08 OR aqrl_bits aqrl) 0 rs1 (amo_f3 w) rd 0x2F
     | OpAmo k w rd rs1 rs2 aqrl \<Rightarrow>
         enc_r (push_bit 2 (amo_f5 k) OR aqrl_bits aqrl) rs2 rs1 (amo_f3 w) rd 0x2F
     | OpFLoad f frd rs1 imm \<Rightarrow> enc_i imm rs1 (fp_f3 f) frd 0x07
     | OpFStore f rs1 frs2 imm \<Rightarrow> enc_s imm frs2 rs1 (fp_f3 f) 0x27
     | OpFArith k f frd frs1 frs2 rm \<Rightarrow>
         enc_r (farith_f7 k OR fmt_bits f) frs2 frs1 (ucast rm) frd 0x53
     | OpFSqrt f frd frs1 rm \<Rightarrow> enc_r (0x2C OR fmt_bits f) 0 frs1 (ucast rm) frd 0x53
     | OpFSgn k f frd frs1 frs2 \<Rightarrow>
         enc_r (fst (fsgn_f k) OR fmt_bits f) frs2 frs1 (snd (fsgn_f k)) frd 0x53
     | OpFCvtToInt i f rd frs1 rm \<Rightarrow>
         enc_r (0x60 OR fmt_bits f) (int_fmt_rs2 i) frs1 (ucast rm) rd 0x53
     | OpFMvToInt f rd frs1 \<Rightarrow> enc_r (0x70 OR fmt_bits f) 0 frs1 0 rd 0x53
     | OpFClass f rd frs1 \<Rightarrow> enc_r (0x70 OR fmt_bits f) 0 frs1 1 rd 0x53
     | OpFCmp k f rd frs1 frs2 \<Rightarrow> enc_r (0x50 OR fmt_bits f) frs2 frs1 (fcmp_f3 k) rd 0x53
     | OpFCvtFromInt i f frd rs1 rm \<Rightarrow>
         enc_r (0x68 OR fmt_bits f) (int_fmt_rs2 i) rs1 (ucast rm) frd 0x53
     | OpFMvFromInt f frd rs1 \<Rightarrow> enc_r (0x78 OR fmt_bits f) 0 rs1 0 frd 0x53
     | OpFMadd k f frd frs1 frs2 frs3 rm \<Rightarrow>
         enc_r (push_bit 2 (ucast frs3) OR fmt_bits f) frs2 frs1 (ucast rm) frd (fmadd_opc k)
     | FcvtSD frd frs1 rm \<Rightarrow> enc_r 0x20 1 frs1 (ucast rm) frd 0x53
     | FcvtDS frd frs1 rm \<Rightarrow> enc_r 0x21 0 frs1 (ucast rm) frd 0x53
     | Mret \<Rightarrow> 0x30200073
     | Sret \<Rightarrow> 0x10200073
     | Wfi \<Rightarrow> 0x10500073
     | SfenceVma rs1 rs2 \<Rightarrow> enc_r 9 rs2 rs1 0 0 0x73)"

section \<open>Operands that fit\<close>

definition reg_ok :: "u8 \<Rightarrow> bool" where
  "reg_ok r \<longleftrightarrow> r < 32"

definition rm_ok :: "u8 \<Rightarrow> bool" where
  "rm_ok rm \<longleftrightarrow> rm \<le> 4 \<or> rm = 7"

text \<open>A signed immediate of \<open>n + 1\<close> bits.\<close>

definition simm :: "nat \<Rightarrow> i32 \<Rightarrow> bool" where
  "simm n imm \<longleftrightarrow> - (2 ^ n) \<le> sint imm \<and> sint imm < 2 ^ n"

definition csr_ok :: "Csr \<Rightarrow> bool" where
  "csr_ok csr \<longleftrightarrow> csr < 0x1000"

definition imm_op_ok :: "imm_op \<Rightarrow> i32 \<Rightarrow> bool" where
  "imm_op_ok k imm = (if k \<in> {Slli_k, Srli_k, Srai_k} then imm < 64 else simm 11 imm)"

definition imm32_op_ok :: "imm32_op \<Rightarrow> i32 \<Rightarrow> bool" where
  "imm32_op_ok k imm = (if k = Addiw_k then simm 11 imm else imm < 32)"

definition csr_write_ok :: "bool \<Rightarrow> u8 \<Rightarrow> Csr \<Rightarrow> bool" where
  "csr_write_ok is_rw src csr \<longleftrightarrow> csr_ok csr \<and> (csr_readonly csr \<longrightarrow> \<not> is_rw \<and> src = 0)"

definition encodable :: "Op \<Rightarrow> bool" where
  "encodable op = (case op of
       Illegal \<Rightarrow> False
     | OpLoad k rd rs1 imm \<Rightarrow> reg_ok rd \<and> reg_ok rs1 \<and> simm 11 imm
     | OpImm k rd rs1 imm \<Rightarrow> reg_ok rd \<and> reg_ok rs1 \<and> imm_op_ok k imm
     | Auipc rd imm \<Rightarrow> reg_ok rd \<and> imm AND 0xFFF = 0
     | OpImm32 k rd rs1 imm \<Rightarrow> reg_ok rd \<and> reg_ok rs1 \<and> imm32_op_ok k imm
     | OpStore k rs1 rs2 imm \<Rightarrow> reg_ok rs1 \<and> reg_ok rs2 \<and> simm 11 imm
     | OpReg k rd rs1 rs2 \<Rightarrow> reg_ok rd \<and> reg_ok rs1 \<and> reg_ok rs2
     | Lui rd imm \<Rightarrow> reg_ok rd \<and> imm AND 0xFFF = 0
     | OpReg32 k rd rs1 rs2 \<Rightarrow> reg_ok rd \<and> reg_ok rs1 \<and> reg_ok rs2
     | OpBranch k rs1 rs2 imm \<Rightarrow> reg_ok rs1 \<and> reg_ok rs2 \<and> simm 12 imm \<and> even imm
     | Jalr rd rs1 imm \<Rightarrow> reg_ok rd \<and> reg_ok rs1 \<and> simm 11 imm
     | Jal rd imm \<Rightarrow> reg_ok rd \<and> simm 20 imm \<and> even imm
     | OpCsr k rd rs1 csr \<Rightarrow> reg_ok rd \<and> reg_ok rs1 \<and> csr_write_ok (k = Csrrw_k) rs1 csr
     | OpCsrI k rd imm csr \<Rightarrow> reg_ok rd \<and> reg_ok imm \<and> csr_write_ok (k = Csrrwi_k) imm csr
     | OpMul k rd rs1 rs2 \<Rightarrow> reg_ok rd \<and> reg_ok rs1 \<and> reg_ok rs2
     | OpMul32 k rd rs1 rs2 \<Rightarrow> reg_ok rd \<and> reg_ok rs1 \<and> reg_ok rs2
     | OpLr w rd rs1 aqrl \<Rightarrow> reg_ok rd \<and> reg_ok rs1
     | OpAmo k w rd rs1 rs2 aqrl \<Rightarrow> reg_ok rd \<and> reg_ok rs1 \<and> reg_ok rs2
     | OpFLoad f frd rs1 imm \<Rightarrow> reg_ok frd \<and> reg_ok rs1 \<and> simm 11 imm
     | OpFStore f rs1 frs2 imm \<Rightarrow> reg_ok rs1 \<and> reg_ok frs2 \<and> simm 11 imm
     | OpFArith k f frd frs1 frs2 rm \<Rightarrow> reg_ok frd \<and> reg_ok frs1 \<and> reg_ok frs2 \<and> rm_ok rm
     | OpFSqrt f frd frs1 rm \<Rightarrow> reg_ok frd \<and> reg_ok frs1 \<and> rm_ok rm
     | OpFSgn k f frd frs1 frs2 \<Rightarrow> reg_ok frd \<and> reg_ok frs1 \<and> reg_ok frs2
     | OpFCvtToInt i f rd frs1 rm \<Rightarrow> reg_ok rd \<and> reg_ok frs1 \<and> rm_ok rm
     | OpFMvToInt f rd frs1 \<Rightarrow> reg_ok rd \<and> reg_ok frs1
     | OpFClass f rd frs1 \<Rightarrow> reg_ok rd \<and> reg_ok frs1
     | OpFCmp k f rd frs1 frs2 \<Rightarrow> reg_ok rd \<and> reg_ok frs1 \<and> reg_ok frs2
     | OpFCvtFromInt i f frd rs1 rm \<Rightarrow> reg_ok frd \<and> reg_ok rs1 \<and> rm_ok rm
     | OpFMvFromInt f frd rs1 \<Rightarrow> reg_ok frd \<and> reg_ok rs1
     | OpFMadd k f frd frs1 frs2 frs3 rm \<Rightarrow>
         reg_ok frd \<and> reg_ok frs1 \<and> reg_ok frs2 \<and> reg_ok frs3 \<and> rm_ok rm
     | FcvtSD frd frs1 rm \<Rightarrow> reg_ok frd \<and> reg_ok frs1 \<and> rm_ok rm
     | FcvtDS frd frs1 rm \<Rightarrow> reg_ok frd \<and> reg_ok frs1 \<and> rm_ok rm
     | SfenceVma rs1 rs2 \<Rightarrow> reg_ok rs1 \<and> reg_ok rs2
     | Fence \<Rightarrow> True
     | FenceI \<Rightarrow> True
     | Ecall \<Rightarrow> True
     | Ebreak \<Rightarrow> True
     | Mret \<Rightarrow> True
     | Sret \<Rightarrow> True
     | Wfi \<Rightarrow> True)"

end
