(* ===== verification/Riscv_Decode_Correct.thy ===== *)
theory Riscv_Decode_Correct
  imports Riscv_Encode
begin

text \<open>
  The decoder \<open>decode\<close> of \<open>lib/riscv/src/decode.rs\<close> on the words the encoder of \<open>Riscv_Encode\<close>
  builds: what its field and immediate extractors return there (\<open>enc_fields\<close>), and, one lemma for each
  instruction format, that the operation is decoded back.
\<close>

section \<open>The fields of an encoded word\<close>

named_theorems enc_fields \<open>the decoder's extractors on words built by the encoder\<close>

lemma enc_opcode [enc_fields]: "enc f7 r2 r1 f3 r0 opc AND 127 = opc AND 127"
  by (rule word32_eqI; simp add: enc_def bit_simps)

lemma enc_rd [enc_fields]: "rd_of (enc f7 r2 r1 f3 r0 opc) = ucast (r0 AND 31)"
  by (rule word8_eqI; simp add: rd_of_def enc_def bit_simps)

lemma enc_rs1 [enc_fields]: "rs1_of (enc f7 r2 r1 f3 r0 opc) = ucast (r1 AND 31)"
  by (rule word8_eqI; simp add: rs1_of_def enc_def bit_simps)

lemma enc_rs2 [enc_fields]: "rs2_of (enc f7 r2 r1 f3 r0 opc) = ucast (r2 AND 31)"
  by (rule word8_eqI; simp add: rs2_of_def enc_def bit_simps)

lemma enc_rs3 [enc_fields]: "rs3_of (enc f7 r2 r1 f3 r0 opc) = ucast (drop_bit 2 f7 AND 31)"
  by (rule word8_eqI; simp add: rs3_of_def enc_def bit_simps)

lemma enc_funct3 [enc_fields]: "funct3 (enc f7 r2 r1 f3 r0 opc) = f3 AND 7"
  by (rule word32_eqI; simp add: funct3_def enc_def bit_simps)

lemma enc_funct7 [enc_fields]: "funct7 (enc f7 r2 r1 f3 r0 opc) = f7 AND 127"
  by (rule word32_eqI; simp add: funct7_def enc_def bit_simps)

lemma enc_u_opcode [enc_fields]: "enc_u imm rd opc AND 127 = opc AND 127"
  by (rule word32_eqI; simp add: enc_u_def bit_simps)

lemma enc_u_rd [enc_fields]: "rd_of (enc_u imm rd opc) = rd AND 31"
  by (rule word8_eqI; simp add: rd_of_def enc_u_def bit_simps)

lemma reg_ok_and: "reg_ok r \<Longrightarrow> r AND 31 = r"
proof -
  assume "reg_ok r"
  then have "unat r < 2 ^ 5" by (simp add: reg_ok_def word_less_nat_alt)
  from less_pow2_bit [OF this] show ?thesis
    by (intro word8_eqI) (simp_all add: bit_simps)
qed

lemma reg_ok_ucast [enc_fields]: "reg_ok r \<Longrightarrow> ucast (ucast r AND (31 :: u32)) = (r :: u8)"
proof -
  assume "reg_ok r"
  then have "unat r < 2 ^ 5" by (simp add: reg_ok_def word_less_nat_alt)
  from less_pow2_bit [OF this] show ?thesis
    by (intro word8_eqI) (simp_all add: bit_simps)
qed

lemma i_imm_enc_i [enc_fields]: "simm 11 imm \<Longrightarrow> i_imm (enc_i imm rs1 f3 rd opc) = imm"
  unfolding simm_def
  by (elim conjE, rule word32_eqI;
      simp add: i_imm_def enc_i_def enc_def bit_simps sint_fits_bit [of 11 imm])

lemma s_imm_enc_s [enc_fields]: "simm 11 imm \<Longrightarrow> s_imm (enc_s imm rs2 rs1 f3 opc) = imm"
  unfolding simm_def
  by (elim conjE, rule word32_eqI;
      simp add: s_imm_def enc_s_def enc_def bit_simps sint_fits_bit [of 11 imm])

lemma b_imm_enc_b [enc_fields]:
  "simm 12 imm \<Longrightarrow> even imm \<Longrightarrow> b_imm (enc_b imm rs2 rs1 f3 opc) = imm"
  unfolding simm_def
  by (elim conjE, rule word32_eqI;
      simp add: b_imm_def enc_b_def enc_def bit_simps sint_fits_bit [of 12 imm] even_bit_0)

lemma and_fff_bit: "(imm :: i32) AND 0xFFF = 0 \<Longrightarrow> k < 12 \<Longrightarrow> \<not> bit imm k"
proof -
  assume a: "imm AND 0xFFF = 0" and k: "k < 12"
  have m: "(0xFFF :: i32) = mask 12" by (simp add: mask_eq_exp_minus_1)
  have "bit (imm AND 0xFFF) k = bit imm k"
    using k by (simp only: m bit_and_iff bit_mask_iff) simp
  then show ?thesis using a by simp
qed

lemma u_imm_enc_u [enc_fields]: "imm AND 0xFFF = 0 \<Longrightarrow> u_imm (enc_u imm rd opc) = imm"
  by (rule word32_eqI; simp add: u_imm_def enc_u_def bit_simps and_fff_bit)

lemma j_imm_enc_j [enc_fields]:
  "simm 20 imm \<Longrightarrow> even imm \<Longrightarrow> j_imm (enc_j imm rd opc) = imm"
  unfolding simm_def
  by (elim conjE, rule word32_eqI;
      simp add: j_imm_def enc_j_def enc_u_def bit_simps sint_fits_bit [of 20 imm] even_bit_0)

lemma csr_of_enc_i [enc_fields]: "csr_ok csr \<Longrightarrow> csr_of (enc_i (ucast csr) rs1 f3 rd opc) = csr"
proof -
  assume "csr_ok csr"
  then have "unat csr < 2 ^ 12" by (simp add: csr_ok_def word_less_nat_alt)
  from less_pow2_bit [OF this] show ?thesis
    by (intro word16_eqI) (simp_all add: csr_of_def enc_i_def enc_def bit_simps)
qed

lemma enc_r_fields [enc_fields]:
  "enc_r f7 rs2 rs1 f3 rd opc AND 127 = opc AND 127"
  "rd_of (enc_r f7 rs2 rs1 f3 rd opc) = ucast (ucast rd AND (31 :: u32))"
  "rs1_of (enc_r f7 rs2 rs1 f3 rd opc) = ucast (ucast rs1 AND (31 :: u32))"
  "rs2_of (enc_r f7 rs2 rs1 f3 rd opc) = ucast (ucast rs2 AND (31 :: u32))"
  "rs3_of (enc_r f7 rs2 rs1 f3 rd opc) = ucast (drop_bit 2 f7 AND (31 :: u32))"
  "funct3 (enc_r f7 rs2 rs1 f3 rd opc) = f3 AND 7"
  "funct7 (enc_r f7 rs2 rs1 f3 rd opc) = f7 AND 127"
  by (simp_all add: enc_r_def enc_fields)

lemma enc_i_fields [enc_fields]:
  "enc_i imm rs1 f3 rd opc AND 127 = opc AND 127"
  "rd_of (enc_i imm rs1 f3 rd opc) = ucast (ucast rd AND (31 :: u32))"
  "rs1_of (enc_i imm rs1 f3 rd opc) = ucast (ucast rs1 AND (31 :: u32))"
  "funct3 (enc_i imm rs1 f3 rd opc) = f3 AND 7"
  by (simp_all add: enc_i_def enc_fields)

lemma enc_s_fields [enc_fields]:
  "enc_s imm rs2 rs1 f3 opc AND 127 = opc AND 127"
  "rs1_of (enc_s imm rs2 rs1 f3 opc) = ucast (ucast rs1 AND (31 :: u32))"
  "rs2_of (enc_s imm rs2 rs1 f3 opc) = ucast (ucast rs2 AND (31 :: u32))"
  "funct3 (enc_s imm rs2 rs1 f3 opc) = f3 AND 7"
  by (simp_all add: enc_s_def enc_fields)

lemma enc_b_fields [enc_fields]:
  "enc_b imm rs2 rs1 f3 opc AND 127 = opc AND 127"
  "rs1_of (enc_b imm rs2 rs1 f3 opc) = ucast (ucast rs1 AND (31 :: u32))"
  "rs2_of (enc_b imm rs2 rs1 f3 opc) = ucast (ucast rs2 AND (31 :: u32))"
  "funct3 (enc_b imm rs2 rs1 f3 opc) = f3 AND 7"
  by (simp_all add: enc_b_def enc_fields)

lemma enc_j_fields [enc_fields]:
  "enc_j imm rd opc AND 127 = opc AND 127"
  "rd_of (enc_j imm rd opc) = rd AND 31"
  by (simp_all add: enc_j_def enc_fields)

lemma decode_by_opcode:
  "bits AND 127 = opc \<Longrightarrow> opc AND 3 = 3 \<Longrightarrow> opc AND 0x1f \<noteq> 0x1f \<Longrightarrow> decode bits =
       (if opc = 0b0000011 then Some (decode_load bits)
        else if opc = 0b0000111 then Some (decode_load_fp bits)
        else if opc = 0b0010011 then decode_op_imm bits
        else if opc = 0b0001111 then Some (decode_misc_mem bits)
        else if opc = 0b0011011 then Some (decode_op_imm32 bits)
        else if opc = 0b0100011 then Some (decode_store bits)
        else if opc = 0b0100111 then Some (decode_store_fp bits)
        else if opc = 0b0101111 then decode_amo bits
        else if opc = 0b0110011 then decode_op bits
        else if opc = 0b0110111 then Some (Lui (rd_of bits) (u_imm bits))
        else if opc = 0b0111011 then Some (decode_op32 bits)
        else if opc = 0b1000011 then Some (decode_madd bits)
        else if opc = 0b1000111 then Some (decode_msub bits)
        else if opc = 0b1001011 then Some (decode_nmsub bits)
        else if opc = 0b1001111 then Some (decode_nmadd bits)
        else if opc = 0b0010111 then Some (Auipc (rd_of bits) (u_imm bits))
        else if opc = 0b1010011 then Some (decode_op_fp bits)
        else if opc = 0b1100011 then Some (decode_branch bits)
        else if opc = 0b1100111 then Some (Jalr (rd_of bits) (rs1_of bits) (i_imm bits))
        else if opc = 0b1101111 then Some (Jal (rd_of bits) (j_imm bits))
        else if opc = 0b1110011 then decode_system bits
        else Some Illegal)"
proof -
  assume o: "bits AND 127 = opc" "opc AND 3 = 3" "opc AND 0x1f \<noteq> 0x1f"
  have "bits AND 3 = (bits AND 127) AND 3" "bits AND 0x1f = (bits AND 127) AND 0x1f"
    by (simp_all only: and.assoc) simp_all
  then show ?thesis
    using o by (simp only: decode_def Let_def) simp
qed

section \<open>Decoding an encoded operation\<close>

lemma small_sint: "imm < 0x800 \<Longrightarrow> sint (imm :: i32) = uint imm"
proof -
  assume a: "imm < 0x800"
  have "- (2 ^ 31) \<le> uint imm" by (rule order_trans [OF _ uint_ge_0]) simp
  moreover have "uint imm < 2 ^ 31" using a by (simp add: word_less_def)
  ultimately have "signed_take_bit 31 (uint imm) = uint imm"
    by (rule signed_take_bit_int_eq_self)
  then show ?thesis by (simp add: sint_uint)
qed

lemma small_simm: "imm < 0x800 \<Longrightarrow> simm 11 (imm :: i32)"
proof -
  assume a: "imm < 0x800"
  have "- (2 ^ 11) \<le> uint imm" by (rule order_trans [OF _ uint_ge_0]) simp
  with a show ?thesis by (simp add: simm_def small_sint word_less_def)
qed

lemma rm_ok_ucast:
  "rm_ok rm \<Longrightarrow> ucast (ucast rm AND (7 :: u32)) = (rm :: u8)"
proof -
  assume "rm_ok rm"
  then have "unat rm < 2 ^ 3" by (auto simp: rm_ok_def word_le_nat_alt)
  from less_pow2_bit [OF this] show ?thesis
    by (intro word8_eqI) (simp_all add: bit_simps)
qed

lemma with_rm_enc [enc_fields]: "rm_ok rm \<Longrightarrow> with_rm (ucast rm AND 7) mk = mk rm"
  unfolding with_rm_def by (simp only: rm_ok_ucast Let_def) (auto simp: rm_ok_def)

lemma decode_enc_load:
  "reg_ok rd \<Longrightarrow> reg_ok rs1 \<Longrightarrow> simm 11 imm \<Longrightarrow>
   decode (enc_i imm rs1 (load_f3 k) rd 0x03) = Some (OpLoad k rd rs1 imm)"
  by (subst decode_by_opcode [OF enc_i_fields(1)]; cases k; simp add: decode_load_def enc_fields)

lemma decode_enc_store:
  "reg_ok rs2 \<Longrightarrow> reg_ok rs1 \<Longrightarrow> simm 11 imm \<Longrightarrow>
   decode (enc_s imm rs2 rs1 (store_f3 k) 0x23) = Some (OpStore k rs1 rs2 imm)"
  by (subst decode_by_opcode [OF enc_s_fields(1)]; cases k; simp add: decode_store_def enc_fields)

lemma decode_enc_fload:
  "reg_ok rd \<Longrightarrow> reg_ok rs1 \<Longrightarrow> simm 11 imm \<Longrightarrow>
   decode (enc_i imm rs1 (fp_f3 k) rd 0x07) = Some (OpFLoad k rd rs1 imm)"
  by (subst decode_by_opcode [OF enc_i_fields(1)]; cases k; simp add: decode_load_fp_def enc_fields)

lemma decode_enc_fstore:
  "reg_ok rs2 \<Longrightarrow> reg_ok rs1 \<Longrightarrow> simm 11 imm \<Longrightarrow>
   decode (enc_s imm rs2 rs1 (fp_f3 k) 0x27) = Some (OpFStore k rs1 rs2 imm)"
  by (subst decode_by_opcode [OF enc_s_fields(1)]; cases k; simp add: decode_store_fp_def enc_fields)

lemma decode_enc_branch:
  "reg_ok rs2 \<Longrightarrow> reg_ok rs1 \<Longrightarrow> simm 12 imm \<Longrightarrow> even imm \<Longrightarrow>
   decode (enc_b imm rs2 rs1 (branch_f3 k) 0x63) = Some (OpBranch k rs1 rs2 imm)"
  by (subst decode_by_opcode [OF enc_b_fields(1)]; cases k; simp add: decode_branch_def enc_fields)

lemma decode_enc_u:
  "reg_ok rd \<Longrightarrow> imm AND 0xFFF = 0 \<Longrightarrow> decode (enc_u imm rd 0x37) = Some (Lui rd imm)"
  "reg_ok rd \<Longrightarrow> imm AND 0xFFF = 0 \<Longrightarrow> decode (enc_u imm rd 0x17) = Some (Auipc rd imm)"
  by (subst decode_by_opcode [OF enc_u_opcode]; simp add: enc_fields reg_ok_and)+

lemma decode_enc_jal:
  "reg_ok rd \<Longrightarrow> simm 20 imm \<Longrightarrow> even imm \<Longrightarrow> decode (enc_j imm rd 0x6F) = Some (Jal rd imm)"
  by (subst decode_by_opcode [OF enc_j_fields(1)]; simp add: enc_fields reg_ok_and)

lemma decode_enc_jalr:
  "reg_ok rd \<Longrightarrow> reg_ok rs1 \<Longrightarrow> simm 11 imm \<Longrightarrow>
   decode (enc_i imm rs1 0 rd 0x67) = Some (Jalr rd rs1 imm)"
  by (subst decode_by_opcode [OF enc_i_fields(1)]; simp add: enc_fields)

lemma decode_enc_reg:
  "reg_ok rd \<Longrightarrow> reg_ok rs1 \<Longrightarrow> reg_ok rs2 \<Longrightarrow>
   decode (enc_r (fst (reg_f k)) rs2 rs1 (snd (reg_f k)) rd 0x33) = Some (OpReg k rd rs1 rs2)"
  by (subst decode_by_opcode [OF enc_r_fields(1)]; cases k; simp add: decode_op_def enc_fields)

lemma decode_enc_mul:
  "reg_ok rd \<Longrightarrow> reg_ok rs1 \<Longrightarrow> reg_ok rs2 \<Longrightarrow>
   decode (enc_r 1 rs2 rs1 (mul_f3 k) rd 0x33) = Some (OpMul k rd rs1 rs2)"
  by (subst decode_by_opcode [OF enc_r_fields(1)]; cases k; simp add: decode_op_def enc_fields)

lemma decode_enc_reg32:
  "reg_ok rd \<Longrightarrow> reg_ok rs1 \<Longrightarrow> reg_ok rs2 \<Longrightarrow>
   decode (enc_r (fst (reg32_f k)) rs2 rs1 (snd (reg32_f k)) rd 0x3B) = Some (OpReg32 k rd rs1 rs2)"
  by (subst decode_by_opcode [OF enc_r_fields(1)]; cases k; simp add: decode_op32_def enc_fields)

lemma decode_enc_mul32:
  "reg_ok rd \<Longrightarrow> reg_ok rs1 \<Longrightarrow> reg_ok rs2 \<Longrightarrow>
   decode (enc_r 1 rs2 rs1 (mul32_f3 k) rd 0x3B) = Some (OpMul32 k rd rs1 rs2)"
  by (subst decode_by_opcode [OF enc_r_fields(1)]; cases k; simp add: decode_op32_def enc_fields)

lemma shamt_bits:
  fixes imm :: i32
  assumes "imm < 64"
  shows "imm OR 0x400 < 0x800" "(imm OR 0x400) AND - 0x401 = imm"
    "(imm OR 0x400) AND 0x400 \<noteq> 0" "imm AND - 0x401 = imm" "imm AND 0x400 = 0"
proof -
  from assms have "unat imm < 2 ^ 6" by (simp add: word_less_nat_alt)
  note b = less_pow2_bit [OF this]
  have d: "imm AND 0x400 = 0"
    by (rule word32_eqI; simp add: bit_simps b)
  then have "imm OR 0x400 = imm + 0x400"
    by (simp add: disjunctive_add_eq_or)
  then show "imm OR 0x400 < 0x800" using assms by unat_arith
  show "(imm OR 0x400) AND - 0x401 = imm" "imm AND - 0x401 = imm" "imm AND 0x400 = 0"
    by (rule word32_eqI; simp add: bit_simps b)+
  have "bit ((imm OR 0x400) AND 0x400) 10" by (simp add: bit_simps)
  then show "(imm OR 0x400) AND 0x400 \<noteq> 0" by fastforce
qed

lemma shamt_less:
  fixes imm :: i32
  shows "imm < 64 \<Longrightarrow> imm < 0x800" "imm < 32 \<Longrightarrow> imm < 64"
    "imm < 64 \<Longrightarrow> \<not> 64 \<le> sint imm" "imm < 32 \<Longrightarrow> \<not> 32 \<le> sint imm"
proof -
  show l: "imm < 64 \<Longrightarrow> imm < 0x800" and l2: "imm < 32 \<Longrightarrow> imm < 64"
    by (unat_arith+)
  show "imm < 64 \<Longrightarrow> \<not> 64 \<le> sint imm" "imm < 32 \<Longrightarrow> \<not> 32 \<le> sint imm"
    using l l2 by (auto simp: small_sint word_less_def)
qed

lemma decode_enc_imm:
  assumes "reg_ok rd" "reg_ok rs1" "imm_op_ok k imm"
  shows "decode (enc_i (imm OR srai_bit k) rs1 (imm_f3 k) rd 0x13) = Some (OpImm k rd rs1 imm)"
  using assms
  by (subst decode_by_opcode [OF enc_i_fields(1)]; cases k;
      simp add: decode_op_imm_def enc_fields imm_op_ok_def srai_bit_def small_simm shamt_less
        shamt_bits Let_def)

lemma decode_enc_imm32:
  assumes "reg_ok rd" "reg_ok rs1" "imm32_op_ok k imm"
  shows "decode (enc_i (imm OR sraiw_bit k) rs1 (imm32_f3 k) rd 0x1B)
         = Some (OpImm32 k rd rs1 imm)"
  using assms
  by (subst decode_by_opcode [OF enc_i_fields(1)]; cases k;
      simp add: decode_op_imm32_def enc_fields imm32_op_ok_def sraiw_bit_def small_simm shamt_less
        shamt_bits Let_def)

lemma enc_aqrl_fields:
  "((push_bit 2 f OR aqrl_bits a) AND 127) AND 3 = aqrl_bits a"
  "drop_bit 2 ((push_bit 2 f OR aqrl_bits a) AND 127) = f AND 31"
  by (cases a; intro word32_eqI; simp add: bit_simps)+

lemma decode_aqrl_enc:
  "funct7 bits AND 3 = aqrl_bits a \<Longrightarrow> decode_aqrl bits = Some a"
  by (cases a) (simp_all add: decode_aqrl_def)

lemma decode_enc_lr:
  assumes "reg_ok rd" "reg_ok rs1"
  shows "decode (enc_r (0x08 OR aqrl_bits a) 0 rs1 (amo_f3 w) rd 0x2F) = Some (OpLr w rd rs1 a)"
  using assms
  by (subst decode_by_opcode [OF enc_r_fields(1)]; cases a; cases w;
      simp add: decode_amo_def decode_amo_w_def decode_amo_d_def decode_aqrl_def enc_fields)

lemma decode_enc_amo:
  assumes "reg_ok rd" "reg_ok rs1" "reg_ok rs2"
  shows "decode (enc_r (push_bit 2 (amo_f5 k) OR aqrl_bits a) rs2 rs1 (amo_f3 w) rd 0x2F)
         = Some (OpAmo k w rd rs1 rs2 a)"
proof -
  let ?e = "enc_r (push_bit 2 (amo_f5 k) OR aqrl_bits a) rs2 rs1 (amo_f3 w) rd 0x2F"
  have "decode_aqrl ?e = Some a"
    by (rule decode_aqrl_enc) (simp only: enc_r_fields enc_aqrl_fields)
  moreover have "drop_bit 2 (funct7 ?e) = amo_f5 k AND 31"
    by (simp only: enc_r_fields enc_aqrl_fields)
  ultimately have "decode_amo ?e = Some (OpAmo k w rd rs1 rs2 a)"
    using assms unfolding decode_amo_def
    by (cases k; cases w; simp add: decode_amo_w_def decode_amo_d_def enc_fields)
  then show ?thesis
    by (subst decode_by_opcode [OF enc_r_fields(1)]) simp_all
qed

lemma decode_enc_farith:
  assumes "reg_ok rd" "reg_ok rs1" "reg_ok rs2" "rm_ok rm"
  shows "decode (enc_r (farith_f7 k OR fmt_bits f) rs2 rs1 (ucast rm) rd 0x53)
         = Some (OpFArith k f rd rs1 rs2 rm)"
  using assms
  by (subst decode_by_opcode [OF enc_r_fields(1)]; cases k; cases f;
      simp add: decode_op_fp_def enc_fields)

lemma decode_enc_fsgn:
  assumes "reg_ok rd" "reg_ok rs1" "reg_ok rs2"
  shows "decode (enc_r (fst (fsgn_f g) OR fmt_bits f) rs2 rs1 (snd (fsgn_f g)) rd 0x53)
         = Some (OpFSgn g f rd rs1 rs2)"
  using assms
  by (subst decode_by_opcode [OF enc_r_fields(1)]; cases g; cases f;
      simp add: decode_op_fp_def enc_fields)

lemma decode_enc_fcmp:
  assumes "reg_ok rd" "reg_ok rs1" "reg_ok rs2"
  shows "decode (enc_r (0x50 OR fmt_bits f) rs2 rs1 (fcmp_f3 c) rd 0x53)
         = Some (OpFCmp c f rd rs1 rs2)"
  using assms
  by (subst decode_by_opcode [OF enc_r_fields(1)]; cases c; cases f;
      simp add: decode_op_fp_def enc_fields)

lemma decode_enc_fcvt_int:
  assumes "reg_ok rd" "reg_ok rs1" "rm_ok rm"
  shows "decode (enc_r (0x60 OR fmt_bits f) (int_fmt_rs2 i) rs1 (ucast rm) rd 0x53)
           = Some (OpFCvtToInt i f rd rs1 rm)"
    and "decode (enc_r (0x68 OR fmt_bits f) (int_fmt_rs2 i) rs1 (ucast rm) rd 0x53)
           = Some (OpFCvtFromInt i f rd rs1 rm)"
  using assms
  by (subst decode_by_opcode [OF enc_r_fields(1)]; cases i; cases f;
      simp add: decode_op_fp_def enc_fields)+

lemma decode_enc_fmisc:
  assumes "reg_ok rd" "reg_ok rs1"
  shows "decode (enc_r (0x70 OR fmt_bits f) 0 rs1 0 rd 0x53) = Some (OpFMvToInt f rd rs1)"
    and "decode (enc_r (0x70 OR fmt_bits f) 0 rs1 1 rd 0x53) = Some (OpFClass f rd rs1)"
    and "decode (enc_r (0x78 OR fmt_bits f) 0 rs1 0 rd 0x53) = Some (OpFMvFromInt f rd rs1)"
  using assms
  by (subst decode_by_opcode [OF enc_r_fields(1)]; cases f;
      simp add: decode_op_fp_def enc_fields)+

lemma decode_enc_fsqrt:
  assumes "reg_ok rd" "reg_ok rs1" "rm_ok rm"
  shows "decode (enc_r (0x2C OR fmt_bits f) 0 rs1 (ucast rm) rd 0x53) = Some (OpFSqrt f rd rs1 rm)"
    and "decode (enc_r 0x20 1 rs1 (ucast rm) rd 0x53) = Some (FcvtSD rd rs1 rm)"
    and "decode (enc_r 0x21 0 rs1 (ucast rm) rd 0x53) = Some (FcvtDS rd rs1 rm)"
  using assms
  by (subst decode_by_opcode [OF enc_r_fields(1)]; cases f;
      simp add: decode_op_fp_def enc_fields)+

lemma enc_fma_fields:
  "((push_bit 2 f OR fmt_bits a) AND 127) AND 3 = fmt_bits a"
  "drop_bit 2 (push_bit 2 f OR fmt_bits a) = f AND 0x3FFFFFFF"
  by (cases a; intro word32_eqI; simp add: bit_simps)+

lemma enc_fma_rs3:
  "reg_ok r \<Longrightarrow> rs3_of (enc_r (push_bit 2 (ucast r) OR fmt_bits a) rs2 rs1 f3 rd opc) = r"
proof -
  assume "reg_ok r"
  then have "unat r < 2 ^ 5" by (simp add: reg_ok_def word_less_nat_alt)
  from less_pow2_bit [OF this] show ?thesis
    unfolding enc_r_fields
    by (cases a; intro word8_eqI; simp add: bit_simps)
qed

lemma decode_enc_fmadd:
  assumes ok: "reg_ok rd" "reg_ok rs1" "reg_ok rs2" "reg_ok rs3" "rm_ok rm"
  shows "decode (enc_r (push_bit 2 (ucast rs3) OR fmt_bits f) rs2 rs1 (ucast rm) rd (fmadd_opc k))
         = Some (OpFMadd k f rd rs1 rs2 rs3 rm)"
proof -
  define e where
    "e = enc_r (push_bit 2 (ucast rs3) OR fmt_bits f) rs2 rs1 (ucast rm) rd (fmadd_opc k)"
  have opc: "e AND 127 = fmadd_opc k AND 127" by (simp only: e_def enc_r_fields)
  have "rs3_of e = rs3" unfolding e_def using ok(4) by (rule enc_fma_rs3)
  moreover have "funct7 e AND 3 = fmt_bits f" by (simp only: e_def enc_r_fields enc_fma_fields)
  moreover have "rd_of e = rd" "rs1_of e = rs1" "rs2_of e = rs2" "funct3 e = ucast rm AND 7"
    using ok by (simp_all only: e_def enc_r_fields reg_ok_ucast)
  ultimately have "decode e = Some (OpFMadd k f rd rs1 rs2 rs3 rm)"
    using ok(5)
    by (subst decode_by_opcode [OF opc]; cases k; cases f;
        simp add: decode_madd_def decode_msub_def decode_nmsub_def decode_nmadd_def with_rm_enc)
  then show ?thesis by (simp only: e_def)
qed

lemma decode_enc_csr:
  assumes "reg_ok rd" "reg_ok rs1" "csr_write_ok (k = Csrrw_k) rs1 csr"
  shows "decode (enc_i (ucast csr) rs1 (csr_f3 k) rd 0x73) = Some (OpCsr k rd rs1 csr)"
  using assms
  by (subst decode_by_opcode [OF enc_i_fields(1)]; cases k;
      simp add: decode_system_def enc_fields csr_write_ok_def Let_def)

lemma decode_enc_csri:
  assumes "reg_ok rd" "reg_ok imm" "csr_write_ok (k = Csrrwi_k) imm csr"
  shows "decode (enc_i (ucast csr) imm (csri_f3 k) rd 0x73) = Some (OpCsrI k rd imm csr)"
  using assms
  by (subst decode_by_opcode [OF enc_i_fields(1)]; cases k;
      simp add: decode_system_def enc_fields csr_write_ok_def Let_def)

lemma funct7_neq: "funct7 x \<noteq> funct7 y \<Longrightarrow> x \<noteq> y"
  by blast

lemma decode_enc_sfence:
  assumes "reg_ok rs1" "reg_ok rs2"
  shows "decode (enc_r 9 rs2 rs1 0 0 0x73) = Some (SfenceVma rs1 rs2)"
proof -
  have f7: "funct7 (enc_r 9 rs2 rs1 0 0 0x73) = 9" by (simp add: enc_fields)
  have "enc_r 9 rs2 rs1 0 0 0x73 \<noteq> x" if "funct7 x \<noteq> 9" for x
    using that f7 by auto
  then show ?thesis using assms f7
    by (subst decode_by_opcode [OF enc_r_fields(1)];
        simp add: decode_system_def enc_fields; simp add: funct7_def)
qed

text \<open>The constant encodings.\<close>

lemma decode_enc_consts:
  "decode 0x0FF0000F = Some Fence" "decode 0x0000100F = Some FenceI"
  "decode 0x00000073 = Some Ecall" "decode 0x00100073 = Some Ebreak"
  "decode 0x30200073 = Some Mret" "decode 0x10200073 = Some Sret"
  "decode 0x10500073 = Some Wfi"
  by (simp_all add: decode_def decode_misc_mem_def decode_system_def funct3_def)

lemmas decode_enc =
  decode_enc_load decode_enc_store decode_enc_fload decode_enc_fstore decode_enc_branch
  decode_enc_u decode_enc_jal decode_enc_jalr decode_enc_reg decode_enc_mul decode_enc_reg32
  decode_enc_mul32 decode_enc_imm decode_enc_imm32 decode_enc_lr decode_enc_amo decode_enc_farith
  decode_enc_fsgn decode_enc_fcmp decode_enc_fcvt_int decode_enc_fmisc decode_enc_fsqrt decode_enc_fmadd decode_enc_csr decode_enc_csri decode_enc_sfence
  decode_enc_consts

lemma decode_encode_aux: "encodable op \<Longrightarrow> decode (encode op) = Some op"
  by (cases op; simp only: encodable_def encode_def Op.case; (elim conjE)?; simp only: decode_enc)

end
