(* ===== verification/Riscv_Decode_Exact.thy ===== *)
theory Riscv_Decode_Exact
  imports Riscv_Decode_Correct
begin

text \<open>
  The converse of the round trip of \<open>Riscv_Decode_Correct\<close>: what the decoder may return for
  an arbitrary instruction word. Every 32-bit word decodes (no panic), and the result is
  \<open>Illegal\<close>, or an operation whose encoding is the very word, or one of three named
  exceptions. The compressed decoder is shown to produce only operations that have a 32-bit
  encoding.
\<close>

section \<open>What a decoded word may be\<close>

text \<open>The shifts by a negative amount that the decoder lets through: its range check
  \<open>imm >= 64\<close> (\<open>imm >= 32\<close>) is on a signed immediate.\<close>

definition bad_shift :: "Op \<Rightarrow> bool" where
  "bad_shift op = (case op of
       OpImm k rd rs1 imm \<Rightarrow>
         k \<in> {Slli_k, Srli_k, Srai_k} \<and> reg_ok rd \<and> reg_ok rs1 \<and> simm 11 imm \<and> sint imm < 0
     | OpImm32 k rd rs1 imm \<Rightarrow>
         k \<noteq> Addiw_k \<and> reg_ok rd \<and> reg_ok rs1 \<and> simm 11 imm \<and> sint imm < 0
     | _ \<Rightarrow> False)"

text \<open>Operations that several instruction words denote.\<close>

definition many_words :: "Op \<Rightarrow> bool" where
  "many_words op = (case op of Fence \<Rightarrow> True | FenceI \<Rightarrow> True | Jalr _ _ _ \<Rightarrow> True | _ \<Rightarrow> False)"

definition exact :: "u32 \<Rightarrow> Op \<Rightarrow> bool" where
  "exact bits op \<longleftrightarrow> op = Illegal \<or> bad_shift op \<or> encodable op \<and> encode op = bits"

definition exact_opt :: "u32 \<Rightarrow> Op option \<Rightarrow> bool" where
  "exact_opt bits r = (case r of None \<Rightarrow> False | Some op \<Rightarrow> exact bits op)"

definition decoded :: "u32 \<Rightarrow> Op option \<Rightarrow> bool" where
  "decoded bits r = (case r of None \<Rightarrow> False
     | Some op \<Rightarrow> exact bits op \<or> many_words op \<and> encodable op)"

section \<open>Re-encoding a decoded word\<close>

lemma recon_r:
  "funct7 bits = f7 \<Longrightarrow> rs2_of bits = rs2 \<Longrightarrow> funct3 bits = f3 \<Longrightarrow> rd_of bits = rd \<Longrightarrow>
   bits AND 127 = opc \<Longrightarrow> enc_r f7 rs2 (rs1_of bits) f3 rd opc = bits"
  by (elim subst; rule word32_eqI;
      simp add: enc_r_def enc_def funct7_def funct3_def rs2_of_def rs1_of_def rd_of_def bit_simps)

lemma recon_i:
  "funct3 bits = f3 \<Longrightarrow> bits AND 127 = opc \<Longrightarrow>
   enc_i (i_imm bits) (rs1_of bits) f3 (rd_of bits) opc = bits"
  by (elim subst; rule word32_eqI;
      simp add: enc_i_def enc_def i_imm_def funct3_def rs1_of_def rd_of_def bit_simps)

lemma recon_csr:
  "funct3 bits = f3 \<Longrightarrow> rd_of bits = rd \<Longrightarrow> rs1_of bits = rs1 \<Longrightarrow> bits AND 127 = opc \<Longrightarrow>
   enc_i (ucast (csr_of bits)) rs1 f3 rd opc = bits"
  by (elim subst; rule word32_eqI;
      simp add: enc_i_def enc_def csr_of_def funct3_def rs1_of_def rd_of_def bit_simps)

lemma recon_s:
  "funct3 bits = f3 \<Longrightarrow> bits AND 127 = opc \<Longrightarrow>
   enc_s (s_imm bits) (rs2_of bits) (rs1_of bits) f3 opc = bits"
  by (elim subst; rule word32_eqI;
      simp add: enc_s_def enc_def s_imm_def funct3_def rs1_of_def rs2_of_def bit_simps)

lemma recon_b:
  "funct3 bits = f3 \<Longrightarrow> bits AND 127 = opc \<Longrightarrow>
   enc_b (b_imm bits) (rs2_of bits) (rs1_of bits) f3 opc = bits"
  by (elim subst; rule word32_eqI;
      simp add: enc_b_def enc_def b_imm_def funct3_def rs1_of_def rs2_of_def bit_simps)

lemma recon_u:
  "bits AND 127 = opc \<Longrightarrow> enc_u (u_imm bits) (rd_of bits) opc = bits"
  by (elim subst; rule word32_eqI; simp add: enc_u_def u_imm_def rd_of_def bit_simps)

lemma recon_j:
  "bits AND 127 = opc \<Longrightarrow> enc_j (j_imm bits) (rd_of bits) opc = bits"
  by (elim subst; rule word32_eqI; simp add: enc_j_def enc_u_def j_imm_def rd_of_def bit_simps)

lemmas recon = recon_r recon_i recon_csr recon_s recon_b recon_u recon_j

section \<open>Operands of a decoded word\<close>

lemma and_31_less: "(x :: 'a::len word) AND 31 \<le> 31"
  by (rule word_and_le1)

lemma reg_ok_fields: "reg_ok (rd_of bits)" "reg_ok (rs1_of bits)" "reg_ok (rs2_of bits)" "reg_ok (rs3_of bits)"
proof -
  have "reg_ok (ucast (x AND (31 :: u32)))" for x
  proof -
    have "(ucast (x AND (31 :: u32)) :: u8) = ucast x AND 31"
      by (rule word8_eqI; simp add: bit_simps)
    then show ?thesis unfolding reg_ok_def
      using and_31_less [of "ucast x :: u8"] by (simp add: order_le_less_trans)
  qed
  then show "reg_ok (rd_of bits)" "reg_ok (rs1_of bits)" "reg_ok (rs2_of bits)" "reg_ok (rs3_of bits)"
    by (simp_all add: rd_of_def rs1_of_def rs2_of_def rs3_of_def)
qed

lemma bit_sint_min: "bit (sint (w :: i32)) k = bit w (min k 31)"
  by (auto simp: bit_sint_iff min_def not_less bit_high_word)

lemma simm_signed_take_bit:
  assumes "n < 32" "signed_take_bit n imm = imm"
  shows "simm n imm"
proof -
  have b: "bit imm k = bit imm (min n k)" if "k < 32" for k
    using that assms bit_signed_take_bit_iff [of n imm k] by (simp add: min.commute)
  have "signed_take_bit n (sint imm) = sint imm"
  proof (rule bit_eqI)
    fix k
    have "bit (signed_take_bit n (sint imm)) k = bit imm (min (min n k) 31)"
      by (simp add: bit_signed_take_bit_iff bit_sint_min)
    also have "\<dots> = bit imm (min n (min k 31))" by (simp add: min.assoc)
    also have "\<dots> = bit (sint imm) k" by (subst b [symmetric]) (simp_all add: bit_sint_min)
    finally show "bit (signed_take_bit n (sint imm)) k = bit (sint imm) k" .
  qed
  then show ?thesis
    by (simp add: simm_def signed_take_bit_int_eq_self_iff)
qed

lemma simm_fields:
  "simm 11 (i_imm bits)" "simm 11 (s_imm bits)" "simm 12 (b_imm bits)" "simm 20 (j_imm bits)"
  by (rule simm_signed_take_bit; (rule word32_eqI)?;
      simp add: i_imm_def s_imm_def b_imm_def j_imm_def bit_simps)+

lemma even_fields: "even (b_imm bits)" "even (j_imm bits)"
proof -
  have "\<not> bit (b_imm bits) 0" "\<not> bit (j_imm bits) 0"
    by (simp_all add: b_imm_def j_imm_def bit_simps)
  then show "even (b_imm bits)" "even (j_imm bits)" by (simp_all add: bit_0)
qed

lemma u_imm_low: "u_imm bits AND 0xFFF = 0"
  by (rule word32_eqI; simp add: u_imm_def bit_simps)

lemma csr_ok_field: "csr_ok (csr_of bits)"
proof -
  have "csr_of bits AND 0xFFF = csr_of bits"
    by (rule word16_eqI; simp add: csr_of_def bit_simps bit_high_word)
  then have "csr_of bits \<le> 0xFFF" by (metis word_and_le1)
  then show ?thesis unfolding csr_ok_def by (rule order_le_less_trans) simp
qed


lemmas fields_ok = reg_ok_fields simm_fields even_fields u_imm_low csr_ok_field

lemma exact_load: "bits AND 127 = 0x03 \<Longrightarrow> exact bits (decode_load bits)"
  by (simp add: decode_load_def Let_def exact_def encodable_def encode_def recon fields_ok)

lemma exact_load_fp: "bits AND 127 = 0x07 \<Longrightarrow> exact bits (decode_load_fp bits)"
  by (simp add: decode_load_fp_def Let_def exact_def encodable_def encode_def recon fields_ok)

lemma exact_store: "bits AND 127 = 0x23 \<Longrightarrow> exact bits (decode_store bits)"
  by (simp add: decode_store_def Let_def exact_def encodable_def encode_def recon fields_ok)

lemma exact_store_fp: "bits AND 127 = 0x27 \<Longrightarrow> exact bits (decode_store_fp bits)"
  by (simp add: decode_store_fp_def Let_def exact_def encodable_def encode_def recon fields_ok)

lemma exact_branch: "bits AND 127 = 0x63 \<Longrightarrow> exact bits (decode_branch bits)"
  by (simp add: decode_branch_def Let_def exact_def encodable_def encode_def recon fields_ok)

lemma exact_op32: "bits AND 127 = 0x3B \<Longrightarrow> exact bits (decode_op32 bits)"
  by (simp add: decode_op32_def Let_def exact_def encodable_def encode_def recon fields_ok)

lemma funct3_cases:
  "funct3 bits \<noteq> 0 \<Longrightarrow> funct3 bits \<noteq> 1 \<Longrightarrow> funct3 bits \<noteq> 2 \<Longrightarrow> funct3 bits \<noteq> 3 \<Longrightarrow>
   funct3 bits \<noteq> 4 \<Longrightarrow> funct3 bits \<noteq> 5 \<Longrightarrow> funct3 bits \<noteq> 6 \<Longrightarrow> funct3 bits = 7"
proof -
  have "funct3 bits \<le> 7" unfolding funct3_def by (rule word_and_le1)
  then show "funct3 bits \<noteq> 0 \<Longrightarrow> funct3 bits \<noteq> 1 \<Longrightarrow> funct3 bits \<noteq> 2 \<Longrightarrow> funct3 bits \<noteq> 3 \<Longrightarrow>
   funct3 bits \<noteq> 4 \<Longrightarrow> funct3 bits \<noteq> 5 \<Longrightarrow> funct3 bits \<noteq> 6 \<Longrightarrow> funct3 bits = 7"
    by unat_arith
qed

lemma exact_op: "bits AND 127 = 0x33 \<Longrightarrow> exact_opt bits (decode_op bits)"
  using funct3_cases [of bits]
  by (simp add: decode_op_def Let_def exact_opt_def exact_def encodable_def encode_def recon fields_ok)

lemma exactI: "encodable op \<Longrightarrow> encode op = bits \<Longrightarrow> exact bits op"
  by (simp add: exact_def)

lemma exact_Illegal: "exact bits Illegal"
  by (simp add: exact_def)

lemma ucast_funct3: "ucast (ucast (funct3 bits) :: u8) = funct3 bits"
  by (rule word32_eqI; simp add: funct3_def bit_simps)

lemma exact_if: "(c \<Longrightarrow> exact bits a) \<Longrightarrow> exact bits b \<Longrightarrow> exact bits (if c then a else b)"
  by simp

lemma exact_opt_if:
  "(c \<Longrightarrow> exact_opt bits a) \<Longrightarrow> (\<not> c \<Longrightarrow> exact_opt bits b) \<Longrightarrow> exact_opt bits (if c then a else b)"
  by simp

lemma exact_opt_Some: "exact bits op \<Longrightarrow> exact_opt bits (Some op)"
  by (simp add: exact_opt_def)

lemma exact_with_rm:
  assumes "rm_ok (ucast (funct3 bits)) \<Longrightarrow> exact bits (mk (ucast (funct3 bits)))"
  shows "exact bits (with_rm (funct3 bits) mk)"
proof (cases "(ucast (funct3 bits) :: u8) > 4 \<and> (ucast (funct3 bits) :: u8) \<noteq> 7")
  case True
  show ?thesis by (simp only: with_rm_def Let_def if_P [OF True] exact_Illegal)
next
  case False
  then have "rm_ok (ucast (funct3 bits))" by (simp only: rm_ok_def not_less [symmetric]) blast
  then show ?thesis by (simp only: with_rm_def Let_def if_not_P [OF False] assms)
qed

lemma exact_op_fp: "bits AND 127 = 0x53 \<Longrightarrow> exact bits (decode_op_fp bits)"
  unfolding decode_op_fp_def Let_def
  by (intro exact_if exact_Illegal exact_with_rm; rule exactI;
      simp add: encodable_def encode_def recon fields_ok ucast_funct3)

lemma recon_fma:
  "funct7 bits AND 3 = fmt \<Longrightarrow> funct3 bits = f3 \<Longrightarrow> bits AND 127 = opc \<Longrightarrow>
   enc_r (push_bit 2 (ucast (rs3_of bits)) OR fmt) (rs2_of bits) (rs1_of bits) f3 (rd_of bits) opc
   = bits"
  by (elim subst; rule word32_eqI;
      simp add: enc_r_def enc_def funct7_def funct3_def rs2_of_def rs1_of_def rd_of_def rs3_of_def
        bit_simps)

lemmas fma_defs = decode_madd_def decode_msub_def decode_nmsub_def decode_nmadd_def

lemma exact_fma_op:
  assumes "bits AND 127 = fmadd_opc k" "funct7 bits AND 3 = fmt_bits f"
  shows "exact bits
    (with_rm (funct3 bits) (OpFMadd k f (rd_of bits) (rs1_of bits) (rs2_of bits) (rs3_of bits)))"
  by (rule exact_with_rm, rule exactI;
      simp only: encodable_def encode_def Op.case fields_ok ucast_funct3 simp_thms
        recon_fma [OF assms(2) refl assms(1)])

lemma exact_fma:
  "bits AND 127 = 0x43 \<Longrightarrow> exact bits (decode_madd bits)"
  "bits AND 127 = 0x47 \<Longrightarrow> exact bits (decode_msub bits)"
  "bits AND 127 = 0x4B \<Longrightarrow> exact bits (decode_nmsub bits)"
  "bits AND 127 = 0x4F \<Longrightarrow> exact bits (decode_nmadd bits)"
  unfolding fma_defs Let_def by (simp_all add: exact_fma_op exact_Illegal)

lemma recon_amo:
  "push_bit 2 (drop_bit 2 (funct7 bits)) OR (funct7 bits AND 3) = g \<Longrightarrow> rs2_of bits = rs2 \<Longrightarrow>
   funct3 bits = f3 \<Longrightarrow> bits AND 127 = opc \<Longrightarrow>
   enc_r g rs2 (rs1_of bits) f3 (rd_of bits) opc = bits"
  by (elim subst; rule word32_eqI;
      simp add: enc_r_def enc_def funct7_def funct3_def rs2_of_def rs1_of_def rd_of_def bit_simps)

lemma decode_aqrl_total: "\<exists>a. decode_aqrl bits = Some a \<and> funct7 bits AND 3 = aqrl_bits a"
proof -
  have "funct7 bits AND 3 \<le> 3" by (rule word_and_le1)
  then have "funct7 bits AND 3 = 0 \<or> funct7 bits AND 3 = 1 \<or> funct7 bits AND 3 = 2 \<or> funct7 bits AND 3 = 3"
    by unat_arith
  then show ?thesis by (elim disjE) (simp_all add: decode_aqrl_def exI [where x = Relaxed]
    exI [where x = Release] exI [where x = Acquire] exI [where x = SeqCst])
qed

lemma exact_amo: "bits AND 127 = 0x2F \<Longrightarrow> exact_opt bits (decode_amo bits)"
proof -
  assume o: "bits AND 127 = 0x2F"
  obtain a where a: "decode_aqrl bits = Some a" "funct7 bits AND 3 = aqrl_bits a"
    using decode_aqrl_total by blast
  show ?thesis
    unfolding decode_amo_def Let_def a(1) exact_opt_def option.case
    by (simp add: decode_amo_w_def decode_amo_d_def exact_Illegal exactI encodable_def encode_def
        fields_ok recon_amo a(2) o)
qed

lemma exact_csr_op:
  assumes "bits AND 127 = 0x73" "funct3 bits = csr_f3 k"
    "\<not> csr_readonly (csr_of bits) \<or> k \<noteq> Csrrw_k \<and> rs1_of bits = 0"
  shows "exact bits (OpCsr k (rd_of bits) (rs1_of bits) (csr_of bits))"
  using assms
  by (intro exactI) (auto simp: encodable_def encode_def recon_csr fields_ok csr_write_ok_def)

lemma exact_csri_op:
  assumes "bits AND 127 = 0x73" "funct3 bits = csri_f3 k"
    "\<not> csr_readonly (csr_of bits) \<or> k \<noteq> Csrrwi_k \<and> rs1_of bits = 0"
  shows "exact bits (OpCsrI k (rd_of bits) (rs1_of bits) (csr_of bits))"
  using assms
  by (intro exactI) (auto simp: encodable_def encode_def recon_csr fields_ok csr_write_ok_def)

lemma exact_sys0:
  assumes "bits AND 127 = 0x73" "funct3 bits = 0"
  shows "exact_opt bits (decode_system bits)"
  using assms unfolding decode_system_def Let_def
  by (simp add: exact_opt_def exact_Illegal exactI encodable_def encode_def recon_r fields_ok)

lemma exact_system: "bits AND 127 = 0x73 \<Longrightarrow> exact_opt bits (decode_system bits)"
proof -
  assume o: "bits AND 127 = 0x73"
  consider "funct3 bits = 0" | "funct3 bits = 4" | "funct3 bits = 1" | "funct3 bits = 2"
    | "funct3 bits = 3" | "funct3 bits = 5" | "funct3 bits = 6" | "funct3 bits = 7"
    using funct3_cases by blast
  then show ?thesis
    by cases (simp_all add: exact_sys0 o, simp_all add: decode_system_def Let_def exact_opt_def
      exact_Illegal exact_csr_op exact_csri_op o)
qed

lemma and_not_400:
  fixes imm :: i32
  assumes "imm AND 0x400 \<noteq> 0"
  shows "(imm AND - 0x401) OR 0x400 = imm"
proof -
  have "bit imm 10"
  proof (rule ccontr)
    assume "\<not> bit imm 10"
    then have "imm AND 0x400 = 0" by (intro word32_eqI; simp add: bit_simps)
    with assms show False by simp
  qed
  then show ?thesis by (intro word32_eqI; simp add: bit_simps)
qed

lemma and_not_400_id:
  fixes imm :: i32
  assumes "imm AND 0x400 = 0"
  shows "imm AND - 0x401 = imm"
proof -
  have "\<not> bit imm 10"
  proof
    assume "bit imm 10"
    then have "bit (imm AND 0x400) 10" by (simp add: bit_simps)
    with assms show False by simp
  qed
  then show ?thesis by (intro word32_eqI; simp add: bit_simps)
qed

lemma simm_and_not_400: "simm 11 imm \<Longrightarrow> simm 11 (imm AND - 0x401)"
  unfolding simm_def
  by (elim conjE, fold simm_def, rule simm_signed_take_bit, simp, rule word32_eqI;
      simp add: bit_simps sint_fits_bit [of 11 imm])

lemma sint_nonneg_less:
  fixes imm :: i32
  assumes "\<not> sint imm < 0"
  shows "\<not> 64 \<le> sint imm \<Longrightarrow> imm < 64" "\<not> 32 \<le> sint imm \<Longrightarrow> imm < 32"
proof -
  have "uint imm = sint imm"
    using assms sint_lt [of imm] by (simp add: uint_sint take_bit_int_eq_self)
  then show "\<not> 64 \<le> sint imm \<Longrightarrow> imm < 64" "\<not> 32 \<le> sint imm \<Longrightarrow> imm < 32"
    by (simp_all add: word_less_def)
qed

lemma exact_shift_imm:
  assumes "k \<in> {Slli_k, Srli_k, Srai_k}" "\<not> 64 \<le> sint imm" "simm 11 imm"
    "enc_i (imm OR srai_bit k) (rs1_of bits) (imm_f3 k) (rd_of bits) 0x13 = bits"
  shows "exact bits (OpImm k (rd_of bits) (rs1_of bits) imm)"
  using assms sint_nonneg_less [of imm]
  by (cases "sint imm < 0")
    (simp_all add: exact_def bad_shift_def encodable_def encode_def fields_ok imm_op_ok_def)

lemma exact_shift_imm32:
  assumes "k \<noteq> Addiw_k" "\<not> 32 \<le> sint imm" "simm 11 imm"
    "enc_i (imm OR sraiw_bit k) (rs1_of bits) (imm32_f3 k) (rd_of bits) 0x1B = bits"
  shows "exact bits (OpImm32 k (rd_of bits) (rs1_of bits) imm)"
  using assms sint_nonneg_less [of imm]
  by (cases "sint imm < 0")
    (simp_all add: exact_def bad_shift_def encodable_def encode_def fields_ok imm32_op_ok_def)

lemma exact_plain_imm:
  assumes "k \<notin> {Slli_k, Srli_k, Srai_k}" "bits AND 127 = 0x13" "funct3 bits = imm_f3 k"
  shows "exact bits (OpImm k (rd_of bits) (rs1_of bits) (i_imm bits))"
  using assms
  by (intro exactI) (simp_all add: encodable_def encode_def fields_ok imm_op_ok_def recon_i srai_bit_def)

lemma exact_op_imm: "bits AND 127 = 0x13 \<Longrightarrow> exact_opt bits (decode_op_imm bits)"
proof -
  assume o: "bits AND 127 = 0x13"
  note r = recon_i [OF _ o]
  have not: "NOT (0x400 :: i32) = - 0x401" by simp
  show ?thesis
    unfolding decode_op_imm_def Let_def not using funct3_cases [of bits]
    by (auto simp: exact_opt_def exact_Illegal exact_plain_imm o fields_ok simm_and_not_400
        srai_bit_def and_not_400 and_not_400_id r intro!: exact_shift_imm)
qed

lemma exact_op_imm32: "bits AND 127 = 0x1B \<Longrightarrow> exact bits (decode_op_imm32 bits)"
proof -
  assume o: "bits AND 127 = 0x1B"
  note r = recon_i [OF _ o]
  have not: "NOT (0x400 :: i32) = - 0x401" by simp
  have "funct3 bits = 0 \<Longrightarrow> exact bits (Addiw (rd_of bits) (rs1_of bits) (i_imm bits))"
    by (intro exactI)
      (simp_all add: encodable_def encode_def fields_ok imm32_op_ok_def r sraiw_bit_def)
  then show ?thesis
    unfolding decode_op_imm32_def Let_def not
    by (auto simp: exact_Illegal o fields_ok simm_and_not_400
        sraiw_bit_def and_not_400 and_not_400_id r intro!: exact_shift_imm32)
qed

lemma exact_misc_mem:
  "decode_misc_mem bits = Illegal \<or> decode_misc_mem bits = Fence \<or> decode_misc_mem bits = FenceI"
  by (simp add: decode_misc_mem_def Let_def)

lemma exact_upper:
  "bits AND 127 = 0x37 \<Longrightarrow> exact bits (Lui (rd_of bits) (u_imm bits))"
  "bits AND 127 = 0x17 \<Longrightarrow> exact bits (Auipc (rd_of bits) (u_imm bits))"
  "bits AND 127 = 0x6F \<Longrightarrow> exact bits (Jal (rd_of bits) (j_imm bits))"
  by (rule exactI; simp add: encodable_def encode_def fields_ok recon)+


lemma decoded_opt: "exact_opt bits r \<Longrightarrow> decoded bits r"
  by (simp add: exact_opt_def decoded_def split: option.splits)

lemma decoded_Some: "exact bits op \<Longrightarrow> decoded bits (Some op)"
  by (simp add: decoded_def)

lemma decoded_misc_mem: "decoded bits (Some (decode_misc_mem bits))"
  using exact_misc_mem [of bits]
  by (auto simp: decoded_def exact_Illegal many_words_def encodable_def)

lemma decoded_jalr: "decoded bits (Some (Jalr (rd_of bits) (rs1_of bits) (i_imm bits)))"
  by (simp add: decoded_def many_words_def encodable_def fields_ok)

lemma decoded_if:
  "(c \<Longrightarrow> decoded bits a) \<Longrightarrow> decoded bits b \<Longrightarrow> decoded bits (if c then a else b)"
  by simp

lemmas exact_opcode = exact_load exact_load_fp exact_store exact_store_fp exact_branch exact_op32
  exact_op_fp exact_fma exact_upper exact_op_imm32

lemmas exact_opt_opcode = exact_op exact_op_imm exact_amo exact_system

lemma decode_decoded:
  assumes "bits AND 3 = 3"
  shows "decoded bits (decode bits)"
proof (cases "bits AND 0x1f = 0x1f")
  case True
  then show ?thesis using assms by (simp add: decode_def decoded_Some exact_Illegal)
next
  case False
  have sub: "bits AND 3 = (bits AND 127) AND 3" "bits AND 0x1f = (bits AND 127) AND 0x1f"
    by (simp_all only: and.assoc) simp_all
  have o: "(bits AND 127) AND 3 = 3" "(bits AND 127) AND 0x1f \<noteq> 0x1f"
    using assms False sub by simp_all
  show ?thesis
    unfolding decode_by_opcode [OF refl o]
    by (intro decoded_if;
        (rule decoded_misc_mem decoded_jalr
         | rule decoded_Some, (rule exact_Illegal | erule exact_opcode)
         | rule decoded_opt, erule exact_opt_opcode))
qed

lemma small_not_negative: "imm < 64 \<or> imm < 32 \<Longrightarrow> \<not> sint (imm :: i32) < 0"
proof -
  assume "imm < 64 \<or> imm < 32"
  then have "imm < 0x800" by (elim disjE) (erule order_less_trans, simp)+
  then show ?thesis by (simp add: small_sint)
qed

lemma exact_encodable:
  "exact bits op \<Longrightarrow> encodable op \<Longrightarrow> encode op = bits"
  using small_not_negative
  by (auto simp: exact_def bad_shift_def encodable_def imm_op_ok_def imm32_op_ok_def
      split: Op.splits if_splits)

section \<open>Properties\<close>

text \<open>
  C1: decoding inverts encoding. Every operation whose operands fit the fields of the RISC-V
  instruction formats is what the decoder returns for its encoding.
\<close>

theorem decode_encode:
  assumes "encodable op"
  shows "decode (encode op) = Some op"
  using assms by (rule decode_encode_aux)

theorem decode_encode_witness:
  "decode (encode (OpAmo Amoadd_k D64 10 11 12 SeqCst)) = Some (OpAmo Amoadd_k D64 10 11 12 SeqCst)"
  by (rule decode_encode) (simp add: encodable_def reg_ok_def)

text \<open>
  C2: decoding is total and exact. For every 32-bit instruction word the decoder returns an
  operation (no \<open>unreachable!\<close> is reached); the operation is \<open>Illegal\<close>, or fits its fields and
  encodes back to the same word; the exceptions are \<open>fence\<close>, \<open>fence.i\<close> and \<open>jalr\<close>, which
  ignore some bits of the word, and shifts by a negative immediate.
\<close>

theorem decode_total_exact:
  assumes "bits AND 3 = 3"
  shows "\<exists>op. decode bits = Some op \<and>
    (op = Illegal \<or> bad_shift op \<or> encodable op \<and> (encode op = bits \<or> many_words op))"
  using decode_decoded [OF assms] by (auto simp: decoded_def exact_def split: option.splits)

theorem decode_total_exact_witness:
  "\<exists>op. decode 0x00C58533 = Some op \<and>
    (op = Illegal \<or> bad_shift op \<or> encodable op \<and> (encode op = 0x00C58533 \<or> many_words op))"
  by (rule decode_total_exact) simp

text \<open>
  Exactly one instruction word denotes an encodable operation, \<open>fence\<close>, \<open>fence.i\<close> and
  \<open>jalr\<close> apart: no two words are confused by the decoder.
\<close>

lemma decode_unique:
  assumes "encodable op" "\<not> many_words op"
  shows "decode bits = Some op \<longleftrightarrow> bits = encode op"
proof
  assume d: "decode bits = Some op"
  then have "bits AND 3 = 3" by (auto simp: decode_def split: if_splits)
  then show "bits = encode op"
    using decode_decoded [of bits] d assms exact_encodable by (auto simp: decoded_def)
qed (simp add: assms decode_encode_aux)

end
