(* ===== verification/Riscv_Compressed.thy ===== *)
theory Riscv_Compressed
  imports Riscv_Decode_Exact
begin

text \<open>
  The compressed decoder \<open>decode_compressed\<close> of \<open>lib/riscv/src/decode.rs\<close>: it is total on
  the 16-bit words the fetch loop passes it, and what it returns is \<open>Illegal\<close> or an operation
  that a 32-bit instruction word denotes as well.
\<close>

section \<open>Operands of a compressed instruction\<close>

definition expands :: "Op option \<Rightarrow> bool" where
  "expands r = (case r of None \<Rightarrow> False | Some op \<Rightarrow> op = Illegal \<or> encodable op)"

lemma c_reg_ok: "reg_ok (c_rd bits)" "reg_ok (c_rs1 bits)" "reg_ok (c_rs2 bits)"
  "reg_ok (c_rds bits)" "reg_ok (c_rs1s bits)" "reg_ok (c_rs2s bits)"
proof -
  have full: "reg_ok (ucast (x AND (31 :: u16)))" for x
  proof -
    have "(ucast (x AND (31 :: u16)) :: u8) = ucast x AND 31"
      by (rule word8_eqI; simp add: bit_simps)
    then show ?thesis unfolding reg_ok_def
      using and_31_less [of "ucast x :: u8"] by (simp add: order_le_less_trans)
  qed
  have short: "reg_ok (ucast (x AND (7 :: u16)) + 8)" for x
  proof -
    have e: "(ucast (x AND (7 :: u16)) :: u8) = ucast x AND 7"
      by (rule word8_eqI; simp add: bit_simps)
    have "(ucast x :: u8) AND 7 \<le> 7" by (rule word_and_le1)
    then show ?thesis unfolding reg_ok_def e by unat_arith
  qed
  show "reg_ok (c_rd bits)" "reg_ok (c_rs1 bits)" "reg_ok (c_rs2 bits)"
    "reg_ok (c_rds bits)" "reg_ok (c_rs1s bits)" "reg_ok (c_rs2s bits)"
    by (simp_all add: c_rd_def c_rs1_def c_rs2_def c_rds_def c_rs1s_def c_rs2s_def full short)
qed

lemmas c_imm_defs = c_bits_def ci_imm_def ci_lwsp_imm_def ci_ldsp_imm_def ci_addi16sp_imm_def
  css_swsp_imm_def css_sdsp_imm_def ciw_imm_def cl_lw_imm_def cl_ld_imm_def cs_sw_imm_def
  cs_sd_imm_def cb_imm_def cj_imm_def

lemma c_imm_simm:
  "simm 11 (ci_imm bits)" "simm 11 (ci_lwsp_imm bits)" "simm 11 (ci_ldsp_imm bits)"
  "simm 11 (ci_addi16sp_imm bits)" "simm 11 (css_swsp_imm bits)" "simm 11 (css_sdsp_imm bits)"
  "simm 11 (ciw_imm bits)" "simm 11 (cl_lw_imm bits)" "simm 11 (cl_ld_imm bits)"
  "simm 12 (cb_imm bits)" "simm 20 (cj_imm bits)"
  by (rule simm_signed_take_bit; (rule word32_eqI)?; simp add: c_imm_defs bit_simps del: push_bit_Suc One_nat_def)+

lemma c_imm_even: "even (cb_imm bits)" "even (cj_imm bits)"
proof -
  have "\<not> bit (cb_imm bits) 0" "\<not> bit (cj_imm bits) 0"
    by (simp_all add: c_imm_defs bit_simps del: push_bit_Suc)
  then show "even (cb_imm bits)" "even (cj_imm bits)" by (simp_all add: bit_0)
qed

lemma c_lui_low: "push_bit 12 x AND (0xFFF :: i32) = 0"
  by (rule word32_eqI; simp add: bit_simps)

lemma and_63_less: "x AND (63 :: i32) < 64"
  by (rule order_le_less_trans [OF word_and_le1]) simp

section \<open>The three quadrants\<close>

lemma expands_if:
  "(c \<Longrightarrow> expands a) \<Longrightarrow> (\<not> c \<Longrightarrow> expands b) \<Longrightarrow> expands (if c then a else b)"
  by simp

lemma expands_Illegal: "expands (Some Illegal)"
  by (simp add: expands_def)

lemma expands_Some: "encodable op \<Longrightarrow> expands (Some op)"
  by (simp add: expands_def)

lemma simm_0: "simm n 0"
  by (simp add: simm_def)

lemma reg_ok_numeral: "reg_ok 0" "reg_ok 1" "reg_ok 2"
  by (simp_all add: reg_ok_def)

lemmas c_fields_ok = c_reg_ok c_imm_simm c_imm_even c_lui_low and_63_less reg_ok_numeral simm_0
  cs_sw_imm_def cs_sd_imm_def

lemma c_funct3_cases:
  "c_funct3 bits \<noteq> 0 \<Longrightarrow> c_funct3 bits \<noteq> 1 \<Longrightarrow> c_funct3 bits \<noteq> 2 \<Longrightarrow> c_funct3 bits \<noteq> 3 \<Longrightarrow>
   c_funct3 bits \<noteq> 4 \<Longrightarrow> c_funct3 bits \<noteq> 5 \<Longrightarrow> c_funct3 bits \<noteq> 6 \<Longrightarrow> c_funct3 bits = 7"
proof -
  have "c_funct3 bits = ucast (drop_bit 13 bits) AND 7"
    unfolding c_funct3_def by (rule word32_eqI; simp add: bit_simps)
  then have "c_funct3 bits \<le> 7" by (simp add: word_and_le1)
  then show "c_funct3 bits \<noteq> 0 \<Longrightarrow> c_funct3 bits \<noteq> 1 \<Longrightarrow> c_funct3 bits \<noteq> 2 \<Longrightarrow> c_funct3 bits \<noteq> 3 \<Longrightarrow>
   c_funct3 bits \<noteq> 4 \<Longrightarrow> c_funct3 bits \<noteq> 5 \<Longrightarrow> c_funct3 bits \<noteq> 6 \<Longrightarrow> c_funct3 bits = 7"
    by unat_arith
qed

lemma and_3_cases: "x AND (3 :: u16) \<noteq> 0 \<Longrightarrow> x AND 3 \<noteq> 1 \<Longrightarrow> x AND 3 \<noteq> 2 \<Longrightarrow> x AND 3 = 3"
proof -
  have "x AND 3 \<le> 3" by (rule word_and_le1)
  then show "x AND (3 :: u16) \<noteq> 0 \<Longrightarrow> x AND 3 \<noteq> 1 \<Longrightarrow> x AND 3 \<noteq> 2 \<Longrightarrow> x AND 3 = 3"
    by unat_arith
qed

lemmas expands_intros = expands_if expands_Illegal

lemmas encodable_c = encodable_def imm_op_ok_def imm32_op_ok_def c_fields_ok

lemma expands_c0: "expands (decode_c0 bits)"
  unfolding decode_c0_def Let_def
  by (intro expands_intros; (rule expands_Some, simp add: encodable_c
      | drule c_funct3_cases, assumption+, simp))

lemma expands_c1_alu: "expands (decode_c1_alu bits)"
  unfolding decode_c1_alu_def Let_def
  by (intro expands_intros; (rule expands_Some, simp add: encodable_c
      | drule and_3_cases, assumption+, simp))

lemma expands_c1: "expands (decode_c1 bits)"
  unfolding decode_c1_def Let_def
  by (intro expands_intros expands_c1_alu; (rule expands_Some, simp add: encodable_c
      | drule c_funct3_cases, assumption+, simp))

lemma expands_c2: "expands (decode_c2 bits)"
  unfolding decode_c2_def Let_def
  by (intro expands_intros; (rule expands_Some, simp add: encodable_c
      | drule c_funct3_cases, assumption+, simp))

lemma decode_compressed_expands: "bits AND 3 \<noteq> 3 \<Longrightarrow> expands (decode_compressed bits)"
  unfolding decode_compressed_def Let_def using and_3_cases [of bits]
  by (intro expands_intros expands_c0 expands_c1 expands_c2) simp

section \<open>Properties\<close>



end
