(* ===== verification/Riscv_Mmu.thy ===== *)
theory Riscv_Mmu
  imports Rust_Prelude
begin

text \<open>
  The Sv39 page-table walker and the permission check, \<open>lib/riscv/src/mmu.rs\<close>. The closure
  \<open>read_mem\<close> of the source is a function from addresses to words, \<^const>\<open>None\<close> where it
  panics (the interpreter's closure asserts that the address is in RAM). The specification is the
  translation algorithm of the privileged manual: \<open>leaf_at\<close>, a relation that descends through
  pointer entries, and \<open>permitted\<close>, the permission table.
\<close>

section \<open>Model\<close>

abbreviation PTE_V :: u64 where "PTE_V \<equiv> 0x01"
abbreviation PTE_R :: u64 where "PTE_R \<equiv> 0x02"
abbreviation PTE_W :: u64 where "PTE_W \<equiv> 0x04"
abbreviation PTE_X :: u64 where "PTE_X \<equiv> 0x08"
abbreviation PTE_U :: u64 where "PTE_U \<equiv> 0x10"
abbreviation PTE_G :: u64 where "PTE_G \<equiv> 0x20"
abbreviation PTE_A :: u64 where "PTE_A \<equiv> 0x40"
abbreviation PTE_D :: u64 where "PTE_D \<equiv> 0x80"

datatype (plugins only: code size) AccessType = Read | Write | Execute

text \<open>The body of \<open>for i in 0..3\<close>, \<open>return\<close> being the result and \<open>continue\<close> the recursive
  call; the list holds the values of \<open>i\<close> still to come.\<close>

fun walk_levels :: "(u64 \<Rightarrow> u64 option) \<Rightarrow> u64 \<Rightarrow> u64 \<Rightarrow> bool \<Rightarrow> nat list \<Rightarrow> u64 option" where
  "walk_levels read_mem vpn ppn global [] = Some 0"
| "walk_levels read_mem vpn ppn global (i # is) =
    (let bits_left = 18 - i * 9;
         index = drop_bit bits_left vpn AND 511;
         pte_addr = push_bit 12 ppn + index * 8
     in
     case read_mem pte_addr of
       None \<Rightarrow> None
     | Some pte \<Rightarrow>
       (let ppn = drop_bit 10 pte in
        if pte AND PTE_V = 0 then Some 0
        else if pte AND (PTE_R OR PTE_W OR PTE_X) = PTE_W then Some 0
        else if pte AND (PTE_R OR PTE_W OR PTE_X) = PTE_W OR PTE_X then Some 0
        else
          (let global = (if pte AND PTE_G \<noteq> 0 then True else global) in
           if pte AND (PTE_R OR PTE_W OR PTE_X) = 0 then walk_levels read_mem vpn ppn global is
           else if ppn AND (push_bit bits_left 1 - 1) \<noteq> 0 then Some 0
           else
             (let ppn = ppn OR (vpn AND (push_bit bits_left 1 - 1)) in
              Some (push_bit 10 ppn OR (pte AND (push_bit 10 1 - 1))
                    OR (if global then PTE_G else 0))))))"

definition walk_page :: "u64 \<Rightarrow> u64 \<Rightarrow> (u64 \<Rightarrow> u64 option) \<Rightarrow> u64 option" where
  "walk_page satp vpn read_mem =
    (if drop_bit 12 (signed_drop_bit (64 - 27 - 12) (push_bit (64 - 27) vpn)) \<noteq> vpn then Some 0
     else walk_levels read_mem vpn (satp AND (push_bit 44 1 - 1)) False [0..<3])"

text \<open>\<open>Result<(), ()>\<close>: \<open>True\<close> is \<open>Ok\<close>.\<close>

definition check_permission :: "u64 \<Rightarrow> AccessType \<Rightarrow> u8 \<Rightarrow> u64 \<Rightarrow> bool" where
  "check_permission pte access prv status =
    (if pte AND PTE_V = 0 then False
     else if prv = 0 \<and> pte AND PTE_U = 0 then False
     else if prv \<noteq> 0 \<and> pte AND PTE_U \<noteq> 0 \<and> status AND push_bit 18 1 = 0 then False
     else if pte AND PTE_A = 0 then False
     else
       (case access of
          Read \<Rightarrow>
            if pte AND PTE_R = 0 \<and> (pte AND PTE_X = 0 \<or> status AND push_bit 19 1 = 0) then False
            else True
        | Write \<Rightarrow> if pte AND PTE_W = 0 \<or> pte AND PTE_D = 0 then False else True
        | Execute \<Rightarrow> if pte AND PTE_X = 0 then False else True))"

section \<open>Specification\<close>

text \<open>A page-table entry by its bits, as the manual numbers them.\<close>

definition pte_valid :: "u64 \<Rightarrow> bool" where
  "pte_valid pte \<longleftrightarrow> bit pte 0 \<and> (bit pte 2 \<longrightarrow> bit pte 1)"

definition pte_leaf :: "u64 \<Rightarrow> bool" where
  "pte_leaf pte \<longleftrightarrow> bit pte 1 \<or> bit pte 3"

definition pte_ppn :: "u64 \<Rightarrow> u64" where
  "pte_ppn pte = drop_bit 10 pte"

definition vpn_index :: "u64 \<Rightarrow> nat \<Rightarrow> u64" where
  "vpn_index vpn i = take_bit 9 (drop_bit (9 * i) vpn)"

text \<open>
  \<open>leaf_at m vpn i a g j pte g'\<close>: from the table at \<open>a\<close> on level \<open>i\<close> the walk arrives at the
  leaf entry \<open>pte\<close> on level \<open>j\<close>; \<open>g'\<close> says whether one of the entries met, or \<open>g\<close>, is global.
\<close>

inductive leaf_at :: "(u64 \<Rightarrow> u64) \<Rightarrow> u64 \<Rightarrow> nat \<Rightarrow> u64 \<Rightarrow> bool \<Rightarrow> nat \<Rightarrow> u64 \<Rightarrow> bool \<Rightarrow> bool"
  for m vpn where
  here: "\<lbrakk>pte = m (a + 8 * vpn_index vpn i); pte_valid pte; pte_leaf pte\<rbrakk> \<Longrightarrow>
         leaf_at m vpn i a g i pte (g \<or> bit pte 5)"
| down: "\<lbrakk>pte = m (a + 8 * vpn_index vpn (Suc i)); pte_valid pte; \<not> pte_leaf pte;
          leaf_at m vpn i (push_bit 12 (pte_ppn pte)) (g \<or> bit pte 5) j l g'\<rbrakk> \<Longrightarrow>
         leaf_at m vpn (Suc i) a g j l g'"

inductive_simps leaf_at_0: "leaf_at m vpn 0 a g j l g'"
inductive_simps leaf_at_Suc: "leaf_at m vpn (Suc i) a g j l g'"

text \<open>A superpage of level \<open>i\<close> has its \<open>9 * i\<close> low page-number bits clear.\<close>

definition superpage_aligned :: "nat \<Rightarrow> u64 \<Rightarrow> bool" where
  "superpage_aligned i pte \<longleftrightarrow> take_bit (9 * i) (pte_ppn pte) = 0"

definition canonical :: "u64 \<Rightarrow> bool" where
  "canonical vaddr \<longleftrightarrow> signed_take_bit 38 vaddr = vaddr"

text \<open>The entry of the 4 KiB page of \<open>vpn\<close> inside the leaf.\<close>

definition small_pte :: "nat \<Rightarrow> u64 \<Rightarrow> u64 \<Rightarrow> bool \<Rightarrow> u64" where
  "small_pte i vpn pte g =
     push_bit 10 (pte_ppn pte OR take_bit (9 * i) vpn) OR take_bit 10 pte OR (if g then 32 else 0)"

definition permitted :: "u64 \<Rightarrow> AccessType \<Rightarrow> u8 \<Rightarrow> bool \<Rightarrow> bool \<Rightarrow> bool" where
  "permitted pte access prv sum_bit mxr_bit \<longleftrightarrow>
     bit pte 0 \<and> bit pte 6 \<and> (if prv = 0 then bit pte 4 else bit pte 4 \<longrightarrow> sum_bit) \<and>
     (case access of
        Read \<Rightarrow> bit pte 1 \<or> bit pte 3 \<and> mxr_bit
      | Write \<Rightarrow> bit pte 2 \<and> bit pte 7
      | Execute \<Rightarrow> bit pte 3)"

section \<open>Flags and masks\<close>

lemma and_pow2_eq_0: "(x :: u64) AND 2 ^ n = 0 \<longleftrightarrow> \<not> (n < 64 \<and> bit x n)"
proof -
  have "x AND 2 ^ n = (if n < 64 \<and> bit x n then 2 ^ n else 0)"
    by (rule bit_word_eqI) (auto simp: bit_simps)
  then show ?thesis by (auto simp: exp_eq_zero_iff)
qed

lemmas flag_tests =
  and_pow2_eq_0 [of _ 0, simplified] and_pow2_eq_0 [of _ 1, simplified]
  and_pow2_eq_0 [of _ 2, simplified] and_pow2_eq_0 [of _ 3, simplified]
  and_pow2_eq_0 [of _ 4, simplified] and_pow2_eq_0 [of _ 5, simplified]
  and_pow2_eq_0 [of _ 6, simplified] and_pow2_eq_0 [of _ 7, simplified]
  and_pow2_eq_0 [of _ 18, simplified] and_pow2_eq_0 [of _ 19, simplified]

lemma rwx_bits:
  fixes pte :: u64
  shows "pte AND 14 = 4 \<longleftrightarrow> \<not> bit pte 1 \<and> bit pte 2 \<and> \<not> bit pte 3"
    "pte AND 14 = 12 \<longleftrightarrow> \<not> bit pte 1 \<and> bit pte 2 \<and> bit pte 3"
    "pte AND 14 = 0 \<longleftrightarrow> \<not> bit pte 1 \<and> \<not> bit pte 2 \<and> \<not> bit pte 3"
proof -
  have "pte AND 14 = (if bit pte 1 then 2 else 0) OR (if bit pte 2 then 4 else 0)
      OR (if bit pte 3 then 8 else 0)"
    by (rule word64_eqI; simp add: bit_simps)
  then show "pte AND 14 = 4 \<longleftrightarrow> \<not> bit pte 1 \<and> bit pte 2 \<and> \<not> bit pte 3"
    "pte AND 14 = 12 \<longleftrightarrow> \<not> bit pte 1 \<and> bit pte 2 \<and> bit pte 3"
    "pte AND 14 = 0 \<longleftrightarrow> \<not> bit pte 1 \<and> \<not> bit pte 2 \<and> \<not> bit pte 3"
    by simp_all
qed

lemma and_low_mask: "(x :: u64) AND (push_bit n 1 - 1) = take_bit n x"
  by (simp add: take_bit_eq_mask mask_eq_decr_exp push_bit_eq_mult)

lemma and_511: "(x :: u64) AND 511 = take_bit 9 x"
  by (rule word64_eqI; simp add: bit_simps)

lemma pte_tests:
  "\<not> bit pte 0 \<or> pte AND 14 = 4 \<or> pte AND 14 = 12 \<longleftrightarrow> \<not> pte_valid pte"
  "pte_valid pte \<Longrightarrow> pte AND 14 = 0 \<longleftrightarrow> \<not> pte_leaf pte"
  by (auto simp: pte_valid_def pte_leaf_def rwx_bits)

section \<open>The walk\<close>

lemma canonical_vpn:
  "drop_bit 12 (signed_drop_bit 25 (push_bit 37 (drop_bit 12 vaddr))) = (drop_bit 12 vaddr :: u64)
   \<longleftrightarrow> canonical vaddr"
proof -
  let ?sx = "drop_bit 12 (signed_drop_bit 25 (push_bit 37 (drop_bit 12 vaddr)))"
  have c: "canonical vaddr \<longleftrightarrow> (\<forall>n\<ge>38. n < 64 \<longrightarrow> bit vaddr 38 = bit vaddr n)"
    unfolding canonical_def by (auto simp: bit_eq_iff bit_signed_take_bit_iff min_def)
  have sx: "bit ?sx n \<longleftrightarrow> n < 52 \<and> bit vaddr (min (n + 12) 38)" for n
    by (auto simp: bit_simps min_def add.commute) (simp_all add: eval_nat_numeral)
  have dv: "bit (drop_bit 12 vaddr) n \<longleftrightarrow> n < 52 \<and> bit vaddr (n + 12)" for n
    using bit_imp_le_length [of vaddr "n + 12"] by (auto simp: bit_drop_bit_eq add.commute)
  have "?sx = drop_bit 12 vaddr \<longleftrightarrow> (\<forall>n. bit ?sx n = bit (drop_bit 12 vaddr) n)"
    by (auto intro: bit_eqI)
  also have "\<dots> \<longleftrightarrow> (\<forall>n. n < 52 \<longrightarrow> bit vaddr (min (n + 12) 38) = bit vaddr (n + 12))"
    unfolding sx dv by blast
  also have "\<dots> \<longleftrightarrow> (\<forall>n\<ge>38. n < 64 \<longrightarrow> bit vaddr 38 = bit vaddr n)" (is "?l = ?r")
  proof
    assume l: ?l
    show ?r
    proof (intro allI impI)
      fix n :: nat assume "38 \<le> n" "n < 64"
      then show "bit vaddr 38 = bit vaddr n"
        using l [rule_format, of "n - 12"] by simp
    qed
  qed (auto simp: min_def)
  finally show ?thesis by (simp add: c)
qed

lemma walk_levels_step:
  "walk_levels (\<lambda>a. Some (m a)) vpn ppn g (i # is) =
    (let pte = m (push_bit 12 ppn + 8 * take_bit 9 (drop_bit (18 - i * 9) vpn)) in
     if \<not> pte_valid pte then Some 0
     else if \<not> pte_leaf pte then walk_levels (\<lambda>a. Some (m a)) vpn (pte_ppn pte) (g \<or> bit pte 5) is
     else if take_bit (18 - i * 9) (pte_ppn pte) \<noteq> 0 then Some 0
     else Some (push_bit 10 (pte_ppn pte OR take_bit (18 - i * 9) vpn) OR take_bit 10 pte
       OR (if g \<or> bit pte 5 then 32 else 0)))"
proof -
  define pte where "pte = m (push_bit 12 ppn + 8 * take_bit 9 (drop_bit (18 - i * 9) vpn))"
  show ?thesis
    unfolding walk_levels.simps option.case Let_def and_low_mask and_511 mult.commute [of _ "8 :: u64"]
    unfolding pte_def [symmetric]
    by (simp add: flag_tests pte_valid_def pte_leaf_def pte_ppn_def rwx_bits)
qed


text \<open>Level \<open>i\<close> of the manual is iteration \<open>2 - i\<close> of the loop.\<close>

lemma walk_levels_leaf_at:
  "i \<le> 2 \<Longrightarrow> r \<noteq> 0 \<Longrightarrow>
   walk_levels (\<lambda>a. Some (m a)) vpn ppn g [2 - i..<3] = Some r \<longleftrightarrow>
   (\<exists>j pte g'. leaf_at m vpn i (push_bit 12 ppn) g j pte g' \<and> superpage_aligned j pte \<and>
     r = small_pte j vpn pte g')"
proof (induction i arbitrary: ppn g)
  case 0
  have s: "[2 - 0..<3] = [2 :: nat]" by (simp add: upt_rec)
  show ?case
    unfolding s walk_levels_step leaf_at_0 Let_def
    using 0 by (auto simp: vpn_index_def small_pte_def superpage_aligned_def)
next
  case (Suc i)
  have s: "2 - Suc i < 3" "Suc (2 - Suc i) = 2 - i" "18 - (2 - Suc i) * 9 = 9 * Suc i"
    using Suc.prems by auto
  define pte where "pte = m (push_bit 12 ppn + 8 * vpn_index vpn (Suc i))"
  have w: "walk_levels (\<lambda>a. Some (m a)) vpn ppn g [2 - Suc i..<3] =
      (if \<not> pte_valid pte then Some 0
       else if \<not> pte_leaf pte
       then walk_levels (\<lambda>a. Some (m a)) vpn (pte_ppn pte) (g \<or> bit pte 5) [2 - i..<3]
       else if \<not> superpage_aligned (Suc i) pte then Some 0
       else Some (small_pte (Suc i) vpn pte (g \<or> bit pte 5)))"
    unfolding upt_rec [of "2 - Suc i"] if_P [OF s(1)] s(2) walk_levels_step s(3) Let_def
      superpage_aligned_def small_pte_def pte_def vpn_index_def by simp
  have l: "leaf_at m vpn (Suc i) (push_bit 12 ppn) g j l g' \<longleftrightarrow>
      pte_valid pte \<and> (if pte_leaf pte then j = Suc i \<and> l = pte \<and> g' = (g \<or> bit pte 5)
        else leaf_at m vpn i (push_bit 12 (pte_ppn pte)) (g \<or> bit pte 5) j l g')" for j l g'
    unfolding leaf_at_Suc pte_def [symmetric] by auto
  show ?case
    unfolding w l using Suc by auto
qed

lemma walk_page_leaf_at:
  assumes "r \<noteq> 0"
  shows "walk_page satp (drop_bit 12 vaddr) (\<lambda>a. Some (m a)) = Some r \<longleftrightarrow> canonical vaddr \<and>
    (\<exists>j pte g. leaf_at m (drop_bit 12 vaddr) 2 (push_bit 12 (take_bit 44 satp)) False j pte g \<and>
      superpage_aligned j pte \<and> r = small_pte j (drop_bit 12 vaddr) pte g)"
proof -
  have "64 - 27 = (37 :: nat)" "64 - 27 - 12 = (25 :: nat)" by simp_all
  moreover have "[0..<3] = [2 - 2..<3 :: nat]" by simp
  ultimately show ?thesis
    unfolding walk_page_def canonical_vpn and_low_mask
    using assms canonical_vpn [of vaddr] walk_levels_leaf_at [OF le_refl assms]
    by (simp only: split: if_split) blast
qed

lemma leaf_at_level: "leaf_at m vpn i a g j pte g' \<Longrightarrow> j \<le> i \<and> pte_valid pte \<and> pte_leaf pte"
  by (induction rule: leaf_at.induct) auto

lemma bit_PTE_G: "bit (32 :: int) k \<longleftrightarrow> k = 5" "bit (32 :: nat) k \<longleftrightarrow> k = 5"
proof -
  have "(32 :: int) = 2 ^ 5" "(32 :: nat) = 2 ^ 5" by simp_all
  then show "bit (32 :: int) k \<longleftrightarrow> k = 5" "bit (32 :: nat) k \<longleftrightarrow> k = 5"
    by (simp_all only: bit_exp_iff) auto
qed

lemma bit_small_pte:
  "bit (small_pte j vpn pte g) k \<longleftrightarrow>
    (if k < 10 then bit pte k \<or> g \<and> k = 5
     else bit pte k \<or> k < 64 \<and> k - 10 < 9 * j \<and> bit vpn (k - 10))"
  using bit_imp_le_length [of pte k]
  by (auto simp: small_pte_def pte_ppn_def bit_PTE_G bit_simps)

text \<open>The frame of the synthesised entry and the page offset give the address inside the superpage.\<close>

lemma small_pte_paddr:
  assumes "j \<le> 2" "superpage_aligned j pte"
  shows "push_bit 12 (drop_bit 10 (small_pte j (drop_bit 12 vaddr) pte g)) OR (vaddr AND 4095)
    = push_bit 12 (pte_ppn pte) + take_bit (12 + 9 * j) vaddr"
proof -
  have low: "\<not> bit (pte_ppn pte) k" if "k < 9 * j" for k
    using assms(2) that unfolding superpage_aligned_def
    by (metis bit_0_eq bit_take_bit_iff bot_apply bot_bool_def)
  have disj: "\<not> bit (push_bit 12 (pte_ppn pte)) n \<or> \<not> bit (take_bit (12 + 9 * j) vaddr) n" for n
    by (auto simp: bit_simps low)
  have m: "vaddr AND 4095 = take_bit 12 vaddr"
    by (rule word64_eqI; simp add: bit_simps)
  show ?thesis
    unfolding disjunctive_add [OF disj] m using assms(1)
    by (intro bit_word_eqI) (auto simp: bit_small_pte bit_simps pte_ppn_def)
qed

lemma check_permission_permitted:
  "check_permission pte access prv status = permitted pte access prv (bit status 18) (bit status 19)"
  by (auto simp: check_permission_def permitted_def flag_tests split: AccessType.splits)

lemma walk_page_writable:
  assumes "walk_page satp (drop_bit 12 vaddr) (\<lambda>a. Some (m a)) = Some r" "bit r 2"
  shows "bit r 1"
proof -
  have "r \<noteq> 0" using assms by auto
  then obtain j pte g where "leaf_at m (drop_bit 12 vaddr) 2 (push_bit 12 (take_bit 44 satp)) False j pte g"
    "r = small_pte j (drop_bit 12 vaddr) pte g"
    using walk_page_leaf_at [of r satp vaddr m] assms(1) by blast
  then show ?thesis
    using assms leaf_at_level [of m _ 2 _ False j pte g] by (auto simp: bit_small_pte pte_valid_def)
qed

text \<open>A walk that returns has only read where the closure does not panic, so it returns the same
  for every total closure that agrees with it.\<close>

lemma walk_levels_total:
  "walk_levels f vpn ppn g is = Some r \<Longrightarrow> (\<And>a v. f a = Some v \<Longrightarrow> m a = v) \<Longrightarrow>
   walk_levels (\<lambda>a. Some (m a)) vpn ppn g is = Some r"
  by (induction "is" arbitrary: ppn g)
    (auto simp: Let_def split: option.splits if_splits)

lemma walk_page_total:
  assumes "walk_page satp vpn f = Some r" "\<And>a v. f a = Some v \<Longrightarrow> m a = v"
  shows "walk_page satp vpn (\<lambda>a. Some (m a)) = Some r"
  using assms walk_levels_total [of f] by (auto simp: walk_page_def split: if_splits)

lemma write_permits:
  assumes "walk_page satp (drop_bit 12 vaddr) m = Some pte"
    and "check_permission pte Write prv status"
  shows "check_permission pte Read prv status"
proof -
  have "walk_page satp (drop_bit 12 vaddr) (\<lambda>a. Some (case m a of None \<Rightarrow> 0 | Some v \<Rightarrow> v)) = Some pte"
    by (rule walk_page_total [OF assms(1)]) simp
  then show ?thesis
    using assms(2) walk_page_writable [of satp vaddr _ pte]
    by (auto simp: check_permission_permitted permitted_def split: if_splits)
qed

section \<open>Properties\<close>

text \<open>
  C5: the page walk implements Sv39 address translation. A non-zero result is returned exactly
  when the virtual address is canonical and the walk of the manual, started at the root table of
  \<open>satp\<close>, arrives at a valid leaf that is aligned for its level; the result is then the entry of
  the 4 KiB page, with the global bit set if any entry on the way was global. In every other case
  the result is 0, an invalid entry.
\<close>

theorem walk_page_sv39:
  assumes "r \<noteq> 0"
  shows "walk_page satp (drop_bit 12 vaddr) (\<lambda>a. Some (m a)) = Some r \<longleftrightarrow> canonical vaddr \<and>
    (\<exists>j pte g. leaf_at m (drop_bit 12 vaddr) 2 (push_bit 12 (take_bit 44 satp)) False j pte g \<and>
      superpage_aligned j pte \<and> r = small_pte j (drop_bit 12 vaddr) pte g)"
  using assms by (rule walk_page_leaf_at)

theorem walk_page_sv39_witness:
  "walk_page 0x80 (drop_bit 12 0x40001234) (\<lambda>a. Some (if a = 0x80008 then 0x100000CF else 0))
     = Some 0x100004CF
   \<longleftrightarrow> canonical 0x40001234 \<and>
    (\<exists>j pte g. leaf_at (\<lambda>a. if a = 0x80008 then 0x100000CF else 0) (drop_bit 12 0x40001234) 2
        (push_bit 12 (take_bit 44 0x80)) False j pte g \<and>
      superpage_aligned j pte \<and> 0x100004CF = small_pte j (drop_bit 12 0x40001234) pte g)"
  by (rule walk_page_sv39) simp

text \<open>
  C6: the physical address. Where the walk succeeds, the frame number of the returned entry and
  the low 12 bits of the virtual address give the base of the (super)page plus the offset of
  \<open>12 + 9 j\<close> bits into it, and the permission bits are those of the leaf.
\<close>

theorem walk_page_paddr:
  assumes "walk_page satp (drop_bit 12 vaddr) (\<lambda>a. Some (m a)) = Some r" "r \<noteq> 0"
  shows "\<exists>j pte g. leaf_at m (drop_bit 12 vaddr) 2 (push_bit 12 (take_bit 44 satp)) False j pte g \<and>
    push_bit 12 (drop_bit 10 r) OR (vaddr AND 4095) = push_bit 12 (pte_ppn pte) + take_bit (12 + 9 * j) vaddr \<and>
    (\<forall>k<10. k \<noteq> 5 \<longrightarrow> bit r k = bit pte k)"
proof -
  obtain j pte g where
    l: "leaf_at m (drop_bit 12 vaddr) 2 (push_bit 12 (take_bit 44 satp)) False j pte g"
    and a: "superpage_aligned j pte" and r: "r = small_pte j (drop_bit 12 vaddr) pte g"
    using assms walk_page_leaf_at [of r] by blast
  have "j \<le> 2" using leaf_at_level [OF l] by simp
  then show ?thesis
    using l small_pte_paddr [OF _ a] by (auto simp: r bit_small_pte intro!: exI)
qed

theorem walk_page_paddr_witness:
  "\<exists>j pte g. leaf_at (\<lambda>a. if a = 0x80008 then 0x100000CF else 0) (drop_bit 12 0x40001234) 2
      (push_bit 12 (take_bit 44 0x80)) False j pte g \<and>
    push_bit 12 (drop_bit 10 0x100004CF) OR (0x40001234 AND 4095)
      = push_bit 12 (pte_ppn pte) + take_bit (12 + 9 * j) 0x40001234 \<and>
    (\<forall>k<10. k \<noteq> 5 \<longrightarrow> bit (0x100004CF :: u64) k = bit pte k)"
proof (rule walk_page_paddr)
  show "walk_page 0x80 (drop_bit 12 0x40001234) (\<lambda>a. Some (if a = 0x80008 then 0x100000CF else 0))
     = Some 0x100004CF"
    by code_simp
qed simp


end
