(* ===== verification/Hart.thy ===== *)
theory Hart
  imports Riscv_Mmu Riscv_Op
begin

text \<open>
  The state of a hart, \<open>src/emu/interp.rs\<close>: \<open>CacheLine\<close>, \<open>SharedContext\<close> and \<open>Context\<close> with
  their methods, the memory models of \<open>src/sim/memory/mod.rs\<close>, and the functions of the
  interpreter that touch one hart only: interrupt selection, trap entry and trap return.

  \<^item> The two arrays of 1024 cache lines are functions of a 10-bit index, so an index is in range by
    its type. Register files are functions of the \<open>u8\<close> register number; every access checks that
    it is below 32, as the source does.
  \<^item> Atomics are plain fields: a definition is one atomic step of the hart. Mutexes, condition
    variables and \<open>fiber::sleep\<close> leave no trace in the state. The boxed closures of \<open>tasks\<close> are
    values of \<open>task\<close>; the only closure the source queues invalidates a range of the code cache.
  \<^item> \<open>Env\<close> holds what the functions read from globals: the memory model, the flags, the number of
    cores, the cargo features, and the event loop's cycle count and time at the call.
\<close>

section \<open>Globals\<close>

datatype (plugins only: code size) MemoryModel = AtomicModel | SimpleModel

primrec cache_line_size_log2 :: "MemoryModel \<Rightarrow> nat" where
  "cache_line_size_log2 AtomicModel = 12"
| "cache_line_size_log2 SimpleModel = 6"

primrec require_lockstep :: "MemoryModel \<Rightarrow> bool" where
  "require_lockstep AtomicModel = False"
| "require_lockstep SimpleModel = True"

text \<open>\<open>switch_model\<close>: \<open>None\<close> is the panic on an unknown identifier.\<close>

definition switch_model :: "u64 \<Rightarrow> MemoryModel option" where
  "switch_model n = (if n = 0 then Some AtomicModel else if n = 1 then Some SimpleModel else None)"

record Env =
  memory_model :: MemoryModel
  flags_prv :: u8
  core_count :: nat
  io_boundary :: u64
  feature_float :: bool
  feature_simcsr :: bool
  lockstep_cycles :: u64
  event_time :: u64

section \<open>State\<close>

record CacheLine =
  line_tag :: u64
  line_paddr :: u64

text \<open>\<open>i64::max_value() as u64\<close>\<close>

abbreviation invalid_tag :: u64 where "invalid_tag \<equiv> 0x7FFFFFFFFFFFFFFF"

definition default_line :: CacheLine where
  "default_line = \<lparr> line_tag = invalid_tag, line_paddr = 0 \<rparr>"

definition invalidate :: "CacheLine \<Rightarrow> CacheLine" where
  "invalidate l = l\<lparr> line_tag := invalid_tag \<rparr>"

type_synonym cache_index = "10 word"

datatype (plugins only: code size) task = InvalidateICache u64 u64

record SharedContext =
  alarm :: u64
  mip :: u64
  line :: "cache_index \<Rightarrow> CacheLine"
  i_line :: "cache_index \<Rightarrow> CacheLine"
  rm :: u32
  fflags :: u32
  tasks :: "task list"

definition new_shared :: SharedContext where
  "new_shared = \<lparr> alarm = 0, mip = 0, line = (\<lambda>_. default_line), i_line = (\<lambda>_. default_line),
     rm = 0, fflags = 0, tasks = [] \<rparr>"

record Context =
  registers :: "u8 \<Rightarrow> u64"
  pc :: u64
  instret :: u64
  cause :: u64
  tval :: u64
  minstret :: u64
  cycle_offset :: i64
  shared :: SharedContext
  fp_registers :: "u8 \<Rightarrow> u64"
  frm :: u32
  lr_addr :: u64
  lr_value :: u64
  scause :: u64
  stval :: u64
  stvec :: u64
  sscratch :: u64
  sepc :: u64
  satp :: u64
  scounteren :: u64
  mideleg :: u64
  medeleg :: u64
  mcause :: u64
  mtval :: u64
  mstatus :: u64
  mie :: u64
  mtvec :: u64
  mscratch :: u64
  mepc :: u64
  mcounteren :: u64
  prv :: u64
  hartid :: u64

text \<open>The context of hart \<open>i\<close> that \<open>main\<close> builds; without a firmware image delegation is set up
  as the firmware would.\<close>

definition initial_context :: "nat \<Rightarrow> bool \<Rightarrow> Context" where
  "initial_context i has_firmware =
    (let newctx = \<lparr> registers = (\<lambda>_. 0xCCCCCCCCCCCCCCCC), pc = 0, instret = 0, cause = 0, tval = 0,
           minstret = 0, cycle_offset = 0, shared = new_shared,
           fp_registers = (\<lambda>_. 0xFFFFFFFFFFFFFFFF), frm = 0, lr_addr = 0, lr_value = 0,
           scause = 0, stval = 0, stvec = 0, sscratch = 0, sepc = 0, satp = 0, scounteren = 0,
           mideleg = 0, medeleg = 0, mcause = 0, mtval = 0, mstatus = 0x6000, mie = 0, mtvec = 0,
           mscratch = 0, mepc = 0, mcounteren = 0, prv = 0, hartid = of_nat i \<rparr>;
         newctx = newctx\<lparr> registers := (registers newctx)(0 := 0) \<rparr>
     in
     if has_firmware then newctx
     else newctx\<lparr> mideleg := 0x222, medeleg := 0xB35D, mcounteren := 0b111 \<rparr>)"

section \<open>Methods of \<open>SharedContext\<close>\<close>

definition fire_alarm :: "u64 \<Rightarrow> SharedContext \<Rightarrow> SharedContext" where
  "fire_alarm msk sh = sh\<lparr> alarm := alarm sh OR msk \<rparr>"

definition alert :: "SharedContext \<Rightarrow> SharedContext" where
  "alert sh = fire_alarm 1 sh"

definition shutdown_hart :: "SharedContext \<Rightarrow> SharedContext" where
  "shutdown_hart sh = fire_alarm 2 sh"

definition assert_irq :: "u64 \<Rightarrow> SharedContext \<Rightarrow> SharedContext" where
  "assert_irq msk sh =
    (let sh' = sh\<lparr> mip := mip sh OR msk \<rparr> in
     if mip sh AND msk \<noteq> msk then alert sh' else sh')"

definition deassert_irq :: "u64 \<Rightarrow> SharedContext \<Rightarrow> SharedContext" where
  "deassert_irq msk sh = sh\<lparr> mip := mip sh AND NOT msk \<rparr>"

definition run_on :: "task \<Rightarrow> SharedContext \<Rightarrow> SharedContext" where
  "run_on t sh = alert (sh\<lparr> tasks := tasks sh @ [t] \<rparr>)"

definition clear_local_cache :: "SharedContext \<Rightarrow> SharedContext" where
  "clear_local_cache sh = sh\<lparr> line := (\<lambda>i. invalidate (line sh i)) \<rparr>"

definition clear_local_icache :: "SharedContext \<Rightarrow> SharedContext" where
  "clear_local_icache sh = sh\<lparr> i_line := (\<lambda>i. invalidate (i_line sh i)) \<rparr>"

definition invalidate_cache_virtual :: "Env \<Rightarrow> u64 \<Rightarrow> SharedContext \<Rightarrow> SharedContext" where
  "invalidate_cache_virtual env addr sh =
    (let idx = ucast (drop_bit (cache_line_size_log2 (memory_model env)) addr) :: cache_index in
     sh\<lparr> line := (line sh)(idx := invalidate (line sh idx)) \<rparr>)"

definition invalidate_icache_virtual :: "Env \<Rightarrow> u64 \<Rightarrow> SharedContext \<Rightarrow> SharedContext" where
  "invalidate_icache_virtual env addr sh =
    (let idx = ucast (drop_bit (cache_line_size_log2 (memory_model env)) addr) :: cache_index in
     sh\<lparr> i_line := (i_line sh)(idx := invalidate (i_line sh idx)) \<rparr>)"

text \<open>The indices of \<open>(start_idx..1024).step_by(interval)\<close>.\<close>

definition steps_to :: "nat \<Rightarrow> nat \<Rightarrow> cache_index \<Rightarrow> bool" where
  "steps_to start interval i \<longleftrightarrow> start \<le> unat i \<and> (unat i - start) mod interval = 0"

definition physical_start :: "nat \<Rightarrow> u64 \<Rightarrow> nat" where
  "physical_start log2 addr = unat (drop_bit log2 addr AND (2 ^ (12 - log2) - 1))"

definition invalidate_cache_physical :: "Env \<Rightarrow> u64 \<Rightarrow> SharedContext \<Rightarrow> SharedContext" where
  "invalidate_cache_physical env addr sh =
    (let log2 = cache_line_size_log2 (memory_model env);
         interval = 2 ^ (12 - log2);
         start_idx = physical_start log2 addr
     in sh\<lparr> line := (\<lambda>i. if steps_to start_idx interval i then invalidate (line sh i)
                        else line sh i) \<rparr>)"

definition invalidate_icache_physical :: "Env \<Rightarrow> u64 \<Rightarrow> SharedContext \<Rightarrow> SharedContext" where
  "invalidate_icache_physical env addr sh =
    (let log2 = cache_line_size_log2 (memory_model env);
         interval = 2 ^ (12 - log2);
         start_idx = physical_start log2 addr
     in sh\<lparr> i_line := (\<lambda>i. if steps_to start_idx interval i then invalidate (i_line sh i)
                          else i_line sh i) \<rparr>)"

text \<open>The physical address \<open>protect_code\<close> reads off a data line: tag and stored \<open>vaddr ^ paddr\<close>.\<close>

definition line_physical :: "nat \<Rightarrow> CacheLine \<Rightarrow> u64" where
  "line_physical log2 l = push_bit log2 (drop_bit 1 (line_tag l)) XOR line_paddr l"

definition protect_code :: "Env \<Rightarrow> u64 \<Rightarrow> SharedContext \<Rightarrow> SharedContext" where
  "protect_code env page sh =
    (let log2 = cache_line_size_log2 (memory_model env) in
     sh\<lparr> line := (\<lambda>i. let l = line sh i in
         if line_physical log2 l AND NOT 4095 = page then l\<lparr> line_tag := line_tag l OR 1 \<rparr>
         else l) \<rparr>)"

section \<open>Methods of \<open>Context\<close>\<close>

definition on_shared :: "(SharedContext \<Rightarrow> SharedContext) \<Rightarrow> Context \<Rightarrow> Context" where
  "on_shared f ctx = ctx\<lparr> shared := f (shared ctx) \<rparr>"

text \<open>The flush that accompanies every switch of address space or privilege.\<close>

definition flush_local :: "Context \<Rightarrow> Context" where
  "flush_local ctx = on_shared clear_local_icache (on_shared clear_local_cache ctx)"

definition set_trap :: "u64 \<Rightarrow> u64 \<Rightarrow> Context \<Rightarrow> Context" where
  "set_trap c v ctx = ctx\<lparr> cause := c, tval := v \<rparr>"

definition test_and_set_fs :: "Env \<Rightarrow> Context \<Rightarrow> (unit, Context) res" where
  "test_and_set_fs env ctx =
    (if \<not> feature_float env then Err (set_trap 2 0 ctx)
     else if mstatus ctx AND 0x6000 = 0 then Err (set_trap 2 0 ctx)
     else Ok () (ctx\<lparr> mstatus := mstatus ctx OR 0x6000 \<rparr>))"

definition test_counter :: "nat \<Rightarrow> Context \<Rightarrow> (unit, Context) res" where
  "test_counter n ctx =
    (if prv ctx < 3 \<and> mcounteren ctx AND rust_shl 1 n = 0
        \<or> prv ctx < 1 \<and> scounteren ctx AND rust_shl 1 n = 0
     then Err (set_trap 2 0 ctx)
     else Ok () ctx)"

definition interrupt_pending :: "Context \<Rightarrow> u64" where
  "interrupt_pending ctx =
    (let int_ready = mip (shared ctx) AND mie ctx in
     (if prv ctx \<noteq> 3 \<or> mstatus ctx AND 0x8 \<noteq> 0 then int_ready AND NOT (mideleg ctx) else 0)
     OR (if prv ctx = 0 \<or> prv ctx = 1 \<and> mstatus ctx AND 0x2 \<noteq> 0
         then int_ready AND mideleg ctx else 0))"

definition get_mcycle :: "Env \<Rightarrow> Context \<Rightarrow> u64" where
  "get_mcycle env ctx = lockstep_cycles env + cycle_offset ctx"

definition alert_if_pending :: "Context \<Rightarrow> Context" where
  "alert_if_pending ctx = (if interrupt_pending ctx \<noteq> 0 then on_shared alert ctx else ctx)"

definition recheck_interrupt :: "Context \<Rightarrow> Context" where
  "recheck_interrupt ctx =
    (let int_ready = mip (shared ctx) AND mie ctx in
     if int_ready \<noteq> 0 then
       (if interrupt_pending ctx \<noteq> 0 then on_shared (fire_alarm 1) ctx
        else on_shared (fire_alarm 0) ctx)
     else ctx)"

definition insert_instruction_cache_line :: "Env \<Rightarrow> u64 \<Rightarrow> u64 \<Rightarrow> Context \<Rightarrow> Context" where
  "insert_instruction_cache_line env vaddr pa ctx =
    (let idx = drop_bit (cache_line_size_log2 (memory_model env)) vaddr in
     on_shared (\<lambda>sh. sh\<lparr> i_line := (i_line sh)
       (ucast idx := \<lparr> line_tag = idx, line_paddr = pa XOR vaddr \<rparr>) \<rparr>) ctx)"

definition insert_data_cache_line :: "Env \<Rightarrow> u64 \<Rightarrow> u64 \<Rightarrow> bool \<Rightarrow> Context \<Rightarrow> Context" where
  "insert_data_cache_line env vaddr pa writable ctx =
    (let idx = drop_bit (cache_line_size_log2 (memory_model env)) vaddr;
         t = push_bit 1 idx OR (if writable then 0 else 1)
     in on_shared (\<lambda>sh. sh\<lparr> line := (line sh)
       (ucast idx := \<lparr> line_tag = t, line_paddr = pa XOR vaddr \<rparr>) \<rparr>) ctx)"

section \<open>Traps and trap returns\<close>

text \<open>\<open>None\<close> is the end of the process: \<open>exit(1)\<close> in user-mode emulation, or the failed assertion
  that a machine-mode trap happens only when a machine-mode image is run.\<close>

definition trap :: "Env \<Rightarrow> Context \<Rightarrow> Context option" where
  "trap env ctx =
    (if flags_prv env = 0 then None
     else
       (let deleg_reg = if rust_shr (cause ctx) 63 \<noteq> 0 then mideleg ctx else medeleg ctx;
            deleg_to_s = prv ctx \<noteq> 3 \<and> rust_shr deleg_reg (unat (cause ctx AND 15)) AND 1 \<noteq> 0
        in
        if deleg_to_s then
          (let ctx = ctx\<lparr> scause := cause ctx, stval := tval ctx, sepc := pc ctx \<rparr>;
               ctx = (if prv ctx \<noteq> 0 then ctx\<lparr> mstatus := mstatus ctx OR 0x100 \<rparr>
                      else flush_local (ctx\<lparr> mstatus := mstatus ctx AND NOT 0x100 \<rparr>));
               ctx = (if mstatus ctx AND 0x2 \<noteq> 0 then ctx\<lparr> mstatus := mstatus ctx OR 0x20 \<rparr>
                      else ctx\<lparr> mstatus := mstatus ctx AND NOT 0x20 \<rparr>);
               ctx = ctx\<lparr> mstatus := mstatus ctx AND NOT 0x2 \<rparr>
           in Some (ctx\<lparr> prv := 1, pc := stvec ctx \<rparr>))
        else if flags_prv env \<noteq> 3 then None
        else
          (let ctx = ctx\<lparr> mcause := cause ctx, mtval := tval ctx, mepc := pc ctx \<rparr>;
               ctx = ctx\<lparr> mstatus := (mstatus ctx AND NOT 0x1800) OR push_bit 11 (prv ctx) \<rparr>;
               ctx = (if prv ctx \<noteq> 3 then flush_local ctx else ctx);
               ctx = (if mstatus ctx AND 0x8 \<noteq> 0 then ctx\<lparr> mstatus := mstatus ctx OR 0x80 \<rparr>
                      else ctx\<lparr> mstatus := mstatus ctx AND NOT 0x80 \<rparr>);
               ctx = ctx\<lparr> mstatus := mstatus ctx AND NOT 0x8 \<rparr>
           in Some (ctx\<lparr> prv := 3, pc := mtvec ctx \<rparr>))))"

text \<open>The arms \<open>Op::Mret\<close> and \<open>Op::Sret\<close> of \<open>step\<close>.\<close>

definition step_mret :: "Context \<Rightarrow> (unit, Context) res" where
  "step_mret ctx =
    (let ctx = ctx\<lparr> pc := mepc ctx \<rparr>;
         new_prv = drop_bit 11 (mstatus ctx AND 0x1800)
     in
     if new_prv = 2 then Panic
     else
       (let ctx = ctx\<lparr> prv := new_prv \<rparr>;
            ctx = (if new_prv \<noteq> 3 then flush_local ctx else ctx);
            ctx = ctx\<lparr> mstatus := (mstatus ctx AND NOT 0x8) OR drop_bit 4 (mstatus ctx AND 0x80) \<rparr>;
            ctx = ctx\<lparr> mstatus := mstatus ctx OR 0x80 \<rparr>;
            ctx = ctx\<lparr> mstatus := mstatus ctx AND NOT 0x1800 \<rparr>
        in Ok () (alert_if_pending ctx)))"

definition step_sret :: "Context \<Rightarrow> (unit, Context) res" where
  "step_sret ctx =
    (let ctx = ctx\<lparr> pc := sepc ctx \<rparr>;
         ctx = (if mstatus ctx AND 0x100 \<noteq> 0 then ctx\<lparr> prv := 1 \<rparr>
                else flush_local (ctx\<lparr> prv := 0 \<rparr>));
         ctx = (if mstatus ctx AND 0x20 \<noteq> 0 then ctx\<lparr> mstatus := mstatus ctx OR 0x2 \<rparr>
                else ctx\<lparr> mstatus := mstatus ctx AND NOT 0x2 \<rparr>);
         ctx = ctx\<lparr> mstatus := mstatus ctx OR 0x20 \<rparr>;
         ctx = ctx\<lparr> mstatus := mstatus ctx AND NOT 0x100 \<rparr>
     in Ok () (alert_if_pending ctx))"

end
