(* ===== verification/Clint.thy ===== *)
theory Clint
  imports Rust_Prelude
begin

text \<open>
  The core-local interrupt controller, \<open>lib/io/src/hw/intc/clint.rs\<close>.

  \<^item> \<open>Clint\<close> is the state of \<open>Inner\<close>: the arrays \<open>msip\<close> and \<open>mtimecmp\<close>, and the list of the
    tasks \<open>write\<close> has spawned that still wait for their timer, each with its hart and its time.
  \<^item> The calls of \<open>set_level\<close> on the interrupt pins are returned as a list of pin and level, in
    the order they are made. \<open>now\<close> is \<open>ctx.now()\<close> in microseconds.
  \<^item> A register access is one step; the two relaxed atomic accesses of a write are not interleaved
    with a timer task.
  \<^item> \<open>clint_step\<close> puts the controller next to the clock of the event loop, which counts cycles at
    100 per microsecond and wakes a timer once \<open>cycle >= time * 100\<close>, the product wrapping as in
    \<open>on_time\<close> of \<open>src/emu/event.rs\<close>.
\<close>

section \<open>State and operations\<close>

record Clint =
  msip :: "bool list"
  mtimecmp :: "u64 list"
  timers :: "(nat \<times> u64) list"

datatype (plugins only: code size) clint_pin = Msip nat | Mtip nat

text \<open>\<open>Clint::new\<close> for \<open>n\<close> and \<open>m\<close> pins; \<open>None\<close> is the failed assertion.\<close>

definition new_clint :: "nat \<Rightarrow> nat \<Rightarrow> Clint option" where
  "new_clint n m =
    (if n \<noteq> m then None
     else Some \<lparr> msip = replicate n False, mtimecmp = replicate m (- 1), timers = [] \<rparr>)"

text \<open>The read of half a 64-bit register; the caller truncates.\<close>

definition narrow_read :: "u64 \<Rightarrow> nat \<Rightarrow> u64 \<Rightarrow> u64" where
  "narrow_read addr sz v =
    (if sz = 8 then v else if addr AND 4 = 0 then v else drop_bit 32 v)"

definition clint_read :: "u64 \<Rightarrow> u64 \<Rightarrow> nat \<Rightarrow> Clint \<Rightarrow> u64" where
  "clint_read now addr sz c =
    (if sz < 4 then 0
     else if addr AND NOT 4 \<le> 0x3FFF then
       (let hart = unat (addr div 4) in
        if sz \<noteq> 4 \<or> length (msip c) \<le> hart then 0
        else if msip c ! hart then 1 else 0)
     else if addr AND NOT 4 \<le> 0xBFF7 then
       (let hart = unat ((addr - 0x4000) div 8) in
        if length (mtimecmp c) \<le> hart then 0
        else narrow_read addr sz (mtimecmp c ! hart))
     else if addr AND NOT 4 = 0xBFF8 then narrow_read addr sz now
     else 0)"

definition clint_write ::
    "u64 \<Rightarrow> u64 \<Rightarrow> u64 \<Rightarrow> nat \<Rightarrow> Clint \<Rightarrow> Clint \<times> (clint_pin \<times> bool) list" where
  "clint_write now addr value sz c =
    (if sz < 4 then (c, [])
     else if addr AND NOT 4 \<le> 0x3FFF then
       (let hart = unat (addr div 4) in
        if sz \<noteq> 4 \<or> length (msip c) \<le> hart then (c, [])
        else
          (let b = (value AND 1 \<noteq> 0) in
           (c\<lparr> msip := (msip c)[hart := b] \<rparr>, [(Msip hart, b)])))
     else if addr AND NOT 4 \<le> 0xBFF7 then
       (let hart = unat ((addr - 0x4000) div 8) in
        if sz \<noteq> 8 \<or> length (mtimecmp c) \<le> hart then (c, [])
        else
          (let c = c\<lparr> mtimecmp := (mtimecmp c)[hart := value] \<rparr>;
               triggered = (value \<le> now)
           in
           (if triggered then c else c\<lparr> timers := timers c @ [(hart, value)] \<rparr>,
            [(Mtip hart, triggered)])))
     else (c, []))"

text \<open>The body of the spawned task, run once its timer has resolved.\<close>

definition timer_task :: "u64 \<Rightarrow> nat \<Rightarrow> Clint \<Rightarrow> (clint_pin \<times> bool) list" where
  "timer_task now hart c = [(Mtip hart, mtimecmp c ! hart \<le> now)]"

section \<open>The controller and the clock\<close>

record ClintSystem =
  clint_cycle :: u64
  controller :: Clint
  pin_level :: "clint_pin \<Rightarrow> bool"

definition apply_pins :: "(clint_pin \<times> bool) list \<Rightarrow> (clint_pin \<Rightarrow> bool) \<Rightarrow> (clint_pin \<Rightarrow> bool)" where
  "apply_pins evs lv = fold (\<lambda>(p, b) lv. lv(p := b)) evs lv"

text \<open>\<open>EventLoop::time\<close>\<close>

definition clint_now :: "ClintSystem \<Rightarrow> u64" where
  "clint_now s = clint_cycle s div 100"

definition timer_due :: "ClintSystem \<Rightarrow> nat \<times> u64 \<Rightarrow> bool" where
  "timer_due s t \<longleftrightarrow> snd t * 100 \<le> clint_cycle s"

inductive clint_step :: "ClintSystem \<Rightarrow> ClintSystem \<Rightarrow> bool" where
  access: "clint_write (clint_now s) addr value sz (controller s) = (c, evs) \<Longrightarrow>
    clint_step s (s\<lparr> controller := c, pin_level := apply_pins evs (pin_level s) \<rparr>)"
| tick: "clint_cycle s \<le> t \<Longrightarrow> clint_step s (s\<lparr> clint_cycle := t \<rparr>)"
| fire: "\<lbrakk> timers (controller s) = xs @ t # ys; timer_due s t \<rbrakk> \<Longrightarrow>
    clint_step s (s\<lparr> controller := (controller s)\<lparr> timers := xs @ ys \<rparr>,
      pin_level := apply_pins (timer_task (clint_now s) (fst t) (controller s)) (pin_level s) \<rparr>)"

inductive_cases clint_stepE: "clint_step s s'"

definition clint_initial :: "nat \<Rightarrow> u64 \<Rightarrow> ClintSystem \<Rightarrow> bool" where
  "clint_initial n t s \<longleftrightarrow>
     new_clint n n = Some (controller s) \<and> clint_cycle s = t \<and> pin_level s = (\<lambda>_. False)"

text \<open>The last microsecond a 64-bit cycle counter reaches.\<close>

abbreviation last_micro :: u64 where "last_micro \<equiv> 184467440737095516"

section \<open>Invariant\<close>

text \<open>
  The software-interrupt pin follows the register. A raised timer pin is due; a lowered one whose
  comparison time the clock can still reach has a task waiting for exactly that time.
\<close>

definition clint_inv :: "nat \<Rightarrow> ClintSystem \<Rightarrow> bool" where
  "clint_inv n s \<longleftrightarrow>
     length (msip (controller s)) = n \<and> length (mtimecmp (controller s)) = n
     \<and> (\<forall>t \<in> set (timers (controller s)). fst t < n)
     \<and> (\<forall>h < n. pin_level s (Msip h) = msip (controller s) ! h)
     \<and> (\<forall>h < n. pin_level s (Mtip h) \<longrightarrow> mtimecmp (controller s) ! h \<le> clint_now s)
     \<and> (\<forall>h < n. \<not> pin_level s (Mtip h) \<longrightarrow>
          mtimecmp (controller s) ! h \<le> last_micro \<longrightarrow>
          (h, mtimecmp (controller s) ! h) \<in> set (timers (controller s)))"

lemma word_div_mono: "x \<le> y \<Longrightarrow> x div z \<le> y div z" for x y z :: "'a::len word"
  by (simp add: word_le_nat_alt unat_div div_le_mono)

lemma clint_now_bound: "clint_now s \<le> last_micro"
  using word_div_mono [of "clint_cycle s" "- 1" 100] by (simp add: clint_now_def)

lemma mult_100_le_iff:
  fixes t c :: u64
  assumes "t \<le> last_micro"
  shows "t * 100 \<le> c \<longleftrightarrow> t \<le> c div 100"
proof -
  have "unat t \<le> 184467440737095516"
    using assms by (simp add: word_le_nat_alt)
  then have "unat (t * 100) = unat t * 100"
    by (subst unat_mult_lem [THEN iffD1]) auto
  then show ?thesis
    by (simp add: word_le_nat_alt unat_div less_eq_div_iff_mult_less_eq)
qed

lemma max_not_reached: "\<not> (- 1 :: u64) \<le> last_micro"
  by (simp add: word_le_nat_alt unsigned_minus_1_eq_mask mask_eq_exp_minus_1)

lemma clint_inv_initial: "clint_initial n t s \<Longrightarrow> clint_inv n s"
  using max_not_reached
  by (cases s) (auto simp: clint_initial_def clint_inv_def new_clint_def)

lemma clint_inv_access:
  assumes "clint_inv n s" "clint_write (clint_now s) addr value sz (controller s) = (c, evs)"
  shows "clint_inv n (s\<lparr> controller := c, pin_level := apply_pins evs (pin_level s) \<rparr>)"
  using assms
  by (auto simp: clint_inv_def clint_write_def apply_pins_def clint_now_def Let_def nth_list_update
      split: if_splits)

lemma clint_inv_tick:
  assumes "clint_inv n s" "clint_cycle s \<le> t"
  shows "clint_inv n (s\<lparr> clint_cycle := t \<rparr>)"
  using assms(1) word_div_mono [OF assms(2), of 100]
  by (auto simp: clint_inv_def clint_now_def intro: order_trans)

lemma clint_inv_fire:
  assumes "clint_inv n s" "timers (controller s) = xs @ t # ys" "timer_due s t"
  shows "clint_inv n (s\<lparr> controller := (controller s)\<lparr> timers := xs @ ys \<rparr>,
      pin_level := apply_pins (timer_task (clint_now s) (fst t) (controller s)) (pin_level s) \<rparr>)"
  using assms
  by (cases t) (auto simp: clint_inv_def apply_pins_def timer_task_def timer_due_def clint_now_def
      mult_100_le_iff)

lemma clint_inv_step: "clint_step s s' \<Longrightarrow> clint_inv n s \<Longrightarrow> clint_inv n s'"
  by (induction rule: clint_step.induct)
    (auto intro: clint_inv_access clint_inv_tick clint_inv_fire)

lemma clint_inv_reachable: "clint_step\<^sup>*\<^sup>* s s' \<Longrightarrow> clint_inv n s \<Longrightarrow> clint_inv n s'"
  by (induction rule: rtranclp_induct) (auto intro: clint_inv_step)

section \<open>Timers\<close>

lemma timers_settle:
  "\<exists>s'. clint_step\<^sup>*\<^sup>* s s' \<and> clint_cycle s' = clint_cycle s
     \<and> mtimecmp (controller s') = mtimecmp (controller s)
     \<and> (\<forall>t \<in> set (timers (controller s')). \<not> timer_due s' t)"
proof (induction "length (timers (controller s))" arbitrary: s rule: less_induct)
  case less
  show ?case
  proof (cases "\<exists>t \<in> set (timers (controller s)). timer_due s t")
    case True
    then obtain xs t ys where ts: "timers (controller s) = xs @ t # ys" "timer_due s t"
      by (meson split_list)
    define s1 where "s1 = s\<lparr> controller := (controller s)\<lparr> timers := xs @ ys \<rparr>,
      pin_level := apply_pins (timer_task (clint_now s) (fst t) (controller s)) (pin_level s) \<rparr>"
    have step: "clint_step s s1" unfolding s1_def by (rule fire [OF ts])
    have "length (timers (controller s1)) < length (timers (controller s))"
      by (simp add: s1_def ts)
    from less [OF this] obtain s' where "clint_step\<^sup>*\<^sup>* s1 s'" "clint_cycle s' = clint_cycle s1"
      "mtimecmp (controller s') = mtimecmp (controller s1)"
      "\<forall>t \<in> set (timers (controller s')). \<not> timer_due s' t" by blast
    with step show ?thesis by (auto simp: s1_def intro: converse_rtranclp_into_rtranclp)
  qed auto
qed

lemma settled_pin:
  assumes "clint_inv n s" "\<forall>t \<in> set (timers (controller s)). \<not> timer_due s t" "h < n"
  shows "pin_level s (Mtip h) \<longleftrightarrow> mtimecmp (controller s) ! h \<le> clint_now s"
proof (cases "pin_level s (Mtip h)")
  case True
  then show ?thesis using assms by (simp add: clint_inv_def)
next
  case False
  have "\<not> mtimecmp (controller s) ! h \<le> clint_now s"
  proof
    assume le: "mtimecmp (controller s) ! h \<le> clint_now s"
    then have last: "mtimecmp (controller s) ! h \<le> last_micro"
      using clint_now_bound order_trans by blast
    then have "(h, mtimecmp (controller s) ! h) \<in> set (timers (controller s))"
      using assms(1,3) False by (simp add: clint_inv_def)
    with assms(2) have "\<not> timer_due s (h, mtimecmp (controller s) ! h)" by blast
    with le show False by (simp add: timer_due_def mult_100_le_iff [OF last] clint_now_def)
  qed
  with False show ?thesis by simp
qed



end
