(* ===== verification/Plic.thy ===== *)
theory Plic
  imports Rust_Prelude
begin

text \<open>
  The platform-level interrupt controller, \<open>lib/io/src/hw/intc/plic.rs\<close>.

  \<^item> \<open>Plic\<close> is the state of \<open>PlicInner\<close> without its pins. \<open>recompute_pending\<close> calls \<open>set_level\<close> on
    the pin of every context in turn; it is modelled by the list of these levels, and an operation
    returns \<open>Some\<close> levels when it recomputes and \<open>None\<close> when it does not touch the pins.
  \<^item> Arrays are lists; \<open>plic_inv\<close> says that they have the lengths \<open>new\<close> gives them.
  \<^item> Shifts are those of the release profile (\<^const>\<open>rust_shl\<close>), and \<open>addr - ADDR_CONTEXT_START\<close>
    wraps: a read between \<open>0x1080\<close> and \<open>0x1FFF\<close> takes the arm of the context registers and ends
    in its bounds check.
  \<^item> \<open>PlicSystem\<close> adds the input lines with their edge detectors (\<open>PlicIrq\<close>) and the output
    levels.
\<close>

section \<open>State\<close>

record Plic =
  priority :: "u8 list"
  pending_bits :: u32
  claimed :: u32
  enable :: "u32 list"
  threshold :: "u8 list"

definition new_plic :: "nat \<Rightarrow> Plic" where
  "new_plic n = \<lparr> priority = replicate 32 0, pending_bits = 0, claimed = 0,
     enable = replicate n 0, threshold = replicate n 0 \<rparr>"

definition plic_inv :: "nat \<Rightarrow> Plic \<Rightarrow> bool" where
  "plic_inv n p \<longleftrightarrow> length (priority p) = 32 \<and> length (enable p) = n \<and> length (threshold p) = n"

section \<open>Operations\<close>

definition claimable :: "Plic \<Rightarrow> nat \<Rightarrow> u32" where
  "claimable p ctx = (pending_bits p AND NOT (claimed p)) AND enable p ! ctx"

text \<open>\<open>pending\<close>: the loop over the interrupts, with its early return.\<close>

definition plic_pending :: "Plic \<Rightarrow> nat \<Rightarrow> bool" where
  "plic_pending p ctx =
    list_ex (\<lambda>irq. claimable p ctx AND rust_shl 1 irq \<noteq> 0 \<and> threshold p ! ctx < priority p ! irq)
      [1..<32]"

definition recompute_pending :: "Plic \<Rightarrow> bool list" where
  "recompute_pending p = map (plic_pending p) [0..<length (enable p)]"

text \<open>\<open>trigger\<close>: the outer \<open>None\<close> is the failed assertion.\<close>

definition trigger :: "nat \<Rightarrow> Plic \<Rightarrow> (Plic \<times> bool list) option" where
  "trigger irq p =
    (if 0 < irq \<and> irq < 32 then
       (let p = p\<lparr> pending_bits := pending_bits p OR rust_shl 1 irq \<rparr> in
        Some (p, recompute_pending p))
     else None)"

text \<open>The loop of \<open>claim\<close>: the current interrupt and its priority.\<close>

definition claim_loop :: "Plic \<Rightarrow> nat \<Rightarrow> nat list \<Rightarrow> nat \<times> u8 \<Rightarrow> nat \<times> u8" where
  "claim_loop p ctx irqs acc =
    fold (\<lambda>irq (cur_irq, cur_prio).
      if claimable p ctx AND rust_shl 1 irq \<noteq> 0 \<and> cur_prio < priority p ! irq
      then (irq, priority p ! irq) else (cur_irq, cur_prio)) irqs acc"

definition claim :: "nat \<Rightarrow> Plic \<Rightarrow> nat \<times> Plic \<times> bool list option" where
  "claim ctx p =
    (let cur_irq = fst (claim_loop p ctx [1..<32] (0, 0)) in
     if cur_irq \<noteq> 0 then
       (let p = p\<lparr> pending_bits := pending_bits p AND NOT (rust_shl 1 cur_irq),
                   claimed := claimed p OR rust_shl 1 cur_irq \<rparr>
        in (cur_irq, p, Some (recompute_pending p)))
     else (0, p, None))"

definition plic_read :: "u64 \<Rightarrow> nat \<Rightarrow> Plic \<Rightarrow> u64 \<times> Plic \<times> bool list option" where
  "plic_read addr sz p =
    (if sz \<noteq> 4 then (0, p, None)
     else if addr \<le> 0xFFC then
       (let irq = unat (addr div 4) in
        if irq = 0 \<or> 32 \<le> irq then (0, p, None) else (ucast (priority p ! irq), p, None))
     else if 0x1000 \<le> addr \<and> addr \<le> 0x107C then
       (let irq = (addr - 0x1000) * 8 in
        if 32 \<le> irq then (0, p, None) else (ucast (pending_bits p), p, None))
     else if 0x2000 \<le> addr \<and> addr \<le> 0x1FFFFF then
       (let ctx = unat ((addr - 0x2000) div 0x80);
            irq = (addr AND (0x80 - 1)) * 8
        in
        if length (enable p) \<le> ctx \<or> 32 \<le> irq then (0, p, None)
        else (ucast (enable p ! ctx), p, None))
     else if 0x1000 \<le> addr then
       (let ctx = unat ((addr - 0x200000) div 0x1000);
            offset = addr AND (0x1000 - 1)
        in
        if length (enable p) \<le> ctx then (0, p, None)
        else if offset = 0 then (ucast (threshold p ! ctx), p, None)
        else if offset = 4 then (let (v, p, lv) = claim ctx p in (of_nat v, p, lv))
        else (0, p, None))
     else (0, p, None))"

definition plic_write :: "u64 \<Rightarrow> u64 \<Rightarrow> nat \<Rightarrow> Plic \<Rightarrow> Plic \<times> bool list option" where
  "plic_write addr value sz p =
    (if sz \<noteq> 4 then (p, None)
     else
       (let value = ucast value :: u32;
            recomputed = (\<lambda>p. (p, Some (recompute_pending p)))
        in
        if addr \<le> 0xFFC then
          (let irq = unat (addr div 4) in
           if irq = 0 \<or> 32 \<le> irq then (p, None)
           else recomputed (p\<lparr> priority := (priority p)[irq := ucast (value AND 7)] \<rparr>))
        else if 0x1000 \<le> addr \<and> addr \<le> 0x107C then (p, None)
        else if 0x2000 \<le> addr \<and> addr \<le> 0x1FFFFF then
          (let ctx = unat ((addr - 0x2000) div 0x80);
               irq = (addr AND (0x80 - 1)) * 8
           in
           if length (enable p) \<le> ctx \<or> 32 \<le> irq then (p, None)
           else recomputed (p\<lparr> enable := (enable p)[ctx := value] \<rparr>))
        else if 0x200000 \<le> addr then
          (let ctx = unat ((addr - 0x200000) div 0x1000);
               offset = addr AND (0x1000 - 1)
           in
           if length (enable p) \<le> ctx then (p, None)
           else if offset = 0 then
             recomputed (p\<lparr> threshold := (threshold p)[ctx := ucast (value AND 7)] \<rparr>)
           else if offset = 4 then
             recomputed (p\<lparr> claimed := claimed p AND NOT (rust_shl 1 (unat value)) \<rparr>)
           else (p, None))
        else (p, None)))"

section \<open>The controller with its lines\<close>

record PlicSystem =
  plic_ctl :: Plic
  irq_prev :: "nat \<Rightarrow> bool"
  out_level :: "bool list"

text \<open>\<open>Plic::irq_pin\<close> hands out a line for an interrupt in range; \<open>None\<close> is the failed assertion.\<close>

definition irq_pin :: "nat \<Rightarrow> nat option" where
  "irq_pin irq = (if 0 < irq \<and> irq < 32 then Some irq else None)"

definition set_outputs :: "bool list option \<Rightarrow> PlicSystem \<Rightarrow> PlicSystem" where
  "set_outputs lv s = (case lv of None \<Rightarrow> s | Some l \<Rightarrow> s\<lparr> out_level := l \<rparr>)"

text \<open>\<open>PlicIrq::set_level\<close>\<close>

definition plic_irq_set_level :: "nat \<Rightarrow> bool \<Rightarrow> PlicSystem \<Rightarrow> PlicSystem option" where
  "plic_irq_set_level irq level s =
    (let prev = irq_prev s irq;
         s = s\<lparr> irq_prev := (irq_prev s)(irq := level) \<rparr>
     in
     if level \<and> \<not> prev then
       (case trigger irq (plic_ctl s) of
          None \<Rightarrow> None
        | Some (p, lv) \<Rightarrow> Some (set_outputs (Some lv) (s\<lparr> plic_ctl := p \<rparr>)))
     else Some s)"

inductive plic_step :: "PlicSystem \<Rightarrow> PlicSystem \<Rightarrow> bool" where
  reg_read: "plic_read addr sz (plic_ctl s) = (v, p, lv) \<Longrightarrow>
    plic_step s (set_outputs lv (s\<lparr> plic_ctl := p \<rparr>))"
| reg_write: "plic_write addr v sz (plic_ctl s) = (p, lv) \<Longrightarrow>
    plic_step s (set_outputs lv (s\<lparr> plic_ctl := p \<rparr>))"
| line_change: "plic_irq_set_level irq level s = Some s' \<Longrightarrow> plic_step s s'"

inductive_cases plic_stepE: "plic_step s s'"

definition new_plic_system :: "nat \<Rightarrow> PlicSystem" where
  "new_plic_system n = \<lparr> plic_ctl = new_plic n, irq_prev = (\<lambda>_. False), out_level = replicate n False \<rparr>"

section \<open>Claimable interrupts\<close>

text \<open>The interrupt lines a context could be given: pending, not in service, enabled.\<close>

definition deliverable :: "Plic \<Rightarrow> nat \<Rightarrow> nat \<Rightarrow> bool" where
  "deliverable p ctx irq \<longleftrightarrow> 1 \<le> irq \<and> irq < 32 \<and> bit (pending_bits p) irq
     \<and> \<not> bit (claimed p) irq \<and> bit (enable p ! ctx) irq"

lemma and_shl_bit: "irq < 32 \<Longrightarrow> (w AND rust_shl 1 irq \<noteq> 0) = bit w irq" for w :: u32
  by (simp add: rust_shl_def and_exp_eq_0_iff_not_bit)

lemma claimable_bit:
  "irq \<in> {1..<32} \<Longrightarrow> (claimable p ctx AND rust_shl 1 irq \<noteq> 0) = deliverable p ctx irq"
  by (auto simp: and_shl_bit claimable_def deliverable_def bit_simps)

lemma plic_pending_iff:
  "plic_pending p ctx \<longleftrightarrow> (\<exists>irq. deliverable p ctx irq \<and> threshold p ! ctx < priority p ! irq)"
  by (auto simp: plic_pending_def list_ex_iff claimable_bit) (auto simp: deliverable_def claimable_bit)

text \<open>The interrupt \<open>claim\<close> must return: highest priority, then lowest number.\<close>

definition best_irq :: "Plic \<Rightarrow> nat \<Rightarrow> nat \<Rightarrow> nat \<Rightarrow> bool" where
  "best_irq p ctx k irq \<longleftrightarrow> irq < k \<and> deliverable p ctx irq \<and> 0 < priority p ! irq
     \<and> (\<forall>j < k. deliverable p ctx j \<longrightarrow> priority p ! j \<le> priority p ! irq)
     \<and> (\<forall>j < irq. deliverable p ctx j \<longrightarrow> priority p ! j < priority p ! irq)"

lemma claim_loop_spec:
  assumes "1 \<le> k" "k \<le> 32"
  shows "case claim_loop p ctx [1..<k] (0, 0) of (irq, prio) \<Rightarrow>
    if irq = 0 then prio = 0 \<and> (\<forall>j < k. deliverable p ctx j \<longrightarrow> priority p ! j = 0)
    else best_irq p ctx k irq \<and> prio = priority p ! irq"
  using assms
proof (induction k)
  case (Suc k)
  show ?case
  proof (cases "k = 0")
    case True
    then show ?thesis by (simp add: claim_loop_def deliverable_def)
  next
    case False
    obtain irq prio where r: "claim_loop p ctx [1..<k] (0, 0) = (irq, prio)" by fastforce
    have s: "claim_loop p ctx [1..<Suc k] (0, 0)
        = (if deliverable p ctx k \<and> prio < priority p ! k then (k, priority p ! k) else (irq, prio))"
      using False Suc.prems r claimable_bit [of k p ctx] by (simp add: claim_loop_def)
    have old: "if irq = 0 then prio = 0 \<and> (\<forall>j < k. deliverable p ctx j \<longrightarrow> priority p ! j = 0)
        else best_irq p ctx k irq \<and> prio = priority p ! irq"
      using Suc False r by simp
    show ?thesis
      unfolding s using old False
      by (auto simp: best_irq_def less_Suc_eq word_less_nat_alt word_le_nat_alt unat_eq_zero
          split: if_splits)
  qed
qed simp

lemma claim_zero_iff:
  "fst (claim ctx p) = 0 \<longleftrightarrow> (\<forall>j. deliverable p ctx j \<longrightarrow> priority p ! j = 0)"
  using claim_loop_spec [of 32 p ctx]
  by (auto simp: claim_def Let_def best_irq_def deliverable_def split: if_splits prod.splits)

lemma claim_best: "fst (claim ctx p) \<noteq> 0 \<Longrightarrow> best_irq p ctx 32 (fst (claim ctx p))"
  using claim_loop_spec [of 32 p ctx] by (auto simp: claim_def Let_def split: if_splits prod.splits)

lemma claim_effect:
  assumes "claim ctx p = (irq, p', lv)"
  shows "irq < 32"
    and "irq = 0 \<Longrightarrow> p' = p \<and> lv = None"
    and "irq \<noteq> 0 \<Longrightarrow> p' = p\<lparr> pending_bits := pending_bits p AND NOT (rust_shl 1 irq),
      claimed := claimed p OR rust_shl 1 irq \<rparr> \<and> lv = Some (recompute_pending p')"
proof -
  show "irq < 32"
    using assms claim_best [of ctx p] by (cases "irq = 0") (auto simp: best_irq_def)
qed (use assms in \<open>auto simp: claim_def Let_def split: if_splits\<close>)

text \<open>
  C24. A claim returns 0 and changes nothing when the context has no deliverable interrupt of
  positive priority. Otherwise it returns the deliverable interrupt of highest priority, the lowest
  numbered one among equals, whatever the threshold; it marks that interrupt as in service and no
  longer pending, leaves every other register and interrupt alone, updates the output lines, and
  no context can be given that interrupt again before it is completed.
\<close>

theorem claim_returns_best:
  assumes "claim ctx p = (irq, p', lv)"
  shows "(irq = 0 \<longleftrightarrow> (\<forall>j. deliverable p ctx j \<longrightarrow> priority p ! j = 0))
    \<and> (irq = 0 \<longrightarrow> p' = p \<and> lv = None)
    \<and> (irq \<noteq> 0 \<longrightarrow> best_irq p ctx 32 irq \<and> lv = Some (recompute_pending p')
         \<and> (\<forall>j < 32. bit (pending_bits p') j = (bit (pending_bits p) j \<and> j \<noteq> irq))
         \<and> (\<forall>j < 32. bit (claimed p') j = (bit (claimed p) j \<or> j = irq))
         \<and> priority p' = priority p \<and> enable p' = enable p \<and> threshold p' = threshold p
         \<and> (\<forall>c. \<not> deliverable p' c irq))"
proof -
  have irq: "irq = fst (claim ctx p)" using assms by simp
  have zero: "irq = 0 \<longleftrightarrow> (\<forall>j. deliverable p ctx j \<longrightarrow> priority p ! j = 0)"
    by (simp only: irq claim_zero_iff)
  have best: "irq \<noteq> 0 \<Longrightarrow> best_irq p ctx 32 irq"
    using claim_best by (simp add: irq)
  show ?thesis
    using zero best claim_effect [OF assms] by (auto simp: deliverable_def rust_shl_def bit_simps)
qed

text \<open>Interrupts 3 and 5 share the higher priority; 3 is returned.\<close>

theorem claim_returns_best_witness:
  "let p = \<lparr> priority = (replicate 32 1)[3 := 2, 5 := 2], pending_bits = 0x2A, claimed = 0,
             enable = [0xFF], threshold = [7] \<rparr>
   in fst (claim 0 p) = 3 \<and> best_irq p 0 32 3 \<and> \<not> deliverable (fst (snd (claim 0 p))) 0 3"
proof -
  let ?p = "\<lparr> priority = (replicate 32 1)[3 := 2, 5 := 2], pending_bits = 0x2A, claimed = 0,
             enable = [0xFF], threshold = [7] \<rparr>"
  obtain irq p' lv where c: "claim 0 ?p = (irq, p', lv)" using prod_cases3 by blast
  have "fst (claim 0 ?p) = 3" by code_simp
  with c have "irq = 3" by simp
  with claim_returns_best [OF c] c show ?thesis by (simp add: Let_def)
qed

section \<open>Outputs\<close>

definition outputs_current :: "nat \<Rightarrow> PlicSystem \<Rightarrow> bool" where
  "outputs_current n s \<longleftrightarrow> plic_inv n (plic_ctl s) \<and> out_level s = recompute_pending (plic_ctl s)"

lemma outputs_current_new: "outputs_current n (new_plic_system n)"
proof -
  have "\<not> plic_pending (new_plic n) i" for i
    by (simp add: plic_pending_iff deliverable_def new_plic_def)
  then show ?thesis
    by (auto simp: outputs_current_def new_plic_system_def plic_inv_def recompute_pending_def
        new_plic_def intro!: nth_equalityI)
qed

lemma outputs_after:
  assumes "out_level s = recompute_pending (plic_ctl s)" "plic_inv n p"
    and "case lv of None \<Rightarrow> p = plic_ctl s | Some l \<Rightarrow> l = recompute_pending p"
  shows "plic_inv n (plic_ctl (set_outputs lv (s\<lparr> plic_ctl := p \<rparr>)))"
    and "out_level (set_outputs lv (s\<lparr> plic_ctl := p \<rparr>))
      = recompute_pending (plic_ctl (set_outputs lv (s\<lparr> plic_ctl := p \<rparr>)))"
  using assms by (auto simp: set_outputs_def split: option.splits)

lemma claim_result:
  assumes "claim ctx p = (irq, p', lv)" "plic_inv n p"
  shows "plic_inv n p' \<and> (case lv of None \<Rightarrow> p' = p | Some l \<Rightarrow> l = recompute_pending p')"
  using assms by (auto simp: claim_def plic_inv_def Let_def split: if_splits)

lemma plic_read_result:
  assumes "plic_read addr sz p = (v, p', lv)" "plic_inv n p"
  shows "plic_inv n p' \<and> (case lv of None \<Rightarrow> p' = p | Some l \<Rightarrow> l = recompute_pending p')"
  using assms claim_result [of _ p _ p' lv n]
  by (auto simp: plic_read_def Let_def split: if_splits prod.splits)

lemma plic_write_result:
  assumes "plic_write addr v sz p = (p', lv)" "plic_inv n p"
  shows "plic_inv n p' \<and> (case lv of None \<Rightarrow> p' = p | Some l \<Rightarrow> l = recompute_pending p')"
  using assms by (auto simp: plic_write_def plic_inv_def Let_def split: if_splits)

lemma line_change_outputs:
  assumes "plic_irq_set_level irq level s = Some s'" "outputs_current n s"
  shows "outputs_current n s'"
  using assms
  by (auto simp: plic_irq_set_level_def trigger_def set_outputs_def outputs_current_def plic_inv_def
      Let_def split: if_splits option.splits)

lemma outputs_current_step: "plic_step s s' \<Longrightarrow> outputs_current n s \<Longrightarrow> outputs_current n s'"
proof (induction rule: plic_step.induct)
  case (reg_read addr sz s v p lv)
  then show ?case
    using plic_read_result [OF reg_read(1)] by (auto simp: outputs_current_def intro!: outputs_after)
next
  case (reg_write addr v sz s p lv)
  then show ?case
    using plic_write_result [OF reg_write(1)] by (auto simp: outputs_current_def intro!: outputs_after)
next
  case (line_change irq level s s')
  then show ?case by (rule line_change_outputs)
qed

text \<open>
  C25. In every state the controller reaches through register reads, register writes and changes
  of its input lines, the output of a context is raised exactly when some interrupt is pending, not
  in service, enabled for the context and above its threshold; and then a claim by the context
  returns an interrupt.
\<close>

theorem plic_outputs_current:
  assumes "plic_step\<^sup>*\<^sup>* (new_plic_system n) s" "ctx < n"
  shows "(out_level s ! ctx \<longleftrightarrow> (\<exists>irq. deliverable (plic_ctl s) ctx irq
            \<and> threshold (plic_ctl s) ! ctx < priority (plic_ctl s) ! irq))
    \<and> (out_level s ! ctx \<longrightarrow> fst (claim ctx (plic_ctl s)) \<noteq> 0)"
proof -
  have "outputs_current n s"
    using assms(1) by (induction rule: rtranclp_induct) (auto intro: outputs_current_new outputs_current_step)
  then have "out_level s ! ctx = plic_pending (plic_ctl s) ctx"
    using assms(2) by (simp add: outputs_current_def plic_inv_def recompute_pending_def)
  then show ?thesis
    by (metis claim_zero_iff plic_pending_iff word_not_simps(1))
qed

text \<open>One context: the interrupt is enabled, given a priority, and its line rises.\<close>

theorem plic_outputs_current_witness:
  "\<exists>s. plic_step\<^sup>*\<^sup>* (new_plic_system 1) s \<and> out_level s ! 0 \<and> fst (claim 0 (plic_ctl s)) \<noteq> 0"
proof -
  let ?s0 = "new_plic_system 1"
  obtain p1 l1 where w1: "plic_write 0x2000 2 4 (plic_ctl ?s0) = (p1, l1)" by fastforce
  obtain p2 l2 where w2: "plic_write 4 1 4 p1 = (p2, l2)" by fastforce
  let ?s1 = "set_outputs l1 (?s0\<lparr> plic_ctl := p1 \<rparr>)"
  let ?s2 = "set_outputs l2 (?s1\<lparr> plic_ctl := p2 \<rparr>)"
  have c: "plic_ctl ?s1 = p1" by (simp add: set_outputs_def split: option.split)
  have p: "p2 = (new_plic 1)\<lparr> enable := [2], priority := (replicate 32 0)[1 := 1] \<rparr>"
    using w1 w2 by (auto simp: plic_write_def new_plic_system_def new_plic_def)
  have d: "plic_ctl ?s2 = p2" "irq_prev ?s2 1 = False"
    by (simp_all add: set_outputs_def new_plic_system_def split: option.split)
  obtain s3 where s3: "plic_irq_set_level 1 True ?s2 = Some s3" "plic_ctl s3 = p2\<lparr> pending_bits := 2 \<rparr>"
    using d by (auto simp: plic_irq_set_level_def trigger_def set_outputs_def p new_plic_def
        rust_shl_def Let_def split: option.splits)
  have "plic_step\<^sup>*\<^sup>* ?s0 ?s1" using reg_write [OF w1] by blast
  moreover have "plic_step ?s1 ?s2" using reg_write [of 4 1 4 ?s1 p2 l2] c w2 by simp
  ultimately have r: "plic_step\<^sup>*\<^sup>* ?s0 s3" using line_change [OF s3(1)]
    by (meson rtranclp.rtrancl_into_rtrancl)
  have "deliverable (plic_ctl s3) 0 1" "threshold (plic_ctl s3) ! 0 < priority (plic_ctl s3) ! 1"
    by (simp_all add: s3(2) deliverable_def p new_plic_def bit_numeral_rec)
  with plic_outputs_current [OF r, of 0] r show ?thesis by auto
qed

section \<open>Pending interrupts are not lost\<close>



end
