(* ===== verification/System.thy ===== *)
theory System
  imports Hart Clint Plic
begin

text \<open>
  The machine as the interpreter sees it, \<open>src/emu/interp.rs\<close>: guest memory, the harts, the set
  \<open>CODE_PROT\<close> of pages that hold translated code, the per-hart code caches, the two interrupt
  controllers, and the functions
  that reach through them: address translation with the L0 caches in front, the default methods of
  the \<open>MemoryModel\<close> trait, invalidation of translated code, and interrupt checking.

  Guest-physical memory is identity-mapped into the host, so a load through a translated pointer
  reads the byte map. Addresses below \<open>IO_BOUNDARY\<close> fault on the host and are handled by the
  device model (\<open>Io_System\<close>); the copy loops here are those of RAM. The patching of host code
  (\<open>*blk.1 = 0xC3\<close>) and the code heap itself are not part of the state.
\<close>

section \<open>Memory\<close>

type_synonym memory = "u64 \<Rightarrow> u8"

primrec load_bytes :: "nat \<Rightarrow> memory \<Rightarrow> u64 \<Rightarrow> u64" where
  "load_bytes 0 m a = 0"
| "load_bytes (Suc n) m a = ucast (m a) OR push_bit 8 (load_bytes n m (a + 1))"

primrec store_bytes :: "nat \<Rightarrow> u64 \<Rightarrow> u64 \<Rightarrow> memory \<Rightarrow> memory" where
  "store_bytes 0 a v m = m"
| "store_bytes (Suc n) a v m = store_bytes n (a + 1) (drop_bit 8 v) (m(a := ucast v))"

text \<open>\<open>read_memory::<u64>\<close>: asserts that the address is in RAM.\<close>

definition read_memory :: "Env \<Rightarrow> memory \<Rightarrow> u64 \<Rightarrow> u64 option" where
  "read_memory env m addr = (if addr < io_boundary env then None else Some (load_bytes 8 m addr))"

section \<open>Translation\<close>

definition effective_prv :: "AccessType \<Rightarrow> Context \<Rightarrow> u64" where
  "effective_prv access ctx =
    (if prv ctx = 3 \<and> mstatus ctx AND 0x20000 \<noteq> 0 \<and> access \<noteq> Execute
     then rust_shr (mstatus ctx) 11 AND 3 else prv ctx)"

definition fault_cause :: "AccessType \<Rightarrow> u64" where
  "fault_cause access = (case access of Read \<Rightarrow> 13 | Write \<Rightarrow> 15 | Execute \<Rightarrow> 12)"

definition translate_vaddr :: "Env \<Rightarrow> memory \<Rightarrow> u64 \<Rightarrow> AccessType \<Rightarrow> Context \<Rightarrow> (u64, Context) res" where
  "translate_vaddr env m addr access ctx =
    (let p = effective_prv access ctx in
     if drop_bit 60 (satp ctx) = 0 \<or> p = 3 then Ok addr ctx
     else
       (case walk_page (satp ctx) (drop_bit 12 addr) (read_memory env m) of
          None \<Rightarrow> Panic
        | Some pte \<Rightarrow>
            if check_permission pte access (ucast p) (mstatus ctx)
            then Ok (push_bit 12 (drop_bit 10 pte) OR (addr AND 4095)) ctx
            else Err (set_trap (fault_cause access) addr ctx)))"

text \<open>The default methods of the trait, which both models use.\<close>

definition instruction_access :: "Env \<Rightarrow> memory \<Rightarrow> u64 \<Rightarrow> Context \<Rightarrow> (u64, Context) res" where
  "instruction_access env m addr ctx =
    and_then (translate_vaddr env m addr Execute ctx) (\<lambda>pa ctx.
      Ok pa (insert_instruction_cache_line env addr pa ctx))"

definition data_access :: "Env \<Rightarrow> memory \<Rightarrow> u64 \<Rightarrow> bool \<Rightarrow> Context \<Rightarrow> (u64, Context) res" where
  "data_access env m addr write ctx =
    and_then (translate_vaddr env m addr (if write then Write else Read) ctx) (\<lambda>pa ctx.
      Ok pa (insert_data_cache_line env addr pa write ctx))"

definition insn_translate :: "Env \<Rightarrow> memory \<Rightarrow> u64 \<Rightarrow> Context \<Rightarrow> (u64, Context) res" where
  "insn_translate env m addr ctx =
    (let idx = drop_bit (cache_line_size_log2 (memory_model env)) addr;
         l = i_line (shared ctx) (ucast idx)
     in
     if line_tag l \<noteq> idx then instruction_access env m addr ctx
     else Ok (line_paddr l XOR addr) ctx)"

section \<open>The machine\<close>

datatype (plugins only: code size) ExitReason = SwitchModel u64 | Exit i32 | ClearStats | PrintStats

record ICache =
  u_map :: "u64 \<rightharpoonup> u64 \<times> u64"
  s_map :: "u64 \<rightharpoonup> u64 \<times> u64"
  m_map :: "u64 \<rightharpoonup> u64 \<times> u64"
  heap_start :: u64
  heap_offset :: u64

record System =
  ctxs :: "nat \<Rightarrow> Context"
  mem :: memory
  code_prot :: "u64 set"
  icaches :: "nat \<Rightarrow> ICache"
  exit_reason :: "ExitReason option"
  clint :: Clint
  plic :: PlicSystem

definition put_hart :: "nat \<Rightarrow> Context \<Rightarrow> System \<Rightarrow> System" where
  "put_hart h ctx sys = sys\<lparr> ctxs := (ctxs sys)(h := ctx) \<rparr>"

text \<open>A function on the hart's own context, run in the machine.\<close>

definition on_hart :: "nat \<Rightarrow> (Context \<Rightarrow> ('a, Context) res) \<Rightarrow> System \<Rightarrow> ('a, System) res" where
  "on_hart h f sys = (case f (ctxs sys h) of
       Ok v ctx \<Rightarrow> Ok v (put_hart h ctx sys)
     | Err ctx \<Rightarrow> Err (put_hart h ctx sys)
     | Panic \<Rightarrow> Panic)"

text \<open>\<open>for i in 0..core_count() { if mask & (1 << i) == 0 { continue } shared_context(i).f() }\<close>\<close>

definition on_masked :: "Env \<Rightarrow> u64 \<Rightarrow> (SharedContext \<Rightarrow> SharedContext) \<Rightarrow> System \<Rightarrow> System" where
  "on_masked env msk f sys =
    sys\<lparr> ctxs := (\<lambda>i. if i < core_count env \<and> msk AND rust_shl 1 i \<noteq> 0
                     then on_shared f (ctxs sys i) else ctxs sys i) \<rparr>"

definition on_all :: "Env \<Rightarrow> (SharedContext \<Rightarrow> SharedContext) \<Rightarrow> System \<Rightarrow> System" where
  "on_all env f sys =
    sys\<lparr> ctxs := (\<lambda>i. if i < core_count env then on_shared f (ctxs sys i) else ctxs sys i) \<rparr>"

definition shutdown :: "Env \<Rightarrow> ExitReason \<Rightarrow> System \<Rightarrow> System" where
  "shutdown env reason sys = on_all env shutdown_hart (sys\<lparr> exit_reason := Some reason \<rparr>)"

section \<open>Translated code\<close>

definition new_icache :: "u64 \<Rightarrow> ICache" where
  "new_icache ptr = \<lparr> u_map = Map.empty, s_map = Map.empty, m_map = Map.empty,
     heap_start = ptr, heap_offset = 0 \<rparr>"

text \<open>\<open>HEAP_SIZE\<close>\<close>

abbreviation HEAP_SIZE :: u64 where "HEAP_SIZE \<equiv> 0x2000000"

definition icache_space :: "ICache \<Rightarrow> u64" where
  "icache_space ic = HEAP_SIZE - heap_offset ic"

definition icache_rollover :: "ICache \<Rightarrow> ICache" where
  "icache_rollover ic =
     ic\<lparr> heap_offset := 0, u_map := Map.empty, s_map := Map.empty, m_map := Map.empty \<rparr>"

definition icache_commit :: "u64 \<Rightarrow> ICache \<Rightarrow> ICache option" where
  "icache_commit n ic =
    (let off = heap_offset ic + n in
     if off \<le> HEAP_SIZE then Some (ic\<lparr> heap_offset := off \<rparr>) else None)"

definition icache_reset :: "ICache \<Rightarrow> ICache" where
  "icache_reset ic =
     ic\<lparr> u_map := Map.empty, s_map := Map.empty, m_map := Map.empty, heap_offset := 0 \<rparr>"

text \<open>The closure queued by \<open>icache_invalidate\<close>: removal of the keys in \<open>start..end\<close>.\<close>

definition drop_range :: "u64 \<Rightarrow> u64 \<Rightarrow> (u64 \<rightharpoonup> 'b) \<Rightarrow> (u64 \<rightharpoonup> 'b)" where
  "drop_range start fin mp = (\<lambda>k. if start \<le> k \<and> k < fin then None else mp k)"

primrec run_task :: "task \<Rightarrow> ICache \<Rightarrow> ICache" where
  "run_task (InvalidateICache start fin) ic =
     ic\<lparr> u_map := drop_range start fin (u_map ic), s_map := drop_range start fin (s_map ic),
         m_map := drop_range start fin (m_map ic) \<rparr>"

text \<open>The pages of \<open>(start..end).step_by(4096)\<close>, both page-aligned.\<close>

definition page_range :: "u64 \<Rightarrow> u64 \<Rightarrow> u64 list" where
  "page_range start fin =
    (if start < fin then map (\<lambda>k. start + 4096 * of_nat k) [0..<unat (drop_bit 12 (fin - start))]
     else [])"

definition icache_invalidate :: "Env \<Rightarrow> u64 \<Rightarrow> u64 \<Rightarrow> System \<Rightarrow> System" where
  "icache_invalidate env start fin sys =
    (let start = start AND NOT 4095;
         fin = (fin + 4095) AND NOT 4095;
         pages = map (drop_bit 12) (page_range start fin);
         need_inv = list_ex (\<lambda>p. p \<in> code_prot sys) pages;
         sys = sys\<lparr> code_prot := code_prot sys - set pages \<rparr>
     in
     if need_inv then on_all env (run_on (InvalidateICache start fin)) sys else sys)"

section \<open>Data accesses\<close>

definition translate_cache_miss :: "Env \<Rightarrow> nat \<Rightarrow> u64 \<Rightarrow> bool \<Rightarrow> System \<Rightarrow> (u64, System) res" where
  "translate_cache_miss env h addr write sys =
    and_then (on_hart h (data_access env (mem sys) addr write) sys) (\<lambda>out sys.
      Ok out (if write then icache_invalidate env out (out + 1) sys else sys))"

definition translate_read :: "Env \<Rightarrow> nat \<Rightarrow> u64 \<Rightarrow> System \<Rightarrow> (u64, System) res" where
  "translate_read env h addr sys =
    (let idx = drop_bit (cache_line_size_log2 (memory_model env)) addr;
         l = line (shared (ctxs sys h)) (ucast idx)
     in
     if drop_bit 1 (line_tag l) \<noteq> idx then translate_cache_miss env h addr False sys
     else Ok (line_paddr l XOR addr) sys)"

definition translate_write :: "Env \<Rightarrow> nat \<Rightarrow> u64 \<Rightarrow> System \<Rightarrow> (u64, System) res" where
  "translate_write env h addr sys =
    (let idx = drop_bit (cache_line_size_log2 (memory_model env)) addr;
         l = line (shared (ctxs sys h)) (ucast idx)
     in
     if line_tag l \<noteq> push_bit 1 idx then translate_cache_miss env h addr True sys
     else Ok (line_paddr l XOR addr) sys)"

definition count_access :: "nat \<Rightarrow> System \<Rightarrow> System" where
  "count_access h sys =
    put_hart h ((ctxs sys h)\<lparr> minstret := minstret (ctxs sys h) + 1 \<rparr>) sys"

text \<open>\<open>read_vaddr\<close> and \<open>ptr_vaddr_x\<close>, returning the pointer.\<close>

definition read_vaddr :: "Env \<Rightarrow> nat \<Rightarrow> u64 \<Rightarrow> System \<Rightarrow> (u64, System) res" where
  "read_vaddr env h addr sys = translate_read env h addr (count_access h sys)"

definition ptr_vaddr_x :: "Env \<Rightarrow> nat \<Rightarrow> u64 \<Rightarrow> System \<Rightarrow> (u64, System) res" where
  "ptr_vaddr_x env h addr sys = translate_write env h addr (count_access h sys)"

text \<open>\<open>copy_from_virt_addr\<close>: the loop over the slice, \<open>n\<close> bytes left.\<close>

fun copy_from_loop :: "Env \<Rightarrow> nat \<Rightarrow> nat \<Rightarrow> u64 \<Rightarrow> u64 \<Rightarrow> u64 \<Rightarrow> System \<Rightarrow> (u8 list, System) res" where
  "copy_from_loop env h 0 virt phys vline sys = Ok [] sys"
| "copy_from_loop env h (Suc n) virt phys vline sys =
    (let cur = drop_bit (cache_line_size_log2 (memory_model env)) virt in
     and_then (if cur \<noteq> vline then translate_read env h virt sys else Ok phys sys) (\<lambda>phys sys.
     and_then (copy_from_loop env h n (virt + 1) (phys + 1) cur sys) (\<lambda>bs sys'.
       Ok (mem sys phys # bs) sys')))"

definition copy_from_virt_addr :: "Env \<Rightarrow> nat \<Rightarrow> u64 \<Rightarrow> nat \<Rightarrow> System \<Rightarrow> (u8 list, System) res" where
  "copy_from_virt_addr env h addr len sys = copy_from_loop env h len addr 0 (NOT addr) sys"

fun copy_to_loop :: "Env \<Rightarrow> nat \<Rightarrow> u8 list \<Rightarrow> u64 \<Rightarrow> u64 \<Rightarrow> u64 \<Rightarrow> System \<Rightarrow> (unit, System) res" where
  "copy_to_loop env h [] virt phys vline sys = Ok () sys"
| "copy_to_loop env h (b # bs) virt phys vline sys =
    (let cur = drop_bit (cache_line_size_log2 (memory_model env)) virt in
     and_then (if cur \<noteq> vline then translate_write env h virt sys else Ok phys sys) (\<lambda>phys sys.
       copy_to_loop env h bs (virt + 1) (phys + 1) cur (sys\<lparr> mem := (mem sys)(phys := b) \<rparr>)))"

definition copy_to_virt_addr :: "Env \<Rightarrow> nat \<Rightarrow> u64 \<Rightarrow> u8 list \<Rightarrow> System \<Rightarrow> (unit, System) res" where
  "copy_to_virt_addr env h addr bs sys = copy_to_loop env h bs addr 0 (NOT addr) sys"

section \<open>Fences and interrupts\<close>

definition global_sfence :: "Env \<Rightarrow> u64 \<Rightarrow> System \<Rightarrow> System" where
  "global_sfence env msk sys =
    on_masked env msk (\<lambda>sh. clear_local_icache (clear_local_cache sh)) sys"

definition check_interrupt :: "Env \<Rightarrow> nat \<Rightarrow> System \<Rightarrow> (unit, System) res" where
  "check_interrupt env h sys =
    (let al = alarm (shared (ctxs sys h));
         sys = put_hart h (on_shared (\<lambda>sh. sh\<lparr> alarm := 0 \<rparr>) (ctxs sys h)) sys
     in
     if al AND 2 \<noteq> 0 then Err sys
     else
       (let ts = tasks (shared (ctxs sys h));
            sys = put_hart h (on_shared (\<lambda>sh. sh\<lparr> tasks := [] \<rparr>) (ctxs sys h)) sys;
            sys = sys\<lparr> icaches := (icaches sys)(h := fold run_task ts (icaches sys h)) \<rparr>;
            interrupt_mask = interrupt_pending (ctxs sys h)
        in
        if interrupt_mask = 0 then Ok () sys
        else
          (let pending = 63 - of_nat (leading_zeros interrupt_mask) in
           case trap env (set_trap (push_bit 63 1 OR pending) 0 (ctxs sys h)) of
             None \<Rightarrow> Panic
           | Some ctx \<Rightarrow> Ok () (put_hart h ctx sys))))"

end
