(* ===== verification/Csr_Access.thy ===== *)
theory Csr_Access
  imports System
begin

text \<open>
  \<open>read_csr\<close> and \<open>write_csr\<close> of \<open>src/emu/interp.rs\<close>. Both leave privilege and read-only checks
  to their callers, as the source documents.
\<close>

section \<open>Reading\<close>

text \<open>\<open>mstatus\<close> and \<open>sstatus\<close> are read with \<open>SD\<close> set when \<open>FS\<close> is dirty and \<open>UXL\<close> hard-wired.\<close>

definition status_view :: "u64 \<Rightarrow> u64" where
  "status_view value =
    (let value = (if value AND 0x6000 = 0x6000 then value OR 0x8000000000000000 else value)
     in value OR 0x200000000)"

definition read_csr :: "Env \<Rightarrow> Csr \<Rightarrow> Context \<Rightarrow> (u64, Context) res" where
  "read_csr env csr ctx =
    (if csr = Csr_Fflags then
       and_then (test_and_set_fs env ctx) (\<lambda>_ ctx. Ok (ucast (fflags (shared ctx))) ctx)
     else if csr = Csr_Frm then
       and_then (test_and_set_fs env ctx) (\<lambda>_ ctx. Ok (ucast (frm ctx)) ctx)
     else if csr = Csr_Fcsr then
       and_then (test_and_set_fs env ctx) (\<lambda>_ ctx.
         Ok (ucast (push_bit 5 (frm ctx) OR fflags (shared ctx))) ctx)
     else if csr = Csr_Cycle then
       and_then (test_counter 0 ctx) (\<lambda>_ ctx. Ok (get_mcycle env ctx) ctx)
     else if csr = Csr_Time then
       and_then (test_counter 1 ctx) (\<lambda>_ ctx. Ok (event_time env) ctx)
     else if csr = Csr_Instret then
       and_then (test_counter 2 ctx) (\<lambda>_ ctx. Ok (instret ctx - 1) ctx)
     else if csr = Csr_Sstatus then Ok (status_view (mstatus ctx AND 0xC6122)) ctx
     else if csr = Csr_Sie then Ok (mie ctx AND mideleg ctx) ctx
     else if csr = Csr_Stvec then Ok (stvec ctx) ctx
     else if csr = Csr_Scounteren then Ok (scounteren ctx) ctx
     else if csr = Csr_Sscratch then Ok (sscratch ctx) ctx
     else if csr = Csr_Sepc then Ok (sepc ctx) ctx
     else if csr = Csr_Scause then Ok (scause ctx) ctx
     else if csr = Csr_Stval then Ok (stval ctx) ctx
     else if csr = Csr_Sip then Ok (mip (shared ctx) AND mideleg ctx) ctx
     else if csr = Csr_Satp then Ok (satp ctx) ctx
     else if csr = Csr_Mvendorid \<or> csr = Csr_Marchid \<or> csr = Csr_Mimpid then Ok 0 ctx
     else if csr = Csr_Mhartid then Ok (hartid ctx) ctx
     else if csr = Csr_Mstatus then Ok (status_view (mstatus ctx)) ctx
     else if csr = Csr_Misa then Panic
     else if csr = Csr_Medeleg then Ok (medeleg ctx) ctx
     else if csr = Csr_Mideleg then Ok (mideleg ctx) ctx
     else if csr = Csr_Mie then Ok (mie ctx) ctx
     else if csr = Csr_Mtvec then Ok (mtvec ctx) ctx
     else if csr = Csr_Mcounteren then Ok (mcounteren ctx) ctx
     else if csr = Csr_Mscratch then Ok (mscratch ctx) ctx
     else if csr = Csr_Mepc then Ok (mepc ctx) ctx
     else if csr = Csr_Mcause then Ok (mcause ctx) ctx
     else if csr = Csr_Mtval then Ok (mtval ctx) ctx
     else if csr = Csr_Mip then Ok (mip (shared ctx)) ctx
     else if csr = Csr_Mcycle then Ok (get_mcycle env ctx) ctx
     else if csr = Csr_Mtime then Ok (event_time env) ctx
     else if csr = Csr_Minstret then Ok (instret ctx - 1) ctx
     else Err (set_trap 2 0 ctx))"

section \<open>Writing\<close>

definition set_fflags :: "u64 \<Rightarrow> Context \<Rightarrow> Context" where
  "set_fflags value ctx = on_shared (\<lambda>sh. sh\<lparr> fflags := ucast (value AND 0b11111) \<rparr>) ctx"

definition set_frm :: "u64 \<Rightarrow> Context \<Rightarrow> Context" where
  "set_frm value ctx = ctx\<lparr> frm := min (ucast (value AND 0b111)) 4 \<rparr>"

text \<open>A write to \<open>mstatus\<close> through the mask \<open>wr\<close> that flushes when a bit of \<open>fl\<close> changes.\<close>

definition write_status :: "u64 \<Rightarrow> u64 \<Rightarrow> u64 \<Rightarrow> Context \<Rightarrow> Context" where
  "write_status wr fl value ctx =
    (let old_value = mstatus ctx;
         ctx = ctx\<lparr> mstatus := (old_value AND NOT wr) OR (value AND wr) \<rparr>;
         ctx = alert_if_pending ctx
     in if old_value AND fl \<noteq> mstatus ctx AND fl then flush_local ctx else ctx)"

definition write_csr_ctx :: "Env \<Rightarrow> Csr \<Rightarrow> u64 \<Rightarrow> Context \<Rightarrow> (unit, Context) res" where
  "write_csr_ctx env csr value ctx =
    (if csr = Csr_Fflags then
       and_then (test_and_set_fs env ctx) (\<lambda>_ ctx. Ok () (set_fflags value ctx))
     else if csr = Csr_Frm then
       and_then (test_and_set_fs env ctx) (\<lambda>_ ctx. Ok () (set_frm value ctx))
     else if csr = Csr_Fcsr then
       and_then (test_and_set_fs env ctx) (\<lambda>_ ctx.
         Ok () (set_frm (drop_bit 5 value) (set_fflags value ctx)))
     else if csr = Csr_Sstatus then Ok () (write_status 0xC6122 0xC0000 value ctx)
     else if csr = Csr_Sie then
       Ok () (recheck_interrupt
         (ctx\<lparr> mie := (mie ctx AND NOT (mideleg ctx)) OR (value AND mideleg ctx) \<rparr>))
     else if csr = Csr_Stvec then
       Ok () (if value AND 2 = 0 then ctx\<lparr> stvec := value \<rparr> else ctx)
     else if csr = Csr_Scounteren then Ok () (ctx\<lparr> scounteren := value AND 0b111 \<rparr>)
     else if csr = Csr_Sscratch then Ok () (ctx\<lparr> sscratch := value \<rparr>)
     else if csr = Csr_Sepc then Ok () (ctx\<lparr> sepc := value AND NOT 1 \<rparr>)
     else if csr = Csr_Scause then Ok () (ctx\<lparr> scause := value \<rparr>)
     else if csr = Csr_Stval then Ok () (ctx\<lparr> stval := value \<rparr>)
     else if csr = Csr_Sip then
       Ok () (if mideleg ctx AND 0x2 \<noteq> 0 then
                (if value AND 0x2 \<noteq> 0 then on_shared (assert_irq 2) ctx
                 else on_shared (deassert_irq 2) ctx)
              else ctx)
     else if csr = Csr_Satp then
       Ok () (flush_local
         (if drop_bit 60 value = 0 then ctx\<lparr> satp := 0 \<rparr>
          else if drop_bit 60 value = 8 then ctx\<lparr> satp := value \<rparr>
          else ctx))
     else if csr = Csr_Mstatus then Ok () (write_status 0x7E79AA 0xE1800 value ctx)
     else if csr = Csr_Misa then Ok () ctx
     else if csr = Csr_Medeleg then Ok () (ctx\<lparr> medeleg := value AND 0xB35D \<rparr>)
     else if csr = Csr_Mideleg then
       Ok () (alert_if_pending (ctx\<lparr> mideleg := value AND 0x222 \<rparr>))
     else if csr = Csr_Mie then Ok () (recheck_interrupt (ctx\<lparr> mie := value AND 0xAAA \<rparr>))
     else if csr = Csr_Mtvec then
       Ok () (if value AND 2 = 0 then ctx\<lparr> mtvec := value \<rparr> else ctx)
     else if csr = Csr_Mcounteren then Ok () (ctx\<lparr> mcounteren := value AND 0b111 \<rparr>)
     else if csr = Csr_Mscratch then Ok () (ctx\<lparr> mscratch := value \<rparr>)
     else if csr = Csr_Mepc then Ok () (ctx\<lparr> mepc := value AND NOT 1 \<rparr>)
     else if csr = Csr_Mcause then Ok () (ctx\<lparr> mcause := value \<rparr>)
     else if csr = Csr_Mtval then Ok () (ctx\<lparr> mtval := value \<rparr>)
     else if csr = Csr_Mip then
       Ok () (on_shared (assert_irq (0x222 AND value)) (on_shared (deassert_irq (0x222 AND NOT value)) ctx))
     else if csr = Csr_Minstret then Ok () (ctx\<lparr> instret := value \<rparr>)
     else Err (set_trap 2 0 ctx))"

text \<open>The two simulator CSRs stop all harts, so the write as a whole is on the machine.\<close>

definition write_csr :: "Env \<Rightarrow> nat \<Rightarrow> Csr \<Rightarrow> u64 \<Rightarrow> System \<Rightarrow> (unit, System) res" where
  "write_csr env h csr value sys =
    (if csr = 0x800 \<and> feature_simcsr env then Ok () (shutdown env (SwitchModel value) sys)
     else if csr = 0x801 \<and> feature_simcsr env then
       Ok () (shutdown env (if value = 0 then ClearStats else PrintStats) sys)
     else on_hart h (write_csr_ctx env csr value) sys)"

end
