(* ===== verification/L0_Cache.thy ===== *)
theory L0_Cache
  imports Csr_Access
begin

text \<open>
  The L0 caches in front of address translation. A line is correct if every address that hits it
  translates to what the line says; the interface a line relies on is the locale
  \<open>line_translation\<close>: the translation is constant up to the page offset, and a page that may be
  written may be read. The locale is interpreted on the interpreter's translation for both memory
  models. \<open>l0_coherent\<close> is then shown to hold after a flush, to be kept by every function that
  fills a line or changes what translation depends on, and to make the cached and the uncached
  translation agree.
\<close>

section \<open>Definitions\<close>

definition xlate :: "Env \<Rightarrow> memory \<Rightarrow> AccessType \<Rightarrow> Context \<Rightarrow> u64 \<Rightarrow> u64 option" where
  "xlate env m access ctx addr = (case translate_vaddr env m addr access ctx of
     Ok pa _ \<Rightarrow> Some pa | _ \<Rightarrow> None)"

definition data_line_ok :: "nat \<Rightarrow> (u64 \<Rightarrow> u64 option) \<Rightarrow> (u64 \<Rightarrow> u64 option) \<Rightarrow> CacheLine \<Rightarrow> bool" where
  "data_line_ok log2 rd wr l \<longleftrightarrow>
    (\<forall>addr. drop_bit 1 (line_tag l) = drop_bit log2 addr \<longrightarrow>
      rd addr = Some (line_paddr l XOR addr) \<and>
      (\<not> bit (line_tag l) 0 \<longrightarrow> wr addr = Some (line_paddr l XOR addr)))"

definition insn_line_ok :: "nat \<Rightarrow> (u64 \<Rightarrow> u64 option) \<Rightarrow> CacheLine \<Rightarrow> bool" where
  "insn_line_ok log2 ex l \<longleftrightarrow>
    (\<forall>addr. line_tag l = drop_bit log2 addr \<longrightarrow> ex addr = Some (line_paddr l XOR addr))"

definition l0_coherent :: "Env \<Rightarrow> memory \<Rightarrow> Context \<Rightarrow> bool" where
  "l0_coherent env m ctx \<longleftrightarrow>
    (\<forall>i. data_line_ok (cache_line_size_log2 (memory_model env)) (xlate env m Read ctx)
           (xlate env m Write ctx) (line (shared ctx) i)) \<and>
    (\<forall>i. insn_line_ok (cache_line_size_log2 (memory_model env)) (xlate env m Execute ctx)
           (i_line (shared ctx) i))"

text \<open>What translation reads of a context: two contexts that agree translate alike.\<close>

definition same_translation :: "Context \<Rightarrow> Context \<Rightarrow> bool" where
  "same_translation c c' \<longleftrightarrow> satp c = satp c' \<and> prv c = prv c' \<and>
    mstatus c AND 0xC0000 = mstatus c' AND 0xC0000 \<and>
    effective_prv Read c = effective_prv Read c'"

definition prv_ok :: "Context \<Rightarrow> bool" where
  "prv_ok ctx \<longleftrightarrow> prv ctx = 0 \<or> prv ctx = 1 \<or> prv ctx = 3"

text \<open>\<open>MPRV\<close> is in force: machine-mode data accesses use the privilege in \<open>MPP\<close>.\<close>

definition mprv_active :: "Context \<Rightarrow> bool" where
  "mprv_active ctx \<longleftrightarrow> prv ctx = 3 \<and> bit (mstatus ctx) 17"

text \<open>A hart in machine mode with paging set up, an identity-mapped line filled, and \<open>SPP\<close> set.\<close>

definition stale_env :: Env where
  "stale_env = \<lparr> memory_model = AtomicModel, flags_prv = 3, core_count = 1, io_boundary = 0,
     feature_float = True, feature_simcsr = True, lockstep_cycles = 0, event_time = 0 \<rparr>"

definition stale_ctx :: Context where
  "stale_ctx = insert_data_cache_line stale_env 0 0 True
     ((initial_context 0 True)\<lparr> prv := 3, satp := 0x8000000000000001, mstatus := 0x100 \<rparr>)"

definition stale_sys :: System where
  "stale_sys = \<lparr> ctxs = (\<lambda>_. stale_ctx), mem = (\<lambda>_. 0), code_prot = {},
     icaches = (\<lambda>_. new_icache 0), exit_reason = None,
     clint = \<lparr> msip = [False], mtimecmp = [- 1], timers = [] \<rparr>, plic = new_plic_system 1 \<rparr>"

section \<open>The interface of a line\<close>

locale line_translation =
  fixes log2 :: nat and rd wr ex :: "u64 \<Rightarrow> u64 option"
  assumes log2_bounds: "3 \<le> log2" "log2 \<le> 12"
    and rd_page: "rd a = Some p \<Longrightarrow> drop_bit 12 a = drop_bit 12 b \<Longrightarrow> rd b = Some (p XOR a XOR b)"
    and wr_page: "wr a = Some p \<Longrightarrow> drop_bit 12 a = drop_bit 12 b \<Longrightarrow> wr b = Some (p XOR a XOR b)"
    and ex_page: "ex a = Some p \<Longrightarrow> drop_bit 12 a = drop_bit 12 b \<Longrightarrow> ex b = Some (p XOR a XOR b)"
    and wr_rd: "wr a = Some p \<Longrightarrow> rd a = Some p"
begin

lemma same_line_same_page:
  "drop_bit log2 (a :: u64) = drop_bit log2 b \<Longrightarrow> drop_bit 12 a = drop_bit 12 b"
  by (metis drop_bit_drop_bit log2_bounds(2) le_add_diff_inverse2)

lemma idx_small: "drop_bit log2 (a :: u64) \<noteq> invalid_tag" "drop_bit log2 (a :: u64) \<noteq> drop_bit 1 invalid_tag"
proof -
  have "\<not> bit (drop_bit log2 a) 61"
    using log2_bounds by (auto simp: bit_drop_bit_eq dest: bit_imp_le_length)
  moreover have "bit invalid_tag 61" "bit (drop_bit 1 invalid_tag) 61" by simp_all
  ultimately show "drop_bit log2 a \<noteq> invalid_tag" "drop_bit log2 a \<noteq> drop_bit 1 invalid_tag"
    by metis+
qed

lemma invalidate_ok:
  "data_line_ok log2 rd wr (invalidate l)" "insn_line_ok log2 ex (invalidate l)"
  using idx_small [symmetric] by (auto simp: data_line_ok_def insn_line_ok_def invalidate_def)

lemma read_only_ok: "data_line_ok log2 rd wr l \<Longrightarrow> data_line_ok log2 rd wr (l\<lparr> line_tag := line_tag l OR 1 \<rparr>)"
proof -
  have "drop_bit 1 (line_tag l OR 1) = drop_bit 1 (line_tag l)"
    by (rule bit_word_eqI) (auto simp: bit_simps)
  moreover assume "data_line_ok log2 rd wr l"
  ultimately show ?thesis by (simp add: data_line_ok_def bit_simps)
qed

lemma tag_idx: "drop_bit 1 (push_bit 1 (drop_bit log2 (a :: u64)) OR t) = drop_bit log2 a" if "t = 0 \<or> t = 1"
proof (rule bit_word_eqI)
  fix n
  have "bit a (log2 + n) \<Longrightarrow> Suc n < 64"
    using log2_bounds bit_imp_le_length [of a "log2 + n"] by simp
  then show "bit (drop_bit 1 (push_bit 1 (drop_bit log2 a) OR t)) n = bit (drop_bit log2 a) n"
    using that by (auto simp: bit_simps simp del: push_bit_Suc)
qed

lemma inserted_ok:
  assumes "if w then wr v = Some p else rd v = Some p"
  shows "data_line_ok log2 rd wr
    \<lparr> line_tag = push_bit 1 (drop_bit log2 v) OR (if w then 0 else 1), line_paddr = p XOR v \<rparr>"
proof -
  have t: "drop_bit 1 (push_bit 1 (drop_bit log2 v) OR (if w then 0 else 1)) = drop_bit log2 v"
    by (rule tag_idx) simp
  have b: "bit (push_bit 1 (drop_bit log2 v) OR (if w then 0 else 1)) 0 \<longleftrightarrow> \<not> w"
    by (simp add: bit_simps del: push_bit_Suc)
  have r: "rd v = Some p" using assms wr_rd by (simp split: if_splits)
  show ?thesis
    unfolding data_line_ok_def CacheLine.simps t b xor.assoc
    using assms rd_page [OF r same_line_same_page] wr_page [OF _ same_line_same_page] by simp
qed

lemma inserted_insn_ok:
  assumes "ex v = Some p"
  shows "insn_line_ok log2 ex \<lparr> line_tag = drop_bit log2 v, line_paddr = p XOR v \<rparr>"
  unfolding insn_line_ok_def CacheLine.simps xor.assoc
  using ex_page [OF assms same_line_same_page] by simp

end

section \<open>Interpretation on the interpreter's translation\<close>

lemma log2_bounds: "3 \<le> cache_line_size_log2 mm" "cache_line_size_log2 mm \<le> 12"
  by (cases mm; simp)+

lemma translate_vaddr_state:
  "translate_vaddr env m addr access ctx = Ok pa c \<Longrightarrow> c = ctx"
  by (auto simp: translate_vaddr_def Let_def split: if_splits option.splits)

lemma xlate_Some: "xlate env m access ctx addr = Some pa \<longleftrightarrow> translate_vaddr env m addr access ctx = Ok pa ctx"
  using translate_vaddr_state by (fastforce simp: xlate_def split: res.splits)

lemma and_page_offset: "(x :: u64) AND 4095 = take_bit 12 x"
  by (rule word64_eqI; simp add: bit_simps)

lemma xlate_page:
  assumes "xlate env m access ctx a = Some p" "drop_bit 12 a = drop_bit 12 b"
  shows "xlate env m access ctx b = Some (p XOR a XOR b)"
proof -
  have hi: "bit a n = bit b n" if "\<not> n < 12" for n
  proof -
    have "bit (drop_bit 12 a) (n - 12) = bit (drop_bit 12 b) (n - 12)" by (simp only: assms(2))
    then show ?thesis using that by (simp add: bit_drop_bit_eq)
  qed
  have "push_bit 12 x OR (b AND 4095) = (push_bit 12 x OR (a AND 4095)) XOR a XOR b" for x :: u64
    unfolding and_page_offset by (rule bit_word_eqI) (auto simp: bit_simps hi)
  then show ?thesis
    using assms by (auto simp: xlate_Some translate_vaddr_def Let_def split: if_splits option.splits)
qed

lemma xlate_write_read:
  assumes "xlate env m Write ctx a = Some p"
  shows "xlate env m Read ctx a = Some p"
  using assms write_permits [of "satp ctx" a "read_memory env m"]
  by (auto simp: xlate_Some translate_vaddr_def effective_prv_def Let_def split: if_splits option.splits)

interpretation l0: line_translation "cache_line_size_log2 (memory_model env)"
  "xlate env m Read ctx" "xlate env m Write ctx" "xlate env m Execute ctx" for env m ctx
  by unfold_locales (auto intro: log2_bounds xlate_page xlate_write_read)

section \<open>Coherence\<close>

lemma flush_local_simps [simp]:
  "line (shared (flush_local ctx)) i = invalidate (line (shared ctx) i)"
  "i_line (shared (flush_local ctx)) i = invalidate (i_line (shared ctx) i)"
  "satp (flush_local ctx) = satp ctx" "prv (flush_local ctx) = prv ctx"
  "mstatus (flush_local ctx) = mstatus ctx"
  by (simp_all add: flush_local_def on_shared_def clear_local_cache_def clear_local_icache_def)

lemma l0_coherentI:
  assumes "\<And>i. data_line_ok (cache_line_size_log2 (memory_model env)) (xlate env m Read ctx)
      (xlate env m Write ctx) (line (shared ctx) i)"
    and "\<And>i. insn_line_ok (cache_line_size_log2 (memory_model env)) (xlate env m Execute ctx)
      (i_line (shared ctx) i)"
  shows "l0_coherent env m ctx"
  using assms by (simp add: l0_coherent_def)

lemma l0_coherent_flush: "l0_coherent env m (flush_local ctx)"
  by (rule l0_coherentI) (simp_all add: l0.invalidate_ok)

lemma status_bits:
  assumes "x AND 0xC0000 = y AND (0xC0000 :: u64)"
  shows "bit x 18 = bit y 18" "bit x 19 = bit y 19"
proof -
  have "bit (x AND 0xC0000) n = bit (y AND 0xC0000) n" for n by (simp only: assms)
  from this [of 18] this [of 19] show "bit x 18 = bit y 18" "bit x 19 = bit y 19"
    by (simp_all add: bit_simps)
qed

lemma xlate_cong:
  assumes "same_translation c c'"
  shows "xlate env m access c = xlate env m access c'"
proof -
  have e: "effective_prv access c = effective_prv access c'"
    using assms by (cases access) (auto simp: same_translation_def effective_prv_def)
  have p: "check_permission pte access p (mstatus c) = check_permission pte access p (mstatus c')" for pte p
    using assms status_bits [of "mstatus c" "mstatus c'"]
    by (simp add: check_permission_permitted same_translation_def)
  show ?thesis
    using assms e by (auto simp: xlate_def translate_vaddr_def Let_def same_translation_def p fun_eq_iff
        split: option.splits)
qed

lemma l0_coherent_cong:
  assumes "l0_coherent env m c" "same_translation c c'"
    "line (shared c') = line (shared c)" "i_line (shared c') = i_line (shared c)"
  shows "l0_coherent env m c'"
  using assms(1,3,4) xlate_cong [OF assms(2)] by (simp add: l0_coherent_def)

lemma l0_coherent_insert_data:
  assumes "l0_coherent env m ctx"
    and "xlate env m (if w then Write else Read) ctx v = Some p"
  shows "l0_coherent env m (insert_data_cache_line env v p w ctx)"
proof -
  let ?c = "insert_data_cache_line env v p w ctx"
  have "same_translation ctx ?c"
    by (simp add: same_translation_def effective_prv_def insert_data_cache_line_def on_shared_def Let_def)
  note x = xlate_cong [OF this, symmetric]
  show ?thesis
  proof (rule l0_coherentI)
    fix i
    show "data_line_ok (cache_line_size_log2 (memory_model env)) (xlate env m Read ?c)
      (xlate env m Write ?c) (line (shared ?c) i)"
      unfolding x unfolding insert_data_cache_line_def Let_def on_shared_def
      using assms l0.inserted_ok [of w env m ctx v p]
      by (simp add: l0_coherent_def split: if_splits)
    show "insn_line_ok (cache_line_size_log2 (memory_model env)) (xlate env m Execute ?c)
      (i_line (shared ?c) i)"
      unfolding x unfolding insert_data_cache_line_def Let_def on_shared_def
      using assms by (simp add: l0_coherent_def)
  qed
qed

lemma l0_coherent_insert_insn:
  assumes "l0_coherent env m ctx" and "xlate env m Execute ctx v = Some p"
  shows "l0_coherent env m (insert_instruction_cache_line env v p ctx)"
proof -
  let ?c = "insert_instruction_cache_line env v p ctx"
  have "same_translation ctx ?c"
    by (simp add: same_translation_def effective_prv_def insert_instruction_cache_line_def on_shared_def Let_def)
  note x = xlate_cong [OF this, symmetric]
  show ?thesis
  proof (rule l0_coherentI)
    fix i
    show "data_line_ok (cache_line_size_log2 (memory_model env)) (xlate env m Read ?c)
      (xlate env m Write ?c) (line (shared ?c) i)"
      unfolding x unfolding insert_instruction_cache_line_def Let_def on_shared_def
      using assms by (simp add: l0_coherent_def)
    show "insn_line_ok (cache_line_size_log2 (memory_model env)) (xlate env m Execute ?c)
      (i_line (shared ?c) i)"
      unfolding x unfolding insert_instruction_cache_line_def Let_def on_shared_def
      using assms l0.inserted_insn_ok [OF assms(2)] by (simp add: l0_coherent_def)
  qed
qed

lemma l0_coherent_invalid:
  assumes "\<And>i. line_tag (line (shared ctx) i) = invalid_tag" "\<And>i. line_tag (i_line (shared ctx) i) = invalid_tag"
  shows "l0_coherent env m ctx"
proof -
  have "invalidate (line (shared ctx) i) = line (shared ctx) i" "invalidate (i_line (shared ctx) i) = i_line (shared ctx) i" for i
    using assms by (simp_all add: invalidate_def)
  then show ?thesis using l0.invalidate_ok by (intro l0_coherentI) metis+
qed

lemma invalidate_tag [simp]: "line_tag (invalidate l) = invalid_tag"
  by (simp add: invalidate_def)

lemma status_effective:
  "effective_prv Read c =
    (if prv c = 3 \<and> bit (mstatus c) 17
     then (if bit (mstatus c) 11 then 1 else 0) OR (if bit (mstatus c) 12 then 2 else 0) else prv c)"
proof -
  have "mstatus c AND 0x20000 \<noteq> 0 \<longleftrightarrow> bit (mstatus c) 17"
    using and_pow2_eq_0 [of "mstatus c" 17] by simp
  moreover have "rust_shr (mstatus c) 11 AND 3
      = (if bit (mstatus c) 11 then 1 else 0) OR (if bit (mstatus c) 12 then 2 else 0)"
    by (rule word64_eqI; simp add: rust_shr_def bit_simps)
  ultimately show ?thesis by (simp add: effective_prv_def)
qed

lemma and_status_bits:
  assumes "bit x 18 = bit y 18" "bit x 19 = bit y 19"
  shows "x AND 0xC0000 = y AND (0xC0000 :: u64)"
  using assms by (intro word64_eqI; simp add: bit_simps)

lemma same_translationI:
  assumes "satp c' = satp c" "prv c' = prv c"
    and "bit (mstatus c') 18 = bit (mstatus c) 18" "bit (mstatus c') 19 = bit (mstatus c) 19"
    and "prv c = 3 \<Longrightarrow> bit (mstatus c') 17 = bit (mstatus c) 17"
    and "prv c = 3 \<Longrightarrow> bit (mstatus c) 17 \<Longrightarrow>
      bit (mstatus c') 11 = bit (mstatus c) 11 \<and> bit (mstatus c') 12 = bit (mstatus c) 12"
  shows "same_translation c c'"
  unfolding same_translation_def status_effective
  using assms and_status_bits [of "mstatus c" "mstatus c'"] by auto

lemma l0_coherent_update:
  assumes "l0_coherent env m c" "satp c' = satp c" "prv c' = prv c"
    and "bit (mstatus c') 18 = bit (mstatus c) 18" "bit (mstatus c') 19 = bit (mstatus c) 19"
    and "prv c = 3 \<Longrightarrow> bit (mstatus c') 17 = bit (mstatus c) 17"
    and "prv c = 3 \<Longrightarrow> bit (mstatus c) 17 \<Longrightarrow>
      bit (mstatus c') 11 = bit (mstatus c) 11 \<and> bit (mstatus c') 12 = bit (mstatus c) 12"
    and "line (shared c') = line (shared c)" "i_line (shared c') = i_line (shared c)"
  shows "l0_coherent env m c'"
  using assms by (intro l0_coherent_cong [OF assms(1)] same_translationI) auto

section \<open>Traps, returns and CSR writes\<close>

lemmas shared_defs = on_shared_def alert_def fire_alarm_def alert_if_pending_def
  recheck_interrupt_def assert_irq_def deassert_irq_def set_trap_def Let_def

lemma trap_coherent:
  assumes "l0_coherent env m ctx" "prv_ok ctx" "\<not> mprv_active ctx" "trap env ctx = Some c"
  shows "l0_coherent env m c"
proof (cases "prv ctx = prv c")
  case True
  then show ?thesis
    using assms(2-4)
    by (intro l0_coherent_update [OF assms(1)])
      (auto simp: trap_def Let_def prv_ok_def mprv_active_def bit_simps split: if_splits)
next
  case False
  then show ?thesis
    using assms(2-4)
    by (intro l0_coherent_invalid)
      (auto simp: trap_def Let_def prv_ok_def split: if_splits)
qed

lemma alert_if_pending_simps [simp]:
  "line (shared (alert_if_pending c)) = line (shared c)"
  "i_line (shared (alert_if_pending c)) = i_line (shared c)"
  "satp (alert_if_pending c) = satp c" "prv (alert_if_pending c) = prv c"
  "mstatus (alert_if_pending c) = mstatus c"
  by (simp_all add: alert_if_pending_def on_shared_def alert_def fire_alarm_def)

lemma mret_coherent:
  assumes "l0_coherent env m ctx" "prv ctx = 3" "\<not> mprv_active ctx"
  shows "keeps (step_mret ctx) (l0_coherent env m)"
proof (cases "drop_bit 11 (mstatus ctx AND 0x1800) = 3")
  case True
  then show ?thesis
    using assms(2,3) unfolding step_mret_def Let_def
    by simp (rule l0_coherent_update [OF assms(1)]; simp add: mprv_active_def bit_simps)
next
  case False
  then show ?thesis
    unfolding step_mret_def Let_def by (auto intro!: l0_coherent_invalid)
qed

lemma sret_coherent:
  assumes "l0_coherent env m ctx" "prv ctx = 0 \<or> prv ctx = 1"
    and "prv ctx = 0 \<Longrightarrow> mstatus ctx AND 0x100 = 0"
  shows "keeps (step_sret ctx) (l0_coherent env m)"
proof (cases "mstatus ctx AND 0x100 = 0")
  case True
  then show ?thesis
    unfolding step_sret_def Let_def by (auto intro!: l0_coherent_invalid)
next
  case False
  then have "prv ctx = 1" using assms(2,3) by auto
  then show ?thesis
    unfolding step_sret_def Let_def using False
    by simp (intro conjI impI; rule l0_coherent_update [OF assms(1)]; simp add: bit_simps)
qed

lemma write_status_coherent:
  assumes "l0_coherent env m ctx" "wr = 0xC6122 \<and> fl = 0xC0000 \<or> wr = 0x7E79AA \<and> fl = 0xE1800"
  shows "l0_coherent env m (write_status wr fl value ctx)"
proof -
  define new where "new = (mstatus ctx AND NOT wr) OR (value AND wr)"
  show ?thesis
  proof (cases "mstatus ctx AND fl = new AND fl")
    case True
    then have b: "bit (mstatus ctx AND fl) n = bit (new AND fl) n" for n by simp
    have lo: "wr = 0xC6122 \<Longrightarrow> bit new 11 = bit (mstatus ctx) 11"
      "wr = 0xC6122 \<Longrightarrow> bit new 12 = bit (mstatus ctx) 12"
      "wr = 0xC6122 \<Longrightarrow> bit new 17 = bit (mstatus ctx) 17"
      by (simp_all add: new_def bit_simps)
    have bits: "bit new n = bit (mstatus ctx) n" if "n \<in> {11, 12, 17, 18, 19}" for n
      using that assms(2) lo b [of n] by (auto simp: bit_simps)
    show ?thesis
      unfolding write_status_def Let_def new_def [symmetric]
      by (simp add: True) (rule l0_coherent_update [OF assms(1)]; simp add: bits)
  next
    case False
    then show ?thesis
      unfolding write_status_def Let_def new_def [symmetric] by (simp add: l0_coherent_flush)
  qed
qed

lemma test_and_set_fs_coherent:
  "l0_coherent env m ctx \<Longrightarrow> keeps (test_and_set_fs env' ctx) (l0_coherent env m)"
  unfolding test_and_set_fs_def
  by (auto simp: set_trap_def bit_simps elim: l0_coherent_update)

lemma other_fields_coherent:
  "l0_coherent env m ctx \<Longrightarrow> l0_coherent env m (set_fflags value ctx)"
  "l0_coherent env m ctx \<Longrightarrow> l0_coherent env m (set_frm value ctx)"
  "l0_coherent env m ctx \<Longrightarrow> l0_coherent env m (set_trap x y ctx)"
  "l0_coherent env m ctx \<Longrightarrow> l0_coherent env m (recheck_interrupt ctx)"
  "l0_coherent env m ctx \<Longrightarrow> l0_coherent env m (alert_if_pending ctx)"
  "l0_coherent env m ctx \<Longrightarrow> l0_coherent env m (on_shared (assert_irq msk) ctx)"
  "l0_coherent env m ctx \<Longrightarrow> l0_coherent env m (on_shared (deassert_irq msk) ctx)"
  by (erule l0_coherent_update; simp add: set_fflags_def set_frm_def shared_defs)+

lemma unrelated_updates_coherent:
  "l0_coherent env m ctx \<Longrightarrow> l0_coherent env m (ctx\<lparr> mie := x \<rparr>)"
  "l0_coherent env m ctx \<Longrightarrow> l0_coherent env m (ctx\<lparr> mideleg := x \<rparr>)"
  "l0_coherent env m ctx \<Longrightarrow> l0_coherent env m (ctx\<lparr> medeleg := x \<rparr>)"
  "l0_coherent env m ctx \<Longrightarrow> l0_coherent env m (ctx\<lparr> stvec := x \<rparr>)"
  "l0_coherent env m ctx \<Longrightarrow> l0_coherent env m (ctx\<lparr> scounteren := x \<rparr>)"
  "l0_coherent env m ctx \<Longrightarrow> l0_coherent env m (ctx\<lparr> sscratch := x \<rparr>)"
  "l0_coherent env m ctx \<Longrightarrow> l0_coherent env m (ctx\<lparr> sepc := x \<rparr>)"
  "l0_coherent env m ctx \<Longrightarrow> l0_coherent env m (ctx\<lparr> scause := x \<rparr>)"
  "l0_coherent env m ctx \<Longrightarrow> l0_coherent env m (ctx\<lparr> stval := x \<rparr>)"
  "l0_coherent env m ctx \<Longrightarrow> l0_coherent env m (ctx\<lparr> mtvec := x \<rparr>)"
  "l0_coherent env m ctx \<Longrightarrow> l0_coherent env m (ctx\<lparr> mcounteren := x \<rparr>)"
  "l0_coherent env m ctx \<Longrightarrow> l0_coherent env m (ctx\<lparr> mscratch := x \<rparr>)"
  "l0_coherent env m ctx \<Longrightarrow> l0_coherent env m (ctx\<lparr> mepc := x \<rparr>)"
  "l0_coherent env m ctx \<Longrightarrow> l0_coherent env m (ctx\<lparr> mcause := x \<rparr>)"
  "l0_coherent env m ctx \<Longrightarrow> l0_coherent env m (ctx\<lparr> mtval := x \<rparr>)"
  "l0_coherent env m ctx \<Longrightarrow> l0_coherent env m (ctx\<lparr> instret := x \<rparr>)"
  by (erule l0_coherent_update; simp)+

lemma keeps_Ok: "P s \<Longrightarrow> keeps (Ok v s) P" and keeps_Err: "P s \<Longrightarrow> keeps (Err s) P"
  by simp_all

lemma write_csr_ctx_coherent:
  assumes "l0_coherent env m ctx"
  shows "keeps (write_csr_ctx env' csr value ctx) (l0_coherent env m)"
  unfolding write_csr_ctx_def
  by (intro keeps_if keeps_and_then test_and_set_fs_coherent keeps_Ok keeps_Err assms
      write_status_coherent other_fields_coherent unrelated_updates_coherent l0_coherent_flush;
      simp add: assms unrelated_updates_coherent other_fields_coherent)

section \<open>Cached and uncached translation\<close>

lemma put_hart_simps [simp]:
  "ctxs (put_hart h c sys) h = c" "mem (put_hart h c sys) = mem sys"
  "code_prot (put_hart h c sys) = code_prot sys" "icaches (put_hart h c sys) = icaches sys"
  by (simp_all add: put_hart_def)

lemma icache_invalidate_harts:
  "mem (icache_invalidate env a b sys) = mem sys"
  "line (shared (ctxs (icache_invalidate env a b sys) i)) = line (shared (ctxs sys i))"
  "i_line (shared (ctxs (icache_invalidate env a b sys) i)) = i_line (shared (ctxs sys i))"
  "satp (ctxs (icache_invalidate env a b sys) i) = satp (ctxs sys i)"
  "prv (ctxs (icache_invalidate env a b sys) i) = prv (ctxs sys i)"
  "mstatus (ctxs (icache_invalidate env a b sys) i) = mstatus (ctxs sys i)"
  by (simp_all add: icache_invalidate_def on_all_def run_on_def shared_defs)

lemma icache_invalidate_coherent:
  "l0_coherent env m (ctxs sys i) \<Longrightarrow> l0_coherent env m (ctxs (icache_invalidate env' a b sys) i)"
  by (erule l0_coherent_update) (simp_all add: icache_invalidate_harts)

lemma translate_cache_miss_spec:
  assumes "l0_coherent env (mem sys) (ctxs sys h)"
  shows "case translate_vaddr env (mem sys) addr (if w then Write else Read) (ctxs sys h) of
      Ok pa _ \<Rightarrow> (\<exists>sys'. translate_cache_miss env h addr w sys = Ok pa sys' \<and> mem sys' = mem sys \<and>
        l0_coherent env (mem sys) (ctxs sys' h))
    | Err c \<Rightarrow> translate_cache_miss env h addr w sys = Err (put_hart h c sys)
    | Panic \<Rightarrow> translate_cache_miss env h addr w sys = Panic"
proof (cases "translate_vaddr env (mem sys) addr (if w then Write else Read) (ctxs sys h)")
  case (Ok pa c)
  then have "xlate env (mem sys) (if w then Write else Read) (ctxs sys h) addr = Some pa" "c = ctxs sys h"
    using translate_vaddr_state by (auto simp: xlate_Some)
  with Ok assms show ?thesis
    using l0_coherent_insert_data [OF assms, of w addr pa]
    by (auto simp: translate_cache_miss_def data_access_def on_hart_def icache_invalidate_coherent
        icache_invalidate_harts)
qed (simp_all add: translate_cache_miss_def data_access_def on_hart_def)

lemma l0_coherent_hit:
  assumes "l0_coherent env m ctx"
  shows "drop_bit 1 (line_tag (line (shared ctx) i)) = drop_bit (cache_line_size_log2 (memory_model env)) addr
      \<Longrightarrow> translate_vaddr env m addr Read ctx = Ok (line_paddr (line (shared ctx) i) XOR addr) ctx"
    and "line_tag (line (shared ctx) i) = push_bit 1 (drop_bit (cache_line_size_log2 (memory_model env)) addr)
      \<Longrightarrow> translate_vaddr env m addr Write ctx = Ok (line_paddr (line (shared ctx) i) XOR addr) ctx"
    and "line_tag (i_line (shared ctx) i) = drop_bit (cache_line_size_log2 (memory_model env)) addr
      \<Longrightarrow> translate_vaddr env m addr Execute ctx = Ok (line_paddr (i_line (shared ctx) i) XOR addr) ctx"
proof -
  have d: "data_line_ok (cache_line_size_log2 (memory_model env)) (xlate env m Read ctx)
      (xlate env m Write ctx) (line (shared ctx) i)"
    and x: "insn_line_ok (cache_line_size_log2 (memory_model env)) (xlate env m Execute ctx)
      (i_line (shared ctx) i)"
    using assms by (simp_all add: l0_coherent_def)
  show "drop_bit 1 (line_tag (line (shared ctx) i)) = drop_bit (cache_line_size_log2 (memory_model env)) addr
      \<Longrightarrow> translate_vaddr env m addr Read ctx = Ok (line_paddr (line (shared ctx) i) XOR addr) ctx"
    using d by (simp add: data_line_ok_def flip: xlate_Some)
  show "line_tag (i_line (shared ctx) i) = drop_bit (cache_line_size_log2 (memory_model env)) addr
      \<Longrightarrow> translate_vaddr env m addr Execute ctx = Ok (line_paddr (i_line (shared ctx) i) XOR addr) ctx"
    using x by (simp add: insn_line_ok_def flip: xlate_Some)
  assume t: "line_tag (line (shared ctx) i) = push_bit 1 (drop_bit (cache_line_size_log2 (memory_model env)) addr)"
  have "drop_bit 1 (line_tag (line (shared ctx) i)) = drop_bit (cache_line_size_log2 (memory_model env)) addr"
    using l0.tag_idx [of 0 env addr] by (simp add: t)
  moreover have "\<not> bit (line_tag (line (shared ctx) i)) 0"
    unfolding t by (simp add: bit_simps del: push_bit_Suc)
  ultimately show "translate_vaddr env m addr Write ctx = Ok (line_paddr (line (shared ctx) i) XOR addr) ctx"
    using d by (simp add: data_line_ok_def flip: xlate_Some)
qed

lemma xlate_machine:
  "prv ctx = 3 \<Longrightarrow> \<not> bit (mstatus ctx) 17 \<Longrightarrow> xlate env m Read ctx a = Some a \<and> xlate env m Write ctx a = Some a \<and>
   xlate env m Execute ctx a = Some a"
  using status_effective [of ctx] by (auto simp: xlate_def translate_vaddr_def effective_prv_def)

lemma stale_coherent: "l0_coherent stale_env (\<lambda>_. 0) stale_ctx"
proof -
  let ?base = "(initial_context 0 True)\<lparr> prv := 3, satp := 0x8000000000000001, mstatus := 0x100 \<rparr>"
  have "l0_coherent stale_env (\<lambda>_. 0) ?base"
    by (rule l0_coherent_invalid) (simp_all add: initial_context_def new_shared_def default_line_def)
  then show ?thesis
    unfolding stale_ctx_def
    by (rule l0_coherent_insert_data) (simp add: xlate_machine initial_context_def)
qed

section \<open>Properties\<close>

text \<open>
  C9: the data cache is transparent for reads. If the L0 caches agree with the page tables, then
  \<open>translate_read\<close>, which looks in the L0 cache first, returns the physical address, or the fault,
  or the panic of the full translation, and the caches still agree afterwards.
\<close>

theorem translate_read_transparent:
  assumes "l0_coherent env (mem sys) (ctxs sys h)"
  shows "case translate_vaddr env (mem sys) addr Read (ctxs sys h) of
      Ok pa _ \<Rightarrow> (\<exists>sys'. translate_read env h addr sys = Ok pa sys' \<and> mem sys' = mem sys \<and>
        l0_coherent env (mem sys) (ctxs sys' h))
    | Err c \<Rightarrow> translate_read env h addr sys = Err (put_hart h c sys)
    | Panic \<Rightarrow> translate_read env h addr sys = Panic"
proof (cases "drop_bit 1 (line_tag (line (shared (ctxs sys h))
    (ucast (drop_bit (cache_line_size_log2 (memory_model env)) addr))))
    = drop_bit (cache_line_size_log2 (memory_model env)) addr")
  case True
  then show ?thesis
    unfolding translate_read_def Let_def l0_coherent_hit(1) [OF assms True] using assms by simp
next
  case False
  then have eq: "translate_read env h addr sys = translate_cache_miss env h addr False sys"
    by (simp add: translate_read_def)
  then show ?thesis
    unfolding eq using translate_cache_miss_spec [OF assms, of addr False, unfolded if_False] by (simp only:)
qed

theorem translate_read_transparent_witness:
  "case translate_vaddr stale_env (mem stale_sys) 4 Read (ctxs stale_sys 0) of
      Ok pa _ \<Rightarrow> (\<exists>sys'. translate_read stale_env 0 4 stale_sys = Ok pa sys' \<and> mem sys' = mem stale_sys \<and>
        l0_coherent stale_env (mem stale_sys) (ctxs sys' 0))
    | Err c \<Rightarrow> translate_read stale_env 0 4 stale_sys = Err (put_hart 0 c stale_sys)
    | Panic \<Rightarrow> translate_read stale_env 0 4 stale_sys = Panic"
  by (rule translate_read_transparent) (simp add: stale_sys_def stale_coherent)

text \<open>
  C10: the data cache is transparent for writes: a line that was filled by a read never lets a
  write through, and a hit on a writable line has the write permission of the page tables.
\<close>

theorem translate_write_transparent:
  assumes "l0_coherent env (mem sys) (ctxs sys h)"
  shows "case translate_vaddr env (mem sys) addr Write (ctxs sys h) of
      Ok pa _ \<Rightarrow> (\<exists>sys'. translate_write env h addr sys = Ok pa sys' \<and> mem sys' = mem sys \<and>
        l0_coherent env (mem sys) (ctxs sys' h))
    | Err c \<Rightarrow> translate_write env h addr sys = Err (put_hart h c sys)
    | Panic \<Rightarrow> translate_write env h addr sys = Panic"
proof (cases "line_tag (line (shared (ctxs sys h))
    (ucast (drop_bit (cache_line_size_log2 (memory_model env)) addr)))
    = push_bit 1 (drop_bit (cache_line_size_log2 (memory_model env)) addr)")
  case True
  then show ?thesis
    unfolding translate_write_def Let_def l0_coherent_hit(2) [OF assms True] using assms by simp
next
  case False
  then have eq: "translate_write env h addr sys = translate_cache_miss env h addr True sys"
    by (simp add: translate_write_def)
  show ?thesis
    unfolding eq by (rule translate_cache_miss_spec [OF assms, of addr True, unfolded if_True])
qed

theorem translate_write_transparent_witness:
  "case translate_vaddr stale_env (mem stale_sys) 4 Write (ctxs stale_sys 0) of
      Ok pa _ \<Rightarrow> (\<exists>sys'. translate_write stale_env 0 4 stale_sys = Ok pa sys' \<and> mem sys' = mem stale_sys \<and>
        l0_coherent stale_env (mem stale_sys) (ctxs sys' 0))
    | Err c \<Rightarrow> translate_write stale_env 0 4 stale_sys = Err (put_hart 0 c stale_sys)
    | Panic \<Rightarrow> translate_write stale_env 0 4 stale_sys = Panic"
  by (rule translate_write_transparent) (simp add: stale_sys_def stale_coherent)

text \<open>C11: the instruction cache is transparent for fetches.\<close>

theorem insn_translate_transparent:
  assumes "l0_coherent env m ctx"
  shows "case translate_vaddr env m addr Execute ctx of
      Ok pa _ \<Rightarrow> (\<exists>ctx'. insn_translate env m addr ctx = Ok pa ctx' \<and> l0_coherent env m ctx')
    | Err c \<Rightarrow> insn_translate env m addr ctx = Err c
    | Panic \<Rightarrow> insn_translate env m addr ctx = Panic"
proof (cases "translate_vaddr env m addr Execute ctx")
  case (Ok pa c)
  then have "xlate env m Execute ctx addr = Some pa" "c = ctx"
    using translate_vaddr_state by (auto simp: xlate_Some)
  with Ok show ?thesis
    using l0_coherent_insert_insn [OF assms] l0_coherent_hit(3) [OF assms] assms
    by (fastforce simp: insn_translate_def instruction_access_def Let_def)
qed (use l0_coherent_hit(3) [OF assms] in \<open>auto simp: insn_translate_def instruction_access_def Let_def\<close>)

theorem insn_translate_transparent_witness:
  "case translate_vaddr stale_env (\<lambda>_. 0) 4 Execute stale_ctx of
      Ok pa _ \<Rightarrow> (\<exists>ctx'. insn_translate stale_env (\<lambda>_. 0) 4 stale_ctx = Ok pa ctx' \<and>
        l0_coherent stale_env (\<lambda>_. 0) ctx')
    | Err c \<Rightarrow> insn_translate stale_env (\<lambda>_. 0) 4 stale_ctx = Err c
    | Panic \<Rightarrow> insn_translate stale_env (\<lambda>_. 0) 4 stale_ctx = Panic"
  by (rule insn_translate_transparent) (rule stale_coherent)

text \<open>
  C12: no trap and no trap return leaves a stale line behind: each flushes or does not change what
  translation depends on. The hypotheses are that \<open>MPRV\<close> is not in force and that \<open>sret\<close> is not
  executed in machine mode.
\<close>

theorem privilege_switch_coherent:
  assumes "l0_coherent env m ctx" "prv_ok ctx" "\<not> mprv_active ctx"
  shows "(case trap env ctx of None \<Rightarrow> True | Some c \<Rightarrow> l0_coherent env m c) \<and>
    (prv ctx = 3 \<longrightarrow> keeps (step_mret ctx) (l0_coherent env m)) \<and>
    (prv ctx = 1 \<longrightarrow> keeps (step_sret ctx) (l0_coherent env m))"
  using assms trap_coherent [OF assms] mret_coherent [OF assms(1)] sret_coherent [OF assms(1)]
  by (auto split: option.split)

theorem privilege_switch_coherent_witness:
  "(case trap stale_env stale_ctx of None \<Rightarrow> True | Some c \<Rightarrow> l0_coherent stale_env (\<lambda>_. 0) c) \<and>
    keeps (step_mret stale_ctx) (l0_coherent stale_env (\<lambda>_. 0))"
proof -
  have "prv stale_ctx = 3" "\<not> bit (mstatus stale_ctx) 17"
    by (simp_all add: stale_ctx_def insert_data_cache_line_def on_shared_def Let_def)
  then show ?thesis
    using privilege_switch_coherent [OF stale_coherent] by (simp add: prv_ok_def mprv_active_def)
qed

text \<open>
  C13: no write to a control register leaves a stale line behind, whatever the register and the
  value: a write that changes the address space or the bits of \<open>mstatus\<close> that translation reads
  flushes both caches.
\<close>

theorem write_csr_coherent:
  assumes "l0_coherent env (mem sys) (ctxs sys h)"
  shows "keeps (write_csr env h csr value sys) (\<lambda>sys'. l0_coherent env (mem sys') (ctxs sys' h))"
proof -
  have "l0_coherent env (mem sys) (on_shared shutdown_hart (ctxs sys h))"
    using assms by (rule l0_coherent_update) (simp_all add: shutdown_hart_def shared_defs)
  then show ?thesis
    using assms write_csr_ctx_coherent [OF assms, of env csr "value"]
    by (auto simp: write_csr_def shutdown_def on_all_def on_hart_def keeps_def split: res.splits)
qed

theorem write_csr_coherent_witness:
  "keeps (write_csr stale_env 0 Csr_Mstatus 0x20000 stale_sys)
    (\<lambda>sys'. l0_coherent stale_env (mem sys') (ctxs sys' 0))"
  by (rule write_csr_coherent) (simp add: stale_sys_def stale_coherent)

text \<open>
  Why \<open>sret\<close> in machine mode is excluded above. With \<open>SPP\<close> set, \<open>sret\<close> goes from machine to
  supervisor mode without a flush: there is a hart whose caches agree with the page tables before,
  and not after, so that an access the page tables forbid hits a line.
\<close>

lemma sret_from_machine_mode_stale:
  "\<exists>ctx'. l0_coherent stale_env (\<lambda>_. 0) stale_ctx \<and> step_sret stale_ctx = Ok () ctx' \<and>
    translate_vaddr stale_env (\<lambda>_. 0) 0 Write ctx' = Err (set_trap 15 0 ctx') \<and>
    \<not> l0_coherent stale_env (\<lambda>_. 0) ctx'"
proof -
  have walk: "walk_page s 0 (read_memory stale_env (\<lambda>_. 0)) = Some 0" for s
  proof -
    have z: "load_bytes n (\<lambda>_. 0) a = 0" for n a by (induction n arbitrary: a) simp_all
    show ?thesis
      by (simp add: walk_page_def upt_rec [of 0] read_memory_def stale_env_def z)
  qed
  obtain c where c: "step_sret stale_ctx = Ok () c"
    and f: "satp c = satp stale_ctx" "prv c = 1" "line (shared c) = line (shared stale_ctx)"
    by (simp add: step_sret_def Let_def stale_ctx_def insert_data_cache_line_def on_shared_def)
  have t: "translate_vaddr stale_env (\<lambda>_. 0) 0 Write c = Err (set_trap 15 0 c)"
    using f by (simp add: translate_vaddr_def effective_prv_def walk stale_ctx_def
        insert_data_cache_line_def on_shared_def Let_def check_permission_def fault_cause_def)
  have l: "line_tag (line (shared c) 0) = 0"
    by (simp add: f stale_ctx_def insert_data_cache_line_def on_shared_def Let_def)
  have "\<not> l0_coherent stale_env (\<lambda>_. 0) c"
    using l0_coherent_hit(2) [of stale_env _ c 0 0] t l by auto
  then show ?thesis using stale_coherent c t by blast
qed

end
