(* ===== verification/Softfp.thy ===== *)
theory Softfp
  imports Rust_Prelude
begin

text \<open>
  The software floating-point library, \<open>lib/softfp\<close>: \<open>fp.rs\<close> and the integer helpers of
  \<open>int.rs\<close>.

  \<^item> \<open>Fp<Desc>\<close> is generic in a descriptor: the widths of exponent and trailing significand are the
    record \<open>FpDesc\<close>, the holder integer is the word type \<open>'h\<close>, and where the double-width holder is
    used it is passed as \<open>'d itself\<close>. \<open>F32\<close> is \<open>F32Desc\<close> on 32-bit words, \<open>F64\<close> is \<open>F64Desc\<close> on
    64-bit words.
  \<^item> The rounding mode, a callback in the source, is an argument. The exception flags a call raises
    through the other callback are the second component of its result, combined with \<open>OR\<close>.
  \<^item> Exponents are \<open>i32\<close> values that stay below \<open>2 ^ 13\<close> in magnitude; they are integers here, and
    \<open>as_u32\<close> is the cast of one to a shift amount. \<^const>\<open>None\<close> is a panic.
\<close>

section \<open>Rounding modes, flags, classes\<close>

datatype (plugins only: code size) RoundingMode =
  TiesToEven | TowardZero | TowardNegative | TowardPositive | TiesToAway

definition rounding_mode_try_from :: "u32 \<Rightarrow> RoundingMode option" where
  "rounding_mode_try_from v =
    (if v = 0 then Some TiesToEven else if v = 1 then Some TowardZero
     else if v = 2 then Some TowardNegative else if v = 3 then Some TowardPositive
     else if v = 4 then Some TiesToAway else None)"

abbreviation INEXACT :: u32 where "INEXACT \<equiv> 1"
abbreviation UNDERFLOW :: u32 where "UNDERFLOW \<equiv> 2"
abbreviation OVERFLOW :: u32 where "OVERFLOW \<equiv> 4"
abbreviation DIVIDE_BY_ZERO :: u32 where "DIVIDE_BY_ZERO \<equiv> 8"
abbreviation INVALID_OPERATION :: u32 where "INVALID_OPERATION \<equiv> 16"

datatype (plugins only: code size) Class =
  NegativeInfinity | NegativeNormal | NegativeSubnormal | NegativeZero | PositiveZero
| PositiveSubnormal | PositiveNormal | PositiveInfinity | SignalingNan | QuietNan

definition class_try_from :: "nat \<Rightarrow> Class option" where
  "class_try_from v =
    (let cs = [NegativeInfinity, NegativeNormal, NegativeSubnormal, NegativeZero, PositiveZero,
       PositiveSubnormal, PositiveNormal, PositiveInfinity, SignalingNan, QuietNan]
     in if v \<ge> 10 then None else Some (cs ! v))"

definition class_num :: "Class \<Rightarrow> nat" where
  "class_num c = (case c of NegativeInfinity \<Rightarrow> 0 | NegativeNormal \<Rightarrow> 1 | NegativeSubnormal \<Rightarrow> 2
     | NegativeZero \<Rightarrow> 3 | PositiveZero \<Rightarrow> 4 | PositiveSubnormal \<Rightarrow> 5 | PositiveNormal \<Rightarrow> 6
     | PositiveInfinity \<Rightarrow> 7 | SignalingNan \<Rightarrow> 8 | QuietNan \<Rightarrow> 9)"

text \<open>\<open>core::cmp::Ordering\<close>\<close>

datatype (plugins only: code size) fp_ordering = Less | Equal | Greater

definition reverse_ordering :: "fp_ordering \<Rightarrow> fp_ordering" where
  "reverse_ordering c = (case c of Less \<Rightarrow> Greater | Equal \<Rightarrow> Equal | Greater \<Rightarrow> Less)"

section \<open>Formats\<close>

record FpDesc =
  EXPONENT_WIDTH :: nat
  SIGNIFICAND_WIDTH :: nat

definition F32Desc :: FpDesc where
  "F32Desc = \<lparr> EXPONENT_WIDTH = 8, SIGNIFICAND_WIDTH = 23 \<rparr>"

definition F64Desc :: FpDesc where
  "F64Desc = \<lparr> EXPONENT_WIDTH = 11, SIGNIFICAND_WIDTH = 52 \<rparr>"

definition INFINITY_BIASED_EXPONENT :: "FpDesc \<Rightarrow> u32" where
  "INFINITY_BIASED_EXPONENT d = push_bit (EXPONENT_WIDTH d) 1 - 1"

definition MAXIMUM_BIASED_EXPONENT :: "FpDesc \<Rightarrow> u32" where
  "MAXIMUM_BIASED_EXPONENT d = INFINITY_BIASED_EXPONENT d - 1"

definition EXPONENT_BIAS :: "FpDesc \<Rightarrow> int" where
  "EXPONENT_BIAS d = 2 ^ (EXPONENT_WIDTH d - 1) - 1"

definition MINIMUM_EXPONENT :: "FpDesc \<Rightarrow> int" where
  "MINIMUM_EXPONENT d = 1 - EXPONENT_BIAS d"

definition MAXIMUM_EXPONENT :: "FpDesc \<Rightarrow> int" where
  "MAXIMUM_EXPONENT d = uint (MAXIMUM_BIASED_EXPONENT d) - EXPONENT_BIAS d"

text \<open>An \<open>i32\<close> cast to \<open>u32\<close>.\<close>

definition as_u32 :: "int \<Rightarrow> nat" where
  "as_u32 i = nat (i mod 2 ^ 32)"

definition log2_floor :: "'a::len word \<Rightarrow> nat" where
  "log2_floor w = as_u32 (int LENGTH('a) - 1 - int (leading_zeros w))"

section \<open>Component accessors\<close>

definition fp_sign :: "FpDesc \<Rightarrow> 'h::len word \<Rightarrow> bool" where
  "fp_sign d v \<longleftrightarrow> drop_bit (EXPONENT_WIDTH d + SIGNIFICAND_WIDTH d) v \<noteq> 0"

definition set_sign :: "FpDesc \<Rightarrow> bool \<Rightarrow> 'h::len word \<Rightarrow> 'h word" where
  "set_sign d sg v =
    (let msk = push_bit (EXPONENT_WIDTH d + SIGNIFICAND_WIDTH d) 1 in
     if sg then v OR msk else v AND NOT msk)"

definition biased_exponent :: "FpDesc \<Rightarrow> 'h::len word \<Rightarrow> u32" where
  "biased_exponent d v =
    (let msk = push_bit (EXPONENT_WIDTH d) 1 - 1 in
     ucast (drop_bit (SIGNIFICAND_WIDTH d) v AND msk))"

definition set_biased_exponent :: "FpDesc \<Rightarrow> u32 \<Rightarrow> 'h::len word \<Rightarrow> 'h word" where
  "set_biased_exponent d e v =
    (let msk = push_bit (SIGNIFICAND_WIDTH d) (push_bit (EXPONENT_WIDTH d) 1 - 1) in
     (v AND NOT msk) OR (push_bit (SIGNIFICAND_WIDTH d) (ucast e) AND msk))"

definition trailing_significand :: "FpDesc \<Rightarrow> 'h::len word \<Rightarrow> 'h word" where
  "trailing_significand d v =
    (let msk = push_bit (SIGNIFICAND_WIDTH d) 1 - 1 in v AND msk)"

definition set_trailing_significand :: "FpDesc \<Rightarrow> 'h::len word \<Rightarrow> 'h word \<Rightarrow> 'h word" where
  "set_trailing_significand d t v =
    (let msk = push_bit (SIGNIFICAND_WIDTH d) 1 - 1 in (v AND NOT msk) OR (t AND msk))"

section \<open>Special values\<close>

definition quiet_nan :: "FpDesc \<Rightarrow> 'h::len word" where
  "quiet_nan d = set_trailing_significand d (push_bit (SIGNIFICAND_WIDTH d - 1) 1)
     (set_biased_exponent d (INFINITY_BIASED_EXPONENT d) 0)"

definition infinity :: "FpDesc \<Rightarrow> bool \<Rightarrow> 'h::len word" where
  "infinity d sg = set_biased_exponent d (INFINITY_BIASED_EXPONENT d) (set_sign d sg 0)"

definition fp_zero :: "FpDesc \<Rightarrow> bool \<Rightarrow> 'h::len word" where
  "fp_zero d sg = set_sign d sg 0"

section \<open>Classification\<close>

definition is_normal :: "FpDesc \<Rightarrow> 'h::len word \<Rightarrow> bool" where
  "is_normal d v \<longleftrightarrow> biased_exponent d v \<noteq> 0 \<and> biased_exponent d v \<noteq> INFINITY_BIASED_EXPONENT d"

definition is_finite :: "FpDesc \<Rightarrow> 'h::len word \<Rightarrow> bool" where
  "is_finite d v \<longleftrightarrow> biased_exponent d v \<noteq> INFINITY_BIASED_EXPONENT d"

definition is_zero :: "FpDesc \<Rightarrow> 'h::len word \<Rightarrow> bool" where
  "is_zero d v \<longleftrightarrow> biased_exponent d v = 0 \<and> trailing_significand d v = 0"

definition is_subnormal :: "FpDesc \<Rightarrow> 'h::len word \<Rightarrow> bool" where
  "is_subnormal d v \<longleftrightarrow> biased_exponent d v = 0 \<and> trailing_significand d v \<noteq> 0"

definition is_infinite :: "FpDesc \<Rightarrow> 'h::len word \<Rightarrow> bool" where
  "is_infinite d v \<longleftrightarrow>
     biased_exponent d v = INFINITY_BIASED_EXPONENT d \<and> trailing_significand d v = 0"

definition is_nan :: "FpDesc \<Rightarrow> 'h::len word \<Rightarrow> bool" where
  "is_nan d v \<longleftrightarrow>
     biased_exponent d v = INFINITY_BIASED_EXPONENT d \<and> trailing_significand d v \<noteq> 0"

definition is_signaling :: "FpDesc \<Rightarrow> 'h::len word \<Rightarrow> bool" where
  "is_signaling d v =
    (if biased_exponent d v \<noteq> INFINITY_BIASED_EXPONENT d then False
     else
       (let t = trailing_significand d v in
        if t = 0 then False else t AND push_bit (SIGNIFICAND_WIDTH d - 1) 1 = 0))"

definition classify :: "FpDesc \<Rightarrow> 'h::len word \<Rightarrow> Class option" where
  "classify d v =
    (let sg = fp_sign d v; e = biased_exponent d v; t = trailing_significand d v;
         of_positive = (\<lambda>c. class_try_from (if sg then 7 - class_num c else class_num c))
     in
     if e = 0 then of_positive (if t = 0 then PositiveZero else PositiveSubnormal)
     else if e = INFINITY_BIASED_EXPONENT d then
       (if t = 0 then of_positive PositiveInfinity
        else if t AND push_bit (SIGNIFICAND_WIDTH d - 1) 1 = 0 then Some SignalingNan
        else Some QuietNan)
     else of_positive PositiveNormal)"

section \<open>Shifting and rounding\<close>

definition right_shift :: "'a::len word \<Rightarrow> nat \<Rightarrow> 'a word" where
  "right_shift significand shift_amount =
    (let (val, residue) =
       (if shift_amount \<ge> LENGTH('a) then (0, significand)
        else (drop_bit shift_amount significand,
              significand AND (push_bit shift_amount 1 - 1)))
     in if residue \<noteq> 0 then val OR 1 else val)"

definition fp_normalize :: "FpDesc \<Rightarrow> int \<Rightarrow> 't::len word \<Rightarrow> int \<times> 'h::len word" where
  "fp_normalize d ex significand =
    (let width = int (log2_floor significand) - 2;
         width_diff = width - int (SIGNIFICAND_WIDTH d);
         ex = ex + width_diff
     in (ex, if width_diff \<le> 0 then rust_shl (ucast significand) (as_u32 (- width_diff))
             else ucast (right_shift significand (as_u32 width_diff))))"

definition round_significand :: "RoundingMode \<Rightarrow> bool \<Rightarrow> 'h::len word \<Rightarrow> bool \<times> 'h word" where
  "round_significand rmode sg significand =
    (if significand AND 3 \<noteq> 0 then
       (True, drop_bit 2 (significand + (case rmode of
            TiesToEven \<Rightarrow> (drop_bit 2 significand AND 1) + 1
          | TowardZero \<Rightarrow> 0
          | TowardNegative \<Rightarrow> if sg then 3 else 0
          | TowardPositive \<Rightarrow> if \<not> sg then 3 else 0
          | TiesToAway \<Rightarrow> 2)))
     else (False, drop_bit 2 significand))"

definition round_overflow :: "FpDesc \<Rightarrow> RoundingMode \<Rightarrow> bool \<Rightarrow> 'h::len word \<times> u32" where
  "round_overflow d rmode sg =
    (let v = infinity d sg in
     (if sg \<and> rmode = TowardPositive \<or> \<not> sg \<and> rmode = TowardNegative \<or> rmode = TowardZero
      then v - 1 else v, OVERFLOW OR INEXACT))"

definition fp_round :: "FpDesc \<Rightarrow> RoundingMode \<Rightarrow> bool \<Rightarrow> int \<Rightarrow> 'h::len word \<Rightarrow> 'h word \<times> u32" where
  "fp_round d rmode sg ex significand =
    (if ex > MAXIMUM_EXPONENT d then round_overflow d rmode sg
     else
       (let v = set_sign d sg 0;
            rounded = (if ex < MINIMUM_EXPONENT d
                       then right_shift significand (as_u32 (MINIMUM_EXPONENT d - ex))
                       else significand);
            (inexact, rounded) = round_significand rmode sg rounded;
            fl = (if inexact then INEXACT else 0);
            (ex, rounded) = (if inexact \<and> rounded = push_bit (SIGNIFICAND_WIDTH d + 1) 1
                             then (ex + 1, drop_bit 1 rounded) else (ex, rounded))
        in
        if ex < MINIMUM_EXPONENT d then
          (if rounded = push_bit (SIGNIFICAND_WIDTH d) 1 then
             (set_trailing_significand d 0 (set_biased_exponent d 1 v),
              if snd (round_significand rmode sg significand) \<noteq> push_bit (SIGNIFICAND_WIDTH d + 1) 1
              then fl OR UNDERFLOW else fl)
           else
             (set_trailing_significand d rounded (set_biased_exponent d 0 v),
              if inexact then fl OR UNDERFLOW else fl))
        else if ex > MAXIMUM_EXPONENT d then
          (let (r, fl') = round_overflow d rmode sg in (r, fl OR fl'))
        else
          (set_trailing_significand d rounded
             (set_biased_exponent d (of_int (ex + EXPONENT_BIAS d)) v), fl)))"

definition normalize_and_round ::
    "FpDesc \<Rightarrow> RoundingMode \<Rightarrow> bool \<Rightarrow> int \<Rightarrow> 't::len word \<Rightarrow> 'h::len word \<times> u32" where
  "normalize_and_round d rmode sg ex significand =
    (let (ex, final_significand) = fp_normalize d ex significand
     in fp_round d rmode sg ex final_significand)"

definition propagate_nan :: "FpDesc \<Rightarrow> 'h::len word \<Rightarrow> 'h word \<Rightarrow> 'h word \<times> u32" where
  "propagate_nan d a b =
    (quiet_nan d, if is_signaling d a \<or> is_signaling d b then INVALID_OPERATION else 0)"

definition cancellation_zero :: "FpDesc \<Rightarrow> RoundingMode \<Rightarrow> 'h::len word" where
  "cancellation_zero d rmode = fp_zero d (rmode = TowardNegative)"

definition get_normalized_significand :: "FpDesc \<Rightarrow> 'h::len word \<Rightarrow> (int \<times> 'h word) option" where
  "get_normalized_significand d v =
    (let be = biased_exponent d v; t = trailing_significand d v in
     if be = INFINITY_BIASED_EXPONENT d \<or> be = 0 \<and> t = 0 then None
     else if be = 0 then
       (let width_diff = SIGNIFICAND_WIDTH d - log2_floor t in
        Some (MINIMUM_EXPONENT d - int width_diff, rust_shl t (width_diff + 2)))
     else
       Some (uint be - EXPONENT_BIAS d, push_bit 2 (t OR push_bit (SIGNIFICAND_WIDTH d) 1)))"

definition get_significand :: "FpDesc \<Rightarrow> 'h::len word \<Rightarrow> (int \<times> 'h word) option" where
  "get_significand d v =
    (let be = biased_exponent d v; t = trailing_significand d v in
     if be = INFINITY_BIASED_EXPONENT d then None
     else if be = 0 then Some (MINIMUM_EXPONENT d, push_bit 2 t)
     else
       Some (uint be - EXPONENT_BIAS d, push_bit 2 (t OR push_bit (SIGNIFICAND_WIDTH d) 1)))"

section \<open>Comparison\<close>

definition total_order_magnitude :: "FpDesc \<Rightarrow> 'h::len word \<Rightarrow> 'h word \<Rightarrow> fp_ordering" where
  "total_order_magnitude d a b =
    (let a = set_sign d False a; b = set_sign d False b in
     if a < b then Less else if a = b then Equal else Greater)"

definition total_order :: "FpDesc \<Rightarrow> 'h::len word \<Rightarrow> 'h word \<Rightarrow> fp_ordering" where
  "total_order d a b =
    (if fp_sign d a = fp_sign d b then
       (let ret = total_order_magnitude d a b in
        if fp_sign d a then reverse_ordering ret else ret)
     else if fp_sign d a then Less
     else Greater)"

definition min_max :: "FpDesc \<Rightarrow> 'h::len word \<Rightarrow> 'h word \<Rightarrow> ('h word \<times> 'h word) \<times> u32" where
  "min_max d a b =
    (if is_nan d a \<or> is_nan d b then
       (if is_signaling d a \<or> is_signaling d b then
          ((quiet_nan d, quiet_nan d), INVALID_OPERATION)
        else if is_nan d a then
          (if is_nan d b then ((quiet_nan d, quiet_nan d), 0) else ((b, b), 0))
        else ((a, a), 0))
     else if total_order d a b = Less then ((a, b), 0) else ((b, a), 0))"

definition fp_min :: "FpDesc \<Rightarrow> 'h::len word \<Rightarrow> 'h word \<Rightarrow> 'h word \<times> u32" where
  "fp_min d a b = (let (r, fl) = min_max d a b in (fst r, fl))"

definition fp_max :: "FpDesc \<Rightarrow> 'h::len word \<Rightarrow> 'h word \<Rightarrow> 'h word \<times> u32" where
  "fp_max d a b = (let (r, fl) = min_max d a b in (snd r, fl))"

definition compare_quiet :: "FpDesc \<Rightarrow> 'h::len word \<Rightarrow> 'h word \<Rightarrow> fp_ordering option" where
  "compare_quiet d a b =
    (if is_nan d a \<or> is_nan d b then None
     else if is_zero d a \<and> is_zero d b then Some Equal
     else Some (total_order d a b))"

definition compare_signaling :: "FpDesc \<Rightarrow> 'h::len word \<Rightarrow> 'h word \<Rightarrow> fp_ordering option \<times> u32" where
  "compare_signaling d a b =
    (if is_nan d a \<or> is_nan d b then (None, INVALID_OPERATION)
     else if is_zero d a \<and> is_zero d b then (Some Equal, 0)
     else (Some (total_order d a b), 0))"

text \<open>The operators \<open>==\<close>, \<open><\<close> and \<open><=\<close> on \<open>Fp\<close>: \<open>PartialEq\<close> and \<open>PartialOrd\<close>.\<close>

definition fp_eq :: "FpDesc \<Rightarrow> 'h::len word \<Rightarrow> 'h word \<Rightarrow> bool" where
  "fp_eq d a b \<longleftrightarrow> compare_quiet d a b = Some Equal"

definition fp_lt :: "FpDesc \<Rightarrow> 'h::len word \<Rightarrow> 'h word \<Rightarrow> bool \<times> u32" where
  "fp_lt d a b = (let (r, fl) = compare_signaling d a b in (r = Some Less, fl))"

definition fp_le :: "FpDesc \<Rightarrow> 'h::len word \<Rightarrow> 'h word \<Rightarrow> bool \<times> u32" where
  "fp_le d a b = (let (r, fl) = compare_signaling d a b in (r = Some Less \<or> r = Some Equal, fl))"

section \<open>Sign operations\<close>

definition fp_abs :: "FpDesc \<Rightarrow> 'h::len word \<Rightarrow> 'h word" where
  "fp_abs d v = set_sign d False v"

definition negate :: "FpDesc \<Rightarrow> 'h::len word \<Rightarrow> 'h word" where
  "negate d v = set_sign d (\<not> fp_sign d v) v"

definition copy_sign :: "FpDesc \<Rightarrow> 'h::len word \<Rightarrow> 'h word \<Rightarrow> 'h word" where
  "copy_sign d v w = set_sign d (fp_sign d w) v"

definition copy_sign_negated :: "FpDesc \<Rightarrow> 'h::len word \<Rightarrow> 'h word \<Rightarrow> 'h word" where
  "copy_sign_negated d v w = set_sign d (\<not> fp_sign d w) v"

definition copy_sign_xored :: "FpDesc \<Rightarrow> 'h::len word \<Rightarrow> 'h word \<Rightarrow> 'h word" where
  "copy_sign_xored d v w = set_sign d (fp_sign d v \<noteq> fp_sign d w) v"

end
