(* ===== verification/Softfp_Arith.thy ===== *)
theory Softfp_Arith
  imports Softfp
begin

text \<open>
  Arithmetic and conversions of \<open>lib/softfp/src/fp.rs\<close>. A result is the pair of value and raised
  flags; \<^const>\<open>None\<close> is a panic of \<open>get_significand\<close> or \<open>get_normalized_significand\<close>, or a loop that
  does not end. The two digit-by-digit loops are \<open>partial_function (option)\<close>; that they end, and
  with the right digits, is proved in \<open>Softfp_Correct\<close>.
\<close>

section \<open>Addition and subtraction\<close>

definition add_magnitude :: "FpDesc \<Rightarrow> RoundingMode \<Rightarrow> 'h::len word \<Rightarrow> 'h word \<Rightarrow> ('h word \<times> u32) option" where
  "add_magnitude d rmode a b =
    (if is_infinite d a then Some (a, 0)
     else if biased_exponent d a = 0 then
       Some (set_sign d (fp_sign d a) (trailing_significand d a + trailing_significand d b), 0)
     else
       (case (get_significand d a, get_significand d b) of
          (Some (exponent_a, significand_a), Some (exponent_b, significand_b)) \<Rightarrow>
            (let significand_b = (if exponent_a \<noteq> exponent_b
                   then right_shift significand_b (as_u32 (exponent_a - exponent_b))
                   else significand_b);
                 significand_sum = significand_a + significand_b;
                 (exponent_a, significand_sum) =
                   (if significand_sum AND push_bit (SIGNIFICAND_WIDTH d + 3) 1 \<noteq> 0
                    then (exponent_a + 1, right_shift significand_sum 1)
                    else (exponent_a, significand_sum))
             in Some (fp_round d rmode (fp_sign d a) exponent_a significand_sum))
        | _ \<Rightarrow> None))"

definition subtract_magnitude :: "FpDesc \<Rightarrow> RoundingMode \<Rightarrow> 'h::len word \<Rightarrow> 'h word \<Rightarrow> ('h word \<times> u32) option" where
  "subtract_magnitude d rmode a b =
    (if is_infinite d a then
       Some (if is_infinite d b then (quiet_nan d, INVALID_OPERATION) else (a, 0))
     else
       (case (get_significand d a, get_significand d b) of
          (Some (exponent_a, significand_a), Some (exponent_b, significand_b)) \<Rightarrow>
            if exponent_a = exponent_b then
              (let significand_difference = significand_a - significand_b in
               if significand_difference = 0 then Some (cancellation_zero d rmode, 0)
               else Some (normalize_and_round d rmode (fp_sign d a) exponent_a significand_difference))
            else
              (let significand_a = push_bit 1 significand_a;
                   significand_b = push_bit 1 significand_b;
                   significand_b = right_shift significand_b (as_u32 (exponent_a - exponent_b));
                   significand_difference = significand_a - significand_b
               in Some (normalize_and_round d rmode (fp_sign d a) (exponent_a - 1)
                    significand_difference))
        | _ \<Rightarrow> None))"

definition fp_add :: "FpDesc \<Rightarrow> RoundingMode \<Rightarrow> 'h::len word \<Rightarrow> 'h word \<Rightarrow> ('h word \<times> u32) option" where
  "fp_add d rmode x y =
    (let (a, b) = (if total_order_magnitude d x y = Less then (y, x) else (x, y)) in
     if is_nan d a then Some (propagate_nan d a b)
     else if fp_sign d a = fp_sign d b then add_magnitude d rmode a b
     else subtract_magnitude d rmode a (negate d b))"

definition fp_sub :: "FpDesc \<Rightarrow> RoundingMode \<Rightarrow> 'h::len word \<Rightarrow> 'h word \<Rightarrow> ('h word \<times> u32) option" where
  "fp_sub d rmode x y = fp_add d rmode x (negate d y)"

section \<open>Multiplication\<close>

definition multiply :: "'d::len itself \<Rightarrow> FpDesc \<Rightarrow> RoundingMode \<Rightarrow> 'h::len word \<Rightarrow> 'h word \<Rightarrow> ('h word \<times> u32) option" where
  "multiply T d rmode x y =
    (let (a, b) = (if total_order_magnitude d x y = Less then (y, x) else (x, y)) in
     if is_nan d a then Some (propagate_nan d a b)
     else
       (let sg = (fp_sign d a \<noteq> fp_sign d b) in
        if is_infinite d a then
          Some (if is_zero d b then (quiet_nan d, INVALID_OPERATION) else (set_sign d sg a, 0))
        else if is_zero d b then Some (set_sign d sg b, 0)
        else
          (case (get_normalized_significand d a, get_normalized_significand d b) of
             (Some (exponent_a, significand_a), Some (exponent_b, significand_b)) \<Rightarrow>
               (let product_exponent = exponent_a + exponent_b - int (SIGNIFICAND_WIDTH d);
                    product = (ucast (drop_bit 2 significand_a) * ucast significand_b :: 'd word)
                in Some (normalize_and_round d rmode sg product_exponent product))
           | _ \<Rightarrow> None)))"

section \<open>Division\<close>

partial_function (option) divide_loop ::
    "'h::len word \<Rightarrow> 'h word \<Rightarrow> 'h word \<Rightarrow> 'h word \<Rightarrow> ('h word \<times> 'h word) option" where
  [code]: "divide_loop significand_b bt quo remainder =
    (if bt \<noteq> 1 then
       (let (remainder, quo) =
          (if remainder \<ge> significand_b then (remainder - significand_b, quo + bt)
           else (remainder, quo))
        in divide_loop significand_b (drop_bit 1 bt) quo (push_bit 1 remainder))
     else Some (quo, remainder))"

definition divide_finite :: "FpDesc \<Rightarrow> RoundingMode \<Rightarrow> bool \<Rightarrow> 'h::len word \<Rightarrow> 'h word \<Rightarrow> ('h word \<times> u32) option" where
  "divide_finite d rmode sg a b =
    (case (get_normalized_significand d a, get_normalized_significand d b) of
       (Some (exponent_a, significand_a), Some (exponent_b, significand_b)) \<Rightarrow>
         (let quotient_exponent = exponent_a - exponent_b;
              (significand_a, quotient_exponent) =
                (if significand_a < significand_b then (push_bit 1 significand_a, quotient_exponent - 1)
                 else (significand_a, quotient_exponent))
          in
          case divide_loop significand_b (push_bit (SIGNIFICAND_WIDTH d + 1) 1)
                 (push_bit (SIGNIFICAND_WIDTH d + 2) 1)
                 (push_bit 1 (significand_a - significand_b)) of
            None \<Rightarrow> None
          | Some (quo, remainder) \<Rightarrow>
              Some (fp_round d rmode sg quotient_exponent
                (if remainder \<noteq> 0 then quo OR 1 else quo)))
     | _ \<Rightarrow> None)"

definition fp_divide :: "FpDesc \<Rightarrow> RoundingMode \<Rightarrow> 'h::len word \<Rightarrow> 'h word \<Rightarrow> ('h word \<times> u32) option" where
  "fp_divide d rmode a b =
    (if is_nan d a \<or> is_nan d b then Some (propagate_nan d a b)
     else
       (let sg = (fp_sign d a \<noteq> fp_sign d b) in
        if is_infinite d a then
          Some (if is_infinite d b then (quiet_nan d, INVALID_OPERATION) else (infinity d sg, 0))
        else if is_infinite d b then Some (fp_zero d sg, 0)
        else if is_zero d a then
          Some (if is_zero d b then (quiet_nan d, INVALID_OPERATION) else (fp_zero d sg, 0))
        else if is_zero d b then Some (infinity d sg, DIVIDE_BY_ZERO)
        else divide_finite d rmode sg a b))"

section \<open>Square root\<close>

partial_function (option) sqrt_loop ::
    "'h::len word \<Rightarrow> 'h word \<Rightarrow> 'h word \<Rightarrow> ('h word \<times> 'h word) option" where
  [code]: "sqrt_loop half_bit res remainder =
    (if half_bit \<noteq> 0 then
       (let (remainder, res) =
          (if remainder \<ge> res + half_bit
           then (remainder - (res + half_bit), res + push_bit 1 half_bit)
           else (remainder, res))
        in sqrt_loop (drop_bit 1 half_bit) res (push_bit 1 remainder))
     else Some (res, remainder))"

definition sqrt_finite :: "FpDesc \<Rightarrow> RoundingMode \<Rightarrow> 'h::len word \<Rightarrow> ('h word \<times> u32) option" where
  "sqrt_finite d rmode v =
    (case get_normalized_significand d v of
       None \<Rightarrow> None
     | Some (ex, significand) \<Rightarrow>
         (let (ex, significand) =
            (if ex mod 2 \<noteq> 0 then (ex - 1, push_bit 1 significand) else (ex, significand))
          in
          case sqrt_loop (push_bit (SIGNIFICAND_WIDTH d) 1) (push_bit (SIGNIFICAND_WIDTH d + 2) 1)
                 (significand - push_bit (SIGNIFICAND_WIDTH d + 2) 1) of
            None \<Rightarrow> None
          | Some (res, remainder) \<Rightarrow>
              Some (fp_round d rmode False (ex div 2)
                (if remainder \<noteq> 0 then res OR 1 else res))))"

definition square_root :: "FpDesc \<Rightarrow> RoundingMode \<Rightarrow> 'h::len word \<Rightarrow> ('h word \<times> u32) option" where
  "square_root d rmode v =
    (if is_nan d v then
       Some (if is_signaling d v then (quiet_nan d, DIVIDE_BY_ZERO) else (quiet_nan d, 0))
     else if is_zero d v then Some (v, 0)
     else if fp_sign d v then Some (quiet_nan d, INVALID_OPERATION)
     else if is_infinite d v then Some (v, 0)
     else sqrt_finite d rmode v)"

section \<open>Fused multiply-add\<close>

definition fma_finite ::
    "'d::len itself \<Rightarrow> FpDesc \<Rightarrow> RoundingMode \<Rightarrow> bool \<Rightarrow> 'h::len word \<Rightarrow> 'h word \<Rightarrow> 'h word \<Rightarrow> ('h word \<times> u32) option" where
  "fma_finite T d rmode sign_product a b c =
    (case (get_normalized_significand d a, get_normalized_significand d b) of
       (Some (exponent_a, significand_a), Some (exponent_b, significand_b)) \<Rightarrow>
         (let product_exponent = exponent_a + exponent_b - int (SIGNIFICAND_WIDTH d);
              product = (ucast (drop_bit 2 significand_a) * ucast significand_b :: 'd word)
          in
          if is_zero d c then Some (normalize_and_round d rmode sign_product product_exponent product)
          else
            (case get_normalized_significand d c of
               None \<Rightarrow> None
             | Some (exponent_c, significand_c) \<Rightarrow>
               (let exponent_c = exponent_c - int (SIGNIFICAND_WIDTH d);
                    significand_c = push_bit (SIGNIFICAND_WIDTH d) (ucast significand_c :: 'd word);
                    (significand_c, product, product_exponent) =
                      (if exponent_c < product_exponent
                       then (right_shift significand_c (as_u32 (product_exponent - exponent_c)),
                             product, product_exponent)
                       else if exponent_c > product_exponent
                       then (significand_c, right_shift product (as_u32 (exponent_c - product_exponent)),
                             exponent_c)
                       else (significand_c, product, product_exponent))
                in
                if fp_sign d c = sign_product then
                  Some (normalize_and_round d rmode sign_product product_exponent
                    (product + significand_c))
                else if product = significand_c then Some (cancellation_zero d rmode, 0)
                else if product < significand_c then
                  Some (normalize_and_round d rmode (\<not> sign_product) product_exponent
                    (significand_c - product))
                else
                  Some (normalize_and_round d rmode sign_product product_exponent
                    (product - significand_c)))))
     | _ \<Rightarrow> None)"

definition fused_multiply_add ::
    "'d::len itself \<Rightarrow> FpDesc \<Rightarrow> RoundingMode \<Rightarrow> 'h::len word \<Rightarrow> 'h word \<Rightarrow> 'h word \<Rightarrow> ('h word \<times> u32) option" where
  "fused_multiply_add T d rmode x y c =
    (let (a, b) = (if total_order_magnitude d x y = Less then (y, x) else (x, y)) in
     if is_nan d a then
       (let (r, fl) = propagate_nan d a b; (r', fl') = propagate_nan d r c in Some (r', fl OR fl'))
     else
       (let sign_product = (fp_sign d a \<noteq> fp_sign d b) in
        if is_infinite d a then
          (if is_zero d b then Some (quiet_nan d, INVALID_OPERATION)
           else if is_nan d c then Some (propagate_nan d c c)
           else if is_infinite d c \<and> fp_sign d c \<noteq> sign_product then
             Some (quiet_nan d, INVALID_OPERATION)
           else Some (infinity d sign_product, 0))
        else if is_nan d c then Some (propagate_nan d c c)
        else if is_infinite d c then Some (c, 0)
        else if is_zero d b then
          Some (if is_zero d c then (cancellation_zero d rmode, 0) else (c, 0))
        else fma_finite T d rmode sign_product a b c))"

section \<open>Conversions\<close>

definition convert_from_int_with_sign ::
    "FpDesc \<Rightarrow> RoundingMode \<Rightarrow> bool \<Rightarrow> 't::len word \<Rightarrow> 'h::len word \<times> u32" where
  "convert_from_int_with_sign d rmode sg v =
    (if v = 0 then (fp_zero d False, 0)
     else normalize_and_round d rmode sg (int (SIGNIFICAND_WIDTH d) + 2) v)"

definition convert_from_uint :: "FpDesc \<Rightarrow> RoundingMode \<Rightarrow> 't::len word \<Rightarrow> 'h::len word \<times> u32" where
  "convert_from_uint d rmode v = convert_from_int_with_sign d rmode False v"

definition convert_from_sint :: "FpDesc \<Rightarrow> RoundingMode \<Rightarrow> 't::len word \<Rightarrow> 'h::len word \<times> u32" where
  "convert_from_sint d rmode v =
    (if drop_bit (LENGTH('t) - 1) v \<noteq> 0 then convert_from_int_with_sign d rmode True (NOT v + 1)
     else convert_from_int_with_sign d rmode False v)"

text \<open>\<open>TryInto::<T>::try_into(significand)\<close> succeeds if the value fits the target type.\<close>

definition convert_to_int ::
    "FpDesc \<Rightarrow> RoundingMode \<Rightarrow> 't::len word \<Rightarrow> 't word \<Rightarrow> 'h::len word \<Rightarrow> ((bool \<times> 't word) \<times> u32) option" where
  "convert_to_int d rmode positive_max negative_max v =
    (if is_nan d v then Some ((False, positive_max), INVALID_OPERATION)
     else
       (let sg = fp_sign d v; mx = (if sg then negative_max else positive_max) in
        if is_infinite d v then Some ((sg, mx), INVALID_OPERATION)
        else if is_zero d v then Some ((False, 0), 0)
        else
          (case get_normalized_significand d v of
             None \<Rightarrow> None
           | Some (ex, significand) \<Rightarrow>
             (let effective_exponent = ex - int (SIGNIFICAND_WIDTH d) in
              if effective_exponent < 0 then
                (let significand = right_shift significand (as_u32 (- effective_exponent));
                     (inexact, significand) = round_significand rmode sg significand
                 in
                 if significand = 0 then Some ((False, 0), INEXACT)
                 else if unat significand < 2 ^ LENGTH('t) \<and> (ucast significand :: 't word) \<le> mx then
                   Some ((sg, ucast significand), if inexact then INEXACT else 0)
                 else Some ((sg, mx), INVALID_OPERATION))
              else
                (let significand = drop_bit 2 significand;
                     remaining_bits = int LENGTH('t) - int (SIGNIFICAND_WIDTH d) + 1
                 in
                 if remaining_bits < 0 \<or> effective_exponent > remaining_bits then
                   Some ((sg, mx), INVALID_OPERATION)
                 else
                   (let r = rust_shl (ucast significand) (as_u32 effective_exponent) in
                    if r > mx then Some ((sg, mx), INVALID_OPERATION) else Some ((sg, r), 0)))))))"

definition convert_to_uint :: "FpDesc \<Rightarrow> RoundingMode \<Rightarrow> 'h::len word \<Rightarrow> ('t::len word \<times> u32) option" where
  "convert_to_uint d rmode v =
    (case convert_to_int d rmode (- 1) 0 v of
       None \<Rightarrow> None | Some ((_, r), fl) \<Rightarrow> Some (r, fl))"

definition convert_to_sint :: "FpDesc \<Rightarrow> RoundingMode \<Rightarrow> 'h::len word \<Rightarrow> ('t::len word \<times> u32) option" where
  "convert_to_sint d rmode v =
    (let mx = drop_bit 1 (- 1); mn = NOT mx in
     case convert_to_int d rmode mx mn v of
       None \<Rightarrow> None
     | Some ((sg, r), fl) \<Rightarrow> Some (if sg then NOT r + 1 else r, fl))"

definition convert_format :: "FpDesc \<Rightarrow> FpDesc \<Rightarrow> RoundingMode \<Rightarrow> 'h::len word \<Rightarrow> ('t::len word \<times> u32) option" where
  "convert_format d td rmode v =
    (if is_nan d v then
       Some (quiet_nan td, if is_signaling d v then INVALID_OPERATION else 0)
     else if is_infinite d v then Some (infinity td (fp_sign d v), 0)
     else if is_zero d v then Some (fp_zero td (fp_sign d v), 0)
     else
       (case get_normalized_significand d v of
          None \<Rightarrow> None
        | Some (ex, significand) \<Rightarrow>
            Some (normalize_and_round td rmode (fp_sign d v)
              (ex - int (SIGNIFICAND_WIDTH d) + int (SIGNIFICAND_WIDTH td)) significand)))"

end
