(* ===== verification/Softfp_Round.thy ===== *)
theory Softfp_Round
  imports Softfp_Arith
begin

text \<open>
  Correctness of the rounding and of the digit-by-digit algorithms of \<open>lib/softfp\<close>. The
  reference is rounding of an exact fraction, \<open>round_frac\<close>, on natural numbers. A significand
  whose last bit is sticky (\<open>sticky s num den\<close>: it holds the fraction to one bit beyond the rounding
  position, and in the last bit whether anything is left) rounds as the fraction itself does;
  right shifts, the division loop and the square-root loop are shown to produce such significands.
\<close>

section \<open>Reference\<close>

text \<open>\<open>num / den\<close> rounded to an integer; \<open>sg\<close> is the sign of the number whose magnitude it is.\<close>

definition round_frac :: "RoundingMode \<Rightarrow> bool \<Rightarrow> nat \<Rightarrow> nat \<Rightarrow> nat" where
  "round_frac rmode sg num den =
    (let q = num div den; r = num mod den in
     case rmode of
       TiesToEven \<Rightarrow> if 2 * r > den \<or> 2 * r = den \<and> odd q then q + 1 else q
     | TowardZero \<Rightarrow> q
     | TowardNegative \<Rightarrow> if sg \<and> r \<noteq> 0 then q + 1 else q
     | TowardPositive \<Rightarrow> if \<not> sg \<and> r \<noteq> 0 then q + 1 else q
     | TiesToAway \<Rightarrow> if 2 * r \<ge> den then q + 1 else q)"

definition sticky :: "nat \<Rightarrow> nat \<Rightarrow> nat \<Rightarrow> bool" where
  "sticky s num den \<longleftrightarrow>
    s = 2 * (2 * num div den) + (if 2 * num mod den = 0 then 0 else 1)"

text \<open>The integer square root, as the property that defines it.\<close>

definition is_isqrt :: "nat \<Rightarrow> nat \<Rightarrow> bool" where
  "is_isqrt n r \<longleftrightarrow> r ^ 2 \<le> n \<and> n < (r + 1) ^ 2"

section \<open>Rounding\<close>

lemma word_unat_eqI: "unat x = unat y \<Longrightarrow> x = y" for x y :: "'a::len word"
  by (simp add: word_unat_eq_iff)

lemma uint_eq: "uint (x :: 'a::len word) = int (unat x)"
  by simp

lemma unat_plus_small:
  "unat (x :: 'a::len word) + n < 2 ^ LENGTH('a) \<Longrightarrow> unat (x + of_nat n) = unat x + n"
  by (simp add: unat_plus_if_size word_size unat_of_nat take_bit_nat_eq_self)

lemma unat_and_3: "unat ((x :: 'a::len word) AND 3) = unat x mod 4" if "2 \<le> LENGTH('a)"
proof -
  have "x AND 3 = take_bit 2 x"
    using that by (simp add: take_bit_eq_mask mask_eq_exp_minus_1)
  then have "unat (x AND 3) = take_bit 2 (unat x)"
    by (simp only: unsigned_take_bit_eq)
  then show ?thesis by (simp add: take_bit_eq_mod)
qed

lemma unat_of_nat_small: "n < 2 ^ LENGTH('a) \<Longrightarrow> unat (of_nat n :: 'a::len word) = n"
  by (simp add: unat_of_nat take_bit_nat_eq_self)

lemma unat_push_1: "n < LENGTH('a) \<Longrightarrow> unat (push_bit n (1 :: 'a::len word)) = 2 ^ n"
  by (simp add: push_bit_eq_mult unat_pow2)

lemma unat_push: "unat (x :: 'a::len word) * 2 ^ n < 2 ^ LENGTH('a) \<Longrightarrow> unat (push_bit n x) = unat x * 2 ^ n"
  using unat_of_nat_small [of "unat x * 2 ^ n", where 'a = 'a] by (simp add: push_bit_eq_mult)

lemma unat_take: "unat (take_bit n (x :: 'a::len word)) = unat x mod 2 ^ n"
  unfolding unsigned_take_bit_eq by (rule take_bit_eq_mod)

lemma unat_dec: "0 < unat (x :: 'a::len word) \<Longrightarrow> unat (x - 1) = unat x - 1"
  by (simp add: unat_sub_if_size)

lemma unat_or_pow2:
  assumes "unat (x :: 'a::len word) < 2 ^ n" "n < LENGTH('a)"
  shows "unat (x OR push_bit n 1) = unat x + 2 ^ n"
proof -
  have "take_bit n x = x"
    by (rule word_unat_eqI) (use assms(1) in \<open>simp add: unat_take\<close>)
  then have nb: "\<not> bit x n" using bit_take_bit_iff [of n x n] by simp
  have "x AND push_bit n 1 = 0"
    by (rule bit_word_eqI) (use nb in \<open>auto simp: bit_simps\<close>)
  then have "x OR push_bit n 1 = x + push_bit n 1" by (simp only: disjunctive_add_eq_or)
  also have "\<dots> = x + of_nat (2 ^ n)" by (simp add: push_bit_eq_mult)
  also have "unat \<dots> = unat x + 2 ^ n"
  proof (rule unat_plus_small)
    have "(2 :: nat) ^ Suc n \<le> 2 ^ LENGTH('a)" using assms(2) by (intro power_increasing) simp_all
    then show "unat x + 2 ^ n < 2 ^ LENGTH('a)" using assms(1) by simp
  qed
  finally show ?thesis .
qed

lemma unat_ucast_small: "unat (x :: 'a::len word) < 2 ^ LENGTH('b) \<Longrightarrow> unat (ucast x :: 'b::len word) = unat x"
  by (simp add: unsigned_ucast_eq take_bit_nat_eq_self)

lemma unat_mod_two: "unat ((x :: 'a::len word) mod 2) = unat x mod 2"
proof -
  have "unat (take_bit 1 x) = take_bit 1 (unat x)" by (simp only: unsigned_take_bit_eq)
  then show ?thesis by (simp add: take_bit_eq_mod)
qed

lemma unat_drop: "unat (drop_bit n (x :: 'a::len word)) = unat x div 2 ^ n"
  unfolding unat_drop_bit_eq by (rule drop_bit_eq_div)

lemma round_frac_4:
  "round_frac rmode sg n 4 = (if n mod 4 = 0 then n div 4
     else (n + (case rmode of TiesToEven \<Rightarrow> n div 4 mod 2 + 1 | TowardZero \<Rightarrow> 0
       | TowardNegative \<Rightarrow> if sg then 3 else 0 | TowardPositive \<Rightarrow> if \<not> sg then 3 else 0
       | TiesToAway \<Rightarrow> 2)) div 4)"
proof -
  obtain q r where n: "n = 4 * q + r" "r < 4" by (metis mod_less_divisor mult_div_mod_eq zero_less_numeral)
  then have r: "r = 0 \<or> r = 1 \<or> r = 2 \<or> r = 3" by auto
  have "q mod 2 = 0 \<or> q mod 2 = 1" by auto
  with r show ?thesis unfolding n(1) round_frac_def Let_def
    by (cases rmode) (auto simp: odd_iff_mod_2_eq_one)
qed

lemma round_significand_spec:
  fixes x :: "'h::len word"
  assumes "2 < LENGTH('h)" "unat x + 4 \<le> 2 ^ LENGTH('h)"
  shows "fst (round_significand rmode sg x) \<longleftrightarrow> unat x mod 4 \<noteq> 0"
    and "unat (snd (round_significand rmode sg x)) = round_frac rmode sg (unat x) 4"
proof -
  have z: "x AND 3 = 0 \<longleftrightarrow> unat x mod 4 = 0"
    using assms(1) unat_and_3 [of x] by (metis less_imp_le_nat unat_eq_zero)
  then show "fst (round_significand rmode sg x) \<longleftrightarrow> unat x mod 4 \<noteq> 0"
    by (simp add: round_significand_def)
  define k :: nat where "k = (case rmode of TiesToEven \<Rightarrow> unat x div 4 mod 2 + 1 | TowardZero \<Rightarrow> 0
       | TowardNegative \<Rightarrow> if sg then 3 else 0 | TowardPositive \<Rightarrow> if \<not> sg then 3 else 0
       | TiesToAway \<Rightarrow> 2)"
  have "drop_bit 2 x AND 1 = of_nat (unat x div 4 mod 2)"
  proof (rule word_unat_eqI)
    have "(2 :: nat) \<le> 2 ^ LENGTH('h)" by (rule self_le_power) simp_all
    then have "unat x div 4 mod 2 < 2 ^ LENGTH('h)"
      using mod_less_divisor [of 2 "unat x div 4"] by linarith
    then show "unat (drop_bit 2 x AND 1) = unat (of_nat (unat x div 4 mod 2) :: 'h word)"
      by (simp only: and_one_eq unat_mod_two unat_drop) (simp add: unat_of_nat take_bit_eq_mod)
  qed
  then have k: "(case rmode of TiesToEven \<Rightarrow> (drop_bit 2 x AND 1) + 1 | TowardZero \<Rightarrow> 0
       | TowardNegative \<Rightarrow> if sg then 3 else 0 | TowardPositive \<Rightarrow> if \<not> sg then 3 else 0
       | TiesToAway \<Rightarrow> 2) = (of_nat k :: 'h word)"
    by (cases rmode) (simp_all add: k_def)
  have "k < 4" by (cases rmode) (simp_all add: k_def)
  then have "unat (x + of_nat k) = unat x + k"
    using assms(2) by (intro unat_plus_small) simp
  then show "unat (snd (round_significand rmode sg x)) = round_frac rmode sg (unat x) 4"
    using z by (simp only: round_significand_def k round_frac_4 k_def [symmetric])
      (simp add: unat_drop split: if_splits)
qed

lemma double_div_mod:
  fixes num den :: nat
  assumes "0 < den"
  shows "2 * (num mod den) < den \<and> 2 * num div den = 2 * (num div den) \<and>
      2 * num mod den = 2 * (num mod den) \<or>
    den \<le> 2 * (num mod den) \<and> 2 * num div den = 2 * (num div den) + 1 \<and>
      2 * num mod den = 2 * (num mod den) - den"
proof -
  define q r where "q = num div den" and "r = num mod den"
  have num: "num = q * den + r" and r: "r < den" using assms(1) by (simp_all add: q_def r_def)
  consider "2 * r < den" | "den \<le> 2 * r" by linarith
  then show ?thesis unfolding q_def [symmetric] r_def [symmetric]
  proof cases
    case 1
    have "2 * num = 2 * r + 2 * q * den" by (simp add: num)
    with 1 have "2 * num div den = 2 * q" "2 * num mod den = 2 * r"
      using assms(1) by (simp_all only: div_mult_self1 mod_mult_self1) simp_all
    with 1 show "2 * r < den \<and> 2 * num div den = 2 * q \<and> 2 * num mod den = 2 * r \<or>
      den \<le> 2 * r \<and> 2 * num div den = 2 * q + 1 \<and> 2 * num mod den = 2 * r - den" by simp
  next
    case 2
    then have "2 * num = (2 * r - den) + (2 * q + 1) * den" "2 * r - den < den"
      using r by (simp_all add: num add_mult_distrib)
    then have "2 * num div den = 2 * q + 1" "2 * num mod den = 2 * r - den"
      using assms(1) by (simp_all only: div_mult_self1 mod_mult_self1) simp_all
    with 2 show "2 * r < den \<and> 2 * num div den = 2 * q \<and> 2 * num mod den = 2 * r \<or>
      den \<le> 2 * r \<and> 2 * num div den = 2 * q + 1 \<and> 2 * num mod den = 2 * r - den" by simp
  qed
qed

lemma round_frac_ge: "num div den \<le> round_frac rmode sg num den"
  by (simp add: round_frac_def Let_def split: RoundingMode.split)

lemma round_frac_le:
  assumes "0 < den" "num \<le> k * den"
  shows "round_frac rmode sg num den \<le> k"
proof (cases "num = k * den")
  case True
  then show ?thesis using assms(1) by (simp add: round_frac_def Let_def split: RoundingMode.split)
next
  case False
  then have "num div den < k" using assms by (simp add: div_less_iff_less_mult)
  then show ?thesis by (simp add: round_frac_def Let_def split: RoundingMode.split)
qed

lemma round_frac_exact: "den dvd num \<Longrightarrow> 0 < den \<Longrightarrow> round_frac rmode sg num den = num div den"
  by (auto simp: round_frac_def Let_def split: RoundingMode.split)

text \<open>A value that rounds up to \<open>k\<close> with one more bit of precision rounds up to \<open>k\<close>.\<close>

lemma round_frac_double:
  assumes "0 < den" "2 * k \<le> round_frac rmode sg (2 * num) den"
  shows "k \<le> round_frac rmode sg num den"
proof (cases "k \<le> num div den")
  case True
  then show ?thesis using round_frac_ge le_trans by blast
next
  case False
  have "2 * k \<le> 2 * num div den + 1"
    using assms(2) by (auto simp: round_frac_def Let_def split: RoundingMode.splits if_splits)
  with False double_div_mod [OF assms(1), of num] have q: "k = num div den + 1" "den \<le> 2 * (num mod den)"
    "2 * num div den = 2 * (num div den) + 1" "2 * num mod den = 2 * (num mod den) - den"
    by auto
  show ?thesis
    using assms q by (auto simp: round_frac_def Let_def split: RoundingMode.splits if_splits)
qed

section \<open>Sticky significands\<close>

lemma sticky_parts:
  assumes "0 < den" "sticky s num den"
  shows "s div 4 = num div den \<and> (4 \<le> 2 * (s mod 4) \<longleftrightarrow> den \<le> 2 * (num mod den)) \<and>
    (2 * (s mod 4) = 4 \<longleftrightarrow> 2 * (num mod den) = den) \<and> (s mod 4 = 0 \<longleftrightarrow> num mod den = 0)"
  using double_div_mod [OF assms(1), of num]
proof
  assume "2 * (num mod den) < den \<and> 2 * num div den = 2 * (num div den) \<and> 2 * num mod den = 2 * (num mod den)"
  moreover from this have "s = 4 * (num div den) + (if num mod den = 0 then 0 else 1)"
    using assms(2) by (simp add: sticky_def)
  ultimately show ?thesis by (cases "num mod den = 0") auto
next
  assume "den \<le> 2 * (num mod den) \<and> 2 * num div den = 2 * (num div den) + 1 \<and>
    2 * num mod den = 2 * (num mod den) - den"
  moreover from this have s: "s = 4 * (num div den) + (if 2 * (num mod den) = den then 2 else 3)"
    using assms(2) by (auto simp: sticky_def)
  moreover from s have "s div 4 = num div den" "s mod 4 = (if 2 * (num mod den) = den then 2 else 3)"
    by (simp_all split: if_splits)
  ultimately show ?thesis using assms(1) by auto
qed

lemma sticky_round_frac:
  assumes "0 < den" "sticky s num den"
  shows "round_frac rmode sg s 4 = round_frac rmode sg num den"
proof -
  have "s div 4 = num div den" "(s mod 4 = 0) = (num mod den = 0)"
    "(4 \<le> 2 * (s mod 4)) = (den \<le> 2 * (num mod den))"
    "(2 * (s mod 4) = 4) = (2 * (num mod den) = den)"
    using sticky_parts [OF assms] by argo+
  moreover from this(3,4) have "(4 < 2 * (s mod 4)) = (den < 2 * (num mod den))" by linarith
  ultimately show ?thesis
    by (simp only: round_frac_def Let_def)
qed

lemma sticky_exact: "sticky (4 * n) (n * den) den" if "0 < den"
  using that by (simp add: sticky_def)

lemma sticky_scale: "0 < c \<Longrightarrow> sticky s (c * num) (c * den) \<longleftrightarrow> sticky s num den"
  by (simp add: sticky_def mult.left_commute [of 2 c] mod_mult_mult1 div_mult_mult1)

lemma sticky_cross:
  assumes "num * den' = num' * den" "0 < den" "0 < den'"
  shows "sticky s num den \<longleftrightarrow> sticky s num' den'"
proof -
  have "sticky s num den \<longleftrightarrow> sticky s (den' * num) (den' * den)" using assms(3) by (simp add: sticky_scale)
  also have "den' * num = den * num'" using assms(1) by (simp add: mult.commute)
  also have "den' * den = den * den'" by (rule mult.commute)
  finally show ?thesis using assms(2) by (simp add: sticky_scale)
qed

lemma sticky_of_exact:
  assumes "s * den = 4 * num" "0 < den"
  shows "sticky s num den"
proof (cases "even s")
  case True
  then obtain k where k: "s = 2 * k" by blast
  then have "2 * num = k * den" using assms(1) by (simp add: mult.commute)
  then show ?thesis using assms(2) by (simp add: sticky_def k)
next
  case False
  then obtain k where k: "s = 2 * k + 1" by (metis oddE)
  have "4 dvd s * den" using assms(1) by simp
  then have "4 dvd den" using False by (metis coprime_dvd_mult_right_iff coprime_power_left_iff coprime_left_2_iff_odd numeral_Bit0_eq_double mult_2 power2_eq_square num_double)
  then obtain c where c: "den = 4 * c" by blast
  then have "2 * num = 2 * c + k * den" using assms(1) by (simp add: k algebra_simps)
  then have "2 * num div den = k" "2 * num mod den = 2 * c" using assms(2) c by simp_all
  then show ?thesis using assms(2) c by (simp add: sticky_def k)
qed

lemma round_frac_scale: "0 < c \<Longrightarrow> round_frac rmode sg (c * num) (c * den) = round_frac rmode sg num den"
  by (cases rmode) (simp_all add: round_frac_def Let_def mult.left_commute [of 2 c]
    mod_mult_mult1 div_mult_mult1)

text \<open>Shifting a sticky significand right, the bits shifted out collected in the last one.\<close>

definition jam :: "nat \<Rightarrow> nat \<Rightarrow> nat" where
  "jam s n = 2 * (s div 2 ^ (n + 1)) + (if s mod 2 ^ (n + 1) = 0 then 0 else 1)"

lemma jam_0 [simp]: "jam s 0 = s"
  unfolding jam_def by simp presburger

lemma sticky_jam:
  assumes "0 < den" "sticky s num den"
  shows "sticky (jam s n) num (den * 2 ^ n)"
proof -
  define q r where "q = 2 * num div den" and "r = 2 * num mod den"
  have s: "s = 2 * q + (if r = 0 then 0 else 1)" using assms(2) by (simp add: sticky_def q_def r_def)
  have "s div 2 ^ (n + 1) = q div 2 ^ n" "s mod 2 ^ (n + 1) = 2 * (q mod 2 ^ n) + s mod 2"
    by (simp_all add: s div_mult2_eq mod_mult2_eq)
  moreover have "2 * num div (den * 2 ^ n) = q div 2 ^ n"
    "2 * num mod (den * 2 ^ n) = den * (q mod 2 ^ n) + r"
    by (simp_all add: q_def r_def div_mult2_eq mod_mult2_eq)
  ultimately show ?thesis using assms(1) by (simp add: sticky_def jam_def s)
qed

lemma scale_bounds:
  "2 ^ a \<le> (x :: nat) \<Longrightarrow> 2 ^ (a + k) \<le> x * 2 ^ k" "x < 2 ^ b \<Longrightarrow> x * 2 ^ k < 2 ^ (b + k)"
  by (simp_all add: power_add)

lemma jam_ge:
  assumes "2 ^ (k + n) \<le> s" "0 < k"
  shows "2 ^ k \<le> jam s n"
proof -
  have k: "(2 :: nat) ^ (k + n) = 2 ^ (k - 1) * 2 ^ (n + 1)" "(2 :: nat) ^ k = 2 * 2 ^ (k - 1)"
    using assms(2) by (simp_all flip: power_add power_Suc)
  have "2 ^ (k - 1) \<le> s div 2 ^ (n + 1)"
    using assms(1) unfolding k by (simp add: less_eq_div_iff_mult_less_eq)
  then show ?thesis unfolding k(2) by (simp add: jam_def)
qed

lemma jam_less:
  assumes "s < 2 ^ (l + n)" "0 < l"
  shows "jam s n < 2 ^ l"
proof -
  have l: "(2 :: nat) ^ (l + n) = 2 ^ (l - 1) * 2 ^ (n + 1)" "(2 :: nat) ^ l = 2 * 2 ^ (l - 1)"
    using assms(2) by (simp_all flip: power_add power_Suc)
  have "s div 2 ^ (n + 1) < 2 ^ (l - 1)"
    using assms(1) unfolding l by (simp add: less_mult_imp_div_less)
  then show ?thesis unfolding l(2) by (simp add: jam_def)
qed

lemma jam_keeps_less:
  assumes "s < 2 ^ l" "0 < l"
  shows "jam s n < 2 ^ l"
proof (rule jam_less [OF _ assms(2)])
  have "(2 :: nat) ^ l \<le> 2 ^ (l + n)" by (intro power_increasing) simp_all
  then show "s < 2 ^ (l + n)" using assms(1) by linarith
qed

lemma unat_or_1: "unat ((x :: 'a::len word) OR 1) = 2 * (unat x div 2) + 1"
proof -
  have "unat (x OR 1) = unat x OR 1" by (simp only: unsigned_or_eq unsigned_1)
  also have "\<dots> = 2 * (unat x div 2) + 1" unfolding or_one_eq by (cases "even (unat x)") simp_all
  finally show ?thesis .
qed

lemma and_mask_take_bit: "(x :: 'a::len word) AND (push_bit n 1 - 1) = take_bit n x"
  by (simp add: take_bit_eq_mask mask_eq_exp_minus_1 push_bit_eq_mult)

lemma unat_right_shift: "unat (right_shift x n) = jam (unat x) n"
proof (cases "n \<ge> LENGTH('a)")
  case True
  then have "unat x < 2 ^ (n + 1)"
    using power_increasing [of "LENGTH('a)" "n + 1" "2 :: nat"]
    by (intro less_le_trans [OF unsigned_less]) simp_all
  with True show ?thesis by (simp add: right_shift_def jam_def unat_eq_zero)
next
  case False
  define y m where "y = unat x div 2 ^ n" and "m = unat x mod 2 ^ n"
  have res: "x AND (push_bit n 1 - 1) = 0 \<longleftrightarrow> m = 0"
    by (simp only: and_mask_take_bit m_def unat_take [symmetric] unat_eq_zero)
  have "unat x div 2 ^ (n + 1) = y div 2" "unat x mod 2 ^ (n + 1) = 2 ^ n * (y mod 2) + m"
    by (simp_all add: y_def m_def div_mult2_eq mod_mult2_eq mult.commute [of 2])
  then have "jam (unat x) n = (if m \<noteq> 0 then 2 * (y div 2) + 1 else y)"
    by (cases "even y") (auto simp: jam_def even_iff_mod_2_eq_zero odd_iff_mod_2_eq_one)
  with False res show ?thesis
    by (simp add: right_shift_def Let_def unat_or_1 unat_drop y_def)
qed

end
