(* ===== verification/Softfp_Format.thy ===== *)
theory Softfp_Format
  imports Softfp_Round "HOL-Library.Log_Nat"
begin

text \<open>
  The formats of \<open>lib/softfp\<close> as numbers: the magnitude a bit pattern stands for, the specification of
  a correctly rounded result, and the locale \<open>fp_format\<close> of well-formed formats, interpreted for
  \<open>F32Desc\<close> and \<open>F64Desc\<close>, in which \<open>fp_round\<close> and \<open>normalize_and_round\<close> are shown to meet it.
\<close>

abbreviation SW :: "FpDesc \<Rightarrow> nat" where "SW d \<equiv> SIGNIFICAND_WIDTH d"
abbreviation EW :: "FpDesc \<Rightarrow> nat" where "EW d \<equiv> EXPONENT_WIDTH d"

definition fp_mag :: "FpDesc \<Rightarrow> 'h::len word \<Rightarrow> nat" where
  "fp_mag d v =
    (if biased_exponent d v = 0 then unat (trailing_significand d v)
     else (2 ^ SW d + unat (trailing_significand d v)) * 2 ^ (unat (biased_exponent d v) - 1))"

text \<open>
  The specification of a rounded result. The magnitude \<open>num / den\<close> is in units of the smallest
  subnormal number; \<open>ulp_exp\<close> is the exponent of its unit in the last place. The rounded magnitude is
  either beyond the largest finite number, or is that of the result. The underflow flag is raised
  for an inexact result that is tiny after rounding.
\<close>

definition ulp_exp :: "FpDesc \<Rightarrow> nat \<Rightarrow> nat \<Rightarrow> nat" where
  "ulp_exp d num den = floorlog 2 (num div den) - (SW d + 1)"

definition rounds_away :: "RoundingMode \<Rightarrow> bool \<Rightarrow> bool" where
  "rounds_away rmode sg \<longleftrightarrow> (case rmode of TiesToEven \<Rightarrow> True | TowardZero \<Rightarrow> False
     | TowardNegative \<Rightarrow> sg | TowardPositive \<Rightarrow> \<not> sg | TiesToAway \<Rightarrow> True)"

definition correctly_rounded ::
    "FpDesc \<Rightarrow> RoundingMode \<Rightarrow> bool \<Rightarrow> nat \<Rightarrow> nat \<Rightarrow> 'h::len word \<times> u32 \<Rightarrow> bool" where
  "correctly_rounded d rmode sg num den res \<longleftrightarrow>
    (let e = ulp_exp d num den; mag = round_frac rmode sg num (den * 2 ^ e) * 2 ^ e; (r, fl) = res in
     fp_sign d r = sg \<and>
     (if 2 ^ (SW d + (2 ^ EW d - 2)) \<le> mag then
        fl = OVERFLOW OR INEXACT \<and>
        (if rounds_away rmode sg then is_infinite d r
         else is_finite d r \<and> fp_mag d r = (2 ^ (SW d + 1) - 1) * 2 ^ (2 ^ EW d - 3))
      else
        is_finite d r \<and> fp_mag d r = mag \<and>
        fl = (if den * 2 ^ e dvd num then 0
              else if round_frac rmode sg (2 * num) den < 2 ^ (SW d + 1) then INEXACT OR UNDERFLOW
              else INEXACT)))"

text \<open>
  A significand with an exponent represents the magnitude \<open>num / den\<close>: exactly, or up to a sticky
  last bit. The rounding position is two bits above the last one.
\<close>

definition exact :: "FpDesc \<Rightarrow> int \<Rightarrow> nat \<Rightarrow> nat \<Rightarrow> nat \<Rightarrow> bool" where
  "exact d ex s num den \<longleftrightarrow>
    s * (den * 2 ^ nat (ex - MINIMUM_EXPONENT d)) = 4 * (num * 2 ^ nat (MINIMUM_EXPONENT d - ex))"

definition repr :: "FpDesc \<Rightarrow> int \<Rightarrow> nat \<Rightarrow> nat \<Rightarrow> nat \<Rightarrow> bool" where
  "repr d ex s num den \<longleftrightarrow>
    sticky s (num * 2 ^ nat (MINIMUM_EXPONENT d - ex)) (den * 2 ^ nat (ex - MINIMUM_EXPONENT d))"

lemma ulp_exp_eq:
  assumes "2 ^ (SW d + k) \<le> num div den" "num div den < 2 ^ (SW d + k + 1)"
  shows "ulp_exp d num den = k"
  using floorlog_leI [OF assms(2)] floorlog_ge_SucI [OF assms(1)] by (simp add: ulp_exp_def)

lemma exact_scale:
  assumes "exact d ex s num den"
  shows "exact d (ex - int m) (s * 2 ^ m) num den"
proof -
  define A B A' B' where "A = nat (ex - MINIMUM_EXPONENT d)" and "B = nat (MINIMUM_EXPONENT d - ex)"
    and "A' = nat (ex - int m - MINIMUM_EXPONENT d)" and "B' = nat (MINIMUM_EXPONENT d - (ex - int m))"
  have e: "m + A' + B = A + B'" by (simp add: A_def B_def A'_def B'_def)
  have "s * 2 ^ m * (den * 2 ^ A') * 2 ^ B = s * den * 2 ^ (m + A' + B)"
    by (simp add: power_add)
  also have "\<dots> = s * (den * 2 ^ A) * 2 ^ B'" unfolding e by (simp add: power_add)
  also have "\<dots> = 4 * (num * 2 ^ B') * 2 ^ B"
    using assms by (simp add: exact_def A_def B_def)
  finally have "s * 2 ^ m * (den * 2 ^ A') = 4 * (num * 2 ^ B')"
    by (metis mult_cancel2 power_not_zero zero_neq_numeral)
  then show ?thesis by (simp add: exact_def A'_def B'_def)
qed

lemma exact_repr: "exact d ex s num den \<Longrightarrow> 0 < den \<Longrightarrow> repr d ex s num den"
  unfolding exact_def repr_def by (rule sticky_of_exact) simp_all

lemma exact_pos: "exact d ex s num den \<Longrightarrow> 0 < s \<Longrightarrow> 0 < den \<Longrightarrow> 0 < num"
  by (cases num) (simp_all add: exact_def)

lemma repr_jam:
  assumes "repr d ex s num den" "0 < den"
  shows "repr d (ex + int m) (jam s m) num den"
proof -
  define A B A' B' where "A = nat (ex - MINIMUM_EXPONENT d)" and "B = nat (MINIMUM_EXPONENT d - ex)"
    and "A' = nat (ex + int m - MINIMUM_EXPONENT d)" and "B' = nat (MINIMUM_EXPONENT d - (ex + int m))"
  have e: "B + A' = B' + A + m" by (simp add: A_def B_def A'_def B'_def)
  have "sticky (jam s m) (num * 2 ^ B) (den * 2 ^ A * 2 ^ m)"
    using assms by (intro sticky_jam) (simp_all add: repr_def A_def B_def)
  moreover have "num * 2 ^ B * (den * 2 ^ A') = num * 2 ^ B' * (den * 2 ^ A * 2 ^ m)"
  proof -
    have "num * 2 ^ B * (den * 2 ^ A') = num * den * 2 ^ (B + A')" by (simp add: power_add)
    also have "\<dots> = num * 2 ^ B' * (den * 2 ^ A * 2 ^ m)" unfolding e by (simp add: power_add)
    finally show ?thesis .
  qed
  ultimately have "sticky (jam s m) (num * 2 ^ B') (den * 2 ^ A')"
    using assms(2) by (subst (asm) sticky_cross) simp_all
  then show ?thesis by (simp add: repr_def A'_def B'_def)
qed

section \<open>The position of the highest bit\<close>

lemma leading_zeros_spec:
  fixes w :: "'a::len word"
  assumes "w \<noteq> 0"
  shows "leading_zeros w < LENGTH('a)" "bit w (LENGTH('a) - 1 - leading_zeros w)"
    "\<And>m. LENGTH('a) - 1 - leading_zeros w < m \<Longrightarrow> \<not> bit w m"
proof -
  define xs where "xs = map (bit w) (rev [0..<LENGTH('a)])"
  have lz: "leading_zeros w = length (takeWhile Not xs)" by (simp add: leading_zeros_def xs_def)
  have len: "length xs = LENGTH('a)" and nth: "\<And>i. i < LENGTH('a) \<Longrightarrow> xs ! i = bit w (LENGTH('a) - 1 - i)"
    by (simp_all add: xs_def rev_nth)
  obtain m where "bit w m" using assms by (auto simp: bit_eq_iff)
  then have "True \<in> set xs" using bit_imp_le_length [of w m] by (auto simp: xs_def)
  then have "takeWhile Not xs \<noteq> xs" by (metis (full_types) set_takeWhileD)
  then show lt: "leading_zeros w < LENGTH('a)"
    by (metis len length_takeWhile_le lz le_neq_implies_less takeWhile_eq_take take_all order_refl)
  then have "xs ! leading_zeros w" using nth_length_takeWhile [of Not xs] by (simp add: len lz)
  then show "bit w (LENGTH('a) - 1 - leading_zeros w)" using lt by (simp add: nth)
  fix m assume m: "LENGTH('a) - 1 - leading_zeros w < m"
  show "\<not> bit w m"
  proof
    assume b: "bit w m"
    then have "m < LENGTH('a)" using bit_imp_le_length by fastforce
    moreover from this have i: "LENGTH('a) - 1 - m < leading_zeros w" using m lt by linarith
    ultimately have "xs ! (LENGTH('a) - 1 - m)" using b by (simp add: nth)
    moreover have "\<not> takeWhile Not xs ! (LENGTH('a) - 1 - m)"
      using i nth_mem [of _ "takeWhile Not xs"] set_takeWhileD [of _ Not xs] by (fastforce simp: lz)
    ultimately show False using i by (simp add: takeWhile_nth lz)
  qed
qed

lemma log2_floor_bounds:
  fixes w :: "'a::len word"
  assumes "w \<noteq> 0" "LENGTH('a) \<le> 2 ^ 31"
  shows "2 ^ log2_floor w \<le> unat w" "unat w < 2 ^ (log2_floor w + 1)"
proof -
  define n where "n = LENGTH('a) - 1 - leading_zeros w"
  note lz = leading_zeros_spec [OF assms(1), folded n_def]
  have n: "log2_floor w = n"
    using lz(1) assms(2) by (simp add: log2_floor_def as_u32_def n_def of_nat_diff)
  have "odd (unat w div 2 ^ n)" using lz(2) by (simp add: bit_unsigned_iff flip: bit_iff_odd)
  then show "2 ^ log2_floor w \<le> unat w" unfolding n
    by (metis div_less even_zero not_le)
  have "take_bit (n + 1) w = w"
    by (rule bit_word_eqI) (metis Suc_eq_plus1 bit_take_bit_iff lz(3) not_less_eq)
  then have "unat w = unat w mod 2 ^ (n + 1)" using unat_take [of "n + 1" w] by simp
  then show "unat w < 2 ^ (log2_floor w + 1)" unfolding n
    by (metis mod_less_divisor zero_less_numeral zero_less_power)
qed

section \<open>Well-formed formats\<close>

locale fp_format =
  fixes d :: FpDesc and T :: "'h::len itself"
  assumes width: "LENGTH('h) = EW d + SW d + 1"
    and ew: "3 \<le> EW d" "EW d \<le> 15" and sw: "2 \<le> SW d" "SW d \<le> 512"
    and precision: "SW d + 3 \<le> 2 ^ (EW d - 1)"
begin

lemma bit_sign: "fp_sign d (v :: 'h word) = bit v (EW d + SW d)"
proof -
  have "drop_bit (EW d + SW d) v = (if bit v (EW d + SW d) then 1 else 0)"
  proof (rule bit_word_eqI)
    fix n assume "n < LENGTH('h)"
    show "bit (drop_bit (EW d + SW d) v) n = bit (if bit v (EW d + SW d) then 1 else 0 :: 'h word) n"
      using bit_imp_le_length [of v "EW d + SW d + n"] width
      by (cases n) (auto simp: bit_simps)
  qed
  then show ?thesis by (simp add: fp_sign_def)
qed

lemma bit_trailing: "bit (trailing_significand d (v :: 'h word)) n \<longleftrightarrow> n < SW d \<and> bit v n"
  unfolding trailing_significand_def Let_def and_mask_take_bit by (simp add: bit_simps)

lemma bit_biased: "bit (biased_exponent d (v :: 'h word)) n \<longleftrightarrow> n < EW d \<and> bit v (SW d + n)"
  unfolding biased_exponent_def Let_def and_mask_take_bit using ew width by (auto simp: bit_simps)

lemma bit_set_sign: "n < LENGTH('h) \<Longrightarrow>
    bit (set_sign d sg (v :: 'h word)) n \<longleftrightarrow> (if n = EW d + SW d then sg else bit v n)"
  using width by (auto simp: set_sign_def Let_def bit_simps)

lemma bit_set_trailing: "n < LENGTH('h) \<Longrightarrow>
    bit (set_trailing_significand d t (v :: 'h word)) n \<longleftrightarrow> (if n < SW d then bit t n else bit v n)"
  unfolding set_trailing_significand_def Let_def and_mask_take_bit
  by (simp add: bit_simps flip: mask_eq_exp_minus_1)

lemma bit_set_biased: "n < LENGTH('h) \<Longrightarrow>
    bit (set_biased_exponent d e (v :: 'h word)) n \<longleftrightarrow>
      (if SW d \<le> n \<and> n < SW d + EW d then bit e (n - SW d) else bit v n)"
  unfolding set_biased_exponent_def Let_def
  by (auto simp: bit_simps simp flip: mask_eq_exp_minus_1)

text \<open>Reading back what a setter wrote.\<close>

lemma fields_set_sign:
  "fp_sign d (set_sign d sg (v :: 'h word)) = sg"
  "biased_exponent d (set_sign d sg v) = biased_exponent d v"
  "trailing_significand d (set_sign d sg v) = trailing_significand d v"
  using width by (auto intro!: bit_word_eqI simp: bit_sign bit_biased bit_trailing bit_set_sign)

lemma fields_set_trailing:
  "fp_sign d (set_trailing_significand d t (v :: 'h word)) = fp_sign d v"
  "biased_exponent d (set_trailing_significand d t v) = biased_exponent d v"
  "trailing_significand d (set_trailing_significand d t v) = take_bit (SW d) t"
  using width by (auto intro!: bit_word_eqI simp: bit_sign bit_biased bit_trailing bit_set_trailing bit_take_bit_iff)

lemma fields_set_biased:
  "fp_sign d (set_biased_exponent d e (v :: 'h word)) = fp_sign d v"
  "biased_exponent d (set_biased_exponent d e v) = take_bit (EW d) e"
  "trailing_significand d (set_biased_exponent d e v) = trailing_significand d v"
  using width by (auto intro!: bit_word_eqI simp: bit_sign bit_biased bit_trailing bit_set_biased bit_take_bit_iff)

lemma fields_0:
  "fp_sign d (0 :: 'h word) = False" "biased_exponent d (0 :: 'h word) = 0"
  "trailing_significand d (0 :: 'h word) = 0"
  by (simp_all add: fp_sign_def biased_exponent_def trailing_significand_def)

lemmas fields = fields_set_sign fields_set_trailing fields_set_biased fields_0

text \<open>The fields as numbers.\<close>

lemma unat_trailing: "unat (trailing_significand d (v :: 'h word)) = unat v mod 2 ^ SW d"
  unfolding trailing_significand_def Let_def and_mask_take_bit by (rule unat_take)

lemma trailing_less: "unat (trailing_significand d (v :: 'h word)) < 2 ^ SW d"
  by (simp add: unat_trailing)

lemma unat_biased: "unat (biased_exponent d (v :: 'h word)) = unat v div 2 ^ SW d mod 2 ^ EW d"
proof -
  have "(2 :: nat) ^ EW d \<le> 2 ^ 32" using ew by (intro power_increasing) simp_all
  then have "unat v div 2 ^ SW d mod 2 ^ EW d < 2 ^ 32"
    by (intro less_le_trans [OF mod_less_divisor]) simp_all
  then show ?thesis
    unfolding biased_exponent_def Let_def and_mask_take_bit
    by (subst unat_ucast_small) (simp_all add: unat_take unat_drop)
qed

lemma biased_less: "unat (biased_exponent d (v :: 'h word)) < 2 ^ EW d"
  by (simp add: unat_biased)

lemma unat_infinity_exponent: "unat (INFINITY_BIASED_EXPONENT d) = 2 ^ EW d - 1"
proof -
  have "unat ((2 :: u32) ^ EW d) = 2 ^ EW d" using ew by (simp add: unat_pow2)
  then show ?thesis
    by (simp add: INFINITY_BIASED_EXPONENT_def push_bit_eq_mult unat_sub_if_size)
qed

lemma sign_unat: "fp_sign d (v :: 'h word) \<longleftrightarrow> 2 ^ (EW d + SW d) \<le> unat v"
proof -
  have "unat (drop_bit (EW d + SW d) v) = 0 \<longleftrightarrow> unat v < 2 ^ (EW d + SW d)"
    by (simp add: unat_drop div_eq_0_iff)
  then show ?thesis by (simp add: fp_sign_def unat_eq_zero not_less)
qed

lemma exponents:
  "MINIMUM_EXPONENT d = 2 - 2 ^ (EW d - 1)" "MAXIMUM_EXPONENT d = 2 ^ (EW d - 1) - 1"
proof -
  show "MINIMUM_EXPONENT d = 2 - 2 ^ (EW d - 1)" by (simp add: MINIMUM_EXPONENT_def EXPONENT_BIAS_def)
  have e: "(2 :: int) ^ EW d = 2 * 2 ^ (EW d - 1)" using ew by (simp flip: power_Suc)
  have "2 ^ 3 \<le> (2 :: nat) ^ EW d" using ew by (intro power_increasing) simp_all
  then have "unat (MAXIMUM_BIASED_EXPONENT d) = 2 ^ EW d - 2"
    using unat_infinity_exponent unat_dec [of "INFINITY_BIASED_EXPONENT d"]
    by (simp add: MAXIMUM_BIASED_EXPONENT_def)
  then have "uint (MAXIMUM_BIASED_EXPONENT d) = 2 ^ EW d - 2"
    using \<open>2 ^ 3 \<le> (2 :: nat) ^ EW d\<close> by (simp add: uint_eq of_nat_diff)
  then show "MAXIMUM_EXPONENT d = 2 ^ (EW d - 1) - 1"
    by (simp add: MAXIMUM_EXPONENT_def EXPONENT_BIAS_def e)
qed

text \<open>The constants and predicates on the fields.\<close>

lemma biased_infinity_iff:
  "biased_exponent d (v :: 'h word) = INFINITY_BIASED_EXPONENT d \<longleftrightarrow>
     unat (biased_exponent d v) = 2 ^ EW d - 1"
  by (metis unat_infinity_exponent word_unat_eqI)

lemma pow_ew: "8 \<le> (2 :: nat) ^ EW d"
  using power_increasing [OF ew(1), of "2 :: nat"] by simp

lemma minimum_maximum: "MAXIMUM_EXPONENT d = MINIMUM_EXPONENT d + int (2 ^ EW d) - 3"
proof -
  have "2 * (2 :: int) ^ (EW d - 1) = 2 ^ EW d" using ew by (simp flip: power_Suc)
  then show ?thesis by (simp add: exponents)
qed

lemma exponent_range:
  "- (2 ^ 15) \<le> MINIMUM_EXPONENT d" "MINIMUM_EXPONENT d \<le> 0" "1 \<le> MAXIMUM_EXPONENT d" "MAXIMUM_EXPONENT d \<le> 2 ^ 15"
proof -
  have "(2 :: int) ^ 1 \<le> 2 ^ (EW d - 1)" "(2 :: int) ^ (EW d - 1) \<le> 2 ^ 14"
    using ew by (intro power_increasing; simp)+
  then show "- (2 ^ 15) \<le> MINIMUM_EXPONENT d" "MINIMUM_EXPONENT d \<le> 0" "1 \<le> MAXIMUM_EXPONENT d"
    "MAXIMUM_EXPONENT d \<le> 2 ^ 15" unfolding exponents by simp_all
qed

section \<open>Significands\<close>

lemma unat_hidden:
  assumes "unat (t :: 'h word) < 2 ^ SW d"
  shows "unat (push_bit 2 (t OR push_bit (SW d) 1)) = 4 * (2 ^ SW d + unat t)"
    and "4 * (2 ^ SW d + unat t) < 2 ^ (SW d + 3)"
proof -
  have o: "unat (t OR push_bit (SW d) 1) = 2 ^ SW d + unat t"
    using unat_or_pow2 [OF assms] width by simp
  show lt: "4 * (2 ^ SW d + unat t) < 2 ^ (SW d + 3)" using assms by (simp add: power_add)
  also have "(2 :: nat) ^ (SW d + 3) \<le> 2 ^ LENGTH('h)" using width ew by (intro power_increasing) simp_all
  finally show "unat (push_bit 2 (t OR push_bit (SW d) 1)) = 4 * (2 ^ SW d + unat t)"
    using unat_push [of "t OR push_bit (SW d) 1" 2] unfolding o by simp
qed

lemma get_significand_spec:
  assumes "is_finite d (v :: 'h word)"
  obtains ex s where "get_significand d v = Some (ex, s)" "unat s < 2 ^ (SW d + 3)"
    "ex = MINIMUM_EXPONENT d + int (unat (biased_exponent d v) - 1)"
    "exact d ex (unat s) (fp_mag d v) 1" "4 dvd unat s"
    "biased_exponent d v \<noteq> 0 \<longrightarrow> 2 ^ (SW d + 2) \<le> unat s"
proof (cases "biased_exponent d v = 0")
  case True
  have t: "unat (trailing_significand d v) < 2 ^ SW d" by (rule trailing_less)
  moreover have "(2 :: nat) ^ (SW d + 3) \<le> 2 ^ LENGTH('h)" using width ew by (intro power_increasing) simp_all
  ultimately have "unat (push_bit 2 (trailing_significand d v)) = unat (trailing_significand d v) * 2 ^ 2"
    by (intro unat_push) (simp add: power_add)
  with True t assms show ?thesis
    by (intro that [of "MINIMUM_EXPONENT d" "push_bit 2 (trailing_significand d v)"])
      (simp_all add: get_significand_def is_finite_def fp_mag_def exact_def power_add del: push_bit_Suc)
next
  case False
  define s where "s = push_bit 2 (trailing_significand d v OR push_bit (SW d) 1)"
  note h = unat_hidden [OF trailing_less, of v, folded s_def]
  have g: "get_significand d v = Some (uint (biased_exponent d v) - EXPONENT_BIAS d, s)"
    using assms False by (simp add: get_significand_def is_finite_def s_def)
  have "0 < unat (biased_exponent d v)" using False by (simp add: unat_gt_0)
  then have "uint (biased_exponent d v) - EXPONENT_BIAS d =
      MINIMUM_EXPONENT d + int (unat (biased_exponent d v) - 1)"
    unfolding uint_eq MINIMUM_EXPONENT_def by linarith
  from that [OF g _ this] h False show ?thesis
    by (simp add: fp_mag_def exact_def power_add \<open>uint (biased_exponent d v) - _ = _\<close>)
qed

lemma get_normalized_significand_spec:
  assumes "is_finite d (v :: 'h word)" "\<not> is_zero d v"
  obtains ex s where "get_normalized_significand d v = Some (ex, s)"
    "2 ^ (SW d + 2) \<le> unat s" "unat s < 2 ^ (SW d + 3)"
    "MINIMUM_EXPONENT d - int (SW d) \<le> ex" "ex \<le> MAXIMUM_EXPONENT d"
    "exact d ex (unat s) (fp_mag d v) 1" "4 dvd unat s"
proof (cases "biased_exponent d v = 0")
  case True
  define t n where "t = trailing_significand d v" and "n = log2_floor t"
  have t0: "t \<noteq> 0" using True assms(2) by (simp add: is_zero_def t_def)
  have t: "unat t < 2 ^ SW d" unfolding t_def by (rule trailing_less)
  have n: "2 ^ n \<le> unat t" "unat t < 2 ^ (n + 1)"
    using log2_floor_bounds [OF t0] width ew sw by (simp_all add: n_def)
  then have nsw: "n < SW d" using t by (metis le_less_trans one_less_numeral_iff power_less_imp_less_exp semiring_norm(76))
  define w where "w = SW d - n"
  have mx: "(2 :: nat) ^ (SW d + 3) \<le> 2 ^ LENGTH('h)" using width ew by (intro power_increasing) simp_all
  have b: "2 ^ (SW d + 2) \<le> unat t * 2 ^ (w + 2)" "unat t * 2 ^ (w + 2) < 2 ^ (SW d + 3)"
    using scale_bounds(1) [OF n(1), of "w + 2"] scale_bounds(2) [OF n(2), of "w + 2"] nsw
    by (simp_all add: w_def power_add)
  have u: "unat (rust_shl t (w + 2)) = unat t * 2 ^ (w + 2)"
    using b(2) mx width ew nsw by (subst rust_shl_def, subst unat_push) (simp_all add: w_def)
  have g: "get_normalized_significand d v = Some (MINIMUM_EXPONENT d - int w, rust_shl t (w + 2))"
    using assms True t0 by (simp add: get_normalized_significand_def is_finite_def Let_def w_def n_def t_def)
  show ?thesis
  proof (rule that [OF g])
    show "2 ^ (SW d + 2) \<le> unat (rust_shl t (w + 2))" "unat (rust_shl t (w + 2)) < 2 ^ (SW d + 3)"
      unfolding u by (fact b)+
    show "MINIMUM_EXPONENT d - int (SW d) \<le> MINIMUM_EXPONENT d - int w"
      "MINIMUM_EXPONENT d - int w \<le> MAXIMUM_EXPONENT d"
      using minimum_maximum pow_ew diff_le_self [of "SW d" n] unfolding w_def by linarith+
    show "exact d (MINIMUM_EXPONENT d - int w) (unat (rust_shl t (w + 2))) (fp_mag d v) 1"
      "4 dvd unat (rust_shl t (w + 2))"
      unfolding u exact_def using True by (simp_all add: fp_mag_def t_def power_add)
  qed
next
  case False
  define s where "s = push_bit 2 (trailing_significand d v OR push_bit (SW d) 1)"
  note h = unat_hidden [OF trailing_less, of v, folded s_def]
  have g: "get_normalized_significand d v = Some (uint (biased_exponent d v) - EXPONENT_BIAS d, s)"
    using assms False by (simp add: get_normalized_significand_def is_finite_def s_def)
  have be: "0 < unat (biased_exponent d v)" "unat (biased_exponent d v) < 2 ^ EW d - 1"
    using False assms(1) biased_less [of v] biased_infinity_iff [of v]
    by (simp_all add: unat_gt_0 is_finite_def)
  then have e: "uint (biased_exponent d v) - EXPONENT_BIAS d =
      MINIMUM_EXPONENT d + int (unat (biased_exponent d v) - 1)"
    unfolding uint_eq MINIMUM_EXPONENT_def by linarith
  have "int (unat (biased_exponent d v) - 1) \<le> MAXIMUM_EXPONENT d - MINIMUM_EXPONENT d"
    using be pow_ew unfolding minimum_maximum by linarith
  with that [OF g] h False show ?thesis
    by (simp add: e exact_def fp_mag_def power_add)
qed

section \<open>Rounding to the format\<close>

lemma pack_fields:
  fixes t :: "'h word" and e :: u32 and sg :: bool
  defines "r \<equiv> set_trailing_significand d t (set_biased_exponent d e (set_sign d sg 0))"
  assumes "unat e < 2 ^ EW d"
  shows "fp_sign d r = sg" "is_finite d r \<longleftrightarrow> unat e \<noteq> 2 ^ EW d - 1"
    "is_infinite d r \<longleftrightarrow> unat e = 2 ^ EW d - 1 \<and> unat t mod 2 ^ SW d = 0"
    "fp_mag d r = (if unat e = 0 then unat t mod 2 ^ SW d
       else (2 ^ SW d + unat t mod 2 ^ SW d) * 2 ^ (unat e - 1))"
proof -
  have b: "biased_exponent d r = e"
    using assms(2) unfolding r_def fields by (intro word_unat_eqI) (simp add: unat_take)
  have t: "unat (trailing_significand d r) = unat t mod 2 ^ SW d"
    unfolding r_def fields by (rule unat_take)
  show "fp_sign d r = sg" unfolding r_def fields by (rule refl)
  show "is_finite d r \<longleftrightarrow> unat e \<noteq> 2 ^ EW d - 1"
    using biased_infinity_iff [of r] by (simp add: is_finite_def b)
  show "is_infinite d r \<longleftrightarrow> unat e = 2 ^ EW d - 1 \<and> unat t mod 2 ^ SW d = 0"
    using biased_infinity_iff [of r] t
    by (simp add: is_infinite_def b unat_eq_zero [symmetric, of "trailing_significand d r"] del: unat_eq_zero)
  show "fp_mag d r = (if unat e = 0 then unat t mod 2 ^ SW d
       else (2 ^ SW d + unat t mod 2 ^ SW d) * 2 ^ (unat e - 1))"
    using b t by (simp add: fp_mag_def unat_eq_zero)
qed

lemma fields_of_unat:
  assumes "unat (v :: 'h word) = of_bool sg * 2 ^ (EW d + SW d) + e * 2 ^ SW d + t"
    and "e < 2 ^ EW d" "t < 2 ^ SW d"
  shows "fp_sign d v = sg" "unat (biased_exponent d v) = e" "unat (trailing_significand d v) = t"
proof -
  have v: "unat v = (of_bool sg * 2 ^ EW d + e) * 2 ^ SW d + t"
    using assms(1) by (simp add: power_add add_mult_distrib)
  then have "unat v div 2 ^ SW d = of_bool sg * 2 ^ EW d + e" using assms(3) by simp
  then show "unat (biased_exponent d v) = e" using assms(2) by (simp add: unat_biased)
  show "unat (trailing_significand d v) = t" using assms(3) by (simp add: unat_trailing v)
  have "(e + 1) * 2 ^ SW d \<le> 2 ^ EW d * 2 ^ SW d" using assms(2) by (intro mult_le_mono1) simp
  then have "e * 2 ^ SW d + t < 2 ^ (EW d + SW d)" using assms(3) by (simp add: power_add)
  then show "fp_sign d v = sg" unfolding sign_unat assms(1) by (cases sg) simp_all
qed

lemma unat_fields:
  "unat (v :: 'h word) = of_bool (fp_sign d v) * 2 ^ (EW d + SW d) +
     unat (biased_exponent d v) * 2 ^ SW d + unat (trailing_significand d v)"
proof -
  have "unat v < 2 ^ LENGTH('h)" by simp
  then have "unat v div 2 ^ SW d div 2 ^ EW d < 2"
    by (simp add: width power_add div_less_iff_less_mult mult.commute mult.left_commute flip: div_mult2_eq)
  moreover have "fp_sign d v \<longleftrightarrow> 1 \<le> unat v div 2 ^ SW d div 2 ^ EW d"
    unfolding sign_unat by (simp add: less_eq_div_iff_mult_less_eq power_add mult.commute flip: div_mult2_eq)
  ultimately have "unat v div 2 ^ SW d div 2 ^ EW d = of_bool (fp_sign d v)" by auto
  then have "unat v div 2 ^ SW d = of_bool (fp_sign d v) * 2 ^ EW d + unat (biased_exponent d v)"
    by (metis div_mult_mod_eq unat_biased)
  then have "unat v = (of_bool (fp_sign d v) * 2 ^ EW d + unat (biased_exponent d v)) * 2 ^ SW d +
      unat (trailing_significand d v)"
    by (metis div_mult_mod_eq unat_trailing)
  then show ?thesis by (simp add: power_add add_mult_distrib)
qed

lemma infinity_fields:
  "fp_sign d (infinity d sg :: 'h word) = sg" "biased_exponent d (infinity d sg :: 'h word) = INFINITY_BIASED_EXPONENT d"
  "trailing_significand d (infinity d sg :: 'h word) = 0"
proof -
  have "take_bit (EW d) (INFINITY_BIASED_EXPONENT d) = INFINITY_BIASED_EXPONENT d"
    by (rule word_unat_eqI) (simp add: unat_take unat_infinity_exponent)
  then show "fp_sign d (infinity d sg :: 'h word) = sg"
    "biased_exponent d (infinity d sg :: 'h word) = INFINITY_BIASED_EXPONENT d"
    "trailing_significand d (infinity d sg :: 'h word) = 0"
    by (simp_all add: infinity_def fields)
qed

lemma largest_finite_fields:
  fixes r :: "'h word" and sg :: bool
  defines "r \<equiv> infinity d sg - 1"
  shows "fp_sign d r = sg" "unat (biased_exponent d r) = 2 ^ EW d - 2" "unat (trailing_significand d r) = 2 ^ SW d - 1"
proof -
  have inf: "unat (infinity d sg :: 'h word) = of_bool sg * 2 ^ (EW d + SW d) + (2 ^ EW d - 1) * 2 ^ SW d"
    using unat_fields [of "infinity d sg"] by (simp add: infinity_fields unat_infinity_exponent)
  have e: "(2 ^ EW d - 1) * 2 ^ SW d = (2 ^ EW d - 2) * 2 ^ SW d + (2 :: nat) ^ SW d"
  proof -
    have "(2 :: nat) ^ EW d - 1 = (2 ^ EW d - 2) + 1" using pow_ew by linarith
    then show ?thesis by simp
  qed
  have "unat r = unat (infinity d sg :: 'h word) - 1"
    unfolding r_def by (rule unat_dec) (use pow_ew in \<open>simp add: inf e\<close>)
  then have r: "unat r = of_bool sg * 2 ^ (EW d + SW d) + (2 ^ EW d - 2) * 2 ^ SW d + (2 ^ SW d - 1)"
    unfolding inf e by simp
  show "fp_sign d r = sg" "unat (biased_exponent d r) = 2 ^ EW d - 2" "unat (trailing_significand d r) = 2 ^ SW d - 1"
    using fields_of_unat [OF r] pow_ew by simp_all
qed

lemma round_overflow_spec:
  fixes r :: "'h word"
  assumes "round_overflow d rmode sg = (r, fl)"
  shows "fl = OVERFLOW OR INEXACT" "fp_sign d r = sg"
    "if rounds_away rmode sg then is_infinite d r
     else is_finite d r \<and> fp_mag d r = (2 ^ (SW d + 1) - 1) * 2 ^ (2 ^ EW d - 3)"
proof -
  have r: "r = (if rounds_away rmode sg then infinity d sg else infinity d sg - 1)"
    and fl: "fl = OVERFLOW OR INEXACT"
    using assms by (auto simp: round_overflow_def rounds_away_def Let_def split: RoundingMode.splits if_splits)
  show "fl = OVERFLOW OR INEXACT" by (rule fl)
  show "fp_sign d r = sg" by (simp add: r infinity_fields largest_finite_fields)
  have "(2 :: nat) ^ EW d - 2 \<noteq> 2 ^ EW d - 1" "(2 :: nat) ^ EW d - 2 \<noteq> 0" using pow_ew by linarith+
  then have "is_finite d (infinity d sg - 1 :: 'h word)" "biased_exponent d (infinity d sg - 1 :: 'h word) \<noteq> 0"
    using biased_infinity_iff [of "infinity d sg - 1"] largest_finite_fields(2) [of sg]
    by (auto simp: is_finite_def simp del: One_nat_def)
  then show "if rounds_away rmode sg then is_infinite d r
     else is_finite d r \<and> fp_mag d r = (2 ^ (SW d + 1) - 1) * 2 ^ (2 ^ EW d - 3)"
    by (simp add: r is_infinite_def infinity_fields fp_mag_def largest_finite_fields diff_diff_eq
      mult_2 del: unat_eq_zero)
qed

lemma overflow_correct:
  assumes "2 ^ (SW d + (2 ^ EW d - 2)) \<le> round_frac rmode sg num (den * 2 ^ ulp_exp d num den) * 2 ^ ulp_exp d num den"
  shows "correctly_rounded d rmode sg num den (round_overflow d rmode sg :: 'h word \<times> u32)"
    "(let (r, fl') = round_overflow d rmode sg in (r, INEXACT OR fl')) = (round_overflow d rmode sg :: 'h word \<times> u32)"
proof -
  obtain r :: "'h word" and fl where ro: "round_overflow d rmode sg = (r, fl)" by fastforce
  from round_overflow_spec [OF ro] assms
  show "correctly_rounded d rmode sg num den (round_overflow d rmode sg :: 'h word \<times> u32)"
    unfolding correctly_rounded_def by (simp add: ro)
  from round_overflow_spec(1) [OF ro]
  show "(let (r, fl') = round_overflow d rmode sg in (r, INEXACT OR fl')) = (round_overflow d rmode sg :: 'h word \<times> u32)"
    by (simp add: ro)
qed

lemma eq_push_iff: "n \<le> SW d + 1 \<Longrightarrow> (x :: 'h word) = push_bit n 1 \<longleftrightarrow> unat x = 2 ^ n"
  using unat_push_1 [of n, where 'a = 'h] width ew by (simp add: word_unat_eq_iff)

lemma significand_fits:
  "unat (s :: 'h word) < 2 ^ (SW d + 3) \<Longrightarrow> unat s + 4 \<le> 2 ^ LENGTH('h)" "2 < LENGTH('h)"
proof -
  have "(2 :: nat) ^ (SW d + 4) \<le> 2 ^ LENGTH('h)" using width ew by (intro power_increasing) simp_all
  moreover have "(2 :: nat) ^ (SW d + 4) = 16 * 2 ^ SW d" "(2 :: nat) ^ (SW d + 3) = 8 * 2 ^ SW d"
    "1 \<le> (2 :: nat) ^ SW d" by (simp_all add: power_add)
  moreover assume "unat s < 2 ^ (SW d + 3)"
  ultimately show "unat s + 4 \<le> 2 ^ LENGTH('h)" by linarith
next
  show "2 < LENGTH('h)" using width ew by simp
qed

lemma fp_round_tiny:
  fixes s :: "'h word"
  assumes "0 < den" "unat s < 2 ^ (SW d + 3)"
    and "ex < MINIMUM_EXPONENT d" "MINIMUM_EXPONENT d - 2 ^ 20 \<le> ex"
    and "sticky (unat s) (num * 2 ^ nat (MINIMUM_EXPONENT d - ex)) den"
  shows "correctly_rounded d rmode sg num den (fp_round d rmode sg ex s)"
proof -
  define j sh where "j = nat (MINIMUM_EXPONENT d - ex)" and "sh = right_shift s j"
  have j: "as_u32 (MINIMUM_EXPONENT d - ex) = j" "1 \<le> j"
    using assms(3,4) by (simp_all add: as_u32_def j_def)
  obtain i q where iq: "round_significand rmode sg sh = (i, q)" by fastforce
  have st: "sticky (unat sh) num den"
    using sticky_jam [OF assms(1,5), of j] sticky_scale [of "2 ^ j" "unat sh" num den]
    by (simp add: sh_def unat_right_shift j_def mult.commute)
  have "unat s < 2 ^ (SW d + 2 + j)"
    using assms(2) power_increasing [of "SW d + 3" "SW d + 2 + j" "2 :: nat"] j(2) by simp
  then have sh: "unat sh < 2 ^ (SW d + 2)"
    unfolding sh_def unat_right_shift by (intro jam_less) simp_all
  have fits: "unat sh + 4 \<le> 2 ^ LENGTH('h)"
    using sh by (intro significand_fits(1)) (simp add: power_add)
  have rs: "i \<longleftrightarrow> unat sh mod 4 \<noteq> 0" "unat q = round_frac rmode sg (unat sh) 4"
    using round_significand_spec [OF significand_fits(2) fits, of rmode sg] iq by simp_all
  have q: "unat q = round_frac rmode sg num den" using rs(2) sticky_round_frac [OF assms(1) st] by simp
  have i: "i \<longleftrightarrow> \<not> den dvd num"
    using rs(1) sticky_parts [OF assms(1) st] by (simp add: dvd_eq_mod_eq_0)
  have qle: "unat q \<le> 2 ^ SW d"
    unfolding rs(2) using sh by (intro round_frac_le) (simp_all add: power_add)
  have "unat sh div 4 < 2 ^ SW d" using sh by (simp add: power_add div_less_iff_less_mult)
  then have "num div den < 2 ^ SW d" using sticky_parts [OF assms(1) st] by argo
  then have e: "ulp_exp d num den = 0" and i1: "unat q = 2 ^ SW d \<Longrightarrow> i"
    using floorlog_leI [of "num div den" 2 "SW d"] round_frac_exact [of den num rmode sg] assms(1) q i
    by (auto simp: ulp_exp_def)
  define fl :: u32 where "fl = (if i then INEXACT else 0)"
  have nmax: "\<not> MAXIMUM_EXPONENT d < ex" using assms(3) minimum_maximum pow_ew by linarith
  have "q \<noteq> push_bit (SW d + 1) 1"
    unfolding eq_push_iff [OF order_refl]
  proof
    assume "unat q = 2 ^ (SW d + 1)"
    then have "2 * (2 :: nat) ^ SW d \<le> 2 ^ SW d" using qle by simp
    then show False by simp
  qed
  then have round: "fp_round d rmode sg ex s =
    (if q = push_bit (SW d) 1 then
       (set_trailing_significand d 0 (set_biased_exponent d 1 (set_sign d sg 0)),
        if snd (round_significand rmode sg s) \<noteq> push_bit (SW d + 1) 1 then fl OR UNDERFLOW else fl)
     else (set_trailing_significand d q (set_biased_exponent d 0 (set_sign d sg 0)),
        if i then fl OR UNDERFLOW else fl))"
    using assms(3) nmax
    unfolding fp_round_def by (simp add: j(1) iq fl_def flip: sh_def del: push_bit_of_1)
  have p: "q = push_bit (SW d) 1 \<longleftrightarrow> unat q = 2 ^ SW d"
    by (simp add: eq_push_iff del: push_bit_of_1)
  have small: "(2 :: nat) ^ SW d < 2 ^ (SW d + (2 ^ EW d - 2))"
    using pow_ew by (intro power_strict_increasing) simp_all
  show ?thesis
  proof (cases "unat q = 2 ^ SW d")
    case True
    have "j = 1"
    proof (rule ccontr)
      assume "j \<noteq> 1"
      then have "(2 :: nat) ^ (SW d + 3) \<le> 2 ^ (SW d + 1 + j)" using j(2) by (intro power_increasing) simp_all
      then have "unat sh < 2 ^ (SW d + 1)"
        unfolding sh_def unat_right_shift using assms(2) by (intro jam_less) simp_all
      moreover have "(2 :: nat) ^ SW d = 2 * 2 ^ (SW d - 1)" using sw by (simp flip: power_Suc)
      ultimately have "unat q \<le> 2 ^ (SW d - 1)"
        unfolding rs(2) by (intro round_frac_le) (simp_all add: power_add)
      then show False using True \<open>(2 :: nat) ^ SW d = 2 * 2 ^ (SW d - 1)\<close> by simp
    qed
    then have "sticky (unat s) (2 * num) den" using assms(5) by (simp add: j_def mult.commute)
    then have rf: "unat (snd (round_significand rmode sg s)) = round_frac rmode sg (2 * num) den"
      using round_significand_spec(2) [OF significand_fits(2) significand_fits(1) [OF assms(2)]]
        sticky_round_frac [OF assms(1)] by simp
    have "round_frac rmode sg (unat s) 4 \<le> 2 ^ (SW d + 1)"
      using assms(2) by (intro round_frac_le) (simp_all add: power_add)
    then have le: "round_frac rmode sg (2 * num) den \<le> 2 ^ (SW d + 1)"
      using sticky_round_frac [OF assms(1) \<open>sticky (unat s) (2 * num) den\<close>] by simp
    have "snd (round_significand rmode sg s) \<noteq> push_bit (SW d + 1) 1 \<longleftrightarrow>
        round_frac rmode sg (2 * num) den < 2 ^ (SW d + 1)"
      unfolding eq_push_iff [OF order_refl] rf using le by linarith
    with True i1 i small pack_fields [of 1 0 sg] pow_ew q show ?thesis
      unfolding round correctly_rounded_def p by (simp add: e fl_def)
  next
    case False
    then have lt: "unat q < 2 ^ SW d" using qle by simp
    then have "round_frac rmode sg (2 * num) den < 2 ^ (SW d + 1)"
      using round_frac_double [OF assms(1), of "2 ^ SW d" rmode sg num] q by (intro not_le_imp_less) auto
    moreover have "\<not> 2 ^ (SW d + (2 ^ EW d - 2)) \<le> round_frac rmode sg num den"
      using lt q small by linarith
    ultimately show ?thesis using False lt i pack_fields [of 0 q sg] pow_ew q
      unfolding round correctly_rounded_def p by (simp add: e fl_def)
  qed
qed

lemma fp_round_normal:
  fixes s :: "'h word"
  assumes "0 < den" "2 ^ (SW d + 2) \<le> unat s" "unat s < 2 ^ (SW d + 3)"
    and "MINIMUM_EXPONENT d \<le> ex"
    and "sticky (unat s) num (den * 2 ^ nat (ex - MINIMUM_EXPONENT d))"
  shows "correctly_rounded d rmode sg num den (fp_round d rmode sg ex s)"
proof -
  define k D where "k = nat (ex - MINIMUM_EXPONENT d)" and "D = den * 2 ^ k"
  have D: "0 < D" "sticky (unat s) num D" using assms(1,5) by (simp_all add: D_def k_def)
  obtain i q where iq: "round_significand rmode sg s = (i, q)" by fastforce
  have rs: "i \<longleftrightarrow> unat s mod 4 \<noteq> 0" "unat q = round_frac rmode sg (unat s) 4"
    using round_significand_spec [OF significand_fits(2) significand_fits(1) [OF assms(3)], of rmode sg] iq
    by simp_all
  have q: "unat q = round_frac rmode sg num D" using rs(2) sticky_round_frac [OF D] by simp
  have i: "i \<longleftrightarrow> \<not> D dvd num" using rs(1) sticky_parts [OF D] by (simp add: dvd_eq_mod_eq_0)
  have "2 ^ SW d \<le> unat s div 4" "unat s div 4 < 2 ^ (SW d + 1)"
    using assms(2,3) by (simp_all add: power_add div_less_iff_less_mult less_eq_div_iff_mult_less_eq)
  then have nd: "2 ^ SW d \<le> num div D" "num div D < 2 ^ (SW d + 1)" using sticky_parts [OF D] by argo+
  then have qb: "2 ^ SW d \<le> unat q" using q round_frac_ge [of num D rmode sg] by simp
  have qle: "unat q \<le> 2 ^ (SW d + 1)"
    unfolding rs(2) using assms(3) by (intro round_frac_le) (simp_all add: power_add)
  have nk: "2 ^ (SW d + k) \<le> num div den" "num div den < 2 ^ (SW d + k + 1)"
    using nd by (simp_all add: D_def div_mult2_eq power_add less_eq_div_iff_mult_less_eq div_less_iff_less_mult
      mult.commute mult.left_commute)
  then have e: "ulp_exp d num den = k" by (rule ulp_exp_eq)
  have i1: "unat q = 2 ^ (SW d + 1) \<Longrightarrow> i"
    using q i nd(2) round_frac_exact [OF _ D(1), of num rmode sg] by auto
  have under: "\<not> round_frac rmode sg (2 * num) den < 2 ^ (SW d + 1)"
  proof -
    have "2 ^ SW d \<le> num div den"
      using nk(1) power_increasing [of "SW d" "SW d + k" "2 :: nat"] by linarith
    then have "2 ^ (SW d + 1) \<le> 2 * num div den" using double_div_mod [OF assms(1), of num] by auto
    then show ?thesis using round_frac_ge [of "2 * num" den rmode sg] by simp
  qed
  have be: "ex + EXPONENT_BIAS d = int (k + 1)"
    using assms(4) by (simp add: k_def MINIMUM_EXPONENT_def)
  have mx: "MAXIMUM_EXPONENT d < ex \<longleftrightarrow> 2 ^ EW d - 2 \<le> k"
    using assms(4) pow_ew unfolding minimum_maximum k_def by linarith
  show ?thesis
  proof (cases "MAXIMUM_EXPONENT d < ex")
    case True
    have "(2 :: nat) ^ (SW d + (2 ^ EW d - 2)) \<le> 2 ^ SW d * 2 ^ k"
      using True mx by (simp flip: power_add)
    also have "\<dots> \<le> unat q * 2 ^ k" using qb by simp
    finally have "correctly_rounded d rmode sg num den (round_overflow d rmode sg :: 'h word \<times> u32)"
      by (intro overflow_correct(1)) (simp add: e q D_def)
    then show ?thesis unfolding fp_round_def using True by simp
  next
    case False
    define fl :: u32 where "fl = (if i then INEXACT else 0)"
    define carry where "carry \<longleftrightarrow> unat q = 2 ^ (SW d + 1)"
    define q' k' where "q' = (if carry then drop_bit 1 q else q)" and "k' = (if carry then k + 1 else k)"
    have round: "fp_round d rmode sg ex s =
      (if 2 ^ EW d - 2 \<le> k' then (let (r, fl') = round_overflow d rmode sg in (r, fl OR fl'))
       else (set_trailing_significand d q' (set_biased_exponent d (of_nat (k' + 1)) (set_sign d sg 0)), fl))"
    proof (cases carry)
      case True
      then have qp: "q = push_bit (SW d + 1) 1" i unfolding eq_push_iff [OF order_refl]
        using i1 by (simp_all add: carry_def)
      have k'1: "k' = nat (ex - MINIMUM_EXPONENT d) + 1" using True by (simp add: k'_def k_def)
      have "MAXIMUM_EXPONENT d < ex + 1 \<longleftrightarrow> 2 ^ EW d - 2 \<le> k'" "\<not> ex + 1 < MINIMUM_EXPONENT d"
        using assms(4) pow_ew k'1 unfolding minimum_maximum by linarith+
      moreover have "(of_int (ex + 1 + EXPONENT_BIAS d) :: u32) = of_nat (k' + 1)"
        using be True by (metis (no_types) add.assoc add.commute k'_def of_int_of_nat_eq of_nat_1 of_nat_add)
      ultimately show ?thesis unfolding fp_round_def using False assms(4) qp True
        by (simp add: iq fl_def q'_def del: push_bit_of_1 of_nat_add of_int_add of_nat_Suc)
    next
      case nc: False
      then have "q \<noteq> push_bit (SW d + 1) 1" unfolding eq_push_iff [OF order_refl] by (simp add: carry_def)
      moreover have "(of_int (ex + EXPONENT_BIAS d) :: u32) = of_nat (k' + 1)"
        using be nc by (metis k'_def of_int_of_nat_eq)
      ultimately show ?thesis unfolding fp_round_def using False assms(4) mx nc
        by (simp add: iq fl_def q'_def k'_def del: push_bit_of_1 of_nat_add of_int_add of_nat_Suc)
    qed
    have qk: "unat q' * 2 ^ k' = unat q * 2 ^ k" "2 ^ SW d \<le> unat q'" "unat q' < 2 ^ (SW d + 1)"
      using qb qle unfolding q'_def k'_def carry_def by (auto simp: unat_drop carry_def)
    show ?thesis
    proof (cases "2 ^ EW d - 2 \<le> k'")
      case ov: True
      then have carry using False mx by (auto simp: k'_def split: if_splits)
      then have "fl = INEXACT" using i1 by (simp add: fl_def carry_def)
      have "(2 :: nat) ^ (SW d + (2 ^ EW d - 2)) \<le> 2 ^ SW d * 2 ^ k'"
        using ov by (simp flip: power_add)
      also have "\<dots> \<le> unat q' * 2 ^ k'" using qk(2) by (rule mult_le_mono1)
      finally show ?thesis
        using overflow_correct [of rmode sg num den] qk(1) q \<open>fl = INEXACT\<close> ov
        unfolding round by (simp add: e D_def)
    next
      case fin: False
      then have "k' + 1 < 2 ^ EW d" "k' + 1 \<noteq> 2 ^ EW d - 1" by simp_all
      moreover have "(2 :: nat) ^ EW d \<le> 2 ^ 32" using ew by (intro power_increasing) simp_all
      ultimately have u: "unat (of_nat (k' + 1) :: u32) = k' + 1"
        by (intro unat_of_nat_small) simp
      have "unat q' * 2 ^ k' < 2 ^ (SW d + 1) * 2 ^ k'" using qk(3) by simp
      also have "\<dots> \<le> 2 ^ (SW d + (2 ^ EW d - 2))"
        unfolding power_add [symmetric] using fin by (intro power_increasing) simp_all
      finally have small: "unat q * 2 ^ k < 2 ^ (SW d + (2 ^ EW d - 2))" using qk(1) by simp
      have "2 ^ SW d + unat q' mod 2 ^ SW d = unat q'"
        using qk(2,3) by (simp add: mod_if [of "unat q'"] le_mod_geq)
      with pack_fields [of "of_nat (k' + 1)" q' sg] u small \<open>k' + 1 < 2 ^ EW d\<close> \<open>k' + 1 \<noteq> 2 ^ EW d - 1\<close>
      show ?thesis unfolding correctly_rounded_def round using fin under i qk(1) q
        by (simp add: e D_def fl_def del: of_nat_add of_nat_Suc)
    qed
  qed
qed

text \<open>
  A significand with an exponent represents the magnitude \<open>num / den\<close>: exactly, or up to a sticky
  last bit. The rounding position is two bits above the last one.
\<close>

lemma fp_round_correct:
  fixes s :: "'h word"
  assumes "0 < den" "2 ^ (SW d + 2) \<le> unat s" "unat s < 2 ^ (SW d + 3)"
    and "MINIMUM_EXPONENT d - 2 ^ 20 \<le> ex" "repr d ex (unat s) num den"
  shows "correctly_rounded d rmode sg num den (fp_round d rmode sg ex s)"
proof (cases "ex < MINIMUM_EXPONENT d")
  case True
  then show ?thesis using fp_round_tiny [OF assms(1,3) True assms(4)] assms(5) by (simp add: repr_def)
next
  case False
  then show ?thesis using fp_round_normal [OF assms(1-3)] assms(5) by (simp add: repr_def)
qed

lemma normalize_and_round_correct:
  fixes S :: "'t::len word"
  assumes "0 < den" "S \<noteq> 0" "LENGTH('t) \<le> 2 ^ 12" "MINIMUM_EXPONENT d - 2 ^ 19 \<le> ex"
    and "exact d ex (unat S) num den \<or> 2 ^ (SW d + 2) \<le> unat S \<and> repr d ex (unat S) num den"
  shows "correctly_rounded d rmode sg num den (normalize_and_round d rmode sg ex S :: 'h word \<times> u32)"
proof -
  define n where "n = log2_floor S"
  have n: "2 ^ n \<le> unat S" "unat S < 2 ^ (n + 1)"
    using log2_floor_bounds [OF assms(2)] assms(3) by (simp_all add: n_def)
  have "(2 :: nat) ^ n < 2 ^ LENGTH('t)" using n(1) unsigned_less [of S, where 'a = nat] by linarith
  then have nl: "n < LENGTH('t)" by simp
  have mx: "(2 :: nat) ^ (SW d + 3) \<le> 2 ^ LENGTH('h)" using width ew by (intro power_increasing) simp_all
  obtain ex' and s :: "'h word" where nm: "fp_normalize d ex S = (ex', s)" by fastforce
  have "2 ^ (SW d + 2) \<le> unat s \<and> unat s < 2 ^ (SW d + 3) \<and> repr d ex' (unat s) num den \<and>
    MINIMUM_EXPONENT d - 2 ^ 20 \<le> ex'"
  proof (cases "n \<le> SW d + 2")
    case True
    define m where "m = SW d + 2 - n"
    have b: "2 ^ (SW d + 2) \<le> unat S * 2 ^ m" "unat S * 2 ^ m < 2 ^ (SW d + 3)"
      using scale_bounds(1) [OF n(1), of m] scale_bounds(2) [OF n(2), of m] True
      by (simp_all add: m_def power_add)
    have "unat S \<le> unat S * 2 ^ m" by simp
    then have "unat S < 2 ^ LENGTH('h)" using b(2) mx by linarith
    then have "unat (ucast S :: 'h word) = unat S" by (rule unat_ucast_small)
    moreover have "m < LENGTH('h)" using width ew by (simp add: m_def)
    ultimately have "unat (rust_shl (ucast S :: 'h word) m) = unat S * 2 ^ m"
      using less_le_trans [OF b(2) mx] by (subst rust_shl_def, subst unat_push) simp_all
    moreover have "int m = int (SW d) + 2 - int n" "nat (int (SW d) - (int n - 2)) = m"
      using True by (simp_all add: m_def of_nat_diff)
    then have "s = rust_shl (ucast S) m" "ex' = ex - int m"
      using nm True sw unfolding fp_normalize_def Let_def by (auto simp: as_u32_def simp flip: n_def)
    ultimately have s: "unat s = unat S * 2 ^ m" "ex' = ex - int m" by simp_all
    have "repr d ex' (unat s) num den"
    proof (cases "exact d ex (unat S) num den")
      case True
      then show ?thesis unfolding s using assms(1) by (intro exact_repr exact_scale)
    next
      case False
      then have "m = 0" "repr d ex (unat S) num den"
        using assms(5) n(2) True power_less_imp_less_exp [of "2 :: nat" "SW d + 2" "n + 1"]
        by (auto simp: m_def)
      then show ?thesis by (simp add: s)
    qed
    with b s assms(4) sw show ?thesis by (simp add: m_def)
  next
    case False
    define m where "m = n - (SW d + 2)"
    have nm': "n = SW d + 2 + m" using False by (simp add: m_def)
    have b: "2 ^ (SW d + 2) \<le> jam (unat S) m" "jam (unat S) m < 2 ^ (SW d + 3)"
    proof -
      show "2 ^ (SW d + 2) \<le> jam (unat S) m" by (rule jam_ge) (use n(1) nm' in simp_all)
      have "unat S < 2 ^ (SW d + 3 + m)" using n(2) unfolding nm' by (simp add: power_add)
      then show "jam (unat S) m < 2 ^ (SW d + 3)" by (rule jam_less) simp
    qed
    then have "unat (ucast (right_shift S m) :: 'h word) = jam (unat S) m"
      using less_le_trans [OF b(2) mx] by (subst unat_ucast_small) (simp_all add: unat_right_shift)
    moreover have "int m = int n - 2 - int (SW d)" "nat (int n - 2 - int (SW d)) = m"
      using nm' by simp_all
    then have "s = ucast (right_shift S m)" "ex' = ex + int m"
      using nm False nl assms(3) unfolding fp_normalize_def Let_def by (auto simp: as_u32_def simp flip: n_def)
    ultimately have s: "unat s = jam (unat S) m" "ex' = ex + int m" by simp_all
    have "repr d ex (unat S) num den" using assms(1,5) exact_repr by blast
    then have "repr d ex' (unat s) num den" unfolding s using assms(1) by (rule repr_jam)
    with b s assms(4) show ?thesis by simp
  qed
  with fp_round_correct [OF assms(1)] show ?thesis by (simp add: normalize_and_round_def nm)
qed

end

end
