(* ===== verification/Softfp_Correct.thy ===== *)
theory Softfp_Correct
  imports Softfp_Format
begin

text \<open>
  The arithmetic operations of \<open>lib/softfp\<close> are correctly rounded.
\<close>

section \<open>Representations as real equations\<close>

lemma pow_nat_diff: "(2 :: real) ^ nat i = 2 powi i * 2 ^ nat (- i)"
  by (cases "0 \<le> i") (simp_all add: power_int_def power_inverse [symmetric] field_simps)

lemma exact_real:
  assumes "0 < den"
  shows "exact d ex s num den \<longleftrightarrow> real s / 4 * 2 powi (ex - MINIMUM_EXPONENT d) = real num / real den"
proof -
  have "exact d ex s num den \<longleftrightarrow> real (s * (den * 2 ^ nat (ex - MINIMUM_EXPONENT d))) =
      real (4 * (num * 2 ^ nat (MINIMUM_EXPONENT d - ex)))"
    unfolding exact_def of_nat_eq_iff by (rule refl)
  also have "\<dots> \<longleftrightarrow> real s / 4 * 2 powi (ex - MINIMUM_EXPONENT d) = real num / real den"
    using assms pow_nat_diff [of "ex - MINIMUM_EXPONENT d"] by (simp add: field_simps)
  finally show ?thesis .
qed

lemma repr_real:
  assumes "0 < den" "0 < den'" "sticky s num' den'"
    and "real num' / real den' * 2 powi (ex - MINIMUM_EXPONENT d) = real num / real den"
  shows "repr d ex s num den"
proof -
  have "real (num' * (den * 2 ^ nat (ex - MINIMUM_EXPONENT d))) =
      real (num * 2 ^ nat (MINIMUM_EXPONENT d - ex) * den')"
    using assms(1,2,4) pow_nat_diff [of "ex - MINIMUM_EXPONENT d"] by (simp add: field_simps)
  then have "num' * (den * 2 ^ nat (ex - MINIMUM_EXPONENT d)) = num * 2 ^ nat (MINIMUM_EXPONENT d - ex) * den'"
    by (simp only: of_nat_eq_iff)
  then show ?thesis unfolding repr_def using assms(1-3) by (subst (asm) sticky_cross) simp_all
qed

text \<open>The magnitude of \<open>1.0\<close>, in units of the smallest subnormal number.\<close>

definition one_mag :: "FpDesc \<Rightarrow> nat" where
  "one_mag d = 2 ^ nat (int (SW d) - MINIMUM_EXPONENT d)"

section \<open>The division loop\<close>

lemma divide_step:
  fixes b bt quo rem :: "'h::len word"
  assumes "unat rem < 2 * unat b" "2 * unat b \<le> 2 ^ LENGTH('h)" "unat quo + unat bt < 2 ^ LENGTH('h)"
  obtains quo' rem' where
    "(if b \<le> rem then (rem - b, quo + bt) else (rem, quo)) = (rem', quo')"
    "unat quo' = unat quo + unat bt * (unat rem div unat b)" "unat (push_bit 1 rem') = 2 * (unat rem mod unat b)"
    "unat (push_bit 1 rem') < 2 * unat b"
proof (cases "b \<le> rem")
  case True
  then have le: "unat b \<le> unat rem" by (simp add: word_le_nat_alt)
  have dm: "unat rem div unat b = 1" "unat rem mod unat b = unat rem - unat b"
    using le assms(1) by (simp_all add: div_nat_eqI mod_nat_eqI le_mod_geq)
  have "unat (rem - b) = unat rem - unat b" using True by (rule unat_sub)
  moreover from this have "unat (push_bit 1 (rem - b)) = (unat rem - unat b) * 2 ^ 1"
    using assms(1,2) by (subst unat_push) simp_all
  moreover have "unat (quo + bt) = unat quo + unat bt"
    using assms(3) by (simp add: unat_plus_if_size word_size)
  ultimately show ?thesis using True dm assms(1) le
    by (intro that [of "rem - b" "quo + bt"]) simp_all
next
  case False
  then have lt: "unat rem < unat b" by (simp add: word_le_nat_alt)
  then have "unat (push_bit 1 rem) = unat rem * 2 ^ 1" using assms(2) by (intro unat_push) simp
  with False lt show ?thesis by (intro that [of rem quo]) simp_all
qed

lemma divide_loop_correct:
  fixes b bt quo rem :: "'h::len word"
  assumes "unat bt = 2 ^ (n + 1)"
    and "unat rem < 2 * unat b" "2 * unat b \<le> 2 ^ LENGTH('h)" "unat quo + 2 ^ (n + 2) \<le> 2 ^ LENGTH('h)"
  shows "\<exists>q r. divide_loop b bt quo rem = Some (q, r) \<and>
    unat q = unat quo + 2 * (unat rem * 2 ^ n div unat b) \<and> unat r = 2 * (unat rem * 2 ^ n mod unat b)"
  using assms
proof (induction n arbitrary: bt quo rem)
  case 0
  then have "unat quo + unat bt < 2 ^ LENGTH('h)" by simp
  from divide_step [OF 0(2,3) this] obtain quo' rem' where st:
    "(if b \<le> rem then (rem - b, quo + bt) else (rem, quo)) = (rem', quo')"
    "unat quo' = unat quo + unat bt * (unat rem div unat b)" "unat (push_bit 1 rem') = 2 * (unat rem mod unat b)"
    by blast
  have bt: "bt \<noteq> 1" "drop_bit 1 bt = 1"
    using 0(1) by (auto simp: word_unat_eq_iff unat_drop)
  have "divide_loop b bt quo rem = divide_loop b 1 quo' (push_bit 1 rem')"
    by (subst divide_loop.simps) (simp only: bt st(1) Let_def case_prod_conv if_True not_False_eq_True simp_thms)
  also have "\<dots> = Some (quo', push_bit 1 rem')" by (subst divide_loop.simps) simp
  finally show ?case using st(2,3) 0(1) by simp
next
  case (Suc n)
  have "(2 :: nat) ^ (Suc n + 1) < 2 ^ (Suc n + 2)" by simp
  then have "unat quo + unat bt < 2 ^ LENGTH('h)" using Suc.prems(1,4) by linarith
  from divide_step [OF Suc.prems(2,3) this] obtain quo' rem' where st:
    "(if b \<le> rem then (rem - b, quo + bt) else (rem, quo)) = (rem', quo')"
    "unat quo' = unat quo + unat bt * (unat rem div unat b)" "unat (push_bit 1 rem') = 2 * (unat rem mod unat b)"
    "unat (push_bit 1 rem') < 2 * unat b"
    by blast
  have b0: "0 < unat b" using Suc.prems(2) by linarith
  have "unat rem div unat b < 2" using Suc.prems(2) b0 by (simp add: div_less_iff_less_mult)
  then have "unat bt * (unat rem div unat b) \<le> unat bt" by simp
  then have fit: "unat quo' + 2 ^ (n + 2) \<le> 2 ^ LENGTH('h)"
  proof -
    have "(2 :: nat) ^ (Suc n + 2) = 2 * 2 ^ (n + 2)" "(2 :: nat) ^ (Suc n + 1) = 2 ^ (n + 2)" by simp_all
    with \<open>unat bt * _ \<le> unat bt\<close> st(2) Suc.prems(1,4) show ?thesis by linarith
  qed
  have bt: "bt \<noteq> 1" "unat (drop_bit 1 bt) = 2 ^ (n + 1)"
    using Suc.prems(1) by (auto simp: word_unat_eq_iff unat_drop)
  have rec: "divide_loop b bt quo rem = divide_loop b (drop_bit 1 bt) quo' (push_bit 1 rem')"
    by (subst divide_loop.simps) (simp only: bt st(1) Let_def case_prod_conv if_True not_False_eq_True simp_thms)
  have "unat rem * 2 ^ Suc n = (unat rem mod unat b) * 2 * 2 ^ n + (unat rem div unat b) * 2 ^ Suc n * unat b"
  proof -
    have "unat rem = unat rem div unat b * unat b + unat rem mod unat b" by simp
    then have "unat rem * 2 ^ Suc n = (unat rem div unat b * unat b + unat rem mod unat b) * 2 ^ Suc n"
      by (rule arg_cong)
    also have "\<dots> = unat rem mod unat b * 2 * 2 ^ n + unat rem div unat b * 2 ^ Suc n * unat b"
      by (simp only: add_mult_distrib add_mult_distrib2 power_Suc ac_simps)
    finally show ?thesis .
  qed
  then have "unat rem * 2 ^ Suc n div unat b = unat (push_bit 1 rem') * 2 ^ n div unat b + (unat rem div unat b) * 2 ^ Suc n"
    "unat rem * 2 ^ Suc n mod unat b = unat (push_bit 1 rem') * 2 ^ n mod unat b"
    using b0 unfolding st(3) by (simp_all only: div_mult_self1 mod_mult_self1) (simp_all add: mult.commute)
  with Suc.IH [OF bt(2) st(4) Suc.prems(3) fit] show ?case
    unfolding rec using st(2) Suc.prems(1) by auto
qed


context fp_format
begin

lemma one_mag_real: "real (one_mag d) = 2 powi (int (SW d) - MINIMUM_EXPONENT d)"
  using exponent_range(2) by (simp add: one_mag_def power_int_def)

lemma one_mag_pos: "0 < one_mag d"
  by (simp add: one_mag_def)

lemma divide_finite_correct:
  fixes a b :: "'h word"
  assumes "is_finite d a" "\<not> is_zero d a" "is_finite d b" "\<not> is_zero d b"
  obtains r where "divide_finite d rmode sg a b = Some r"
    "correctly_rounded d rmode sg (fp_mag d a * one_mag d) (fp_mag d b) r"
proof -
  obtain ea sa where a: "get_normalized_significand d a = Some (ea, sa)"
      "2 ^ (SW d + 2) \<le> unat sa" "unat sa < 2 ^ (SW d + 3)"
      "MINIMUM_EXPONENT d - int (SW d) \<le> ea" "ea \<le> MAXIMUM_EXPONENT d" "exact d ea (unat sa) (fp_mag d a) 1"
    using get_normalized_significand_spec [OF assms(1,2)] by metis
  obtain eb sb where b: "get_normalized_significand d b = Some (eb, sb)"
      "2 ^ (SW d + 2) \<le> unat sb" "unat sb < 2 ^ (SW d + 3)"
      "MINIMUM_EXPONENT d - int (SW d) \<le> eb" "eb \<le> MAXIMUM_EXPONENT d" "exact d eb (unat sb) (fp_mag d b) 1"
    using get_normalized_significand_spec [OF assms(3,4)] by metis
  have mx: "(2 :: nat) ^ (SW d + 4) \<le> 2 ^ LENGTH('h)" using width ew by (intro power_increasing) simp_all
  have p: "(2 :: nat) ^ (SW d + 4) = 2 * 2 ^ (SW d + 3)" "(2 :: nat) ^ (SW d + 3) = 2 * 2 ^ (SW d + 2)"
    by (simp_all add: power_add)
  obtain A m where A: "(if sa < sb then (push_bit 1 sa, ea - eb - 1) else (sa, ea - eb)) = (A, ea - eb - int m)"
      "unat A = unat sa * 2 ^ m" "unat sb \<le> unat A" "unat A < 2 * unat sb" "m \<le> 1"
  proof (cases "sa < sb")
    case True
    then have "unat sa < unat sb" by (simp add: word_less_nat_alt)
    moreover have "unat (push_bit 1 sa) = unat sa * 2 ^ 1" using a(3) mx p by (intro unat_push) simp
    ultimately show ?thesis using True a(2) b(3) p by (intro that [of "push_bit 1 sa" 1]) simp_all
  next
    case False
    then have "unat sb \<le> unat sa" by (simp add: word_less_nat_alt)
    then show ?thesis using False a(3) b(2) p by (intro that [of sa 0]) simp_all
  qed
  define quo bt rem where "quo = push_bit (SW d + 2) (1 :: 'h word)" and "bt = push_bit (SW d + 1) (1 :: 'h word)"
    and "rem = push_bit 1 (A - sb)"
  have uq: "unat quo = 2 ^ (SW d + 2)" "unat bt = 2 ^ (SW d + 1)"
    unfolding quo_def bt_def using width ew by (simp_all only: unat_push_1)
  have urem: "unat rem = 2 * (unat A - unat sb)"
  proof -
    have "unat (A - sb) = unat A - unat sb" using A(3) by (intro unat_sub) (simp add: word_le_nat_alt)
    then show ?thesis unfolding rem_def using A(4) b(3) mx p by (subst unat_push) simp_all
  qed
  define X where "X = unat A * 2 ^ (SW d + 1)"
  obtain q r where loop: "divide_loop sb bt quo rem = Some (q, r)"
      "unat q = unat quo + 2 * (unat rem * 2 ^ SW d div unat sb)" "unat r = 2 * (unat rem * 2 ^ SW d mod unat sb)"
  proof -
    have "\<exists>q r. divide_loop sb bt quo rem = Some (q, r) \<and>
      unat q = unat quo + 2 * (unat rem * 2 ^ SW d div unat sb) \<and> unat r = 2 * (unat rem * 2 ^ SW d mod unat sb)"
      by (rule divide_loop_correct) (use uq urem A(3,4) b(3) mx p in simp_all)
    then show ?thesis using that by blast
  qed
  have sb0: "0 < unat sb" using A(4) by linarith
  have "X = unat rem * 2 ^ SW d + 2 ^ (SW d + 1) * unat sb"
    using A(3) by (simp add: X_def urem diff_mult_distrib algebra_simps)
  then have X: "X div unat sb = unat rem * 2 ^ SW d div unat sb + 2 ^ (SW d + 1)" "X mod unat sb = unat rem * 2 ^ SW d mod unat sb"
    using sb0 by simp_all
  define s where "s = (if r \<noteq> 0 then q OR 1 else q)"
  have "unat q = 2 * (X div unat sb)" using loop(2) uq X(1) by simp
  moreover have "r = 0 \<longleftrightarrow> X mod unat sb = 0" using loop(3) X(2) by (simp add: word_unat_eq_iff)
  ultimately have us: "unat s = 2 * (X div unat sb) + (if X mod unat sb = 0 then 0 else 1)"
    by (simp add: s_def unat_or_1)
  have "2 ^ (SW d + 1) \<le> X div unat sb" "X div unat sb < 2 ^ (SW d + 2)"
    using A(3,4) sb0 unfolding X_def
    by (simp_all add: less_eq_div_iff_mult_less_eq div_less_iff_less_mult)
  then have sbnd: "2 ^ (SW d + 2) \<le> unat s" "unat s < 2 ^ (SW d + 3)" unfolding us p by simp_all
  have st: "sticky (unat s) (unat A * 2 ^ SW d) (unat sb)" unfolding sticky_def us X_def by (simp add: mult.left_commute)
  have mag: "real (unat sa) / 4 * 2 powi (ea - MINIMUM_EXPONENT d) = real (fp_mag d a)"
    "real (unat sb) / 4 * 2 powi (eb - MINIMUM_EXPONENT d) = real (fp_mag d b)"
    using a(6) b(6) by (simp_all add: exact_real)
  have mb: "0 < fp_mag d b" using exact_pos [OF b(6) sb0] by simp
  have "repr d (ea - eb - int m) (unat s) (fp_mag d a * one_mag d) (fp_mag d b)"
  proof (rule repr_real [OF mb sb0 st])
    show "real (unat A * 2 ^ SW d) / real (unat sb) * 2 powi (ea - eb - int m - MINIMUM_EXPONENT d) =
      real (fp_mag d a * one_mag d) / real (fp_mag d b)"
      using sb0 unfolding of_nat_mult one_mag_real mag [symmetric] A(2)
      by (simp add: power_int_diff power_int_add field_simps)
  qed
  then have "correctly_rounded d rmode sg (fp_mag d a * one_mag d) (fp_mag d b)
      (fp_round d rmode sg (ea - eb - int m) s)"
    using exponent_range a(4,5) b(4,5) A(5) sw by (intro fp_round_correct [OF mb sbnd]) simp_all
  moreover have "divide_finite d rmode sg a b = Some (fp_round d rmode sg (ea - eb - int m) s)"
    unfolding divide_finite_def a(1) b(1) option.case prod.case Let_def A(1)
    by (simp only: loop(1) [unfolded quo_def bt_def rem_def] option.case prod.case s_def)
  ultimately show ?thesis using that by blast
qed

lemma finite_classes:
  fixes v :: "'h word"
  assumes "is_finite d v"
  shows "\<not> is_nan d v" "\<not> is_infinite d v"
  using assms by (simp_all add: is_finite_def is_nan_def is_infinite_def)

lemma fp_divide_correct:
  fixes a b :: "'h word"
  assumes "is_finite d a" "\<not> is_zero d a" "is_finite d b" "\<not> is_zero d b"
  shows "\<exists>r. fp_divide d rmode a b = Some r \<and>
    correctly_rounded d rmode (fp_sign d a \<noteq> fp_sign d b) (fp_mag d a * one_mag d) (fp_mag d b) r"
proof -
  obtain r where "divide_finite d rmode (fp_sign d a \<noteq> fp_sign d b) a b = Some r"
    "correctly_rounded d rmode (fp_sign d a \<noteq> fp_sign d b) (fp_mag d a * one_mag d) (fp_mag d b) r"
    by (rule divide_finite_correct [OF assms])
  then show ?thesis using assms(2,4)
    by (simp add: fp_divide_def Let_def finite_classes [OF assms(1)] finite_classes [OF assms(3)])
qed

section \<open>Conversion from integers\<close>

lemma convert_from_int_correct:
  fixes v :: "'t::len word"
  assumes "v \<noteq> 0" "LENGTH('t) \<le> 2 ^ 12"
  shows "correctly_rounded d rmode sg (unat v * one_mag d) 1
    (convert_from_int_with_sign d rmode sg v :: 'h word \<times> u32)"
proof -
  have "exact d (int (SW d) + 2) (unat v) (unat v * one_mag d) 1"
    by (simp add: exact_real one_mag_real power_int_diff power_int_add)
  then show ?thesis using assms exponent_range
    unfolding convert_from_int_with_sign_def
    by (auto intro!: normalize_and_round_correct)
qed

end

section \<open>Multiplication\<close>

locale fp_double = fp_format d T for d :: FpDesc and T :: "'h::len itself" +
  fixes W :: "'d::len itself"
  assumes double: "LENGTH('d) = 2 * LENGTH('h)"
begin

lemma product_exact:
  fixes sa sb :: "'h word"
  assumes "unat sa < 2 ^ (SW d + 3)" "unat sb < 2 ^ (SW d + 3)" "4 dvd unat sa"
    and "exact d ea (unat sa) ma 1" "exact d eb (unat sb) mb 1"
  defines "product \<equiv> ucast (drop_bit 2 sa) * ucast sb :: 'd word"
  shows "unat product = unat sa div 4 * unat sb" "unat product < 2 ^ (2 * SW d + 4)"
    and "exact d (ea + eb - int (SW d)) (unat product) (ma * mb) (one_mag d)"
proof -
  have c: "unat (ucast x :: 'd word) = unat x" for x :: "'h word"
    using power_increasing [of "LENGTH('h)" "LENGTH('d)" "2 :: nat"] double
    by (intro unat_ucast_small less_le_trans [OF unsigned_less]) simp
  have e4: "SW d + 1 + (SW d + 3) = 2 * SW d + 4" by simp
  have d4: "unat (drop_bit 2 sa) = unat sa div 4" unfolding unat_drop by simp
  have "unat sa div 4 < 2 ^ (SW d + 1)" using assms(1) by (simp add: power_add div_less_iff_less_mult)
  then have "unat sa div 4 * unat sb < 2 ^ (SW d + 1) * 2 ^ (SW d + 3)" using assms(2) by (intro mult_strict_mono) simp_all
  then have lt: "unat sa div 4 * unat sb < 2 ^ (2 * SW d + 4)" 
    unfolding power_add [symmetric] e4 .
  also have "(2 :: nat) ^ (2 * SW d + 4) \<le> 2 ^ LENGTH('d)" using double width ew by (intro power_increasing) simp_all
  finally show u: "unat product = unat sa div 4 * unat sb"
    unfolding product_def unat_word_ariths c d4 by (rule mod_less)
  with lt show "unat product < 2 ^ (2 * SW d + 4)" by simp
  have mag: "real (unat sa div 4) * 2 powi (ea - MINIMUM_EXPONENT d) = real ma"
    "real (unat sb) / 4 * 2 powi (eb - MINIMUM_EXPONENT d) = real mb"
    using assms(3-5) by (simp_all add: exact_real real_of_nat_div)
  show "exact d (ea + eb - int (SW d)) (unat product) (ma * mb) (one_mag d)"
    unfolding exact_real [OF one_mag_pos] u one_mag_real of_nat_mult mag [symmetric]
    by (simp add: field_simps power_int_diff power_int_add)
qed

lemma multiply_finite:
  fixes a b :: "'h word"
  assumes "is_finite d a" "\<not> is_zero d a" "is_finite d b" "\<not> is_zero d b"
  shows "\<exists>ea sa eb sb. get_normalized_significand d a = Some (ea, sa) \<and>
    get_normalized_significand d b = Some (eb, sb) \<and>
    correctly_rounded d rmode sg (fp_mag d a * fp_mag d b) (one_mag d)
      (normalize_and_round d rmode sg (ea + eb - int (SW d))
         (ucast (drop_bit 2 sa) * ucast sb :: 'd word) :: 'h word \<times> u32)"
proof -
  obtain ea sa where a: "get_normalized_significand d a = Some (ea, sa)"
      "2 ^ (SW d + 2) \<le> unat sa" "unat sa < 2 ^ (SW d + 3)"
      "MINIMUM_EXPONENT d - int (SW d) \<le> ea" "exact d ea (unat sa) (fp_mag d a) 1" "4 dvd unat sa"
    using get_normalized_significand_spec [OF assms(1,2)] by metis
  obtain eb sb where b: "get_normalized_significand d b = Some (eb, sb)"
      "2 ^ (SW d + 2) \<le> unat sb" "unat sb < 2 ^ (SW d + 3)"
      "MINIMUM_EXPONENT d - int (SW d) \<le> eb" "exact d eb (unat sb) (fp_mag d b) 1"
    using get_normalized_significand_spec [OF assms(3,4)] by metis
  define product where "product = (ucast (drop_bit 2 sa) * ucast sb :: 'd word)"
  note p = product_exact [OF a(3) b(3) a(6,5) b(5), folded product_def]
  have "0 < unat sb" using b(2) by (rule less_le_trans [rotated]) simp
  moreover have "1 \<le> unat sa div 4" using a(2) by (simp add: less_eq_div_iff_mult_less_eq power_add) (metis mult_le_mono2 one_le_numeral one_le_power mult.right_neutral order_trans)
  ultimately have "product \<noteq> 0" using p(1) by auto
  moreover have "LENGTH('d) \<le> 2 ^ 12" using double width ew sw by simp
  ultimately have "correctly_rounded d rmode sg (fp_mag d a * fp_mag d b) (one_mag d)
      (normalize_and_round d rmode sg (ea + eb - int (SW d)) product :: 'h word \<times> u32)"
    using p(3) a(4) b(4) exponent_range sw
    by (intro normalize_and_round_correct [OF one_mag_pos]) simp_all
  then show ?thesis using a(1) b(1) by (auto simp: product_def)
qed

lemma multiply_correct:
  fixes x y :: "'h word"
  assumes "is_finite d x" "\<not> is_zero d x" "is_finite d y" "\<not> is_zero d y"
  shows "\<exists>r. multiply W d rmode x y = Some r \<and>
    correctly_rounded d rmode (fp_sign d x \<noteq> fp_sign d y) (fp_mag d x * fp_mag d y) (one_mag d) r"
proof -
  define a b where "a = (if total_order_magnitude d x y = Less then y else x)"
    and "b = (if total_order_magnitude d x y = Less then x else y)"
  have ab: "is_finite d a" "\<not> is_zero d a" "is_finite d b" "\<not> is_zero d b"
    and sg: "(fp_sign d a \<noteq> fp_sign d b) = (fp_sign d x \<noteq> fp_sign d y)" "fp_mag d a * fp_mag d b = fp_mag d x * fp_mag d y"
    and sw: "(if total_order_magnitude d x y = Less then (y, x) else (x, y)) = (a, b)"
    using assms by (auto simp: a_def b_def)
  show ?thesis
    using multiply_finite [OF ab, of rmode "fp_sign d x \<noteq> fp_sign d y"] ab(4)
    unfolding multiply_def sw Let_def prod.case sg(1) sg(2) [symmetric]
    by (auto simp: finite_classes [OF ab(1)] simp del: split_paired_Ex)
qed

end

section \<open>Conversion between formats\<close>

locale fp_conversion = fp_format d T + dst: fp_format td U
  for d :: FpDesc and T :: "'h::len itself" and td :: FpDesc and U :: "'t::len itself"
begin

lemma convert_format_correct:
  fixes v :: "'h word"
  assumes "is_finite d v" "\<not> is_zero d v"
  shows "\<exists>r :: 't word \<times> u32. convert_format d td rmode v = Some r \<and>
    correctly_rounded td rmode (fp_sign d v) (fp_mag d v * one_mag td) (one_mag d) r"
proof -
  obtain ex s where v: "get_normalized_significand d v = Some (ex, s)"
      "2 ^ (SW d + 2) \<le> unat s" "MINIMUM_EXPONENT d - int (SW d) \<le> ex" "exact d ex (unat s) (fp_mag d v) 1"
    using get_normalized_significand_spec [OF assms] by metis
  have "s \<noteq> 0" using v(2) by auto
  have "real (unat s) / 4 * 2 powi (ex - MINIMUM_EXPONENT d) = real (fp_mag d v)"
    using v(4) by (simp add: exact_real)
  then have "exact td (ex - int (SW d) + int (SW td)) (unat s) (fp_mag d v * one_mag td) (one_mag d)"
    unfolding exact_real [OF one_mag_pos] of_nat_mult one_mag_real dst.one_mag_real
    by (simp add: field_simps power_int_diff power_int_add)
  then have "correctly_rounded td rmode (fp_sign d v) (fp_mag d v * one_mag td) (one_mag d)
     (normalize_and_round td rmode (fp_sign d v) (ex - int (SW d) + int (SW td)) s :: 't word \<times> u32)"
    using v(3) exponent_range dst.exponent_range sw dst.sw ew width \<open>s \<noteq> 0\<close>
    by (intro dst.normalize_and_round_correct [OF one_mag_pos]) simp_all
  then show ?thesis using assms(2) v(1) by (simp add: convert_format_def finite_classes [OF assms(1)])
qed

end

interpretation f32: fp_format F32Desc "TYPE(32)"
  by unfold_locales (simp_all add: F32Desc_def)

interpretation f64: fp_format F64Desc "TYPE(64)"
  by unfold_locales (simp_all add: F64Desc_def)

interpretation f32_mul: fp_double F32Desc "TYPE(32)" "TYPE(64)"
  by unfold_locales simp

interpretation f64_mul: fp_double F64Desc "TYPE(64)" "TYPE(128)"
  by unfold_locales simp

interpretation f32_f64: fp_conversion F32Desc "TYPE(32)" F64Desc "TYPE(64)" ..

interpretation f64_f32: fp_conversion F64Desc "TYPE(64)" F32Desc "TYPE(32)" ..

end
