(* ===== verification/Softfp_Order.thy ===== *)
theory Softfp_Order
  imports Softfp_Correct
begin

text \<open>
  The comparisons of \<open>lib/softfp\<close> decide the order of the numbers. A number is the integer
  \<open>fp_int\<close>, a multiple of the smallest subnormal number; an infinity is the number its bit pattern
  would denote in a format with a larger exponent range, which is above every finite one.
\<close>

definition fp_int :: "FpDesc \<Rightarrow> 'h::len word \<Rightarrow> int" where
  "fp_int d v = (if fp_sign d v then - int (fp_mag d v) else int (fp_mag d v))"

definition ordering_of :: "int \<Rightarrow> int \<Rightarrow> fp_ordering" where
  "ordering_of i j = (if i < j then Less else if i = j then Equal else Greater)"

text \<open>The magnitude as a function of the bit pattern without its sign.\<close>

definition pattern_mag :: "nat \<Rightarrow> nat \<Rightarrow> nat" where
  "pattern_mag w c = (if c < 2 ^ w then c else (2 ^ w + c mod 2 ^ w) * 2 ^ (c div 2 ^ w - 1))"

lemma pattern_mag_split:
  assumes "t < 2 ^ w"
  shows "pattern_mag w (e * 2 ^ w + t) = (if e = 0 then t else (2 ^ w + t) * 2 ^ (e - 1))"
proof -
  have d: "(e * 2 ^ w + t) div 2 ^ w = e" "(e * 2 ^ w + t) mod 2 ^ w = t" using assms by simp_all
  then have "e * 2 ^ w + t < 2 ^ w \<longleftrightarrow> e = 0" by (metis div_less div_eq_0_iff power_not_zero zero_neq_numeral)
  with d show ?thesis by (simp add: pattern_mag_def)
qed

lemma pattern_mag_small: "c < 2 ^ (w + 1) \<Longrightarrow> pattern_mag w c = c"
  by (auto simp: pattern_mag_def mod_if [of c] le_div_geq)

lemma pattern_mag_Suc: "pattern_mag w c < pattern_mag w (Suc c)"
proof -
  define e t where "e = c div 2 ^ w" and "t = c mod 2 ^ w"
  have c: "c = e * 2 ^ w + t" and t: "t < 2 ^ w" by (simp_all only: e_def t_def div_mult_mod_eq) simp
  note m = pattern_mag_split
  show ?thesis
  proof (cases "Suc t < 2 ^ w")
    case True
    then have "Suc c = e * 2 ^ w + Suc t" by (simp add: c)
    with True t show ?thesis unfolding c by (simp only: m) (simp add: m)
  next
    case False
    then have "Suc t = 2 ^ w" using t by simp
    then have s: "Suc c = Suc e * 2 ^ w + 0" by (simp add: c)
    show ?thesis unfolding s unfolding c m [OF t] by (subst m) (use t in \<open>cases e; simp\<close>)+
  qed
qed

lemma pattern_mag_mono: "strict_mono (pattern_mag w)"
  using pattern_mag_Suc by (simp add: strict_mono_Suc_iff)

context fp_format
begin

lemma unat_abs:
  "unat (set_sign d False (v :: 'h word)) = unat (biased_exponent d v) * 2 ^ SW d + unat (trailing_significand d v)"
  using unat_fields [of "set_sign d False v"] by (simp add: fields)

lemma fp_mag_pattern: "fp_mag d (v :: 'h word) = pattern_mag (SW d) (unat (set_sign d False v))"
  unfolding unat_abs pattern_mag_split [OF trailing_less] fp_mag_def
  by (simp add: unat_eq_zero [symmetric, of "biased_exponent d v"] del: unat_eq_zero)

lemma biased_mono:
  fixes a b :: "'h word"
  assumes "fp_mag d b \<le> fp_mag d a"
  shows "unat (biased_exponent d b) \<le> unat (biased_exponent d a)"
proof -
  have "unat (biased_exponent d v) = unat (set_sign d False v) div 2 ^ SW d" for v :: "'h word"
    using trailing_less [of v] by (simp add: unat_abs)
  then show ?thesis
    using assms strict_mono_less_eq [OF pattern_mag_mono] by (simp add: fp_mag_pattern div_le_mono)
qed

lemma total_order_magnitude_spec:
  "total_order_magnitude d (a :: 'h word) b = ordering_of (int (fp_mag d a)) (int (fp_mag d b))"
  using strict_mono_less [OF pattern_mag_mono] strict_mono_eq [OF pattern_mag_mono]
  by (simp add: total_order_magnitude_def ordering_of_def Let_def fp_mag_pattern word_less_nat_alt word_unat_eq_iff)

lemma is_zero_mag: "is_zero d (v :: 'h word) \<longleftrightarrow> fp_mag d v = 0"
  by (auto simp: is_zero_def fp_mag_def unat_eq_zero)

lemma total_order_spec:
  fixes a b :: "'h word"
  assumes "\<not> (is_zero d a \<and> is_zero d b)"
  shows "total_order d a b = ordering_of (fp_int d a) (fp_int d b)"
  using assms
  by (auto simp: total_order_def total_order_magnitude_spec reverse_ordering_def ordering_of_def fp_int_def
    Let_def is_zero_mag)

lemma compare_quiet_spec:
  fixes a b :: "'h word"
  assumes "\<not> is_nan d a" "\<not> is_nan d b"
  shows "compare_quiet d a b = Some (ordering_of (fp_int d a) (fp_int d b))"
    "compare_signaling d a b = (Some (ordering_of (fp_int d a) (fp_int d b)), 0)"
proof -
  have "ordering_of (fp_int d a) (fp_int d b) = Equal" if "is_zero d a" "is_zero d b"
    using that by (simp add: is_zero_mag fp_int_def ordering_of_def)
  then show "compare_quiet d a b = Some (ordering_of (fp_int d a) (fp_int d b))"
    "compare_signaling d a b = (Some (ordering_of (fp_int d a) (fp_int d b)), 0)"
    using assms total_order_spec [of a b] by (auto simp: compare_quiet_def compare_signaling_def)
qed

lemma min_max_spec:
  fixes a b :: "'h word"
  assumes "\<not> is_nan d a" "\<not> is_nan d b"
  shows "\<exists>l h. min_max d a b = ((l, h), 0) \<and> {l, h} = {a, b} \<and> fp_int d l \<le> fp_int d h"
proof (cases "is_zero d a \<and> is_zero d b")
  case True
  then show ?thesis using assms by (auto simp: min_max_def is_zero_mag fp_int_def)
next
  case False
  then show ?thesis using assms total_order_spec [OF False]
    by (auto simp: min_max_def ordering_of_def split: if_splits)
qed

end

end
