(* ===== verification/Softfp_Add.thy ===== *)
theory Softfp_Add
  imports Softfp_Order
begin

text \<open>Addition and subtraction are correctly rounded.\<close>

lemma sticky_add:
  assumes "sticky s num den" "0 < den"
  shows "sticky (4 * k + s) (k * den + num) den"
proof -
  have "2 * (k * den + num) = 2 * num + 2 * k * den" by simp
  then have "2 * (k * den + num) div den = 2 * num div den + 2 * k" "2 * (k * den + num) mod den = 2 * num mod den"
    using assms(2) by (simp_all only: div_mult_self1 mod_mult_self1)
  then show ?thesis using assms(1) by (simp add: sticky_def)
qed

lemma sticky_sub:
  assumes "sticky s num den" "0 < den" "num \<le> k * den"
  shows "sticky (4 * k - s) (k * den - num) den"
proof -
  define q r where "q = 2 * num div den" and "r = 2 * num mod den"
  have num: "2 * num = q * den + r" and r: "r < den" using assms(2) by (simp_all add: q_def r_def)
  have s: "s = 2 * q + (if r = 0 then 0 else 1)" using assms(1) by (simp add: sticky_def q_def r_def)
  have e: "2 * (k * den - num) = 2 * k * den - (q * den + r)" by (simp add: diff_mult_distrib2 flip: num)
  have "q * den + r \<le> 2 * k * den" using assms(3) by (simp flip: num)
  show ?thesis
  proof (cases "r = 0")
    case True
    then have "2 * (k * den - num) = (2 * k - q) * den" by (simp add: e diff_mult_distrib)
    then show ?thesis using assms(2) True by (simp add: sticky_def s)
  next
    case False
    have "q * den < 2 * k * den" using \<open>q * den + r \<le> 2 * k * den\<close> False by linarith
    then have q: "q + 1 \<le> 2 * k" using assms(2) by simp
    then obtain j where j: "2 * k = q + 1 + j" by (metis le_Suc_ex)
    have "2 * (k * den - num) = (den - r) + j * den" unfolding e j using r by (simp add: add_mult_distrib)
    then have "2 * (k * den - num) div den = j" "2 * (k * den - num) mod den = den - r"
      using r False by (simp_all only: div_mult_self1 mod_mult_self1) simp_all
    then show ?thesis using False r j by (simp add: sticky_def s)
  qed
qed

context fp_format
begin

lemma exact_aligned:
  assumes "exact d ex s num 1" "MINIMUM_EXPONENT d \<le> ex"
  shows "s * 2 ^ nat (ex - MINIMUM_EXPONENT d) = 4 * num"
  using assms by (simp add: exact_def)

lemma repr_add:
  assumes "exact d ex (4 * k) m 1" "repr d ex s n 1" "MINIMUM_EXPONENT d \<le> ex"
  shows "repr d ex (4 * k + s) (m + n) 1"
  using sticky_add [of s n "2 ^ nat (ex - MINIMUM_EXPONENT d)" k] assms exact_aligned [OF assms(1,3)]
  by (simp add: repr_def)

lemma repr_sub:
  assumes "exact d ex (4 * k) m 1" "repr d ex s n 1" "MINIMUM_EXPONENT d \<le> ex" "n \<le> m"
  shows "repr d ex (4 * k - s) (m - n) 1"
  using sticky_sub [of s n "2 ^ nat (ex - MINIMUM_EXPONENT d)" k] assms exact_aligned [OF assms(1,3)]
  by (simp add: repr_def)

lemma as_u32_int: "n < 2 ^ 32 \<Longrightarrow> as_u32 (int n) = n"
  by (simp add: as_u32_def)

lemma mx: "(2 :: nat) ^ (SW d + 4) \<le> 2 ^ LENGTH('h)"
  using width ew by (intro power_increasing) simp_all

lemma align:
  fixes a b :: "'h word"
  assumes "fp_mag d b \<le> fp_mag d a"
    and "ea = MINIMUM_EXPONENT d + int (unat (biased_exponent d a) - 1)"
    and "eb = MINIMUM_EXPONENT d + int (unat (biased_exponent d b) - 1)"
  shows "ea = eb + int (nat (ea - eb))" "as_u32 (ea - eb) = nat (ea - eb)"
proof -
  show e: "ea = eb + int (nat (ea - eb))" using biased_mono [OF assms(1)] assms(2,3) by simp
  have "(2 :: nat) ^ EW d \<le> 2 ^ 15" using ew by (intro power_increasing) simp_all
  then have "nat (ea - eb) < 2 ^ 32" using assms(2,3) biased_less [of a] by simp
  then show "as_u32 (ea - eb) = nat (ea - eb)" using as_u32_int e by (metis add_diff_cancel_left')
qed

lemma carry_bit:
  fixes x :: "'h word"
  assumes "unat x < 2 ^ (SW d + 4)"
  shows "x AND push_bit (SW d + 3) 1 = 0 \<longleftrightarrow> unat x < 2 ^ (SW d + 3)"
proof -
  have "x AND push_bit (SW d + 3) 1 = 0 \<longleftrightarrow> \<not> bit x (SW d + 3)"
    by (simp only: bit_iff_and_push_bit_not_eq_0 not_not)
  also have "bit x (SW d + 3) \<longleftrightarrow> odd (unat x div 2 ^ (SW d + 3))"
    by (simp add: bit_unsigned_iff flip: bit_iff_odd)
  also have "\<not> odd (unat x div 2 ^ (SW d + 3)) \<longleftrightarrow> even (unat x div 2 ^ (SW d + 3))" by simp
  also have "unat x div 2 ^ (SW d + 3) < 2" using assms by (simp add: div_less_iff_less_mult power_add)
  then have "even (unat x div 2 ^ (SW d + 3)) \<longleftrightarrow> unat x div 2 ^ (SW d + 3) = 0" by (cases "unat x div 2 ^ (SW d + 3)") auto
  also have "\<dots> \<longleftrightarrow> unat x < 2 ^ (SW d + 3)" by (simp add: div_eq_0_iff)
  finally show ?thesis .
qed

text \<open>Two subnormal numbers: the sum of the patterns is exact.\<close>

lemma add_subnormal:
  fixes a b :: "'h word"
  assumes "biased_exponent d a = 0" "biased_exponent d b = 0"
  shows "correctly_rounded d rmode sg (fp_mag d a + fp_mag d b) 1
    (set_sign d sg (trailing_significand d a + trailing_significand d b), 0)"
proof -
  define t where "t = trailing_significand d a + trailing_significand d b"
  note ta = trailing_less [of a] and tb = trailing_less [of b]
  have "(2 :: nat) ^ (SW d + 1) \<le> 2 ^ LENGTH('h)" using width by (intro power_increasing) simp_all
  then have ut: "unat t = fp_mag d a + fp_mag d b"
    unfolding t_def using ta tb assms by (subst unat_plus_if_size) (simp add: word_size fp_mag_def)
  have lt: "unat t < 2 ^ (SW d + 1)" unfolding ut using ta tb assms by (simp add: fp_mag_def)
  have "(2 :: nat) ^ (SW d + 1) \<le> 2 ^ (EW d + SW d)" using ew by (intro power_increasing) simp_all
  then have sg: "\<not> fp_sign d t" unfolding sign_unat using lt by simp
  then have "unat (set_sign d False t) = unat t" using unat_abs [of t] unat_fields [of t] by simp
  then have "fp_mag d t = unat t" using pattern_mag_small [OF lt] fp_mag_pattern [of t] by simp
  moreover have "fp_mag d (set_sign d sg t) = fp_mag d t" by (simp add: fields fp_mag_def)
  ultimately have mag: "fp_mag d (set_sign d sg t) = unat t" by simp
  have "unat t div 2 ^ SW d < 2" using lt by (simp add: div_less_iff_less_mult)
  then have "unat (biased_exponent d t) \<noteq> 2 ^ EW d - 1"
    using pow_ew mod_less_eq_dividend [of "unat t div 2 ^ SW d" "2 ^ EW d"] unfolding unat_biased by linarith
  then have fin: "is_finite d (set_sign d sg t)"
    using biased_infinity_iff [of t] by (simp add: is_finite_def fields)
  have e: "ulp_exp d (unat t) 1 = 0"
    using floorlog_leI [OF lt] unfolding ulp_exp_def by simp
  have "(2 :: nat) ^ (SW d + 1) \<le> 2 ^ (SW d + (2 ^ EW d - 2))" using pow_ew by (intro power_increasing) simp_all
  then have "\<not> 2 ^ (SW d + (2 ^ EW d - 2)) \<le> unat t" using lt by linarith
  then show ?thesis
    using mag fin round_frac_exact [of 1 "unat t" rmode sg] unfolding correctly_rounded_def t_def [symmetric] ut [symmetric]
    by (simp only: e Let_def prod.case fields) simp
qed

lemma add_magnitude_correct:
  fixes a b :: "'h word"
  assumes "is_finite d a" "is_finite d b" "fp_mag d b \<le> fp_mag d a"
  shows "\<exists>r. add_magnitude d rmode a b = Some r \<and>
    correctly_rounded d rmode (fp_sign d a) (fp_mag d a + fp_mag d b) 1 r"
proof (cases "biased_exponent d a = 0")
  case True
  then have "biased_exponent d b = 0" using biased_mono [OF assms(3)] by (simp add: unat_eq_zero)
  from add_subnormal [OF True this] True show ?thesis
    by (simp add: add_magnitude_def finite_classes [OF assms(1)])
next
  case False
  obtain ea sa where a: "get_significand d a = Some (ea, sa)" "unat sa < 2 ^ (SW d + 3)"
      "ea = MINIMUM_EXPONENT d + int (unat (biased_exponent d a) - 1)"
      "exact d ea (unat sa) (fp_mag d a) 1" "2 ^ (SW d + 2) \<le> unat sa" "4 dvd unat sa"
    using get_significand_spec [OF assms(1)] False by metis
  obtain eb sb where b: "get_significand d b = Some (eb, sb)" "unat sb < 2 ^ (SW d + 3)"
      "eb = MINIMUM_EXPONENT d + int (unat (biased_exponent d b) - 1)"
      "exact d eb (unat sb) (fp_mag d b) 1"
    using get_significand_spec [OF assms(2)] by metis
  define n where "n = nat (ea - eb)"
  define sb' where "sb' = (if ea \<noteq> eb then right_shift sb (as_u32 (ea - eb)) else sb)"
  have n: "ea = eb + int n" "as_u32 (ea - eb) = n"
    using align [OF assms(3) a(3) b(3)] by (simp_all only: n_def)
  have sb': "unat sb' = jam (unat sb) n" unfolding sb'_def n(2) by (simp add: unat_right_shift n(1))
  define sm where "sm = sa + sb'"
  have "jam (unat sb) n < 2 ^ (SW d + 3)"
    using b(2) by (intro jam_keeps_less) simp_all
  then have usm: "unat sm = unat sa + jam (unat sb) n" "unat sm < 2 ^ (SW d + 4)"
    unfolding sm_def using a(2) mx by (simp_all add: unat_plus_if_size word_size sb' power_add)
  have k: "unat sa = 4 * (unat sa div 4)" using a(6) by simp
  have "repr d (eb + int n) (jam (unat sb) n) (fp_mag d b) 1"
    using b(4) by (intro repr_jam exact_repr) simp_all
  then have rsm: "repr d ea (unat sm) (fp_mag d a + fp_mag d b) 1"
    using a(3,4) n(1) k repr_add [of ea "unat sa div 4" "fp_mag d a" "jam (unat sb) n" "fp_mag d b"] by (simp add: usm)
  have lo: "2 ^ (SW d + 2) \<le> unat sm" using a(5) usm(1) by linarith
  have rng: "MINIMUM_EXPONENT d - 2 ^ 20 \<le> ea" "MINIMUM_EXPONENT d - 2 ^ 20 \<le> ea + 1" using a(3) by simp_all
  define r where "r = (if unat sm < 2 ^ (SW d + 3) then fp_round d rmode (fp_sign d a) ea sm
    else fp_round d rmode (fp_sign d a) (ea + 1) (right_shift sm 1))"
  have "correctly_rounded d rmode (fp_sign d a) (fp_mag d a + fp_mag d b) 1 r"
  proof (cases "unat sm < 2 ^ (SW d + 3)")
    case True
    then show ?thesis unfolding r_def using fp_round_correct [OF _ lo True rng(1) rsm] by simp
  next
    case False
    have "2 ^ (SW d + 2) \<le> jam (unat sm) 1" using False by (intro jam_ge) (simp_all add: power_add)
    moreover have "jam (unat sm) 1 < 2 ^ (SW d + 3)" using usm(2) by (intro jam_less) (simp_all add: power_add)
    ultimately show ?thesis unfolding r_def using False rng(2) repr_jam [OF rsm, of 1]
      by (simp add: fp_round_correct unat_right_shift)
  qed
  moreover have "add_magnitude d rmode a b = Some r"
    unfolding add_magnitude_def a(1) b(1) option.case prod.case Let_def
    using False carry_bit [OF usm(2)]
    by (simp add: finite_classes [OF assms(1)] r_def sm_def sb'_def del: push_bit_of_1)
  ultimately show ?thesis by blast
qed

lemma subtract_magnitude_correct:
  fixes a b :: "'h word"
  assumes "is_finite d a" "is_finite d b" "fp_mag d b \<le> fp_mag d a"
  shows "\<exists>r. subtract_magnitude d rmode a b = Some r \<and>
    (if fp_mag d a = fp_mag d b then r = (cancellation_zero d rmode, 0)
     else correctly_rounded d rmode (fp_sign d a) (fp_mag d a - fp_mag d b) 1 r)"
proof -
  obtain ea sa where a: "get_significand d a = Some (ea, sa)" "unat sa < 2 ^ (SW d + 3)"
      "ea = MINIMUM_EXPONENT d + int (unat (biased_exponent d a) - 1)"
      "exact d ea (unat sa) (fp_mag d a) 1" "4 dvd unat sa" "biased_exponent d a \<noteq> 0 \<longrightarrow> 2 ^ (SW d + 2) \<le> unat sa"
    using get_significand_spec [OF assms(1)] by metis
  obtain eb sb where b: "get_significand d b = Some (eb, sb)" "unat sb < 2 ^ (SW d + 3)"
      "eb = MINIMUM_EXPONENT d + int (unat (biased_exponent d b) - 1)"
      "exact d eb (unat sb) (fp_mag d b) 1" "4 dvd unat sb"
    using get_significand_spec [OF assms(2)] by metis
  define n where "n = nat (ea - eb)"
  have n: "ea = eb + int n" "as_u32 (ea - eb) = n"
    using align [OF assms(3) a(3) b(3)] by (simp_all only: n_def)
  have min: "MINIMUM_EXPONENT d \<le> ea" using a(3) by simp
  have len: "LENGTH('h) \<le> 2 ^ 12" using width ew sw by simp
  show ?thesis
  proof (cases "ea = eb")
    case True
    have e: "unat sa * 2 ^ nat (ea - MINIMUM_EXPONENT d) = 4 * fp_mag d a"
      "unat sb * 2 ^ nat (ea - MINIMUM_EXPONENT d) = 4 * fp_mag d b"
      using exact_aligned [OF a(4) min] exact_aligned [OF b(4)] True min by simp_all
    then have "unat sb * 2 ^ nat (ea - MINIMUM_EXPONENT d) \<le> unat sa * 2 ^ nat (ea - MINIMUM_EXPONENT d)"
      using assms(3) by simp
    then have le: "unat sb \<le> unat sa" by simp
    then have u: "unat (sa - sb) = unat sa - unat sb" by (intro unat_sub) (simp add: word_le_nat_alt)
    have "fp_mag d a = fp_mag d b \<longleftrightarrow> unat sa * 2 ^ nat (ea - MINIMUM_EXPONENT d) = unat sb * 2 ^ nat (ea - MINIMUM_EXPONENT d)"
      unfolding e by simp
    then have z: "sa - sb = 0 \<longleftrightarrow> fp_mag d a = fp_mag d b" using word_unat_eq_iff [of sa sb] by simp
    have "exact d ea (unat (sa - sb)) (fp_mag d a - fp_mag d b) 1"
      using e min by (simp add: exact_def u diff_mult_distrib diff_mult_distrib2)
    then have "fp_mag d a \<noteq> fp_mag d b \<Longrightarrow> correctly_rounded d rmode (fp_sign d a) (fp_mag d a - fp_mag d b) 1
        (normalize_and_round d rmode (fp_sign d a) ea (sa - sb) :: 'h word \<times> u32)"
      using z len min by (intro normalize_and_round_correct) simp_all
    then show ?thesis using True z unfolding subtract_magnitude_def a(1) b(1)
      by (simp add: finite_classes [OF assms(1)] del: split_paired_Ex)
  next
    case False
    then have n1: "1 \<le> n" using n(1) by simp
    have mags: "fp_mag d a \<noteq> fp_mag d b"
      using False a(3) b(3) biased_mono [of a b] biased_mono [of b a] by auto
    have "biased_exponent d a \<noteq> 0" using n1 n(1) a(3) b(3) by auto
    then have sa: "2 ^ (SW d + 2) \<le> unat sa" using a(6) by simp
    have p: "(2 :: nat) ^ (SW d + 4) = 4 * 2 ^ (SW d + 2)" "(2 :: nat) ^ (SW d + 3) = 2 * 2 ^ (SW d + 2)"
      by (simp_all add: power_add)
    have u2: "unat (push_bit 1 sa) = unat sa * 2 ^ 1" "unat (push_bit 1 sb) = unat sb * 2 ^ 1"
      using a(2) b(2) mx p by (intro unat_push; simp)+
    define B where "B = right_shift (push_bit 1 sb) n"
    have uB: "unat B = jam (unat sb * 2 ^ 1) n" unfolding B_def unat_right_shift u2(2) ..
    have jm: "unat sb * 2 ^ 1 < 2 ^ (SW d + 3 + 1)" using b(2) by (rule scale_bounds)
    have Blt: "unat B < 2 ^ (SW d + 3)"
      unfolding uB using jm n1 power_increasing [of "SW d + 3 + 1" "SW d + 3 + n" "2 :: nat"]
      by (intro jam_less less_le_trans [OF jm]) simp_all
    define S where "S = push_bit 1 sa - B"
    have uS: "unat S = unat sa * 2 ^ 1 - unat B"
      unfolding S_def u2(1) [symmetric] using Blt sa p u2(1) by (intro unat_sub) (simp add: word_le_nat_alt)
    have "S \<noteq> 0" using uS Blt sa p by (auto simp: word_unat_eq_iff)
    have ex: "exact d (ea - 1) (unat sa * 2 ^ 1) (fp_mag d a) 1" "exact d (eb - 1) (unat sb * 2 ^ 1) (fp_mag d b) 1"
      using exact_scale [OF a(4), of 1] exact_scale [OF b(4), of 1] by simp_all
    have min1: "MINIMUM_EXPONENT d \<le> ea - 1" using n1 n(1) b(3) by simp
    have k: "unat sa * 2 ^ 1 = 4 * (unat sa * 2 ^ 1 div 4)" using a(5) by auto
    have "repr d (eb - 1 + int n) (unat B) (fp_mag d b) 1"
      unfolding uB using ex(2) by (intro repr_jam exact_repr) simp_all
    then have rS: "repr d (ea - 1) (unat S) (fp_mag d a - fp_mag d b) 1"
      unfolding uS using repr_sub [of "ea - 1" "unat sa * 2 ^ 1 div 4" "fp_mag d a" "unat B" "fp_mag d b"] ex(1) k min1 assms(3) n(1)
      by (simp add: algebra_simps)
    have "exact d (ea - 1) (unat S) (fp_mag d a - fp_mag d b) 1 \<or> 2 ^ (SW d + 2) \<le> unat S"
    proof (cases "n = 1")
      case True
      have "even (unat sb)" using b(5) by auto
      then have "unat B = unat sb" unfolding uB by (auto simp: True jam_def)
      moreover have "exact d (ea - 1) (unat sb) (fp_mag d b) 1" using b(4) n(1) True by simp
      ultimately have "exact d (ea - 1) (unat S) (fp_mag d a - fp_mag d b) 1"
        using exact_aligned [OF ex(1) min1] exact_aligned [of "ea - 1" "unat sb" "fp_mag d b"] min1
        by (simp add: exact_def uS diff_mult_distrib diff_mult_distrib2)
      then show ?thesis ..
    next
      case False
      then have "(2 :: nat) ^ (SW d + 3 + 1) \<le> 2 ^ (SW d + 2 + n)" using n1 by (intro power_increasing) simp_all
      then have "unat B < 2 ^ (SW d + 2)" unfolding uB by (intro jam_less less_le_trans [OF jm]) simp_all
      then have "2 ^ (SW d + 2) \<le> unat S" using uS sa by (simp only: power_one_right)
      then show ?thesis ..
    qed
    then have "correctly_rounded d rmode (fp_sign d a) (fp_mag d a - fp_mag d b) 1
        (normalize_and_round d rmode (fp_sign d a) (ea - 1) S :: 'h word \<times> u32)"
      using rS \<open>S \<noteq> 0\<close> len min1 by (intro normalize_and_round_correct) auto
    moreover have "subtract_magnitude d rmode a b = Some (normalize_and_round d rmode (fp_sign d a) (ea - 1) S)"
      unfolding subtract_magnitude_def a(1) b(1) option.case prod.case Let_def n(2)
      using False by (simp add: finite_classes [OF assms(1)] S_def B_def del: push_bit_Suc)
    ultimately show ?thesis using mags by auto
  qed
qed

lemma negate_fields:
  "fp_sign d (negate d (v :: 'h word)) = (\<not> fp_sign d v)" "fp_mag d (negate d v) = fp_mag d v"
  "is_finite d (negate d v) = is_finite d v" "fp_int d (negate d v) = - fp_int d v"
  by (simp_all add: negate_def fields fp_mag_def is_finite_def fp_int_def)

lemma rounded_zero:
  fixes r :: "'h word \<times> u32"
  assumes "0 < den" "correctly_rounded d rmode sg 0 den r"
  shows "is_zero d (fst r)" "snd r = 0" "fp_sign d (fst r) = sg"
proof -
  have "round_frac rmode sg 0 n = 0" if "0 < n" for n
    using that by (simp add: round_frac_def split: RoundingMode.split)
  then show "is_zero d (fst r)" "snd r = 0" "fp_sign d (fst r) = sg"
    using assms by (auto simp: correctly_rounded_def Let_def is_zero_mag split: prod.splits)
qed

text \<open>
  The sum of two finite numbers. An exact sum of zero is the zero of the common sign, or the
  zero the rounding mode asks for; every other sum is correctly rounded.
\<close>

lemma fp_add_correct:
  fixes x y :: "'h word"
  assumes "is_finite d x" "is_finite d y"
  defines "z \<equiv> fp_int d x + fp_int d y"
  shows "\<exists>r. fp_add d rmode x y = Some r \<and>
    (if z \<noteq> 0 then correctly_rounded d rmode (z < 0) (nat \<bar>z\<bar>) 1 r
     else is_zero d (fst r) \<and> snd r = 0 \<and>
       fp_sign d (fst r) = (if fp_sign d x = fp_sign d y then fp_sign d x else rmode = TowardNegative))"
proof -
  define a b where "a = (if total_order_magnitude d x y = Less then y else x)"
    and "b = (if total_order_magnitude d x y = Less then x else y)"
  have ab: "is_finite d a" "is_finite d b" and z: "z = fp_int d a + fp_int d b"
    and sw: "(if total_order_magnitude d x y = Less then (y, x) else (x, y)) = (a, b)"
    and sg: "(fp_sign d a = fp_sign d b) = (fp_sign d x = fp_sign d y)" "fp_sign d x = fp_sign d y \<Longrightarrow> fp_sign d a = fp_sign d x"
    using assms by (auto simp: a_def b_def)
  have le: "fp_mag d b \<le> fp_mag d a"
    by (auto simp: a_def b_def total_order_magnitude_spec ordering_of_def)
  show ?thesis
  proof (cases "fp_sign d a = fp_sign d b")
    case True
    obtain r where r: "add_magnitude d rmode a b = Some r"
      "correctly_rounded d rmode (fp_sign d a) (fp_mag d a + fp_mag d b) 1 r"
      using add_magnitude_correct [OF ab le] by blast
    have add: "fp_add d rmode x y = Some r"
      using True r(1) by (simp add: fp_add_def sw finite_classes [OF ab(1)])
    have "nat \<bar>z\<bar> = fp_mag d a + fp_mag d b" "z \<noteq> 0 \<Longrightarrow> (z < 0) = fp_sign d a"
      using True by (auto simp: z fp_int_def)
    moreover from this(1) have "z = 0 \<Longrightarrow> fp_mag d a + fp_mag d b = 0" by simp
    ultimately show ?thesis using add r(2) rounded_zero [of 1 rmode "fp_sign d a" r] True sg
      by (cases "z = 0") (auto simp del: split_paired_Ex)
  next
    case False
    obtain r where r: "subtract_magnitude d rmode a (negate d b) = Some r"
      "if fp_mag d a = fp_mag d b then r = (cancellation_zero d rmode, 0)
       else correctly_rounded d rmode (fp_sign d a) (fp_mag d a - fp_mag d b) 1 r"
      using subtract_magnitude_correct [of a "negate d b" rmode, unfolded negate_fields, OF ab le] by blast
    have add: "fp_add d rmode x y = Some r"
      using False r(1) by (simp add: fp_add_def sw finite_classes [OF ab(1)])
    have "z = 0 \<longleftrightarrow> fp_mag d a = fp_mag d b" "nat \<bar>z\<bar> = fp_mag d a - fp_mag d b" "z \<noteq> 0 \<Longrightarrow> (z < 0) = fp_sign d a"
      using False le by (auto simp: z fp_int_def)
    moreover have "is_zero d (cancellation_zero d rmode :: 'h word)"
      "fp_sign d (cancellation_zero d rmode :: 'h word) = (rmode = TowardNegative)"
      by (simp_all add: cancellation_zero_def fp_zero_def is_zero_def fields)
    ultimately show ?thesis using add r(2) False sg(1) by auto
  qed
qed

lemma neq_iff_not: "(p \<noteq> q) = (p = (\<not> q))" for p q :: bool
  by blast

lemma fp_sub_correct:
  fixes x y :: "'h word"
  assumes "is_finite d x" "is_finite d y"
  defines "z \<equiv> fp_int d x - fp_int d y"
  shows "\<exists>r. fp_sub d rmode x y = Some r \<and>
    (if z \<noteq> 0 then correctly_rounded d rmode (z < 0) (nat \<bar>z\<bar>) 1 r
     else is_zero d (fst r) \<and> snd r = 0 \<and>
       fp_sign d (fst r) = (if fp_sign d x \<noteq> fp_sign d y then fp_sign d x else rmode = TowardNegative))"
  using fp_add_correct [OF assms(1), of "negate d y" rmode, unfolded negate_fields, OF assms(2)]
  unfolding fp_sub_def z_def by (simp only: diff_conv_add_uminus neq_iff_not)

end

end
