(* ===== verification/Softfp_Sqrt.thy ===== *)
theory Softfp_Sqrt
  imports Softfp_Correct
begin

text \<open>
  The square root of \<open>lib/softfp\<close> is correctly rounded. A square root is in general no fraction, so the
  specification compares squares: \<open>m\<close> is the root of \<open>p\<close> rounded to a multiple of \<open>u\<close>.
\<close>

definition rounded_root :: "RoundingMode \<Rightarrow> nat \<Rightarrow> nat \<Rightarrow> nat \<Rightarrow> bool" where
  "rounded_root rmode m u p \<longleftrightarrow> u dvd m \<and>
    (case rmode of
       TowardPositive \<Rightarrow> (m - u)\<^sup>2 < p \<and> p \<le> m\<^sup>2
     | TowardZero \<Rightarrow> m\<^sup>2 \<le> p \<and> p < (m + u)\<^sup>2
     | TowardNegative \<Rightarrow> m\<^sup>2 \<le> p \<and> p < (m + u)\<^sup>2
     | _ \<Rightarrow> (2 * m - u)\<^sup>2 < 4 * p \<and> 4 * p < (2 * m + u)\<^sup>2)"

section \<open>The loop\<close>

lemma sqrt_step:
  fixes hb res rem :: "'h::len word"
  assumes "unat res + 4 * unat hb \<le> M" "2 * M \<le> 2 ^ LENGTH('h)" "unat rem < 2 * unat res + 4 * unat hb"
    and "0 < unat hb"
  obtains res' rem' b where
    "(if rem \<ge> res + hb then (rem - (res + hb), res + push_bit 1 hb) else (rem, res)) = (rem', res')"
    "unat res' = unat res + 2 * unat hb * b" "unat rem = unat rem' + (unat res + unat hb) * b" "b \<le> 1"
    "unat (push_bit 1 rem') = 2 * unat rem'" "2 * unat rem' < 2 * unat res' + 2 * unat hb"
proof -
  have sm: "unat (res + hb) = unat res + unat hb"
    using assms(1,2,4) by (simp add: unat_plus_if_size word_size)
  have p2: "unat (push_bit 1 x) = 2 * unat x" if "2 * unat x < 2 ^ LENGTH('h)" for x :: "'h word"
    using unat_push [of x 1] that by (simp add: mult.commute)
  show ?thesis
  proof (cases "res + hb \<le> rem")
    case True
    then have le: "unat res + unat hb \<le> unat rem" by (simp add: word_le_nat_alt sm)
    define rem' where "rem' = rem - (res + hb)"
    have r: "unat rem' = unat rem - (unat res + unat hb)" unfolding rem'_def unat_sub [OF True] sm ..
    have "unat (push_bit 1 hb) = 2 * unat hb" using assms(1,2,4) by (intro p2) linarith
    then have "unat (res + push_bit 1 hb) = unat res + 2 * unat hb"
      using assms(1,2,4) by (simp add: unat_plus_if_size word_size del: push_bit_Suc)
    moreover have "unat (push_bit 1 rem') = 2 * unat rem'" using r le assms by (intro p2) linarith
    ultimately show ?thesis using True r le assms(3)
      by (intro that [of rem' "res + push_bit 1 hb" 1]) (simp_all add: rem'_def del: push_bit_Suc)
  next
    case False
    then have lt: "unat rem < unat res + unat hb" by (simp add: word_le_nat_alt sm)
    then have "unat (push_bit 1 rem) = 2 * unat rem" using assms by (intro p2) linarith
    with False lt show ?thesis by (intro that [of rem res 0]) (simp_all del: push_bit_Suc)
  qed
qed

lemma sqrt_loop_correct:
  fixes hb res rem :: "'h::len word"
  assumes "unat hb = 2 ^ n" "unat res + 4 * 2 ^ n \<le> M" "2 * M \<le> 2 ^ LENGTH('h)"
    and "unat rem < 2 * unat res + 4 * 2 ^ n" "even (unat res)"
    and "N = (unat res)\<^sup>2 + unat rem * (4 * 2 ^ n)"
  shows "\<exists>R r. sqrt_loop hb res rem = Some (R, r) \<and> N = (unat R)\<^sup>2 + 2 * unat r \<and> N < (unat R + 2)\<^sup>2 \<and>
    even (unat R) \<and> unat res \<le> unat R \<and> unat R + 2 \<le> M"
  using assms
proof (induction n arbitrary: hb res rem)
  case 0
  then have hb: "unat hb = 1" by simp
  obtain res' rem' b where st:
    "(if rem \<ge> res + hb then (rem - (res + hb), res + push_bit 1 hb) else (rem, res)) = (rem', res')"
    "unat res' = unat res + 2 * unat hb * b" "unat rem = unat rem' + (unat res + unat hb) * b" "b \<le> 1"
    "unat (push_bit 1 rem') = 2 * unat rem'" "2 * unat rem' < 2 * unat res' + 2 * unat hb"
    by (rule sqrt_step [of res hb M rem]) (use 0 hb in simp_all)
  have h: "hb \<noteq> 0" "drop_bit 1 hb = 0" using hb by (auto simp: word_unat_eq_iff unat_drop)
  have "sqrt_loop hb res rem = sqrt_loop 0 res' (push_bit 1 rem')"
    by (subst sqrt_loop.simps) (simp only: h st(1) Let_def case_prod_conv if_True not_False_eq_True simp_thms)
  also have "\<dots> = Some (res', push_bit 1 rem')" by (subst sqrt_loop.simps) simp
  finally have loop: "sqrt_loop hb res rem = Some (res', push_bit 1 rem')" .
  have N: "N = (unat res')\<^sup>2 + 4 * unat rem'"
    using 0(6) st(2-4) hb by (cases b) (auto simp: power2_eq_square algebra_simps)
  have "N < (unat res' + 2)\<^sup>2" using N st(6) hb by (simp add: power2_eq_square algebra_simps)
  then show ?case using loop N st(2,4,5) hb 0(2,5) by (auto)
next
  case (Suc n)
  then have hb: "unat hb = 2 * 2 ^ n" by simp
  obtain res' rem' b where st:
    "(if rem \<ge> res + hb then (rem - (res + hb), res + push_bit 1 hb) else (rem, res)) = (rem', res')"
    "unat res' = unat res + 2 * unat hb * b" "unat rem = unat rem' + (unat res + unat hb) * b" "b \<le> 1"
    "unat (push_bit 1 rem') = 2 * unat rem'" "2 * unat rem' < 2 * unat res' + 2 * unat hb"
    by (rule sqrt_step [of res hb M rem]) (use Suc.prems hb in simp_all)
  have h: "hb \<noteq> 0" "unat (drop_bit 1 hb) = 2 ^ n" using hb unfolding unat_drop by (auto simp: word_unat_eq_iff)
  have rec: "sqrt_loop hb res rem = sqrt_loop (drop_bit 1 hb) res' (push_bit 1 rem')"
    by (subst sqrt_loop.simps) (simp only: h st(1) Let_def case_prod_conv if_True not_False_eq_True simp_thms)
  have b: "b = 0 \<or> b = 1" using st(4) by auto
  have "N = (unat res')\<^sup>2 + unat (push_bit 1 rem') * (4 * 2 ^ n)"
    using Suc.prems(6) b unfolding st(5) st(2) st(3) hb by (auto simp: power2_eq_square algebra_simps)
  moreover have "unat res' + 4 * 2 ^ n \<le> M" using Suc.prems(2) b hb unfolding st(2) by auto
  moreover have "unat (push_bit 1 rem') < 2 * unat res' + 4 * 2 ^ n" using st(5,6) hb by simp
  moreover have "even (unat res')" using Suc.prems(5) st(2) by simp
  ultimately obtain R r where "sqrt_loop (drop_bit 1 hb) res' (push_bit 1 rem') = Some (R, r)"
      "N = (unat R)\<^sup>2 + 2 * unat r" "N < (unat R + 2)\<^sup>2" "even (unat R)" "unat res' \<le> unat R" "unat R + 2 \<le> M"
    using Suc.IH [OF h(2) _ Suc.prems(3)] by blast
  then show ?case unfolding rec using st(2) by auto
qed

section \<open>From digits to the rounded root\<close>

lemma rounded_root_scale:
  assumes "0 < c"
  shows "rounded_root rmode (c * m) (c * u) (c\<^sup>2 * p) \<longleftrightarrow> rounded_root rmode m u p"
proof -
  have e: "c * m - c * u = c * (m - u)" "c * m + c * u = c * (m + u)" "2 * (c * m) - c * u = c * (2 * m - u)"
    "2 * (c * m) + c * u = c * (2 * m + u)" "4 * (c\<^sup>2 * p) = c\<^sup>2 * (4 * p)"
    by (simp_all add: algebra_simps diff_mult_distrib2)
  show ?thesis using assms unfolding rounded_root_def e power_mult_distrib
    by (cases rmode) simp_all
qed

lemma rounded_root_exact: "0 < m \<Longrightarrow> 0 < u \<Longrightarrow> u dvd m \<Longrightarrow> rounded_root rmode m u (m\<^sup>2)"
proof -
  assume a: "0 < m" "0 < u" "u dvd m"
  then have "(m - u)\<^sup>2 < m\<^sup>2" "m\<^sup>2 < (m + u)\<^sup>2" by (simp_all add: power_strict_mono)
  moreover have "(2 * m - u)\<^sup>2 < (2 * m)\<^sup>2" "(2 * m)\<^sup>2 < (2 * m + u)\<^sup>2"
    using a by (intro power_strict_mono; simp)+
  ultimately show ?thesis using a(3) by (cases rmode) (simp_all add: rounded_root_def power_mult_distrib)
qed

lemma rounded_root_of_digits:
  fixes R s N q :: nat
  assumes "R\<^sup>2 \<le> N" "N < (R + 2)\<^sup>2" "even R" "16 dvd N" "s = R + (if N = R\<^sup>2 then 0 else 1)"
    and "q = round_frac rmode False s 4" "0 < R"
  shows "rounded_root rmode (4 * q) 4 N"
proof -
  obtain h where h: "R = 2 * h" using assms(3) by blast
  show ?thesis
  proof (cases "N = R\<^sup>2")
    case True
    have "even h"
    proof (rule ccontr)
      assume "odd h"
      then obtain j where "h = 2 * j + 1" by (metis oddE)
      then have "N = 16 * (j * j + j) + 4" using True h by (simp add: power2_eq_square algebra_simps)
      then show False using assms(4) by presburger
    qed
    then obtain j where j: "R = 4 * j" using h by auto
    then have "q = j" using assms(5,6) True round_frac_exact [of 4 s rmode False] by simp
    then show ?thesis using rounded_root_exact [of "4 * j" 4 rmode] True j assms(7) by simp
  next
    case False
    then have lt: "R\<^sup>2 < N" using assms(1) by simp
    have s: "s = R + 1" using False assms(5) by simp
    define j where "j = h div 2"
    consider "R = 4 * j" "s = 4 * j + 1" | "R = 4 * j + 2" "s = 4 * j + 3"
      using h s by (cases "even h") (auto simp: j_def elim!: evenE oddE)
    then show ?thesis
    proof cases
      case 1
      have "q = (if rmode = TowardPositive then j + 1 else j)"
        unfolding assms(6) 1(2) by (cases rmode) (simp_all add: round_frac_def)
      then show ?thesis using lt assms(2) unfolding 1(1)
        by (cases rmode) (auto simp: rounded_root_def power2_eq_square algebra_simps)
    next
      case 2
      have "q = (if rmode = TowardZero \<or> rmode = TowardNegative then j else j + 1)"
        unfolding assms(6) 2(2) by (cases rmode) (simp_all add: round_frac_def)
      then show ?thesis using lt assms(2) unfolding 2(1)
        by (cases rmode) (auto simp: rounded_root_def power2_eq_square algebra_simps)
    qed
  qed
qed


context fp_format
begin

lemma sqrt_finite_correct:
  fixes v :: "'h word"
  assumes "is_finite d v" "\<not> is_zero d v"
  shows "\<exists>r fl u. sqrt_finite d rmode v = Some (r, fl) \<and> is_finite d r \<and> \<not> fp_sign d r \<and>
    rounded_root rmode (fp_mag d r) u (fp_mag d v * one_mag d) \<and> 2 ^ SW d * u \<le> fp_mag d r \<and>
    fl = (if (fp_mag d r)\<^sup>2 = fp_mag d v * one_mag d then 0 else INEXACT)"
proof -
  obtain ev sv where v: "get_normalized_significand d v = Some (ev, sv)"
      "2 ^ (SW d + 2) \<le> unat sv" "unat sv < 2 ^ (SW d + 3)"
      "MINIMUM_EXPONENT d - int (SW d) \<le> ev" "ev \<le> MAXIMUM_EXPONENT d" "exact d ev (unat sv) (fp_mag d v) 1" "4 dvd unat sv"
    using get_normalized_significand_spec [OF assms] by metis
  have p: "(2 :: nat) ^ (SW d + 4) = 4 * 2 ^ (SW d + 2)" "(2 :: nat) ^ (SW d + 3) = 2 * 2 ^ (SW d + 2)"
    by (simp_all add: power_add)
  have mx: "(2 :: nat) ^ (SW d + 4) \<le> 2 ^ LENGTH('h)" using width ew by (intro power_increasing) simp_all
  obtain ex sig where x: "(if ev mod 2 \<noteq> 0 then (ev - 1, push_bit 1 sv) else (ev, sv)) = (2 * ex, sig)"
      "2 ^ (SW d + 2) \<le> unat sig" "unat sig < 2 ^ (SW d + 4)" "exact d (2 * ex) (unat sig) (fp_mag d v) 1" "4 dvd unat sig"
      "ev - 1 \<le> 2 * ex" "2 * ex \<le> ev"
  proof (cases "ev mod 2 = 0")
    case True
    then show ?thesis using v p by (intro that [of "ev div 2" sv]) auto
  next
    case False
    have u: "unat (push_bit 1 sv) = unat sv * 2 ^ 1" using v(3) mx p by (intro unat_push) simp
    have e: "2 * ((ev - 1) div 2) = ev - 1" using False by presburger
    show ?thesis
      by (rule that [of "(ev - 1) div 2" "push_bit 1 sv"])
        (use False v p e exact_scale [OF v(6), of 1] in \<open>simp_all only: u, simp_all\<close>)
  qed
  define k where "k = nat (ex - MINIMUM_EXPONENT d)"
  have k: "ex = MINIMUM_EXPONENT d + int k"
  proof -
    have "int (SW d + 3) \<le> int (2 ^ (EW d - 1))" using precision by (simp only: of_nat_le_iff)
    then have "int (SW d) + 3 \<le> 2 ^ (EW d - 1)" by simp
    then have "MINIMUM_EXPONENT d \<le> ex" using x(6) v(4) unfolding exponents by linarith
    then show ?thesis by (simp add: k_def)
  qed
  define N where "N = unat sig * 2 ^ (SW d + 2)"
  define res hb where "res = push_bit (SW d + 2) (1 :: 'h word)" and "hb = push_bit (SW d) (1 :: 'h word)"
  have ur: "unat res = 2 ^ (SW d + 2)" "unat hb = 2 ^ SW d"
    unfolding res_def hb_def using width ew by (simp_all only: unat_push_1)
  have um: "unat (sig - res) = unat sig - 2 ^ (SW d + 2)"
    unfolding ur(1) [symmetric] using x(2) ur by (intro unat_sub) (simp add: word_le_nat_alt)
  obtain R r where loop: "sqrt_loop hb res (sig - res) = Some (R, r)" "N = (unat R)\<^sup>2 + 2 * unat r"
      "N < (unat R + 2)\<^sup>2" "even (unat R)" "unat res \<le> unat R" "unat R + 2 \<le> 2 ^ (SW d + 3)"
  proof -
    have "\<exists>R r. sqrt_loop hb res (sig - res) = Some (R, r) \<and> N = (unat R)\<^sup>2 + 2 * unat r \<and> N < (unat R + 2)\<^sup>2 \<and>
        even (unat R) \<and> unat res \<le> unat R \<and> unat R + 2 \<le> 2 ^ (SW d + 3)"
    proof (rule sqrt_loop_correct [OF ur(2)])
      show "N = (unat res)\<^sup>2 + unat (sig - res) * (4 * 2 ^ SW d)"
        using x(2) by (simp add: N_def ur um power2_eq_square diff_mult_distrib)
    qed (use x(2,3) mx p ur um in simp_all)
    then show ?thesis using that by blast
  qed
  define s where "s = (if r \<noteq> 0 then R OR 1 else R)"
  have us: "unat s = unat R + (if N = (unat R)\<^sup>2 then 0 else 1)"
    using loop(2,4) by (auto simp: s_def unat_or_1 word_unat_eq_iff)
  have sb: "2 ^ (SW d + 2) \<le> unat s" "unat s < 2 ^ (SW d + 3)" using us loop(5,6) ur(1) by auto
  define q where "q = round_frac rmode False (unat s) 4"
  have "16 dvd N"
  proof -
    have "(4 :: nat) dvd 2 ^ (SW d + 2)" by (simp add: power_add)
    then have "4 * 4 dvd unat sig * 2 ^ (SW d + 2)" using x(5) by (intro mult_dvd_mono)
    then show ?thesis by (simp add: N_def)
  qed
  then have root: "rounded_root rmode (4 * q) 4 N"
    using rounded_root_of_digits [of "unat R" N "unat s" q rmode] loop(2-5) us q_def ur(1)
    by (simp add: less_le_trans [of 0 "2 ^ (SW d + 2)"])
  have NP: "N * (2 ^ k)\<^sup>2 = 16 * (fp_mag d v * one_mag d)"
  proof -
    have "real (unat sig) / 4 * 2 powi (2 * ex - MINIMUM_EXPONENT d) = real (fp_mag d v)"
      using x(4) by (simp add: exact_real)
    then have "real (16 * (fp_mag d v * one_mag d)) =
        16 * (real (unat sig) / 4 * 2 powi (2 * ex - MINIMUM_EXPONENT d) * 2 powi (int (SW d) - MINIMUM_EXPONENT d))"
      by (simp only: of_nat_mult one_mag_real of_nat_numeral)
    also have "\<dots> = 16 * (real (unat sig) / 4 * (2 powi (2 * ex - MINIMUM_EXPONENT d) * 2 powi (int (SW d) - MINIMUM_EXPONENT d)))"
      by (simp only: mult.assoc)
    also have "2 powi (2 * ex - MINIMUM_EXPONENT d) * 2 powi (int (SW d) - MINIMUM_EXPONENT d) = (2 :: real) ^ (2 * k + SW d)"
    proof -
      have "2 * ex - MINIMUM_EXPONENT d + (int (SW d) - MINIMUM_EXPONENT d) = int (2 * k + SW d)" by (simp add: k)
      then show ?thesis by (metis power_int_add power_int_of_nat zero_neq_numeral)
    qed
    also have "16 * (real (unat sig) / 4 * 2 ^ (2 * k + SW d)) = real (N * (2 ^ k)\<^sup>2)"
      by (simp add: N_def power_add power_mult [symmetric] mult.commute)
    finally show ?thesis by (simp only: of_nat_eq_iff)
  qed
  have root': "rounded_root rmode (q * 2 ^ k) (2 ^ k) (fp_mag d v * one_mag d)"
  proof -
    have "rounded_root rmode (2 ^ k * (4 * q)) (2 ^ k * 4) ((2 ^ k)\<^sup>2 * N)" using root by (simp add: rounded_root_scale)
    then have "rounded_root rmode (4 * (q * 2 ^ k)) (4 * 2 ^ k) (4\<^sup>2 * (fp_mag d v * one_mag d))"
      using NP by (simp add: ac_simps)
    then show ?thesis by (subst (asm) rounded_root_scale) simp_all
  qed
  have exact: "4 dvd unat s \<longleftrightarrow> (q * 2 ^ k)\<^sup>2 = fp_mag d v * one_mag d"
  proof -
    have "(q * 2 ^ k)\<^sup>2 = fp_mag d v * one_mag d \<longleftrightarrow> 16 * (q * 2 ^ k)\<^sup>2 = N * (2 ^ k)\<^sup>2" unfolding NP by simp
    also have "16 * (q * 2 ^ k)\<^sup>2 = (4 * q)\<^sup>2 * (2 ^ k)\<^sup>2" by (simp add: power_mult_distrib)
    finally have sq: "(q * 2 ^ k)\<^sup>2 = fp_mag d v * one_mag d \<longleftrightarrow> (4 * q)\<^sup>2 = N" by simp
    show ?thesis unfolding sq
    proof
      assume "4 dvd unat s"
      then have "even (unat s)" by auto
      then have "N = (unat R)\<^sup>2" "unat s = unat R" using us loop(4) by (auto split: if_splits)
      moreover have "4 * q = unat s" using \<open>4 dvd unat s\<close> by (simp add: q_def round_frac_exact)
      ultimately show "(4 * q)\<^sup>2 = N" by simp
    next
      assume N4: "(4 * q)\<^sup>2 = N"
      then have "(unat R)\<^sup>2 \<le> (4 * q)\<^sup>2" "(4 * q)\<^sup>2 < (unat R + 2)\<^sup>2" using loop(2,3) by simp_all
      then have "unat R \<le> 4 * q" "4 * q < unat R + 2" by (simp_all only: power2_nat_le_eq_le power2_less_imp_less)
      then have "4 * q = unat R" using loop(4) by presburger
      then show "4 dvd unat s" using us N4 by (metis add.right_neutral dvd_triv_left)
    qed
  qed
  obtain rr fl where round: "fp_round d rmode False ex s = (rr, fl)" by fastforce
  have st: "sticky (unat s) (unat s * 2 ^ k) (4 * 2 ^ nat (ex - MINIMUM_EXPONENT d))"
    by (rule sticky_of_exact) (simp_all add: k)
  have cr: "correctly_rounded d rmode False (unat s * 2 ^ k) 4 (rr, fl)"
    unfolding round [symmetric] by (rule fp_round_normal [OF _ sb _ st]) (simp_all add: k)
  have "2 ^ (SW d + k) \<le> unat s * 2 ^ k div 4" "unat s * 2 ^ k div 4 < 2 ^ (SW d + k + 1)"
    using scale_bounds(1) [OF sb(1), of k] scale_bounds(2) [OF sb(2), of k]
    by (simp_all add: less_eq_div_iff_mult_less_eq div_less_iff_less_mult power_add)
  then have e: "ulp_exp d (unat s * 2 ^ k) 4 = k" by (rule ulp_exp_eq)
  have qq: "round_frac rmode False (unat s * 2 ^ k) (4 * 2 ^ k) = q"
    using round_frac_scale [of "2 ^ k" rmode False "unat s" 4] by (simp add: q_def mult.commute)
  have qb: "2 ^ SW d \<le> q" "q \<le> 2 ^ (SW d + 1)"
  proof -
    have "2 ^ SW d \<le> unat s div 4" using sb(1) by (simp add: less_eq_div_iff_mult_less_eq power_add)
    then show "2 ^ SW d \<le> q" using round_frac_ge [of "unat s" 4 rmode False] by (simp add: q_def)
    show "q \<le> 2 ^ (SW d + 1)" unfolding q_def using sb(2) by (intro round_frac_le) (simp_all add: power_add)
  qed
  have small: "\<not> 2 ^ (SW d + (2 ^ EW d - 2)) \<le> q * 2 ^ k"
  proof -
    have "k + 1 < 2 ^ EW d - 2"
      using x(7) v(5) k minimum_maximum pow_ew exponent_range(3) by linarith
    then have "(2 :: nat) ^ (SW d + 1 + k) < 2 ^ (SW d + (2 ^ EW d - 2))" by (intro power_strict_increasing) simp_all
    moreover have "q * 2 ^ k \<le> 2 ^ (SW d + 1) * 2 ^ k" using qb(2) by (rule mult_le_mono1)
    ultimately show ?thesis unfolding power_add [of 2 "SW d + 1" k] by linarith
  qed
  have under: "\<not> round_frac rmode False (2 * (unat s * 2 ^ k)) 4 < 2 ^ (SW d + 1)"
  proof -
    have "unat s \<le> unat s * 2 ^ k" by simp
    then have "2 ^ (SW d + 2) \<le> unat s * 2 ^ k" using sb(1) by linarith
    then have "2 ^ (SW d + 1) \<le> 2 * (unat s * 2 ^ k) div 4"
      by (simp add: less_eq_div_iff_mult_less_eq power_add)
    then show ?thesis using round_frac_ge [of "2 * (unat s * 2 ^ k)" 4 rmode False] by linarith
  qed
  have "is_finite d rr" "\<not> fp_sign d rr" "fp_mag d rr = q * 2 ^ k" "fl = (if 4 dvd unat s then 0 else INEXACT)"
    using cr small under unfolding correctly_rounded_def e qq Let_def prod.case by simp_all
  moreover have "sqrt_finite d rmode v = Some (rr, fl)"
    unfolding sqrt_finite_def v(1) option.case prod.case Let_def x(1)
    by (simp only: loop(1) [unfolded res_def hb_def] option.case prod.case s_def [symmetric]
      nonzero_mult_div_cancel_left round)
  ultimately show ?thesis using root' exact qb(1) by auto
qed

end

end
