(* ===== verification/Softfp_Theorems.thy ===== *)
theory Softfp_Theorems
  imports Softfp_Add Softfp_Sqrt
begin

text \<open>
  The theorems on \<open>lib/softfp\<close>, for every well-formed format (\<open>fp_format\<close>, interpreted for
  \<open>F32\<close> and \<open>F64\<close> in \<open>Softfp_Correct\<close>).
\<close>

context fp_format
begin

lemma is_zero_trailing:
  fixes v :: "'h word"
  assumes "\<not> is_nan d v" "\<not> is_infinite d v"
  shows "is_finite d v"
  using assms by (auto simp: is_nan_def is_infinite_def is_finite_def)

lemma square_root_correct:
  fixes v :: "'h word"
  assumes "is_finite d v" "\<not> is_zero d v" "\<not> fp_sign d v"
  shows "\<exists>r fl u. square_root d rmode v = Some (r, fl) \<and> is_finite d r \<and> \<not> fp_sign d r \<and>
    rounded_root rmode (fp_mag d r) u (fp_mag d v * one_mag d) \<and> 2 ^ SW d * u \<le> fp_mag d r \<and>
    fl = (if (fp_mag d r)\<^sup>2 = fp_mag d v * one_mag d then 0 else INEXACT)"
  using sqrt_finite_correct [OF assms(1,2), of rmode] assms(2,3)
  by (simp add: square_root_def finite_classes [OF assms(1)])

lemma divide_total: "fp_divide d rmode (a :: 'h word) b \<noteq> None"
proof (cases "is_finite d a \<and> is_finite d b \<and> \<not> is_zero d a \<and> \<not> is_zero d b")
  case True
  then show ?thesis using fp_divide_correct [of a b rmode] by force
next
  case False
  then show ?thesis using is_zero_trailing [of a] is_zero_trailing [of b]
    by (auto simp: fp_divide_def Let_def)
qed

lemma square_root_total: "square_root d rmode (v :: 'h word) \<noteq> None"
proof (cases "is_finite d v \<and> \<not> is_zero d v \<and> \<not> fp_sign d v")
  case True
  then show ?thesis using square_root_correct [of v rmode] by force
next
  case False
  then show ?thesis using is_zero_trailing [of v] by (auto simp: square_root_def)
qed

lemma smaller_finite:
  fixes a b :: "'h word"
  assumes "fp_mag d b \<le> fp_mag d a" "is_finite d a"
  shows "is_finite d b"
  using biased_mono [OF assms(1)] assms(2) biased_less [of a] biased_infinity_iff [of a] biased_infinity_iff [of b]
  by (auto simp: is_finite_def)

lemma ordered_operands:
  fixes x y :: "'h word"
  obtains a b where "(if total_order_magnitude d x y = Less then (y, x) else (x, y)) = (a, b)"
    "fp_mag d b \<le> fp_mag d a" "{a, b} = {x, y}"
  by (rule that [of "if total_order_magnitude d x y = Less then y else x"
      "if total_order_magnitude d x y = Less then x else y"])
    (auto simp: total_order_magnitude_spec ordering_of_def split: if_splits)

lemma add_total: "fp_add d rmode (x :: 'h word) y \<noteq> None"
proof -
  obtain a b where ab: "(if total_order_magnitude d x y = Less then (y, x) else (x, y)) = (a, b)"
    "fp_mag d b \<le> fp_mag d a" using ordered_operands by blast
  show ?thesis
  proof (cases "is_finite d a")
    case True
    then have fb: "is_finite d b" using ab(2) smaller_finite by blast
    then show ?thesis
      using True ab add_magnitude_correct [OF True fb ab(2), of rmode]
        subtract_magnitude_correct [of a "negate d b" rmode, unfolded negate_fields, OF True fb ab(2)]
      by (auto simp: fp_add_def)
  next
    case False
    then show ?thesis using is_zero_trailing [of a]
      by (auto simp: fp_add_def ab(1) add_magnitude_def subtract_magnitude_def)
  qed
qed

lemma sub_total: "fp_sub d rmode (x :: 'h word) y \<noteq> None"
  by (simp add: fp_sub_def add_total)

lemma normalized_some:
  fixes v :: "'h word"
  assumes "is_finite d v" "\<not> is_zero d v"
  obtains e s where "get_normalized_significand d v = Some (e, s)"
  using get_normalized_significand_spec [OF assms] by metis

lemma multiply_total: "multiply W d rmode (x :: 'h word) y \<noteq> None"
proof -
  obtain a b where ab: "(if total_order_magnitude d x y = Less then (y, x) else (x, y)) = (a, b)"
    "fp_mag d b \<le> fp_mag d a" using ordered_operands by blast
  show ?thesis
  proof (cases "is_finite d a \<and> \<not> is_zero d b")
    case True
    then have f: "is_finite d a" "\<not> is_zero d a" "is_finite d b" "\<not> is_zero d b"
      using ab(2) smaller_finite [OF ab(2)] by (auto simp: is_zero_mag)
    obtain ea sa where a: "get_normalized_significand d a = Some (ea, sa)" by (rule normalized_some [OF f(1,2)])
    obtain eb sb where b: "get_normalized_significand d b = Some (eb, sb)" by (rule normalized_some [OF f(3,4)])
    show ?thesis by (simp add: multiply_def ab(1) finite_classes [OF f(1)] f(4) a b)
  next
    case False
    then show ?thesis using is_zero_trailing [of a] by (auto simp: multiply_def ab(1) Let_def)
  qed
qed

lemma fma_finite_total:
  fixes a b c :: "'h word"
  assumes "is_finite d a" "\<not> is_zero d a" "is_finite d b" "\<not> is_zero d b" "is_finite d c"
  shows "fma_finite W d rmode sg a b c \<noteq> None"
proof -
  obtain ea sa where a: "get_normalized_significand d a = Some (ea, sa)" by (rule normalized_some [OF assms(1,2)])
  obtain eb sb where b: "get_normalized_significand d b = Some (eb, sb)" by (rule normalized_some [OF assms(3,4)])
  show ?thesis
  proof (cases "is_zero d c")
    case True
    then show ?thesis by (simp add: fma_finite_def a b)
  next
    case False
    obtain ec sc where "get_normalized_significand d c = Some (ec, sc)" by (rule normalized_some [OF assms(5) False])
    then show ?thesis using False by (simp add: fma_finite_def a b Let_def split: prod.split)
  qed
qed

lemma fused_multiply_add_total: "fused_multiply_add W d rmode (x :: 'h word) y c \<noteq> None"
proof -
  obtain a b where ab: "(if total_order_magnitude d x y = Less then (y, x) else (x, y)) = (a, b)"
    "fp_mag d b \<le> fp_mag d a" using ordered_operands by blast
  show ?thesis
  proof (cases "is_finite d a \<and> \<not> is_zero d b \<and> is_finite d c")
    case True
    then have f: "is_finite d a" "\<not> is_zero d a" "is_finite d b" "\<not> is_zero d b" "is_finite d c"
      using ab(2) smaller_finite [OF ab(2)] by (auto simp: is_zero_mag)
    show ?thesis using fma_finite_total [OF f]
      by (simp add: fused_multiply_add_def ab(1) finite_classes [OF f(1)] finite_classes [OF f(5)] f(4) Let_def)
  next
    case False
    then show ?thesis using is_zero_trailing [of a] is_zero_trailing [of c]
      by (auto simp: fused_multiply_add_def ab(1) Let_def split: prod.split)
  qed
qed

end


section \<open>Correctly rounded arithmetic\<close>

text \<open>
  C15: The quotient of two finite non-zero numbers is the exact quotient, correctly rounded in every rounding
  mode, with the right flags, and the digit loop ends.
\<close>

theorem divide_correctly_rounded:
  fixes a b :: "'h::len word"
  assumes "fp_format TYPE('h) d"
    and "is_finite d a" "\<not> is_zero d a" "is_finite d b" "\<not> is_zero d b"
  shows "\<exists>r. fp_divide d rmode a b = Some r \<and>
    correctly_rounded d rmode (fp_sign d a \<noteq> fp_sign d b) (fp_mag d a * one_mag d) (fp_mag d b) r"
  using assms by (rule fp_format.fp_divide_correct)

theorem divide_correctly_rounded_witness:
  "\<exists>r. fp_divide F64Desc TiesToEven (0x3FF0000000000000 :: u64) 0x4008000000000000 = Some r \<and>
    correctly_rounded F64Desc TiesToEven
      (fp_sign F64Desc (0x3FF0000000000000 :: u64) \<noteq> fp_sign F64Desc (0x4008000000000000 :: u64))
      (fp_mag F64Desc (0x3FF0000000000000 :: u64) * one_mag F64Desc) (fp_mag F64Desc (0x4008000000000000 :: u64)) r"
  by (rule divide_correctly_rounded [OF f64.fp_format_axioms]) code_simp+

text \<open>
  C16: The product of two finite non-zero numbers is the exact product, correctly rounded.
\<close>

theorem multiply_correctly_rounded:
  fixes x y :: "'h::len word"
  assumes "fp_double TYPE('d::len) TYPE('h) d"
    and "is_finite d x" "\<not> is_zero d x" "is_finite d y" "\<not> is_zero d y"
  shows "\<exists>r. multiply TYPE('d) d rmode x y = Some r \<and>
    correctly_rounded d rmode (fp_sign d x \<noteq> fp_sign d y) (fp_mag d x * fp_mag d y) (one_mag d) r"
  using assms by (rule fp_double.multiply_correct)

theorem multiply_correctly_rounded_witness:
  "\<exists>r. multiply TYPE(64) F32Desc TowardPositive (0x3F8CCCCD :: u32) 0xC0400000 = Some r \<and>
    correctly_rounded F32Desc TowardPositive
      (fp_sign F32Desc (0x3F8CCCCD :: u32) \<noteq> fp_sign F32Desc (0xC0400000 :: u32))
      (fp_mag F32Desc (0x3F8CCCCD :: u32) * fp_mag F32Desc (0xC0400000 :: u32)) (one_mag F32Desc) r"
  by (rule multiply_correctly_rounded [OF f32_mul.fp_double_axioms]) code_simp+

text \<open>
  C17: The sum of two finite numbers is the exact sum, correctly rounded; an exact sum of zero is
  the zero of the common sign, or the zero the rounding mode asks for, without a flag.
\<close>

theorem add_correctly_rounded:
  fixes x y :: "'h::len word"
  assumes "fp_format TYPE('h) d" "is_finite d x" "is_finite d y"
  shows "\<exists>r. fp_add d rmode x y = Some r \<and>
    (if fp_int d x + fp_int d y \<noteq> 0
     then correctly_rounded d rmode (fp_int d x + fp_int d y < 0) (nat \<bar>fp_int d x + fp_int d y\<bar>) 1 r
     else is_zero d (fst r) \<and> snd r = 0 \<and>
       fp_sign d (fst r) = (if fp_sign d x = fp_sign d y then fp_sign d x else rmode = TowardNegative))"
  using assms by (rule fp_format.fp_add_correct)

theorem add_correctly_rounded_witness:
  "\<exists>r. fp_add F32Desc TiesToEven (0x3F800000 :: u32) 0xB3800001 = Some r \<and>
    (if fp_int F32Desc (0x3F800000 :: u32) + fp_int F32Desc (0xB3800001 :: u32) \<noteq> 0
     then correctly_rounded F32Desc TiesToEven
       (fp_int F32Desc (0x3F800000 :: u32) + fp_int F32Desc (0xB3800001 :: u32) < 0)
       (nat \<bar>fp_int F32Desc (0x3F800000 :: u32) + fp_int F32Desc (0xB3800001 :: u32)\<bar>) 1 r
     else is_zero F32Desc (fst r) \<and> snd r = 0 \<and>
       fp_sign F32Desc (fst r) =
         (if fp_sign F32Desc (0x3F800000 :: u32) = fp_sign F32Desc (0xB3800001 :: u32)
          then fp_sign F32Desc (0x3F800000 :: u32) else TiesToEven = TowardNegative))"
  by (rule add_correctly_rounded [OF f32.fp_format_axioms]) code_simp+

text \<open>
  C18: The square root of a positive finite number is finite and the exact root, correctly rounded to
  full precision; it is inexact exactly if its square is not the operand; the digit loop ends.
\<close>

theorem square_root_correctly_rounded:
  fixes v :: "'h::len word"
  assumes "fp_format TYPE('h) d" "is_finite d v" "\<not> is_zero d v" "\<not> fp_sign d v"
  shows "\<exists>r fl u. square_root d rmode v = Some (r, fl) \<and> is_finite d r \<and> \<not> fp_sign d r \<and>
    rounded_root rmode (fp_mag d r) u (fp_mag d v * one_mag d) \<and> 2 ^ SW d * u \<le> fp_mag d r \<and>
    fl = (if (fp_mag d r)\<^sup>2 = fp_mag d v * one_mag d then 0 else INEXACT)"
  using assms by (rule fp_format.square_root_correct)

theorem square_root_correctly_rounded_witness:
  "\<exists>r fl u. square_root F64Desc TowardZero (0x4000000000000000 :: u64) = Some (r, fl) \<and>
    is_finite F64Desc r \<and> \<not> fp_sign F64Desc r \<and>
    rounded_root TowardZero (fp_mag F64Desc r) u (fp_mag F64Desc (0x4000000000000000 :: u64) * one_mag F64Desc) \<and>
    2 ^ SW F64Desc * u \<le> fp_mag F64Desc r \<and>
    fl = (if (fp_mag F64Desc r)\<^sup>2 = fp_mag F64Desc (0x4000000000000000 :: u64) * one_mag F64Desc then 0 else INEXACT)"
  by (rule square_root_correctly_rounded [OF f64.fp_format_axioms]) code_simp+

text \<open>
  C19: No arithmetic operation panics or loops, whatever the bit patterns of its operands, in either format.
\<close>

theorem arithmetic_total:
  fixes x y z :: u32 and a b c :: u64
  shows "fp_add F32Desc rmode x y \<noteq> None \<and> fp_sub F32Desc rmode x y \<noteq> None \<and>
      multiply TYPE(64) F32Desc rmode x y \<noteq> None \<and> fp_divide F32Desc rmode x y \<noteq> None \<and>
      square_root F32Desc rmode x \<noteq> None \<and> fused_multiply_add TYPE(64) F32Desc rmode x y z \<noteq> None \<and>
    fp_add F64Desc rmode a b \<noteq> None \<and> fp_sub F64Desc rmode a b \<noteq> None \<and>
      multiply TYPE(128) F64Desc rmode a b \<noteq> None \<and> fp_divide F64Desc rmode a b \<noteq> None \<and>
      square_root F64Desc rmode a \<noteq> None \<and> fused_multiply_add TYPE(128) F64Desc rmode a b c \<noteq> None"
  by (intro conjI f32.add_total f32.sub_total f32.multiply_total f32.divide_total f32.square_root_total
    f32.fused_multiply_add_total f64.add_total f64.sub_total f64.multiply_total f64.divide_total
    f64.square_root_total f64.fused_multiply_add_total)

section \<open>Comparison\<close>

text \<open>
  C20: On numbers, the quiet and the signaling comparison are the order of the numbers (both zeros are
  equal) and raise no flag; \<open>==\<close>, \<open><\<close> and \<open><=\<close> follow. With a NaN, \<open>==\<close>, \<open><\<close> and \<open><=\<close>
  are false and the signaling ones raise the invalid-operation flag.
\<close>

theorem comparison_is_numeric_order:
  fixes a b :: "'h::len word"
  assumes "fp_format TYPE('h) d"
  shows "if is_nan d a \<or> is_nan d b
    then \<not> fp_eq d a b \<and> fp_lt d a b = (False, INVALID_OPERATION) \<and> fp_le d a b = (False, INVALID_OPERATION)
    else compare_quiet d a b = Some (ordering_of (fp_int d a) (fp_int d b)) \<and>
      fp_eq d a b = (fp_int d a = fp_int d b) \<and> fp_lt d a b = (fp_int d a < fp_int d b, 0) \<and>
      fp_le d a b = (fp_int d a \<le> fp_int d b, 0)"
  using fp_format.compare_quiet_spec [OF assms, of a b]
  by (auto simp: fp_eq_def fp_lt_def fp_le_def compare_quiet_def compare_signaling_def ordering_of_def
    split: if_splits)

theorem comparison_is_numeric_order_witness:
  "if is_nan F64Desc (0x8000000000000000 :: u64) \<or> is_nan F64Desc (0x0000000000000001 :: u64)
    then \<not> fp_eq F64Desc (0x8000000000000000 :: u64) 1 \<and>
      fp_lt F64Desc (0x8000000000000000 :: u64) 1 = (False, INVALID_OPERATION) \<and>
      fp_le F64Desc (0x8000000000000000 :: u64) 1 = (False, INVALID_OPERATION)
    else compare_quiet F64Desc (0x8000000000000000 :: u64) 1 =
        Some (ordering_of (fp_int F64Desc (0x8000000000000000 :: u64)) (fp_int F64Desc (1 :: u64))) \<and>
      fp_eq F64Desc (0x8000000000000000 :: u64) 1 =
        (fp_int F64Desc (0x8000000000000000 :: u64) = fp_int F64Desc (1 :: u64)) \<and>
      fp_lt F64Desc (0x8000000000000000 :: u64) 1 =
        (fp_int F64Desc (0x8000000000000000 :: u64) < fp_int F64Desc (1 :: u64), 0) \<and>
      fp_le F64Desc (0x8000000000000000 :: u64) 1 =
        (fp_int F64Desc (0x8000000000000000 :: u64) \<le> fp_int F64Desc (1 :: u64), 0)"
  using comparison_is_numeric_order [OF f64.fp_format_axioms, of "0x8000000000000000" 1] by simp

section \<open>Conversions\<close>

text \<open>
  C21: Converting an integer, or a finite number of another format, gives its value correctly rounded in
  the target format.
\<close>

theorem conversion_correctly_rounded:
  fixes i :: "'i::len word" and v :: "'h::len word"
  assumes "fp_conversion TYPE('h) TYPE('t::len) d td"
    and "i \<noteq> 0" "LENGTH('i) \<le> 2 ^ 12" "is_finite d v" "\<not> is_zero d v"
  shows "correctly_rounded td rmode False (unat i * one_mag td) 1 (convert_from_uint td rmode i :: 't word \<times> u32) \<and>
    (\<exists>r :: 't word \<times> u32. convert_format d td rmode v = Some r \<and>
      correctly_rounded td rmode (fp_sign d v) (fp_mag d v * one_mag td) (one_mag d) r)"
  using fp_format.convert_from_int_correct [OF fp_conversion.axioms(2) [OF assms(1)] assms(2,3)]
    fp_conversion.convert_format_correct [OF assms(1,4,5)]
  by (simp add: convert_from_uint_def)

theorem conversion_correctly_rounded_witness:
  "correctly_rounded F32Desc TiesToEven False (unat (0x123456789 :: u64) * one_mag F32Desc) 1
      (convert_from_uint F32Desc TiesToEven (0x123456789 :: u64) :: u32 \<times> u32) \<and>
    (\<exists>r :: u32 \<times> u32. convert_format F64Desc F32Desc TiesToEven (0x3FD5555555555555 :: u64) = Some r \<and>
      correctly_rounded F32Desc TiesToEven (fp_sign F64Desc (0x3FD5555555555555 :: u64))
        (fp_mag F64Desc (0x3FD5555555555555 :: u64) * one_mag F32Desc) (one_mag F64Desc) r)"
  by (rule conversion_correctly_rounded [OF f64_f32.fp_conversion_axioms]) code_simp+

text \<open>
  The bound on the shift in \<open>convert_to_int\<close> is two too large: \<open>2 ^ 64\<close> as an \<open>F64\<close> and \<open>2 ^ 32\<close> as an
  \<open>F32\<close> convert to the integer 0 without a flag, where the largest integer and the invalid-operation
  flag are meant.
\<close>

lemma convert_to_uint_wraps:
  "convert_to_uint F64Desc TiesToEven (0x43F0000000000000 :: u64) = Some (0 :: u64, 0) \<and>
    convert_to_uint F32Desc TiesToEven (0x4F800000 :: u32) = Some (0 :: u32, 0)"
  by code_simp

end
