(* ===== verification/Interp_Alu.thy ===== *)
theory Interp_Alu
  imports Riscv_Op "HOL-Library.Signed_Division"
begin

text \<open>
  The integer arithmetic of \<open>step\<close> in \<open>src/emu/interp.rs\<close>: for every group of instructions, the
  value the arm writes, as a function of the operands it has read. Operands are 64-bit registers;
  \<open>as i64\<close> and \<open>as i32\<close> are the same bits read as signed, so \<open><\<close> on them is \<^const>\<open>word_sless\<close>, and
  \<open>as u64\<close> of an \<open>i32\<close> is \<^const>\<open>scast\<close>. \<open>wrapping_div\<close> and \<open>wrapping_rem\<close> truncate towards zero.
\<close>

section \<open>Results\<close>

definition of_flag :: "bool \<Rightarrow> u64" where
  "of_flag b = (if b then 1 else 0)"

definition imm_result :: "imm_op \<Rightarrow> u64 \<Rightarrow> i32 \<Rightarrow> u64" where
  "imm_result k a imm =
    (case k of
       Addi_k \<Rightarrow> a + scast imm
     | Slli_k \<Rightarrow> rust_shl a (unat imm)
     | Slti_k \<Rightarrow> of_flag (a <s scast imm)
     | Sltiu_k \<Rightarrow> of_flag (a < scast imm)
     | Xori_k \<Rightarrow> a XOR scast imm
     | Srli_k \<Rightarrow> rust_shr a (unat imm)
     | Srai_k \<Rightarrow> rust_sar a (unat imm)
     | Ori_k \<Rightarrow> a OR scast imm
     | Andi_k \<Rightarrow> a AND scast imm)"

definition imm32_result :: "imm32_op \<Rightarrow> u64 \<Rightarrow> i32 \<Rightarrow> u64" where
  "imm32_result k a imm =
    (case k of
       Addiw_k \<Rightarrow> scast ((ucast a :: i32) + imm)
     | Slliw_k \<Rightarrow> scast (rust_shl (ucast a :: i32) (unat imm))
     | Srliw_k \<Rightarrow> scast (rust_shr (ucast a :: u32) (unat imm))
     | Sraiw_k \<Rightarrow> scast (rust_sar (ucast a :: i32) (unat imm)))"

definition reg_result :: "reg_op \<Rightarrow> u64 \<Rightarrow> u64 \<Rightarrow> u64" where
  "reg_result k a b =
    (case k of
       Add_k \<Rightarrow> a + b
     | Sub_k \<Rightarrow> a - b
     | Sll_k \<Rightarrow> rust_shl a (unat (b AND 63))
     | Slt_k \<Rightarrow> of_flag (a <s b)
     | Sltu_k \<Rightarrow> of_flag (a < b)
     | Xor_k \<Rightarrow> a XOR b
     | Srl_k \<Rightarrow> rust_shr a (unat (b AND 63))
     | Sra_k \<Rightarrow> rust_sar a (unat (b AND 63))
     | Or_k \<Rightarrow> a OR b
     | And_k \<Rightarrow> a AND b)"

definition reg32_result :: "reg32_op \<Rightarrow> u64 \<Rightarrow> u64 \<Rightarrow> u64" where
  "reg32_result k a b =
    (case k of
       Addw_k \<Rightarrow> scast ((ucast a :: i32) + ucast b)
     | Subw_k \<Rightarrow> scast ((ucast a :: i32) - ucast b)
     | Sllw_k \<Rightarrow> scast (rust_shl (ucast a :: i32) (unat (b AND 31)))
     | Srlw_k \<Rightarrow> scast (rust_shr (ucast a :: u32) (unat (b AND 31)))
     | Sraw_k \<Rightarrow> scast (rust_sar (ucast a :: i32) (unat (b AND 31))))"

definition branch_taken :: "branch_op \<Rightarrow> u64 \<Rightarrow> u64 \<Rightarrow> bool" where
  "branch_taken k a b =
    (case k of
       Beq_k \<Rightarrow> a = b
     | Bne_k \<Rightarrow> a \<noteq> b
     | Blt_k \<Rightarrow> a <s b
     | Bge_k \<Rightarrow> b \<le>s a
     | Bltu_k \<Rightarrow> a < b
     | Bgeu_k \<Rightarrow> b \<le> a)"

definition wrapping_div :: "'a::len word \<Rightarrow> 'a word \<Rightarrow> 'a word" where
  "wrapping_div a b = word_of_int (sint a sdiv sint b)"

definition wrapping_rem :: "'a::len word \<Rightarrow> 'a word \<Rightarrow> 'a word" where
  "wrapping_rem a b = word_of_int (sint a smod sint b)"

definition mul_result :: "mul_op \<Rightarrow> u64 \<Rightarrow> u64 \<Rightarrow> u64" where
  "mul_result k a b =
    (case k of
       Mul_k \<Rightarrow> a * b
     | Mulh_k \<Rightarrow> ucast (rust_sar ((scast a :: u128) * scast b) 64)
     | Mulhsu_k \<Rightarrow>
         (let exta = ucast a :: u128;
              extb = ucast b :: u128;
              r = ucast (rust_shr (exta * extb) 64) :: u64
          in if a <s 0 then r - b else r)
     | Mulhu_k \<Rightarrow> ucast (rust_shr ((ucast a :: u128) * ucast b) 64)
     | Div_k \<Rightarrow> if b = 0 then - 1 else wrapping_div a b
     | Divu_k \<Rightarrow> if b = 0 then - 1 else a div b
     | Rem_k \<Rightarrow> if b = 0 then a else wrapping_rem a b
     | Remu_k \<Rightarrow> if b = 0 then a else a mod b)"

definition mul32_result :: "mul32_op \<Rightarrow> u64 \<Rightarrow> u64 \<Rightarrow> u64" where
  "mul32_result k x y =
    (let a = ucast x :: u32; b = ucast y :: u32 in
     case k of
       Mulw_k \<Rightarrow> scast (a * b)
     | Divw_k \<Rightarrow> scast (if b = 0 then - 1 else wrapping_div a b)
     | Divuw_k \<Rightarrow> scast (if b = 0 then - 1 else a div b)
     | Remw_k \<Rightarrow> scast (if b = 0 then a else wrapping_rem a b)
     | Remuw_k \<Rightarrow> scast (if b = 0 then a else a mod b))"

text \<open>The value an atomic read-modify-write stores. \<open>fetch_min_stable\<close> and \<open>fetch_max_stable\<close>
  of \<open>lib/atomic_ext\<close> are compare-and-swap loops whose last iteration is this update.\<close>

definition amo_result :: "amo_op \<Rightarrow> 'a::len word \<Rightarrow> 'a word \<Rightarrow> 'a word" where
  "amo_result k cur src =
    (case k of
       Sc_k \<Rightarrow> src
     | Amoswap_k \<Rightarrow> src
     | Amoadd_k \<Rightarrow> cur + src
     | Amoxor_k \<Rightarrow> cur XOR src
     | Amoand_k \<Rightarrow> cur AND src
     | Amoor_k \<Rightarrow> cur OR src
     | Amomin_k \<Rightarrow> (if src <s cur then src else cur)
     | Amomax_k \<Rightarrow> (if cur <s src then src else cur)
     | Amominu_k \<Rightarrow> min cur src
     | Amomaxu_k \<Rightarrow> max cur src)"

section \<open>The M extension against the manual\<close>

text \<open>
  The results as the unprivileged manual states them on integers: products and quotients of the
  mathematical values, the high half of a product, and the two special cases of division.
\<close>

definition mul_spec :: "mul_op \<Rightarrow> u64 \<Rightarrow> u64 \<Rightarrow> int" where
  "mul_spec k a b =
    (case k of
       Mul_k \<Rightarrow> (sint a * sint b) mod 2 ^ 64
     | Mulh_k \<Rightarrow> (sint a * sint b) div 2 ^ 64
     | Mulhsu_k \<Rightarrow> (sint a * uint b) div 2 ^ 64
     | Mulhu_k \<Rightarrow> (uint a * uint b) div 2 ^ 64
     | Div_k \<Rightarrow>
         if sint b = 0 then - 1
         else if sint a = - (2 ^ 63) \<and> sint b = - 1 then - (2 ^ 63)
         else sint a sdiv sint b
     | Divu_k \<Rightarrow> if uint b = 0 then 2 ^ 64 - 1 else uint a div uint b
     | Rem_k \<Rightarrow>
         if sint b = 0 then sint a
         else if sint a = - (2 ^ 63) \<and> sint b = - 1 then 0
         else sint a smod sint b
     | Remu_k \<Rightarrow> if uint b = 0 then uint a else uint a mod uint b)"

text \<open>The instructions whose result the manual reads as signed.\<close>

definition mul_signed :: "mul_op \<Rightarrow> bool" where
  "mul_signed k \<longleftrightarrow> k \<in> {Mulh_k, Mulhsu_k, Div_k, Rem_k}"

lemma sint_of_int_fits:
  assumes "- (2 ^ 63) \<le> x" "x < 2 ^ 63"
  shows "sint (word_of_int x :: u64) = x"
proof -
  have "sint (word_of_int x :: u64) = signed_take_bit 63 x" by (simp add: sint_sbintrunc')
  also have "\<dots> = x" using assms by (intro signed_take_bit_int_eq_self) simp_all
  finally show ?thesis .
qed

lemma sint_bounds: "- (2 ^ 63) \<le> sint a" "sint a < 2 ^ 63" for a :: u64
  using sint_greater_eq [of a] sint_less [of a] by simp_all

lemma uint_bounds: "0 \<le> uint a" "uint a < 2 ^ 64" for a :: u64
  using uint_lt2p [of a] by simp_all

lemma uint_sint: "uint a = (if a <s 0 then sint a + 2 ^ 64 else sint a)" for a :: u64
proof -
  have "uint a = sint a mod 2 ^ 64" 
    using uint_word_of_int [of "sint a", where 'a = 64] by simp
  moreover have "sint a mod 2 ^ 64 = sint a + 2 ^ 64" if "sint a < 0"
    using mod_pos_pos_trivial [of "sint a + 2 ^ 64" "2 ^ 64"] sint_bounds [of a] that by simp
  ultimately show ?thesis using sint_bounds [of a] by (auto simp: word_sless_alt)
qed

lemma mulh_bound:
  fixes x y :: int
  assumes "- (2 ^ 63) \<le> x" "x < 2 ^ 63" "- (2 ^ 63) \<le> y" "y < 2 ^ 64"
  shows "- (2 ^ 63) \<le> x * y div 2 ^ 64" "x * y div 2 ^ 64 < 2 ^ 63"
proof -
  have "\<bar>x * y\<bar> \<le> 2 ^ 63 * 2 ^ 64"
    unfolding abs_mult using assms by (intro mult_mono) auto
  moreover have "x * y < 2 ^ 63 * 2 ^ 64"
  proof (cases "0 < x \<and> 0 < y")
    case True
    then show ?thesis using assms by (intro mult_strict_mono) auto
  next
    case False
    then consider "x * y \<le> 0" | "0 \<le> - x" "0 \<le> - y"
      by (metis linorder_not_less mult_nonneg_nonpos mult_nonpos_nonneg neg_0_le_iff_le less_imp_le)
    then show ?thesis
    proof cases
      case 2
      then have "(- x) * (- y) \<le> 2 ^ 63 * 2 ^ 63" using assms by (intro mult_mono) auto
      then show ?thesis by simp
    qed simp
  qed
  ultimately show "- (2 ^ 63) \<le> x * y div 2 ^ 64" "x * y div 2 ^ 64 < 2 ^ 63" by auto
qed

lemma sdiv_bounds:
  fixes x y :: int
  assumes "- (2 ^ 63) \<le> x" "x < 2 ^ 63" "y \<noteq> 0" "\<not> (x = - (2 ^ 63) \<and> y = - 1)"
  shows "- (2 ^ 63) \<le> x sdiv y" "x sdiv y < 2 ^ 63"
proof -
  have le: "\<bar>x\<bar> div \<bar>y\<bar> \<le> \<bar>x\<bar>" "0 \<le> \<bar>x\<bar> div \<bar>y\<bar>"
    using assms(3) zdiv_mono2 [of "\<bar>x\<bar>" 1 "\<bar>y\<bar>"] by (auto simp: pos_imp_zdiv_nonneg_iff)
  have q: "\<bar>x sdiv y\<bar> = \<bar>x\<bar> div \<bar>y\<bar>"
    using le assms(3) by (cases "x = 0") (simp_all add: signed_divide_int_def abs_mult)
  then show "- (2 ^ 63) \<le> x sdiv y" using le assms(1,2) by linarith
  show "x sdiv y < 2 ^ 63"
  proof (cases "\<bar>x\<bar> < 2 ^ 63")
    case True
    then show ?thesis using q le by linarith
  next
    case False
    then have x: "x = - (2 ^ 63)" using assms(1,2) by linarith
    show ?thesis
    proof (cases "0 < y")
      case True
      then have "x sdiv y \<le> 0" using le by (simp add: signed_divide_int_def x)
      then show ?thesis by simp
    next
      case False
      then have "2 \<le> \<bar>y\<bar>" using assms(3,4) x by auto
      then have "\<bar>x\<bar> div \<bar>y\<bar> \<le> \<bar>x\<bar> div 2" by (intro zdiv_mono2) auto
      then show ?thesis using q x by simp
    qed
  qed
qed

lemma smod_bounds:
  fixes x y :: int
  assumes "- (2 ^ 63) \<le> x" "x < 2 ^ 63"
  shows "- (2 ^ 63) \<le> x smod y" "x smod y < 2 ^ 63"
proof -
  have nonneg: "0 \<le> \<bar>x\<bar> mod \<bar>y\<bar>" by (cases "y = 0") simp_all
  then have "\<bar>x smod y\<bar> \<le> \<bar>x\<bar>"
    by (simp add: signed_modulo_int_def abs_mult zmod_le_nonneg_dividend)
  moreover have "x < 0 \<Longrightarrow> x smod y \<le> 0" "0 \<le> x \<Longrightarrow> 0 \<le> x smod y"
    using nonneg by (auto simp: signed_modulo_int_def sgn_if)
  ultimately show "- (2 ^ 63) \<le> x smod y" "x smod y < 2 ^ 63" using assms by linarith+
qed

lemma ucast_narrow_sint: "(ucast w :: u64) = word_of_int (sint w)" for w :: u128
  by (rule bit_word_eqI) (auto simp: bit_simps min_def)

lemma sint_mulh: "sint (mul_result Mulh_k a b) = sint a * sint b div 2 ^ 64"
proof -
  let ?p = "(scast a :: u128) * scast b"
  have p: "?p = word_of_int (sint a * sint b)" by (simp only: scast_eq of_int_mult)
  have bnd: "- (2 ^ 127) \<le> sint a * sint b" "sint a * sint b < 2 ^ 127"
    using mulh_bound [of "sint a" "sint b"] sint_bounds [of a] sint_bounds [of b] by auto
  have "sint ?p = signed_take_bit 127 (sint a * sint b)" unfolding p by (subst sint_sbintrunc') simp
  then have "sint ?p = sint a * sint b" using bnd by (simp add: signed_take_bit_int_eq_self)
  then have "sint (signed_drop_bit 64 ?p) = sint a * sint b div 2 ^ 64"
    by (simp add: sint_signed_drop_bit_eq drop_bit_eq_div)
  then have "(ucast (signed_drop_bit 64 ?p) :: u64) = word_of_int (sint a * sint b div 2 ^ 64)"
    by (metis ucast_narrow_sint)
  then show ?thesis
    using mulh_bound [of "sint a" "sint b"] sint_bounds [of a] sint_bounds [of b]
    by (simp add: mul_result_def rust_sar_def sint_of_int_fits)
qed

lemma mulhu_word:
  "(ucast (rust_shr ((ucast a :: u128) * ucast b) 64) :: u64) = word_of_int (uint a * uint b div 2 ^ 64)"
  for a b :: u64
proof -
  have "uint a * uint b < 2 ^ 64 * 2 ^ 64"
    using uint_bounds [of a] uint_bounds [of b] by (intro mult_strict_mono) auto
  then have "uint ((ucast a :: u128) * ucast b) = uint a * uint b"
    by (simp add: uint_word_ariths uint_up_ucast is_up)
  then have "uint (drop_bit 64 ((ucast a :: u128) * ucast b)) = uint a * uint b div 2 ^ 64"
    by (simp add: drop_bit_eq_div uint_div)
  then show ?thesis
    by (simp add: rust_shr_def) (metis of_int_uint ucast_eq)
qed

lemma sint_mulhsu: "sint (mul_result Mulhsu_k a b) = sint a * uint b div 2 ^ 64"
proof -
  have "mul_result Mulhsu_k a b = word_of_int (sint a * uint b div 2 ^ 64)"
  proof (cases "a <s 0")
    case True
    then have "uint a * uint b div 2 ^ 64 = sint a * uint b div 2 ^ 64 + uint b"
      by (simp add: uint_sint algebra_simps)
    then show ?thesis using True by (simp add: mul_result_def mulhu_word Let_def)
  next
    case False
    then have "uint a = sint a" by (simp add: uint_sint)
    then show ?thesis using False by (simp add: mul_result_def mulhu_word Let_def)
  qed
  then show ?thesis
    using mulh_bound [of "sint a" "uint b"] sint_bounds [of a] uint_bounds [of b]
    by (simp add: sint_of_int_fits)
qed

lemma sint_zero_iff: "sint b = 0 \<longleftrightarrow> b = 0" for b :: u64
  by (metis signed_0 signed_word_eqI)


end
