(* ===== verification/Io_System.thy ===== *)
theory Io_System
  imports System
begin

text \<open>
  The I/O side of the machine, \<open>src/emu/mod.rs\<close>: the interrupt pins of the harts, the two
  interrupt controllers wired to them, the I/O memory map and the dispatch of an I/O access.

  \<^item> The map is a \<open>BTreeMap\<close> from base address to size and device; it is modelled by its
    entries in key order. \<open>range(..x).next_back()\<close> is the last entry with a key below \<open>x\<close>.
  \<^item> A device of the map is the PLIC, the CLINT, or another one, named by a number. What the
    others do on an access is a parameter: a record \<open>Devices\<close> of functions on the machine. So
    is the host console, and the system calls of user-mode emulation.
  \<^item> The device-tree nodes that are built along with the map are not modelled.
\<close>

section \<open>Interrupt pins\<close>

text \<open>\<open>CoreIrq(i, mask)::set_level\<close>\<close>

definition core_irq_set_level :: "nat \<Rightarrow> u64 \<Rightarrow> bool \<Rightarrow> System \<Rightarrow> System" where
  "core_irq_set_level i msk level sys =
    put_hart i (on_shared (if level then assert_irq msk else deassert_irq msk) (ctxs sys i)) sys"

text \<open>The pins \<open>CLINT\<close> is created with.\<close>

definition clint_pin_mask :: "Env \<Rightarrow> clint_pin \<Rightarrow> u64" where
  "clint_pin_mask env pin =
    (case pin of Msip _ \<Rightarrow> if flags_prv env = 1 then 2 else 8
     | Mtip _ \<Rightarrow> if flags_prv env = 1 then 32 else 128)"

definition clint_pin_hart :: "clint_pin \<Rightarrow> nat" where
  "clint_pin_hart pin = (case pin of Msip h \<Rightarrow> h | Mtip h \<Rightarrow> h)"

definition drive_clint_pins :: "Env \<Rightarrow> (clint_pin \<times> bool) list \<Rightarrow> System \<Rightarrow> System" where
  "drive_clint_pins env evs sys =
    fold (\<lambda>(pin, level). core_irq_set_level (clint_pin_hart pin) (clint_pin_mask env pin) level)
      evs sys"

definition clint_io_write :: "Env \<Rightarrow> u64 \<Rightarrow> u64 \<Rightarrow> nat \<Rightarrow> System \<Rightarrow> System" where
  "clint_io_write env addr value sz sys =
    (let (c, evs) = clint_write (event_time env) addr value sz (clint sys) in
     drive_clint_pins env evs (sys\<lparr> clint := c \<rparr>))"

text \<open>The task of a timer, run by the event loop.\<close>

definition clint_timer_fires :: "Env \<Rightarrow> nat \<Rightarrow> System \<Rightarrow> System" where
  "clint_timer_fires env hart sys =
    drive_clint_pins env (timer_task (event_time env) hart (clint sys)) sys"

text \<open>The PLIC has one context per hart, wired to the supervisor external interrupt.\<close>

definition drive_plic_pins :: "bool list option \<Rightarrow> System \<Rightarrow> System" where
  "drive_plic_pins lv sys =
    (case lv of None \<Rightarrow> sys
     | Some l \<Rightarrow> fold (\<lambda>i. core_irq_set_level i 512 (l ! i)) [0..<length l] sys)"

definition plic_io_read :: "u64 \<Rightarrow> nat \<Rightarrow> System \<Rightarrow> u64 \<times> System" where
  "plic_io_read addr sz sys =
    (let (v, p, lv) = plic_read addr sz (plic_ctl (plic sys)) in
     (v, drive_plic_pins lv (sys\<lparr> plic := set_outputs lv ((plic sys)\<lparr> plic_ctl := p \<rparr>) \<rparr>)))"

definition plic_io_write :: "u64 \<Rightarrow> u64 \<Rightarrow> nat \<Rightarrow> System \<Rightarrow> System" where
  "plic_io_write addr value sz sys =
    (let (p, lv) = plic_write addr value sz (plic_ctl (plic sys)) in
     drive_plic_pins lv (sys\<lparr> plic := set_outputs lv ((plic sys)\<lparr> plic_ctl := p \<rparr>) \<rparr>))"

section \<open>The I/O memory map\<close>

datatype (plugins only: code size) io_dev = DevPlic | DevClint | DevOther nat

type_synonym io_map = "(u64 \<times> u64 \<times> io_dev) list"

definition next_back :: "(u64 \<Rightarrow> bool) \<Rightarrow> io_map \<Rightarrow> (u64 \<times> u64 \<times> io_dev) option" where
  "next_back P m = (let below = filter (\<lambda>(k, _). P k) m in if below = [] then None else Some (last below))"

fun btree_insert :: "u64 \<Rightarrow> u64 \<times> io_dev \<Rightarrow> io_map \<Rightarrow> io_map" where
  "btree_insert k v [] = [(k, v)]"
| "btree_insert k v ((k', v') # m) =
    (if k < k' then (k, v) # (k', v') # m
     else if k = k' then (k, v) # m
     else (k', v') # btree_insert k v m)"

record IoSystem =
  io_map :: io_map
  next_irq :: nat
  boundary :: u64

text \<open>\<open>register_io_mem\<close>: \<open>None\<close> is the failed assertion.\<close>

definition register_io_mem :: "u64 \<Rightarrow> u64 \<Rightarrow> io_dev \<Rightarrow> IoSystem \<Rightarrow> IoSystem option" where
  "register_io_mem base sz dev sys =
    (let ok = (case next_back (\<lambda>k. k < base + sz) (io_map sys) of
                 None \<Rightarrow> True
               | Some (k, (s, _)) \<Rightarrow> let last_end = k + s in last_end \<le> base)
     in if ok then Some (sys\<lparr> io_map := btree_insert base (sz, dev) (io_map sys) \<rparr>) else None)"

text \<open>
  \<open>IoSystem::new\<close>. The configuration has no CLINT, a CLINT without a base, or one with a base.
\<close>

definition io_system_new :: "u64 option option \<Rightarrow> IoSystem option" where
  "io_system_new clint_config =
    Option.bind (register_io_mem 0x200000 0x400000 DevPlic
        \<lparr> io_map = [], next_irq = 1, boundary = 0x600000 \<rparr>) (\<lambda>sys.
      case clint_config of
        None \<Rightarrow> Some sys
      | Some None \<Rightarrow>
          register_io_mem (boundary sys) 0x10000 DevClint (sys\<lparr> boundary := boundary sys + 0x10000 \<rparr>)
      | Some (Some base) \<Rightarrow> register_io_mem base 0x10000 DevClint sys)"

text \<open>\<open>add_virtio\<close>; \<open>irq_pin\<close> asserts that the PLIC has the interrupt.\<close>

definition add_virtio :: "nat \<Rightarrow> IoSystem \<Rightarrow> IoSystem option" where
  "add_virtio dev sys =
    (let irq = next_irq sys;
         sys = sys\<lparr> next_irq := next_irq sys + 1 \<rparr>;
         m = boundary sys;
         sys = sys\<lparr> boundary := boundary sys + 4096 \<rparr>
     in Option.bind (irq_pin irq) (\<lambda>_. register_io_mem m 4096 (DevOther dev) sys))"

text \<open>The branch \<open>"xemaclite"\<close> of \<open>init_network\<close>, with an optional base.\<close>

definition add_xemaclite :: "nat \<Rightarrow> u64 option \<Rightarrow> IoSystem \<Rightarrow> IoSystem option" where
  "add_xemaclite dev io_base sys =
    (let irq = next_irq sys;
         sys = sys\<lparr> next_irq := next_irq sys + 1 \<rparr>;
         base = (case io_base of None \<Rightarrow> boundary sys | Some v \<Rightarrow> v);
         sys = (case io_base of None \<Rightarrow> sys\<lparr> boundary := boundary sys + 0x2000 \<rparr> | Some _ \<Rightarrow> sys)
     in Option.bind (irq_pin irq) (\<lambda>_. register_io_mem base 0x2000 (DevOther dev) sys))"

definition init_rtc :: "nat \<Rightarrow> IoSystem \<Rightarrow> IoSystem option" where
  "init_rtc dev sys =
    (let irq = next_irq sys;
         sys = sys\<lparr> next_irq := next_irq sys + 2 \<rparr>;
         m = boundary sys;
         sys = sys\<lparr> boundary := boundary sys + 4096 \<rparr>
     in Option.bind (irq_pin irq) (\<lambda>_. Option.bind (irq_pin (irq + 1)) (\<lambda>_.
          register_io_mem m 4096 (DevOther dev) sys)))"

definition find_io_mem :: "u64 \<Rightarrow> IoSystem \<Rightarrow> (u64 \<times> io_dev) option" where
  "find_io_mem ptr sys =
    (case next_back (\<lambda>k. k \<le> ptr) (io_map sys) of
       None \<Rightarrow> None
     | Some (k, (s, dev)) \<Rightarrow> let last_end = k + s in if last_end \<le> ptr then None else Some (k, dev))"

section \<open>Dispatch\<close>

text \<open>
  The parts of the program the machine calls and the model does not contain: the I/O map that was
  built at start, the accesses of its other devices, the host console (\<open>None\<close> is a host error),
  the system calls of user-mode emulation and the cycles that pass while a hart waits.
\<close>

record Devices =
  io_system :: IoSystem
  dev_read :: "nat \<Rightarrow> u64 \<Rightarrow> nat \<Rightarrow> System \<Rightarrow> u64 \<times> System"
  dev_write :: "nat \<Rightarrow> u64 \<Rightarrow> u64 \<Rightarrow> nat \<Rightarrow> System \<Rightarrow> System"
  console_try_write :: "u8 \<Rightarrow> System \<Rightarrow> System option"
  console_try_read :: "System \<Rightarrow> u8 option \<times> System"
  syscall :: "nat \<Rightarrow> u64 \<Rightarrow> u64 \<Rightarrow> u64 \<Rightarrow> u64 \<Rightarrow> u64 \<Rightarrow> u64 \<Rightarrow> u64 \<Rightarrow> System \<Rightarrow> (u64, System) res"
  wait_alarm_cycles :: u64

definition io_read :: "Env \<Rightarrow> Devices \<Rightarrow> u64 \<Rightarrow> nat \<Rightarrow> System \<Rightarrow> (u64, System) res" where
  "io_read env dev addr sz sys =
    (if addr < io_boundary env then
       (case find_io_mem addr (io_system dev) of
          None \<Rightarrow> Ok 0 sys
        | Some (base, d) \<Rightarrow>
            (case d of
               DevPlic \<Rightarrow> let (v, sys) = plic_io_read (addr - base) sz sys in Ok v sys
             | DevClint \<Rightarrow> Ok (clint_read (event_time env) (addr - base) sz (clint sys)) sys
             | DevOther n \<Rightarrow> let (v, sys) = dev_read dev n (addr - base) sz sys in Ok v sys))
     else Panic)"

definition io_write :: "Env \<Rightarrow> Devices \<Rightarrow> u64 \<Rightarrow> u64 \<Rightarrow> nat \<Rightarrow> System \<Rightarrow> (unit, System) res" where
  "io_write env dev addr value sz sys =
    (if addr < io_boundary env then
       (case find_io_mem addr (io_system dev) of
          None \<Rightarrow> Ok () sys
        | Some (base, d) \<Rightarrow>
            (case d of
               DevPlic \<Rightarrow> Ok () (plic_io_write (addr - base) value sz sys)
             | DevClint \<Rightarrow> Ok () (clint_io_write env (addr - base) value sz sys)
             | DevOther n \<Rightarrow> Ok () (dev_write dev n (addr - base) value sz sys)))
     else Panic)"

section \<open>Building the map\<close>

text \<open>The devices \<open>init_virtio\<close>, \<open>init_network\<close> and \<open>init_rtc\<close> add, in the order of the
  configuration.\<close>

datatype (plugins only: code size) io_add = AddVirtio nat | AddXemac nat "u64 option" | AddRtc nat

definition io_add_device :: "io_add \<Rightarrow> IoSystem \<Rightarrow> IoSystem option" where
  "io_add_device a sys =
    (case a of AddVirtio n \<Rightarrow> add_virtio n sys
     | AddXemac n b \<Rightarrow> add_xemaclite n b sys
     | AddRtc n \<Rightarrow> init_rtc n sys)"

fun io_add_devices :: "io_add list \<Rightarrow> IoSystem \<Rightarrow> IoSystem option" where
  "io_add_devices [] sys = Some sys"
| "io_add_devices (a # as) sys = Option.bind (io_add_device a sys) (io_add_devices as)"

definition io_system_build :: "u64 option option \<Rightarrow> io_add list \<Rightarrow> IoSystem option" where
  "io_system_build clint_config as = Option.bind (io_system_new clint_config) (io_add_devices as)"

section \<open>Regions of the map\<close>

text \<open>The regions are not empty, do not wrap, are in order and do not overlap.\<close>

fun regions_ok :: "io_map \<Rightarrow> bool" where
  "regions_ok [] = True"
| "regions_ok ((k, (s, _)) # m) =
    (unat k + unat s < 2 ^ 64 \<and> 0 < unat s \<and> (\<forall>(k', _) \<in> set m. unat k + unat s \<le> unat k')
      \<and> regions_ok m)"

definition in_region :: "u64 \<Rightarrow> u64 \<times> u64 \<times> io_dev \<Rightarrow> bool" where
  "in_region a r \<longleftrightarrow> unat (fst r) \<le> unat a \<and> unat a < unat (fst r) + unat (fst (snd r))"

text \<open>A configured base is sensible when its region does not wrap.\<close>

definition base_fits :: "u64 option \<Rightarrow> nat \<Rightarrow> bool" where
  "base_fits b s = (case b of None \<Rightarrow> True | Some k \<Rightarrow> unat k + s < 2 ^ 64)"

definition add_fits :: "io_add \<Rightarrow> bool" where
  "add_fits a = (case a of AddXemac _ b \<Rightarrow> base_fits b 0x2000 | _ \<Rightarrow> True)"

definition config_fits :: "u64 option option \<Rightarrow> bool" where
  "config_fits c = (case c of Some b \<Rightarrow> base_fits b 0x10000 | None \<Rightarrow> True)"

definition add_irqs :: "io_add \<Rightarrow> nat" where
  "add_irqs a = (case a of AddRtc _ \<Rightarrow> 2 | _ \<Rightarrow> 1)"

definition explicit_base :: "io_add \<Rightarrow> bool" where
  "explicit_base a = (case a of AddXemac _ (Some _) \<Rightarrow> True | _ \<Rightarrow> False)"

lemma next_back_simps [simp]:
  "next_back P [] = None"
  "next_back P ((k, v) # m) = (case next_back P m of Some r \<Rightarrow> Some r
     | None \<Rightarrow> if P k then Some (k, v) else None)"
  by (auto simp: next_back_def Let_def)

lemma unat_add_fits: "unat k + unat s < 2 ^ 64 \<Longrightarrow> unat (k + s) = unat k + unat s" for k s :: u64
  by (simp add: unat_word_ariths)

lemma regions_member:
  "regions_ok m \<Longrightarrow> (k, (s, d)) \<in> set m \<Longrightarrow> unat k + unat s < 2 ^ 64 \<and> 0 < unat s"
  by (induction m rule: regions_ok.induct) auto

lemma next_back_member: "next_back P m = Some (k, v) \<Longrightarrow> (k, v) \<in> set m \<and> P k"
  by (induction m) (auto split: option.splits if_splits)

lemma next_back_None: "next_back P m = None \<longleftrightarrow> (\<forall>(k, _) \<in> set m. \<not> P k)"
  by (induction m) (auto split: option.splits)

lemma next_back_region:
  assumes "regions_ok m" "next_back P m = Some (k, v)" "(k', (s', d')) \<in> set m" "P k'"
  shows "(k', (s', d')) = (k, v) \<or> unat k' + unat s' \<le> unat k"
  using assms
proof (induction m rule: regions_ok.induct)
  case (2 k1 s1 d1 m)
  then show ?case
    by (cases "next_back P m") (auto simp: next_back_None dest: next_back_member split: if_splits)
qed simp

text \<open>The assertion of \<open>register_io_mem\<close> looks at one entry and protects against all.\<close>

lemma register_check_disjoint:
  assumes "regions_ok m" "(k', (s', d')) \<in> set m" "k' < base + sz"
    and "case next_back (\<lambda>k. k < base + sz) m of None \<Rightarrow> True | Some (k, (s, _)) \<Rightarrow> k + s \<le> base"
  shows "unat k' + unat s' \<le> unat base"
proof -
  obtain k s d where nb: "next_back (\<lambda>k. k < base + sz) m = Some (k, (s, d))"
    using assms(2,3) next_back_None [of _ m] by (cases "next_back (\<lambda>k. k < base + sz) m") auto
  have "(k, (s, d)) \<in> set m" using next_back_member [OF nb] by simp
  then have "unat (k + s) = unat k + unat s" using regions_member [OF assms(1)] unat_add_fits by blast
  then have "unat k + unat s \<le> unat base" using assms(4) nb by (simp add: word_le_nat_alt)
  with next_back_region [OF assms(1) nb assms(2,3)] show ?thesis by auto
qed

lemma btree_insert_regions:
  assumes "regions_ok m" "unat base + unat sz < 2 ^ 64" "0 < unat sz"
    and "\<forall>(k, (s, _)) \<in> set m. k < base + sz \<longrightarrow> unat k + unat s \<le> unat base"
  shows "regions_ok (btree_insert base (sz, dev) m)
    \<and> set (btree_insert base (sz, dev) m) = insert (base, (sz, dev)) (set m)"
  using assms
proof (induction base "(sz, dev)" m rule: btree_insert.induct)
  case (2 k k' v' m)
  obtain s' d' where v': "v' = (s', d')" by fastforce
  have e: "unat (k + sz) = unat k + unat sz" using 2 unat_add_fits by blast
  show ?case
    using 2 e by (auto simp: v' word_less_nat_alt word_le_nat_alt)
qed simp

lemma register_io_mem_ok:
  assumes "register_io_mem base sz dev sys = Some sys'" "regions_ok (io_map sys)"
    "unat base + unat sz < 2 ^ 64" "0 < unat sz"
  shows "regions_ok (io_map sys') \<and> set (io_map sys') = insert (base, (sz, dev)) (set (io_map sys))
    \<and> next_irq sys' = next_irq sys \<and> boundary sys' = boundary sys"
proof -
  have "case next_back (\<lambda>k. k < base + sz) (io_map sys) of None \<Rightarrow> True | Some (k, (s, _)) \<Rightarrow> k + s \<le> base"
    and e: "sys' = sys\<lparr> io_map := btree_insert base (sz, dev) (io_map sys) \<rparr>"
    using assms(1) unfolding register_io_mem_def Let_def by (auto split: if_splits)
  then have "\<forall>(k, (s, _)) \<in> set (io_map sys). k < base + sz \<longrightarrow> unat k + unat s \<le> unat base"
    using register_check_disjoint [OF assms(2)] by blast
  from btree_insert_regions [OF assms(2-4) this] show ?thesis by (simp add: e)
qed

lemma register_io_mem_above:
  assumes "regions_ok (io_map sys)" "\<forall>(k, (s, _)) \<in> set (io_map sys). unat k + unat s \<le> unat base"
  shows "register_io_mem base sz dev sys \<noteq> None"
proof -
  have "k + s \<le> base" if "(k, (s, d)) \<in> set (io_map sys)" for k s d
    using that assms regions_member [OF assms(1) that] unat_add_fits by (fastforce simp: word_le_nat_alt)
  then show ?thesis
    by (auto simp: register_io_mem_def Let_def dest!: next_back_member split: option.splits)
qed

lemma find_io_mem_iff:
  assumes "regions_ok (io_map sys)"
  shows "find_io_mem ptr sys = Some (k, dev) \<longleftrightarrow>
    (\<exists>s. (k, (s, dev)) \<in> set (io_map sys) \<and> in_region ptr (k, (s, dev)))"
    (is "?l \<longleftrightarrow> ?r")
proof
  assume ?l
  then obtain s where s: "next_back (\<lambda>k. k \<le> ptr) (io_map sys) = Some (k, (s, dev))" "\<not> k + s \<le> ptr"
    by (auto simp: find_io_mem_def Let_def split: option.splits if_splits)
  from next_back_member [OF s(1)] have m: "(k, (s, dev)) \<in> set (io_map sys)" "k \<le> ptr" by auto
  with s(2) regions_member [OF assms m(1)] show ?r
    by (auto simp: in_region_def word_le_nat_alt unat_add_fits)
next
  assume ?r
  then obtain s where s: "(k, (s, dev)) \<in> set (io_map sys)" "in_region ptr (k, (s, dev))" by blast
  then have "k \<le> ptr" by (simp add: in_region_def word_le_nat_alt)
  then obtain k' s' d' where nb: "next_back (\<lambda>k. k \<le> ptr) (io_map sys) = Some (k', (s', d'))"
    using s(1) next_back_None [of _ "io_map sys"] by (cases "next_back (\<lambda>k. k \<le> ptr) (io_map sys)") auto
  have "(k, (s, dev)) = (k', (s', d'))"
    using next_back_region [OF assms nb s(1) \<open>k \<le> ptr\<close>] next_back_member [OF nb] s(2)
    by (auto simp: in_region_def word_le_nat_alt)
  with s(2) nb regions_member [OF assms s(1)] show ?l
    by (auto simp: find_io_mem_def in_region_def word_le_nat_alt unat_add_fits)
qed

text \<open>The invariant of the construction; \<open>ex\<close> says whether a base was configured so far.\<close>

definition build_inv :: "bool \<Rightarrow> IoSystem \<Rightarrow> bool" where
  "build_inv ex sys \<longleftrightarrow> regions_ok (io_map sys) \<and> 1 \<le> next_irq sys \<and> next_irq sys \<le> 33
     \<and> 0x600000 \<le> unat (boundary sys) \<and> unat (boundary sys) \<le> 0x610000 + 0x2000 * (next_irq sys - 1)
     \<and> (\<not> ex \<longrightarrow> (\<forall>(k, (s, _)) \<in> set (io_map sys). unat k + unat s \<le> unat (boundary sys)))"

lemma unat_add_small:
  "unat b < 0x1000000 \<Longrightarrow> n < 0x1000000 \<Longrightarrow> unat (b + of_nat n) = unat b + n" for b :: u64
  by (simp add: unat_add_fits unat_of_nat take_bit_nat_eq_self)

definition at_boundary :: "bool \<Rightarrow> IoSystem \<Rightarrow> nat \<Rightarrow> u64 \<times> u64 \<times> io_dev \<Rightarrow> IoSystem option \<Rightarrow> bool" where
  "at_boundary ex sys i entry r \<longleftrightarrow> (r = None \<longrightarrow> ex)
     \<and> (\<forall>sys'. r = Some sys' \<longrightarrow> build_inv ex sys' \<and> next_irq sys' = next_irq sys + i
          \<and> set (io_map sys') = insert entry (set (io_map sys)))"

lemma register_at_boundary:
  assumes "build_inv ex sys"
    and "register_io_mem (boundary sys) (of_nat n) dev
      (sys\<lparr> next_irq := next_irq sys + i, boundary := boundary sys + of_nat n \<rparr>) = r"
    and "0 < i" "next_irq sys + i \<le> 33" "0 < n" "n \<le> 0x2000"
  shows "at_boundary ex sys i (boundary sys, (of_nat n, dev)) r"
proof -
  let ?sys = "sys\<lparr> next_irq := next_irq sys + i, boundary := boundary sys + of_nat n \<rparr>"
  have b: "unat (boundary sys) < 0x1000000"
    using assms(1,3,4) by (auto simp: build_inv_def)
  have e: "unat (boundary sys + of_nat n) = unat (boundary sys) + n" "unat (of_nat n :: u64) = n"
    using unat_add_small [OF b, of n] assms(6) by (simp_all add: unat_of_nat take_bit_nat_eq_self)
  have ro: "regions_ok (io_map ?sys)" using assms(1) by (simp add: build_inv_def)
  have "build_inv ex sys' \<and> next_irq sys' = next_irq sys + i
      \<and> set (io_map sys') = insert (boundary sys, (of_nat n, dev)) (set (io_map sys))"
    if r: "register_io_mem (boundary sys) (of_nat n) dev ?sys = Some sys'" for sys'
    using register_io_mem_ok [OF r ro] assms b e by (force simp: build_inv_def)
  moreover have "\<not> ex \<longrightarrow> r \<noteq> None"
    using register_io_mem_above [OF ro, of "boundary sys" "of_nat n" dev] assms
    by (auto simp: build_inv_def)
  ultimately show ?thesis using assms(2) by (auto simp: at_boundary_def)
qed

lemma register_configured:
  assumes "build_inv ex sys0" "sys = sys0\<lparr> next_irq := next_irq sys0 + i \<rparr>"
    and "register_io_mem base sz dev sys = Some sys'" "next_irq sys0 + i \<le> 33"
    and "unat base + unat sz < 2 ^ 64" "0 < unat sz"
  shows "build_inv True sys' \<and> next_irq sys' = next_irq sys0 + i
     \<and> set (io_map sys') = insert (base, (sz, dev)) (set (io_map sys0))"
  using assms register_io_mem_ok [OF assms(3) _ assms(5,6)] by (auto simp: build_inv_def)

lemma io_add_device_inv:
  assumes "build_inv ex sys" "add_fits a"
  shows "(\<forall>sys'. io_add_device a sys = Some sys' \<longrightarrow> build_inv (ex \<or> explicit_base a) sys'
        \<and> next_irq sys' = next_irq sys + add_irqs a \<and> set (io_map sys) \<subseteq> set (io_map sys'))
    \<and> (\<not> ex \<and> \<not> explicit_base a \<and> next_irq sys + add_irqs a \<le> 32 \<longrightarrow> io_add_device a sys \<noteq> None)"
proof (cases a)
  case (AddVirtio n)
  define q where "q = register_io_mem (boundary sys) (of_nat 4096) (DevOther n)
      (sys\<lparr> next_irq := next_irq sys + 1, boundary := boundary sys + of_nat 4096 \<rparr>)"
  have "io_add_device a sys = (if next_irq sys < 32 then q else None)"
    using assms(1) by (simp add: q_def AddVirtio io_add_device_def add_virtio_def irq_pin_def build_inv_def)
  moreover have "next_irq sys < 32 \<Longrightarrow> at_boundary ex sys 1 (boundary sys, (of_nat 4096, DevOther n)) q"
    using register_at_boundary [OF assms(1) q_def [symmetric]] by simp
  ultimately show ?thesis
    by (auto simp: at_boundary_def AddVirtio add_irqs_def explicit_base_def)
next
  case (AddRtc n)
  define q where "q = register_io_mem (boundary sys) (of_nat 4096) (DevOther n)
      (sys\<lparr> next_irq := next_irq sys + 2, boundary := boundary sys + of_nat 4096 \<rparr>)"
  have "io_add_device a sys = (if next_irq sys < 31 then q else None)"
    using assms(1) by (simp add: q_def AddRtc io_add_device_def init_rtc_def irq_pin_def build_inv_def)
  moreover have "next_irq sys < 31 \<Longrightarrow> at_boundary ex sys 2 (boundary sys, (of_nat 4096, DevOther n)) q"
    using register_at_boundary [OF assms(1) q_def [symmetric]] by simp
  ultimately show ?thesis
    by (auto simp: at_boundary_def AddRtc add_irqs_def explicit_base_def)
next
  case (AddXemac n b)
  show ?thesis
  proof (cases b)
    case None
    define q where "q = register_io_mem (boundary sys) (of_nat 0x2000) (DevOther n)
        (sys\<lparr> next_irq := next_irq sys + 1, boundary := boundary sys + of_nat 0x2000 \<rparr>)"
    have "io_add_device a sys = (if next_irq sys < 32 then q else None)"
      using assms(1) by (simp add: q_def AddXemac None io_add_device_def add_xemaclite_def irq_pin_def build_inv_def)
    moreover have "next_irq sys < 32 \<Longrightarrow> at_boundary ex sys 1 (boundary sys, (of_nat 0x2000, DevOther n)) q"
      using register_at_boundary [OF assms(1) q_def [symmetric]] by simp
    ultimately show ?thesis
      by (auto simp: at_boundary_def AddXemac None add_irqs_def explicit_base_def)
  next
    case (Some k)
    define q where "q = register_io_mem k 0x2000 (DevOther n) (sys\<lparr> next_irq := next_irq sys + 1 \<rparr>)"
    have "io_add_device a sys = (if next_irq sys < 32 then q else None)"
      using assms(1)
      by (simp add: q_def AddXemac Some io_add_device_def add_xemaclite_def irq_pin_def build_inv_def)
    moreover have "build_inv True sys' \<and> next_irq sys' = next_irq sys + 1
        \<and> set (io_map sys') = insert (k, (0x2000, DevOther n)) (set (io_map sys))"
      if lim: "next_irq sys < 32" and q: "q = Some sys'" for sys'
      by (rule register_configured [OF assms(1) refl q [unfolded q_def]])
        (use lim assms(2) in \<open>simp_all add: AddXemac Some add_fits_def base_fits_def\<close>)
    ultimately show ?thesis
      by (auto simp: AddXemac Some add_irqs_def explicit_base_def)
  qed
qed

lemma io_add_devices_inv:
  assumes "build_inv ex sys" "list_all add_fits as"
  shows "(\<forall>sys'. io_add_devices as sys = Some sys' \<longrightarrow>
        build_inv (ex \<or> list_ex explicit_base as) sys'
        \<and> next_irq sys' = next_irq sys + sum_list (map add_irqs as) \<and> set (io_map sys) \<subseteq> set (io_map sys'))
    \<and> (\<not> ex \<and> \<not> list_ex explicit_base as \<and> next_irq sys + sum_list (map add_irqs as) \<le> 32 \<longrightarrow>
        io_add_devices as sys \<noteq> None)"
  using assms
proof (induction as arbitrary: ex sys)
  case (Cons a as)
  note d = io_add_device_inv [of ex sys a]
  show ?case
  proof (cases "io_add_device a sys")
    case None
    then show ?thesis using d Cons.prems by auto
  next
    case (Some sys1)
    then have i: "build_inv (ex \<or> explicit_base a) sys1" "next_irq sys1 = next_irq sys + add_irqs a"
      "set (io_map sys) \<subseteq> set (io_map sys1)" using d Cons.prems by auto
    from Cons.IH [OF i(1)] Cons.prems i(2,3) Some show ?thesis
      by (auto simp: disj_assoc ac_simps)
  qed
qed simp

lemma io_system_new_inv:
  assumes "config_fits c"
  shows "(\<forall>sys. io_system_new c = Some sys \<longrightarrow> build_inv (\<exists>k. c = Some (Some k)) sys
        \<and> next_irq sys = 1 \<and> (0x200000, (0x400000, DevPlic)) \<in> set (io_map sys))
    \<and> ((\<nexists>k. c = Some (Some k)) \<longrightarrow> io_system_new c \<noteq> None)"
proof -
  let ?s1 = "\<lparr> io_map = [(0x200000, (0x400000, DevPlic))], next_irq = 1, boundary = 0x600000 \<rparr>"
  have r1: "register_io_mem 0x200000 0x400000 DevPlic \<lparr> io_map = [], next_irq = 1, boundary = 0x600000 \<rparr>
      = Some ?s1" by (simp add: register_io_mem_def)
  have inv: "build_inv ex ?s1" for ex by (simp add: build_inv_def)
  consider "c = None" | "c = Some None" | k where "c = Some (Some k)" by (metis option.exhaust)
  then show ?thesis
  proof cases
    case 1
    then show ?thesis using inv by (simp add: io_system_new_def r1 del: One_nat_def)
  next
    case 2
    then show ?thesis
      by (simp add: io_system_new_def r1 register_io_mem_def build_inv_def del: One_nat_def)
  next
    case 3
    then show ?thesis
      using assms register_configured [OF inv, where i = 0 and base = k and sz = "0x10000" and dev = DevClint]
      by (auto simp: io_system_new_def r1 config_fits_def base_fits_def simp del: One_nat_def)
  qed
qed

text \<open>
  C27. However many devices the configuration adds, if the I/O system is built at all then its
  regions do not overlap, the PLIC is at its fixed place, and a lookup returns a device exactly when
  the address lies in that device's region. It is built whenever no base address is configured by
  hand and at most 31 interrupt lines are asked for.
\<close>

theorem io_map_dispatch:
  assumes "config_fits c" "list_all add_fits as"
  shows "(\<forall>sys. io_system_build c as = Some sys \<longrightarrow>
        regions_ok (io_map sys) \<and> find_io_mem 0x200000 sys = Some (0x200000, DevPlic)
        \<and> (\<forall>a k dev. find_io_mem a sys = Some (k, dev) \<longleftrightarrow>
              (\<exists>s. (k, (s, dev)) \<in> set (io_map sys) \<and> in_region a (k, (s, dev)))))
    \<and> ((\<nexists>k. c = Some (Some k)) \<and> \<not> list_ex explicit_base as \<and> sum_list (map add_irqs as) \<le> 31 \<longrightarrow>
        io_system_build c as \<noteq> None)"
proof (cases "io_system_new c")
  case None
  then show ?thesis using io_system_new_inv [OF assms(1)] by (simp add: io_system_build_def)
next
  case (Some s1)
  note n = io_system_new_inv [OF assms(1)]
  have d: "build_inv (\<exists>k. c = Some (Some k)) s1" "next_irq s1 = 1"
    "(0x200000, (0x400000, DevPlic)) \<in> set (io_map s1)" using n Some by auto
  note a = io_add_devices_inv [OF d(1) assms(2)]
  show ?thesis
  proof (intro conjI allI impI)
    fix sys
    assume "io_system_build c as = Some sys"
    then have b: "regions_ok (io_map sys)" "(0x200000, (0x400000, DevPlic)) \<in> set (io_map sys)"
      using a d(3) Some by (auto simp: io_system_build_def build_inv_def)
    note f = find_io_mem_iff [OF b(1)]
    show "regions_ok (io_map sys)" by (rule b(1))
    show "find_io_mem 0x200000 sys = Some (0x200000, DevPlic)"
      using b(2) by (auto simp: f in_region_def intro!: exI [of _ "0x400000"])
    show "find_io_mem a sys = Some (k, dev) \<longleftrightarrow>
        (\<exists>s. (k, (s, dev)) \<in> set (io_map sys) \<and> in_region a (k, (s, dev)))" for a k dev by (rule f)
  next
    assume "(\<nexists>k. c = Some (Some k)) \<and> \<not> list_ex explicit_base as \<and> sum_list (map add_irqs as) \<le> 31"
    then show "io_system_build c as \<noteq> None"
      using a d(2) Some by (simp add: io_system_build_def)
  qed
qed

theorem io_map_dispatch_witness:
  "\<exists>sys. io_system_build (Some None) [AddVirtio 0, AddRtc 1] = Some sys
     \<and> regions_ok (io_map sys) \<and> find_io_mem 0x200000 sys = Some (0x200000, DevPlic)"
proof -
  have "config_fits (Some None)" "list_all add_fits [AddVirtio 0, AddRtc 1]"
    by (simp_all add: config_fits_def base_fits_def add_fits_def)
  from io_map_dispatch [OF this] show ?thesis
    by (auto simp: explicit_base_def add_irqs_def)
qed

end
