(* ===== verification/Interp_Step.thy ===== *)
theory Interp_Step
  imports Interp_Alu Io_System Csr_Access Softfp_Arith
begin

text \<open>
  \<open>step\<close> of \<open>src/emu/interp.rs\<close>: one instruction of one hart, with the macros it uses and
  \<open>sbi_call\<close>.

  \<^item> A definition takes the hart number \<open>h\<close> and the machine; \<open>Err\<close> is a trap, its cause and value in
    the hart, and \<open>Panic\<close> a panic of the simulator or the undefined behaviour of
    \<open>unreachable_unchecked\<close>.
  \<^item> The arms of instructions that differ in width or operator only are one definition each, named
    after the group; the operator is a function of \<open>Interp_Alu\<close> or \<open>Softfp_Arith\<close>.
  \<^item> The softfp library calls back for the rounding mode and the exception flags;
    \<open>get_rounding_mode\<close> and \<open>set_exception_flags\<close> read and write the hart's \<open>shared\<close>.
  \<^item> An access below \<open>IO_BOUNDARY\<close> faults on the host and the signal handler replays it on the
    device; it knows plain moves only, so an atomic read-modify-write there ends the simulator.
\<close>

section \<open>Registers\<close>

definition read_reg :: "nat \<Rightarrow> u8 \<Rightarrow> System \<Rightarrow> (u64, System) res" where
  "read_reg h rs sys = (if 32 \<le> rs then Panic else Ok (registers (ctxs sys h) rs) sys)"

definition write_reg :: "nat \<Rightarrow> u8 \<Rightarrow> u64 \<Rightarrow> System \<Rightarrow> (unit, System) res" where
  "write_reg h rd value sys =
    (if 32 \<le> rd then Panic
     else if rd \<noteq> 0 then
       Ok () (put_hart h ((ctxs sys h)\<lparr> registers := (registers (ctxs sys h))(rd := value) \<rparr>) sys)
     else Ok () sys)"

text \<open>\<open>read_fs\<close> (32 bits) and \<open>read_fd\<close> (64 bits)\<close>

definition read_fp :: "nat \<Rightarrow> u8 \<Rightarrow> System \<Rightarrow> ('h::len word, System) res" where
  "read_fp h rs sys = (if 32 \<le> rs then Panic else Ok (ucast (fp_registers (ctxs sys h) rs)) sys)"

definition write_fd :: "nat \<Rightarrow> u8 \<Rightarrow> u64 \<Rightarrow> System \<Rightarrow> (unit, System) res" where
  "write_fd h frd value sys =
    (if 32 \<le> frd then Panic
     else Ok () (put_hart h
       ((ctxs sys h)\<lparr> fp_registers := (fp_registers (ctxs sys h))(frd := value) \<rparr>) sys))"

definition write_fs :: "nat \<Rightarrow> u8 \<Rightarrow> u32 \<Rightarrow> System \<Rightarrow> (unit, System) res" where
  "write_fs h frd value sys = write_fd h frd (ucast value OR 0xffffffff00000000) sys"

definition set_pc :: "nat \<Rightarrow> u64 \<Rightarrow> System \<Rightarrow> System" where
  "set_pc h v sys = put_hart h ((ctxs sys h)\<lparr> pc := v \<rparr>) sys"

definition pc_pre :: "bool \<Rightarrow> nat \<Rightarrow> System \<Rightarrow> u64" where
  "pc_pre compressed h sys = pc (ctxs sys h) - (if compressed then 2 else 4)"

text \<open>The macro \<open>trap!\<close>\<close>

definition raise_trap :: "nat \<Rightarrow> u64 \<Rightarrow> u64 \<Rightarrow> System \<Rightarrow> ('a, System) res" where
  "raise_trap h c v sys = Err (put_hart h (set_trap c v (ctxs sys h)) sys)"

section \<open>Memory\<close>

definition load_mem :: "Env \<Rightarrow> Devices \<Rightarrow> nat \<Rightarrow> u64 \<Rightarrow> System \<Rightarrow> (u64, System) res" where
  "load_mem env dev n pa sys =
    (if pa < io_boundary env then
       and_then (io_read env dev pa n sys) (\<lambda>v sys. Ok (take_bit (8 * n) v) sys)
     else Ok (load_bytes n (mem sys) pa) sys)"

definition store_mem :: "Env \<Rightarrow> Devices \<Rightarrow> nat \<Rightarrow> u64 \<Rightarrow> u64 \<Rightarrow> System \<Rightarrow> (unit, System) res" where
  "store_mem env dev n pa value sys =
    (if pa < io_boundary env then io_write env dev pa (take_bit (8 * n) value) n sys
     else Ok () (sys\<lparr> mem := store_bytes n pa value (mem sys) \<rparr>))"

text \<open>An atomic update of \<open>n\<close> bytes of RAM, returning the old value.\<close>

definition rmw_mem :: "Env \<Rightarrow> nat \<Rightarrow> u64 \<Rightarrow> (u64 \<Rightarrow> u64) \<Rightarrow> System \<Rightarrow> (u64, System) res" where
  "rmw_mem env n pa f sys =
    (if pa < io_boundary env then Panic
     else
       (let cur = load_bytes n (mem sys) pa in
        Ok cur (sys\<lparr> mem := store_bytes n pa (f cur) (mem sys) \<rparr>)))"

definition load_width :: "load_op \<Rightarrow> nat" where
  "load_width k = (case k of Lb_k \<Rightarrow> 1 | Lh_k \<Rightarrow> 2 | Lw_k \<Rightarrow> 4 | Ld_k \<Rightarrow> 8 | Lbu_k \<Rightarrow> 1 | Lhu_k \<Rightarrow> 2 | Lwu_k \<Rightarrow> 4)"

definition load_extend :: "load_op \<Rightarrow> u64 \<Rightarrow> u64" where
  "load_extend k v =
    (case k of
       Lb_k \<Rightarrow> scast (ucast v :: u8)
     | Lh_k \<Rightarrow> scast (ucast v :: u16)
     | Lw_k \<Rightarrow> scast (ucast v :: u32)
     | Ld_k \<Rightarrow> v
     | Lbu_k \<Rightarrow> ucast (ucast v :: u8)
     | Lhu_k \<Rightarrow> ucast (ucast v :: u16)
     | Lwu_k \<Rightarrow> ucast (ucast v :: u32))"

definition step_load :: "Env \<Rightarrow> Devices \<Rightarrow> nat \<Rightarrow> load_op \<Rightarrow> u8 \<Rightarrow> u8 \<Rightarrow> i32 \<Rightarrow> System \<Rightarrow> (unit, System) res" where
  "step_load env dev h k rd rs1 imm sys =
    and_then (read_reg h rs1 sys) (\<lambda>base sys.
      let vaddr = base + scast imm in
      if vaddr AND of_nat (load_width k - 1) \<noteq> 0 then raise_trap h 4 vaddr sys
      else
        and_then (read_vaddr env h vaddr sys) (\<lambda>pa sys.
        and_then (load_mem env dev (load_width k) pa sys) (\<lambda>v sys.
          write_reg h rd (load_extend k v) sys)))"

definition store_width :: "store_op \<Rightarrow> nat" where
  "store_width k = (case k of Sb_k \<Rightarrow> 1 | Sh_k \<Rightarrow> 2 | Sw_k \<Rightarrow> 4 | Sd_k \<Rightarrow> 8)"

definition step_store :: "Env \<Rightarrow> Devices \<Rightarrow> nat \<Rightarrow> store_op \<Rightarrow> u8 \<Rightarrow> u8 \<Rightarrow> i32 \<Rightarrow> System \<Rightarrow> (unit, System) res" where
  "step_store env dev h k rs1 rs2 imm sys =
    and_then (read_reg h rs1 sys) (\<lambda>base sys.
      let vaddr = base + scast imm in
      if vaddr AND of_nat (store_width k - 1) \<noteq> 0 then raise_trap h 5 vaddr sys
      else
        and_then (ptr_vaddr_x env h vaddr sys) (\<lambda>pa sys.
        and_then (read_reg h rs2 sys) (\<lambda>v sys.
          store_mem env dev (store_width k) pa v sys)))"

section \<open>Atomics\<close>

definition amo_bytes :: "amo_width \<Rightarrow> nat" where
  "amo_bytes w = (case w of W32 \<Rightarrow> 4 | D64 \<Rightarrow> 8)"

text \<open>The value a register receives: words are sign-extended.\<close>

definition amo_extend :: "amo_width \<Rightarrow> u64 \<Rightarrow> u64" where
  "amo_extend w v = (case w of W32 \<Rightarrow> scast (ucast v :: u32) | D64 \<Rightarrow> v)"

definition amo_update :: "amo_op \<Rightarrow> amo_width \<Rightarrow> u64 \<Rightarrow> u64 \<Rightarrow> u64" where
  "amo_update k w src cur =
    (case w of W32 \<Rightarrow> ucast (amo_result k (ucast cur :: u32) (ucast src)) | D64 \<Rightarrow> amo_result k cur src)"

definition step_lr :: "Env \<Rightarrow> Devices \<Rightarrow> nat \<Rightarrow> amo_width \<Rightarrow> u8 \<Rightarrow> u8 \<Rightarrow> System \<Rightarrow> (unit, System) res" where
  "step_lr env dev h w rd rs1 sys =
    and_then (read_reg h rs1 sys) (\<lambda>addr sys.
      if addr AND of_nat (amo_bytes w - 1) \<noteq> 0 then raise_trap h 5 addr sys
      else
        and_then (ptr_vaddr_x env h addr sys) (\<lambda>pa sys.
        and_then (load_mem env dev (amo_bytes w) pa sys) (\<lambda>v sys.
          let value = amo_extend w v in
          and_then (write_reg h rd value sys) (\<lambda>_ sys.
            Ok () (put_hart h ((ctxs sys h)\<lparr> lr_addr := addr, lr_value := value \<rparr>) sys)))))"

definition step_sc :: "Env \<Rightarrow> nat \<Rightarrow> amo_width \<Rightarrow> u8 \<Rightarrow> u8 \<Rightarrow> u8 \<Rightarrow> System \<Rightarrow> (unit, System) res" where
  "step_sc env h w rd rs1 rs2 sys =
    and_then (read_reg h rs1 sys) (\<lambda>addr sys.
      if addr AND of_nat (amo_bytes w - 1) \<noteq> 0 then raise_trap h 5 addr sys
      else
        and_then (read_reg h rs2 sys) (\<lambda>src sys.
        and_then
          (if addr \<noteq> lr_addr (ctxs sys h) then Ok 1 sys
           else
             and_then (ptr_vaddr_x env h addr sys) (\<lambda>pa sys.
               let expected = take_bit (8 * amo_bytes w) (lr_value (ctxs sys h)) in
               and_then (rmw_mem env (amo_bytes w) pa (\<lambda>cur. if cur = expected then src else cur) sys)
                 (\<lambda>cur sys. Ok (if cur = expected then 0 else 1) sys)))
          (\<lambda>result sys. write_reg h rd result sys)))"

definition step_amo :: "Env \<Rightarrow> nat \<Rightarrow> amo_op \<Rightarrow> amo_width \<Rightarrow> u8 \<Rightarrow> u8 \<Rightarrow> u8 \<Rightarrow> System \<Rightarrow> (unit, System) res" where
  "step_amo env h k w rd rs1 rs2 sys =
    and_then (read_reg h rs1 sys) (\<lambda>addr sys.
      if addr AND of_nat (amo_bytes w - 1) \<noteq> 0 then raise_trap h 5 addr sys
      else
        and_then (read_reg h rs2 sys) (\<lambda>src sys.
        and_then (ptr_vaddr_x env h addr sys) (\<lambda>pa sys.
        and_then (rmw_mem env (amo_bytes w) pa (amo_update k w src) sys) (\<lambda>cur sys.
          write_reg h rd (amo_extend w cur) sys))))"

section \<open>Floating point\<close>

text \<open>\<open>get_rounding_mode\<close> and \<open>set_exception_flags\<close>, around a call of the library.\<close>

definition set_exception_flags :: "nat \<Rightarrow> u32 \<Rightarrow> System \<Rightarrow> System" where
  "set_exception_flags h fl sys =
    put_hart h (on_shared (\<lambda>sh. sh\<lparr> fflags := fflags sh OR fl \<rparr>) (ctxs sys h)) sys"

definition fp_flags :: "nat \<Rightarrow> ('a \<times> u32) option \<Rightarrow> System \<Rightarrow> ('a, System) res" where
  "fp_flags h r sys = (case r of None \<Rightarrow> Panic | Some (v, fl) \<Rightarrow> Ok v (set_exception_flags h fl sys))"

definition fp_call :: "nat \<Rightarrow> (RoundingMode \<Rightarrow> ('a \<times> u32) option) \<Rightarrow> System \<Rightarrow> ('a, System) res" where
  "fp_call h f sys =
    (case rounding_mode_try_from (rm (shared (ctxs sys h))) of
       None \<Rightarrow> Panic
     | Some mode \<Rightarrow> fp_flags h (f mode) sys)"

text \<open>The macro \<open>set_rm!\<close>\<close>

definition set_rm :: "Env \<Rightarrow> u8 \<Rightarrow> Context \<Rightarrow> (unit, Context) res" where
  "set_rm env r ctx =
    and_then (test_and_set_fs env ctx) (\<lambda>_ ctx.
      let mode = (if r = 0b111 then frm ctx else ucast r) in
      if mode \<le> 4 then Ok () (on_shared (\<lambda>sh. sh\<lparr> rm := mode \<rparr>) ctx) else Panic)"

definition farith_result ::
    "'d::len itself \<Rightarrow> FpDesc \<Rightarrow> farith_op \<Rightarrow> 'h::len word \<Rightarrow> 'h word \<Rightarrow> RoundingMode \<Rightarrow> ('h word \<times> u32) option" where
  "farith_result T d k a b mode =
    (case k of Fadd_k \<Rightarrow> fp_add d mode a b | Fsub_k \<Rightarrow> fp_sub d mode a b
     | Fmul_k \<Rightarrow> multiply T d mode a b | Fdiv_k \<Rightarrow> fp_divide d mode a b)"

definition fsgn_result :: "FpDesc \<Rightarrow> fsgn_op \<Rightarrow> 'h::len word \<Rightarrow> 'h word \<Rightarrow> 'h word \<times> u32" where
  "fsgn_result d k a b =
    (case k of Fsgnj_k \<Rightarrow> (copy_sign d a b, 0) | Fsgnjn_k \<Rightarrow> (copy_sign_negated d a b, 0)
     | Fsgnjx_k \<Rightarrow> (copy_sign_xored d a b, 0) | Fmin_k \<Rightarrow> fp_min d a b | Fmax_k \<Rightarrow> fp_max d a b)"

definition fcmp_result :: "FpDesc \<Rightarrow> fcmp_op \<Rightarrow> 'h::len word \<Rightarrow> 'h word \<Rightarrow> bool \<times> u32" where
  "fcmp_result d k a b =
    (case k of Feq_k \<Rightarrow> (fp_eq d a b, 0) | Flt_k \<Rightarrow> fp_lt d a b | Fle_k \<Rightarrow> fp_le d a b)"

definition fmadd_result ::
    "'d::len itself \<Rightarrow> FpDesc \<Rightarrow> fmadd_op \<Rightarrow> 'h::len word \<Rightarrow> 'h word \<Rightarrow> 'h word \<Rightarrow> RoundingMode \<Rightarrow> ('h word \<times> u32) option" where
  "fmadd_result T d k a b c mode =
    (case k of Fmadd_k \<Rightarrow> fused_multiply_add T d mode a b c
     | Fmsub_k \<Rightarrow> fused_multiply_add T d mode a b (negate d c)
     | Fnmsub_k \<Rightarrow> fused_multiply_add T d mode (negate d a) b c
     | Fnmadd_k \<Rightarrow> map_option (\<lambda>(v, fl). (negate d v, fl)) (fused_multiply_add T d mode a b c))"

definition to_int_result :: "FpDesc \<Rightarrow> int_fmt \<Rightarrow> 'h::len word \<Rightarrow> RoundingMode \<Rightarrow> (u64 \<times> u32) option" where
  "to_int_result d i a mode =
    (case i of
       IntW \<Rightarrow> map_option (\<lambda>(v, fl). (scast (v :: u32), fl)) (convert_to_sint d mode a)
     | IntWu \<Rightarrow> map_option (\<lambda>(v, fl). (scast (v :: u32), fl)) (convert_to_uint d mode a)
     | IntL \<Rightarrow> convert_to_sint d mode a
     | IntLu \<Rightarrow> convert_to_uint d mode a)"

definition from_int_result :: "FpDesc \<Rightarrow> int_fmt \<Rightarrow> u64 \<Rightarrow> RoundingMode \<Rightarrow> ('h::len word \<times> u32) option" where
  "from_int_result d i x mode = Some
    (case i of
       IntW \<Rightarrow> convert_from_sint d mode (ucast x :: u32)
     | IntWu \<Rightarrow> convert_from_uint d mode (ucast x :: u32)
     | IntL \<Rightarrow> convert_from_sint d mode x
     | IntLu \<Rightarrow> convert_from_uint d mode x)"

definition fclass_result :: "FpDesc \<Rightarrow> 'h::len word \<Rightarrow> u64 option" where
  "fclass_result d a = map_option (\<lambda>c. rust_shl 1 (class_num c)) (classify d a)"

text \<open>
  The arms of the F and D extensions, for one format: \<open>d\<close> is its descriptor, \<open>T\<close> the type of double
  width that products are computed in, and \<open>wr\<close> is \<open>write_fs\<close> or \<open>write_fd\<close>. \<open>fmt\<close> is not looked at.
\<close>

definition with_fs :: "Env \<Rightarrow> nat \<Rightarrow> (System \<Rightarrow> (unit, System) res) \<Rightarrow> System \<Rightarrow> (unit, System) res" where
  "with_fs env h f sys = and_then (on_hart h (test_and_set_fs env) sys) (\<lambda>_ sys. f sys)"

definition with_mode :: "Env \<Rightarrow> nat \<Rightarrow> u8 \<Rightarrow> (System \<Rightarrow> (unit, System) res) \<Rightarrow> System \<Rightarrow> (unit, System) res" where
  "with_mode env h r f sys = and_then (on_hart h (set_rm env r) sys) (\<lambda>_ sys. f sys)"

definition step_fp ::
    "'d::len itself \<Rightarrow> FpDesc \<Rightarrow> (u8 \<Rightarrow> 'h::len word \<Rightarrow> System \<Rightarrow> (unit, System) res)
      \<Rightarrow> Env \<Rightarrow> nat \<Rightarrow> Op \<Rightarrow> System \<Rightarrow> (unit, System) res" where
  "step_fp T d wr env h op =
    (case op of
       OpFArith k fmt frd frs1 frs2 r \<Rightarrow> with_mode env h r (\<lambda>sys.
         and_then (read_fp h frs1 sys) (\<lambda>a sys. and_then (read_fp h frs2 sys) (\<lambda>b sys.
         and_then (fp_call h (farith_result T d k a b) sys) (wr frd))))
     | OpFSqrt fmt frd frs1 r \<Rightarrow> with_mode env h r (\<lambda>sys.
         and_then (read_fp h frs1 sys) (\<lambda>a sys.
         and_then (fp_call h (\<lambda>mode. square_root d mode a) sys) (wr frd)))
     | OpFSgn k fmt frd frs1 frs2 \<Rightarrow> with_fs env h (\<lambda>sys.
         and_then (read_fp h frs1 sys) (\<lambda>a sys. and_then (read_fp h frs2 sys) (\<lambda>b sys.
         and_then (fp_flags h (Some (fsgn_result d k a b)) sys) (wr frd))))
     | OpFCvtToInt i fmt rd frs1 r \<Rightarrow> with_mode env h r (\<lambda>sys.
         and_then (read_fp h frs1 sys) (\<lambda>a sys.
         and_then (fp_call h (to_int_result d i (a :: 'h word)) sys) (write_reg h rd)))
     | OpFClass fmt rd frs1 \<Rightarrow> with_fs env h (\<lambda>sys.
         and_then (read_fp h frs1 sys) (\<lambda>a sys.
         case fclass_result d (a :: 'h word) of None \<Rightarrow> Panic | Some v \<Rightarrow> write_reg h rd v sys))
     | OpFCmp k fmt rd frs1 frs2 \<Rightarrow> with_fs env h (\<lambda>sys.
         and_then (read_fp h frs1 sys) (\<lambda>a sys. and_then (read_fp h frs2 sys) (\<lambda>b sys.
         and_then (fp_flags h (Some (fcmp_result d k (a :: 'h word) b)) sys) (\<lambda>v sys.
           write_reg h rd (of_flag v) sys))))
     | OpFCvtFromInt i fmt frd rs1 r \<Rightarrow> with_mode env h r (\<lambda>sys.
         and_then (read_reg h rs1 sys) (\<lambda>x sys.
         and_then (fp_call h (from_int_result d i x) sys) (wr frd)))
     | OpFMadd k fmt frd frs1 frs2 frs3 r \<Rightarrow> with_mode env h r (\<lambda>sys.
         and_then (read_fp h frs1 sys) (\<lambda>a sys. and_then (read_fp h frs2 sys) (\<lambda>b sys.
         and_then (read_fp h frs3 sys) (\<lambda>c sys.
         and_then (fp_call h (fmadd_result T d k a b c) sys) (wr frd)))))
     | _ \<Rightarrow> (\<lambda>_. Panic))"

text \<open>Loads and stores; \<open>Fld\<close> checks the alignment of a word, as the source does.\<close>

definition step_fload :: "Env \<Rightarrow> Devices \<Rightarrow> nat \<Rightarrow> fp_fmt \<Rightarrow> u8 \<Rightarrow> u8 \<Rightarrow> i32 \<Rightarrow> System \<Rightarrow> (unit, System) res" where
  "step_fload env dev h fmt frd rs1 imm = with_fs env h (\<lambda>sys.
    and_then (read_reg h rs1 sys) (\<lambda>base sys.
      let vaddr = base + scast imm in
      if vaddr AND 3 \<noteq> 0 then raise_trap h 4 vaddr sys
      else
        and_then (read_vaddr env h vaddr sys) (\<lambda>pa sys.
        case fmt of
          FmtS \<Rightarrow> and_then (load_mem env dev 4 pa sys) (\<lambda>v sys. write_fs h frd (ucast v) sys)
        | FmtD \<Rightarrow> and_then (load_mem env dev 8 pa sys) (\<lambda>v sys. write_fd h frd v sys))))"

definition step_fstore :: "Env \<Rightarrow> Devices \<Rightarrow> nat \<Rightarrow> fp_fmt \<Rightarrow> u8 \<Rightarrow> u8 \<Rightarrow> i32 \<Rightarrow> System \<Rightarrow> (unit, System) res" where
  "step_fstore env dev h fmt rs1 frs2 imm = with_fs env h (\<lambda>sys.
    and_then (read_reg h rs1 sys) (\<lambda>base sys.
      let vaddr = base + scast imm; n = (case fmt of FmtS \<Rightarrow> 4 | FmtD \<Rightarrow> 8) in
      if vaddr AND of_nat (n - 1) \<noteq> 0 then raise_trap h 5 vaddr sys
      else
        and_then (ptr_vaddr_x env h vaddr sys) (\<lambda>pa sys.
        and_then (read_fp h frs2 sys) (\<lambda>v sys. store_mem env dev n pa v sys))))"

definition step_fmv_to_int :: "Env \<Rightarrow> nat \<Rightarrow> fp_fmt \<Rightarrow> u8 \<Rightarrow> u8 \<Rightarrow> System \<Rightarrow> (unit, System) res" where
  "step_fmv_to_int env h fmt rd frs1 = with_fs env h (\<lambda>sys.
    case fmt of
      FmtS \<Rightarrow> and_then (read_fp h frs1 sys) (\<lambda>v sys. write_reg h rd (scast (v :: u32)) sys)
    | FmtD \<Rightarrow> and_then (read_fp h frs1 sys) (\<lambda>v sys. write_reg h rd (v :: u64) sys))"

definition step_fmv_from_int :: "Env \<Rightarrow> nat \<Rightarrow> fp_fmt \<Rightarrow> u8 \<Rightarrow> u8 \<Rightarrow> System \<Rightarrow> (unit, System) res" where
  "step_fmv_from_int env h fmt frd rs1 = with_fs env h (\<lambda>sys.
    and_then (read_reg h rs1 sys) (\<lambda>v sys.
      case fmt of FmtS \<Rightarrow> write_fs h frd (ucast v) sys | FmtD \<Rightarrow> write_fd h frd v sys))"

definition step_fcvt_s_d :: "Env \<Rightarrow> nat \<Rightarrow> u8 \<Rightarrow> u8 \<Rightarrow> u8 \<Rightarrow> System \<Rightarrow> (unit, System) res" where
  "step_fcvt_s_d env h frd frs1 r = with_mode env h r (\<lambda>sys.
    and_then (read_fp h frs1 sys) (\<lambda>a sys.
    and_then (fp_call h (\<lambda>mode. convert_format F64Desc F32Desc mode (a :: u64)) sys) (write_fs h frd)))"

text \<open>\<open>FcvtDS\<close> does not set the rounding mode; a widening conversion is exact.\<close>

definition step_fcvt_d_s :: "Env \<Rightarrow> nat \<Rightarrow> u8 \<Rightarrow> u8 \<Rightarrow> System \<Rightarrow> (unit, System) res" where
  "step_fcvt_d_s env h frd frs1 = with_fs env h (\<lambda>sys.
    and_then (read_fp h frs1 sys) (\<lambda>a sys.
    and_then (fp_call h (\<lambda>mode. convert_format F32Desc F64Desc mode (a :: u32)) sys) (write_fd h frd)))"

section \<open>Environment calls\<close>

text \<open>The mask argument of an SBI call: a pointer to it, or null for all harts. \<open>unwrap\<close> panics on
  a failed translation, \<open>read_memory\<close> on an address outside RAM.\<close>

definition sbi_load_mask :: "Env \<Rightarrow> nat \<Rightarrow> u64 \<Rightarrow> System \<Rightarrow> (u64, System) res" where
  "sbi_load_mask env h arg0 sys =
    (case on_hart h (translate_vaddr env (mem sys) arg0 Read) sys of
       Ok pa sys \<Rightarrow> (case read_memory env (mem sys) pa of None \<Rightarrow> Panic | Some v \<Rightarrow> Ok v sys)
     | Err _ \<Rightarrow> Panic
     | Panic \<Rightarrow> Panic)"

definition sbi_mask :: "Env \<Rightarrow> nat \<Rightarrow> u64 \<Rightarrow> System \<Rightarrow> (u64, System) res" where
  "sbi_mask env h arg0 sys = (if arg0 = 0 then Ok (- 1) sys else sbi_load_mask env h arg0 sys)"

definition sbi_call :: "Env \<Rightarrow> Devices \<Rightarrow> nat \<Rightarrow> u64 \<Rightarrow> u64 \<Rightarrow> u64 \<Rightarrow> u64 \<Rightarrow> u64 \<Rightarrow> System \<Rightarrow> (u64, System) res" where
  "sbi_call env dev h nr arg0 arg1 arg2 arg3 sys =
    (if nr = 0 then
       Ok 0 (clint_io_write env (0x4000 + hartid (ctxs sys h) * 8) arg0 8 sys)
     else if nr = 1 then
       (case console_try_write dev (ucast arg0) sys of None \<Rightarrow> Panic | Some sys \<Rightarrow> Ok 0 sys)
     else if nr = 2 then
       (case console_try_read dev sys of
          (None, sys) \<Rightarrow> Ok (- 1) sys
        | (Some b, sys) \<Rightarrow> Ok (ucast b) sys)
     else if nr = 3 then
       Ok 0 (put_hart h (on_shared (deassert_irq 2) (ctxs sys h)) sys)
     else if nr = 4 then
       and_then (sbi_load_mask env h arg0 sys) (\<lambda>msk sys. Ok 0 (on_masked env msk (assert_irq 2) sys))
     else if nr = 5 then
       and_then (sbi_mask env h arg0 sys) (\<lambda>msk sys. Ok 0 (on_masked env msk clear_local_icache sys))
     else if nr = 6 then
       and_then (sbi_mask env h arg0 sys) (\<lambda>msk sys. Ok 0 (global_sfence env msk sys))
     else if nr = 7 then
       and_then (sbi_mask env h arg0 sys) (\<lambda>msk sys. Ok 0 (global_sfence env msk sys))
     else if nr = 8 then Ok 0 (shutdown env (Exit 0) sys)
     else Ok (- 2) sys)"

definition set_a0 :: "nat \<Rightarrow> u64 \<Rightarrow> System \<Rightarrow> (unit, System) res" where
  "set_a0 h v sys =
    Ok () (put_hart h ((ctxs sys h)\<lparr> registers := (registers (ctxs sys h))(10 := v) \<rparr>) sys)"

definition step_ecall :: "Env \<Rightarrow> Devices \<Rightarrow> nat \<Rightarrow> System \<Rightarrow> (unit, System) res" where
  "step_ecall env dev h sys =
    (let r = registers (ctxs sys h);
         sbi = and_then (sbi_call env dev h (r 17) (r 10) (r 11) (r 12) (r 13) sys) (set_a0 h)
     in
     if prv (ctxs sys h) = 0 then
       (if flags_prv env = 0 then
          and_then (syscall dev h (r 17) (r 10) (r 11) (r 12) (r 13) (r 14) (r 15) sys) (set_a0 h)
        else raise_trap h 8 0 sys)
     else if prv (ctxs sys h) = 1 then
       (if flags_prv env = 1 then sbi else raise_trap h 9 0 sys)
     else if prv (ctxs sys h) = 3 then sbi
     else Panic)"

section \<open>Control and status registers\<close>

text \<open>The arms \<open>Csrrw\<close> and \<open>Csrrwi\<close>, with the operand already read or immediate; the source
  reads the register between the two accesses.\<close>

definition csr_swap :: "Env \<Rightarrow> nat \<Rightarrow> u8 \<Rightarrow> Csr \<Rightarrow> (System \<Rightarrow> (u64, System) res) \<Rightarrow> System \<Rightarrow> (unit, System) res" where
  "csr_swap env h rd csr operand sys =
    and_then (if rd \<noteq> 0 then on_hart h (read_csr env csr) sys else Ok 0 sys) (\<lambda>result sys.
    and_then (operand sys) (\<lambda>v sys.
    and_then (write_csr env h csr v sys) (\<lambda>_ sys.
      write_reg h rd result sys)))"

text \<open>\<open>Csrrs\<close>, \<open>Csrrc\<close> and their immediate forms: \<open>f\<close> combines old value and operand; nothing is
  written when the operand field is 0.\<close>

definition csr_modify :: "Env \<Rightarrow> nat \<Rightarrow> u8 \<Rightarrow> Csr \<Rightarrow> bool \<Rightarrow> (u64 \<Rightarrow> u64 \<Rightarrow> u64) \<Rightarrow> (System \<Rightarrow> (u64, System) res)
    \<Rightarrow> System \<Rightarrow> (unit, System) res" where
  "csr_modify env h rd csr doit f operand sys =
    and_then (on_hart h (read_csr env csr) sys) (\<lambda>result sys.
    and_then
      (if doit then and_then (operand sys) (\<lambda>v sys. write_csr env h csr (f result v) sys) else Ok () sys)
      (\<lambda>_ sys. write_reg h rd result sys))"

definition step_csr :: "Env \<Rightarrow> nat \<Rightarrow> csr_op \<Rightarrow> u8 \<Rightarrow> u8 \<Rightarrow> Csr \<Rightarrow> System \<Rightarrow> (unit, System) res" where
  "step_csr env h k rd rs1 csr =
    (case k of
       Csrrw_k \<Rightarrow> csr_swap env h rd csr (read_reg h rs1)
     | Csrrs_k \<Rightarrow> csr_modify env h rd csr (rs1 \<noteq> 0) (\<lambda>old v. old OR v) (read_reg h rs1)
     | Csrrc_k \<Rightarrow> csr_modify env h rd csr (rs1 \<noteq> 0) (\<lambda>old v. old AND NOT v) (read_reg h rs1))"

definition step_csri :: "Env \<Rightarrow> nat \<Rightarrow> csri_op \<Rightarrow> u8 \<Rightarrow> u8 \<Rightarrow> Csr \<Rightarrow> System \<Rightarrow> (unit, System) res" where
  "step_csri env h k rd imm csr =
    (case k of
       Csrrwi_k \<Rightarrow> csr_swap env h rd csr (Ok (ucast imm))
     | Csrrsi_k \<Rightarrow> csr_modify env h rd csr (imm \<noteq> 0) (\<lambda>old v. old OR v) (Ok (ucast imm))
     | Csrrci_k \<Rightarrow> csr_modify env h rd csr (imm \<noteq> 0) (\<lambda>old v. old AND NOT v) (Ok (ucast imm)))"

section \<open>One instruction\<close>

text \<open>\<open>shared\<close> of the hart itself, changed without a result\<close>

definition on_own_shared :: "nat \<Rightarrow> (SharedContext \<Rightarrow> SharedContext) \<Rightarrow> System \<Rightarrow> (unit, System) res" where
  "on_own_shared h f sys = Ok () (put_hart h (on_shared f (ctxs sys h)) sys)"

definition step_sfence :: "Env \<Rightarrow> nat \<Rightarrow> u8 \<Rightarrow> u8 \<Rightarrow> System \<Rightarrow> (unit, System) res" where
  "step_sfence env h rs1 rs2 sys =
    and_then (if rs2 = 0 then Ok 0 sys else read_reg h rs2 sys) (\<lambda>asid sys.
    and_then (if rs1 = 0 then Ok 0 sys else read_reg h rs1 sys) (\<lambda>vpn sys.
      Ok () (global_sfence env (rust_shl 1 (unat (hartid (ctxs sys h)))) sys)))"

definition step_wfi :: "Devices \<Rightarrow> nat \<Rightarrow> System \<Rightarrow> (unit, System) res" where
  "step_wfi dev h sys =
    Ok () (put_hart h
      ((ctxs sys h)\<lparr> cycle_offset := cycle_offset (ctxs sys h) - wait_alarm_cycles dev \<rparr>) sys)"

definition step_branch :: "nat \<Rightarrow> bool \<Rightarrow> branch_op \<Rightarrow> u8 \<Rightarrow> u8 \<Rightarrow> i32 \<Rightarrow> System \<Rightarrow> (unit, System) res" where
  "step_branch h compressed k rs1 rs2 imm sys =
    and_then (read_reg h rs1 sys) (\<lambda>a sys. and_then (read_reg h rs2 sys) (\<lambda>b sys.
      Ok () (if branch_taken k a b then set_pc h (pc_pre compressed h sys + scast imm) sys else sys)))"

definition step_jalr :: "nat \<Rightarrow> u8 \<Rightarrow> u8 \<Rightarrow> i32 \<Rightarrow> System \<Rightarrow> (unit, System) res" where
  "step_jalr h rd rs1 imm sys =
    and_then (read_reg h rs1 sys) (\<lambda>base sys.
      let new_pc = (base + scast imm) AND NOT 1 in
      and_then (write_reg h rd (pc (ctxs sys h)) sys) (\<lambda>_ sys. Ok () (set_pc h new_pc sys)))"

definition step_jal :: "nat \<Rightarrow> bool \<Rightarrow> u8 \<Rightarrow> i32 \<Rightarrow> System \<Rightarrow> (unit, System) res" where
  "step_jal h compressed rd imm sys =
    and_then (write_reg h rd (pc (ctxs sys h)) sys) (\<lambda>_ sys.
      Ok () (set_pc h (pc_pre compressed h sys + scast imm) sys))"

text \<open>An arm that computes a register from one or two registers.\<close>

definition step_unary :: "nat \<Rightarrow> u8 \<Rightarrow> u8 \<Rightarrow> (u64 \<Rightarrow> u64) \<Rightarrow> System \<Rightarrow> (unit, System) res" where
  "step_unary h rd rs1 f sys = and_then (read_reg h rs1 sys) (\<lambda>a sys. write_reg h rd (f a) sys)"

definition step_binary :: "nat \<Rightarrow> u8 \<Rightarrow> u8 \<Rightarrow> u8 \<Rightarrow> (u64 \<Rightarrow> u64 \<Rightarrow> u64) \<Rightarrow> System \<Rightarrow> (unit, System) res" where
  "step_binary h rd rs1 rs2 f sys =
    and_then (read_reg h rs1 sys) (\<lambda>a sys. and_then (read_reg h rs2 sys) (\<lambda>b sys.
      write_reg h rd (f a b) sys))"

text \<open>The format of an instruction that \<open>step_fp\<close> handles.\<close>

definition step_fp_fmt :: "fp_fmt \<Rightarrow> Env \<Rightarrow> nat \<Rightarrow> Op \<Rightarrow> System \<Rightarrow> (unit, System) res" where
  "step_fp_fmt fmt env h op =
    (case fmt of FmtS \<Rightarrow> step_fp TYPE(64) F32Desc (write_fs h) env h op
     | FmtD \<Rightarrow> step_fp TYPE(128) F64Desc (write_fd h) env h op)"

definition step :: "Env \<Rightarrow> Devices \<Rightarrow> nat \<Rightarrow> Op \<Rightarrow> bool \<Rightarrow> System \<Rightarrow> (unit, System) res" where
  "step env dev h op compressed =
    (case op of
       Illegal \<Rightarrow> raise_trap h 2 0
     | OpLoad k rd rs1 imm \<Rightarrow> step_load env dev h k rd rs1 imm
     | OpImm k rd rs1 imm \<Rightarrow> step_unary h rd rs1 (\<lambda>a. imm_result k a imm)
     | Fence \<Rightarrow> Ok ()
     | FenceI \<Rightarrow> on_own_shared h clear_local_icache
     | OpImm32 k rd rs1 imm \<Rightarrow> step_unary h rd rs1 (\<lambda>a. imm32_result k a imm)
     | OpStore k rs1 rs2 imm \<Rightarrow> step_store env dev h k rs1 rs2 imm
     | OpReg k rd rs1 rs2 \<Rightarrow> step_binary h rd rs1 rs2 (reg_result k)
     | Lui rd imm \<Rightarrow> write_reg h rd (scast imm)
     | OpReg32 k rd rs1 rs2 \<Rightarrow> step_binary h rd rs1 rs2 (reg32_result k)
     | Auipc rd imm \<Rightarrow> (\<lambda>sys. write_reg h rd (pc_pre compressed h sys + scast imm) sys)
     | OpBranch k rs1 rs2 imm \<Rightarrow> step_branch h compressed k rs1 rs2 imm
     | Jalr rd rs1 imm \<Rightarrow> step_jalr h rd rs1 imm
     | Jal rd imm \<Rightarrow> step_jal h compressed rd imm
     | Ecall \<Rightarrow> step_ecall env dev h
     | Ebreak \<Rightarrow> raise_trap h 3 0
     | OpCsr k rd rs1 csr \<Rightarrow> step_csr env h k rd rs1 csr
     | OpCsrI k rd imm csr \<Rightarrow> step_csri env h k rd imm csr
     | OpFLoad fmt frd rs1 imm \<Rightarrow> step_fload env dev h fmt frd rs1 imm
     | OpFStore fmt rs1 frs2 imm \<Rightarrow> step_fstore env dev h fmt rs1 frs2 imm
     | OpFArith _ fmt _ _ _ _ \<Rightarrow> step_fp_fmt fmt env h op
     | OpFSqrt fmt _ _ _ \<Rightarrow> step_fp_fmt fmt env h op
     | OpFSgn _ fmt _ _ _ \<Rightarrow> step_fp_fmt fmt env h op
     | OpFCvtToInt _ fmt _ _ _ \<Rightarrow> step_fp_fmt fmt env h op
     | OpFMvToInt fmt rd frs1 \<Rightarrow> step_fmv_to_int env h fmt rd frs1
     | OpFClass fmt _ _ \<Rightarrow> step_fp_fmt fmt env h op
     | OpFCmp _ fmt _ _ _ \<Rightarrow> step_fp_fmt fmt env h op
     | OpFCvtFromInt _ fmt _ _ _ \<Rightarrow> step_fp_fmt fmt env h op
     | OpFMvFromInt fmt frd rs1 \<Rightarrow> step_fmv_from_int env h fmt frd rs1
     | OpFMadd _ fmt _ _ _ _ _ \<Rightarrow> step_fp_fmt fmt env h op
     | FcvtSD frd frs1 r \<Rightarrow> step_fcvt_s_d env h frd frs1 r
     | FcvtDS frd frs1 _ \<Rightarrow> step_fcvt_d_s env h frd frs1
     | OpMul k rd rs1 rs2 \<Rightarrow> step_binary h rd rs1 rs2 (mul_result k)
     | OpMul32 k rd rs1 rs2 \<Rightarrow> step_binary h rd rs1 rs2 (mul32_result k)
     | OpLr w rd rs1 _ \<Rightarrow> step_lr env dev h w rd rs1
     | OpAmo k w rd rs1 rs2 _ \<Rightarrow>
         if k = Sc_k then step_sc env h w rd rs1 rs2 else step_amo env h k w rd rs1 rs2
     | Mret \<Rightarrow> on_hart h step_mret
     | Sret \<Rightarrow> on_hart h step_sret
     | Wfi \<Rightarrow> step_wfi dev h
     | SfenceVma rs1 rs2 \<Rightarrow> step_sfence env h rs1 rs2)"

end
