(* ===== verification/Machine_Invariant.thy ===== *)
theory Machine_Invariant
  imports Interp_Step
begin

text \<open>
  What an invariant of the machine has to be closed under so that every instruction of the
  interpreter keeps it: the locale \<open>machine_invariant\<close> lists the elementary updates \<open>step\<close> is built
  from, and its last lemma is that \<open>step\<close> keeps the invariant. The invariants of the harts
  (\<open>Interp_Invariant\<close>) and of the translated code (\<open>Code_Coherence\<close>) are instances.
\<close>

text \<open>Updates of a hart's shared part that neither queue work nor make a data line writable.\<close>

definition calm :: "(SharedContext \<Rightarrow> SharedContext) \<Rightarrow> bool" where
  "calm f \<longleftrightarrow> (\<forall>sh. rm (f sh) = rm sh \<and> tasks (f sh) = tasks sh
     \<and> (\<forall>i. line (f sh) i = line sh i \<or> line (f sh) i = invalidate (line sh i)))"

text \<open>What is asked of the parts that are parameters: they leave the predicate intact.\<close>

definition devices_keep :: "(System \<Rightarrow> bool) \<Rightarrow> Devices \<Rightarrow> bool" where
  "devices_keep J dev \<longleftrightarrow>
     (\<forall>n a s sys v sys'. J sys \<longrightarrow> dev_read dev n a s sys = (v, sys') \<longrightarrow> J sys')
   \<and> (\<forall>n a v s sys. J sys \<longrightarrow> J (dev_write dev n a v s sys))
   \<and> (\<forall>b sys sys'. J sys \<longrightarrow> console_try_write dev b sys = Some sys' \<longrightarrow> J sys')
   \<and> (\<forall>sys b sys'. J sys \<longrightarrow> console_try_read dev sys = (b, sys') \<longrightarrow> J sys')
   \<and> (\<forall>h a b c d e f g sys. J sys \<longrightarrow> keeps (syscall dev h a b c d e f g sys) J)"

lemma devices_keepD:
  assumes "devices_keep J dev" "J sys"
  shows "dev_read dev n a s sys = (v, sys') \<Longrightarrow> J sys'"
    and "J (dev_write dev n a v s sys)"
    and "console_try_write dev b sys = Some sys' \<Longrightarrow> J sys'"
    and "console_try_read dev sys = (ob, sys') \<Longrightarrow> J sys'"
    and "keeps (syscall dev h x0 x1 x2 x3 x4 x5 x6 sys) J"
  using assms unfolding devices_keep_def by - (metis+)

lemma calm_simps [simp]:
  "calm (assert_irq msk)" "calm (deassert_irq msk)" "calm clear_local_icache" "calm clear_local_cache"
  "calm shutdown_hart" "calm alert" "calm (\<lambda>sh. sh\<lparr> fflags := w sh \<rparr>)"
  by (auto simp: calm_def assert_irq_def deassert_irq_def alert_def fire_alarm_def clear_local_icache_def
      clear_local_cache_def shutdown_hart_def Let_def)

lemma calm_flush [simp]: "calm (\<lambda>sh. clear_local_icache (clear_local_cache sh))"
  by (simp add: calm_def clear_local_icache_def clear_local_cache_def)

locale machine_invariant =
  fixes env :: Env and J :: "System \<Rightarrow> bool"
  assumes J_register: "J sys \<Longrightarrow> rd \<noteq> 0 \<Longrightarrow>
      J (put_hart h ((ctxs sys h)\<lparr> registers := (registers (ctxs sys h))(rd := v) \<rparr>) sys)"
    and J_fp_registers: "J sys \<Longrightarrow> J (put_hart h ((ctxs sys h)\<lparr> fp_registers := regs \<rparr>) sys)"
    and J_pc: "J sys \<Longrightarrow> J (put_hart h ((ctxs sys h)\<lparr> pc := a \<rparr>) sys)"
    and J_set_trap: "J sys \<Longrightarrow> J (put_hart h (set_trap c v (ctxs sys h)) sys)"
    and J_minstret: "J sys \<Longrightarrow> J (put_hart h ((ctxs sys h)\<lparr> minstret := n \<rparr>) sys)"
    and J_reservation: "J sys \<Longrightarrow> J (put_hart h ((ctxs sys h)\<lparr> lr_addr := a, lr_value := v \<rparr>) sys)"
    and J_cycle_offset: "J sys \<Longrightarrow> J (put_hart h ((ctxs sys h)\<lparr> cycle_offset := k \<rparr>) sys)"
    and J_shared: "J sys \<Longrightarrow> calm f \<Longrightarrow> J (put_hart h (on_shared f (ctxs sys h)) sys)"
    and J_masked: "J sys \<Longrightarrow> calm f \<Longrightarrow> J (on_masked env msk f sys)"
    and J_all: "J sys \<Longrightarrow> calm f \<Longrightarrow> J (on_all env f sys)"
    and J_mem: "J sys \<Longrightarrow> J (sys\<lparr> mem := m \<rparr>)"
    and J_clint: "J sys \<Longrightarrow> J (sys\<lparr> clint := cl \<rparr>)"
    and J_plic: "J sys \<Longrightarrow> J (sys\<lparr> plic := q \<rparr>)"
    and J_exit: "J sys \<Longrightarrow> J (sys\<lparr> exit_reason := e \<rparr>)"
    and J_test_and_set_fs: "J sys \<Longrightarrow> keeps (on_hart h (test_and_set_fs env) sys) J"
    and J_set_rm: "J sys \<Longrightarrow> keeps (on_hart h (set_rm env r) sys) J"
    and J_read_csr: "J sys \<Longrightarrow> keeps (on_hart h (read_csr env csr) sys) J"
    and J_write_csr_ctx: "J sys \<Longrightarrow> keeps (on_hart h (write_csr_ctx env csr v) sys) J"
    and J_mret: "J sys \<Longrightarrow> keeps (on_hart h step_mret sys) J"
    and J_sret: "J sys \<Longrightarrow> keeps (on_hart h step_sret sys) J"
    and J_cache_miss: "J sys \<Longrightarrow> keeps (translate_cache_miss env h addr w sys) J"
begin

lemma J_same: "J sys \<Longrightarrow> J (put_hart h (ctxs sys h) sys)"
  by (simp add: put_hart_def)

lemma core_irq_keeps: "J sys \<Longrightarrow> J (core_irq_set_level i msk level sys)"
  by (simp add: core_irq_set_level_def J_shared)

lemma drive_clint_keeps: "J sys \<Longrightarrow> J (drive_clint_pins env evs sys)"
  by (induction evs arbitrary: sys) (auto simp: drive_clint_pins_def core_irq_keeps)

lemma fold_core_irq_keeps:
  "J sys \<Longrightarrow> J (fold (\<lambda>i. core_irq_set_level i 512 (l i)) is sys)"
  by (induction "is" arbitrary: sys) (auto simp: core_irq_keeps)

lemma drive_plic_keeps: "J sys \<Longrightarrow> J (drive_plic_pins lv sys)"
  by (auto simp: drive_plic_pins_def fold_core_irq_keeps split: option.splits)

lemma plic_io_keeps:
  "J sys \<Longrightarrow> plic_io_read addr n sys = (v, sys') \<Longrightarrow> J sys'"
  "J sys \<Longrightarrow> J (plic_io_write addr v n sys)"
  by (auto simp: plic_io_read_def plic_io_write_def Let_def drive_plic_keeps J_plic split: prod.splits)

lemma clint_io_keeps: "J sys \<Longrightarrow> J (clint_io_write env addr v n sys)"
  by (auto simp: clint_io_write_def Let_def drive_clint_keeps J_clint split: prod.splits)

lemma io_read_keeps:
  assumes "devices_keep J dev" "J sys"
  shows "keeps (io_read env dev addr n sys) J"
  using plic_io_keeps(1) [OF assms(2)] devices_keepD(1) [OF assms] assms(2)
  by (simp add: io_read_def Let_def split: option.split io_dev.split prod.split)

lemma io_write_keeps:
  assumes "devices_keep J dev" "J sys"
  shows "keeps (io_write env dev addr v n sys) J"
  using plic_io_keeps(2) [OF assms(2)] clint_io_keeps [OF assms(2)] devices_keepD(2) [OF assms] assms(2)
  by (simp add: io_write_def split: option.split io_dev.split)

lemma load_mem_keeps:
  "devices_keep J dev \<Longrightarrow> J sys \<Longrightarrow> keeps (load_mem env dev n pa sys) J"
  by (auto simp: load_mem_def io_read_keeps)

lemma store_mem_keeps:
  "devices_keep J dev \<Longrightarrow> J sys \<Longrightarrow> keeps (store_mem env dev n pa v sys) J"
  by (auto simp: store_mem_def io_write_keeps J_mem)

lemma rmw_mem_keeps: "J sys \<Longrightarrow> keeps (rmw_mem env n pa f sys) J"
  by (auto simp: rmw_mem_def Let_def J_mem)

lemma read_reg_keeps: "J sys \<Longrightarrow> keeps (read_reg h r sys) J"
  by (simp add: read_reg_def)

lemma read_fp_keeps: "J sys \<Longrightarrow> keeps (read_fp h r sys) J"
  by (simp add: read_fp_def)

lemma write_reg_keeps: "J sys \<Longrightarrow> keeps (write_reg h r v sys) J"
  by (simp add: write_reg_def J_register)

lemma write_fd_keeps: "J sys \<Longrightarrow> keeps (write_fd h r v sys) J"
  by (simp add: write_fd_def J_fp_registers)

lemma write_fs_keeps: "J sys \<Longrightarrow> keeps (write_fs h r v sys) J"
  by (simp add: write_fs_def write_fd_keeps)

lemma raise_trap_keeps: "J sys \<Longrightarrow> keeps (raise_trap h c v sys) J"
  by (simp add: raise_trap_def J_set_trap)

lemma set_pc_keeps: "J sys \<Longrightarrow> J (set_pc h v sys)"
  by (simp add: set_pc_def J_pc)

lemma fp_flags_keeps: "J sys \<Longrightarrow> keeps (fp_flags h r sys) J"
  by (auto simp: fp_flags_def set_exception_flags_def intro!: J_shared split: option.splits)

lemma fp_call_keeps: "J sys \<Longrightarrow> keeps (fp_call h f sys) J"
  by (auto simp: fp_call_def fp_flags_keeps split: option.splits)

lemma with_fs_keeps:
  "J sys \<Longrightarrow> (\<And>sys. J sys \<Longrightarrow> keeps (f sys) J) \<Longrightarrow>
    keeps (with_fs env h f sys) J"
  by (auto simp: with_fs_def intro!: keeps_and_then J_test_and_set_fs)

lemma with_mode_keeps:
  "J sys \<Longrightarrow> (\<And>sys. J sys \<Longrightarrow> keeps (f sys) J) \<Longrightarrow>
    keeps (with_mode env h r f sys) J"
  by (auto simp: with_mode_def intro!: keeps_and_then J_set_rm)

lemma count_access_keeps: "J sys \<Longrightarrow> J (count_access h sys)"
  by (simp add: count_access_def J_minstret)

lemma read_vaddr_keeps: "J sys \<Longrightarrow> keeps (read_vaddr env h addr sys) J"
  by (auto simp: read_vaddr_def translate_read_def Let_def intro!: J_cache_miss count_access_keeps)

lemma ptr_vaddr_x_keeps: "J sys \<Longrightarrow> keeps (ptr_vaddr_x env h addr sys) J"
  by (auto simp: ptr_vaddr_x_def translate_write_def Let_def intro!: J_cache_miss count_access_keeps)

lemma write_csr_keeps: "J sys \<Longrightarrow> keeps (write_csr env h csr v sys) J"
  by (auto simp: write_csr_def shutdown_def J_write_csr_ctx J_all J_exit)

lemmas machine_keeps = load_mem_keeps store_mem_keeps rmw_mem_keeps read_reg_keeps read_fp_keeps
  write_reg_keeps write_fd_keeps write_fs_keeps raise_trap_keeps set_pc_keeps fp_flags_keeps
  fp_call_keeps with_fs_keeps with_mode_keeps read_vaddr_keeps ptr_vaddr_x_keeps write_csr_keeps
  J_read_csr J_mret J_sret

lemmas group_defs = step_load_def step_store_def step_lr_def step_sc_def step_amo_def
  step_fload_def step_fstore_def step_fmv_to_int_def step_fmv_from_int_def step_fcvt_s_d_def
  step_fcvt_d_s_def csr_swap_def csr_modify_def step_csr_def step_csri_def step_branch_def
  step_jalr_def step_jal_def step_unary_def step_binary_def

lemma step_fp_keeps:
  assumes "J sys" "\<And>r v sys. J sys \<Longrightarrow> keeps (wr r v sys) J"
  shows "keeps (step_fp T d wr env h op sys) J"
  using assms unfolding step_fp_def
  by (cases op) (auto intro!: keeps_and_then machine_keeps split: option.splits)

lemma sbi_mask_keeps: "J sys \<Longrightarrow> keeps (sbi_load_mask env h a sys) J"
  using J_same [of sys h] J_set_trap [of sys h]
  by (auto simp: sbi_load_mask_def keeps_def translate_vaddr_def on_hart_def Let_def
      split: res.splits option.splits if_splits)

lemma sfence_keeps: "J sys \<Longrightarrow> J (global_sfence env msk sys)"
  by (simp add: global_sfence_def J_masked)

lemma sbi_call_keeps:
  assumes "devices_keep J dev" "J sys"
  shows "keeps (sbi_call env dev h nr a0 a1 a2 a3 sys) J"
  using assms devices_keepD(3,4) [OF assms]
  by (auto simp: sbi_call_def sbi_mask_def clint_io_keeps shutdown_def J_shared J_masked J_all J_exit sfence_keeps
      intro!: keeps_and_then sbi_mask_keeps
      split: option.split prod.split)

lemma step_ecall_keeps:
  assumes "devices_keep J dev" "J sys"
  shows "keeps (step_ecall env dev h sys) J"
  using assms
  by (auto simp: step_ecall_def set_a0_def Let_def J_register raise_trap_keeps
      intro!: keeps_and_then sbi_call_keeps devices_keepD(5))

lemma step_keeps:
  assumes "devices_keep J dev" "J sys"
  shows "keeps (step env dev h op compressed sys) J"
  using assms unfolding step_def group_defs step_fp_fmt_def step_sfence_def step_wfi_def on_own_shared_def Let_def
  by (cases op)
    (auto intro!: keeps_and_then machine_keeps step_fp_keeps step_ecall_keeps sfence_keeps J_shared
      J_reservation J_cycle_offset
      split: load_op.split csr_op.split csri_op.split fp_fmt.split)

end


end
