(* ===== verification/Interp_Invariant.thy ===== *)
theory Interp_Invariant
  imports Machine_Invariant Softfp_Theorems Riscv_Compressed
begin

text \<open>
  Properties of \<open>step\<close> that hold for every instruction: an invariant of the harts that all
  instructions keep, for any predicate on a context that is closed under the elementary updates (the
  locale \<open>hart_invariant\<close>, which gives a \<open>machine_invariant\<close>), and the absence of panics in decoded
  instructions.
\<close>

section \<open>Invariants of the harts\<close>

definition all_harts :: "(Context \<Rightarrow> bool) \<Rightarrow> System \<Rightarrow> bool" where
  "all_harts I sys \<longleftrightarrow> (\<forall>i. I (ctxs sys i))"

text \<open>
  The state every reachable hart is in: the zero register is zero, the rounding modes are legal and
  the privilege level is one of the three.
\<close>

definition hart_ok :: "Context \<Rightarrow> bool" where
  "hart_ok ctx \<longleftrightarrow> registers ctx 0 = 0 \<and> frm ctx \<le> 4 \<and> rm (shared ctx) \<le> 4
     \<and> (prv ctx = 0 \<or> prv ctx = 1 \<or> prv ctx = 3)"

text \<open>Devices that do nothing, for concrete runs.\<close>

definition no_devices :: Devices where
  "no_devices = \<lparr> io_system = \<lparr> io_map = [], next_irq = 1, boundary = 0x600000 \<rparr>,
     dev_read = (\<lambda>n a s sys. (0, sys)), dev_write = (\<lambda>n a v s sys. sys),
     console_try_write = (\<lambda>b. Some), console_try_read = (\<lambda>sys. (None, sys)),
     syscall = (\<lambda>h a b c d e f g. Ok 0), wait_alarm_cycles = 0 \<rparr>"

text \<open>
  The moves of the machine: a hart executes an instruction, takes the trap it raised, takes a
  pending interrupt, or a timer of the CLINT fires.
\<close>

inductive machine_step :: "Env \<Rightarrow> Devices \<Rightarrow> System \<Rightarrow> System \<Rightarrow> bool" for env dev where
  executes: "step env dev h op compressed sys = Ok () sys' \<Longrightarrow> machine_step env dev sys sys'"
| traps: "\<lbrakk> step env dev h op compressed sys = Err sys'; trap env (ctxs sys' h) = Some ctx \<rbrakk> \<Longrightarrow>
    machine_step env dev sys (put_hart h ctx sys')"
| interrupts: "check_interrupt env h sys = Ok () sys' \<Longrightarrow> machine_step env dev sys sys'"
| timer: "machine_step env dev sys (clint_timer_fires env h sys)"

inductive_cases machine_stepE: "machine_step env dev sys sys'"

definition machine_initial :: "bool \<Rightarrow> System \<Rightarrow> bool" where
  "machine_initial has_firmware sys \<longleftrightarrow> (\<forall>i. ctxs sys i = initial_context i has_firmware)"

text \<open>Paging is off, or every page walk of the hart stays inside RAM.\<close>

definition page_tables_in_ram :: "Env \<Rightarrow> nat \<Rightarrow> System \<Rightarrow> bool" where
  "page_tables_in_ram env h sys \<longleftrightarrow> drop_bit 60 (satp (ctxs sys h)) = 0
     \<or> (\<forall>vpn. walk_page (satp (ctxs sys h)) vpn (read_memory env (mem sys)) \<noteq> None)"

text \<open>
  The instructions that reach a panic of their own: environment calls (host errors and bad
  pointers), atomic updates of I/O memory, \<open>mret\<close> to the reserved privilege level, and a read of
  \<open>misa\<close>.
\<close>

definition may_panic :: "Op \<Rightarrow> bool" where
  "may_panic op = (case op of Ecall \<Rightarrow> True | Mret \<Rightarrow> True | OpAmo _ _ _ _ _ _ \<Rightarrow> True
     | OpCsr _ _ _ csr \<Rightarrow> csr = Csr_Misa | OpCsrI _ _ _ csr \<Rightarrow> csr = Csr_Misa | _ \<Rightarrow> False)"

text \<open>Operands as the decoder produces them, for the interpreter.\<close>

definition operands_ok :: "Op \<Rightarrow> bool" where
  "operands_ok op \<longleftrightarrow> op = Illegal \<or> bad_shift op \<or> encodable op"

text \<open>A machine with one hart, for concrete runs.\<close>

definition sample_env :: Env where
  "sample_env = \<lparr> memory_model = AtomicModel, flags_prv = 1, core_count = 1, io_boundary = 0x40000000,
     feature_float = True, feature_simcsr = False, lockstep_cycles = 0, event_time = 0 \<rparr>"

definition sample_system :: System where
  "sample_system = \<lparr> ctxs = (\<lambda>i. initial_context i False), mem = (\<lambda>_. 0), code_prot = {},
     icaches = (\<lambda>_. new_icache 0), exit_reason = None,
     clint = \<lparr> msip = [False], mtimecmp = [- 1], timers = [] \<rparr>, plic = new_plic_system 1 \<rparr>"

text \<open>The instructions \<open>step_fp\<close> handles.\<close>

definition fp_group :: "Op \<Rightarrow> bool" where
  "fp_group op = (case op of OpFArith _ _ _ _ _ _ \<Rightarrow> True | OpFSqrt _ _ _ _ \<Rightarrow> True
     | OpFSgn _ _ _ _ _ \<Rightarrow> True | OpFCvtToInt _ _ _ _ _ \<Rightarrow> True | OpFClass _ _ _ \<Rightarrow> True
     | OpFCmp _ _ _ _ _ \<Rightarrow> True | OpFCvtFromInt _ _ _ _ _ \<Rightarrow> True
     | OpFMadd _ _ _ _ _ _ _ \<Rightarrow> True | _ \<Rightarrow> False)"

text \<open>Not a panic.\<close>

definition returns :: "('a, 's) res \<Rightarrow> bool" where
  "returns r \<longleftrightarrow> r \<noteq> Panic"

section \<open>The interface of an invariant\<close>

locale hart_invariant =
  fixes I :: "Context \<Rightarrow> bool"
  assumes I_register: "I ctx \<Longrightarrow> rd \<noteq> 0 \<Longrightarrow> I (ctx\<lparr> registers := (registers ctx)(rd := v) \<rparr>)"
    and I_fp_registers: "I ctx \<Longrightarrow> I (ctx\<lparr> fp_registers := regs \<rparr>)"
    and I_pc: "I ctx \<Longrightarrow> I (ctx\<lparr> pc := a \<rparr>)"
    and I_set_trap: "I ctx \<Longrightarrow> I (set_trap c v ctx)"
    and I_minstret: "I ctx \<Longrightarrow> I (ctx\<lparr> minstret := n \<rparr>)"
    and I_reservation: "I ctx \<Longrightarrow> I (ctx\<lparr> lr_addr := a, lr_value := v \<rparr>)"
    and I_cycle_offset: "I ctx \<Longrightarrow> I (ctx\<lparr> cycle_offset := n \<rparr>)"
    and I_shared: "I ctx \<Longrightarrow> (\<And>sh. rm (f sh) = rm sh) \<Longrightarrow> I (on_shared f ctx)"
    and I_test_and_set_fs: "I ctx \<Longrightarrow> keeps (test_and_set_fs env ctx) I"
    and I_set_rm: "I ctx \<Longrightarrow> keeps (set_rm env r ctx) I"
    and I_read_csr: "I ctx \<Longrightarrow> keeps (read_csr env csr ctx) I"
    and I_write_csr_ctx: "I ctx \<Longrightarrow> keeps (write_csr_ctx env csr v ctx) I"
    and I_mret: "I ctx \<Longrightarrow> keeps (step_mret ctx) I"
    and I_sret: "I ctx \<Longrightarrow> keeps (step_sret ctx) I"
begin

lemma put_hart [simp]: "all_harts I sys \<Longrightarrow> I ctx \<Longrightarrow> all_harts I (put_hart h ctx sys)"
  by (simp add: all_harts_def put_hart_def)

lemma hart: "all_harts I sys \<Longrightarrow> I (ctxs sys h)"
  by (simp add: all_harts_def)

lemma other_fields [simp]:
  "all_harts I (sys\<lparr> mem := m \<rparr>) = all_harts I sys"
  "all_harts I (sys\<lparr> code_prot := p \<rparr>) = all_harts I sys"
  "all_harts I (sys\<lparr> clint := c \<rparr>) = all_harts I sys"
  "all_harts I (sys\<lparr> plic := q \<rparr>) = all_harts I sys"
  "all_harts I (sys\<lparr> exit_reason := e \<rparr>) = all_harts I sys"
  by (simp_all add: all_harts_def)

lemma on_hart_keeps:
  assumes "all_harts I sys" "\<And>ctx. I ctx \<Longrightarrow> keeps (f ctx) I"
  shows "keeps (on_hart h f sys) (all_harts I)"
  using assms(1) assms(2) [OF hart [OF assms(1), of h]] by (cases "f (ctxs sys h)") (auto simp: on_hart_def)

lemma data_access_keeps: "I ctx \<Longrightarrow> keeps (data_access env m addr w ctx) I"
  by (auto simp: data_access_def translate_vaddr_def insert_data_cache_line_def Let_def
      intro!: keeps_and_then I_set_trap I_shared split: option.splits)

lemma on_all_keeps:
  "all_harts I sys \<Longrightarrow> (\<And>sh. rm (f sh) = rm sh) \<Longrightarrow> all_harts I (on_all env f sys)"
  by (simp add: all_harts_def on_all_def I_shared)

lemma cache_miss_keeps:
  "all_harts I sys \<Longrightarrow> keeps (translate_cache_miss env h addr w sys) (all_harts I)"
  by (auto simp: translate_cache_miss_def icache_invalidate_def run_on_def alert_def fire_alarm_def Let_def
      intro!: keeps_and_then on_hart_keeps data_access_keeps on_all_keeps)

end

sublocale hart_invariant \<subseteq> machine_invariant env "all_harts I" for env
  by unfold_locales
    (auto simp: hart I_register I_fp_registers I_pc I_set_trap I_minstret I_reservation I_cycle_offset
      I_test_and_set_fs I_set_rm I_read_csr I_write_csr_ctx I_mret I_sret calm_def I_shared
      all_harts_def on_masked_def on_all_def put_hart_def
      intro!: cache_miss_keeps on_hart_keeps)

section \<open>The invariant of the model\<close>

lemmas csr_effects = test_and_set_fs_def test_counter_def set_fflags_def set_frm_def write_status_def
  alert_if_pending_def recheck_interrupt_def flush_local_def set_trap_def on_shared_def
  assert_irq_def deassert_irq_def alert_def fire_alarm_def clear_local_cache_def
  clear_local_icache_def

lemma test_and_set_fs_fields:
  "test_and_set_fs env ctx = Ok u ctx' \<Longrightarrow> ctx' = ctx\<lparr> mstatus := mstatus ctx OR 0x6000 \<rparr>"
  "test_and_set_fs env ctx = Err ctx' \<Longrightarrow> ctx' = set_trap 2 0 ctx"
  by (auto simp: test_and_set_fs_def split: if_splits)

lemma keeps_test_and_set_fs:
  assumes "P (ctx\<lparr> mstatus := mstatus ctx OR 0x6000 \<rparr>)" "P (set_trap 2 0 ctx)"
  shows "keeps (test_and_set_fs env ctx) P"
  using assms by (auto simp: test_and_set_fs_def)

lemma keeps_test_counter: "P ctx \<Longrightarrow> P (set_trap 2 0 ctx) \<Longrightarrow> keeps (test_counter n ctx) P"
  by (simp add: test_counter_def)

lemma min_4: "min x 4 \<le> (4 :: u32)"
  by simp

lemma hart_ok_read_csr: "hart_ok ctx \<Longrightarrow> keeps (read_csr env csr ctx) hart_ok"
  unfolding read_csr_def
  by (intro keeps_if keeps_and_then keeps_test_and_set_fs keeps_test_counter)
    (auto simp: hart_ok_def set_trap_def)

lemma hart_ok_write_csr: "hart_ok ctx \<Longrightarrow> keeps (write_csr_ctx env csr v ctx) hart_ok"
  unfolding write_csr_ctx_def
  by (intro keeps_if keeps_and_then keeps_test_and_set_fs)
    (auto simp: hart_ok_def csr_effects Let_def)

lemma prv_from_mstatus: "drop_bit 11 (v AND 0x1800) \<in> {0, 1, 2, 3 :: u64}"
proof -
  have "drop_bit 11 (v AND 0x1800) = take_bit 2 (drop_bit 11 v)"
    by (rule word64_eqI; simp add: bit_simps)
  moreover have "unat (take_bit 2 (drop_bit 11 v)) < 4"
    by (simp add: unsigned_take_bit_eq take_bit_nat_def)
  ultimately have "unat (drop_bit 11 (v AND 0x1800)) \<in> {0, 1, 2, 3}" by auto
  then show ?thesis by (auto simp: word_unat_eq_iff)
qed

lemma hart_ok_mret: "hart_ok ctx \<Longrightarrow> keeps (step_mret ctx) hart_ok"
  using prv_from_mstatus [of "mstatus ctx"]
  by (auto simp: step_mret_def hart_ok_def csr_effects Let_def)

lemma hart_ok_sret: "hart_ok ctx \<Longrightarrow> keeps (step_sret ctx) hart_ok"
  by (auto simp: step_sret_def hart_ok_def csr_effects Let_def)

interpretation ok: hart_invariant hart_ok
proof unfold_locales
  show "keeps (set_rm env r ctx) hart_ok" if "hart_ok ctx" for env r ctx
    using that unfolding set_rm_def
    by (intro keeps_and_then keeps_test_and_set_fs)
      (auto simp: hart_ok_def set_trap_def on_shared_def Let_def)
qed (auto simp: hart_ok_def set_trap_def on_shared_def intro!: hart_ok_read_csr hart_ok_write_csr
    hart_ok_mret hart_ok_sret keeps_test_and_set_fs)

lemma hart_ok_trap: "hart_ok ctx \<Longrightarrow> trap env ctx = Some ctx' \<Longrightarrow> hart_ok ctx'"
  by (auto simp: trap_def hart_ok_def csr_effects Let_def split: if_splits)

lemma hart_ok_initial: "hart_ok (initial_context i fw)"
  by (simp add: hart_ok_def initial_context_def new_shared_def Let_def)

lemma hart_ok_set_trap: "hart_ok (set_trap c v ctx) = hart_ok ctx"
  by (simp add: hart_ok_def set_trap_def)

lemma hart_ok_shared: "rm sh = rm (shared ctx) \<Longrightarrow> hart_ok (ctx\<lparr> shared := sh \<rparr>) = hart_ok ctx"
  by (simp add: hart_ok_def)

lemma check_interrupt_hart_ok:
  assumes "all_harts hart_ok sys" "check_interrupt env h sys = Ok () sys'"
  shows "all_harts hart_ok sys'"
  using assms
  by (auto simp: check_interrupt_def Let_def all_harts_def put_hart_def on_shared_def hart_ok_shared
      hart_ok_set_trap dest: hart_ok_trap [rotated] split: if_splits option.splits)

lemma machine_step_hart_ok:
  assumes "machine_step env dev sys sys'" "devices_keep (all_harts hart_ok) dev" "all_harts hart_ok sys"
  shows "all_harts hart_ok sys'"
  using assms
proof (induction rule: machine_step.induct)
  case (executes h op compressed sys sys')
  then show ?case using ok.step_keeps [of dev sys env h op compressed] by simp
next
  case (traps h op compressed sys sys' ctx)
  then have "all_harts hart_ok sys'" using ok.step_keeps [of dev sys env h op compressed] by simp
  then show ?case using traps(2) hart_ok_trap ok.hart by (blast intro: ok.put_hart)
next
  case (interrupts h sys sys')
  then show ?case by (blast intro: check_interrupt_hart_ok)
next
  case (timer sys h)
  then show ?case by (simp add: clint_timer_fires_def ok.drive_clint_keeps)
qed


lemma no_devices_keep: "devices_keep I no_devices"
  by (auto simp: devices_keep_def no_devices_def)


section \<open>No panics\<close>

lemma returns_simps [simp]: "returns (Ok v s)" "returns (Err s)" "\<not> returns Panic"
  by (simp_all add: returns_def)

lemma returns_and_then [intro]:
  "returns r \<Longrightarrow> (\<And>v s. r = Ok v s \<Longrightarrow> returns (k v s)) \<Longrightarrow> returns (and_then r k)"
  by (cases r) auto

lemma returns_if [intro]:
  "(c \<Longrightarrow> returns a) \<Longrightarrow> (\<not> c \<Longrightarrow> returns b) \<Longrightarrow> returns (if c then a else b)"
  by simp

text \<open>The softfp operations the interpreter calls return for every operand.\<close>

lemma classify_total: "classify d v \<noteq> None"
  by (simp add: classify_def class_try_from_def class_num_def Let_def)

context fp_format
begin

lemma to_int_total: "convert_to_int d mode mx mn (v :: 'h word) \<noteq> None"
proof (cases "is_finite d v \<and> \<not> is_zero d v")
  case True
  then obtain e s where "get_normalized_significand d v = Some (e, s)"
    using normalized_some by blast
  then show ?thesis by (simp add: convert_to_int_def Let_def case_prod_unfold del: not_None_eq)
next
  case False
  then show ?thesis
    using is_zero_trailing [of v] by (auto simp: convert_to_int_def Let_def)
qed

lemma to_uint_total: "convert_to_uint d mode (v :: 'h word) \<noteq> None"
  using to_int_total by (simp add: convert_to_uint_def case_prod_unfold split: option.split)

lemma to_sint_total: "convert_to_sint d mode (v :: 'h word) \<noteq> None"
  using to_int_total by (simp add: convert_to_sint_def case_prod_unfold Let_def split: option.split)

lemma to_int_result_total: "to_int_result d i (v :: 'h word) mode \<noteq> None"
  by (cases i) (simp_all add: to_int_result_def to_uint_total to_sint_total del: not_None_eq)

lemma convert_format_total: "convert_format d td mode (v :: 'h word) \<noteq> None"
proof (cases "is_finite d v \<and> \<not> is_zero d v")
  case True
  then obtain e s where "get_normalized_significand d v = Some (e, s)"
    using normalized_some by blast
  then show ?thesis by (simp add: convert_format_def)
next
  case False
  then show ?thesis using is_zero_trailing [of v] by (auto simp: convert_format_def)
qed

end

lemma rounding_mode_legal: "m \<le> 4 \<Longrightarrow> rounding_mode_try_from m \<noteq> None"
proof -
  assume "m \<le> 4"
  then have "unat m \<in> {0, 1, 2, 3, 4}" by (auto simp: word_le_nat_alt)
  then have "m \<in> {0, 1, 2, 3, 4}" by (auto simp: word_unat_eq_iff)
  then show ?thesis by (auto simp: rounding_mode_try_from_def)
qed

lemma register_access:
  "reg_ok r \<Longrightarrow> read_reg h r sys = Ok (registers (ctxs sys h) r) sys"
  "reg_ok r \<Longrightarrow> read_fp h r sys = Ok (ucast (fp_registers (ctxs sys h) r)) sys"
  "reg_ok r \<Longrightarrow> returns (write_reg h r v sys)"
  "reg_ok r \<Longrightarrow> returns (write_fd h r v sys)"
  "reg_ok r \<Longrightarrow> returns (write_fs h r w sys)"
  by (auto simp: reg_ok_def read_reg_def read_fp_def write_reg_def write_fd_def write_fs_def
      linorder_not_le)

lemma raise_trap_no_panic: "returns (raise_trap h c v sys)"
  by (simp add: raise_trap_def)

lemma fp_flags_no_panic: "r \<noteq> None \<Longrightarrow> \<exists>v s. fp_flags h r sys = Ok v s"
  by (auto simp: fp_flags_def)

lemma fp_call_no_panic:
  "rm (shared (ctxs sys h)) \<le> 4 \<Longrightarrow> (\<And>m. f m \<noteq> None) \<Longrightarrow> \<exists>v s. fp_call h f sys = Ok v s"
  using rounding_mode_legal [of "rm (shared (ctxs sys h))"]
  by (cases "rounding_mode_try_from (rm (shared (ctxs sys h)))")
    (simp_all add: fp_call_def fp_flags_no_panic del: not_None_eq)

lemma no_panic_fp_call:
  assumes "rm (shared (ctxs sys h)) \<le> 4" "\<And>m. f m \<noteq> None" "\<And>v s. returns (k v s)"
  shows "returns (and_then (fp_call h f sys) k)"
  using fp_call_no_panic [of sys h f] assms by auto

lemma with_mode_no_panic:
  assumes "frm (ctxs sys h) \<le> 4" "rm_ok r" "\<And>sys. rm (shared (ctxs sys h)) \<le> 4 \<Longrightarrow> returns (f sys)"
  shows "returns (with_mode env h r f sys)"
proof -
  have "(if r = 7 then frm (ctxs sys h) else ucast r) \<le> 4"
    using assms(1,2) by (auto simp: rm_ok_def word_le_def uint_up_ucast is_up)
  then show ?thesis
    using assms(3)
    by (auto simp: with_mode_def on_hart_def set_rm_def test_and_set_fs_def put_hart_def on_shared_def Let_def)
qed

lemma with_fs_no_panic:
  assumes "\<And>x. returns (f (put_hart h ((ctxs sys h)\<lparr> mstatus := x \<rparr>) sys))"
  shows "returns (with_fs env h f sys)"
  using assms by (auto simp: with_fs_def on_hart_def test_and_set_fs_def)

lemma translate_vaddr_no_panic:
  "drop_bit 60 (satp ctx) = 0 \<or> (\<forall>vpn. walk_page (satp ctx) vpn (read_memory env m) \<noteq> None) \<Longrightarrow> returns (translate_vaddr env m a acc ctx)"
  by (auto simp: translate_vaddr_def Let_def simp del: not_None_eq split: option.split)

lemma cache_miss_no_panic:
  assumes "page_tables_in_ram env h sys"
  shows "returns (translate_cache_miss env h addr w sys)"
proof -
  have "returns (data_access env (mem sys) addr w (ctxs sys h))"
    using assms translate_vaddr_no_panic [of "ctxs sys h" env "mem sys"]
    by (auto simp: data_access_def page_tables_in_ram_def simp del: not_None_eq)
  then show ?thesis
    by (cases "data_access env (mem sys) addr w (ctxs sys h)")
      (simp_all add: translate_cache_miss_def on_hart_def)
qed

lemma page_tables_count:
  "page_tables_in_ram env h (count_access h sys) = page_tables_in_ram env h sys"
  by (simp add: page_tables_in_ram_def count_access_def put_hart_def)

lemma vaddr_no_panic:
  assumes "page_tables_in_ram env h sys"
  shows "returns (read_vaddr env h a sys)" "returns (ptr_vaddr_x env h a sys)"
  using cache_miss_no_panic [of env h "count_access h sys"] assms page_tables_count
  by (simp_all add: read_vaddr_def ptr_vaddr_x_def translate_read_def translate_write_def Let_def)

lemma device_no_panic: "returns (load_mem env dev n pa sys)" "returns (store_mem env dev n pa v sys)"
  by (auto simp: load_mem_def store_mem_def io_read_def io_write_def Let_def
      split: option.split io_dev.split prod.split)

lemma csr_no_panic:
  "csr \<noteq> Csr_Misa \<Longrightarrow> returns (read_csr env csr ctx)" "returns (write_csr_ctx env csr v ctx)"
proof -
  have t: "returns (test_and_set_fs env ctx)" "returns (test_counter n ctx)" for ctx n
    by (simp_all add: test_and_set_fs_def test_counter_def)
  show "returns (read_csr env csr ctx)" if "csr \<noteq> Csr_Misa"
    using that unfolding read_csr_def by (intro returns_if returns_and_then t) simp_all
  show "returns (write_csr_ctx env csr v ctx)"
    unfolding write_csr_ctx_def by (intro returns_if returns_and_then t) simp_all
qed

lemma on_hart_no_panic: "(\<And>ctx. returns (f ctx)) \<Longrightarrow> returns (on_hart h f sys)"
  by (simp add: on_hart_def returns_def split: res.split)

lemma write_csr_no_panic: "returns (write_csr env h csr v sys)"
  by (simp add: write_csr_def on_hart_no_panic csr_no_panic)

lemma farith_total:
  "farith_result TYPE(64) F32Desc k (a :: u32) b m \<noteq> None"
  "farith_result TYPE(128) F64Desc k (x :: u64) y m \<noteq> None"
  by (cases k; simp add: farith_result_def f32.add_total f32.sub_total f32.multiply_total
      f32.divide_total f64.add_total f64.sub_total f64.multiply_total f64.divide_total del: not_None_eq)+

lemma fmadd_total:
  "fmadd_result TYPE(64) F32Desc k (a :: u32) b c m \<noteq> None"
  "fmadd_result TYPE(128) F64Desc k (x :: u64) y z m \<noteq> None"
  by (cases k; simp add: fmadd_result_def f32.fused_multiply_add_total
      f64.fused_multiply_add_total del: not_None_eq)+

lemma from_int_total: "from_int_result d i x m \<noteq> None"
  by (simp add: from_int_result_def)

lemma fclass_total: "fclass_result d a \<noteq> None"
  by (simp add: fclass_result_def classify_total)

lemmas fp_totals = farith_total fmadd_total from_int_total f32.square_root_total f64.square_root_total
  f32.to_int_result_total f64.to_int_result_total f32.convert_format_total f64.convert_format_total

text \<open>The arms of \<open>step_fp\<close>, for a format whose operations are total.\<close>

lemma step_fp_no_panic:
  assumes "\<And>k a b m. farith_result T d k (a :: 'h::len word) b m \<noteq> None"
    "\<And>k a b c m. fmadd_result T d k (a :: 'h word) b c m \<noteq> None"
    "\<And>m a. square_root d m (a :: 'h word) \<noteq> None"
    "\<And>i a m. to_int_result d i (a :: 'h word) m \<noteq> None"
    and wr: "\<And>r v s. reg_ok r \<Longrightarrow> returns (wr r (v :: 'h word) s)"
    and op: "encodable op" "fp_group op"
    and frm: "frm (ctxs sys h) \<le> 4"
  shows "returns (step_fp T d wr env h op sys)"
proof (cases op)
  case (OpFSgn k fmt frd frs1 frs2)
  then show ?thesis
    using op(1) by (auto simp: step_fp_def encodable_def register_access fp_flags_def wr case_prod_unfold
        intro!: with_fs_no_panic)
next
  case (OpFClass fmt rd frs1)
  then show ?thesis using op(1) fclass_total [of d]
    by (auto simp: step_fp_def encodable_def register_access intro!: with_fs_no_panic split: option.split)
next
  case (OpFCmp k fmt rd frs1 frs2)
  then show ?thesis
    using op(1) by (auto simp: step_fp_def encodable_def register_access fp_flags_def case_prod_unfold
        intro!: with_fs_no_panic)
qed (use op frm in \<open>auto simp: step_fp_def encodable_def register_access wr fp_group_def
      simp del: not_None_eq intro!: with_mode_no_panic no_panic_fp_call assms(1-4) from_int_total\<close>)

lemma step_fp_fmt_no_panic:
  assumes "encodable op" "fp_group op" "frm (ctxs sys h) \<le> 4"
  shows "returns (step_fp_fmt fmt env h op sys)"
  by (cases fmt) (simp_all only: step_fp_fmt_def fp_fmt.case,
    (rule step_fp_no_panic; (rule fp_totals register_access assms; assumption?))+)

lemma page_tables_fs:
  "page_tables_in_ram env h sys \<Longrightarrow> page_tables_in_ram env h (put_hart h ((ctxs sys h)\<lparr> mstatus := x \<rparr>) sys)"
  by (simp add: page_tables_in_ram_def put_hart_def)

lemma decoded_no_panic:
  assumes "operands_ok op" "\<not> may_panic op" "hart_ok (ctxs sys h)" "page_tables_in_ram env h sys"
  shows "returns (step env dev h op compressed sys)"
proof (cases "op = Illegal \<or> bad_shift op")
  case True
  then show ?thesis
    by (cases op) (auto simp: bad_shift_def step_def raise_trap_no_panic step_unary_def register_access)
next
  case False
  then have e: "encodable op" using assms(1) by (simp add: operands_ok_def)
  have frm: "frm (ctxs sys h) \<le> 4" using assms(3) by (simp add: hart_ok_def)
  note v = vaddr_no_panic [OF assms(4)]
  note vf = vaddr_no_panic [OF page_tables_fs [OF assms(4)]]
  note d = encodable_def register_access raise_trap_no_panic step_def Let_def
  show ?thesis
  proof (cases "fp_group op")
    case True
    then show ?thesis
      using step_fp_fmt_no_panic [OF e True frm] by (cases op) (simp_all add: fp_group_def step_def)
  next
    case other: False
    show ?thesis
    proof (cases op)
    case (OpFLoad fmt frd rs1 imm)
    then show ?thesis using e
      by (cases fmt) (auto simp: d step_fload_def intro!: with_fs_no_panic returns_and_then vf device_no_panic)
  next
    case (OpFStore fmt rs1 frs2 imm)
    then show ?thesis using e
      by (cases fmt) (auto simp: d step_fstore_def intro!: with_fs_no_panic returns_and_then vf device_no_panic)
  next
    case (OpCsr k rd rs1 csr)
    then show ?thesis using e assms(2)
      by (cases k) (auto simp: d step_csr_def csr_swap_def csr_modify_def may_panic_def
          intro!: returns_and_then on_hart_no_panic csr_no_panic write_csr_no_panic)
  next
    case (OpCsrI k rd imm csr)
    then show ?thesis using e assms(2)
      by (cases k) (auto simp: d step_csri_def csr_swap_def csr_modify_def may_panic_def
          intro!: returns_and_then on_hart_no_panic csr_no_panic write_csr_no_panic)
  next
    case (FcvtSD frd frs1 r)
    then show ?thesis using e frm
      by (auto simp: d step_fcvt_s_d_def intro!: with_mode_no_panic no_panic_fp_call f64.convert_format_total
          simp del: not_None_eq)
  next
    case (FcvtDS frd frs1 r)
    then show ?thesis using e assms(3)
      by (auto simp: d step_fcvt_d_s_def hart_ok_def put_hart_def intro!: with_fs_no_panic no_panic_fp_call
          f32.convert_format_total simp del: not_None_eq)
  next
    case (OpFMvToInt fmt rd frs1)
    then show ?thesis using e
      by (cases fmt) (auto simp: d step_fmv_to_int_def intro!: with_fs_no_panic)
  next
    case (OpFMvFromInt fmt frd rs1)
    then show ?thesis using e
      by (cases fmt) (auto simp: d step_fmv_from_int_def intro!: with_fs_no_panic)
  next
    case Sret
    then show ?thesis by (auto simp: d step_sret_def intro!: on_hart_no_panic)
  qed (use e other assms(2) in \<open>auto simp: d may_panic_def step_load_def step_store_def step_lr_def step_unary_def
      step_binary_def step_branch_def step_jalr_def step_jal_def step_sfence_def step_wfi_def on_own_shared_def
      fp_group_def intro!: returns_and_then v device_no_panic\<close>)
  qed
qed

lemma decoded_operands:
  "bits AND 3 = 3 \<Longrightarrow> decode bits = Some op \<Longrightarrow> operands_ok op"
  "half AND 3 \<noteq> 3 \<Longrightarrow> decode_compressed half = Some op \<Longrightarrow> operands_ok op"
  using decode_decoded [of bits] decode_compressed_expands [of half]
  by (auto simp: decoded_def exact_def expands_def operands_ok_def)



end
