(* ===== verification/Interp_Memory.thy ===== *)
theory Interp_Memory
  imports Interp_Invariant
begin

text \<open>
  The memory instructions of \<open>step\<close>: what a load returns after a store, load-reserved and
  store-conditional, and the trap of a misaligned store.
\<close>

section \<open>Lines\<close>

text \<open>The hart's line for the address is present, writable, and leads to \<open>pa\<close>.\<close>

definition line_hit :: "Env \<Rightarrow> nat \<Rightarrow> u64 \<Rightarrow> u64 \<Rightarrow> System \<Rightarrow> bool" where
  "line_hit env h addr pa sys \<longleftrightarrow>
    (let idx = drop_bit (cache_line_size_log2 (memory_model env)) addr;
         l = line (shared (ctxs sys h)) (ucast idx)
     in line_tag l = push_bit 1 idx \<and> line_paddr l XOR addr = pa)"

text \<open>What an access leaves alone.\<close>

definition same_data :: "nat \<Rightarrow> System \<Rightarrow> System \<Rightarrow> bool" where
  "same_data h s t \<longleftrightarrow> mem t = mem s \<and> registers (ctxs t h) = registers (ctxs s h)
     \<and> fp_registers (ctxs t h) = fp_registers (ctxs s h)
     \<and> lr_addr (ctxs t h) = lr_addr (ctxs s h) \<and> lr_value (ctxs t h) = lr_value (ctxs s h)"

section \<open>Bytes\<close>

lemma store_bytes_other: "(\<And>k. k < n \<Longrightarrow> b \<noteq> a + of_nat k) \<Longrightarrow> store_bytes n a v m b = m b"
proof (induction n arbitrary: a v m)
  case (Suc n)
  have "b \<noteq> a" using Suc.prems [of 0] by simp
  moreover have "b \<noteq> a + 1 + of_nat k" if "k < n" for k
    using Suc.prems [of "Suc k"] that by (simp add: ac_simps)
  ultimately show ?case using Suc.IH [of "a + 1"] by simp
qed simp

lemma of_nat_Suc_nonzero: "k < n \<Longrightarrow> n < 2 ^ 64 \<Longrightarrow> 1 + of_nat k \<noteq> (0 :: u64)"
proof
  assume k: "k < n" "n < 2 ^ 64" and "1 + of_nat k = (0 :: u64)"
  then have "of_nat (Suc k) = (0 :: u64)" by simp
  then have "2 ^ 64 dvd Suc k" by (simp only: word_of_nat_eq_0_iff) simp
  then show False using k by (auto dest: dvd_imp_le)
qed

lemma load_store_bytes: "n < 2 ^ 64 \<Longrightarrow> load_bytes n (store_bytes n a v m) a = take_bit (8 * n) v"
proof (induction n arbitrary: a v m)
  case (Suc n)
  have "store_bytes n (a + 1) (drop_bit 8 v) (m(a := ucast v)) a = ucast v"
    using of_nat_Suc_nonzero [of _ n] Suc.prems by (subst store_bytes_other) (auto simp: add.assoc)
  then have "load_bytes (Suc n) (store_bytes (Suc n) a v m) a
      = ucast (ucast v :: u8) OR push_bit 8 (take_bit (8 * n) (drop_bit 8 v))"
    using Suc by simp
  also have "\<dots> = take_bit (8 * Suc n) v"
    by (rule bit_word_eqI) (auto simp: bit_simps)
  finally show ?case .
qed simp

section \<open>Translation\<close>

lemma log2_cases: "cache_line_size_log2 m = 12 \<or> cache_line_size_log2 m = 6"
  by (cases m) auto

lemma drop_push_idx: "drop_bit 1 (push_bit 1 (drop_bit (cache_line_size_log2 m) a)) = drop_bit (cache_line_size_log2 m) a"
  for a :: u64
  using log2_cases [of m]
  by (intro bit_word_eqI) (auto simp: bit_simps simp del: push_bit_Suc dest: bit_imp_le_length)

lemma hit_translates:
  assumes "line_hit env h addr pa sys"
  shows "translate_write env h addr sys = Ok pa sys" "translate_read env h addr sys = Ok pa sys"
  using assms drop_push_idx [of "memory_model env" addr]
  by (simp_all add: line_hit_def translate_write_def translate_read_def Let_def)

lemma line_hit_cong:
  "line (shared (ctxs t h)) = line (shared (ctxs s h)) \<Longrightarrow> line_hit env h addr pa t = line_hit env h addr pa s"
  by (simp add: line_hit_def)

lemma icache_invalidate_frame:
  "line (shared (ctxs (icache_invalidate env a b s) h)) = line (shared (ctxs s h))
   \<and> same_data h s (icache_invalidate env a b s)"
  by (auto simp: icache_invalidate_def on_all_def on_shared_def run_on_def alert_def fire_alarm_def
      same_data_def Let_def)

lemma count_access_frame:
  "line (shared (ctxs (count_access h s) h)) = line (shared (ctxs s h)) \<and> same_data h s (count_access h s)"
  by (simp add: count_access_def put_hart_def same_data_def)

lemma same_data_trans: "same_data h s t \<Longrightarrow> same_data h t u \<Longrightarrow> same_data h s u"
  by (simp add: same_data_def)

lemma translate_vaddr_Ok: "translate_vaddr env m a acc ctx = Ok pa ctx' \<Longrightarrow> ctx' = ctx"
  by (auto simp: translate_vaddr_def Let_def split: if_splits option.splits)

lemma write_miss_hit:
  assumes "translate_cache_miss env h addr True sys = Ok pa s"
  shows "line_hit env h addr pa s \<and> same_data h sys s"
proof -
  obtain ctx where d: "data_access env (mem sys) addr True (ctxs sys h) = Ok pa ctx"
    and s: "s = icache_invalidate env pa (pa + 1) (put_hart h ctx sys)"
    using assms by (auto simp: translate_cache_miss_def on_hart_def and_then_Ok_iff split: res.splits)
  have ctx: "ctx = insert_data_cache_line env addr pa True (ctxs sys h)"
    using d by (auto simp: data_access_def and_then_Ok_iff dest: translate_vaddr_Ok)
  have "line_hit env h addr pa (put_hart h ctx sys)" "same_data h sys (put_hart h ctx sys)"
    by (simp_all add: ctx line_hit_def insert_data_cache_line_def put_hart_def on_shared_def same_data_def
        Let_def xor.assoc)
  then show ?thesis
    using icache_invalidate_frame [of env pa "pa + 1" "put_hart h ctx sys" h] line_hit_cong same_data_trans
    unfolding s by blast
qed

lemma ptr_vaddr_x_hit:
  assumes "ptr_vaddr_x env h addr sys = Ok pa s"
  shows "line_hit env h addr pa s" "same_data h sys s"
proof -
  let ?c = "count_access h sys"
  have "line_hit env h addr pa s \<and> same_data h ?c s"
  proof (cases "line_hit env h addr pa ?c")
    case True
    then show ?thesis using assms hit_translates(1) by (auto simp: ptr_vaddr_x_def same_data_def)
  next
    case False
    then have "translate_cache_miss env h addr True ?c = Ok pa s"
      using assms by (auto simp: ptr_vaddr_x_def translate_write_def line_hit_def Let_def split: if_splits)
    then show ?thesis by (rule write_miss_hit)
  qed
  then show "line_hit env h addr pa s" "same_data h sys s"
    using count_access_frame [of h sys] same_data_trans by blast+
qed

lemma hit_access:
  assumes "line_hit env h addr pa sys"
  shows "\<exists>s. ptr_vaddr_x env h addr sys = Ok pa s \<and> line_hit env h addr pa s \<and> same_data h sys s"
    and "\<exists>s. read_vaddr env h addr sys = Ok pa s \<and> line_hit env h addr pa s \<and> same_data h sys s"
proof -
  have "line_hit env h addr pa (count_access h sys)"
    using assms count_access_frame [of h sys] line_hit_cong by blast
  then show "\<exists>s. ptr_vaddr_x env h addr sys = Ok pa s \<and> line_hit env h addr pa s \<and> same_data h sys s"
    "\<exists>s. read_vaddr env h addr sys = Ok pa s \<and> line_hit env h addr pa s \<and> same_data h sys s"
    using hit_translates [of env h addr pa] count_access_frame [of h sys]
    by (auto simp: ptr_vaddr_x_def read_vaddr_def)
qed

section \<open>Loads after stores\<close>

lemma extend_take_bit: "load_extend k (take_bit (8 * load_width k) v) = load_extend k v"
proof -
  have "(ucast (take_bit 8 v) :: u8) = ucast v" "(ucast (take_bit 16 v) :: u16) = ucast v"
    "(ucast (take_bit 32 v) :: u32) = ucast v" "take_bit 64 v = v"
    by (rule bit_word_eqI; auto simp: bit_simps)+
  then show ?thesis by (cases k) (simp_all add: load_extend_def load_width_def)
qed

lemma width_small: "store_width k < 2 ^ 64" "amo_bytes w < 2 ^ 64"
  by (cases k; simp add: store_width_def) (cases w; simp add: amo_bytes_def)

lemma store_effect:
  assumes "reg_ok rs1" "reg_ok rs2" "vaddr = registers (ctxs sys h) rs1 + scast imm"
    and "vaddr AND of_nat (store_width k - 1) = 0"
    and "ptr_vaddr_x env h vaddr sys = Ok pa s" "io_boundary env \<le> pa"
  shows "\<exists>s1. step env dev h (OpStore k rs1 rs2 imm) c sys = Ok () s1 \<and> line_hit env h vaddr pa s1
    \<and> registers (ctxs s1 h) = registers (ctxs sys h)
    \<and> mem s1 = store_bytes (store_width k) pa (registers (ctxs sys h) rs2) (mem sys)"
  using assms ptr_vaddr_x_hit [OF assms(5)]
  by (auto simp: step_def step_store_def register_access store_mem_def same_data_def line_hit_def Let_def)


lemma push_even: "push_bit 1 (x :: u64) \<noteq> invalid_tag"
proof
  assume "push_bit 1 x = invalid_tag"
  then have "bit (push_bit 1 x) 0 = bit invalid_tag 0" by simp
  then show False by (simp add: bit_simps del: push_bit_Suc)
qed

lemma bare_pointer:
  assumes "satp (ctxs sys h) = 0" "line (shared (ctxs sys h)) = (\<lambda>_. default_line)"
  shows "\<exists>s. ptr_vaddr_x env h a sys = Ok a s"
proof -
  have "invalid_tag \<noteq> push_bit 1 x" for x using push_even by metis
  then show ?thesis
    using assms by (simp add: ptr_vaddr_x_def translate_write_def count_access_def put_hart_def
      default_line_def translate_cache_miss_def on_hart_def data_access_def translate_vaddr_def Let_def
      del: push_bit_Suc)
qed

lemma sample_pointer:
  "\<exists>s. ptr_vaddr_x sample_env 0 a sample_system = Ok a s"
  "\<exists>s. ptr_vaddr_x sample_env 0 a (sample_system\<lparr> ctxs := (\<lambda>i. (initial_context i False)\<lparr> registers := r \<rparr>) \<rparr>)
     = Ok a s"
  by (rule bare_pointer; simp add: sample_system_def initial_context_def new_shared_def Let_def)+


section \<open>Load-reserved and store-conditional\<close>

lemma amo_extend_low: "take_bit (8 * amo_bytes w) (amo_extend w v) = take_bit (8 * amo_bytes w) v"
  by (cases w) (auto simp: amo_extend_def amo_bytes_def intro!: bit_word_eqI simp: bit_simps)

lemma load_bytes_fits: "take_bit (8 * n) (load_bytes n m a) = load_bytes n m a"
proof (induction n arbitrary: a)
  case (Suc n)
  have small: "k < 8 * n" if "bit (load_bytes n m (a + 1)) k" for k
    using that by (metis Suc.IH bit_take_bit_iff)
  show ?case
    by (intro bit_word_eqI) (auto simp: bit_simps dest: small bit_imp_le_length)
qed simp

lemma lr_effect:
  assumes "reg_ok rs1" "reg_ok rd" "rd \<noteq> rs1" "addr = registers (ctxs sys h) rs1"
    and "addr AND of_nat (amo_bytes w - 1) = 0"
    and "ptr_vaddr_x env h addr sys = Ok pa s" "io_boundary env \<le> pa"
  shows "\<exists>s1. step env dev h (OpLr w rd rs1 aq) c sys = Ok () s1 \<and> line_hit env h addr pa s1
    \<and> mem s1 = mem sys \<and> registers (ctxs s1 h) rs1 = addr
    \<and> (\<forall>r. r \<noteq> rd \<longrightarrow> registers (ctxs s1 h) r = registers (ctxs sys h) r)
    \<and> lr_addr (ctxs s1 h) = addr
    \<and> lr_value (ctxs s1 h) = amo_extend w (load_bytes (amo_bytes w) (mem sys) pa)"
  using assms(1-5) leD [OF assms(7)] ptr_vaddr_x_hit [OF assms(6)] assms(6)
  by (auto simp: step_def step_lr_def register_access load_mem_def write_reg_def reg_ok_def linorder_not_le
      put_hart_def same_data_def line_hit_def Let_def)

text \<open>
  C32. After a load-reserved, whatever the memory has become in the meantime, a store-conditional of
  the same hart to the same address writes 0 to its destination and stores its operand if the
  memory there holds the reserved value, and otherwise writes 1 and stores nothing. The reservation
  is by value: a location that was changed and changed back does not make it fail.
\<close>

theorem sc_after_lr:
  assumes "reg_ok rs1" "reg_ok rd" "rd \<noteq> rs1" "addr = registers (ctxs sys h) rs1"
    and "addr AND of_nat (amo_bytes w - 1) = 0"
    and "ptr_vaddr_x env h addr sys = Ok pa s" "io_boundary env \<le> pa"
    and "reg_ok rs2" "rs2 \<noteq> rd" "reg_ok rd'" "rd' \<noteq> 0"
  shows "\<exists>s1. step env dev h (OpLr w rd rs1 aq) c sys = Ok () s1 \<and>
    (\<forall>m. \<exists>s2. step env dev h (OpAmo Sc_k w rd' rs1 rs2 aq') c' (s1\<lparr> mem := m \<rparr>) = Ok () s2
      \<and> (if load_bytes (amo_bytes w) m pa = load_bytes (amo_bytes w) (mem sys) pa
         then registers (ctxs s2 h) rd' = 0
           \<and> mem s2 = store_bytes (amo_bytes w) pa (registers (ctxs sys h) rs2) m
         else registers (ctxs s2 h) rd' = 1
           \<and> load_bytes (amo_bytes w) (mem s2) pa = load_bytes (amo_bytes w) m pa))"
proof -
  obtain s1 where s1: "step env dev h (OpLr w rd rs1 aq) c sys = Ok () s1" "line_hit env h addr pa s1"
    "registers (ctxs s1 h) rs1 = addr" "\<forall>r. r \<noteq> rd \<longrightarrow> registers (ctxs s1 h) r = registers (ctxs sys h) r"
    "lr_addr (ctxs s1 h) = addr"
    "lr_value (ctxs s1 h) = amo_extend w (load_bytes (amo_bytes w) (mem sys) pa)"
    using lr_effect [OF assms(1-7)] by blast
  have "\<exists>s2. step env dev h (OpAmo Sc_k w rd' rs1 rs2 aq') c' (s1\<lparr> mem := m \<rparr>) = Ok () s2
      \<and> (if load_bytes (amo_bytes w) m pa = load_bytes (amo_bytes w) (mem sys) pa
         then registers (ctxs s2 h) rd' = 0
           \<and> mem s2 = store_bytes (amo_bytes w) pa (registers (ctxs sys h) rs2) m
         else registers (ctxs s2 h) rd' = 1
           \<and> load_bytes (amo_bytes w) (mem s2) pa = load_bytes (amo_bytes w) m pa)" for m
  proof -
    have "line_hit env h addr pa (s1\<lparr> mem := m \<rparr>)" using s1(2) by (simp add: line_hit_def)
    from hit_access(1) [OF this] obtain s where s: "ptr_vaddr_x env h addr (s1\<lparr> mem := m \<rparr>) = Ok pa s"
      "same_data h (s1\<lparr> mem := m \<rparr>) s" by blast
    have lv: "take_bit (8 * amo_bytes w) (lr_value (ctxs s h)) = load_bytes (amo_bytes w) (mem sys) pa"
      using s(2) s1(6) by (simp add: same_data_def amo_extend_low load_bytes_fits)
    have rs2: "registers (ctxs s1 h) rs2 = registers (ctxs sys h) rs2" using s1(4) assms(9) by simp
    show ?thesis
      using assms(1,5,8,10,11) leD [OF assms(7)] s s1(3,5) lv rs2 load_store_bytes [OF width_small(2)]
      by (auto simp: step_def step_sc_def register_access rmw_mem_def write_reg_def reg_ok_def
          linorder_not_le same_data_def put_hart_def load_bytes_fits Let_def)
  qed
  with s1(1) show ?thesis by blast
qed

theorem sc_after_lr_witness:
  "\<exists>s. step sample_env no_devices 0 (OpLr D64 2 1 SeqCst) False
      (sample_system\<lparr> ctxs := (\<lambda>i. (initial_context i False)\<lparr> registers := (\<lambda>_. 0xCCCCCCCCCCCCCCD0) \<rparr>) \<rparr>) = Ok () s
    \<and> (\<exists>s2. step sample_env no_devices 0 (OpAmo Sc_k D64 3 1 4 SeqCst) False (s\<lparr> mem := (\<lambda>_. 0) \<rparr>) = Ok () s2
         \<and> registers (ctxs s2 0) 3 = 0)"
proof -
  define s0 where "s0 = sample_system\<lparr> ctxs := (\<lambda>i. (initial_context i False)\<lparr> registers := (\<lambda>_. 0xCCCCCCCCCCCCCCD0) \<rparr>) \<rparr>"
  define a where "a = (0xCCCCCCCCCCCCCCD0 :: u64)"
  obtain p where p: "ptr_vaddr_x sample_env 0 a s0 = Ok a p"
    unfolding s0_def using sample_pointer(2) by blast
  have m: "mem s0 = (\<lambda>_. 0)" and r: "a = registers (ctxs s0 0) 1"
    by (simp_all add: s0_def a_def sample_system_def)
  obtain s where lr: "step sample_env no_devices 0 (OpLr D64 2 1 SeqCst) False s0 = Ok () s"
    and sc: "\<forall>m. \<exists>s2. step sample_env no_devices 0 (OpAmo Sc_k D64 3 1 4 SeqCst) False (s\<lparr> mem := m \<rparr>) = Ok () s2
      \<and> (if load_bytes (amo_bytes D64) m a = load_bytes (amo_bytes D64) (mem s0) a
         then registers (ctxs s2 0) 3 = 0 \<and> mem s2 = store_bytes (amo_bytes D64) a (registers (ctxs s0 0) 4) m
         else registers (ctxs s2 0) 3 = 1
           \<and> load_bytes (amo_bytes D64) (mem s2) a = load_bytes (amo_bytes D64) m a)"
    using sc_after_lr [OF _ _ _ r _ p, of 2 D64 4 3 no_devices SeqCst False SeqCst False]
    by (auto simp: reg_ok_def amo_bytes_def sample_env_def a_def)
  from spec [OF sc, of "\<lambda>_. 0"] lr show ?thesis unfolding s0_def [symmetric] m by auto
qed

section \<open>Misaligned stores\<close>

text \<open>
  Without a firmware image, a misaligned \<open>fsd\<close> of the guest ends the simulator: \<open>step\<close> reports it
  as cause 5, the load access fault, instead of 6, the misaligned store; that cause is not in the
  delegation mask set up for the guest, and \<open>trap\<close> then fails its assertion that machine mode is run.
\<close>

lemma misaligned_fsd_ends_simulator:
  assumes "feature_float env" "mstatus (ctxs sys h) AND 0x6000 \<noteq> 0" "flags_prv env = 1"
    and "medeleg (ctxs sys h) = 0xB35D" "prv (ctxs sys h) = 0 \<or> prv (ctxs sys h) = 1" "reg_ok rs1"
    and "vaddr = registers (ctxs sys h) rs1 + scast imm" "vaddr AND 7 \<noteq> 0"
  shows "\<exists>s. step env dev h (Fsd rs1 frs2 imm) c sys = Err s \<and> cause (ctxs s h) = 5
    \<and> tval (ctxs s h) = vaddr \<and> trap env (ctxs s h) = None"
  using assms
  by (auto simp: step_def step_fstore_def with_fs_def on_hart_def test_and_set_fs_def read_reg_def reg_ok_def
      linorder_not_le raise_trap_def set_trap_def put_hart_def trap_def rust_shr_def Let_def)

end
