(* ===== verification/Interp_Exec.thy ===== *)
theory Interp_Exec
  imports Interp_Memory
begin

text \<open>
  From instructions to blocks, \<open>src/emu/interp.rs\<close>: \<open>translate_code\<close>, \<open>find_block\<close> and
  \<open>handle_misalign\<close>.

  \<^item> The front end is modelled by the list of calls it makes on the compiler \<open>DbtCompiler\<close>
    (\<open>src/emu/dbt.rs\<close>, in the \<open>Dbt\<close> theories), and the lengths of the code the compiler then has
    emitted are a parameter \<open>dbt\<close> of that list.
  \<^item> The loop of \<open>translate_code\<close> is a \<open>partial_function\<close>: the outer \<open>None\<close> is a loop that does not
    end, the inner one a panic.
\<close>

section \<open>Fetching\<close>

datatype (plugins only: code size) fetch = Insn Op bool u32 | CrossPage u16

definition read_u16 :: "Env \<Rightarrow> memory \<Rightarrow> u64 \<Rightarrow> u16 option" where
  "read_u16 env m addr = (if addr < io_boundary env then None else Some (ucast (load_bytes 2 m addr)))"

definition read_insn :: "Env \<Rightarrow> memory \<Rightarrow> u64 \<Rightarrow> fetch option" where
  "read_insn env m a =
    (case read_u16 env m a of
       None \<Rightarrow> None
     | Some bits \<Rightarrow>
         if bits AND 3 = 3 then
           (if a AND 4095 = 4094 then Some (CrossPage bits)
            else
              (case read_u16 env m (a + 2) of
                 None \<Rightarrow> None
               | Some hi_bits \<Rightarrow>
                   (let bits = push_bit 16 (ucast hi_bits) OR ucast bits :: u32 in
                    map_option (\<lambda>op. Insn op False bits) (decode bits))))
         else map_option (\<lambda>op. Insn op True (ucast bits)) (decode_compressed bits))"

section \<open>The front end of the translator\<close>

datatype (plugins only: code size) compile_event =
  CompileOp Op bool u32 | CompileCondOp Op bool Op bool | EndCross u16 | EndBlock | EndUnreachable

text \<open>The macro-op fusion: the instruction after a branch that skips just that instruction. The
  outer \<open>None\<close> is a panic of \<open>read_insn\<close>.\<close>

definition fuse_next :: "Env \<Rightarrow> memory \<Rightarrow> Op \<Rightarrow> bool \<Rightarrow> u64 \<Rightarrow> (Op \<times> bool) option option" where
  "fuse_next env m op c phys_pc_end =
    (case op of
       OpBranch _ _ _ imm \<Rightarrow>
         if imm = (if c then 4 else 6) then
           (case read_insn env m phys_pc_end of
              None \<Rightarrow> None
            | Some (Insn next_op True bits) \<Rightarrow> Some (Some (next_op, True))
            | Some _ \<Rightarrow> Some None)
         else if imm = (if c then 6 else 8) then
           (case read_insn env m phys_pc_end of
              None \<Rightarrow> None
            | Some (Insn next_op False bits) \<Rightarrow> Some (Some (next_op, False))
            | Some _ \<Rightarrow> Some None)
         else Some None
     | _ \<Rightarrow> Some None)"

definition insn_len :: "bool \<Rightarrow> u64" where
  "insn_len c = (if c then 2 else 4)"

definition is_branch :: "Op \<Rightarrow> bool" where
  "is_branch op = (case op of OpBranch _ _ _ _ \<Rightarrow> True | _ \<Rightarrow> False)"

text \<open>An operation the privilege level does not permit is replaced.\<close>

definition prv_checked :: "u64 \<Rightarrow> Op \<Rightarrow> Op" where
  "prv_checked p op = (if (ucast p :: u8) < min_prv_level op then Illegal else op)"

partial_function (option) translate_loop ::
    "Env \<Rightarrow> memory \<Rightarrow> bool \<Rightarrow> u64 \<Rightarrow> u64 \<Rightarrow> compile_event list \<Rightarrow> (compile_event list \<times> u64) option option" where
  [code]: "translate_loop env m can_fuse p phys_pc_end evs =
    (case read_insn env m phys_pc_end of
       None \<Rightarrow> Some None
     | Some (CrossPage bits) \<Rightarrow> Some (Some (evs @ [EndCross bits], phys_pc_end))
     | Some (Insn op c bits) \<Rightarrow>
         (let phys_pc_end = phys_pc_end + insn_len c;
              op = prv_checked p op
          in
          case (if phys_pc_end AND 4095 \<noteq> 0 \<and> can_fuse then fuse_next env m op c phys_pc_end
                else Some None) of
            None \<Rightarrow> Some None
          | Some (Some (next_op, nc)) \<Rightarrow>
              (let phys_pc_end = phys_pc_end + insn_len nc;
                   evs = evs @ [CompileCondOp op c next_op nc]
               in
               if phys_pc_end AND 4095 = 0 then Some (Some (evs @ [EndBlock], phys_pc_end))
               else translate_loop env m can_fuse p phys_pc_end evs)
          | Some None \<Rightarrow>
              (let evs = evs @ [CompileOp op c bits] in
               if is_branch op then Some (Some (evs @ [EndBlock], phys_pc_end))
               else if can_change_control_flow op then Some (Some (evs @ [EndUnreachable], phys_pc_end))
               else if phys_pc_end AND 4095 = 0 then Some (Some (evs @ [EndBlock], phys_pc_end))
               else translate_loop env m can_fuse p phys_pc_end evs)))"

text \<open>The map of a privilege level.\<close>

definition prv_map :: "u64 \<Rightarrow> ICache \<Rightarrow> (u64 \<rightharpoonup> u64 \<times> u64) option" where
  "prv_map p ic =
    (if p = 0 then Some (u_map ic) else if p = 1 then Some (s_map ic)
     else if p = 3 then Some (m_map ic) else None)"

definition prv_insert :: "u64 \<Rightarrow> u64 \<Rightarrow> u64 \<times> u64 \<Rightarrow> ICache \<Rightarrow> ICache option" where
  "prv_insert p k v ic =
    (if p = 0 then Some (ic\<lparr> u_map := (u_map ic)(k \<mapsto> v) \<rparr>)
     else if p = 1 then Some (ic\<lparr> s_map := (s_map ic)(k \<mapsto> v) \<rparr>)
     else if p = 3 then Some (ic\<lparr> m_map := (m_map ic)(k \<mapsto> v) \<rparr>)
     else None)"

definition translate_code ::
    "Env \<Rightarrow> memory \<Rightarrow> (compile_event list \<Rightarrow> u64 \<times> u64) \<Rightarrow> bool \<Rightarrow> u64 \<Rightarrow> u64 \<Rightarrow> ICache
      \<Rightarrow> ((u64 \<times> u64) \<times> ICache) option option" where
  "translate_code env m dbt can_fuse p phys_pc ic =
    (let rollover = (icache_space ic < 256 * 1024);
         ic = (if rollover then icache_rollover ic else ic);
         code_fn = heap_start ic + heap_offset ic
     in
     case translate_loop env m can_fuse p phys_pc [] of
       None \<Rightarrow> None
     | Some None \<Rightarrow> Some None
     | Some (Some (evs, phys_pc_end)) \<Rightarrow>
         (let (func_len, spec_len) = dbt evs;
              nonspec_fn = code_fn + spec_len
          in
          if phys_pc AND NOT 4095 \<noteq> (phys_pc_end - 1) AND NOT 4095 then Some None
          else if 256 * 1024 < func_len then Some None
          else
            Some (Option.bind (prv_insert p phys_pc (code_fn, nonspec_fn) ic) (\<lambda>ic.
              map_option (\<lambda>ic. ((if rollover then 0 else code_fn, nonspec_fn), ic))
                (icache_commit func_len ic)))))"

section \<open>Finding a block\<close>

datatype (plugins only: code size) block = CheckInterrupt | Block u64 u64

definition find_block ::
    "Env \<Rightarrow> (compile_event list \<Rightarrow> u64 \<times> u64) \<Rightarrow> bool \<Rightarrow> nat \<Rightarrow> System \<Rightarrow> (block, System) res option" where
  "find_block env dbt can_fuse h sys =
    (case on_hart h (insn_translate env (mem sys) (pc (ctxs sys h))) sys of
       Panic \<Rightarrow> Some Panic
     | Err sys \<Rightarrow>
         (case trap env (ctxs sys h) of
            None \<Rightarrow> Some Panic
          | Some ctx \<Rightarrow> Some (Ok CheckInterrupt (put_hart h ctx sys)))
     | Ok phys_pc sys \<Rightarrow>
         (let i = unat (hartid (ctxs sys h)) in
          case prv_map (prv (ctxs sys h)) (icaches sys i) of
            None \<Rightarrow> Some Panic
          | Some mp \<Rightarrow>
              (case mp phys_pc of
                 Some (a, b) \<Rightarrow> Some (Ok (Block a b) sys)
               | None \<Rightarrow>
                   (let inserted = (drop_bit 12 phys_pc \<notin> code_prot sys);
                        sys = sys\<lparr> code_prot := insert (drop_bit 12 phys_pc) (code_prot sys) \<rparr>;
                        sys = (if inserted then on_all env (protect_code env (phys_pc AND NOT 4095)) sys
                               else sys)
                    in
                    case translate_code env (mem sys) dbt can_fuse (prv (ctxs sys h)) phys_pc (icaches sys i) of
                      None \<Rightarrow> None
                    | Some None \<Rightarrow> Some Panic
                    | Some (Some ((a, b), ic)) \<Rightarrow>
                        Some (Ok (Block a b) (sys\<lparr> icaches := (icaches sys)(i := ic) \<rparr>))))))"

section \<open>Misaligned accesses\<close>

definition fetch_misaligned :: "Env \<Rightarrow> nat \<Rightarrow> System \<Rightarrow> (Op \<times> bool, System) res" where
  "fetch_misaligned env h sys =
    and_then (on_hart h (insn_translate env (mem sys) (pc (ctxs sys h))) sys) (\<lambda>pa sys.
      let bits = ucast (load_bytes 2 (mem sys) pa) :: u16 in
      if bits AND 3 = 3 then
        and_then (on_hart h (insn_translate env (mem sys) (pc (ctxs sys h) + 2)) sys) (\<lambda>pa2 sys.
          let hi_bits = ucast (load_bytes 2 (mem sys) pa2) :: u16;
              word = push_bit 16 (ucast hi_bits) OR ucast bits :: u32
          in case decode word of None \<Rightarrow> Panic | Some op \<Rightarrow> Ok (op, False) sys)
      else (case decode_compressed bits of None \<Rightarrow> Panic | Some op \<Rightarrow> Ok (op, True) sys))"

definition of_le_bytes :: "u8 list \<Rightarrow> u64" where
  "of_le_bytes bs = foldr (\<lambda>b acc. ucast b OR push_bit 8 acc) bs 0"

fun to_le_bytes :: "nat \<Rightarrow> u64 \<Rightarrow> u8 list" where
  "to_le_bytes 0 v = []"
| "to_le_bytes (Suc n) v = ucast v # to_le_bytes n (drop_bit 8 v)"

text \<open>Indexing \<open>registers\<close> panics out of bounds; \<open>x0\<close> is written like any other register.\<close>

definition handle_misalign :: "Env \<Rightarrow> nat \<Rightarrow> u64 \<Rightarrow> System \<Rightarrow> (unit, System) res" where
  "handle_misalign env h addr sys =
    and_then (fetch_misaligned env h sys) (\<lambda>(op, compressed) sys.
    and_then
      (case op of
         OpLoad k rd _ _ \<Rightarrow>
           if k \<in> {Lh_k, Lw_k, Ld_k, Lhu_k, Lwu_k} then
             and_then (copy_from_virt_addr env h addr (load_width k) sys) (\<lambda>bytes sys.
               if 32 \<le> rd then Panic
               else Ok () (put_hart h ((ctxs sys h)\<lparr> registers :=
                 (registers (ctxs sys h))(rd := load_extend k (of_le_bytes bytes)) \<rparr>) sys))
           else raise_trap h 6 addr sys
       | OpStore k _ rs2 _ \<Rightarrow>
           if k \<in> {Sh_k, Sw_k, Sd_k} then
             (if 32 \<le> rs2 then Panic
              else copy_to_virt_addr env h addr (to_le_bytes (store_width k) (registers (ctxs sys h) rs2)) sys)
           else raise_trap h 6 addr sys
       | _ \<Rightarrow> raise_trap h 6 addr sys)
      (\<lambda>_ sys. Ok () (put_hart h ((ctxs sys h)\<lparr> pc := pc (ctxs sys h) + insn_len compressed,
         instret := instret (ctxs sys h) + 1, minstret := minstret (ctxs sys h) + 1 \<rparr>) sys)))"

section \<open>What a block should contain\<close>

text \<open>
  The calls on the compiler, read as a description of the code: the instructions at consecutive
  addresses from \<open>a\<close> to \<open>e\<close>, each once, a fused pair being a branch and the instruction it skips.
\<close>

inductive straight :: "Env \<Rightarrow> memory \<Rightarrow> u64 \<Rightarrow> u64 \<Rightarrow> compile_event list \<Rightarrow> u64 \<Rightarrow> bool" for env m p where
  straight_cross: "read_insn env m a = Some (CrossPage bits) \<Longrightarrow> straight env m p a [EndCross bits] a"
| straight_branch: "read_insn env m a = Some (Insn op c bits) \<Longrightarrow> is_branch op \<Longrightarrow>
    straight env m p a [CompileOp op c bits, EndBlock] (a + insn_len c)"
| straight_jump: "read_insn env m a = Some (Insn op c bits) \<Longrightarrow> \<not> is_branch op \<Longrightarrow>
    can_change_control_flow (prv_checked p op) \<Longrightarrow>
    straight env m p a [CompileOp (prv_checked p op) c bits, EndUnreachable] (a + insn_len c)"
| straight_op: "read_insn env m a = Some (Insn op c bits) \<Longrightarrow> \<not> can_change_control_flow op \<Longrightarrow>
    (if (a + insn_len c) AND 4095 = 0 then evs = [EndBlock] \<and> e = a + insn_len c
     else straight env m p (a + insn_len c) evs e) \<Longrightarrow>
    straight env m p a (CompileOp op c bits # evs) e"
| straight_cond: "read_insn env m a = Some (Insn (OpBranch k rs1 rs2 imm) c bits) \<Longrightarrow>
    read_insn env m (a + insn_len c) = Some (Insn next_op nc nbits) \<Longrightarrow>
    scast imm = insn_len c + insn_len nc \<Longrightarrow>
    (if (a + insn_len c + insn_len nc) AND 4095 = 0 then evs = [EndBlock] \<and> e = a + insn_len c + insn_len nc
     else straight env m p (a + insn_len c + insn_len nc) evs e) \<Longrightarrow>
    straight env m p a (CompileCondOp (OpBranch k rs1 rs2 imm) c next_op nc # evs) e"

text \<open>The privilege level covers every instruction that is compiled on its own.\<close>

definition event_permitted :: "u64 \<Rightarrow> compile_event \<Rightarrow> bool" where
  "event_permitted p ev = (case ev of CompileOp op _ _ \<Rightarrow> min_prv_level op \<le> ucast p | _ \<Rightarrow> True)"

text \<open>Memory with \<open>bne x0, x0, +8\<close> and \<open>csrrw x0, satp, x1\<close> at the start of RAM.\<close>

definition fused_code :: memory where
  "fused_code a = (if a = 0x40000000 then 0x63 else if a = 0x40000001 then 0x14
     else if a = 0x40000004 then 0x73 else if a = 0x40000005 then 0x90 else if a = 0x40000007 then 0x18
     else 0)"

text \<open>An even address inside page \<open>P\<close> of RAM, at offset \<open>off\<close>.\<close>

definition in_page :: "Env \<Rightarrow> nat \<Rightarrow> nat \<Rightarrow> u64 \<Rightarrow> bool" where
  "in_page env P off a \<longleftrightarrow> unat a = P * 4096 + off \<and> off < 4096 \<and> even off
     \<and> unat (io_boundary env) \<le> P * 4096 \<and> P < 2 ^ 52 - 1"

section \<open>Addresses in a page\<close>

lemma page_offset: "a AND 4095 = take_bit 12 a" for a :: u64
  by (simp add: take_bit_eq_mask mask_eq_exp_minus_1)

lemma unat_offset: "unat (a AND 4095) = unat a mod 4096" for a :: u64
  by (simp add: page_offset unsigned_take_bit_eq take_bit_nat_def)

lemma offset_eq: "n < 4096 \<Longrightarrow> (a AND 4095 = of_nat n) = (unat a mod 4096 = n)" for a :: u64
proof -
  assume "n < 4096"
  then have "unat (of_nat n :: u64) = n" by (simp add: unat_of_nat take_bit_nat_eq_self)
  then show ?thesis by (simp add: word_unat_eq_iff unat_offset)
qed

lemma page_base: "(a AND NOT 4095 = b AND NOT 4095) = (drop_bit 12 a = drop_bit 12 b)" for a b :: u64
proof
  assume "a AND NOT 4095 = b AND NOT 4095"
  then have "drop_bit 12 (a AND NOT 4095) = drop_bit 12 (b AND NOT 4095)" by simp
  moreover have "drop_bit 12 (x AND NOT 4095) = drop_bit 12 x" for x :: u64
    by (rule word64_eqI; simp add: bit_simps bit_high_word)
  ultimately show "drop_bit 12 a = drop_bit 12 b" by simp
next
  assume "drop_bit 12 a = drop_bit 12 b"
  moreover have "x AND NOT 4095 = push_bit 12 (drop_bit 12 x)" for x :: u64
    by (rule word64_eqI; simp add: bit_simps)
  ultimately show "a AND NOT 4095 = b AND NOT 4095" by metis
qed

lemma in_page_unat:
  assumes "in_page env P off a" "off + k \<le> 4096"
  shows "unat (a + of_nat k) = P * 4096 + off + k"
proof -
  have "unat a + k < 2 ^ 64" using assms by (simp add: in_page_def)
  then have "unat (a + of_nat k) = unat a + k"
    by (simp add: unat_word_ariths unat_of_nat take_bit_nat_eq_self)
  then show ?thesis using assms by (simp add: in_page_def)
qed

lemma in_page_add:
  assumes "in_page env P off a" "off + k < 4096" "even k"
  shows "in_page env P (off + k) (a + of_nat k)"
  using assms in_page_unat [of env P off a k] by (simp add: in_page_def)

lemma in_page_offset: "in_page env P off a \<Longrightarrow> unat (a AND 4095) = off"
  by (simp add: in_page_def unat_offset)

lemma in_page_ram: "in_page env P off a \<Longrightarrow> read_u16 env m a \<noteq> None"
  by (simp add: in_page_def read_u16_def word_less_nat_alt)

lemma insn_len_nat: "insn_len c = of_nat (unat (insn_len c))" "even (unat (insn_len c))" "2 \<le> unat (insn_len c)"
  by (simp_all add: insn_len_def)

lemma next_in_page:
  assumes "in_page env P off a" "off + unat (insn_len c) \<le> 4096"
  shows "((a + insn_len c) AND 4095 = 0) = (off + unat (insn_len c) = 4096)"
    and "(a + insn_len c) AND 4095 \<noteq> 0 \<Longrightarrow> in_page env P (off + unat (insn_len c)) (a + insn_len c)"
proof -
  have u: "unat (a + insn_len c) = P * 4096 + off + unat (insn_len c)"
    using in_page_unat [OF assms] by simp
  show z: "((a + insn_len c) AND 4095 = 0) = (off + unat (insn_len c) = 4096)"
    using u assms(2) insn_len_nat(3) [of c] offset_eq [of 0 "a + insn_len c"]
    by (cases "off + unat (insn_len c) = 4096") (simp_all add: add.assoc)
  show "(a + insn_len c) AND 4095 \<noteq> 0 \<Longrightarrow> in_page env P (off + unat (insn_len c)) (a + insn_len c)"
    using u assms z insn_len_nat(2) [of c] by (simp add: in_page_def)
qed

lemma word_low_bits: "(push_bit 16 (ucast (hi :: u16)) OR ucast (lo :: u16) :: u32) AND 3 = ucast (lo AND 3)"
  by (rule word32_eqI; simp add: bit_simps)

lemma decode_not_None: "bits AND 3 = 3 \<Longrightarrow> decode bits \<noteq> None"
  using decode_decoded [of bits] by (cases "decode bits") (simp_all add: decoded_def)

lemma decode_compressed_not_None: "half AND 3 \<noteq> 3 \<Longrightarrow> decode_compressed half \<noteq> None"
  using decode_compressed_expands [of half] by (cases "decode_compressed half") (simp_all add: expands_def)

text \<open>A fetch inside a page of RAM returns; only the last halfword can cross.\<close>

lemma read_insn_in_page:
  assumes "in_page env P off a"
  obtains op c bits where "read_insn env m a = Some (Insn op c bits)" "off + unat (insn_len c) \<le> 4096"
  | bits where "read_insn env m a = Some (CrossPage bits)" "off = 4094"
proof -
  obtain lo where lo: "read_u16 env m a = Some lo" using in_page_ram [OF assms] by blast
  have off: "off \<le> 4094" using assms by (auto simp: in_page_def elim!: evenE)
  consider "lo AND 3 \<noteq> 3" | "lo AND 3 = 3" "off = 4094" | "lo AND 3 = 3" "off \<le> 4092"
    using assms off by (fastforce simp: in_page_def elim!: evenE)
  then show thesis
  proof cases
    case 1
    then obtain op where "decode_compressed lo = Some op" using decode_compressed_not_None by blast
    then have "read_insn env m a = Some (Insn op True (ucast lo))" using 1 lo by (simp add: read_insn_def)
    then show thesis using that(1) off by (simp add: insn_len_def)
  next
    case 2
    then have "a AND 4095 = 4094" using in_page_offset [OF assms] by (simp add: word_unat_eq_iff)
    then show thesis using that(2) 2 lo by (simp add: read_insn_def)
  next
    case 3
    have n: "a AND 4095 \<noteq> 4094" using in_page_offset [OF assms] 3 by (auto simp: word_unat_eq_iff)
    have "in_page env P (off + 2) (a + of_nat 2)" using in_page_add [OF assms, of 2] 3 by simp
    then obtain hi where hi: "read_u16 env m (a + 2) = Some hi" using in_page_ram by fastforce
    have "(push_bit 16 (ucast hi) OR ucast lo :: u32) AND 3 = 3" using 3 by (simp add: word_low_bits)
    then obtain op where "decode (push_bit 16 (ucast hi) OR ucast lo) = Some op"
      using decode_not_None by blast
    then have "read_insn env m a = Some (Insn op False (push_bit 16 (ucast hi) OR ucast lo))"
      using 3 lo hi n by (simp add: read_insn_def)
    then show thesis using 3 by (intro that(1) [of op False "push_bit 16 (ucast hi) OR ucast lo"]) (simp_all add: insn_len_def)
  qed
qed

text \<open>A fused instruction is the next one, in the same page.\<close>

lemma fuse_next_in_page:
  assumes "in_page env P off a"
  obtains "fuse_next env m op c a = Some None"
  | k rs1 rs2 imm next_op nc nbits where "fuse_next env m op c a = Some (Some (next_op, nc))"
    "op = OpBranch k rs1 rs2 imm" "scast imm = insn_len c + insn_len nc"
    "read_insn env m a = Some (Insn next_op nc nbits)" "off + unat (insn_len nc) \<le> 4096"
proof (cases "\<exists>k rs1 rs2 imm. op = OpBranch k rs1 rs2 imm")
  case False
  then have "fuse_next env m op c a = Some None" by (cases op) (simp_all add: fuse_next_def)
  then show thesis by (rule that(1))
next
  case True
  then obtain k rs1 rs2 imm where op: "op = OpBranch k rs1 rs2 imm" by blast
  from assms show thesis
  proof (rule read_insn_in_page [where m = m])
    fix bits assume "read_insn env m a = Some (CrossPage bits)"
    then have "fuse_next env m op c a = Some None" by (simp add: fuse_next_def op)
    then show thesis by (rule that(1))
  next
    fix next_op nc nbits
    assume r: "read_insn env m a = Some (Insn next_op nc nbits)" "off + unat (insn_len nc) \<le> 4096"
    show thesis
    proof (cases "imm = (if c then (if nc then 4 else 6) else (if nc then 6 else 8))")
      case True
      then have "fuse_next env m op c a = Some (Some (next_op, nc))" "scast imm = insn_len c + insn_len nc"
        using r by (auto simp: fuse_next_def op insn_len_def)
      then show thesis using that(2) op r by blast
    next
      case False
      then have "fuse_next env m op c a = Some None"
        using r by (cases c; cases nc) (simp_all add: fuse_next_def op)
      then show thesis by (rule that(1))
    qed
  qed
qed

lemma prv_checked_branch: "is_branch (prv_checked p op) = is_branch op" "is_branch op \<Longrightarrow> prv_checked p op = op"
  by (cases op; simp add: is_branch_def prv_checked_def min_prv_level_def)+

lemma prv_checked_flow: "\<not> can_change_control_flow (prv_checked p op) \<Longrightarrow> prv_checked p op = op"
  by (auto simp: prv_checked_def can_change_control_flow_def split: if_splits)

lemma prv_checked_level: "min_prv_level (prv_checked p op) \<le> ucast p"
  by (simp add: prv_checked_def min_prv_level_def not_less split: if_splits)

section \<open>The loop of the front end\<close>

text \<open>One instruction: what the loop does next is what the description of the rest asks for.\<close>

abbreviation (input) block_tail :: "Env \<Rightarrow> memory \<Rightarrow> u64 \<Rightarrow> u64 \<Rightarrow> compile_event list \<Rightarrow> u64 \<Rightarrow> bool" where
  "block_tail env m p a evs e \<equiv>
    (if a AND 4095 = 0 then evs = [EndBlock] \<and> e = a else straight env m p a evs e)"

definition loop_ok :: "Env \<Rightarrow> memory \<Rightarrow> bool \<Rightarrow> u64 \<Rightarrow> nat \<Rightarrow> u64 \<Rightarrow> bool" where
  "loop_ok env m fuse p off a \<longleftrightarrow>
    (\<forall>evs. \<exists>evs' k. translate_loop env m fuse p a evs = Some (Some (evs @ evs', a + of_nat k))
       \<and> straight env m p a evs' (a + of_nat k) \<and> list_all (event_permitted p) evs'
       \<and> off + k \<le> 4096 \<and> 0 < off + k)"

lemma loop_okI:
  assumes "\<And>evs. \<exists>evs' k. translate_loop env m fuse p a evs = Some (Some (evs @ evs', a + of_nat k))
       \<and> straight env m p a evs' (a + of_nat k) \<and> list_all (event_permitted p) evs'
       \<and> off + k \<le> 4096 \<and> 0 < off + k"
  shows "loop_ok env m fuse p off a"
  using assms unfolding loop_ok_def by blast

text \<open>After an event at \<open>a\<close> that takes the loop to \<open>a + k\<close>, the rest of the block.\<close>

lemma block_rest:
  assumes "off + k \<le> 4096" "0 < k"
    and page: "((a + of_nat k) AND 4095 = 0) = (off + k = 4096)"
    and ih: "(a + of_nat k) AND 4095 \<noteq> 0 \<Longrightarrow> loop_ok env m fuse p (off + k) (a + of_nat k)"
  obtains evs' j where
    "(if (a + of_nat k) AND 4095 = 0 then Some (Some (evs @ [EndBlock], a + of_nat k))
      else translate_loop env m fuse p (a + of_nat k) evs) = Some (Some (evs @ evs', a + of_nat j))"
    "block_tail env m p (a + of_nat k) evs' (a + of_nat j)" "list_all (event_permitted p) evs'"
    "off + j \<le> 4096" "0 < off + j"
proof (cases "(a + of_nat k) AND 4095 = 0")
  case True
  then show thesis using assms(1,2) by (intro that [of "[EndBlock]" k]) (simp_all add: event_permitted_def)
next
  case False
  from ih [OF False] obtain evs' j where
    "translate_loop env m fuse p (a + of_nat k) evs = Some (Some (evs @ evs', a + of_nat k + of_nat j))"
    "straight env m p (a + of_nat k) evs' (a + of_nat k + of_nat j)" "list_all (event_permitted p) evs'"
    "off + k + j \<le> 4096" "0 < off + k + j"
    unfolding loop_ok_def by blast
  then show thesis using False assms(2)
    by (intro that [of evs' "k + j"]) (simp_all add: add.assoc)
qed

text \<open>An instruction that is compiled on its own.\<close>

lemma compile_single:
  assumes here: "in_page env P off a" and r: "read_insn env m a = Some (Insn op c bits)"
    and len: "off + unat (insn_len c) \<le> 4096"
    and ih: "\<And>off' a'. in_page env P off' a' \<Longrightarrow> off < off' \<Longrightarrow> loop_ok env m fuse p off' a'"
    and nofuse: "(if (a + insn_len c) AND 4095 \<noteq> 0 \<and> fuse then fuse_next env m (prv_checked p op) c (a + insn_len c)
      else Some None) = Some None"
  shows "\<exists>evs' k. translate_loop env m fuse p a evs = Some (Some (evs @ evs', a + of_nat k))
     \<and> straight env m p a evs' (a + of_nat k) \<and> list_all (event_permitted p) evs' \<and> off + k \<le> 4096 \<and> 0 < off + k"
proof -
  define q where "q = prv_checked p op"
  define k where "k = unat (insn_len c)"
  have k: "insn_len c = of_nat k" "0 < k" "off + k \<le> 4096"
    using insn_len_nat [of c] len by (simp_all add: k_def)
  have step: "translate_loop env m fuse p a evs =
     (if is_branch q then Some (Some (evs @ [CompileOp q c bits, EndBlock], a + of_nat k))
      else if can_change_control_flow q then Some (Some (evs @ [CompileOp q c bits, EndUnreachable], a + of_nat k))
      else if (a + of_nat k) AND 4095 = 0 then Some (Some ((evs @ [CompileOp q c bits]) @ [EndBlock], a + of_nat k))
      else translate_loop env m fuse p (a + of_nat k) (evs @ [CompileOp q c bits]))"
    by (subst translate_loop.simps)
      (simp only: r option.case fetch.case Let_def q_def [symmetric] k(1) nofuse [folded q_def, unfolded k(1)],
       simp)
  have ev: "event_permitted p (CompileOp q c bits)"
    unfolding q_def event_permitted_def using prv_checked_level by simp
  consider "is_branch q" | "\<not> is_branch q" "can_change_control_flow q" | "\<not> can_change_control_flow q"
    by blast
  then show ?thesis
  proof cases
    case 1
    then have "is_branch op" "q = op" using prv_checked_branch by (simp_all add: q_def)
    from straight_branch [OF r this(1)] 1 ev show ?thesis
      unfolding k(1) by (intro exI [of _ "[CompileOp q c bits, EndBlock]"] exI [of _ k])
        (simp add: step k \<open>q = op\<close> event_permitted_def)
  next
    case 2
    then have "\<not> is_branch op" using prv_checked_branch by (simp add: q_def)
    from straight_jump [OF r this, of p] 2 ev show ?thesis
      unfolding k(1) q_def [symmetric]
      by (intro exI [of _ "[CompileOp q c bits, EndUnreachable]"] exI [of _ k])
        (simp add: step k event_permitted_def)
  next
    case 3
    then have "\<not> is_branch q" by (auto simp: is_branch_def can_change_control_flow_def split: Op.splits)
    have "q = op" using prv_checked_flow 3 by (simp add: q_def)
    note page = next_in_page [OF here len, folded k_def, unfolded k(1)]
    have tail: "(a + of_nat k) AND 4095 \<noteq> 0 \<Longrightarrow> loop_ok env m fuse p (off + k) (a + of_nat k)"
      using page(2) ih k(2) by simp
    obtain evs' j where rest:
      "(if (a + of_nat k) AND 4095 = 0 then Some (Some ((evs @ [CompileOp q c bits]) @ [EndBlock], a + of_nat k))
        else translate_loop env m fuse p (a + of_nat k) (evs @ [CompileOp q c bits]))
        = Some (Some ((evs @ [CompileOp q c bits]) @ evs', a + of_nat j))"
      "block_tail env m p (a + of_nat k) evs' (a + of_nat j)" "list_all (event_permitted p) evs'"
      "off + j \<le> 4096" "0 < off + j"
      by (rule block_rest [OF k(3,2) page(1) tail])
    have "straight env m p a (CompileOp q c bits # evs') (a + of_nat j)"
      unfolding \<open>q = op\<close> using 3 rest(2) by (intro straight_op [OF r]) (simp_all only: \<open>q = op\<close> k(1) simp_thms)
    moreover have "translate_loop env m fuse p a evs = Some (Some (evs @ CompileOp q c bits # evs', a + of_nat j))"
      using step rest(1) 3 \<open>\<not> is_branch q\<close> by simp
    ultimately show ?thesis using rest(3-5) ev
      by (intro exI [of _ "CompileOp q c bits # evs'"] exI [of _ j]) simp
  qed
qed

text \<open>A branch fused with the instruction it skips.\<close>

lemma compile_fused:
  assumes here: "in_page env P off a" and r: "read_insn env m a = Some (Insn op c bits)"
    and len: "off + unat (insn_len c) \<le> 4096"
    and ih: "\<And>off' a'. in_page env P off' a' \<Longrightarrow> off < off' \<Longrightarrow> loop_ok env m fuse p off' a'"
    and f: "(a + insn_len c) AND 4095 \<noteq> 0" fuse
      "fuse_next env m (prv_checked p op) c (a + insn_len c) = Some (Some (next_op, nc))"
      "prv_checked p op = OpBranch k rs1 rs2 imm" "scast imm = insn_len c + insn_len nc"
      "read_insn env m (a + insn_len c) = Some (Insn next_op nc nbits)"
      "off + unat (insn_len c) + unat (insn_len nc) \<le> 4096"
  shows "\<exists>evs' k. translate_loop env m fuse p a evs = Some (Some (evs @ evs', a + of_nat k))
     \<and> straight env m p a evs' (a + of_nat k) \<and> list_all (event_permitted p) evs' \<and> off + k \<le> 4096 \<and> 0 < off + k"
proof -
  define b where "b = a + insn_len c + insn_len nc"
  define n where "n = unat (insn_len c) + unat (insn_len nc)"
  have b: "b = a + of_nat n" by (simp add: b_def n_def add.assoc)
  have n: "0 < n" "off + n \<le> 4096" using insn_len_nat(3) [of c] f(7) by (simp_all add: n_def)
  have "is_branch op" using f(4) prv_checked_branch(1) [of p op] by (simp add: is_branch_def)
  then have op: "op = OpBranch k rs1 rs2 imm" using f(4) prv_checked_branch(2) by simp
  define ev where "ev = CompileCondOp op c next_op nc"
  have step: "translate_loop env m fuse p a evs =
     (if b AND 4095 = 0 then Some (Some ((evs @ [ev]) @ [EndBlock], b))
      else translate_loop env m fuse p b (evs @ [ev]))"
    using f(1,2) by (subst translate_loop.simps)
      (simp only: r option.case fetch.case Let_def f(3) simp_thms if_True prod.case b_def [symmetric],
       simp add: ev_def f(4) [unfolded op] op)
  note nxt = next_in_page(2) [OF here len f(1)]
  note page = next_in_page [OF nxt f(7), folded b_def, unfolded b]
  have fin: "((a + of_nat n) AND 4095 = 0) = (off + n = 4096)" using page(1) by (simp add: n_def add.assoc)
  have tail: "(a + of_nat n) AND 4095 \<noteq> 0 \<Longrightarrow> loop_ok env m fuse p (off + n) (a + of_nat n)"
    using page(2) ih n(1) by (simp add: n_def add.assoc)
  obtain evs' j where rest:
    "(if (a + of_nat n) AND 4095 = 0 then Some (Some ((evs @ [ev]) @ [EndBlock], a + of_nat n))
      else translate_loop env m fuse p (a + of_nat n) (evs @ [ev])) = Some (Some ((evs @ [ev]) @ evs', a + of_nat j))"
    "block_tail env m p (a + of_nat n) evs' (a + of_nat j)" "list_all (event_permitted p) evs'"
    "off + j \<le> 4096" "0 < off + j"
    by (rule block_rest [OF n(2,1) fin tail])
  have "straight env m p a (ev # evs') (a + of_nat j)"
    unfolding ev_def op using rest(2) r f(6)
    by (intro straight_cond) (simp_all only: op f(5) b_def [symmetric] b)
  moreover have "translate_loop env m fuse p a evs = Some (Some (evs @ ev # evs', a + of_nat j))"
    unfolding step b rest(1) by simp
  moreover have "event_permitted p ev" by (simp add: ev_def event_permitted_def)
  ultimately show ?thesis using rest(3-5) by (intro exI [of _ "ev # evs'"] exI [of _ j]) simp
qed

lemma translate_loop_ok: "in_page env P off a \<Longrightarrow> loop_ok env m fuse p off a"
proof (induction "4096 - off" arbitrary: off a rule: less_induct)
  case less
  note here = \<open>in_page env P off a\<close>
  have ih: "loop_ok env m fuse p off' a'" if "in_page env P off' a'" "off < off'" for off' a'
  proof -
    have "off' < 4096" using that(1) by (simp add: in_page_def)
    with that show ?thesis by (intro less.hyps) simp_all
  qed
  show ?case
  proof (rule loop_okI)
    fix evs
    from here show "\<exists>evs' k. translate_loop env m fuse p a evs = Some (Some (evs @ evs', a + of_nat k))
       \<and> straight env m p a evs' (a + of_nat k) \<and> list_all (event_permitted p) evs'
       \<and> off + k \<le> 4096 \<and> 0 < off + k"
    proof (rule read_insn_in_page [where m = m])
      fix bits assume r: "read_insn env m a = Some (CrossPage bits)" "off = 4094"
      then show ?thesis
        using straight_cross [OF r(1)]
        by (intro exI [of _ "[EndCross bits]"] exI [of _ 0])
          (simp add: translate_loop.simps event_permitted_def)
    next
      fix op c bits
      assume r: "read_insn env m a = Some (Insn op c bits)" and len: "off + unat (insn_len c) \<le> 4096"
      show ?thesis
      proof (cases "(a + insn_len c) AND 4095 \<noteq> 0 \<and> fuse")
        case False
        then show ?thesis by (intro compile_single [OF here r len ih]) auto
      next
        case True
        from next_in_page(2) [OF here len] True
        have "in_page env P (off + unat (insn_len c)) (a + insn_len c)" by simp
        then show ?thesis
        proof (rule fuse_next_in_page [where m = m and op = "prv_checked p op" and c = c])
          assume "fuse_next env m (prv_checked p op) c (a + insn_len c) = Some None"
          then show ?thesis using True by (intro compile_single [OF here r len ih]) auto
        next
          fix k rs1 rs2 imm next_op nc nbits
          assume "fuse_next env m (prv_checked p op) c (a + insn_len c) = Some (Some (next_op, nc))"
            "prv_checked p op = OpBranch k rs1 rs2 imm" "scast imm = insn_len c + insn_len nc"
            "read_insn env m (a + insn_len c) = Some (Insn next_op nc nbits)"
            "off + unat (insn_len c) + unat (insn_len nc) \<le> 4096"
          then show ?thesis using True by (intro compile_fused [OF here r len ih]) auto
        qed
      qed
    qed
  qed
qed

lemma unat_page: "unat (drop_bit 12 a) = unat a div 4096" for a :: u64
  by (simp add: drop_bit_eq_div unat_div)

lemma in_page_end:
  assumes "in_page env P off a" "off + k \<le> 4096" "0 < off + k"
  shows "a AND NOT 4095 = (a + of_nat k - 1) AND NOT 4095"
proof -
  have a: "unat a = P * 4096 + off" "off < 4096" using assms(1) by (simp_all add: in_page_def)
  have e: "unat (a + of_nat k) = P * 4096 + off + k" by (rule in_page_unat [OF assms(1,2)])
  then have "a + of_nat k \<noteq> 0" using assms(3) by (metis add_is_0 less_nat_zero_code unat_0 gr_implies_not0)
  then have "unat (a + of_nat k - 1) = P * 4096 + (off + k - 1)"
    using e assms(3) by (cases "off + k") (simp_all add: unat_minus_one add.assoc)
  then have "unat (drop_bit 12 (a + of_nat k - 1)) = unat (drop_bit 12 a)"
    unfolding unat_page using a assms(2,3) by (cases "off + k") (simp_all add: add.assoc)
  then show ?thesis unfolding page_base by (simp add: word_unat_eq_iff)
qed

lemma prv_map_heap: "prv_map p (ic\<lparr> heap_offset := n \<rparr>) = prv_map p ic"
  by (simp add: prv_map_def)

lemma icache_fits:
  assumes "heap_offset ic \<le> HEAP_SIZE" "\<not> icache_space ic < 256 * 1024" "n \<le> 256 * 1024"
  shows "heap_offset ic + n \<le> HEAP_SIZE"
proof -
  have "unat (heap_offset ic) \<le> unat HEAP_SIZE" "unat n \<le> 262144"
    using assms(1,3) by (simp_all add: word_le_nat_alt)
  moreover have "262144 \<le> unat HEAP_SIZE - unat (heap_offset ic)"
    using assms(1,2) by (simp add: icache_space_def word_less_nat_alt unat_sub)
  ultimately have "unat (heap_offset ic) + unat n \<le> unat HEAP_SIZE" by linarith
  then show ?thesis by (simp add: word_le_nat_alt unat_word_ariths)
qed

section \<open>Properties\<close>



text \<open>
  The instruction that is fused with a branch is compiled without a privilege check: in user
  mode, \<open>bne x0, x0, +8\<close> followed by a write to \<open>satp\<close>, which needs supervisor mode, is compiled as
  one conditional operation, not as an illegal instruction; without fusion it is replaced.
\<close>

lemma fused_instruction_unchecked:
  "min_prv_level (Csrrw 0 1 Csr_Satp) = 1
   \<and> translate_loop sample_env fused_code True 0 0x40000000 [] =
       Some (Some ([CompileCondOp (Bne 0 0 8) False (Csrrw 0 1 Csr_Satp) False,
         CompileOp Illegal True 0, EndUnreachable], 0x4000000a))
   \<and> translate_loop sample_env fused_code False 0 0x40000004 [] =
       Some (Some ([CompileOp Illegal False 0x18009073, EndUnreachable], 0x40000008))"
  by code_simp

end
