(* ===== verification/Code_Coherence.thy ===== *)
theory Code_Coherence
  imports Interp_Exec
begin

text \<open>
  Translated code and memory, \<open>src/emu/interp.rs\<close>: the guarantee stated in the comment on
  \<open>CODE_PROT\<close>. A store either goes through a writable L0 line, whose page then holds no translated
  code, or takes the slow path, which queues the removal of the code of its page on every hart.

  The functions \<open>translate_cache_miss\<close>, \<open>find_block\<close> and \<open>check_interrupt\<close> are single moves here, as if
  each held \<open>CODE_PROT\<close> throughout. The topmost page of the address space, where the end of the range
  to invalidate wraps to 0, is left out.
\<close>

section \<open>The invariant\<close>

definition page_of :: "u64 \<Rightarrow> u64" where
  "page_of a = drop_bit 12 a"

definition top_page :: u64 where
  "top_page = 0xFFFFFFFFFFFFF"

definition covers :: "task \<Rightarrow> u64 \<Rightarrow> bool" where
  "covers t k = (case t of InvalidateICache start fin \<Rightarrow> start \<le> k \<and> k < fin)"

text \<open>The physical addresses a hart has translated code for.\<close>

definition code_keys :: "ICache \<Rightarrow> u64 set" where
  "code_keys ic = dom (u_map ic) \<union> dom (s_map ic) \<union> dom (m_map ic)"

text \<open>A data line that a store hits has an even tag.\<close>

definition writable_line :: "CacheLine \<Rightarrow> bool" where
  "writable_line l \<longleftrightarrow> \<not> bit (line_tag l) 0"

definition line_page :: "Env \<Rightarrow> CacheLine \<Rightarrow> u64" where
  "line_page env l = page_of (line_physical (cache_line_size_log2 (memory_model env)) l)"

definition coherent_lines :: "Env \<Rightarrow> u64 set \<Rightarrow> SharedContext \<Rightarrow> bool" where
  "coherent_lines env prot sh \<longleftrightarrow>
    (\<forall>i. writable_line (line sh i) \<longrightarrow> line_page env (line sh i) \<in> prot \<longrightarrow> line_page env (line sh i) = top_page)"

definition coherent_code :: "u64 set \<Rightarrow> SharedContext \<Rightarrow> ICache \<Rightarrow> bool" where
  "coherent_code prot sh ic \<longleftrightarrow>
    (\<forall>k \<in> code_keys ic. page_of k \<in> prot \<or> (\<exists>t \<in> set (tasks sh). covers t k))"

definition coherent :: "Env \<Rightarrow> System \<Rightarrow> bool" where
  "coherent env sys \<longleftrightarrow> (\<forall>i < core_count env.
     coherent_lines env (code_prot sys) (shared (ctxs sys i))
     \<and> coherent_code (code_prot sys) (shared (ctxs sys i)) (icaches sys i))"

text \<open>
  The moves: those of \<open>machine_step\<close>, fetching and translating a block, a misaligned access, and a
  write by a device (\<open>dma_write\<close>).
\<close>

definition dma_write :: "Env \<Rightarrow> u64 \<Rightarrow> u8 list \<Rightarrow> System \<Rightarrow> System" where
  "dma_write env addr buf sys =
    icache_invalidate env addr (addr + of_nat (length buf))
      (sys\<lparr> mem := (\<lambda>a. if unat (a - addr) < length buf then buf ! unat (a - addr) else mem sys a) \<rparr>)"

inductive code_step :: "Env \<Rightarrow> Devices \<Rightarrow> System \<Rightarrow> System \<Rightarrow> bool" for env dev where
  machine: "machine_step env dev sys sys' \<Longrightarrow> code_step env dev sys sys'"
| finds: "find_block env dbt can_fuse h sys = Some (Ok b sys') \<Longrightarrow> code_step env dev sys sys'"
| misaligned: "handle_misalign env h addr sys = Ok () sys' \<Longrightarrow> code_step env dev sys sys'"
| misaligned_traps: "\<lbrakk> handle_misalign env h addr sys = Err sys'; trap env (ctxs sys' h) = Some ctx \<rbrakk> \<Longrightarrow>
    code_step env dev sys (put_hart h ctx sys')"
| dma: "code_step env dev sys (dma_write env addr buf sys)"

definition code_initial :: "Env \<Rightarrow> System \<Rightarrow> bool" where
  "code_initial env sys \<longleftrightarrow> (\<forall>i < core_count env. \<exists>k fw ptr.
     ctxs sys i = initial_context k fw \<and> icaches sys i = new_icache ptr)"

section \<open>Pages\<close>

lemma page_of_base: "page_of (a AND NOT 4095) = page_of a"
  unfolding page_of_def by (rule word64_eqI; simp add: bit_simps bit_high_word)

lemma page_base_eq: "(a AND NOT 4095 = b AND NOT 4095) = (page_of a = page_of b)"
  unfolding page_of_def by (rule page_base)

lemma unat_page_of: "unat (page_of a) = unat a div 4096"
  by (simp add: page_of_def unat_page)

lemma unat_base: "unat (a AND NOT 4095) = unat a div 4096 * 4096" for a :: u64
proof -
  have "a AND NOT 4095 = push_bit 12 (drop_bit 12 a)" by (rule word64_eqI; simp add: bit_simps)
  moreover have "unat a div 4096 * 4096 < 2 ^ 64"
    by (rule le_less_trans [OF div_times_less_eq_dividend]) (rule order_less_le_trans [OF unsigned_less], simp)
  ultimately show ?thesis
    by (simp add: push_bit_eq_mult unat_word_ariths unat_page)
qed

text \<open>The pages of a range, and the addresses of a page.\<close>

lemma page_range_covers:
  assumes "p \<in> set (map (drop_bit 12) (page_range (start AND NOT 4095) (fin AND NOT 4095)))" "page_of k = p"
  shows "start AND NOT 4095 \<le> k \<and> k < fin AND NOT 4095"
proof -
  define s e where "s = start AND NOT 4095" and "e = fin AND NOT 4095"
  have us: "unat s = unat start div 4096 * 4096" and ue: "unat e = unat fin div 4096 * 4096"
    by (simp_all only: s_def e_def unat_base)
  from assms(1) obtain j where lt: "s < e" and j: "j < unat (drop_bit 12 (e - s))" and p: "p = drop_bit 12 (s + 4096 * of_nat j)"
    unfolding s_def [symmetric] e_def [symmetric] by (auto simp: page_range_def split: if_splits)
  have diff: "unat (e - s) = unat e - unat s" using lt by (simp add: unat_sub order_less_imp_le)
  have "j < unat fin div 4096 - unat start div 4096"
    using j unfolding unat_page diff us ue by (simp add: diff_mult_distrib [symmetric])
  then have j': "unat start div 4096 + j < unat fin div 4096" by linarith
  have "unat e < 2 ^ 64" by (rule order_less_le_trans [OF unsigned_less]) simp
  then have "unat s + 4096 * j < 2 ^ 64" using j' by (simp add: us ue)
  then have "unat (s + 4096 * of_nat j) = unat s + 4096 * j"
    by (simp add: unat_word_ariths unat_of_nat take_bit_nat_eq_self)
  then have "unat k div 4096 = unat start div 4096 + j"
    using assms(2) p us by (metis unat_page_of unat_page page_of_def div_mult_self4 div_mult_self_is_m add.commute
        mult.commute zero_less_numeral div_mult_self1 zero_neq_numeral)
  then have "unat s \<le> unat k \<and> unat k < unat e" using j' unfolding us ue by linarith
  then show ?thesis by (simp add: word_le_nat_alt word_less_nat_alt s_def e_def)
qed

lemma page_range_one:
  assumes "page_of a \<noteq> top_page"
  shows "map (drop_bit 12) (page_range (a AND NOT 4095) ((a + 1 + 4095) AND NOT 4095)) = [page_of a]"
proof -
  have n: "unat a div 4096 \<noteq> 2 ^ 52 - 1"
    using assms by (simp add: word_unat_eq_iff unat_page_of top_page_def)
  have "unat a < 2 ^ 64" by (rule order_less_le_trans [OF unsigned_less]) simp
  then have "unat a + 4096 < 2 ^ 64" using n by simp
  then have u: "unat (a + 1 + 4095) = unat a + 4096"
    by (simp add: unat_word_ariths add.assoc)
  define s where "s = a AND NOT 4095"
  have us: "unat s = unat a div 4096 * 4096" by (simp only: s_def unat_base)
  have "unat s + 4096 < 2 ^ 64" using \<open>unat a + 4096 < 2 ^ 64\<close> us by linarith
  then have us': "unat (s + 4096) = unat s + 4096" by (simp add: unat_word_ariths)
  have "unat ((a + 1 + 4095) AND NOT 4095) = unat (s + 4096)" unfolding unat_base u us us' by simp
  then have e: "(a + 1 + 4095) AND NOT 4095 = s + 4096" by (rule unsigned_word_eqI)
  have "s < s + 4096" using us' by (simp add: word_less_nat_alt)
  then have "page_range s (s + 4096) = [s]" by (simp add: page_range_def)
  then show ?thesis unfolding e s_def [symmetric] using page_of_base [of a] by (simp only: list.map s_def page_of_def)
qed

section \<open>Moves of one hart\<close>

text \<open>A hart whose queue is unchanged and whose writable lines are old ones.\<close>

definition quiet :: "SharedContext \<Rightarrow> SharedContext \<Rightarrow> bool" where
  "quiet sh sh' \<longleftrightarrow> tasks sh' = tasks sh \<and> (\<forall>i. line sh' i = line sh i \<or> \<not> writable_line (line sh' i))"

lemma invalid_not_writable: "\<not> writable_line (invalidate l)"
  by (simp add: writable_line_def invalidate_def)

lemma quiet_calm: "calm f \<Longrightarrow> quiet sh (f sh)"
  using invalid_not_writable unfolding calm_def quiet_def by metis

lemma quiet_coherent:
  assumes "quiet sh sh'"
  shows "coherent_lines env prot sh \<Longrightarrow> coherent_lines env prot sh'"
    and "coherent_code prot sh ic \<Longrightarrow> coherent_code prot sh' ic"
  using assms unfolding quiet_def coherent_lines_def coherent_code_def by metis+

lemma quiet_put_hart:
  "coherent env sys \<Longrightarrow> quiet (shared (ctxs sys h)) (shared ctx) \<Longrightarrow> coherent env (put_hart h ctx sys)"
  by (auto simp: coherent_def put_hart_def intro: quiet_coherent)

lemma quiet_on_hart:
  assumes "coherent env sys" "\<And>ctx. keeps (f ctx) (\<lambda>ctx'. quiet (shared ctx) (shared ctx'))"
  shows "keeps (on_hart h f sys) (coherent env)"
  using assms(1) assms(2) [of "ctxs sys h"]
  by (cases "f (ctxs sys h)") (auto simp: on_hart_def quiet_put_hart)

lemma quiet_refl [simp]: "quiet sh sh"
  by (simp add: quiet_def)

lemma quiet_on_masked: "coherent env sys \<Longrightarrow> calm f \<Longrightarrow> coherent env (on_masked env msk f sys)"
  by (auto simp: coherent_def on_masked_def on_shared_def dest: quiet_calm intro: quiet_coherent)

lemma quiet_on_all: "coherent env sys \<Longrightarrow> calm f \<Longrightarrow> coherent env (on_all env f sys)"
  by (auto simp: coherent_def on_all_def on_shared_def dest: quiet_calm intro: quiet_coherent)

lemma quiet_test_and_set_fs: "keeps (test_and_set_fs env ctx) (\<lambda>ctx'. quiet (shared ctx) (shared ctx'))"
  by (simp add: test_and_set_fs_def set_trap_def)

lemma quiet_read_csr: "keeps (read_csr env csr ctx) (\<lambda>ctx'. quiet (shared ctx) (shared ctx'))"
  unfolding read_csr_def
  by (intro keeps_if keeps_and_then keeps_test_and_set_fs keeps_test_counter) (auto simp: set_trap_def)

lemma quiet_write_csr: "keeps (write_csr_ctx env csr v ctx) (\<lambda>ctx'. quiet (shared ctx) (shared ctx'))"
  unfolding write_csr_ctx_def
  by (intro keeps_if keeps_and_then keeps_test_and_set_fs)
    (auto simp: quiet_def csr_effects Let_def invalid_not_writable)

lemma quiet_mret: "keeps (step_mret ctx) (\<lambda>ctx'. quiet (shared ctx) (shared ctx'))"
  by (auto simp: step_mret_def quiet_def csr_effects Let_def invalid_not_writable)

lemma quiet_sret: "keeps (step_sret ctx) (\<lambda>ctx'. quiet (shared ctx) (shared ctx'))"
  by (auto simp: step_sret_def quiet_def csr_effects Let_def invalid_not_writable)

lemma quiet_set_rm: "keeps (set_rm env r ctx) (\<lambda>ctx'. quiet (shared ctx) (shared ctx'))"
  unfolding set_rm_def
  by (intro keeps_and_then keeps_test_and_set_fs)
    (auto simp: quiet_def set_trap_def on_shared_def Let_def)

lemma quiet_trap: "trap env ctx = Some ctx' \<Longrightarrow> quiet (shared ctx) (shared ctx')"
  by (auto simp: trap_def quiet_def csr_effects Let_def invalid_not_writable split: if_splits)

section \<open>Invalidation\<close>

text \<open>The pages and the task of \<open>icache_invalidate\<close>.\<close>

abbreviation inv_start :: "u64 \<Rightarrow> u64" where "inv_start start \<equiv> start AND NOT 4095"
abbreviation inv_end :: "u64 \<Rightarrow> u64" where "inv_end fin \<equiv> (fin + 4095) AND NOT 4095"

definition inv_pages :: "u64 \<Rightarrow> u64 \<Rightarrow> u64 set" where
  "inv_pages start fin = set (map (drop_bit 12) (page_range (inv_start start) (inv_end fin)))"

lemma invalidate_fields:
  "code_prot (icache_invalidate env start fin sys) = code_prot sys - inv_pages start fin"
  "icaches (icache_invalidate env start fin sys) = icaches sys"
  "line (shared (ctxs (icache_invalidate env start fin sys) i)) = line (shared (ctxs sys i))"
  "set (tasks (shared (ctxs (icache_invalidate env start fin sys) i))) = set (tasks (shared (ctxs sys i)))
     \<union> (if i < core_count env \<and> code_prot sys \<inter> inv_pages start fin \<noteq> {}
        then {InvalidateICache (inv_start start) (inv_end fin)} else {})"
  by (auto simp: icache_invalidate_def inv_pages_def Let_def on_all_def on_shared_def run_on_def alert_def
      fire_alarm_def list_ex_iff)

lemma invalidate_coherent:
  assumes "\<forall>i < core_count env. coherent_lines env (code_prot sys - inv_pages start fin) (shared (ctxs sys i))
    \<and> coherent_code (code_prot sys) (shared (ctxs sys i)) (icaches sys i)"
  shows "coherent env (icache_invalidate env start fin sys)"
proof -
  have "\<exists>t\<in>set (tasks (shared (ctxs (icache_invalidate env start fin sys) i))). covers t k"
    if i: "i < core_count env" and k: "k \<in> code_keys (icaches sys i)"
      and n: "page_of k \<notin> code_prot sys - inv_pages start fin" for i k
  proof (cases "page_of k \<in> code_prot sys")
    case True
    then have p: "page_of k \<in> inv_pages start fin" using n by blast
    from page_range_covers [OF p [unfolded inv_pages_def] refl]
    have "covers (InvalidateICache (inv_start start) (inv_end fin)) k" by (simp add: covers_def)
    moreover have "code_prot sys \<inter> inv_pages start fin \<noteq> {}" using True p by blast
    ultimately show ?thesis using i by (auto simp: invalidate_fields(4))
  next
    case False
    then show ?thesis using assms i k by (auto simp: coherent_code_def invalidate_fields(4))
  qed
  then show ?thesis
    using assms by (auto simp: coherent_def coherent_lines_def coherent_code_def invalidate_fields(1-3))
qed

lemma coherent_lines_mono: "coherent_lines env prot sh \<Longrightarrow> prot' \<subseteq> prot \<Longrightarrow> coherent_lines env prot' sh"
  unfolding coherent_lines_def by blast

lemma invalidation_coherent: "coherent env sys \<Longrightarrow> coherent env (icache_invalidate env start fin sys)"
  by (rule invalidate_coherent) (auto simp: coherent_def intro: coherent_lines_mono)

section \<open>Data accesses\<close>

lemma line_index:
  "drop_bit 1 (push_bit 1 (drop_bit n v) OR w) = drop_bit n v" if "w = 0 \<or> w = 1" "0 < n" for v w :: u64
  using that by (elim disjE; intro word64_eqI)
    (auto simp: bit_simps bit_high_word Suc_eq_plus1 simp del: push_bit_Suc One_nat_def)

lemma line_address:
  "drop_bit 12 (push_bit n (drop_bit n v) XOR (x XOR v)) = drop_bit 12 x" if "n \<le> 12" for v x :: u64
  using that by (intro word64_eqI) (auto simp: bit_simps bit_high_word)

lemma line_size: "0 < cache_line_size_log2 mm" "cache_line_size_log2 mm \<le> 12"
  by (cases mm; simp)+

lemma inserted_line_page:
  "line_page env \<lparr> line_tag = push_bit 1 (drop_bit (cache_line_size_log2 (memory_model env)) vaddr) OR w,
     line_paddr = pa XOR vaddr \<rparr> = page_of pa" if "w = 0 \<or> w = 1"
  by (simp only: line_page_def page_of_def line_physical_def CacheLine.select_convs
      line_index [OF that line_size(1)] line_address [OF line_size(2)])

lemma hit_page:
  assumes "line_tag l = push_bit 1 (drop_bit (cache_line_size_log2 (memory_model env)) addr)"
  shows "writable_line l" "line_page env l = page_of (line_paddr l XOR addr)"
proof -
  show "writable_line l"
    by (simp add: writable_line_def assms bit_simps del: push_bit_Suc One_nat_def)
  have "drop_bit 1 (line_tag l) = drop_bit (cache_line_size_log2 (memory_model env)) addr"
    using line_index [of 0, OF _ line_size(1)] by (simp add: assms del: push_bit_Suc One_nat_def)
  then show "line_page env l = page_of (line_paddr l XOR addr)"
    using line_address [OF line_size(2), of "memory_model env" addr "line_paddr l XOR addr"]
    by (simp only: line_page_def page_of_def line_physical_def xor.assoc xor_self_eq xor.right_neutral)
qed

lemma inserted_readonly: "\<not> writable_line \<lparr> line_tag = x OR 1, line_paddr = y \<rparr>"
  by (simp add: writable_line_def bit_simps)

lemma quiet_translate_vaddr: "keeps (translate_vaddr env m a acc ctx) (\<lambda>ctx'. quiet (shared ctx) (shared ctx'))"
  by (auto simp: translate_vaddr_def Let_def set_trap_def split: option.splits)

text \<open>The slow path of a read inserts a line that cannot be written.\<close>

lemma cache_miss_read:
  assumes "coherent env sys"
  shows "keeps (translate_cache_miss env h addr False sys) (coherent env)"
proof -
  have "keeps (data_access env m addr False ctx) (\<lambda>ctx'. quiet (shared ctx) (shared ctx'))" for m ctx
    unfolding data_access_def
    by (intro keeps_and_then quiet_translate_vaddr)
      (auto simp: insert_data_cache_line_def quiet_def on_shared_def Let_def inserted_readonly)
  then have "keeps (on_hart h (data_access env (mem sys) addr False) sys) (coherent env)"
    by (intro quiet_on_hart [OF assms]) blast
  then show ?thesis
    unfolding translate_cache_miss_def by (intro keeps_and_then) simp_all
qed

text \<open>That of a write inserts a writable line and takes its page out of \<open>code_prot\<close>.\<close>

lemma insert_writable:
  assumes "coherent env sys" "quiet (shared (ctxs sys h)) (shared ctx)"
    and p: "page_of pa \<noteq> top_page \<Longrightarrow> page_of pa \<in> X"
    and sys1_def: "sys1 = put_hart h (insert_data_cache_line env addr pa True ctx) sys"
  shows "\<forall>i < core_count env. coherent_lines env (code_prot sys1 - X) (shared (ctxs sys1 i))
    \<and> coherent_code (code_prot sys1) (shared (ctxs sys1 i)) (icaches sys1 i)"
proof -
  define l where "l = \<lparr> line_tag = push_bit 1 (drop_bit (cache_line_size_log2 (memory_model env)) addr) OR 0,
    line_paddr = pa XOR addr \<rparr>"
  have l: "line_page env l = page_of pa" unfolding l_def by (rule inserted_line_page) simp
  have co: "coherent env (put_hart h ctx sys)" by (rule quiet_put_hart [OF assms(1,2)])
  have sh: "line (shared (ctxs sys1 h)) = (line (shared ctx))(ucast (drop_bit (cache_line_size_log2 (memory_model env)) addr) := l)"
    "tasks (shared (ctxs sys1 h)) = tasks (shared ctx)"
    by (simp_all add: sys1_def put_hart_def insert_data_cache_line_def on_shared_def l_def Let_def)
  have "coherent_lines env (code_prot sys - X) (shared (ctxs sys1 h))" if "h < core_count env"
    using co that l p
    by (auto simp: coherent_def coherent_lines_def put_hart_def sh(1))
  moreover have "coherent_code (code_prot sys) (shared (ctxs sys1 h)) (icaches sys h)" if "h < core_count env"
  proof -
    have "coherent_code (code_prot sys) (shared ctx) (icaches sys h)"
      using co that by (auto simp: coherent_def put_hart_def)
    then show ?thesis by (simp add: coherent_code_def sh(2))
  qed
  moreover have "coherent_lines env (code_prot sys - X) (shared (ctxs sys i))"
    "coherent_code (code_prot sys) (shared (ctxs sys i)) (icaches sys i)" if "i < core_count env" for i
    using assms(1) that by (auto simp: coherent_def intro: coherent_lines_mono)
  moreover have "code_prot sys1 = code_prot sys" "icaches sys1 = icaches sys" "i \<noteq> h \<Longrightarrow> ctxs sys1 i = ctxs sys i" for i
    by (simp_all add: sys1_def put_hart_def)
  ultimately show ?thesis by metis
qed

lemma inv_pages_one: "page_of pa \<noteq> top_page \<Longrightarrow> page_of pa \<in> inv_pages pa (pa + 1)"
  unfolding inv_pages_def using page_range_one [of pa] by simp

lemma cache_miss_write:
  assumes "coherent env sys"
  shows "keeps (translate_cache_miss env h addr True sys) (coherent env)"
    and "translate_cache_miss env h addr True sys = Ok pa sys' \<Longrightarrow> page_of pa \<noteq> top_page \<Longrightarrow>
      page_of pa \<notin> code_prot sys'"
proof -
  note q = quiet_translate_vaddr [of env "mem sys" addr Write "ctxs sys h"]
  have k: "keeps (translate_cache_miss env h addr True sys) (coherent env)
    \<and> (\<forall>pa sys'. translate_cache_miss env h addr True sys = Ok pa sys' \<longrightarrow> page_of pa \<noteq> top_page \<longrightarrow>
      page_of pa \<notin> code_prot sys')"
  proof (cases "translate_vaddr env (mem sys) addr Write (ctxs sys h)")
    case (Ok pa ctx)
    define sys1 where "sys1 = put_hart h (insert_data_cache_line env addr pa True ctx) sys"
    have r: "translate_cache_miss env h addr True sys = Ok pa (icache_invalidate env pa (pa + 1) sys1)"
      by (simp add: translate_cache_miss_def on_hart_def data_access_def Ok sys1_def)
    have "coherent env (icache_invalidate env pa (pa + 1) sys1)"
      unfolding sys1_def using q Ok
      by (intro invalidate_coherent insert_writable [OF assms _ inv_pages_one refl]) simp_all
    then show ?thesis using inv_pages_one [of pa] by (simp add: r invalidate_fields(1))
  next
    case (Err ctx)
    then show ?thesis using q assms
      by (simp add: translate_cache_miss_def on_hart_def data_access_def quiet_put_hart)
  next
    case Panic
    then show ?thesis by (simp add: translate_cache_miss_def on_hart_def data_access_def)
  qed
  then show "keeps (translate_cache_miss env h addr True sys) (coherent env)" by blast
  from k show "translate_cache_miss env h addr True sys = Ok pa sys' \<Longrightarrow> page_of pa \<noteq> top_page \<Longrightarrow>
      page_of pa \<notin> code_prot sys'" by blast
qed

lemma cache_miss_coherent:
  "coherent env sys \<Longrightarrow> keeps (translate_cache_miss env h addr w sys) (coherent env)"
  using cache_miss_read cache_miss_write(1) by (cases w) auto

section \<open>Every instruction\<close>

lemma coherent_fields:
  "coherent env (sys\<lparr> mem := m \<rparr>) = coherent env sys" "coherent env (sys\<lparr> clint := c \<rparr>) = coherent env sys"
  "coherent env (sys\<lparr> plic := q \<rparr>) = coherent env sys"
  "coherent env (sys\<lparr> exit_reason := e \<rparr>) = coherent env sys"
  by (simp_all add: coherent_def)

interpretation coherence: machine_invariant env "coherent env" for env
  by unfold_locales
    (auto simp: set_trap_def on_shared_def quiet_calm coherent_fields
      intro!: quiet_put_hart quiet_on_hart quiet_on_masked quiet_on_all cache_miss_coherent quiet_test_and_set_fs
        quiet_set_rm quiet_read_csr quiet_write_csr quiet_mret quiet_sret)

lemma trap_code_coherent:
  "coherent env sys \<Longrightarrow> trap env (ctxs sys h) = Some ctx \<Longrightarrow> coherent env (put_hart h ctx sys)"
  by (blast intro: quiet_put_hart quiet_trap)

section \<open>Interrupts\<close>

lemma run_task_keys: "code_keys (run_task t ic) = {k \<in> code_keys ic. \<not> covers t k}"
  by (cases t) (auto simp: code_keys_def drop_range_def covers_def split: if_splits)

lemma run_tasks_keys: "code_keys (fold run_task ts ic) = {k \<in> code_keys ic. \<forall>t \<in> set ts. \<not> covers t k}"
  by (induction ts arbitrary: ic) (auto simp: run_task_keys)

text \<open>Draining the queue of a hart leaves only code of protected pages in its cache.\<close>

lemma drained:
  assumes "coherent env sys" "tasks (shared ctx) = []" "line (shared ctx) = line (shared (ctxs sys h))"
    and sys1: "sys1 = (put_hart h ctx sys)\<lparr> icaches := (icaches sys)(h := fold run_task (tasks (shared (ctxs sys h))) (icaches sys h)) \<rparr>"
  shows "coherent env sys1" and "h < core_count env \<Longrightarrow> k \<in> code_keys (icaches sys1 h) \<Longrightarrow> page_of k \<in> code_prot sys1"
proof -
  have old: "coherent_lines env (code_prot sys) (shared (ctxs sys i))"
    "coherent_code (code_prot sys) (shared (ctxs sys i)) (icaches sys i)" if "i < core_count env" for i
    using assms(1) that by (simp_all add: coherent_def)
  show keys: "page_of k \<in> code_prot sys1" if "h < core_count env" "k \<in> code_keys (icaches sys1 h)" for k
    using old(2) [OF that(1)] that(2) by (auto simp: sys1 put_hart_def run_tasks_keys coherent_code_def)
  have "coherent_lines env (code_prot sys1) (shared (ctxs sys1 i))
      \<and> coherent_code (code_prot sys1) (shared (ctxs sys1 i)) (icaches sys1 i)" if "i < core_count env" for i
  proof (cases "i = h")
    case True
    then have "coherent_code (code_prot sys1) (shared (ctxs sys1 i)) (icaches sys1 i)"
      using keys that by (simp add: coherent_code_def)
    moreover have "coherent_lines env (code_prot sys1) (shared (ctxs sys1 i))"
      using old(1) [OF that] True assms(3) by (simp add: sys1 put_hart_def coherent_lines_def)
    ultimately show ?thesis by blast
  next
    case False
    then show ?thesis using old [OF that] by (simp add: sys1 put_hart_def)
  qed
  then show "coherent env sys1" by (simp add: coherent_def)
qed

lemma check_interrupt_coherent:
  assumes "coherent env sys"
  shows "keeps (check_interrupt env h sys) (coherent env)"
    and "check_interrupt env h sys = Ok () sys' \<Longrightarrow> h < core_count env \<Longrightarrow> k \<in> code_keys (icaches sys' h) \<Longrightarrow>
      page_of k \<in> code_prot sys'"
proof -
  define sys1 where "sys1 = put_hart h (on_shared (\<lambda>sh. sh\<lparr> alarm := 0 \<rparr>) (ctxs sys h)) sys"
  define ctx where "ctx = on_shared (\<lambda>sh. sh\<lparr> tasks := [] \<rparr>) (ctxs sys1 h)"
  define sys2 where "sys2 = (put_hart h ctx sys1)\<lparr> icaches := (icaches (put_hart h ctx sys1))
    (h := fold run_task (tasks (shared (ctxs sys1 h))) (icaches (put_hart h ctx sys1) h)) \<rparr>"
  have sys2: "sys2 = (put_hart h ctx sys1)\<lparr> icaches := (icaches sys1)(h := fold run_task (tasks (shared (ctxs sys1 h))) (icaches sys1 h)) \<rparr>"
    by (simp add: sys2_def put_hart_def)
  have co1: "coherent env sys1"
    unfolding sys1_def by (rule coherence.J_shared [OF assms]) (simp add: calm_def)
  have "tasks (shared ctx) = []" "line (shared ctx) = line (shared (ctxs sys1 h))"
    by (simp_all add: ctx_def on_shared_def)
  note co2 = drained [OF co1 this sys2]
  have r: "check_interrupt env h sys =
     (if alarm (shared (ctxs sys h)) AND 2 \<noteq> 0 then Err sys1
      else if interrupt_pending (ctxs sys2 h) = 0 then Ok () sys2
      else case trap env (set_trap (push_bit 63 1 OR (63 - of_nat (leading_zeros (interrupt_pending (ctxs sys2 h))))) 0 (ctxs sys2 h)) of
             None \<Rightarrow> Panic | Some ctx \<Rightarrow> Ok () (put_hart h ctx sys2))"
    unfolding check_interrupt_def Let_def sys2_def ctx_def sys1_def by (rule refl)
  have t: "coherent env (put_hart h ctx' sys2)" if "trap env (set_trap c v (ctxs sys2 h)) = Some ctx'" for c v ctx'
    using quiet_trap [OF that] by (intro quiet_put_hart [OF co2(1)]) (simp add: set_trap_def)
  show "keeps (check_interrupt env h sys) (coherent env)"
    using co1 co2(1) t by (auto simp: r split: option.split)
  show "check_interrupt env h sys = Ok () sys' \<Longrightarrow> h < core_count env \<Longrightarrow> k \<in> code_keys (icaches sys' h) \<Longrightarrow>
      page_of k \<in> code_prot sys'"
    using co2(2) by (auto simp: r put_hart_def split: if_splits option.splits)
qed

section \<open>Translation\<close>

lemma protect_lines:
  assumes "coherent_lines env prot sh"
  shows "coherent_lines env (insert (page_of pa) prot) (protect_code env (pa AND NOT 4095) sh)"
proof -
  define l where "l i = line (protect_code env (pa AND NOT 4095) sh) i" for i
  have base: "(line_physical (cache_line_size_log2 (memory_model env)) x AND NOT 4095 = pa AND NOT 4095)
      = (line_page env x = page_of pa)" for x
    by (simp only: page_base_eq line_page_def)
  have "l i = line sh i \<and> line_page env (line sh i) \<noteq> page_of pa \<or> \<not> writable_line (l i)" for i
    unfolding l_def protect_code_def Let_def base by (simp add: writable_line_def bit_simps)
  then show ?thesis using assms unfolding coherent_lines_def l_def [symmetric] by (metis insert_iff)
qed

lemma translate_code_keys:
  assumes "translate_code env m dbt can_fuse p phys_pc ic = Some (Some (r, ic'))"
  shows "code_keys ic' \<subseteq> insert phys_pc (code_keys ic)"
proof -
  define ic0 where "ic0 = (if icache_space ic < 256 * 1024 then icache_rollover ic else ic)"
  have sub: "code_keys ic0 \<subseteq> code_keys ic" by (auto simp: ic0_def icache_rollover_def code_keys_def)
  obtain v n ic1 where "prv_insert p phys_pc v ic0 = Some ic1" "icache_commit n ic1 = Some ic'"
    using assms unfolding translate_code_def Let_def ic0_def [symmetric]
    by (auto split: option.splits prod.splits if_splits simp: bind_eq_Some_conv)
  then have "code_keys ic' \<subseteq> insert phys_pc (code_keys ic0)"
    by (auto simp: prv_insert_def icache_commit_def code_keys_def Let_def split: if_splits)
  with sub show ?thesis by blast
qed

lemma insn_translate_quiet: "keeps (insn_translate env m a ctx) (\<lambda>ctx'. quiet (shared ctx) (shared ctx'))"
  unfolding insn_translate_def instruction_access_def Let_def
  by (intro keeps_if keeps_and_then quiet_translate_vaddr)
    (auto simp: insert_instruction_cache_line_def quiet_def on_shared_def Let_def)

text \<open>The page of a block is protected before its code enters the cache.\<close>

lemma protected_coherent:
  assumes "coherent env sys"
    and sys0_def: "sys0 = sys\<lparr> code_prot := insert (page_of pa) (code_prot sys) \<rparr>"
  shows "coherent env (if page_of pa \<notin> code_prot sys then on_all env (protect_code env (pa AND NOT 4095)) sys0 else sys0)"
proof (cases "page_of pa \<in> code_prot sys")
  case True
  then show ?thesis using assms(1) by (simp add: sys0_def insert_absorb coherent_def)
next
  case False
  have "coherent_code (insert (page_of pa) (code_prot sys)) (protect_code env (pa AND NOT 4095) (shared (ctxs sys i))) (icaches sys i)"
    if "i < core_count env" for i
    using assms(1) that by (auto simp: coherent_def coherent_code_def protect_code_def Let_def)
  with False assms(1) protect_lines show ?thesis
    by (auto simp: coherent_def on_all_def on_shared_def sys0_def)
qed

lemma coherent_add_code:
  assumes "coherent env sys" "code_keys ic \<subseteq> insert pa (code_keys (icaches sys i))" "page_of pa \<in> code_prot sys"
  shows "coherent env (sys\<lparr> icaches := (icaches sys)(i := ic) \<rparr>)"
  using assms unfolding coherent_def coherent_code_def by auto

lemma find_block_coherent:
  assumes "coherent env sys" "find_block env dbt can_fuse h sys = Some (Ok b sys')"
  shows "coherent env sys'"
proof -
  define t where "t = on_hart h (insn_translate env (mem sys) (pc (ctxs sys h))) sys"
  have t: "keeps t (coherent env)"
    unfolding t_def by (intro quiet_on_hart [OF assms(1)] insn_translate_quiet)
  show ?thesis
  proof (cases t)
    case (Ok pa sys1)
    have co: "coherent env sys1" using t Ok by simp
    define i where "i = unat (hartid (ctxs sys1 h))"
    define sys0 where "sys0 = sys1\<lparr> code_prot := insert (page_of pa) (code_prot sys1) \<rparr>"
    define sys2 where "sys2 = (if page_of pa \<notin> code_prot sys1 then on_all env (protect_code env (pa AND NOT 4095)) sys0 else sys0)"
    have co2: "coherent env sys2" unfolding sys2_def by (rule protected_coherent [OF co sys0_def])
    have prot: "page_of pa \<in> code_prot sys2" "icaches sys2 = icaches sys1"
      by (simp_all add: sys2_def sys0_def on_all_def)
    from assms(2) have "sys' = sys1 \<or> (\<exists>p r ic. translate_code env (mem sys2) dbt can_fuse p pa (icaches sys2 i) = Some (Some (r, ic))
        \<and> sys' = sys2\<lparr> icaches := (icaches sys2)(i := ic) \<rparr>)"
      unfolding find_block_def t_def [symmetric] Ok Let_def page_of_def [symmetric] i_def [symmetric]
        sys0_def [symmetric] sys2_def [symmetric] res.case
      by (fastforce split: option.splits prod.splits)
    then show ?thesis
      using co coherent_add_code [OF co2 translate_code_keys prot(1)] by blast
  next
    case (Err sys1)
    then show ?thesis using assms(2) t unfolding find_block_def t_def [symmetric]
      by (auto split: option.splits intro: trap_code_coherent)
  next
    case Panic
    then show ?thesis using assms(2) unfolding find_block_def t_def [symmetric] by simp
  qed
qed

section \<open>Misaligned accesses\<close>

lemma translate_write_coherent: "coherent env sys \<Longrightarrow> keeps (translate_write env h addr sys) (coherent env)"
  by (auto simp: translate_write_def Let_def cache_miss_coherent)

lemma translate_read_coherent: "coherent env sys \<Longrightarrow> keeps (translate_read env h addr sys) (coherent env)"
  by (auto simp: translate_read_def Let_def cache_miss_coherent)

lemma copy_from_coherent:
  "coherent env sys \<Longrightarrow> keeps (copy_from_loop env h n virt phys vline sys) (coherent env)"
  by (induction env h n virt phys vline sys rule: copy_from_loop.induct)
    (auto simp: Let_def translate_read_coherent intro!: keeps_and_then)

lemma copy_to_coherent:
  "coherent env sys \<Longrightarrow> keeps (copy_to_loop env h bs virt phys vline sys) (coherent env)"
  by (induction env h bs virt phys vline sys rule: copy_to_loop.induct)
    (auto simp: Let_def translate_write_coherent coherent_fields intro!: keeps_and_then)

lemma handle_misalign_coherent: "coherent env sys \<Longrightarrow> keeps (handle_misalign env h addr sys) (coherent env)"
  unfolding handle_misalign_def fetch_misaligned_def copy_from_virt_addr_def copy_to_virt_addr_def Let_def
  by (intro keeps_and_then quiet_on_hart insn_translate_quiet keeps_if)
    (auto simp: copy_from_coherent copy_to_coherent coherence.raise_trap_keeps
      intro!: keeps_and_then quiet_on_hart insn_translate_quiet quiet_put_hart split: option.split Op.split)

section \<open>Reachable states\<close>

lemma dma_coherent: "coherent env sys \<Longrightarrow> coherent env (dma_write env addr buf sys)"
  unfolding dma_write_def by (intro invalidation_coherent) (simp add: coherent_fields)

lemma machine_step_coherent:
  assumes "machine_step env dev sys sys'" "devices_keep (coherent env) dev" "coherent env sys"
  shows "coherent env sys'"
  using assms
proof (induction rule: machine_step.induct)
  case (executes h op compressed sys sys')
  then show ?case using coherence.step_keeps [of env dev sys h op compressed] by simp
next
  case (traps h op compressed sys sys' ctx)
  then show ?case using coherence.step_keeps [of env dev sys h op compressed] by (simp add: trap_code_coherent)
next
  case (interrupts h sys sys')
  then show ?case using check_interrupt_coherent(1) [of env sys h] by simp
next
  case (timer sys h)
  then show ?case by (simp add: clint_timer_fires_def coherence.drive_clint_keeps)
qed

lemma code_step_coherent:
  assumes "code_step env dev sys sys'" "devices_keep (coherent env) dev" "coherent env sys"
  shows "coherent env sys'"
  using assms(1,3)
proof cases
  case (misaligned h addr)
  then show ?thesis using assms(3) handle_misalign_coherent [of env sys h addr] by simp
next
  case (misaligned_traps h addr sys1 ctx)
  then show ?thesis using assms(3) handle_misalign_coherent [of env sys h addr] by (simp add: trap_code_coherent)
qed (use assms(2) in \<open>auto intro: machine_step_coherent find_block_coherent dma_coherent\<close>)

lemma initial_shared: "shared (initial_context k fw) = new_shared"
  by (simp add: initial_context_def Let_def)

lemma initial_coherent: "code_initial env sys \<Longrightarrow> coherent env sys"
proof -
  have "coherent_lines env prot new_shared" "coherent_code prot new_shared (new_icache ptr)" for prot ptr
    by (simp_all add: coherent_lines_def coherent_code_def new_shared_def default_line_def writable_line_def
        new_icache_def code_keys_def)
  then show "code_initial env sys \<Longrightarrow> coherent env sys"
    unfolding code_initial_def coherent_def by (metis initial_shared)
qed

lemma write_unprotects:
  assumes "coherent env sys" "h < core_count env" "translate_write env h addr sys = Ok pa sys'" "page_of pa \<noteq> top_page"
  shows "page_of pa \<notin> code_prot sys'"
proof (cases "line_tag (line (shared (ctxs sys h)) (ucast (drop_bit (cache_line_size_log2 (memory_model env)) addr)))
    = push_bit 1 (drop_bit (cache_line_size_log2 (memory_model env)) addr)")
  case True
  note hit = hit_page [OF True]
  have "coherent_lines env (code_prot sys) (shared (ctxs sys h))" using assms(1,2) by (simp add: coherent_def)
  moreover have "sys' = sys" "pa = line_paddr (line (shared (ctxs sys h)) (ucast (drop_bit (cache_line_size_log2 (memory_model env)) addr))) XOR addr"
    using True assms(3) by (auto simp: translate_write_def Let_def)
  ultimately show ?thesis using hit assms(4) unfolding coherent_lines_def by metis
next
  case False
  then show ?thesis using assms cache_miss_write(2) by (simp add: translate_write_def Let_def)
qed

lemma no_pending: "mie ctx = 0 \<Longrightarrow> interrupt_pending ctx = 0"
  by (simp add: interrupt_pending_def)

lemma check_interrupt_prot: "check_interrupt env h sys = Ok () sys' \<Longrightarrow> code_prot sys' = code_prot sys"
  by (auto simp: check_interrupt_def Let_def put_hart_def split: if_splits option.splits)

text \<open>
  C36. Self-modifying code. In every state the machine reaches from reset, by instructions, traps,
  interrupts, block translations, misaligned accesses and device writes of all harts in any order: once
  a hart has obtained the address for a store, the removal of all translated code of that page is
  queued on every hart that has some, and a hart that has checked for interrupts since has no code of
  that page left. The devices that are parameters are asked to keep the invariant \<open>coherent\<close>.
\<close>

theorem store_removes_code:
  assumes "code_initial env sys0" "devices_keep (coherent env) dev" "(code_step env dev)\<^sup>*\<^sup>* sys0 sys"
    and "h < core_count env" "translate_write env h addr sys = Ok pa sys1" "page_of pa \<noteq> top_page"
  shows "\<forall>i < core_count env.
    (\<forall>k \<in> code_keys (icaches sys1 i). page_of k = page_of pa \<longrightarrow>
       (\<exists>t \<in> set (tasks (shared (ctxs sys1 i))). covers t k))
    \<and> (\<forall>sys2. check_interrupt env i sys1 = Ok () sys2 \<longrightarrow>
       (\<forall>k \<in> code_keys (icaches sys2 i). page_of k \<noteq> page_of pa))"
proof -
  have "coherent env sys0" by (rule initial_coherent [OF assms(1)])
  with assms(3) have co: "coherent env sys"
    by (induction rule: rtranclp_induct) (auto intro: code_step_coherent [OF _ assms(2)])
  then have co1: "coherent env sys1" using translate_write_coherent [OF co, of h addr] assms(5) by simp
  have n: "page_of pa \<notin> code_prot sys1" by (rule write_unprotects [OF co assms(4-6)])
  have "page_of k \<noteq> page_of pa"
    if "i < core_count env" "check_interrupt env i sys1 = Ok () sys2" "k \<in> code_keys (icaches sys2 i)" for i k sys2
    using check_interrupt_coherent(2) [OF co1 that(2,1,3)] check_interrupt_prot [OF that(2)] n by metis
  moreover have "\<exists>t \<in> set (tasks (shared (ctxs sys1 i))). covers t k"
    if "i < core_count env" "k \<in> code_keys (icaches sys1 i)" "page_of k = page_of pa" for i k
  proof -
    have "coherent_code (code_prot sys1) (shared (ctxs sys1 i)) (icaches sys1 i)"
      using co1 that(1) by (simp add: coherent_def)
    then show ?thesis using that(2,3) n unfolding coherent_code_def by metis
  qed
  ultimately show ?thesis by blast
qed

theorem store_removes_code_witness:
  "\<exists>sys1 sys2. translate_write sample_env 0 0x40000000 sample_system = Ok 0x40000000 sys1
     \<and> check_interrupt sample_env 0 sys1 = Ok () sys2
     \<and> (\<forall>k \<in> code_keys (icaches sys2 0). page_of k \<noteq> page_of 0x40000000)"
proof -
  have i: "code_initial sample_env sample_system"
    unfolding code_initial_def sample_system_def by (auto simp: sample_env_def)
  define sys1 where "sys1 = icache_invalidate sample_env 0x40000000 0x40000001
    (put_hart 0 (insert_data_cache_line sample_env 0x40000000 0x40000000 True (initial_context 0 False)) sample_system)"
  have c: "ctxs sample_system 0 = initial_context 0 False" by (simp add: sample_system_def)
  have w: "translate_write sample_env 0 0x40000000 sample_system = Ok 0x40000000 sys1"
    by (simp add: translate_write_def translate_cache_miss_def on_hart_def data_access_def translate_vaddr_def c Let_def
        sys1_def initial_context_def new_shared_def default_line_def sample_env_def)
  have m: "mie (ctxs sys1 0) = 0" "alarm (shared (ctxs sys1 0)) = 0"
    by (simp_all add: sys1_def icache_invalidate_def sample_system_def put_hart_def insert_data_cache_line_def
        on_shared_def initial_context_def new_shared_def Let_def list_ex_iff)
  obtain sys2 where "check_interrupt sample_env 0 sys1 = Ok () sys2"
    by (simp add: check_interrupt_def Let_def put_hart_def on_shared_def no_pending m)
  moreover have "page_of 0x40000000 \<noteq> top_page" by (simp add: page_of_def top_page_def)
  moreover have "0 < core_count sample_env" by (simp add: sample_env_def)
  ultimately show ?thesis
    using store_removes_code [OF i no_devices_keep rtranclp.rtrancl_refl _ w] w by blast
qed

end
