(* ===== verification/Virtio_Queue.thy ===== *)
theory Virtio_Queue
  imports System
begin

text \<open>
  Virtio queues, \<open>lib/io/src/hw/virtio/queue.rs\<close>: the split virtqueue in guest memory, the chains of
  descriptors taken from it, and the two halves of a buffer through which a device reads and writes.

  \<^item> \<open>usize\<close> counts and positions are \<open>nat\<close>; the addresses are words and wrap.
  \<^item> \<open>BufferReader\<close> and \<open>BufferWriter\<close> have the same fields and the same code for moving through the
    slices: \<open>Cursor\<close>. The writer's \<open>bytes_written\<close> is passed along.
  \<^item> \<open>dma_read\<close> and \<open>dma_write\<close> copy from and to guest memory; the invalidation of translated code by
    \<open>dma_write\<close> is in \<open>Code_Coherence\<close>.
  \<^item> \<open>read_exact\<close> and \<open>write_all\<close> are the loops of the standard library over \<open>read\<close> and \<open>write\<close>;
    \<open>None\<close> is the error they end with.
\<close>

section \<open>Guest memory\<close>

fun addr_range :: "u64 \<Rightarrow> nat \<Rightarrow> u64 list" where
  "addr_range a 0 = []"
| "addr_range a (Suc n) = a # addr_range (a + 1) n"

fun write_at :: "u64 list \<Rightarrow> u8 list \<Rightarrow> memory \<Rightarrow> memory" where
  "write_at (a # as) (b # bs) m = write_at as bs (m(a := b))"
| "write_at _ _ m = m"

definition dma_read :: "memory \<Rightarrow> u64 \<Rightarrow> nat \<Rightarrow> u8 list" where
  "dma_read m a n = map m (addr_range a n)"

definition dma_put :: "u64 \<Rightarrow> u8 list \<Rightarrow> memory \<Rightarrow> memory" where
  "dma_put a bs m = write_at (addr_range a (length bs)) bs m"

section \<open>The halves of a buffer\<close>

type_synonym slices = "(u64 \<times> nat) list"

record Cursor =
  slices :: slices
  total_len :: nat
  pos :: nat
  slice_idx :: nat
  slice_offset :: nat

definition new_cursor :: "slices \<Rightarrow> nat \<Rightarrow> Cursor" where
  "new_cursor sl n = \<lparr> slices = sl, total_len = n, pos = 0, slice_idx = 0, slice_offset = 0 \<rparr>"

text \<open>\<open>seek_slice\<close>: slice and offset of a position; \<open>i\<close> is the index of the first slice of the list.\<close>

fun seek_slice :: "slices \<Rightarrow> nat \<Rightarrow> nat \<Rightarrow> nat \<times> nat" where
  "seek_slice [] i off = (i + 1, 0)"
| "seek_slice ((_, len) # sl) i off = (if len \<le> off then seek_slice sl (i + 1) (off - len) else (i, off))"

datatype (plugins only: code size) SeekFrom = SeekStart u64 | SeekEnd i64 | SeekCurrent i64

definition seek_target :: "SeekFrom \<Rightarrow> Cursor \<Rightarrow> u64" where
  "seek_target p c =
    (case p of
       SeekStart n \<Rightarrow> n
     | SeekEnd n \<Rightarrow> of_nat (total_len c) + n
     | SeekCurrent n \<Rightarrow> of_nat (pos c) + n)"

definition seek :: "SeekFrom \<Rightarrow> Cursor \<Rightarrow> nat \<times> Cursor" where
  "seek p c =
    (let new_pos = unat (seek_target p c);
         (i, off) = (if pos c \<noteq> new_pos then seek_slice (slices c) 0 new_pos else (slice_idx c, slice_offset c))
     in (new_pos, c\<lparr> slice_idx := i, slice_offset := off, pos := new_pos \<rparr>))"

text \<open>The common part of \<open>read\<close> and \<open>write\<close> with a buffer of \<open>n\<close> bytes: the address and the number of
  bytes to transfer.\<close>

definition advance :: "nat \<Rightarrow> Cursor \<Rightarrow> u64 \<times> nat \<times> Cursor" where
  "advance n c =
    (if length (slices c) \<le> slice_idx c then (0, 0, c)
     else
       (let (addr, len) = slices c ! slice_idx c;
            slice_addr = addr + of_nat (slice_offset c);
            slice_len = len - slice_offset c
        in
        if slice_len \<le> n
        then (slice_addr, slice_len, c\<lparr> slice_idx := slice_idx c + 1, slice_offset := 0, pos := pos c + slice_len \<rparr>)
        else (slice_addr, n, c\<lparr> slice_offset := slice_offset c + n, pos := pos c + n \<rparr>)))"

definition buffer_read :: "memory \<Rightarrow> nat \<Rightarrow> Cursor \<Rightarrow> u8 list \<times> Cursor" where
  "buffer_read m n c = (let (a, k, c) = advance n c in (dma_read m a k, c))"

definition buffer_write :: "u8 list \<Rightarrow> memory \<times> nat \<times> Cursor \<Rightarrow> nat \<times> memory \<times> nat \<times> Cursor" where
  "buffer_write bs = (\<lambda>(m, bytes_written, c).
     if length (slices c) \<le> slice_idx c then (0, m, bytes_written, c)
     else let (a, k, c) = advance (length bs) c in (k, dma_put a (take k bs) m, max (pos c) bytes_written, c))"

function read_exact :: "memory \<Rightarrow> nat \<Rightarrow> Cursor \<Rightarrow> (u8 list \<times> Cursor) option" where
  "read_exact m n c =
    (if n = 0 then Some ([], c)
     else
       (let (bs, c) = buffer_read m n c in
        if bs = [] then None
        else map_option (\<lambda>(bs', c). (bs @ bs', c)) (read_exact m (n - length bs) c)))"
  by pat_completeness auto
termination by (relation "measure (\<lambda>(m, n, c). n)") auto

function write_all :: "u8 list \<Rightarrow> memory \<times> nat \<times> Cursor \<Rightarrow> (memory \<times> nat \<times> Cursor) option" where
  "write_all bs w =
    (if bs = [] then Some w
     else
       (let (k, w) = buffer_write bs w in
        if k = 0 then None else write_all (drop k bs) w))"
  by pat_completeness auto
termination by (relation "measure (\<lambda>(bs, w). length bs)") auto

section \<open>The queue\<close>

record VirtqDesc =
  d_addr :: u64
  d_len :: u32
  d_flags :: u16
  d_next :: u16

record QueueInner =
  ready :: bool
  num :: u16
  num_max :: u16
  desc_addr :: u64
  avail_addr :: u64
  used_addr :: u64
  last_avail_idx :: u16
  last_used_idx :: u16
  waker :: "nat option"

definition new_queue :: "u16 \<Rightarrow> QueueInner" where
  "new_queue n = \<lparr> ready = False, num = n, num_max = n, desc_addr = 0, avail_addr = 0, used_addr = 0,
     last_avail_idx = 0, last_used_idx = 0, waker = None \<rparr>"

definition reset_queue :: "QueueInner \<Rightarrow> QueueInner" where
  "reset_queue q = q\<lparr> ready := False, num := num_max q, desc_addr := 0, avail_addr := 0, used_addr := 0,
     waker := None, last_avail_idx := 0, last_used_idx := 0 \<rparr>"

record Buffer =
  head_idx :: u16
  bytes_written :: nat
  read_part :: slices
  write_part :: slices
  read_len :: nat
  write_len :: nat

text \<open>The 16 bytes of a descriptor, little-endian.\<close>

definition read_desc :: "memory \<Rightarrow> QueueInner \<Rightarrow> u16 \<Rightarrow> VirtqDesc" where
  "read_desc m q idx =
    (let a = desc_addr q + ucast (idx AND (num q - 1)) * 16 in
     \<lparr> d_addr = load_bytes 8 m a, d_len = ucast (load_bytes 4 m (a + 8)),
       d_flags = ucast (load_bytes 2 m (a + 12)), d_next = ucast (load_bytes 2 m (a + 14)) \<rparr>)"

definition add_desc :: "VirtqDesc \<Rightarrow> Buffer \<Rightarrow> Buffer" where
  "add_desc d b =
    (let s = (d_addr d, unat (d_len d));
         b = (if d_flags d AND 2 = 0 then b\<lparr> read_part := read_part b @ [s] \<rparr>
              else b\<lparr> write_part := write_part b @ [s] \<rparr>)
     in b\<lparr> read_len := sum_list (map snd (read_part b)), write_len := sum_list (map snd (write_part b)) \<rparr>)"

partial_function (option) take_loop :: "memory \<Rightarrow> QueueInner \<Rightarrow> u16 \<Rightarrow> Buffer \<Rightarrow> Buffer option" where
  [code]: "take_loop m q idx avail =
    (let desc = read_desc m q idx; avail = add_desc desc avail in
     if d_flags desc AND 1 = 0 then Some avail else take_loop m q (d_next desc) avail)"

datatype (plugins only: code size) taken = QueueNotReady | NoBuffer | Taken Buffer

definition try_take :: "memory \<Rightarrow> QueueInner \<Rightarrow> (taken \<times> QueueInner) option" where
  "try_take m q =
    (if \<not> ready q then Some (QueueNotReady, q)
     else
       (let avail_idx = ucast (load_bytes 2 m (avail_addr q + 2)) :: u16 in
        if last_avail_idx q = avail_idx then Some (NoBuffer, q)
        else
          (let idx_ptr = avail_addr q + 4 + ucast (last_avail_idx q AND (num q - 1)) * 2;
               idx = ucast (load_bytes 2 m idx_ptr) :: u16;
               q = q\<lparr> last_avail_idx := last_avail_idx q + 1 \<rparr>;
               avail = \<lparr> head_idx = idx, bytes_written = 0, read_part = [], write_part = [],
                 read_len = 0, write_len = 0 \<rparr>
           in map_option (\<lambda>avail. (Taken avail, q)) (take_loop m q idx avail))))"

text \<open>The future returned by \<open>take\<close>, polled by task \<open>t\<close>; \<open>None\<close> in the result is \<open>Pending\<close>.\<close>

definition poll_take :: "nat \<Rightarrow> memory \<Rightarrow> QueueInner \<Rightarrow> (taken option \<times> QueueInner) option" where
  "poll_take t m q =
    (case try_take m q of
       None \<Rightarrow> None
     | Some (NoBuffer, q) \<Rightarrow> Some (None, q\<lparr> waker := Some t \<rparr>)
     | Some (r, q) \<Rightarrow> Some (Some r, q))"

definition le_bytes :: "nat \<Rightarrow> u64 \<Rightarrow> u8 list" where
  "le_bytes n v = map (\<lambda>i. ucast (drop_bit (8 * i) v)) [0..<n]"

text \<open>\<open>put\<close>, which \<open>drop\<close> of a buffer calls\<close>

definition put :: "Buffer \<Rightarrow> memory \<Rightarrow> QueueInner \<Rightarrow> memory \<times> QueueInner" where
  "put b m q =
    (if \<not> ready q then (m, q)
     else
       (let elem_ptr = used_addr q + 4 + ucast (last_used_idx q AND (num q - 1)) * 8;
            m = dma_put elem_ptr (le_bytes 4 (ucast (head_idx b)) @ le_bytes 4 (of_nat (bytes_written b))) m;
            q = q\<lparr> last_used_idx := last_used_idx q + 1 \<rparr>
        in (dma_put (used_addr q + 2) (le_bytes 2 (ucast (last_used_idx q))) m, q)))"

definition reader :: "Buffer \<Rightarrow> Cursor" where
  "reader b = new_cursor (read_part b) (read_len b)"

definition writer :: "Buffer \<Rightarrow> Cursor" where
  "writer b = new_cursor (write_part b) (write_len b)"

section \<open>What they should do\<close>

text \<open>The addresses of the bytes of a half, in order, and those from the position on.\<close>

definition flat :: "slices \<Rightarrow> u64 list" where
  "flat sl = concat (map (\<lambda>(a, n). addr_range a n) sl)"

definition rest :: "Cursor \<Rightarrow> u64 list" where
  "rest c = drop (pos c) (flat (slices c))"

definition span :: "slices \<Rightarrow> nat" where
  "span sl = sum_list (map snd sl)"

definition slices_ok :: "slices \<Rightarrow> bool" where
  "slices_ok sl \<longleftrightarrow> list_all (\<lambda>(a, n). 0 < n) sl"

text \<open>Slice and offset are those of the position.\<close>

definition cursor_ok :: "Cursor \<Rightarrow> bool" where
  "cursor_ok c \<longleftrightarrow> slices_ok (slices c) \<and>
    (if slice_idx c < length (slices c)
     then slice_offset c < snd (slices c ! slice_idx c) \<and> pos c = span (take (slice_idx c) (slices c)) + slice_offset c
     else span (slices c) \<le> pos c)"

section \<open>Ranges of addresses\<close>

lemma length_addr_range [simp]: "length (addr_range a n) = n"
  by (induction a n rule: addr_range.induct) simp_all

lemma nth_addr_range: "i < n \<Longrightarrow> addr_range a n ! i = a + of_nat i"
  by (induction a n arbitrary: i rule: addr_range.induct) (auto simp: nth_Cons ac_simps split: nat.split)

lemma drop_addr_range: "drop k (addr_range a n) = addr_range (a + of_nat k) (n - k)"
  by (induction a n arbitrary: k rule: addr_range.induct) (simp, case_tac k, simp_all add: ac_simps)

lemma take_addr_range: "take k (addr_range a n) = addr_range a (min k n)"
  by (induction a n arbitrary: k rule: addr_range.induct) (simp, case_tac k, simp_all)

lemma flat_simps [simp]:
  "flat [] = []" "flat ((a, n) # sl) = addr_range a n @ flat sl" "flat (sl @ sl') = flat sl @ flat sl'"
  by (simp_all add: flat_def)

lemma span_simps [simp]: "span [] = 0" "span (x # sl) = snd x + span sl" "span (sl @ sl') = span sl + span sl'"
  by (simp_all add: span_def)

lemma length_flat [simp]: "length (flat sl) = span sl"
  by (induction sl) auto

lemma write_at_append:
  "length as = length bs \<Longrightarrow> write_at (as @ as') (bs @ bs') m = write_at as' bs' (write_at as bs m)"
  by (induction as bs arbitrary: m rule: list_induct2) simp_all

lemma write_at_other: "a \<notin> set as \<Longrightarrow> write_at as bs m a = m a"
  by (induction as bs m rule: write_at.induct) auto

section \<open>Moving through the slices\<close>

lemma rest_slice:
  assumes "i < length sl" "sl ! i = (a, n)" "off \<le> n"
  shows "drop (span (take i sl) + off) (flat sl) = addr_range (a + of_nat off) (n - off) @ flat (drop (Suc i) sl)"
proof -
  have "sl = take i sl @ (a, n) # drop (Suc i) sl" using assms(1,2) by (metis id_take_nth_drop)
  then have "flat sl = flat (take i sl) @ addr_range a n @ flat (drop (Suc i) sl)"
    by (metis flat_simps(2,3))
  then show ?thesis using assms(3) by (simp add: drop_addr_range)
qed

lemma span_take_Suc: "i < length sl \<Longrightarrow> span (take (Suc i) sl) = span (take i sl) + snd (sl ! i)"
  by (simp add: take_Suc_conv_app_nth)

lemma advance_spec:
  assumes "cursor_ok c" "advance n c = (a, k, c')"
  shows "addr_range a k = take k (rest c)" "rest c' = drop k (rest c)" "cursor_ok c'" "slices c' = slices c"
    "k \<le> n" "pos c' = pos c + k" "k = 0 \<Longrightarrow> n = 0 \<or> rest c = []"
proof -
  have "addr_range a k = take k (rest c) \<and> rest c' = drop k (rest c) \<and> cursor_ok c' \<and> slices c' = slices c
    \<and> k \<le> n \<and> pos c' = pos c + k \<and> (k = 0 \<longrightarrow> n = 0 \<or> rest c = [])"
  proof (cases "slice_idx c < length (slices c)")
    case False
    then show ?thesis using assms by (auto simp: advance_def cursor_ok_def rest_def)
  next
    case True
    obtain sa len where s: "slices c ! slice_idx c = (sa, len)" by force
    have off: "slice_offset c < len" "pos c = span (take (slice_idx c) (slices c)) + slice_offset c"
      using assms(1) True s by (simp_all add: cursor_ok_def)
    have r: "rest c = addr_range (sa + of_nat (slice_offset c)) (len - slice_offset c) @ flat (drop (Suc (slice_idx c)) (slices c))"
      unfolding rest_def off(2) using rest_slice [OF True s] off(1) by simp
    have sl: "slices_ok (slices c)" using assms(1) by (simp add: cursor_ok_def)
    show ?thesis
    proof (cases "len - slice_offset c \<le> n")
      case le: True
      then have c': "a = sa + of_nat (slice_offset c)" "k = len - slice_offset c"
        "c' = c\<lparr> slice_idx := slice_idx c + 1, slice_offset := 0, pos := pos c + k \<rparr>"
        using assms(2) True s by (auto simp: advance_def Let_def)
      have p: "pos c + k = span (take (Suc (slice_idx c)) (slices c))"
        using off s c'(2) span_take_Suc [OF True] by simp
      have "cursor_ok c'"
        using sl p list_all_length [of "\<lambda>(a, n). 0 < n" "slices c"]
        by (auto simp: cursor_ok_def c'(3) slices_ok_def split_beta not_less)
      moreover have "rest c' = drop k (rest c)" by (simp add: rest_def c'(3) add.commute)
      ultimately show ?thesis using r c' le off(1) by simp
    next
      case gt: False
      then have c': "a = sa + of_nat (slice_offset c)" "k = n"
        "c' = c\<lparr> slice_offset := slice_offset c + n, pos := pos c + n \<rparr>"
        using assms(2) True s by (auto simp: advance_def Let_def)
      have "cursor_ok c'" using sl off s gt True by (simp add: cursor_ok_def c'(3))
      moreover have "rest c' = drop k (rest c)" by (simp add: rest_def c'(3) c'(2) add.commute)
      ultimately show ?thesis using r c' gt off(1) by (simp add: take_addr_range)
    qed
  qed
  then show "addr_range a k = take k (rest c)" "rest c' = drop k (rest c)" "cursor_ok c'" "slices c' = slices c"
    "k \<le> n" "pos c' = pos c + k" "k = 0 \<Longrightarrow> n = 0 \<or> rest c = []" by blast+
qed

lemma seek_slice_spec:
  assumes "seek_slice sl i off = (j, off')" "slices_ok sl"
  shows "if off < span sl
    then \<exists>d < length sl. j = i + d \<and> off' < snd (sl ! d) \<and> off = span (take d sl) + off'
    else j = i + length sl + 1 \<and> off' = 0"
  using assms
proof (induction sl i off rule: seek_slice.induct)
  case (2 a len sl i off)
  show ?case
  proof (cases "len \<le> off")
    case True
    with 2 have ih: "if off - len < span sl
      then \<exists>d < length sl. j = i + 1 + d \<and> off' < snd (sl ! d) \<and> off - len = span (take d sl) + off'
      else j = i + 1 + length sl + 1 \<and> off' = 0" by (simp add: slices_ok_def)
    show ?thesis
    proof (cases "off - len < span sl")
      case inside: True
      with ih obtain d where "d < length sl" "j = i + 1 + d" "off' < snd (sl ! d)" "off - len = span (take d sl) + off'"
        by auto
      then show ?thesis using inside True by (auto intro!: exI [of _ "Suc d"])
    next
      case False
      with ih show ?thesis using True by simp
    qed
  next
    case False
    with 2 show ?thesis by auto
  qed
qed simp

lemma seek_spec:
  assumes "cursor_ok c"
  shows "cursor_ok (snd (seek p c))" "pos (snd (seek p c)) = unat (seek_target p c)"
    "slices (snd (seek p c)) = slices c" "total_len (snd (seek p c)) = total_len c"
    "fst (seek p c) = unat (seek_target p c)"
proof -
  define t where "t = unat (seek_target p c)"
  obtain i off where s: "seek_slice (slices c) 0 t = (i, off)" by force
  have sl: "slices_ok (slices c)" using assms by (simp add: cursor_ok_def)
  show "cursor_ok (snd (seek p c))"
  proof (cases "pos c = t")
    case True
    then show ?thesis using assms by (auto simp: seek_def t_def cursor_ok_def Let_def)
  next
    case False
    then have c: "snd (seek p c) = c\<lparr> slice_idx := i, slice_offset := off, pos := t \<rparr>"
      using s by (simp add: seek_def t_def Let_def)
    from seek_slice_spec [OF s sl] show ?thesis
      unfolding c by (auto simp: cursor_ok_def sl split: if_splits)
  qed
  show "pos (snd (seek p c)) = unat (seek_target p c)" "slices (snd (seek p c)) = slices c"
    "total_len (snd (seek p c)) = total_len c" "fst (seek p c) = unat (seek_target p c)"
    by (simp_all add: seek_def Let_def split_beta)
qed

lemma new_cursor_ok: "slices_ok sl \<Longrightarrow> cursor_ok (new_cursor sl n)"
  by (cases sl) (auto simp: cursor_ok_def new_cursor_def slices_ok_def)

section \<open>The loops of the standard library\<close>

declare read_exact.simps [simp del] write_all.simps [simp del]

lemma read_exact_spec:
  "cursor_ok c \<Longrightarrow> (case read_exact m n c of
     None \<Rightarrow> length (rest c) < n
   | Some (bs, c') \<Rightarrow> n \<le> length (rest c) \<and> bs = map m (take n (rest c)) \<and> cursor_ok c'
       \<and> slices c' = slices c \<and> pos c' = pos c + n)"
proof (induction m n c rule: read_exact.induct)
  case (1 m n c)
  obtain a k c' where adv: "advance n c = (a, k, c')" by (metis prod_cases3)
  note sp = advance_spec [OF 1(2) adv]
  show ?case
  proof (cases "n = 0 \<or> k = 0")
    case True
    then show ?thesis
      using sp(7) 1(2) by (auto simp: read_exact.simps [of m n c] buffer_read_def adv dma_read_def)
  next
    case False
    define bs where "bs = map m (take k (rest c))"
    have br: "buffer_read m n c = (bs, c')" by (simp add: buffer_read_def adv dma_read_def bs_def sp(1))
    have lk: "length bs = k" using sp(1) by (metis bs_def length_addr_range length_map)
    then have kr: "k \<le> length (rest c)" by (simp add: bs_def)
    have ne: "bs \<noteq> []" using lk False by auto
    have ih: "case read_exact m (n - k) c' of
        None \<Rightarrow> length (rest c') < n - k
      | Some (bs', c'') \<Rightarrow> n - k \<le> length (rest c') \<and> bs' = map m (take (n - k) (rest c')) \<and> cursor_ok c''
         \<and> slices c'' = slices c' \<and> pos c'' = pos c' + (n - k)"
      using False by (intro 1(1) [OF _ br [symmetric] refl ne, unfolded lk] sp(3)) simp
    have tk: "take n (rest c) = take k (rest c) @ take (n - k) (drop k (rest c))"
      using sp(5) by (metis le_add_diff_inverse take_add)
    have step: "read_exact m n c = map_option (\<lambda>(bs', c). (bs @ bs', c)) (read_exact m (n - k) c')"
      using False ne lk by (subst read_exact.simps) (simp add: br)
    show ?thesis
    proof (cases "read_exact m (n - k) c'")
      case None
      then show ?thesis using ih step sp(2) by simp
    next
      case (Some r)
      then show ?thesis
        using ih step sp(2,4,5,6) kr by (auto simp: tk bs_def split: prod.splits)
    qed
  qed
qed

lemma write_all_spec:
  "cursor_ok c \<Longrightarrow> (case write_all bs (m, bw, c) of
     None \<Rightarrow> length (rest c) < length bs
   | Some (m', bw', c') \<Rightarrow> length bs \<le> length (rest c) \<and> m' = write_at (take (length bs) (rest c)) bs m
       \<and> bw' = (if bs = [] then bw else max bw (pos c + length bs)) \<and> cursor_ok c' \<and> slices c' = slices c
       \<and> pos c' = pos c + length bs)"
proof (induction "length bs" arbitrary: bs m bw c rule: less_induct)
  case less
  obtain a k c' where adv: "advance (length bs) c = (a, k, c')" by (metis prod_cases3)
  note sp = advance_spec [OF less(2) adv]
  show ?case
  proof (cases "bs = [] \<or> k = 0")
    case True
    then show ?thesis
      using sp(7) less(2) adv by (auto simp: write_all.simps [of bs] buffer_write_def)
  next
    case False
    have idx: "slice_idx c < length (slices c)"
      using False adv by (auto simp: advance_def split: if_splits)
    define m' where "m' = write_at (take k (rest c)) (take k bs) m"
    have kb: "k \<le> length bs" by (fact sp(5))
    have bw: "buffer_write bs (m, bw, c) = (k, m', max (pos c') bw, c')"
      using idx kb by (simp add: buffer_write_def adv dma_put_def m'_def sp(1) min_def)
    have kr: "k \<le> length (rest c)" using arg_cong [OF sp(1), of length] by simp
    have ih: "case write_all (drop k bs) (m', max (pos c') bw, c') of
        None \<Rightarrow> length (rest c') < length (drop k bs)
      | Some (m'', bw', c'') \<Rightarrow> length (drop k bs) \<le> length (rest c')
          \<and> m'' = write_at (take (length (drop k bs)) (rest c')) (drop k bs) m'
          \<and> bw' = (if drop k bs = [] then max (pos c') bw else max (max (pos c') bw) (pos c' + length (drop k bs)))
          \<and> cursor_ok c'' \<and> slices c'' = slices c' \<and> pos c'' = pos c' + length (drop k bs)"
      using False kb by (intro less(1) sp(3)) auto
    have step: "write_all bs (m, bw, c) = write_all (drop k bs) (m', max (pos c') bw, c')"
      using False by (subst write_all.simps) (simp add: bw)
    have wr: "write_at (take (length bs) (rest c)) bs m
      = write_at (take (length bs - k) (drop k (rest c))) (drop k bs) m'"
    proof -
      have "take (length bs) (rest c) = take k (rest c) @ take (length bs - k) (drop k (rest c))"
        using kb by (metis le_add_diff_inverse take_add)
      then have "write_at (take (length bs) (rest c)) bs m
          = write_at (take k (rest c) @ take (length bs - k) (drop k (rest c))) (take k bs @ drop k bs) m" by simp
      also have "\<dots> = write_at (take (length bs - k) (drop k (rest c))) (drop k bs) m'"
        unfolding m'_def using kb kr by (intro write_at_append) simp
      finally show ?thesis .
    qed
    show ?thesis
    proof (cases "write_all (drop k bs) (m', max (pos c') bw, c')")
      case None
      then show ?thesis using ih step sp(2) by simp
    next
      case (Some r)
      then show ?thesis
        using ih step sp(2,4,6) kb kr wr False by (auto simp: max_def split: prod.splits)
    qed
  qed
qed

section \<open>A half of a buffer is a sequence of bytes\<close>

definition read_half_at :: "memory \<Rightarrow> Buffer \<Rightarrow> u64 \<Rightarrow> nat \<Rightarrow> u8 list option" where
  "read_half_at m b p n = map_option fst (read_exact m n (snd (seek (SeekStart p) (reader b))))"

definition write_half_at :: "memory \<Rightarrow> Buffer \<Rightarrow> u64 \<Rightarrow> u8 list \<Rightarrow> (memory \<times> Buffer) option" where
  "write_half_at m b p bs =
    map_option (\<lambda>(m, n, _). (m, b\<lparr> bytes_written := n \<rparr>))
      (write_all bs (m, bytes_written b, snd (seek (SeekStart p) (writer b))))"

lemma seek_start:
  assumes "slices_ok sl"
  shows "cursor_ok (snd (seek (SeekStart p) (new_cursor sl n)))"
    "rest (snd (seek (SeekStart p) (new_cursor sl n))) = drop (unat p) (flat sl)"
    "pos (snd (seek (SeekStart p) (new_cursor sl n))) = unat p"
  using seek_spec [OF new_cursor_ok [OF assms]]
  by (simp_all add: rest_def seek_target_def, simp add: new_cursor_def)

lemma read_half_at_eq:
  assumes "slices_ok (read_part b)"
  shows "read_half_at m b p n =
    (if n \<le> span (read_part b) - unat p then Some (map m (take n (drop (unat p) (flat (read_part b))))) else None)"
  using read_exact_spec [OF seek_start(1) [OF assms, of p "read_len b"], of n m]
  by (auto simp: read_half_at_def reader_def seek_start [OF assms] split: option.splits)

lemma write_half_at_eq:
  assumes "slices_ok (write_part b)"
  shows "write_half_at m b p bs =
    (if length bs \<le> span (write_part b) - unat p
     then Some (write_at (take (length bs) (drop (unat p) (flat (write_part b)))) bs m,
       b\<lparr> bytes_written := if bs = [] then bytes_written b else max (bytes_written b) (unat p + length bs) \<rparr>)
     else None)"
  using write_all_spec [OF seek_start(1) [OF assms, of p "write_len b"], of bs m "bytes_written b"]
  by (auto simp: write_half_at_def writer_def seek_start [OF assms] split: option.splits)

text \<open>
  C37. The halves of a buffer with no empty descriptor are flat sequences of bytes: \<open>read_exact\<close> from
  position \<open>p\<close> returns the bytes of guest memory at the addresses \<open>p\<close>, \<open>p + 1\<close>, \<dots> of the descriptors
  in order, across their boundaries, when the half has that many and fails otherwise; \<open>write_all\<close> writes
  exactly those addresses of the other half, nothing else in memory, and the number of bytes reported in
  the used ring is the furthest position written.
\<close>

theorem buffer_halves:
  assumes "slices_ok (read_part b)" "slices_ok (write_part b)"
  shows "read_half_at m b p n =
      (if n \<le> span (read_part b) - unat p then Some (map m (take n (drop (unat p) (flat (read_part b))))) else None)
    \<and> write_half_at m b p bs =
      (if length bs \<le> span (write_part b) - unat p
       then Some (write_at (take (length bs) (drop (unat p) (flat (write_part b)))) bs m,
         b\<lparr> bytes_written := if bs = [] then bytes_written b else max (bytes_written b) (unat p + length bs) \<rparr>)
       else None)
    \<and> (\<forall>a. a \<notin> set (take (length bs) (drop (unat p) (flat (write_part b)))) \<longrightarrow>
        (\<forall>m' b'. write_half_at m b p bs = Some (m', b') \<longrightarrow> m' a = m a))"
  using write_half_at_eq [OF assms(2), of m p bs] read_half_at_eq [OF assms(1), of m p n]
  by (auto simp: write_at_other split: if_splits)

definition sample_buffer :: Buffer where
  "sample_buffer = \<lparr> head_idx = 3, bytes_written = 0, read_part = [(16, 2), (32, 3)], write_part = [(48, 1), (64, 2)],
     read_len = 5, write_len = 3 \<rparr>"

theorem buffer_halves_witness:
  "slices_ok (read_part sample_buffer) \<and> slices_ok (write_part sample_buffer) \<and>
   read_half_at ((\<lambda>a. 0)(17 := 5, 32 := 6)) sample_buffer 1 3 = Some [5, 6, 0] \<and>
   (\<exists>m. write_half_at (\<lambda>a. 0) sample_buffer 0 [7, 8] = Some (m, sample_buffer\<lparr> bytes_written := 2 \<rparr>)
     \<and> m 48 = 7 \<and> m 64 = 8 \<and> m 65 = 0) \<and> write_half_at (\<lambda>a. 0) sample_buffer 2 [7, 8] = None"
proof -
  have ok: "slices_ok (read_part sample_buffer)" "slices_ok (write_part sample_buffer)"
    by (simp_all add: sample_buffer_def slices_ok_def)
  have f: "flat (read_part sample_buffer) = [16, 17, 32, 33, 34]" "flat (write_part sample_buffer) = [48, 64, 65]"
    "span (read_part sample_buffer) = 5" "span (write_part sample_buffer) = 3"
    by (simp_all add: sample_buffer_def numeral_2_eq_2 numeral_3_eq_3)
  have z: "bytes_written sample_buffer = 0" by (simp add: sample_buffer_def)
  have r: "read_half_at ((\<lambda>a. 0)(17 := 5, 32 := 6)) sample_buffer 1 3 = Some [5, 6, 0]"
    using buffer_halves [OF ok, THEN conjunct1, of "(\<lambda>a. 0)(17 := 5, 32 := 6)" 1 3]
    by (simp add: f numeral_3_eq_3)
  have w: "write_half_at (\<lambda>a. 0) sample_buffer 0 [7, 8]
      = Some ((\<lambda>a. 0)(48 := 7, 64 := 8), sample_buffer\<lparr> bytes_written := 2 \<rparr>)"
    using buffer_halves [OF ok, of "\<lambda>a. 0" 0 0 "[7, 8]"] by (simp add: f z)
  have "write_half_at (\<lambda>a. 0) sample_buffer 2 [7, 8] = None"
    using buffer_halves [OF ok, of "\<lambda>a. 0" 2 0 "[7, 8]"] by (simp add: f z)
  then show ?thesis using ok r w by simp
qed

section \<open>The chain of descriptors\<close>

text \<open>Rings and table have \<open>num\<close> entries, a power of two; an index stands for its remainder.\<close>

definition queue_num_ok :: "QueueInner \<Rightarrow> bool" where
  "queue_num_ok q \<longleftrightarrow> (\<exists>k < 16. num q = 2 ^ k)"

definition slot :: "QueueInner \<Rightarrow> u16 \<Rightarrow> nat" where
  "slot q i = unat i mod unat (num q)"

definition desc_entry :: "memory \<Rightarrow> QueueInner \<Rightarrow> nat \<Rightarrow> VirtqDesc" where
  "desc_entry m q j =
    (let a = desc_addr q + of_nat (16 * j) in
     \<lparr> d_addr = load_bytes 8 m a, d_len = ucast (load_bytes 4 m (a + 8)),
       d_flags = ucast (load_bytes 2 m (a + 12)), d_next = ucast (load_bytes 2 m (a + 14)) \<rparr>)"

definition avail_entry :: "memory \<Rightarrow> QueueInner \<Rightarrow> nat \<Rightarrow> u16" where
  "avail_entry m q j = ucast (load_bytes 2 m (avail_addr q + of_nat (4 + 2 * j)))"

text \<open>The indices of a chain that ends.\<close>

inductive desc_chain :: "memory \<Rightarrow> QueueInner \<Rightarrow> u16 list \<Rightarrow> bool" for m q where
  chain_end: "\<not> bit (d_flags (desc_entry m q (slot q i))) 0 \<Longrightarrow> desc_chain m q [i]"
| chain_next: "bit (d_flags (desc_entry m q (slot q i))) 0 \<Longrightarrow> desc_chain m q (d_next (desc_entry m q (slot q i)) # is)
    \<Longrightarrow> desc_chain m q (i # d_next (desc_entry m q (slot q i)) # is)"

inductive_cases desc_chain_Cons: "desc_chain m q (i # is)"

lemma slot_eq:
  assumes "queue_num_ok q"
  shows "ucast (i AND (num q - 1)) = (of_nat (slot q i) :: u64)"
proof -
  obtain k where k: "k < 16" "num q = 2 ^ k" using assms by (auto simp: queue_num_ok_def)
  then have u: "unat (num q) = 2 ^ k" by (simp add: unat_pow2)
  have "i AND (num q - 1) = take_bit k i" by (simp add: k(2) take_bit_eq_mask mask_eq_decr_exp)
  then have "unat (i AND (num q - 1)) = slot q i"
    by (simp only: slot_def u unsigned_take_bit_eq) (simp only: take_bit_eq_mod)
  then show ?thesis by (metis of_nat_unat)
qed

lemma slot_less: "queue_num_ok q \<Longrightarrow> slot q i < unat (num q)"
  by (auto simp: slot_def queue_num_ok_def unat_gt_0 intro!: mod_less_divisor)

lemma read_desc_entry: "queue_num_ok q \<Longrightarrow> read_desc m q i = desc_entry m q (slot q i)"
  by (simp add: read_desc_def desc_entry_def slot_eq Let_def mult.commute)

lemma chain_determined:
  "desc_chain m q is \<Longrightarrow> desc_chain m q js \<Longrightarrow> slot q (hd is) = slot q (hd js) \<Longrightarrow> tl is = tl js"
proof (induction arbitrary: js rule: desc_chain.induct)
  case (chain_end i)
  then show ?case by (cases js) (auto elim: desc_chain_Cons)
next
  case (chain_next i "is")
  from chain_next(4) show ?case
  proof cases
    case (chain_end j)
    then show ?thesis using chain_next(1,5) by simp
  next
    case more: (chain_next j js')
    then show ?thesis using chain_next(3) [OF more(3)] chain_next(5) by simp
  qed
qed

lemma chain_suffix: "desc_chain m q (is @ j # js) \<Longrightarrow> desc_chain m q (j # js)"
  by (induction "is @ j # js" arbitrary: "is" rule: desc_chain.induct)
    (auto simp: Cons_eq_append_conv append_eq_Cons_conv intro: desc_chain.intros)

lemma chain_distinct: "desc_chain m q is \<Longrightarrow> distinct (map (slot q) is)"
proof (induction rule: desc_chain.induct)
  case (chain_next i "is")
  let ?js = "d_next (desc_entry m q (slot q i)) # is"
  have "slot q i \<notin> slot q ` set ?js"
  proof
    assume "slot q i \<in> slot q ` set ?js"
    then obtain j xs ys where j: "?js = xs @ j # ys" "slot q i = slot q j"
      by (metis imageE split_list)
    then have "desc_chain m q (j # ys)" using chain_next(2) chain_suffix by metis
    then have "?js = ys"
      using chain_determined [OF desc_chain.chain_next [OF chain_next(1,2)]] j(2) by fastforce
    then show False using j(1) by (metis append_eq_append_conv2 append_self_conv2 list.discI same_append_eq append.assoc length_append length_Cons add_diff_cancel_right' not_add_less2 lessI)
  qed
  then show ?case using chain_next(3) by simp
qed simp

lemma chain_length:
  assumes "queue_num_ok q" "desc_chain m q is"
  shows "length is \<le> unat (num q)"
proof -
  have "length is = card (set (map (slot q) is))"
    using distinct_card [OF chain_distinct [OF assms(2)]] by simp
  also have "\<dots> \<le> card {..< unat (num q)}" using slot_less [OF assms(1)] by (intro card_mono) auto
  finally show ?thesis by simp
qed

section \<open>Taking a chain\<close>

definition chain_buffer :: "memory \<Rightarrow> QueueInner \<Rightarrow> u16 list \<Rightarrow> Buffer" where
  "chain_buffer m q is =
    (let ds = map (\<lambda>i. desc_entry m q (slot q i)) is;
         part = (\<lambda>P. map (\<lambda>d. (d_addr d, unat (d_len d))) (filter P ds));
         rd = part (\<lambda>d. \<not> bit (d_flags d) 1);
         wr = part (\<lambda>d. bit (d_flags d) 1)
     in \<lparr> head_idx = hd is, bytes_written = 0, read_part = rd, write_part = wr,
          read_len = span rd, write_len = span wr \<rparr>)"

lemma and_1_bit: "(w :: u16) AND 1 = 0 \<longleftrightarrow> \<not> bit w 0" "w AND 2 = 0 \<longleftrightarrow> \<not> bit w 1"
  using and_exp_eq_0_iff_not_bit [of w 0] and_exp_eq_0_iff_not_bit [of w 1] by simp_all

lemma take_loop_chain:
  assumes "queue_num_ok q"
  shows "desc_chain m q is \<Longrightarrow>
    take_loop m q (hd is) b = Some (foldl (\<lambda>b i. add_desc (desc_entry m q (slot q i)) b) b is)"
proof (induction arbitrary: b rule: desc_chain.induct)
  case (chain_end i)
  then show ?case by (subst take_loop.simps) (simp add: Let_def read_desc_entry assms and_1_bit)
next
  case (chain_next i "is")
  then show ?case by (subst take_loop.simps) (simp add: Let_def read_desc_entry assms and_1_bit)
qed

lemma take_loop_ends:
  assumes "take_loop m q i b = Some b'" "queue_num_ok q"
  shows "\<exists>is. desc_chain m q (i # is)"
proof -
  have "queue_num_ok q \<longrightarrow> (\<exists>is. desc_chain m q (i # is))"
  proof (rule take_loop.raw_induct [OF _ assms(1)])
    fix f m q i b b'
    assume ih: "\<And>m q i b b'. f m q i b = Some b' \<Longrightarrow> queue_num_ok q \<longrightarrow> (\<exists>is. desc_chain m q (i # is))"
      and st: "(let desc = read_desc m q i; avail = add_desc desc b
        in if d_flags desc AND 1 = 0 then Some avail else f m q (d_next desc) avail) = Some b'"
    show "queue_num_ok q \<longrightarrow> (\<exists>is. desc_chain m q (i # is))"
    proof
      assume q: "queue_num_ok q"
      let ?d = "desc_entry m q (slot q i)"
      have st: "(if bit (d_flags ?d) 0 then f m q (d_next ?d) (add_desc ?d b) else Some (add_desc ?d b)) = Some b'"
        using st by (cases "bit (d_flags ?d) 0") (simp_all add: Let_def read_desc_entry [OF q] and_1_bit)
      show "\<exists>is. desc_chain m q (i # is)"
      proof (cases "bit (d_flags ?d) 0")
        case True
        then obtain "is" where "desc_chain m q (d_next ?d # is)" using st ih [of m q "d_next ?d"] q by auto
        then show ?thesis using True desc_chain.chain_next by blast
      next
        case False
        then show ?thesis using desc_chain.chain_end by blast
      qed
    qed
  qed
  then show ?thesis using assms(2) by simp
qed

lemma add_descs_parts:
  "foldl (\<lambda>b i. add_desc (D i) b) b is =
    (if is = [] then b else
     (let part = (\<lambda>P. map (\<lambda>d. (d_addr d, unat (d_len d))) (filter P (map D is)));
         rd = read_part b @ part (\<lambda>d. \<not> bit (d_flags d) 1);
         wr = write_part b @ part (\<lambda>d. bit (d_flags d) 1)
     in b\<lparr> read_part := rd, write_part := wr, read_len := span rd, write_len := span wr \<rparr>))"
proof (induction "is" arbitrary: b)
  case (Cons i "is")
  then show ?case
    by (cases "is = []") (simp_all add: add_desc_def and_1_bit Let_def span_def)
qed simp

lemma chain_nonempty: "desc_chain m q is \<Longrightarrow> is \<noteq> []"
  by (induction rule: desc_chain.induct) simp_all

lemma take_loop_buffer:
  assumes "queue_num_ok q" "desc_chain m q is" "i = hd is"
  shows "take_loop m q i \<lparr> head_idx = i, bytes_written = 0, read_part = [], write_part = [],
    read_len = 0, write_len = 0 \<rparr> = Some (chain_buffer m q is)"
  unfolding assms(3) take_loop_chain [OF assms(1,2)] using chain_nonempty [OF assms(2)]
  by (simp add: add_descs_parts chain_buffer_def Let_def)

lemma desc_chain_ends: "desc_chain m q is \<Longrightarrow> \<exists>i. \<not> bit (d_flags (desc_entry m q (slot q i))) 0"
  by (induction rule: desc_chain.induct) auto

lemma chain_frame:
  assumes "desc_chain m q is" "num q' = num q" "desc_addr q' = desc_addr q"
  shows "desc_chain m q' is" "chain_buffer m q' is = chain_buffer m q is"
proof -
  have e: "slot q' = slot q" "desc_entry m q' = desc_entry m q"
    by (simp_all add: fun_eq_iff slot_def desc_entry_def assms)
  show "desc_chain m q' is"
    using assms(1) by induction (metis e desc_chain.intros)+
  show "chain_buffer m q' is = chain_buffer m q is" by (simp add: chain_buffer_def e)
qed

definition avail_index :: "memory \<Rightarrow> QueueInner \<Rightarrow> u16" where
  "avail_index m q = ucast (load_bytes 2 m (avail_addr q + 2))"

definition next_chain :: "memory \<Rightarrow> QueueInner \<Rightarrow> u16 list \<Rightarrow> bool" where
  "next_chain m q is \<longleftrightarrow> desc_chain m q is \<and> hd is = avail_entry m q (slot q (last_avail_idx q))"

lemma try_take_new:
  assumes "queue_num_ok q" "ready q" "last_avail_idx q \<noteq> avail_index m q"
  shows "next_chain m q is \<Longrightarrow> try_take m q = Some (Taken (chain_buffer m q is), q\<lparr> last_avail_idx := last_avail_idx q + 1 \<rparr>)"
    "\<nexists>is. next_chain m q is \<Longrightarrow> try_take m q = None"
proof -
  let ?q = "q\<lparr> last_avail_idx := last_avail_idx q + 1 \<rparr>"
  define i where "i = avail_entry m q (slot q (last_avail_idx q))"
  have q: "queue_num_ok ?q" using assms(1) by (simp add: queue_num_ok_def)
  have i: "ucast (load_bytes 2 m (avail_addr q + 4 + ucast (last_avail_idx q AND (num q - 1)) * 2)) = i"
    by (simp add: slot_eq [OF assms(1)] i_def avail_entry_def algebra_simps)
  have t: "try_take m q = map_option (\<lambda>b. (Taken b, ?q)) (take_loop m ?q i
      \<lparr> head_idx = i, bytes_written = 0, read_part = [], write_part = [], read_len = 0, write_len = 0 \<rparr>)"
    using assms(2,3) by (simp add: try_take_def Let_def avail_index_def i)
  show "try_take m q = Some (Taken (chain_buffer m q is), ?q)" if "next_chain m q is"
  proof -
    have "desc_chain m q is" "i = hd is" using that by (simp_all add: next_chain_def i_def)
    then show ?thesis using take_loop_buffer [OF q chain_frame(1)] chain_frame(2) [of m q "is" ?q] t by simp
  qed
  show "try_take m q = None" if n: "\<nexists>is. next_chain m q is"
  proof (rule ccontr)
    assume "try_take m q \<noteq> None"
    then obtain b' where "take_loop m ?q i \<lparr> head_idx = i, bytes_written = 0, read_part = [], write_part = [],
      read_len = 0, write_len = 0 \<rparr> = Some b'" using t by auto
    then obtain "is" where "desc_chain m ?q (i # is)" using take_loop_ends [OF _ q] by blast
    then have "desc_chain m q (i # is)" by (rule chain_frame) simp_all
    then show False using n by (auto simp: next_chain_def i_def)
  qed
qed

text \<open>
  C38. Taking a buffer from a queue whose size is a power of two: a buffer is returned exactly when the
  queue is ready, the driver has published an index that was not taken, and the chain of descriptors
  that the next entry of the available ring starts comes to an end. The chain then has at most \<open>num\<close>
  descriptors, the buffer's halves are those of its descriptors that the device reads and writes, in
  order, and the index of the ring advances by one, at 16 bits. \<open>try_take\<close> does not return exactly when
  the chain the ring entry starts has no end.
\<close>

theorem try_take_chain:
  assumes "queue_num_ok q"
  shows "(try_take m q = Some (Taken b, q') \<longleftrightarrow>
      ready q \<and> last_avail_idx q \<noteq> avail_index m q \<and> q' = q\<lparr> last_avail_idx := last_avail_idx q + 1 \<rparr> \<and>
      (\<exists>is. next_chain m q is \<and> length is \<le> unat (num q) \<and> b = chain_buffer m q is)) \<and>
    (try_take m q = None \<longleftrightarrow>
      ready q \<and> last_avail_idx q \<noteq> avail_index m q \<and> (\<nexists>is. next_chain m q is))"
proof (cases "ready q \<and> last_avail_idx q \<noteq> avail_index m q")
  case True
  show ?thesis
  proof (cases "\<exists>is. next_chain m q is")
    case c: True
    then obtain "is" where i: "next_chain m q is" by blast
    have one: "js = is" if "next_chain m q js" for js
      using that i chain_determined [of m q js "is"] chain_nonempty by (metis next_chain_def list.collapse)
    have "length is \<le> unat (num q)" using i chain_length [OF assms] unfolding next_chain_def by blast
    then have ex: "(\<exists>js. next_chain m q js \<and> length js \<le> unat (num q) \<and> b = chain_buffer m q js)
        \<longleftrightarrow> b = chain_buffer m q is"
      using i one by blast
    have t: "try_take m q = Some (Taken (chain_buffer m q is), q\<lparr> last_avail_idx := last_avail_idx q + 1 \<rparr>)"
      using try_take_new(1) [OF assms _ _ i] True by blast
    show ?thesis unfolding ex t using True c by auto
  next
    case False
    then show ?thesis using try_take_new(2) [OF assms] True by auto
  qed
qed (auto simp: try_take_def Let_def avail_index_def)

definition sample_queue :: QueueInner where
  "sample_queue = (new_queue 2)\<lparr> ready := True, desc_addr := 256, avail_addr := 512, used_addr := 768 \<rparr>"

definition sample_memory :: memory where
  "sample_memory = (\<lambda>_. 0)(514 := 1, 257 := 16, 264 := 16, 268 := 1, 270 := 1, 273 := 32, 280 := 1, 284 := 2)"

theorem try_take_chain_witness:
  "queue_num_ok sample_queue \<and>
   try_take sample_memory sample_queue =
     Some (Taken \<lparr> head_idx = 0, bytes_written = 0, read_part = [(4096, 16)], write_part = [(8192, 1)],
       read_len = 16, write_len = 1 \<rparr>, sample_queue\<lparr> last_avail_idx := 1 \<rparr>)"
proof -
  have ok: "queue_num_ok sample_queue" by (auto simp: queue_num_ok_def sample_queue_def new_queue_def intro: exI [of _ 1])
  have e: "desc_entry sample_memory sample_queue 0 = \<lparr> d_addr = 4096, d_len = 16, d_flags = 1, d_next = 1 \<rparr>"
    "desc_entry sample_memory sample_queue 1 = \<lparr> d_addr = 8192, d_len = 1, d_flags = 2, d_next = 0 \<rparr>"
    by code_simp+
  have s: "slot sample_queue 0 = 0" "slot sample_queue 1 = 1" by code_simp+
  have a: "avail_entry sample_memory sample_queue 0 = 0" "avail_index sample_memory sample_queue = 1" by code_simp+
  have q: "ready sample_queue" "last_avail_idx sample_queue = 0" "num sample_queue = 2"
    by (simp_all add: sample_queue_def new_queue_def)
  have "desc_chain sample_memory sample_queue [0, 1]"
    using desc_chain.chain_next [of sample_memory sample_queue 0 "[]"] desc_chain.chain_end [of sample_memory sample_queue 1]
    by (simp add: e s bit_0 del: One_nat_def)
  then have c: "next_chain sample_memory sample_queue [0, 1]" by (simp add: next_chain_def q a s)
  have b: "chain_buffer sample_memory sample_queue [0, 1] = \<lparr> head_idx = 0, bytes_written = 0,
    read_part = [(4096, 16)], write_part = [(8192, 1)], read_len = 16, write_len = 1 \<rparr>"
    by (simp add: chain_buffer_def Let_def s e [unfolded One_nat_def] span_def)
  have "try_take sample_memory sample_queue = Some (Taken (chain_buffer sample_memory sample_queue [0, 1]),
    sample_queue\<lparr> last_avail_idx := last_avail_idx sample_queue + 1 \<rparr>)"
    using try_take_chain [OF ok, of sample_memory "chain_buffer sample_memory sample_queue [0, 1]"] c q a by auto
  then show ?thesis using ok b q(2) by simp
qed

text \<open>Two consequences of the code: a descriptor that points to itself is followed for ever, and an
  empty descriptor ends a transfer that the next one could have served.\<close>

lemma try_take_cycle:
  "try_take ((\<lambda>_. 0)(514 := 1, 268 := 1)) (sample_queue\<lparr> num := 1 \<rparr>) = None"
proof -
  let ?q = "sample_queue\<lparr> num := 1 \<rparr>" and ?m = "(\<lambda>_. 0)(514 := 1, 268 := 1) :: memory"
  have ok: "queue_num_ok ?q" by (auto simp: queue_num_ok_def intro: exI [of _ 0])
  have b: "bit (d_flags (desc_entry ?m ?q 0)) 0" by code_simp
  have s: "slot ?q i = 0" for i by (simp add: slot_def)
  have "\<nexists>is. next_chain ?m ?q is"
    unfolding next_chain_def using desc_chain_ends [of ?m ?q] b s by metis
  moreover have "avail_index ?m ?q = 1" by code_simp
  ultimately show ?thesis
    by (intro try_take_new(2) ok) (simp_all add: sample_queue_def new_queue_def)
qed

lemma read_empty_descriptor:
  "read_half_at m (sample_buffer\<lparr> read_part := [(16, 0), (32, 4)], read_len := 4 \<rparr>) 0 1 = None"
  by (simp add: read_half_at_def reader_def new_cursor_def seek_def seek_target_def read_exact.simps
      buffer_read_def advance_def dma_read_def)

end
