(* ===== verification/Virtio_Mmio.thy ===== *)
theory Virtio_Mmio
  imports Virtio_Queue
begin

text \<open>
  Virtio devices behind the MMIO transport, \<open>lib/io/src/hw/virtio/mmio.rs\<close> and the trait \<open>Device\<close> of
  \<open>virtio/mod.rs\<close>, with the device sides of \<open>block.rs\<close>, \<open>rng.rs\<close>, \<open>console.rs\<close>, \<open>p9.rs\<close> and
  \<open>network.rs\<close>.

  \<^item> The trait is a record of functions on the device's own state. Register offsets and \<open>usize\<close> are \<open>nat\<close>.
  \<^item> A queue is shared between the transport and the tasks of the device, and a reset replaces the
    transport's: queues live in a heap, the transport and the tasks hold their indices.
  \<^item> A write returns the tasks it wakes; \<open>None\<close> is the panic of \<open>unreachable!()\<close>.
  \<^item> A device records the tasks it spawns, with the queue each works on.
\<close>

section \<open>The trait\<close>

datatype (plugins only: code size) DeviceId = DevReserved | DevNetwork | DevBlock | DevConsole | DevEntropy | DevP9

definition device_id_number :: "DeviceId \<Rightarrow> u32" where
  "device_id_number i =
    (case i of DevReserved \<Rightarrow> 0 | DevNetwork \<Rightarrow> 1 | DevBlock \<Rightarrow> 2 | DevConsole \<Rightarrow> 3 | DevEntropy \<Rightarrow> 4 | DevP9 \<Rightarrow> 9)"

record 'd Device =
  device_id :: DeviceId
  device_feature :: "'d \<Rightarrow> u32"
  driver_feature :: "u32 \<Rightarrow> 'd \<Rightarrow> 'd"
  get_status :: "'d \<Rightarrow> u32"
  set_status :: "u32 \<Rightarrow> 'd \<Rightarrow> 'd"
  config_space :: "'d \<Rightarrow> u8 list"
  num_queues :: nat
  max_queue_len :: "nat \<Rightarrow> u16"
  dev_reset :: "'d \<Rightarrow> 'd"
  queue_ready :: "nat \<Rightarrow> nat \<Rightarrow> 'd \<Rightarrow> 'd"
  interrupt_status :: "'d \<Rightarrow> u32"
  interrupt_ack :: "u32 \<Rightarrow> 'd \<Rightarrow> 'd"

definition le_value :: "u8 list \<Rightarrow> u64" where
  "le_value bs = foldr (\<lambda>b v. ucast b + 256 * v) bs 0"

definition config_read :: "'d Device \<Rightarrow> nat \<Rightarrow> nat \<Rightarrow> 'd \<Rightarrow> u64" where
  "config_read dev offset sz d =
    (let config = config_space dev d in
     if length config < offset + sz then 0
     else let slice = take sz (drop offset config) in
       if sz = 8 \<or> sz = 4 \<or> sz = 2 then le_value slice else ucast (hd slice))"

section \<open>The transport\<close>

record 'd Mmio =
  device :: 'd
  queues :: "nat list"
  device_features_sel :: bool
  driver_features_sel :: bool
  queue_sel :: nat
  queue_heap :: "QueueInner list"

definition mmio_new :: "'d Device \<Rightarrow> 'd \<Rightarrow> 'd Mmio" where
  "mmio_new dev d =
    \<lparr> device = d, queues = [0..<num_queues dev], device_features_sel = False, driver_features_sel = False,
      queue_sel = 0, queue_heap = map (\<lambda>i. new_queue (max_queue_len dev i)) [0..<num_queues dev] \<rparr>"

definition selected :: "'d Mmio \<Rightarrow> QueueInner" where
  "selected s = queue_heap s ! (queues s ! queue_sel s)"

definition queue_reg_read :: "nat \<Rightarrow> QueueInner \<Rightarrow> u32 option" where
  "queue_reg_read addr q =
    (if addr = 0x38 then Some (ucast (num q))
     else if addr = 0x44 then Some (if ready q then 1 else 0)
     else if addr = 0x80 then Some (ucast (desc_addr q))
     else if addr = 0x84 then Some (ucast (drop_bit 32 (desc_addr q)))
     else if addr = 0x90 then Some (ucast (avail_addr q))
     else if addr = 0x94 then Some (ucast (drop_bit 32 (avail_addr q)))
     else if addr = 0xa0 then Some (ucast (used_addr q))
     else if addr = 0xa4 then Some (ucast (drop_bit 32 (used_addr q)))
     else None)"

definition mmio_read :: "'d Device \<Rightarrow> nat \<Rightarrow> nat \<Rightarrow> 'd Mmio \<Rightarrow> u64 option" where
  "mmio_read dev addr sz s =
    (if 0x100 \<le> addr then Some (config_read dev (addr - 0x100) sz (device s))
     else if sz \<noteq> 4 then Some 0
     else map_option (\<lambda>ret. ucast (ret :: u32))
      (if addr = 0 then Some 0x74726976
       else if addr = 4 then Some 2
       else if addr = 8 then Some (device_id_number (device_id dev))
       else if addr = 0xc then Some 0xffff
       else if addr = 0x10 then Some (if device_features_sel s then 1 else device_feature dev (device s))
       else if addr = 0x14 then Some (if device_features_sel s then 1 else 0)
       else if addr = 0x24 then Some (if driver_features_sel s then 1 else 0)
       else if addr = 0x30 then Some (of_nat (queue_sel s))
       else if addr = 0x34 then
         Some (if queue_sel s < length (queues s) then ucast (num_max (selected s)) else 0)
       else if addr = 0x38 \<or> addr = 0x44 \<or> 0x80 \<le> addr \<and> addr \<le> 0xa4 then
         (if num_queues dev \<le> queue_sel s then Some 0 else queue_reg_read addr (selected s))
       else if addr = 0x60 then Some (interrupt_status dev (device s))
       else if addr = 0x70 then Some (get_status dev (device s))
       else Some 0))"

text \<open>\<open>u32::is_power_of_two\<close>\<close>

definition is_power_of_two :: "u32 \<Rightarrow> bool" where
  "is_power_of_two v = list_ex (\<lambda>k. v = 2 ^ k) [0..<32]"

definition set_low :: "u64 \<Rightarrow> u32 \<Rightarrow> u64" where
  "set_low a v = (a AND NOT 0xffffffff) OR ucast v"

definition set_high :: "u64 \<Rightarrow> u32 \<Rightarrow> u64" where
  "set_high a v = (a AND 0xffffffff) OR push_bit 32 (ucast v)"

definition queue_reg_write :: "nat \<Rightarrow> u32 \<Rightarrow> QueueInner \<Rightarrow> QueueInner option" where
  "queue_reg_write addr value q =
    (if addr = 0x38 then
       Some (if is_power_of_two value \<and> value \<le> ucast (num_max q) then q\<lparr> num := ucast value \<rparr> else q)
     else if addr = 0x44 then Some (q\<lparr> ready := value AND 1 \<noteq> 0 \<rparr>)
     else if addr = 0x80 then Some (q\<lparr> desc_addr := set_low (desc_addr q) value \<rparr>)
     else if addr = 0x84 then Some (q\<lparr> desc_addr := set_high (desc_addr q) value \<rparr>)
     else if addr = 0x90 then Some (q\<lparr> avail_addr := set_low (avail_addr q) value \<rparr>)
     else if addr = 0x94 then Some (q\<lparr> avail_addr := set_high (avail_addr q) value \<rparr>)
     else if addr = 0xa0 then Some (q\<lparr> used_addr := set_low (used_addr q) value \<rparr>)
     else if addr = 0xa4 then Some (q\<lparr> used_addr := set_high (used_addr q) value \<rparr>)
     else None)"

definition update_queue :: "nat \<Rightarrow> QueueInner \<Rightarrow> 'd Mmio \<Rightarrow> 'd Mmio" where
  "update_queue r q s = s\<lparr> queue_heap := (queue_heap s)[r := q] \<rparr>"

text \<open>The loop of a reset, from queue \<open>i\<close> on: the queue is reset, its waker is taken, a new one replaces it.\<close>

function reset_queues :: "'d Device \<Rightarrow> nat \<Rightarrow> 'd Mmio \<Rightarrow> nat list \<times> 'd Mmio" where
  "reset_queues dev i s =
    (if i < length (queues s) then
       (let r = queues s ! i;
            q = reset_queue (queue_heap s ! r);
            woken = (case waker q of None \<Rightarrow> [] | Some t \<Rightarrow> [t]);
            s = update_queue r (q\<lparr> waker := None \<rparr>) s;
            s = s\<lparr> queue_heap := queue_heap s @ [new_queue (max_queue_len dev i)],
                   queues := (queues s)[i := length (queue_heap s)] \<rparr>;
            (woken', s) = reset_queues dev (i + 1) s
        in (woken @ woken', s))
     else ([], s))"
  by pat_completeness auto
termination by (relation "measure (\<lambda>(dev, i, s). length (queues s) - i)") (auto simp: update_queue_def)

definition mmio_write :: "'d Device \<Rightarrow> nat \<Rightarrow> u64 \<Rightarrow> nat \<Rightarrow> 'd Mmio \<Rightarrow> (nat list \<times> 'd Mmio) option" where
  "mmio_write dev addr value64 sz s =
    (if 0x100 \<le> addr then Some ([], s)
     else if sz \<noteq> 4 then Some ([], s)
     else let value = ucast value64 :: u32 in
       if addr = 0x14 then
         Some ([], if value = 0 then s\<lparr> device_features_sel := False \<rparr>
                   else if value = 1 then s\<lparr> device_features_sel := True \<rparr> else s)
       else if addr = 0x20 then
         Some ([], if driver_features_sel s then s
                   else s\<lparr> device := driver_feature dev (value AND 0xffffff) (device s) \<rparr>)
       else if addr = 0x24 then
         Some ([], if value = 0 then s\<lparr> driver_features_sel := False \<rparr>
                   else if value = 1 then s\<lparr> driver_features_sel := True \<rparr> else s)
       else if addr = 0x30 then Some ([], s\<lparr> queue_sel := unat value \<rparr>)
       else if addr = 0x50 then
         (if num_queues dev \<le> queue_sel s then Some ([], s)
          else let q = selected s in
            Some (case waker q of None \<Rightarrow> [] | Some t \<Rightarrow> [t],
                  update_queue (queues s ! queue_sel s) (q\<lparr> waker := None \<rparr>) s))
       else if 0x38 \<le> addr \<and> addr \<le> 0x44 \<or> 0x80 \<le> addr \<and> addr \<le> 0xa4 then
         (if num_queues dev \<le> queue_sel s then Some ([], s)
          else
            case queue_reg_write addr value (selected s) of
              None \<Rightarrow> None
            | Some q \<Rightarrow>
                let s = update_queue (queues s ! queue_sel s) q s in
                Some ([], if addr = 0x44 \<and> value AND 1 \<noteq> 0
                          then s\<lparr> device := queue_ready dev (queue_sel s) (queues s ! queue_sel s) (device s) \<rparr>
                          else s))
       else if addr = 0x64 then Some ([], s\<lparr> device := interrupt_ack dev value (device s) \<rparr>)
       else if addr = 0x70 then
         (if value = 0 then
            (let s = s\<lparr> device := dev_reset dev (device s) \<rparr>;
                 (woken, s) = reset_queues dev 0 s
             in Some (woken, s\<lparr> queue_sel := 0, device_features_sel := False, driver_features_sel := False \<rparr>))
          else Some ([], s\<lparr> device := set_status dev value (device s) \<rparr>))
       else Some ([], s))"

section \<open>The devices\<close>

datatype (plugins only: code size) virtio_task =
  BlockTask nat | RngTask nat | P9Task nat | RxTask nat | TxTask nat | ResizeTask

text \<open>\<open>Block\<close>, \<open>Rng\<close> and \<open>P9\<close> keep a status and a constant configuration space; \<open>spawned\<close> are the tasks
  that were started.\<close>

record SimpleDev =
  status :: u32
  config :: "u8 list"
  spawned :: "virtio_task list"

definition simple_device :: "DeviceId \<Rightarrow> u32 \<Rightarrow> (nat \<Rightarrow> virtio_task) \<Rightarrow> SimpleDev Device" where
  "simple_device i feat task =
    \<lparr> device_id = i, device_feature = (\<lambda>_. feat), driver_feature = (\<lambda>_ d. d), get_status = status,
      set_status = (\<lambda>v d. d\<lparr> status := v \<rparr>), config_space = config, num_queues = 1,
      max_queue_len = (\<lambda>_. 32768), dev_reset = (\<lambda>d. d\<lparr> status := 0 \<rparr>),
      queue_ready = (\<lambda>_ q d. d\<lparr> spawned := task q # spawned d \<rparr>),
      interrupt_status = (\<lambda>_. 1), interrupt_ack = (\<lambda>_ d. d) \<rparr>"

definition block_device :: "SimpleDev Device" where
  "block_device = simple_device DevBlock 0 BlockTask"

text \<open>\<open>Block::new\<close> for a disk of \<open>len\<close> bytes; \<open>None\<close> is its panic.\<close>

definition block_new :: "u64 \<Rightarrow> SimpleDev option" where
  "block_new len =
    (if len mod 512 \<noteq> 0 then None else Some \<lparr> status = 0, config = le_bytes 8 (len div 512), spawned = [] \<rparr>)"

definition rng_device :: "SimpleDev Device" where
  "rng_device = simple_device DevEntropy 0 RngTask"

definition rng_new :: SimpleDev where
  "rng_new = \<lparr> status = 0, config = [], spawned = [] \<rparr>"

definition p9_device :: "SimpleDev Device" where
  "p9_device = simple_device DevP9 1 P9Task"

definition p9_new :: "u8 list \<Rightarrow> SimpleDev option" where
  "p9_new mount_tag =
    (let tag_len = length mount_tag in
     if 65535 < tag_len then None
     else Some \<lparr> status = 0, config = [of_nat tag_len, of_nat (tag_len div 256)] @ mount_tag, spawned = [] \<rparr>)"

text \<open>\<open>Network\<close> and \<open>Console\<close> have a task that receives and can be aborted: \<open>aborted\<close> are those that were.\<close>

record DuplexDev = SimpleDev +
  rx_handle :: "virtio_task option"
  aborted :: "virtio_task list"
  resize :: bool
  config_changed :: bool

definition abort_rx :: "DuplexDev \<Rightarrow> DuplexDev" where
  "abort_rx d = (case rx_handle d of None \<Rightarrow> d | Some t \<Rightarrow> d\<lparr> rx_handle := None, aborted := t # aborted d \<rparr>)"

definition duplex_ready :: "nat \<Rightarrow> nat \<Rightarrow> DuplexDev \<Rightarrow> DuplexDev" where
  "duplex_ready idx q d =
    (if idx = 0 then (abort_rx d)\<lparr> rx_handle := Some (RxTask q), spawned := RxTask q # spawned d \<rparr>
     else d\<lparr> spawned := TxTask q # spawned d \<rparr>)"

definition network_device :: "DuplexDev Device" where
  "network_device =
    \<lparr> device_id = DevNetwork, device_feature = (\<lambda>_. push_bit 5 1), driver_feature = (\<lambda>_ d. d),
      get_status = status, set_status = (\<lambda>v d. d\<lparr> status := v \<rparr>), config_space = config, num_queues = 2,
      max_queue_len = (\<lambda>_. 32768), dev_reset = (\<lambda>d. abort_rx (d\<lparr> status := 0 \<rparr>)), queue_ready = duplex_ready,
      interrupt_status = (\<lambda>_. 1), interrupt_ack = (\<lambda>_ d. d) \<rparr>"

definition network_new :: "u8 list \<Rightarrow> DuplexDev" where
  "network_new mac =
    \<lparr> status = 0, config = mac, spawned = [], rx_handle = None, aborted = [], resize = False, config_changed = False \<rparr>"

definition console_device :: "DuplexDev Device" where
  "console_device =
    \<lparr> device_id = DevConsole, device_feature = (\<lambda>d. if resize d then push_bit 0 1 else 0), driver_feature = (\<lambda>_ d. d),
      get_status = status, set_status = (\<lambda>v d. d\<lparr> status := v \<rparr>), config_space = config, num_queues = 2,
      max_queue_len = (\<lambda>idx. if idx = 0 then 128 else 32768), dev_reset = (\<lambda>d. abort_rx (d\<lparr> status := 0 \<rparr>)),
      queue_ready = duplex_ready,
      interrupt_status = (\<lambda>d. if config_changed d then 3 else 1),
      interrupt_ack = (\<lambda>ack d. if ack AND 2 \<noteq> 0 then d\<lparr> config_changed := False \<rparr> else d) \<rparr>"

definition size_to_config :: "u16 \<Rightarrow> u16 \<Rightarrow> u8 list" where
  "size_to_config col row = le_bytes 2 (ucast col) @ le_bytes 2 (ucast row)"

text \<open>\<open>Console::new\<close>; \<open>window\<close> is the result of \<open>get_window_size\<close>.\<close>

definition console_new :: "bool \<Rightarrow> (u16 \<times> u16) option \<Rightarrow> DuplexDev" where
  "console_new resz window =
    (let (resz, (col, row)) = (if resz then (case window of Some v \<Rightarrow> (True, v) | None \<Rightarrow> (False, (0, 0))) else (False, (0, 0)))
     in \<lparr> status = 0, config = size_to_config col row, spawned = if resz then [ResizeTask] else [], rx_handle = None,
          aborted = [], resize = resz, config_changed = resz \<rparr>)"

definition console_resized :: "u16 \<Rightarrow> u16 \<Rightarrow> DuplexDev \<Rightarrow> DuplexDev" where
  "console_resized col row d = d\<lparr> config := size_to_config col row, config_changed := True \<rparr>"

section \<open>Every reachable state\<close>

definition queue_ok :: "QueueInner \<Rightarrow> bool" where
  "queue_ok q \<longleftrightarrow> queue_num_ok q \<and> num q \<le> num_max q \<and> (\<exists>k < 16. num_max q = 2 ^ k)"

definition mmio_ok :: "'d Device \<Rightarrow> 'd Mmio \<Rightarrow> bool" where
  "mmio_ok dev s \<longleftrightarrow>
    length (queues s) = num_queues dev \<and> distinct (queues s) \<and>
    (\<forall>r \<in> set (queues s). r < length (queue_heap s)) \<and> (\<forall>q \<in> set (queue_heap s). queue_ok q)"

text \<open>What the transport relies on: a device's queues have a power of two for their size.\<close>

definition queue_lens_ok :: "'d Device \<Rightarrow> bool" where
  "queue_lens_ok dev \<longleftrightarrow> (\<forall>i < num_queues dev. \<exists>k < 16. max_queue_len dev i = 2 ^ k)"

text \<open>
  The guest writes registers, the tasks of the device take buffers from any queue they were given and put
  them back, with guest memory as it is at that time, and the device's state changes.
\<close>

inductive mmio_reachable :: "'d Device \<Rightarrow> 'd \<Rightarrow> 'd Mmio \<Rightarrow> bool" for dev d where
  mmio_start: "mmio_reachable dev d (mmio_new dev d)"
| guest_write: "mmio_reachable dev d s \<Longrightarrow> mmio_write dev addr value sz s = Some (woken, s') \<Longrightarrow> mmio_reachable dev d s'"
| task_take: "mmio_reachable dev d s \<Longrightarrow> r < length (queue_heap s) \<Longrightarrow> poll_take t m (queue_heap s ! r) = Some (b, q)
    \<Longrightarrow> mmio_reachable dev d (update_queue r q s)"
| task_put: "mmio_reachable dev d s \<Longrightarrow> r < length (queue_heap s)
    \<Longrightarrow> mmio_reachable dev d (update_queue r (snd (put b m (queue_heap s ! r))) s)"
| device_step: "mmio_reachable dev d s \<Longrightarrow> mmio_reachable dev d (s\<lparr> device := d' \<rparr>)"

lemma queue_ok_cong: "num q' = num q \<Longrightarrow> num_max q' = num_max q \<Longrightarrow> queue_ok q' = queue_ok q"
  by (simp add: queue_ok_def queue_num_ok_def)

lemma queue_ok_waker [simp]: "queue_ok (q\<lparr> waker := w \<rparr>) = queue_ok q"
  by (simp add: queue_ok_def queue_num_ok_def)

lemma new_queue_ok: "k < 16 \<Longrightarrow> n = 2 ^ k \<Longrightarrow> queue_ok (new_queue n)"
  by (auto simp: queue_ok_def queue_num_ok_def new_queue_def)

lemma reset_queue_ok: "queue_ok q \<Longrightarrow> queue_ok (reset_queue q)"
  by (auto simp: queue_ok_def queue_num_ok_def reset_queue_def)

lemma put_num: "num (snd (put b m q)) = num q" "num_max (snd (put b m q)) = num_max q"
  by (simp_all add: put_def Let_def)

lemma try_take_num: "try_take m q = Some (r, q') \<Longrightarrow> num q' = num q \<and> num_max q' = num_max q"
  by (auto simp: try_take_def Let_def split: if_splits)

lemma poll_take_num: "poll_take t m q = Some (r, q') \<Longrightarrow> num q' = num q \<and> num_max q' = num_max q"
  by (auto simp: poll_take_def dest: try_take_num split: option.splits prod.splits taken.splits)

lemma power_of_two_fits:
  assumes "is_power_of_two v" "v \<le> ucast (n :: u16)"
  shows "\<exists>k < 16. ucast v = (2 :: u16) ^ k" "ucast v \<le> n"
proof -
  obtain k where k: "k < 32" "v = 2 ^ k" using assms(1) by (auto simp: is_power_of_two_def list_ex_iff)
  then have u: "unat v = 2 ^ k" by (simp add: unat_pow2)
  have le: "unat v \<le> unat n" using assms(2) order_trans [OF _ take_bit_nat_less_eq_self [of 32 "unat n"]]
    by (simp add: word_le_nat_alt unsigned_ucast_eq)
  then have "(2 :: nat) ^ k < 2 ^ 16" using u order_le_less_trans [OF le unsigned_less] by simp
  then have k16: "k < 16" by (simp only: power_strict_increasing_iff)
  have c: "ucast v = (of_nat (2 ^ k) :: u16)" by (metis of_nat_unat u)
  then show "\<exists>k < 16. ucast v = (2 :: u16) ^ k" using k16 by auto
  have "unat (ucast v :: u16) = 2 ^ k" unfolding c using k16 unat_pow2 [where 'a = 16] by simp
  then show "ucast v \<le> n" using le u by (simp add: word_le_nat_alt)
qed

lemma queue_reg_write_ok: "queue_reg_write addr v q = Some q' \<Longrightarrow> queue_ok q \<Longrightarrow> queue_ok q'"
  using power_of_two_fits [of v "num_max q"]
  by (auto simp: queue_reg_write_def queue_ok_def queue_num_ok_def split: if_splits)

lemma update_queue_ok: "mmio_ok dev s \<Longrightarrow> queue_ok q \<Longrightarrow> mmio_ok dev (update_queue r q s)"
  using set_update_subset_insert [of "queue_heap s" r q] by (auto simp: mmio_ok_def update_queue_def)

lemma mmio_ok_cong: "queues s' = queues s \<Longrightarrow> queue_heap s' = queue_heap s \<Longrightarrow> mmio_ok dev s' = mmio_ok dev s"
  by (simp add: mmio_ok_def)

lemma replace_queue_ok:
  assumes "mmio_ok dev s" "queue_ok q"
  shows "mmio_ok dev (s\<lparr> queue_heap := queue_heap s @ [q], queues := (queues s)[i := length (queue_heap s)] \<rparr>)"
proof -
  have "length (queue_heap s) \<notin> set (queues s)" using assms(1) by (auto simp: mmio_ok_def)
  then have "distinct ((queues s)[i := length (queue_heap s)])"
    using assms(1) by (auto simp: mmio_ok_def intro: distinct_list_update)
  moreover have "\<forall>r \<in> set ((queues s)[i := length (queue_heap s)]). r < Suc (length (queue_heap s))"
    using assms(1) set_update_subset_insert [of "queues s" i] by (fastforce simp: mmio_ok_def)
  ultimately show ?thesis using assms by (auto simp: mmio_ok_def)
qed

declare reset_queues.simps [simp del]

lemma reset_queues_ok:
  assumes "queue_lens_ok dev"
  shows "mmio_ok dev s \<Longrightarrow> mmio_ok dev (snd (reset_queues dev i s))"
proof (induction "length (queues s) - i" arbitrary: i s rule: less_induct)
  case less
  show ?case
  proof (cases "i < length (queues s)")
    case True
    let ?r = "queues s ! i"
    let ?q = "reset_queue (queue_heap s ! ?r)"
    let ?s1 = "update_queue ?r (?q\<lparr> waker := None \<rparr>) s"
    let ?s2 = "?s1\<lparr> queue_heap := queue_heap ?s1 @ [new_queue (max_queue_len dev i)],
                 queues := (queues ?s1)[i := length (queue_heap ?s1)] \<rparr>"
    have "queue_ok (queue_heap s ! ?r)" using less(2) True by (auto simp: mmio_ok_def)
    then have "queue_ok (?q\<lparr> waker := None \<rparr>)" by (simp add: reset_queue_ok)
    moreover have "queue_ok (new_queue (max_queue_len dev i))"
      using assms less(2) True new_queue_ok by (fastforce simp: queue_lens_ok_def mmio_ok_def)
    ultimately have "mmio_ok dev ?s2" using less(2) by (intro replace_queue_ok update_queue_ok)
    then have "mmio_ok dev (snd (reset_queues dev (i + 1) ?s2))"
      using True by (intro less(1)) (auto simp: update_queue_def)
    then show ?thesis unfolding reset_queues.simps [of dev i s] Let_def by (simp only: True if_True split_beta snd_conv)
  next
    case False
    then show ?thesis using less(2) by (simp add: reset_queues.simps)
  qed
qed

lemma mmio_write_ok:
  assumes "queue_lens_ok dev" "mmio_ok dev s" "mmio_write dev addr value sz s = Some (woken, s')"
  shows "mmio_ok dev s'"
proof -
  have c: "mmio_ok dev s" if "mmio_ok dev s0" "queues s = queues s0" "queue_heap s = queue_heap s0" for s s0
    using that mmio_ok_cong by metis
  have sel: "queue_ok (selected s)" if "queue_sel s < num_queues dev"
    using assms(2) that by (auto simp: mmio_ok_def selected_def)
  show ?thesis
  proof (cases "addr = 0x70 \<and> addr < 0x100 \<and> sz = 4 \<and> ucast value = (0 :: u32)")
    case True
    let ?s = "s\<lparr> device := dev_reset dev (device s) \<rparr>"
    have "mmio_ok dev (snd (reset_queues dev 0 ?s))"
      using reset_queues_ok [OF assms(1)] c [OF assms(2)] by simp
    moreover have "queues s' = queues (snd (reset_queues dev 0 ?s))" "queue_heap s' = queue_heap (snd (reset_queues dev 0 ?s))"
      using assms(3) True by (auto simp: mmio_write_def Let_def split_beta)
    ultimately show ?thesis by (rule c)
  next
    case False
    show ?thesis
    proof (cases "queue_sel s < num_queues dev \<and> sz = 4 \<and> addr < 0x100 \<and> (addr = 0x50 \<or> 0x38 \<le> addr \<and> addr \<le> 0x44 \<or> 0x80 \<le> addr \<and> addr \<le> 0xa4)")
      case q: True
      have "\<exists>r q. queue_ok q \<and> queues s' = queues (update_queue r q s) \<and> queue_heap s' = queue_heap (update_queue r q s)"
      proof (cases "addr = 0x50")
        case True
        have "queue_ok ((selected s)\<lparr> waker := None \<rparr>)" using sel q by simp
        moreover have "s' = update_queue (queues s ! queue_sel s) ((selected s)\<lparr> waker := None \<rparr>) s"
          using assms(3) True q by (simp add: mmio_write_def Let_def)
        ultimately show ?thesis by blast
      next
        case False
        then have a: "addr \<noteq> 20" "addr \<noteq> 32" "addr \<noteq> 36" "addr \<noteq> 48" "addr \<noteq> 80" "addr < 256"
          "0x38 \<le> addr \<and> addr \<le> 0x44 \<or> 0x80 \<le> addr \<and> addr \<le> 0xa4" using q by auto
        then obtain q' where q': "queue_reg_write addr (ucast value) (selected s) = Some q'"
          "queues s' = queues (update_queue (queues s ! queue_sel s) q' s)"
          "queue_heap s' = queue_heap (update_queue (queues s ! queue_sel s) q' s)"
          using assms(3) q by (auto simp: mmio_write_def Let_def split: option.splits)
        then show ?thesis using queue_reg_write_ok sel q by blast
      qed
      then show ?thesis using c update_queue_ok [OF assms(2)] by metis
    next
      case other: False
      have "queues s' = queues s \<and> queue_heap s' = queue_heap s"
        using assms(3) False other by (auto simp: mmio_write_def Let_def split: if_splits)
      then show ?thesis using c [OF assms(2)] by blast
    qed
  qed
qed

section \<open>The interface of a device\<close>

locale virtio_device =
  fixes dev :: "'d Device"
  assumes lens: "queue_lens_ok dev"
begin

lemma new_ok: "mmio_ok dev (mmio_new dev d)"
  using lens new_queue_ok by (fastforce simp: mmio_ok_def mmio_new_def queue_lens_ok_def)

lemma reachable_ok: "mmio_reachable dev d s \<Longrightarrow> mmio_ok dev s"
proof (induction rule: mmio_reachable.induct)
  case mmio_start
  show ?case by (rule new_ok)
next
  case (guest_write s addr v sz woken s')
  then show ?case using mmio_write_ok [OF lens] by blast
next
  case (task_take s r t m b q)
  have "queue_ok (queue_heap s ! r)" using task_take(2,4) by (simp add: mmio_ok_def)
  then have "queue_ok q" using poll_take_num [OF task_take(3)] queue_ok_cong by blast
  then show ?case by (rule update_queue_ok [OF task_take(4)])
next
  case (task_put s r b m)
  have "queue_ok (queue_heap s ! r)" using task_put(2,3) by (simp add: mmio_ok_def)
  then have "queue_ok (snd (put b m (queue_heap s ! r)))" using put_num queue_ok_cong by blast
  then show ?case by (rule update_queue_ok [OF task_put(3)])
next
  case (device_step s d')
  then show ?case by (simp add: mmio_ok_def)
qed

end

lemma pow2_consts: "\<exists>k < 16. 2 ^ k = (32768 :: u16)" "\<exists>k < 16. 2 ^ k = (128 :: u16)"
  by (rule exI [of _ 15], simp, rule exI [of _ 7], simp)

interpretation blk: virtio_device block_device
  by unfold_locales (simp add: queue_lens_ok_def block_device_def simple_device_def pow2_consts)

interpretation rng: virtio_device rng_device
  by unfold_locales (simp add: queue_lens_ok_def rng_device_def simple_device_def pow2_consts)

interpretation p9: virtio_device p9_device
  by unfold_locales (simp add: queue_lens_ok_def p9_device_def simple_device_def pow2_consts)

interpretation net: virtio_device network_device
  by unfold_locales (simp add: queue_lens_ok_def network_device_def pow2_consts)

interpretation con: virtio_device console_device
  by unfold_locales (simp add: queue_lens_ok_def console_device_def pow2_consts)

section \<open>Panics of the registers\<close>

definition register_gap :: "nat \<Rightarrow> bool" where
  "register_gap a \<longleftrightarrow> 0x80 \<le> a \<and> a \<le> 0xa4 \<and> a \<notin> {0x80, 0x84, 0x90, 0x94, 0xa0, 0xa4}"

definition size_gap :: "nat \<Rightarrow> bool" where
  "size_gap a \<longleftrightarrow> 0x38 < a \<and> a < 0x44"

lemma queue_reg_write_None: "queue_reg_write addr v q = None \<longleftrightarrow>
    addr \<notin> {0x38, 0x44, 0x80, 0x84, 0x90, 0x94, 0xa0, 0xa4}"
  by (simp add: queue_reg_write_def)

lemma queue_reg_read_None: "queue_reg_read addr q = None \<longleftrightarrow>
    addr \<notin> {0x38, 0x44, 0x80, 0x84, 0x90, 0x94, 0xa0, 0xa4}"
  by (simp add: queue_reg_read_def)

lemma mmio_write_panics:
  "mmio_write dev addr v sz s = None \<longleftrightarrow>
    sz = 4 \<and> queue_sel s < num_queues dev \<and> (register_gap addr \<or> size_gap addr)"
proof (cases "0x38 \<le> addr \<and> addr \<le> 0x44 \<or> 0x80 \<le> addr \<and> addr \<le> 0xa4")
  case True
  then have a: "addr \<noteq> 20" "addr \<noteq> 32" "addr \<noteq> 36" "addr \<noteq> 48" "addr \<noteq> 80" "addr < 256" by auto
  have "mmio_write dev addr v sz s = None \<longleftrightarrow>
      sz = 4 \<and> queue_sel s < num_queues dev \<and> queue_reg_write addr (ucast v) (selected s) = None"
    using a True by (simp add: mmio_write_def Let_def split: option.split)
  then show ?thesis using True by (auto simp: queue_reg_write_None register_gap_def size_gap_def)
next
  case False
  then have "\<not> register_gap addr \<and> \<not> size_gap addr" by (auto simp: register_gap_def size_gap_def)
  moreover have r: "(0x38 \<le> addr \<and> addr \<le> 0x44 \<or> 0x80 \<le> addr \<and> addr \<le> 0xa4) = False" using False by simp
  have "mmio_write dev addr v sz s \<noteq> None"
    unfolding mmio_write_def Let_def r if_False by (simp add: split_beta)
  ultimately show ?thesis by blast
qed

lemma mmio_read_panics:
  "mmio_read dev addr sz s = None \<longleftrightarrow> sz = 4 \<and> queue_sel s < num_queues dev \<and> register_gap addr"
proof (cases "addr = 0x38 \<or> addr = 0x44 \<or> 0x80 \<le> addr \<and> addr \<le> 0xa4")
  case True
  then have a: "addr \<noteq> 0" "addr \<noteq> 4" "addr \<noteq> 8" "addr \<noteq> 12" "addr \<noteq> 16" "addr \<noteq> 20" "addr \<noteq> 36" "addr \<noteq> 48"
    "addr \<noteq> 52" "addr < 256" by auto
  have "mmio_read dev addr sz s = None \<longleftrightarrow>
      sz = 4 \<and> queue_sel s < num_queues dev \<and> queue_reg_read addr (selected s) = None"
    using a True by (simp add: mmio_read_def)
  then show ?thesis using True by (auto simp: queue_reg_read_None register_gap_def)
next
  case False
  then have "\<not> register_gap addr" by (auto simp: register_gap_def)
  moreover have r: "(addr = 0x38 \<or> addr = 0x44 \<or> 0x80 \<le> addr \<and> addr \<le> 0xa4) = False" using False by simp
  have "mmio_read dev addr sz s \<noteq> None" unfolding mmio_read_def r if_False by simp
  ultimately show ?thesis by blast
qed

text \<open>A reset wakes no task: \<open>reset\<close> clears the waker that is to be taken after it.\<close>

lemma reset_queues_wakes_none: "fst (reset_queues dev i s) = []"
  by (induction dev i s rule: reset_queues.induct)
    (subst reset_queues.simps, simp add: Let_def split_beta reset_queue_def)

lemma reset_wakes_none: "mmio_write dev 0x70 0 4 s = Some (woken, s') \<Longrightarrow> woken = []"
  using reset_queues_wakes_none [of dev 0 "s\<lparr> device := dev_reset dev (device s) \<rparr>"]
  by (auto simp: mmio_write_def Let_def split_beta)

text \<open>
  C39. In every state a virtio device can reach through the guest's register writes and the work of its
  tasks, every queue, those a reset replaced included, has a power of two for its size, at most the
  maximum that the device reports, and the transport has as many distinct queues as the device, all
  allocated: the queue selected by a checked index exists, and the masks of the rings are remainders. A
  register access panics in no reachable state but for 32-bit accesses to the reserved offsets between
  the queue registers, with an existing queue selected.
\<close>

theorem virtio_queues_ok:
  assumes "queue_lens_ok dev" "mmio_reachable dev d s"
  shows "mmio_ok dev s
    \<and> (mmio_write dev addr v sz s = None \<longleftrightarrow>
        sz = 4 \<and> queue_sel s < num_queues dev \<and> (register_gap addr \<or> size_gap addr))
    \<and> (mmio_read dev addr sz s = None \<longleftrightarrow> sz = 4 \<and> queue_sel s < num_queues dev \<and> register_gap addr)"
  using virtio_device.reachable_ok [OF virtio_device.intro [OF assms(1)] assms(2)]
  by (simp only: mmio_write_panics mmio_read_panics simp_thms)

definition sample_console :: "DuplexDev Mmio" where
  "sample_console = mmio_new console_device (console_new False None)"

theorem virtio_queues_ok_witness:
  "queue_lens_ok console_device \<and>
   (\<exists>woken s. mmio_write console_device 0x38 64 4 sample_console = Some (woken, s) \<and> mmio_ok console_device s
      \<and> num (queue_heap s ! 0) = 64 \<and> mmio_write console_device 0x40 0 4 s = None)"
proof -
  obtain woken s where s: "mmio_write console_device 0x38 64 4 sample_console = Some (woken, s)"
    "num (queue_heap s ! 0) = 64" "queue_sel s = 0"
  proof -
    have "map_option (\<lambda>(w, s). (num (queue_heap s ! 0), queue_sel s)) (mmio_write console_device 0x38 64 4 sample_console)
      = Some (64, 0)" by code_simp
    then show ?thesis using that by auto
  qed
  have "mmio_reachable console_device (console_new False None) s"
    using mmio_reachable.guest_write [OF mmio_reachable.mmio_start s(1) [unfolded sample_console_def]] .
  from virtio_queues_ok [OF con.lens this, of 64 0 4] show ?thesis
    using s con.lens by (auto simp: size_gap_def console_device_def)
qed

end
