(* ===== verification/P9_Wire.thy ===== *)
theory P9_Wire
  imports Virtio_Mmio
begin

text \<open>
  The wire format of 9P2000.L, \<open>lib/p9/src/serialize.rs\<close>.

  \<^item> A \<open>Read\<close> is the list of the bytes that are left; \<open>Err\<close> is an error of the reader, \<open>Panic\<close> a panic.
  \<^item> \<open>encode\<close> returns the bytes it writes, in order; \<open>None\<close> is a panic.
  \<^item> A \<open>String\<close> is its bytes, which are valid UTF-8.
  \<^item> A \<open>SystemTime\<close> is before the epoch, or so many seconds and nanoseconds after it; the seconds are an
    \<open>i64\<close> on the host.
\<close>

section \<open>Data\<close>

record Qid =
  q_type :: u8
  q_version :: u32
  q_path :: u64

datatype (plugins only: code size) SystemTime = BeforeEpoch | SinceEpoch u64 u32

record DirEntry =
  de_qid :: Qid
  de_offset :: u64
  de_type :: u8
  de_name :: "u8 list"

record Stat =
  st_mode :: u32
  st_uid :: u32
  st_gid :: u32
  st_nlink :: u64
  st_rdev :: u64
  st_size :: u64
  st_blksize :: u64
  st_blocks :: u64
  st_atime :: SystemTime
  st_mtime :: SystemTime
  st_ctime :: SystemTime

record SetAttr =
  sa_mode :: u32
  sa_uid :: u32
  sa_gid :: u32
  sa_size :: u64
  sa_atime :: SystemTime
  sa_mtime :: SystemTime

record StatFs =
  sf_type :: u32
  sf_bsize :: u32
  sf_blocks :: u64
  sf_bfree :: u64
  sf_bavail :: u64
  sf_files :: u64
  sf_ffree :: u64
  sf_fsid :: u64
  sf_namelen :: u32

datatype (plugins only: code size) Fcall =
    Rlerror u32
  | Tstatfs u32 | Rstatfs StatFs
  | Tlopen u32 u32 | Rlopen Qid u32
  | Tlcreate u32 "u8 list" u32 u32 u32 | Rlcreate Qid u32
  | Tsymlink u32 "u8 list" "u8 list" u32 | Rsymlink Qid
  | Tmknod u32 "u8 list" u32 u32 u32 u32 | Rmknod Qid
  | Treadlink u32 | Rreadlink "u8 list"
  | Tgetattr u32 u64 | Rgetattr u64 Qid Stat
  | Tsetattr u32 u32 SetAttr | Rsetattr
  | Txattrwalk u32 u32 "u8 list" | Rxattrwalk u64
  | Txattrcreate u32 "u8 list" u64 u32 | Rxattrcreate
  | Treaddir u32 u64 u32 | Rreaddir u32 "DirEntry list"
  | Tfsync u32 | Rfsync
  | Tlock u32 u8 u32 u64 u64 u32 "u8 list" | Rlock u8
  | Tgetlock u32 u8 u64 u64 u64 "u8 list" | Rgetlock u8 u64 u64 u32 "u8 list"
  | Tlink u32 u32 "u8 list" | Rlink
  | Tmkdir u32 "u8 list" u32 u32 | Rmkdir Qid
  | Trenameat u32 "u8 list" u32 "u8 list" | Rrenameat
  | Tunlinkat u32 "u8 list" u32 | Runlinkat
  | Tauth u32 "u8 list" "u8 list" u32 | Rauth Qid
  | Tattach u32 u32 "u8 list" "u8 list" u32 | Rattach Qid
  | Tversion u32 "u8 list" | Rversion u32 "u8 list"
  | Tflush u16 | Rflush
  | Twalk u32 u32 "u8 list list" | Rwalk "Qid list"
  | Tread u32 u64 u32 | Rread "u8 list"
  | Twrite u32 u64 "u8 list" | Rwrite u32
  | Tclunk u32 | Rclunk
  | Unknown

section \<open>Integers and strings\<close>

type_synonym reader = "u8 list"

definition read_bytes :: "nat \<Rightarrow> reader \<Rightarrow> (u8 list, reader) res" where
  "read_bytes n r = (if n \<le> length r then Ok (take n r) (drop n r) else Err r)"

definition decode_uint :: "nat \<Rightarrow> reader \<Rightarrow> (u64, reader) res" where
  "decode_uint n r = and_then (read_bytes n r) (\<lambda>bs r. Ok (le_value bs) r)"

definition decode_u8 :: "reader \<Rightarrow> (u8, reader) res" where
  "decode_u8 r = and_then (decode_uint 1 r) (\<lambda>v r. Ok (ucast v) r)"

definition decode_u16 :: "reader \<Rightarrow> (u16, reader) res" where
  "decode_u16 r = and_then (decode_uint 2 r) (\<lambda>v r. Ok (ucast v) r)"

definition decode_u32 :: "reader \<Rightarrow> (u32, reader) res" where
  "decode_u32 r = and_then (decode_uint 4 r) (\<lambda>v r. Ok (ucast v) r)"

definition decode_u64 :: "reader \<Rightarrow> (u64, reader) res" where
  "decode_u64 r = decode_uint 8 r"

definition encode_u8 :: "u8 \<Rightarrow> u8 list" where "encode_u8 v = le_bytes 1 (ucast v)"
definition encode_u16 :: "u16 \<Rightarrow> u8 list" where "encode_u16 v = le_bytes 2 (ucast v)"
definition encode_u32 :: "u32 \<Rightarrow> u8 list" where "encode_u32 v = le_bytes 4 (ucast v)"
definition encode_u64 :: "u64 \<Rightarrow> u8 list" where "encode_u64 v = le_bytes 8 v"

text \<open>\<open>String::from_utf8\<close>: the well-formed sequences of the Unicode standard.\<close>

definition utf8_tail :: "u8 \<Rightarrow> bool" where
  "utf8_tail b \<longleftrightarrow> 0x80 \<le> b \<and> b \<le> 0xBF"

fun valid_utf8 :: "u8 list \<Rightarrow> bool" where
  "valid_utf8 [] = True"
| "valid_utf8 (a # bs) =
    (if a \<le> 0x7F then valid_utf8 bs
     else if 0xC2 \<le> a \<and> a \<le> 0xDF then
       (case bs of b # bs \<Rightarrow> utf8_tail b \<and> valid_utf8 bs | _ \<Rightarrow> False)
     else if 0xE0 \<le> a \<and> a \<le> 0xEF then
       (case bs of
          b # c # bs \<Rightarrow> utf8_tail b \<and> utf8_tail c \<and> (a = 0xE0 \<longrightarrow> 0xA0 \<le> b) \<and> (a = 0xED \<longrightarrow> b \<le> 0x9F) \<and> valid_utf8 bs
        | _ \<Rightarrow> False)
     else if 0xF0 \<le> a \<and> a \<le> 0xF4 then
       (case bs of
          b # c # d # bs \<Rightarrow> utf8_tail b \<and> utf8_tail c \<and> utf8_tail d \<and> (a = 0xF0 \<longrightarrow> 0x90 \<le> b) \<and> (a = 0xF4 \<longrightarrow> b \<le> 0x8F)
            \<and> valid_utf8 bs
        | _ \<Rightarrow> False)
     else False)"

definition decode_string :: "reader \<Rightarrow> (u8 list, reader) res" where
  "decode_string r =
    and_then (decode_u16 r) (\<lambda>len r.
      and_then (read_bytes (unat len) r) (\<lambda>bytes r.
        if valid_utf8 bytes then Ok bytes r else Err r))"

definition encode_string :: "u8 list \<Rightarrow> u8 list" where
  "encode_string s = encode_u16 (of_nat (length s)) @ s"

section \<open>Structures\<close>

definition decode_qid :: "reader \<Rightarrow> (Qid, reader) res" where
  "decode_qid r =
    and_then (decode_u8 r) (\<lambda>t r. and_then (decode_u32 r) (\<lambda>v r. and_then (decode_u64 r) (\<lambda>p r.
      Ok \<lparr> q_type = t, q_version = v, q_path = p \<rparr> r)))"

definition encode_qid :: "Qid \<Rightarrow> u8 list" where
  "encode_qid q = encode_u8 (q_type q) @ encode_u32 (q_version q) @ encode_u64 (q_path q)"

text \<open>\<open>Duration::new\<close> carries the nanoseconds and panics on overflow, \<open>UNIX_EPOCH +\<close> panics beyond an
  \<open>i64\<close> of seconds.\<close>

definition decode_time :: "reader \<Rightarrow> (SystemTime, reader) res" where
  "decode_time r =
    and_then (decode_u64 r) (\<lambda>s r. and_then (decode_u64 r) (\<lambda>n r.
      let nanos = unat (ucast n :: u32); secs = unat s + nanos div 1000000000 in
      if 2 ^ 63 \<le> secs then Panic else Ok (SinceEpoch (of_nat secs) (of_nat (nanos mod 1000000000))) r))"

definition encode_time :: "SystemTime \<Rightarrow> u8 list option" where
  "encode_time t = (case t of BeforeEpoch \<Rightarrow> None | SinceEpoch s n \<Rightarrow> Some (encode_u64 s @ encode_u64 (ucast n)))"

definition decode_set_attr :: "reader \<Rightarrow> (SetAttr, reader) res" where
  "decode_set_attr r =
    and_then (decode_u32 r) (\<lambda>m r. and_then (decode_u32 r) (\<lambda>u r. and_then (decode_u32 r) (\<lambda>g r.
    and_then (decode_u64 r) (\<lambda>s r. and_then (decode_time r) (\<lambda>a r. and_then (decode_time r) (\<lambda>t r.
      Ok \<lparr> sa_mode = m, sa_uid = u, sa_gid = g, sa_size = s, sa_atime = a, sa_mtime = t \<rparr> r))))))"

definition encode_stat :: "Stat \<Rightarrow> u8 list option" where
  "encode_stat st =
    Option.bind (encode_time (st_atime st)) (\<lambda>a. Option.bind (encode_time (st_mtime st)) (\<lambda>mt.
    Option.bind (encode_time (st_ctime st)) (\<lambda>c. Option.bind (encode_time (SinceEpoch 0 0)) (\<lambda>b.
      Some (encode_u32 (st_mode st) @ encode_u32 (st_uid st) @ encode_u32 (st_gid st) @ encode_u64 (st_nlink st)
        @ encode_u64 (st_rdev st) @ encode_u64 (st_size st) @ encode_u64 (st_blksize st) @ encode_u64 (st_blocks st)
        @ a @ mt @ c @ b @ encode_u64 0 @ encode_u64 0)))))"

definition decode_stat :: "reader \<Rightarrow> (Stat, reader) res" where
  "decode_stat r =
    and_then (decode_u32 r) (\<lambda>m r. and_then (decode_u32 r) (\<lambda>u r. and_then (decode_u32 r) (\<lambda>g r.
    and_then (decode_u64 r) (\<lambda>nl r. and_then (decode_u64 r) (\<lambda>rd r. and_then (decode_u64 r) (\<lambda>sz r.
    and_then (decode_u64 r) (\<lambda>bs r. and_then (decode_u64 r) (\<lambda>bl r.
    and_then (decode_time r) (\<lambda>a r. and_then (decode_time r) (\<lambda>mt r. and_then (decode_time r) (\<lambda>c r.
    and_then (decode_time r) (\<lambda>_ r. and_then (decode_u64 r) (\<lambda>_ r. and_then (decode_u64 r) (\<lambda>_ r.
      Ok \<lparr> st_mode = m, st_uid = u, st_gid = g, st_nlink = nl, st_rdev = rd, st_size = sz, st_blksize = bs,
           st_blocks = bl, st_atime = a, st_mtime = mt, st_ctime = c \<rparr> r))))))))))))))"

definition encode_stat_fs :: "StatFs \<Rightarrow> u8 list" where
  "encode_stat_fs s =
    encode_u32 (sf_type s) @ encode_u32 (sf_bsize s) @ encode_u64 (sf_blocks s) @ encode_u64 (sf_bfree s)
    @ encode_u64 (sf_bavail s) @ encode_u64 (sf_files s) @ encode_u64 (sf_ffree s) @ encode_u64 (sf_fsid s)
    @ encode_u32 (sf_namelen s)"

definition encode_dir_entry :: "DirEntry \<Rightarrow> u8 list" where
  "encode_dir_entry d =
    encode_qid (de_qid d) @ encode_u64 (de_offset d) @ encode_u8 (de_type d) @ encode_string (de_name d)"

section \<open>Messages\<close>

fun decode_strings :: "nat \<Rightarrow> reader \<Rightarrow> (u8 list list, reader) res" where
  "decode_strings 0 r = Ok [] r"
| "decode_strings (Suc n) r =
    and_then (decode_string r) (\<lambda>s r. and_then (decode_strings n r) (\<lambda>ss r. Ok (s # ss) r))"

definition decode_body :: "u8 \<Rightarrow> reader \<Rightarrow> (Fcall, reader) res" where
  "decode_body msg r =
    (if msg = 8 then and_then (decode_u32 r) (\<lambda>fid r. Ok (Tstatfs fid) r)
     else if msg = 12 then
       and_then (decode_u32 r) (\<lambda>fid r. and_then (decode_u32 r) (\<lambda>flags r. Ok (Tlopen fid flags) r))
     else if msg = 14 then
       and_then (decode_u32 r) (\<lambda>fid r. and_then (decode_string r) (\<lambda>name r. and_then (decode_u32 r) (\<lambda>flags r.
       and_then (decode_u32 r) (\<lambda>mode r. and_then (decode_u32 r) (\<lambda>gid r. Ok (Tlcreate fid name flags mode gid) r)))))
     else if msg = 16 then
       and_then (decode_u32 r) (\<lambda>fid r. and_then (decode_string r) (\<lambda>name r. and_then (decode_string r) (\<lambda>symtgt r.
       and_then (decode_u32 r) (\<lambda>gid r. Ok (Tsymlink fid name symtgt gid) r))))
     else if msg = 18 then
       and_then (decode_u32 r) (\<lambda>dfid r. and_then (decode_string r) (\<lambda>name r. and_then (decode_u32 r) (\<lambda>mode r.
       and_then (decode_u32 r) (\<lambda>major r. and_then (decode_u32 r) (\<lambda>minor r. and_then (decode_u32 r) (\<lambda>gid r.
         Ok (Tmknod dfid name mode major minor gid) r))))))
     else if msg = 22 then and_then (decode_u32 r) (\<lambda>fid r. Ok (Treadlink fid) r)
     else if msg = 24 then
       and_then (decode_u32 r) (\<lambda>fid r. and_then (decode_u64 r) (\<lambda>rmask r. Ok (Tgetattr fid rmask) r))
     else if msg = 26 then
       and_then (decode_u32 r) (\<lambda>fid r. and_then (decode_u32 r) (\<lambda>valid r. and_then (decode_set_attr r) (\<lambda>attr r.
         Ok (Tsetattr fid valid attr) r)))
     else if msg = 30 then
       and_then (decode_u32 r) (\<lambda>fid r. and_then (decode_u32 r) (\<lambda>newfid r. and_then (decode_string r) (\<lambda>name r.
         Ok (Txattrwalk fid newfid name) r)))
     else if msg = 32 then
       and_then (decode_u32 r) (\<lambda>fid r. and_then (decode_string r) (\<lambda>name r. and_then (decode_u64 r) (\<lambda>sz r.
       and_then (decode_u32 r) (\<lambda>flags r. Ok (Txattrcreate fid name sz flags) r))))
     else if msg = 40 then
       and_then (decode_u32 r) (\<lambda>fid r. and_then (decode_u64 r) (\<lambda>off r. and_then (decode_u32 r) (\<lambda>count r.
         Ok (Treaddir fid off count) r)))
     else if msg = 50 then and_then (decode_u32 r) (\<lambda>fid r. Ok (Tfsync fid) r)
     else if msg = 70 then
       and_then (decode_u32 r) (\<lambda>dfid r. and_then (decode_u32 r) (\<lambda>fid r. and_then (decode_string r) (\<lambda>name r.
         Ok (Tlink dfid fid name) r)))
     else if msg = 72 then
       and_then (decode_u32 r) (\<lambda>dfid r. and_then (decode_string r) (\<lambda>name r. and_then (decode_u32 r) (\<lambda>mode r.
       and_then (decode_u32 r) (\<lambda>gid r. Ok (Tmkdir dfid name mode gid) r))))
     else if msg = 74 then
       and_then (decode_u32 r) (\<lambda>odf r. and_then (decode_string r) (\<lambda>oldname r. and_then (decode_u32 r) (\<lambda>ndf r.
       and_then (decode_string r) (\<lambda>newname r. Ok (Trenameat odf oldname ndf newname) r))))
     else if msg = 76 then
       and_then (decode_u32 r) (\<lambda>dirfd r. and_then (decode_string r) (\<lambda>name r. and_then (decode_u32 r) (\<lambda>flags r.
         Ok (Tunlinkat dirfd name flags) r)))
     else if msg = 100 then
       and_then (decode_u32 r) (\<lambda>msize r. and_then (decode_string r) (\<lambda>version r. Ok (Tversion msize version) r))
     else if msg = 101 then
       and_then (decode_u32 r) (\<lambda>msize r. and_then (decode_string r) (\<lambda>version r. Ok (Rversion msize version) r))
     else if msg = 102 then
       and_then (decode_u32 r) (\<lambda>afid r. and_then (decode_string r) (\<lambda>uname r. and_then (decode_string r) (\<lambda>aname r.
       and_then (decode_u32 r) (\<lambda>n r. Ok (Tauth afid uname aname n) r))))
     else if msg = 104 then
       and_then (decode_u32 r) (\<lambda>fid r. and_then (decode_u32 r) (\<lambda>afid r. and_then (decode_string r) (\<lambda>uname r.
       and_then (decode_string r) (\<lambda>aname r. and_then (decode_u32 r) (\<lambda>n r. Ok (Tattach fid afid uname aname n) r)))))
     else if msg = 108 then and_then (decode_u16 r) (\<lambda>oldtag r. Ok (Tflush oldtag) r)
     else if msg = 110 then
       and_then (decode_u32 r) (\<lambda>fid r. and_then (decode_u32 r) (\<lambda>newfid r. and_then (decode_u16 r) (\<lambda>len r.
       and_then (decode_strings (unat len) r) (\<lambda>wnames r. Ok (Twalk fid newfid wnames) r))))
     else if msg = 116 then
       and_then (decode_u32 r) (\<lambda>fid r. and_then (decode_u64 r) (\<lambda>off r. and_then (decode_u32 r) (\<lambda>count r.
         Ok (Tread fid off count) r)))
     else if msg = 118 then
       and_then (decode_u32 r) (\<lambda>fid r. and_then (decode_u64 r) (\<lambda>off r. and_then (decode_u32 r) (\<lambda>len r.
       and_then (read_bytes (unat len) r) (\<lambda>dat r. Ok (Twrite fid off dat) r))))
     else if msg = 120 then and_then (decode_u32 r) (\<lambda>fid r. Ok (Tclunk fid) r)
     else Ok Unknown r)"

definition decode_fcall :: "reader \<Rightarrow> (u16 \<times> Fcall, reader) res" where
  "decode_fcall r =
    and_then (decode_u8 r) (\<lambda>msg r. and_then (decode_u16 r) (\<lambda>tag r. and_then (decode_body msg r) (\<lambda>f r. Ok (tag, f) r)))"

definition reply_type :: "Fcall \<Rightarrow> u8 option" where
  "reply_type f =
    (case f of
       Rlerror _ \<Rightarrow> Some 7 | Rstatfs _ \<Rightarrow> Some 9 | Rlopen _ _ \<Rightarrow> Some 13 | Rlcreate _ _ \<Rightarrow> Some 15 | Rsymlink _ \<Rightarrow> Some 17
     | Rmknod _ \<Rightarrow> Some 19 | Rreadlink _ \<Rightarrow> Some 23 | Rgetattr _ _ _ \<Rightarrow> Some 25 | Rsetattr \<Rightarrow> Some 27
     | Rxattrwalk _ \<Rightarrow> Some 31 | Rxattrcreate \<Rightarrow> Some 33 | Rreaddir _ _ \<Rightarrow> Some 41 | Rfsync \<Rightarrow> Some 51 | Rlink \<Rightarrow> Some 71
     | Rmkdir _ \<Rightarrow> Some 73 | Rrenameat \<Rightarrow> Some 75 | Runlinkat \<Rightarrow> Some 77 | Rversion _ _ \<Rightarrow> Some 101 | Rauth _ \<Rightarrow> Some 103
     | Rattach _ \<Rightarrow> Some 105 | Rflush \<Rightarrow> Some 109 | Rwalk _ \<Rightarrow> Some 111 | Rread _ \<Rightarrow> Some 117 | Rwrite _ \<Rightarrow> Some 119
     | Rclunk \<Rightarrow> Some 121 | _ \<Rightarrow> None)"

definition encode_body :: "Fcall \<Rightarrow> u8 list option" where
  "encode_body f =
    (case f of
       Rlerror ecode \<Rightarrow> Some (encode_u32 ecode)
     | Rstatfs stat \<Rightarrow> Some (encode_stat_fs stat)
     | Rlopen qid iounit \<Rightarrow> Some (encode_qid qid @ encode_u32 iounit)
     | Rlcreate qid iounit \<Rightarrow> Some (encode_qid qid @ encode_u32 iounit)
     | Rsymlink qid \<Rightarrow> Some (encode_qid qid)
     | Rmknod qid \<Rightarrow> Some (encode_qid qid)
     | Rmkdir qid \<Rightarrow> Some (encode_qid qid)
     | Rreadlink target \<Rightarrow> Some (encode_string target)
     | Rgetattr valid qid stat \<Rightarrow> map_option (\<lambda>st. encode_u64 valid @ encode_qid qid @ st) (encode_stat stat)
     | Rsetattr \<Rightarrow> Some []
     | Rxattrwalk sz \<Rightarrow> Some (encode_u64 sz)
     | Rxattrcreate \<Rightarrow> Some []
     | Rreaddir count dat \<Rightarrow> Some (encode_u32 count @ concat (map encode_dir_entry dat))
     | Rfsync \<Rightarrow> Some []
     | Rlink \<Rightarrow> Some []
     | Rrenameat \<Rightarrow> Some []
     | Runlinkat \<Rightarrow> Some []
     | Rversion msize version \<Rightarrow> Some (encode_u32 msize @ encode_string version)
     | Rauth aqid \<Rightarrow> Some (encode_qid aqid)
     | Rattach qid \<Rightarrow> Some (encode_qid qid)
     | Rflush \<Rightarrow> Some []
     | Rwalk wqids \<Rightarrow> Some (encode_u16 (of_nat (length wqids)) @ concat (map encode_qid wqids))
     | Rread dat \<Rightarrow> Some (encode_u32 (of_nat (length dat)) @ dat)
     | Rwrite count \<Rightarrow> Some (encode_u32 count)
     | Rclunk \<Rightarrow> Some []
     | _ \<Rightarrow> None)"

definition encode_fcall :: "u16 \<times> Fcall \<Rightarrow> u8 list option" where
  "encode_fcall = (\<lambda>(tag, f).
    Option.bind (reply_type f) (\<lambda>msg_type. map_option (\<lambda>b. encode_u8 msg_type @ encode_u16 tag @ b) (encode_body f)))"

section \<open>Little-endian integers\<close>

lemma le_value_simps: "le_value [] = 0" "le_value (b # bs) = ucast b + push_bit 8 (le_value bs)"
  by (simp_all add: le_value_def push_bit_eq_mult mult.commute)

lemma bit_le_value: "bit (le_value bs) i \<longleftrightarrow> i < 64 \<and> i < 8 * length bs \<and> bit (bs ! (i div 8)) (i mod 8)"
proof (induction bs arbitrary: i)
  case (Cons b bs)
  have "ucast b + push_bit 8 (le_value bs) = (ucast b OR push_bit 8 (le_value bs) :: u64)"
    by (rule disjunctive_add) (auto simp: bit_simps dest: bit_imp_le_length)
  moreover have "i div 8 = Suc ((i - 8) div 8)" "i mod 8 = (i - 8) mod 8" if "8 \<le> i"
    using that by (simp_all add: le_div_geq le_mod_geq)
  ultimately show ?case
    by (cases "i < 8") (auto simp: le_value_simps bit_simps Cons not_less dest: bit_imp_le_length)
qed (simp add: le_value_simps)

lemma nth_le_bytes: "i < n \<Longrightarrow> le_bytes n v ! i = ucast (drop_bit (8 * i) v)"
  by (simp add: le_bytes_def)

lemma length_le_bytes [simp]: "length (le_bytes n v) = n"
  by (simp add: le_bytes_def)

lemma le_value_bytes: "le_value (le_bytes n v) = take_bit (8 * n) v"
  by (rule bit_word_eqI)
    (auto simp: bit_le_value bit_take_bit_iff nth_le_bytes bit_simps mult.commute div_less_iff_less_mult)

lemma le_bytes_value: "length bs \<le> 8 \<Longrightarrow> le_bytes (length bs) (le_value bs) = bs"
proof (rule nth_equalityI)
  fix i assume "length bs \<le> 8" "i < length (le_bytes (length bs) (le_value bs))"
  then have i: "i < length bs" "length bs \<le> 8" by simp_all
  have "8 * i + k < 8 * length bs" if "k < 8" for k using i(1) that by simp
  then show "le_bytes (length bs) (le_value bs) ! i = bs ! i"
    using i by (intro bit_word_eqI) (auto simp: nth_le_bytes bit_simps bit_le_value)
qed simp

section \<open>What can be sent and read back\<close>

text \<open>A value that is encoded is decoded to itself, and nothing behind it is consumed.\<close>

locale encodable_with =
  fixes dec :: "reader \<Rightarrow> ('a, reader) res" and enc :: "'a \<Rightarrow> u8 list" and ok :: "'a \<Rightarrow> bool"
  assumes dec_enc: "ok v \<Longrightarrow> dec (enc v @ z) = Ok v z"
begin

lemma then_enc: "ok v \<Longrightarrow> and_then (dec (enc v @ z)) k = k v z"
  by (simp add: dec_enc)

end

text \<open>And nothing else decodes to it.\<close>

locale serializable = encodable_with +
  assumes dec_exact: "dec r = Ok v z \<Longrightarrow> r = enc v @ z \<and> ok v"
begin

lemma then_Ok: "and_then (dec r) k = Ok x s \<longleftrightarrow> (\<exists>v z. ok v \<and> r = enc v @ z \<and> k v z = Ok x s)"
proof
  assume "and_then (dec r) k = Ok x s"
  then obtain v z where "dec r = Ok v z" "k v z = Ok x s" by (auto simp: and_then_Ok_iff)
  then show "\<exists>v z. ok v \<and> r = enc v @ z \<and> k v z = Ok x s" using dec_exact by blast
next
  assume "\<exists>v z. ok v \<and> r = enc v @ z \<and> k v z = Ok x s"
  then show "and_then (dec r) k = Ok x s" by (auto simp: then_enc)
qed

end

lemma read_bytes_append: "n = length bs \<Longrightarrow> read_bytes n (bs @ z) = Ok bs z"
  by (simp add: read_bytes_def)

lemma read_bytes_Ok: "read_bytes n r = Ok bs z \<longleftrightarrow> r = bs @ z \<and> length bs = n"
  by (auto simp: read_bytes_def)

lemma decode_uint_enc: "decode_uint n (le_bytes n v @ z) = Ok (take_bit (8 * n) v) z"
  by (simp add: decode_uint_def read_bytes_append le_value_bytes)

lemma decode_uint_Ok: "n \<le> 8 \<Longrightarrow> decode_uint n r = Ok v z \<Longrightarrow> r = le_bytes n v @ z \<and> take_bit (8 * n) v = v"
  by (auto simp: decode_uint_def and_then_Ok_iff read_bytes_Ok le_bytes_value
      intro!: bit_word_eqI simp: bit_take_bit_iff bit_le_value)

lemma narrow_wide:
  "ucast (take_bit 8 (ucast (a :: u8) :: u64)) = a" "ucast (take_bit 16 (ucast (b :: u16) :: u64)) = b"
  "ucast (take_bit 32 (ucast (c :: u32) :: u64)) = c" "take_bit 64 (d :: u64) = d"
  "ucast (ucast c :: u64) = c"
  by (rule bit_word_eqI; auto simp: bit_simps)+

lemma wide_narrow:
  "ucast (ucast (w :: u64) :: u8) = take_bit 8 w" "ucast (ucast w :: u16) = take_bit 16 w"
  "ucast (ucast w :: u32) = take_bit 32 w"
  by (rule bit_word_eqI; auto simp: bit_simps)+

lemmas decode_ints = decode_u8_def encode_u8_def decode_u16_def encode_u16_def decode_u32_def encode_u32_def
  decode_u64_def encode_u64_def decode_uint_enc and_then_Ok_iff narrow_wide wide_narrow

interpretation w8: serializable decode_u8 encode_u8 "\<lambda>_. True"
  by unfold_locales (auto simp: decode_ints dest!: decode_uint_Ok [rotated])

interpretation w16: serializable decode_u16 encode_u16 "\<lambda>_. True"
  by unfold_locales (auto simp: decode_ints dest!: decode_uint_Ok [rotated])

interpretation w32: serializable decode_u32 encode_u32 "\<lambda>_. True"
  by unfold_locales (auto simp: decode_ints dest!: decode_uint_Ok [rotated])

interpretation w64: serializable decode_u64 encode_u64 "\<lambda>_. True"
  by unfold_locales (auto simp: decode_ints dest!: decode_uint_Ok [rotated])

lemmas ints_enc [simp] = w8.dec_enc [OF TrueI] w16.dec_enc [OF TrueI] w32.dec_enc [OF TrueI] w64.dec_enc [OF TrueI]
lemmas ints_Ok = w8.then_Ok w16.then_Ok w32.then_Ok w64.then_Ok

definition string_ok :: "u8 list \<Rightarrow> bool" where
  "string_ok s \<longleftrightarrow> valid_utf8 s \<and> length s < 2 ^ 16"

lemma string_len: "length s < 2 ^ 16 \<Longrightarrow> unat (of_nat (length s) :: u16) = length s"
  by (simp only: unat_of_nat) simp

interpretation str: serializable decode_string encode_string string_ok
proof
  show "decode_string (encode_string s @ z) = Ok s z" if "string_ok s" for s z
    using that by (simp add: decode_string_def encode_string_def string_ok_def string_len read_bytes_append)
  show "r = encode_string s @ z \<and> string_ok s" if d: "decode_string r = Ok s z" for r s z
  proof -
    obtain len where r: "r = encode_u16 len @ s @ z" "length s = unat len" "valid_utf8 s"
      using d by (auto simp: decode_string_def and_then_Ok_iff read_bytes_Ok split: if_splits dest!: w16.dec_exact)
    have "length s < 2 ^ 16" unfolding r(2) using unsigned_less [of len] by simp
    moreover have "of_nat (length s) = len" by (simp add: r(2))
    ultimately show ?thesis using r by (simp add: encode_string_def string_ok_def)
  qed
qed

interpretation qid: serializable decode_qid encode_qid "\<lambda>_. True"
  by unfold_locales (auto simp: decode_qid_def encode_qid_def ints_Ok)

definition time_ok :: "SystemTime \<Rightarrow> bool" where
  "time_ok t = (case t of BeforeEpoch \<Rightarrow> False | SinceEpoch s n \<Rightarrow> s < 2 ^ 63 \<and> n < 1000000000)"

definition time_bytes :: "SystemTime \<Rightarrow> u8 list" where
  "time_bytes t = (case encode_time t of None \<Rightarrow> [] | Some bs \<Rightarrow> bs)"

interpretation time: encodable_with decode_time time_bytes time_ok
proof
  fix t z assume "time_ok t"
  then obtain s n where t: "t = SinceEpoch s n" "unat s < 2 ^ 63" "unat n < 1000000000"
    by (auto simp: time_ok_def word_less_nat_alt split: SystemTime.splits)
  then show "decode_time (time_bytes t @ z) = Ok t z"
    by (simp add: decode_time_def time_bytes_def encode_time_def Let_def narrow_wide wide_narrow)
qed

lemma encode_time_ok: "time_ok t \<Longrightarrow> encode_time t = Some (time_bytes t)"
  by (auto simp: time_ok_def time_bytes_def encode_time_def split: SystemTime.splits)

lemma epoch_ok: "time_ok (SinceEpoch 0 0)"
  by (simp add: time_ok_def)

definition set_attr_ok :: "SetAttr \<Rightarrow> bool" where
  "set_attr_ok a \<longleftrightarrow> time_ok (sa_atime a) \<and> time_ok (sa_mtime a)"

definition set_attr_bytes :: "SetAttr \<Rightarrow> u8 list" where
  "set_attr_bytes a = encode_u32 (sa_mode a) @ encode_u32 (sa_uid a) @ encode_u32 (sa_gid a) @ encode_u64 (sa_size a)
    @ time_bytes (sa_atime a) @ time_bytes (sa_mtime a)"

interpretation set_attr: encodable_with decode_set_attr set_attr_bytes set_attr_ok
  by unfold_locales (simp add: decode_set_attr_def set_attr_bytes_def set_attr_ok_def time.dec_enc)

definition stat_ok :: "Stat \<Rightarrow> bool" where
  "stat_ok st \<longleftrightarrow> time_ok (st_atime st) \<and> time_ok (st_mtime st) \<and> time_ok (st_ctime st)"

interpretation stat: encodable_with decode_stat "\<lambda>st. the (encode_stat st)" stat_ok
proof
  fix st z assume "stat_ok st"
  then show "decode_stat (the (encode_stat st) @ z) = Ok st z"
    by (simp add: decode_stat_def encode_stat_def stat_ok_def encode_time_ok time.dec_enc epoch_ok)
qed

section \<open>Requests on the wire\<close>

text \<open>The bytes of a request as the protocol defines them: the type of the message and its fields.\<close>

definition strings_bytes :: "u8 list list \<Rightarrow> u8 list" where
  "strings_bytes ss = concat (map encode_string ss)"

definition request_wire :: "Fcall \<Rightarrow> (u8 \<times> u8 list) option" where
  "request_wire f =
    (case f of
       Tstatfs fid \<Rightarrow> Some (8, encode_u32 fid)
     | Tlopen fid flags \<Rightarrow> Some (12, encode_u32 fid @ encode_u32 flags)
     | Tlcreate fid name flags mode gid \<Rightarrow>
         Some (14, encode_u32 fid @ encode_string name @ encode_u32 flags @ encode_u32 mode @ encode_u32 gid)
     | Tsymlink fid name symtgt gid \<Rightarrow> Some (16, encode_u32 fid @ encode_string name @ encode_string symtgt @ encode_u32 gid)
     | Tmknod dfid name mode major minor gid \<Rightarrow>
         Some (18, encode_u32 dfid @ encode_string name @ encode_u32 mode @ encode_u32 major @ encode_u32 minor @ encode_u32 gid)
     | Treadlink fid \<Rightarrow> Some (22, encode_u32 fid)
     | Tgetattr fid rmask \<Rightarrow> Some (24, encode_u32 fid @ encode_u64 rmask)
     | Tsetattr fid valid attr \<Rightarrow> Some (26, encode_u32 fid @ encode_u32 valid @ set_attr_bytes attr)
     | Txattrwalk fid newfid name \<Rightarrow> Some (30, encode_u32 fid @ encode_u32 newfid @ encode_string name)
     | Txattrcreate fid name sz flags \<Rightarrow> Some (32, encode_u32 fid @ encode_string name @ encode_u64 sz @ encode_u32 flags)
     | Treaddir fid off count \<Rightarrow> Some (40, encode_u32 fid @ encode_u64 off @ encode_u32 count)
     | Tfsync fid \<Rightarrow> Some (50, encode_u32 fid)
     | Tlink dfid fid name \<Rightarrow> Some (70, encode_u32 dfid @ encode_u32 fid @ encode_string name)
     | Tmkdir dfid name mode gid \<Rightarrow> Some (72, encode_u32 dfid @ encode_string name @ encode_u32 mode @ encode_u32 gid)
     | Trenameat odf oldname ndf newname \<Rightarrow>
         Some (74, encode_u32 odf @ encode_string oldname @ encode_u32 ndf @ encode_string newname)
     | Tunlinkat dirfd name flags \<Rightarrow> Some (76, encode_u32 dirfd @ encode_string name @ encode_u32 flags)
     | Tversion msize version \<Rightarrow> Some (100, encode_u32 msize @ encode_string version)
     | Rversion msize version \<Rightarrow> Some (101, encode_u32 msize @ encode_string version)
     | Tauth afid uname aname n \<Rightarrow> Some (102, encode_u32 afid @ encode_string uname @ encode_string aname @ encode_u32 n)
     | Tattach fid afid uname aname n \<Rightarrow>
         Some (104, encode_u32 fid @ encode_u32 afid @ encode_string uname @ encode_string aname @ encode_u32 n)
     | Tflush oldtag \<Rightarrow> Some (108, encode_u16 oldtag)
     | Twalk fid newfid wnames \<Rightarrow>
         Some (110, encode_u32 fid @ encode_u32 newfid @ encode_u16 (of_nat (length wnames)) @ strings_bytes wnames)
     | Tread fid off count \<Rightarrow> Some (116, encode_u32 fid @ encode_u64 off @ encode_u32 count)
     | Twrite fid off dat \<Rightarrow> Some (118, encode_u32 fid @ encode_u64 off @ encode_u32 (of_nat (length dat)) @ dat)
     | Tclunk fid \<Rightarrow> Some (120, encode_u32 fid)
     | _ \<Rightarrow> None)"

text \<open>The strings are valid and their lengths fit their fields, and so are the times.\<close>

definition request_ok :: "Fcall \<Rightarrow> bool" where
  "request_ok f =
    (case f of
       Tlcreate _ name _ _ _ \<Rightarrow> string_ok name
     | Tsymlink _ name symtgt _ \<Rightarrow> string_ok name \<and> string_ok symtgt
     | Tmknod _ name _ _ _ _ \<Rightarrow> string_ok name
     | Tsetattr _ _ attr \<Rightarrow> set_attr_ok attr
     | Txattrwalk _ _ name \<Rightarrow> string_ok name
     | Txattrcreate _ name _ _ \<Rightarrow> string_ok name
     | Tlink _ _ name \<Rightarrow> string_ok name
     | Tmkdir _ name _ _ \<Rightarrow> string_ok name
     | Trenameat _ oldname _ newname \<Rightarrow> string_ok oldname \<and> string_ok newname
     | Tunlinkat _ name _ \<Rightarrow> string_ok name
     | Tversion _ version \<Rightarrow> string_ok version
     | Rversion _ version \<Rightarrow> string_ok version
     | Tauth _ uname aname _ \<Rightarrow> string_ok uname \<and> string_ok aname
     | Tattach _ _ uname aname _ \<Rightarrow> string_ok uname \<and> string_ok aname
     | Twalk _ _ wnames \<Rightarrow> list_all string_ok wnames \<and> length wnames < 2 ^ 16
     | Twrite _ _ dat \<Rightarrow> length dat < 2 ^ 32
     | _ \<Rightarrow> True)"

lemma decode_strings_enc: "list_all string_ok ss \<Longrightarrow> decode_strings (length ss) (strings_bytes ss @ z) = Ok ss z"
  by (induction ss) (simp_all add: strings_bytes_def str.dec_enc)

lemma decode_strings_Ok:
  "decode_strings n r = Ok ss z \<Longrightarrow> r = strings_bytes ss @ z \<and> length ss = n \<and> list_all string_ok ss"
  by (induction n r arbitrary: ss z rule: decode_strings.induct)
    (auto simp: strings_bytes_def and_then_Ok_iff dest!: str.dec_exact)

lemma count_len: "n < 2 ^ 16 \<Longrightarrow> unat (of_nat n :: u16) = n" "n < 2 ^ 32 \<Longrightarrow> unat (of_nat n :: u32) = n"
  by (simp_all only: unat_of_nat) simp_all

lemma decode_body_wire:
  assumes "request_wire f = Some (msg, bs)" "request_ok f"
  shows "decode_body msg (bs @ z) = Ok f z"
  using assms
  by (cases f) (auto simp: request_wire_def request_ok_def decode_body_def str.dec_enc set_attr.dec_enc
      decode_strings_enc read_bytes_append count_len)

lemmas exacts = w8.dec_exact w16.dec_exact w32.dec_exact w64.dec_exact str.dec_exact decode_strings_Ok

lemma unat_16_32: "unat (n :: u16) < 65536" "unat (c :: u32) < 4294967296"
  by (rule order_less_le_trans [OF unsigned_less], simp)+

lemma decode_body_exact:
  assumes "decode_body msg r = Ok f z" "f \<noteq> Unknown" "\<And>a b c. f \<noteq> Tsetattr a b c"
  shows "\<exists>bs. request_wire f = Some (msg, bs) \<and> r = bs @ z \<and> request_ok f"
  using assms
  by (auto simp: decode_body_def and_then_Ok_iff read_bytes_Ok request_wire_def request_ok_def unat_16_32
      split: if_split_asm dest!: exacts)

lemma decode_body_Unknown: "decode_body msg r = Ok Unknown z \<Longrightarrow> z = r"
  by (auto simp: decode_body_def and_then_Ok_iff split: if_split_asm)

lemma length_ints [simp]: "length (encode_u8 a) = 1" "length (encode_u16 b) = 2" "length (encode_u32 c) = 4" "length (encode_u64 d) = 8"
  by (simp_all add: encode_u8_def encode_u16_def encode_u32_def encode_u64_def)

lemma length_dir_entry: "length (encode_dir_entry d) = length (de_name d) + 24"
  by (simp add: encode_dir_entry_def encode_qid_def encode_string_def)

lemma decode_fcall_wire:
  assumes "request_wire f = Some (msg, bs)" "request_ok f"
  shows "decode_fcall (encode_u8 msg @ encode_u16 tag @ bs @ z) = Ok (tag, f) z"
  by (simp add: decode_fcall_def decode_body_wire [OF assms])

lemma decode_fcall_exact:
  assumes "decode_fcall r = Ok (tag, f) z" "f \<noteq> Unknown" "\<And>a b c. f \<noteq> Tsetattr a b c"
  shows "\<exists>msg bs. request_wire f = Some (msg, bs) \<and> request_ok f \<and> r = encode_u8 msg @ encode_u16 tag @ bs @ z"
proof -
  obtain msg r' where m: "r = encode_u8 msg @ encode_u16 tag @ r'" "decode_body msg r' = Ok f z"
    using assms(1) by (auto simp: decode_fcall_def and_then_Ok_iff dest!: exacts)
  then show ?thesis using decode_body_exact [OF m(2) assms(2,3)] by auto
qed



end
