(* ===== verification/Virtio_Block.thy ===== *)
theory Virtio_Block
  imports Virtio_Mmio
begin

text \<open>
  The block devices, \<open>lib/io/src/block\<close>, and the task of the virtio block device,
  \<open>lib/io/src/hw/virtio/block.rs\<close>.

  \<^item> A block device is a file or a shadow of another; the hash map of a shadow is a map. A file is its
    bytes: \<open>read_exact_at\<close> fails past the end and \<open>write_all_at\<close> extends the file, filling a hole with
    zeros. Errors of the host are not modelled.
  \<^item> \<open>None\<close> is a panic, of \<open>unwrap\<close>, \<open>copy_from_slice\<close> or a subtraction that underflows.
  \<^item> \<open>Vec::with_capacity(n)\<close> of bytes has capacity \<open>n\<close>.
\<close>

section \<open>Block devices\<close>

datatype (plugins only: code size) Block = File "u8 list" u64 | Shadow "u64 \<Rightarrow> u8 list option" Block

definition file_read :: "u8 list \<Rightarrow> nat \<Rightarrow> u64 \<Rightarrow> u8 list option" where
  "file_read f n off = (if unat off + n \<le> length f then Some (take n (drop (unat off) f)) else None)"

definition file_write :: "u8 list \<Rightarrow> u8 list \<Rightarrow> u64 \<Rightarrow> u8 list" where
  "file_write f buf off =
    (if buf = [] then f
     else let f = f @ replicate (unat off + length buf - length f) 0 in
       take (unat off) f @ buf @ drop (unat off + length buf) f)"

text \<open>\<open>chunks(512)\<close>: the bytes that are left, and the offset of the next chunk. A chunk found in the
  overlay is copied, which panics when the lengths differ; another is read from the device below.\<close>

function shadow_read :: "(u64 \<Rightarrow> u8 list option) \<Rightarrow> (nat \<Rightarrow> u64 \<Rightarrow> u8 list option) \<Rightarrow> nat \<Rightarrow> u64 \<Rightarrow> u8 list option" where
  "shadow_read overlay rd n off =
    (if n = 0 then Some []
     else
       (let k = min n 512;
            chunk = (case overlay off of
                       None \<Rightarrow> rd k off
                     | Some v \<Rightarrow> if length v = k then Some v else None)
        in Option.bind chunk (\<lambda>c. map_option ((@) c) (shadow_read overlay rd (n - k) (off + 512)))))"
  by pat_completeness auto
termination by (relation "measure (\<lambda>(overlay, rd, n, off). n)") auto

function shadow_write :: "(u64 \<Rightarrow> u8 list option) \<Rightarrow> u8 list \<Rightarrow> u64 \<Rightarrow> (u64 \<Rightarrow> u8 list option)" where
  "shadow_write overlay buf off =
    (if buf = [] then overlay
     else shadow_write (overlay(off := Some (take 512 buf))) (drop 512 buf) (off + 512))"
  by pat_completeness auto
termination by (relation "measure (\<lambda>(overlay, buf, off). length buf)") auto

primrec read_exact_at :: "Block \<Rightarrow> nat \<Rightarrow> u64 \<Rightarrow> u8 list option" where
  "read_exact_at (File f len) = file_read f"
| "read_exact_at (Shadow overlay block) = shadow_read overlay (read_exact_at block)"

definition write_all_at :: "Block \<Rightarrow> u8 list \<Rightarrow> u64 \<Rightarrow> Block" where
  "write_all_at b buf off =
    (case b of
       File f len \<Rightarrow> File (file_write f buf off) len
     | Shadow overlay block \<Rightarrow> Shadow (shadow_write overlay buf off) block)"

primrec block_len :: "Block \<Rightarrow> u64" where
  "block_len (File f len) = len"
| "block_len (Shadow overlay block) = block_len block"

text \<open>\<open>File::new\<close> and \<open>Shadow::new\<close>\<close>

definition file_new :: "u8 list \<Rightarrow> Block" where
  "file_new f = File f (of_nat (length f))"

definition shadow_new :: "Block \<Rightarrow> Block" where
  "shadow_new b = Shadow (\<lambda>_. None) b"

definition write_zero_at :: "Block \<Rightarrow> u64 \<Rightarrow> nat \<Rightarrow> Block" where
  "write_zero_at b off n = write_all_at b (replicate n 0) off"

section \<open>The task\<close>

record VirtioBlkReqHeader =
  h_type :: u32
  h_sector :: u64

text \<open>\<open>read_exact\<close> of 16 bytes and \<open>transmute\<close>\<close>

definition blk_header :: "u8 list \<Rightarrow> VirtioBlkReqHeader" where
  "blk_header bs = \<lparr> h_type = ucast (le_value (take 4 bs)), h_sector = le_value (drop 8 bs) \<rparr>"

datatype (plugins only: code size) blk_done = Unsupported | Completed memory Buffer Block

text \<open>The body of the loop, for a buffer that was taken.\<close>

definition blk_request :: "memory \<Rightarrow> Buffer \<Rightarrow> Block \<Rightarrow> blk_done option" where
  "blk_request m b file =
    Option.bind (read_exact m 16 (reader b)) (\<lambda>(hdr, rd).
      let header = blk_header hdr;
          reply = (\<lambda>bs file. map_option (\<lambda>(m, n, _). Completed m (b\<lparr> bytes_written := n \<rparr>) file)
            (write_all bs (m, bytes_written b, writer b)))
      in
      if h_type header = 0 then
        (if total_len (writer b) = 0 then None
         else Option.bind (read_exact_at file (total_len (writer b) - 1) (h_sector header * 512)) (\<lambda>io_buffer.
           reply (io_buffer @ [0]) file))
      else if h_type header = 1 then
        (if total_len (reader b) < 16 then None
         else Option.bind (read_exact m (total_len (reader b) - 16) rd) (\<lambda>(io_buffer, _).
           reply [0] (write_all_at file io_buffer (h_sector header * 512))))
      else if h_type header = 8 then reply (replicate (total_len (writer b)) 0) file
      else Some Unsupported)"

text \<open>
  A pass of the loop: a buffer is taken, served and, when it is dropped, put back; the interrupt is raised
  unless the request was not supported. The result says whether it was; \<open>None\<close> as the first component is
  a task that waits or has ended.
\<close>

definition blk_task :: "nat \<Rightarrow> memory \<Rightarrow> QueueInner \<Rightarrow> Block \<Rightarrow> (bool option \<times> memory \<times> QueueInner \<times> Block) option" where
  "blk_task t m q file =
    (case poll_take t m q of
       None \<Rightarrow> None
     | Some (Some (Taken b), q) \<Rightarrow>
         (case blk_request m b file of
            None \<Rightarrow> None
          | Some Unsupported \<Rightarrow> let (m, q) = put b m q in Some (Some False, m, q, file)
          | Some (Completed m b file) \<Rightarrow> let (m, q) = put b m q in Some (Some True, m, q, file))
     | Some (_, q) \<Rightarrow> Some (None, m, q, file))"

section \<open>What a block device is\<close>

text \<open>A disk of sectors of 512 bytes.\<close>

definition offset :: "nat \<Rightarrow> u64" where
  "offset s = of_nat (512 * s)"

primrec sectors :: "Block \<Rightarrow> nat" where
  "sectors (File f len) = length f div 512"
| "sectors (Shadow overlay b) = sectors b"

primrec sector :: "Block \<Rightarrow> nat \<Rightarrow> u8 list" where
  "sector (File f len) s = take 512 (drop (512 * s) f)"
| "sector (Shadow overlay b) s = (case overlay (offset s) of Some v \<Rightarrow> v | None \<Rightarrow> sector b s)"

primrec block_ok :: "Block \<Rightarrow> bool" where
  "block_ok (File f len) \<longleftrightarrow> length f = unat len \<and> 512 dvd length f"
| "block_ok (Shadow overlay b) \<longleftrightarrow> block_ok b \<and>
    (\<forall>s < sectors b. \<forall>v. overlay (offset s) = Some v \<longrightarrow> length v = 512)"

definition chunk :: "u8 list \<Rightarrow> nat \<Rightarrow> u8 list" where
  "chunk bs i = take 512 (drop (512 * i) bs)"

lemma sectors_bound: "block_ok b \<Longrightarrow> 512 * sectors b < 2 ^ 64"
proof (induction b)
  case (File f len)
  then have "512 * sectors (File f len) \<le> unat len" by simp
  from order_le_less_trans [OF this unsigned_less] show ?case by simp
qed simp

lemma offset_unat: "512 * s < 2 ^ 64 \<Longrightarrow> unat (offset s) = 512 * s"
  unfolding offset_def by (simp only: unat_of_nat) simp

lemma offset_Suc: "offset s + 512 = offset (Suc s)"
  by (simp add: offset_def)

lemma offset_inj:
  assumes "512 * s < 2 ^ 64" "512 * t < 2 ^ 64"
  shows "(offset s) = offset t \<longleftrightarrow> s = t"
proof
  assume "(offset s) = offset t"
  then have "unat (offset s) = unat (offset t)" by (rule arg_cong)
  then show "s = t" using assms by (simp add: offset_unat)
qed simp

lemma chunks_concat: "concat (map (chunk bs) [s..<s + k]) = take (512 * k) (drop (512 * s) bs)"
proof (induction k)
  case (Suc k)
  have "take (512 * Suc k) (drop (512 * s) bs) = take (512 * k) (drop (512 * s) bs) @ take 512 (drop (512 * k) (drop (512 * s) bs))"
    using take_add [of "512 * k" 512 "drop (512 * s) bs"] by (simp add: add.commute)
  then show ?case using Suc by (simp add: chunk_def drop_drop add.commute distrib_left)
qed simp

section \<open>Reading and writing sectors\<close>

declare shadow_read.simps [simp del] shadow_write.simps [simp del]

lemma shadow_read_sectors:
  assumes "\<And>t. s \<le> t \<Longrightarrow> t < s + k \<Longrightarrow> overlay (offset t) = None \<Longrightarrow> rd 512 (offset t) = Some (f t)"
    "\<And>t v. s \<le> t \<Longrightarrow> t < s + k \<Longrightarrow> overlay (offset t) = Some v \<Longrightarrow> length v = 512 \<and> f t = v"
  shows "shadow_read overlay rd (512 * k) (offset s) = Some (concat (map f [s..<s + k]))"
  using assms
proof (induction k arbitrary: s)
  case (Suc k)
  have ih: "shadow_read overlay rd (512 * k) (offset (Suc s)) = Some (concat (map f [Suc s..<Suc s + k]))"
    by (rule Suc.IH; rule Suc.prems; simp)
  have c: "(case overlay (offset s) of None \<Rightarrow> rd 512 (offset s) | Some v \<Rightarrow> if length v = 512 then Some v else None)
      = Some (f s)"
    using Suc.prems(1) [of s] Suc.prems(2) [of s] by (auto split: option.split)
  have n: "(512 * Suc k = 0) = False" "min (512 * Suc k) 512 = 512" "512 * Suc k - 512 = 512 * k" by simp_all
  have step: "shadow_read overlay rd (512 * Suc k) (offset s)
      = Option.bind (Some (f s)) (\<lambda>c. map_option ((@) c) (shadow_read overlay rd (512 * k) (offset (Suc s))))"
    by (subst shadow_read.simps) (simp only: n c if_False Let_def offset_Suc)
  have u: "[s..<s + Suc k] = s # [Suc s..<Suc s + k]" by (simp add: upt_conv_Cons)
  show ?case unfolding step ih u by simp
qed (simp add: shadow_read.simps)

lemma shadow_write_sectors:
  assumes "length buf = 512 * k" "512 * (s + k) < 2 ^ 64" "512 * t < 2 ^ 64"
  shows "shadow_write overlay buf (offset s) (offset t) =
    (if s \<le> t \<and> t < s + k then Some (chunk buf (t - s)) else overlay (offset t))"
  using assms
proof (induction k arbitrary: s buf overlay)
  case (Suc k)
  let ?o = "overlay(offset s := Some (take 512 buf))"
  have ih: "shadow_write ?o (drop 512 buf) (offset (Suc s)) (offset t) =
    (if Suc s \<le> t \<and> t < Suc s + k then Some (chunk (drop 512 buf) (t - Suc s)) else ?o (offset t))"
    by (rule Suc.IH) (use Suc.prems in auto)
  have "buf \<noteq> []" using Suc.prems(1) by auto
  then have step: "shadow_write overlay buf (offset s) = shadow_write ?o (drop 512 buf) (offset (Suc s))"
    by (subst shadow_write.simps) (simp add: offset_Suc)
  have o: "?o (offset t) = (if s = t then Some (take 512 buf) else overlay (offset t))"
    using offset_inj [of t s] Suc.prems(2,3) by auto
  have c: "chunk (drop 512 buf) (t - Suc s) = chunk buf (t - s)" if "Suc s \<le> t"
  proof -
    have "512 * (t - s) = 512 + 512 * (t - Suc s)" using that by simp
    then show ?thesis by (simp add: chunk_def add.commute)
  qed
  show ?case unfolding step ih o using c by (auto simp: chunk_def)
qed (auto simp: shadow_write.simps)

lemma offset_in_disk: "block_ok b \<Longrightarrow> s \<le> sectors b \<Longrightarrow> 512 * s < 2 ^ 64"
  using sectors_bound [of b] by (meson mult_le_mono2 order_le_less_trans)

lemma sector_File: "sector (File f len) = chunk f"
  by (simp add: fun_eq_iff chunk_def)

lemma read_sectors:
  "block_ok b \<Longrightarrow> s + k \<le> sectors b \<Longrightarrow>
    read_exact_at b (512 * k) (offset s) = Some (concat (map (sector b) [s..<s + k]))"
proof (induction b arbitrary: s k)
  case (File f len)
  have u: "unat (offset s) = 512 * s" using offset_in_disk [OF File(1)] File(2) by (intro offset_unat) auto
  have "512 * s + 512 * k \<le> length f" using File by (auto simp: dvd_def)
  moreover have "concat (map (sector (File f len)) [s..<s + k]) = take (512 * k) (drop (512 * s) f)"
    using chunks_concat [of f s k] by (simp add: sector_File)
  ultimately show ?case using u by (simp add: file_read_def del: sector.simps)
next
  case (Shadow overlay b)
  have one: "read_exact_at b 512 (offset t) = Some (sector b t)" if "t < s + k" for t
    using Shadow.IH [of t 1] Shadow.prems that by simp
  have l: "length v = 512" if "t < s + k" "overlay (offset t) = Some v" for t v
  proof -
    have "\<forall>s < sectors b. \<forall>v. overlay (offset s) = Some v \<longrightarrow> length v = 512" "s + k \<le> sectors b"
      using Shadow.prems by simp_all
    then show ?thesis using that by (meson order_less_le_trans)
  qed
  have "shadow_read overlay (read_exact_at b) (512 * k) (offset s)
      = Some (concat (map (sector (Shadow overlay b)) [s..<s + k]))"
    by (rule shadow_read_sectors) (use one l in auto)
  then show ?case by (simp del: sector.simps)
qed

lemma chunk_append_right: "length xs = 512 * n \<Longrightarrow> n \<le> t \<Longrightarrow> chunk (xs @ ys) t = chunk ys (t - n)"
  by (simp add: chunk_def diff_mult_distrib2)

lemma chunk_append_left:
  assumes "length xs = 512 * n" "t < n"
  shows "chunk (xs @ ys) t = chunk xs t"
proof -
  have "512 * t + 512 \<le> length xs" using assms by simp
  then show ?thesis by (simp add: chunk_def)
qed

lemma chunk_take:
  assumes "t < n"
  shows "chunk (take (512 * n) f) t = chunk f t"
proof -
  have "512 \<le> 512 * n - 512 * t" using assms by simp
  then show ?thesis by (simp add: chunk_def drop_take min_def)
qed

lemma chunk_drop: "chunk (drop (512 * n) f) t = chunk f (n + t)"
  by (simp add: chunk_def distrib_left add.commute)

lemma splice_chunk:
  assumes "length f = 512 * n" "length buf = 512 * k" "s + k \<le> n" "t < n"
  shows "chunk (take (512 * s) f @ buf @ drop (512 * (s + k)) f) t = (if s \<le> t \<and> t < s + k then chunk buf (t - s) else chunk f t)"
proof -
  let ?pre = "take (512 * s) f" and ?post = "drop (512 * (s + k)) f"
  have p: "length ?pre = 512 * s" using assms by simp
  consider "t < s" | "s \<le> t" "t < s + k" | "s + k \<le> t" by linarith
  then show ?thesis
  proof cases
    case 1
    then show ?thesis using chunk_append_left [OF p] chunk_take by auto
  next
    case 2
    then show ?thesis using chunk_append_right [OF p, of t] chunk_append_left [OF assms(2), of "t - s" ?post] by auto
  next
    case 3
    then show ?thesis
      using chunk_append_right [OF p, of t] chunk_append_right [OF assms(2), of "t - s" ?post]
        chunk_drop [of "s + k" f "t - (s + k)"] by simp
  qed
qed

lemma write_sectors:
  assumes "block_ok b" "length buf = 512 * k" "s + k \<le> sectors b"
  shows "block_ok (write_all_at b buf (offset s))" "sectors (write_all_at b buf (offset s)) = sectors b"
    "block_len (write_all_at b buf (offset s)) = block_len b"
    "t < sectors b \<Longrightarrow> sector (write_all_at b buf (offset s)) t = (if s \<le> t \<and> t < s + k then chunk buf (t - s) else sector b t)"
proof -
  have b: "512 * (s + k) < 2 ^ 64" using offset_in_disk assms(1,3) by blast
  have "block_ok (write_all_at b buf (offset s)) \<and> sectors (write_all_at b buf (offset s)) = sectors b
    \<and> block_len (write_all_at b buf (offset s)) = block_len b
    \<and> (t < sectors b \<longrightarrow> sector (write_all_at b buf (offset s)) t = (if s \<le> t \<and> t < s + k then chunk buf (t - s) else sector b t))"
  proof (cases b)
    case (File f len)
    have "512 dvd length f" using assms(1) unfolding File by auto
    then obtain n where n: "length f = 512 * n" by (elim dvdE)
    then have sk: "s + k \<le> n" using assms(3) File by simp
    have "unat (offset s) = 512 * s" using b by (intro offset_unat) simp
    then have w: "file_write f buf (offset s) = take (512 * s) f @ buf @ drop (512 * (s + k)) f"
      using sk n assms(2) by (auto simp: file_write_def Let_def distrib_left)
    then have l: "length (file_write f buf (offset s)) = length f" using n sk assms(2)
      by (simp add: min_absorb2 distrib_left)
    have "chunk (file_write f buf (offset s)) t = (if s \<le> t \<and> t < s + k then chunk buf (t - s) else chunk f t)" if "t < n"
      unfolding w using splice_chunk [OF n assms(2) sk that] .
    moreover have "512 dvd unat len" using assms(1) File by auto
    ultimately show ?thesis using File l n assms(1) by (simp add: write_all_at_def sector_File del: sector.simps)
  next
    case (Shadow overlay c)
    have w: "shadow_write overlay buf (offset s) (offset t) =
        (if s \<le> t \<and> t < s + k then Some (chunk buf (t - s)) else overlay (offset t))" if "t < sectors c" for t
      using shadow_write_sectors [OF assms(2) b] offset_in_disk [OF assms(1), of t] that Shadow by simp
    have c: "length (chunk buf (t - s)) = 512" if "s \<le> t" "t < s + k" for t
    proof -
      have "512 * (t - s) + 512 \<le> 512 * k" using that by simp
      then show ?thesis using assms(2) by (simp add: chunk_def)
    qed
    show ?thesis using Shadow assms(1) w c by (auto simp: write_all_at_def split: if_splits)
  qed
  then show "block_ok (write_all_at b buf (offset s))" "sectors (write_all_at b buf (offset s)) = sectors b"
    "block_len (write_all_at b buf (offset s)) = block_len b"
    "t < sectors b \<Longrightarrow> sector (write_all_at b buf (offset s)) t = (if s \<le> t \<and> t < s + k then chunk buf (t - s) else sector b t)"
    by blast+
qed

lemma sector_length: "block_ok b \<Longrightarrow> t < sectors b \<Longrightarrow> length (sector b t) = 512"
proof (induction b)
  case (File f len)
  then have "512 * Suc t \<le> length f" by (auto simp: dvd_def)
  then show ?case by simp
qed (auto split: option.split)

lemma sectors_length: "block_ok b \<Longrightarrow> s + k \<le> sectors b \<Longrightarrow> length (concat (map (sector b) [s..<s + k])) = 512 * k"
  by (induction k) (simp_all add: sector_length)

section \<open>A request\<close>

definition buffer_ok :: "Buffer \<Rightarrow> bool" where
  "buffer_ok b \<longleftrightarrow> slices_ok (read_part b) \<and> slices_ok (write_part b) \<and> bytes_written b = 0 \<and>
    read_len b = span (read_part b) \<and> write_len b = span (write_part b)"

definition request_bytes :: "memory \<Rightarrow> Buffer \<Rightarrow> u8 list" where
  "request_bytes m b = map m (flat (read_part b))"

definition request_header :: "memory \<Rightarrow> Buffer \<Rightarrow> VirtioBlkReqHeader" where
  "request_header m b = blk_header (take 16 (request_bytes m b))"

lemma write_at_read: "distinct as \<Longrightarrow> length as = length bs \<Longrightarrow> map (write_at as bs m) as = bs"
proof (induction as bs m rule: write_at.induct)
  case (1 a as b bs m)
  then show ?case using write_at_other [of a as bs "m(a := b)"] by (simp add: fun_upd_def)
qed simp_all

lemma rest_new_cursor: "rest (new_cursor sl n) = flat sl" "pos (new_cursor sl n) = 0" "slices (new_cursor sl n) = sl"
  by (simp_all add: rest_def new_cursor_def)

lemma read_header:
  assumes "buffer_ok b" "16 \<le> span (read_part b)"
  obtains rd where "read_exact m 16 (reader b) = Some (take 16 (request_bytes m b), rd)" "cursor_ok rd"
    "rest rd = drop 16 (flat (read_part b))"
proof -
  have c: "cursor_ok (reader b)" using assms(1) by (simp add: buffer_ok_def reader_def new_cursor_ok)
  have r: "rest (reader b) = flat (read_part b)" "slices (reader b) = read_part b" "pos (reader b) = 0"
    by (simp_all add: reader_def rest_new_cursor)
  from read_exact_spec [OF c, of 16 m] obtain rd where
    "read_exact m 16 (reader b) = Some (map m (take 16 (flat (read_part b))), rd)" "cursor_ok rd"
    "slices rd = read_part b" "pos rd = 16"
    using assms(2) r by (auto split: option.splits)
  then show ?thesis using that by (simp add: request_bytes_def take_map rest_def)
qed

lemma read_rest:
  assumes "cursor_ok rd" "n \<le> length (rest rd)"
  obtains rd' where "read_exact m n rd = Some (map m (take n (rest rd)), rd')"
  using read_exact_spec [OF assms(1), of n m] assms(2) by (auto split: option.splits)

lemma write_reply:
  assumes "buffer_ok b" "bs \<noteq> []" "length bs \<le> span (write_part b)"
  obtains c where "write_all bs (m, bytes_written b, writer b)
    = Some (write_at (take (length bs) (flat (write_part b))) bs m, length bs, c)"
proof -
  have c: "cursor_ok (writer b)" using assms(1) by (simp add: buffer_ok_def writer_def new_cursor_ok)
  have r: "rest (writer b) = flat (write_part b)" "pos (writer b) = 0" by (simp_all add: writer_def rest_new_cursor)
  show ?thesis
    using write_all_spec [OF c, of bs m "bytes_written b"] assms r that
    by (auto simp: buffer_ok_def split: option.splits)
qed

lemma offset_sector: "w * 512 = offset (unat w)"
  by (simp add: offset_def)

lemma blk_out:
  assumes "buffer_ok b" "16 \<le> span (read_part b)" "h_type (request_header m b) = 1" "1 \<le> span (write_part b)"
  shows "blk_request m b file = Some (Completed (m(hd (flat (write_part b)) := 0)) (b\<lparr> bytes_written := 1 \<rparr>)
    (write_all_at file (drop 16 (request_bytes m b)) (offset (unat (h_sector (request_header m b))))))"
proof -
  obtain rd where rd: "read_exact m 16 (reader b) = Some (take 16 (request_bytes m b), rd)" "cursor_ok rd"
    "rest rd = drop 16 (flat (read_part b))" using read_header [OF assms(1,2)] .
  have len: "total_len (reader b) = span (read_part b)"
    using assms(1) by (simp add: buffer_ok_def reader_def new_cursor_def)
  obtain rd' where rd': "read_exact m (span (read_part b) - 16) rd = Some (drop 16 (request_bytes m b), rd')"
    using read_rest [OF rd(2), of "span (read_part b) - 16" m] rd(3) by (auto simp: request_bytes_def drop_map)
  obtain c where c: "write_all [0] (m, bytes_written b, writer b)
      = Some (write_at (take 1 (flat (write_part b))) [0] m, 1, c)"
    using write_reply [OF assms(1), of "[0]" m] assms(4) by auto
  have "flat (write_part b) \<noteq> []" using assms(4) length_flat by (metis list.size(3) not_one_le_zero)
  then have w: "write_at (take 1 (flat (write_part b))) [0] m = m(hd (flat (write_part b)) := 0)"
    by (cases "flat (write_part b)") simp_all
  show ?thesis
    using assms(2,3) by (simp add: blk_request_def rd(1) len rd' c [unfolded w] request_header_def Let_def offset_sector)
qed

lemma blk_in:
  assumes "buffer_ok b" "16 \<le> span (read_part b)" "h_type (request_header m b) = 0"
    "span (write_part b) = Suc (length d)"
    "read_exact_at file (length d) (offset (unat (h_sector (request_header m b)))) = Some d"
  shows "blk_request m b file = Some (Completed (write_at (flat (write_part b)) (d @ [0]) m)
    (b\<lparr> bytes_written := length d + 1 \<rparr>) file)"
proof -
  obtain rd where rd: "read_exact m 16 (reader b) = Some (take 16 (request_bytes m b), rd)"
    using read_header [OF assms(1,2)] by metis
  have len: "total_len (writer b) = Suc (length d)"
    using assms(1,4) by (simp add: buffer_ok_def writer_def new_cursor_def)
  obtain c where c: "write_all (d @ [0]) (m, bytes_written b, writer b)
      = Some (write_at (flat (write_part b)) (d @ [0]) m, length d + 1, c)"
    using write_reply [OF assms(1), of "d @ [0]" m] assms(4) by auto
  show ?thesis
    using assms(3,5) by (simp add: blk_request_def rd len c request_header_def Let_def offset_sector)
qed

text \<open>
  C40. The virtio block device is a disk of sectors, whether its file is written or shadowed. A write
  request (type 1) of whole sectors inside the disk replaces exactly those sectors by the data that
  follows the header, keeps every other and the size, writes a status of zero to the first byte of the
  reply and reports one byte written. A read request (type 0) changes no sector and fills the reply with
  the sectors that were last written, a status of zero after them, and reports all its bytes.
\<close>

theorem blk_request_disk:
  assumes "buffer_ok b" "block_ok file" "16 \<le> span (read_part b)"
    and "s = unat (h_sector (request_header m b))" "s + k \<le> sectors file"
  shows "(h_type (request_header m b) = 1 \<and> span (read_part b) = 16 + 512 * k \<and> 1 \<le> span (write_part b) \<longrightarrow>
      (\<exists>file'. blk_request m b file =
          Some (Completed (m(hd (flat (write_part b)) := 0)) (b\<lparr> bytes_written := 1 \<rparr>) file')
        \<and> block_ok file' \<and> sectors file' = sectors file \<and> block_len file' = block_len file
        \<and> (\<forall>t < sectors file. sector file' t =
            (if s \<le> t \<and> t < s + k then chunk (drop 16 (request_bytes m b)) (t - s) else sector file t))))
    \<and> (h_type (request_header m b) = 0 \<and> span (write_part b) = 512 * k + 1 \<and> distinct (flat (write_part b)) \<longrightarrow>
      (\<exists>m'. blk_request m b file = Some (Completed m' (b\<lparr> bytes_written := 512 * k + 1 \<rparr>) file)
        \<and> map m' (flat (write_part b)) = concat (map (sector file) [s..<s + k]) @ [0]
        \<and> (\<forall>a. a \<notin> set (flat (write_part b)) \<longrightarrow> m' a = m a)))"
proof (intro conjI impI)
  assume h: "h_type (request_header m b) = 1 \<and> span (read_part b) = 16 + 512 * k \<and> 1 \<le> span (write_part b)"
  have l: "length (drop 16 (request_bytes m b)) = 512 * k" using h by (simp add: request_bytes_def)
  show "\<exists>file'. blk_request m b file =
          Some (Completed (m(hd (flat (write_part b)) := 0)) (b\<lparr> bytes_written := 1 \<rparr>) file')
        \<and> block_ok file' \<and> sectors file' = sectors file \<and> block_len file' = block_len file
        \<and> (\<forall>t < sectors file. sector file' t =
            (if s \<le> t \<and> t < s + k then chunk (drop 16 (request_bytes m b)) (t - s) else sector file t))"
    using blk_out [OF assms(1,3), of m, folded assms(4)] h write_sectors [OF assms(2) l assms(5)]
    by (intro exI [of _ "write_all_at file (drop 16 (request_bytes m b)) (offset s)"]) simp
next
  assume h: "h_type (request_header m b) = 0 \<and> span (write_part b) = 512 * k + 1 \<and> distinct (flat (write_part b))"
  let ?d = "concat (map (sector file) [s..<s + k])"
  have r: "read_exact_at file (512 * k) (offset s) = Some ?d" by (rule read_sectors [OF assms(2,5)])
  have l: "length ?d = 512 * k" by (rule sectors_length [OF assms(2,5)])
  have "blk_request m b file = Some (Completed (write_at (flat (write_part b)) (?d @ [0]) m)
      (b\<lparr> bytes_written := 512 * k + 1 \<rparr>) file)"
    using blk_in [OF assms(1,3), of m ?d "file"] h r l by (simp add: assms(4) [symmetric])
  moreover have "map (write_at (flat (write_part b)) (?d @ [0]) m) (flat (write_part b)) = ?d @ [0]"
    using h l by (intro write_at_read) auto
  ultimately show "\<exists>m'. blk_request m b file = Some (Completed m' (b\<lparr> bytes_written := 512 * k + 1 \<rparr>) file)
        \<and> map m' (flat (write_part b)) = ?d @ [0] \<and> (\<forall>a. a \<notin> set (flat (write_part b)) \<longrightarrow> m' a = m a)"
    using write_at_other by blast
qed

text \<open>A disk of two sectors, shadowed; a request to write its second sector and one to read it.\<close>

definition sample_disk :: Block where
  "sample_disk = shadow_new (file_new (replicate 1024 0))"

definition write_request :: Buffer where
  "write_request = \<lparr> head_idx = 0, bytes_written = 0, read_part = [(0, 16), (4096, 512)], write_part = [(8192, 1)],
     read_len = 528, write_len = 1 \<rparr>"

definition read_request :: Buffer where
  "read_request = \<lparr> head_idx = 0, bytes_written = 0, read_part = [(0, 16)], write_part = [(4096, 512), (8192, 1)],
     read_len = 16, write_len = 513 \<rparr>"

lemma sample_disk_ok: "block_ok sample_disk" "sectors sample_disk = 2"
  by (simp_all add: sample_disk_def shadow_new_def file_new_def)

definition write_memory :: memory where
  "write_memory = (\<lambda>_. 7)(0 := 1, 1 := 0, 2 := 0, 3 := 0, 8 := 1, 9 := 0, 10 := 0, 11 := 0, 12 := 0, 13 := 0, 14 := 0, 15 := 0)"

lemma addr_range_upt: "addr_range a n = map (\<lambda>i. a + of_nat i) [0..<n]"
  by (rule nth_equalityI) (simp_all add: nth_addr_range)

lemma sample_header_range: "addr_range 0 16 = [0, 1, 2, 3, 4, 5, 6, 7, 8, 9, 10, 11, 12, 13, 14, 15]"
  by code_simp

lemma sample_requests:
  "buffer_ok write_request" "buffer_ok read_request"
  "request_header write_memory write_request = \<lparr> h_type = 1, h_sector = 1 \<rparr>"
  "request_header ((\<lambda>_. 0)(8 := 1)) read_request = \<lparr> h_type = 0, h_sector = 1 \<rparr>"
proof -
  show "buffer_ok write_request" "buffer_ok read_request"
    by (simp_all add: buffer_ok_def write_request_def read_request_def slices_ok_def)
  have "take 16 (request_bytes write_memory write_request) = map write_memory (addr_range 0 16)"
    "take 16 (request_bytes ((\<lambda>_. 0)(8 := 1)) read_request) = map ((\<lambda>_. 0)(8 := 1)) (addr_range 0 16)"
    by (simp_all add: request_bytes_def write_request_def read_request_def take_map)
  moreover have "map write_memory (addr_range 0 16) = [1, 0, 0, 0, 7, 7, 7, 7, 1, 0, 0, 0, 0, 0, 0, 0]"
    "map ((\<lambda>_. 0)(8 := 1)) (addr_range 0 16) = [0, 0, 0, 0, 0, 0, 0, 0, 1 :: u8, 0, 0, 0, 0, 0, 0, 0]"
    unfolding sample_header_range by (simp_all add: write_memory_def)
  ultimately show "request_header write_memory write_request = \<lparr> h_type = 1, h_sector = 1 \<rparr>"
    "request_header ((\<lambda>_. 0)(8 := 1)) read_request = \<lparr> h_type = 0, h_sector = 1 \<rparr>"
    by (simp_all add: request_header_def blk_header_def le_value_def)
qed

lemma unat_sample_addr: "i < 2 ^ 20 \<Longrightarrow> unat (4096 + of_nat i :: u64) = 4096 + i"
  using unat_of_nat [of "4096 + i", where 'a = 64] by simp

lemma sample_data: "chunk (drop 16 (request_bytes write_memory write_request)) 0 = replicate 512 7"
proof -
  have m: "write_memory a = 7" if "16 \<le> a" for a using that by (auto simp: write_memory_def word_le_nat_alt)
  have "write_memory (4096 + of_nat i) = 7" if "i < 512" for i
    using that unat_sample_addr [of i] by (intro m) (simp add: word_le_nat_alt)
  then have "map write_memory (addr_range 4096 512) = replicate 512 7"
    by (intro nth_equalityI) (simp_all add: addr_range_upt)
  then show ?thesis by (simp add: chunk_def request_bytes_def write_request_def drop_map)
qed

lemma sample_reply: "distinct (flat (write_part read_request))"
proof -
  have "inj_on (\<lambda>i. 4096 + of_nat i :: u64) (set [0..<512])"
    by (rule inj_on_inverseI [where g = "\<lambda>a. unat a - 4096"]) (simp add: unat_sample_addr)
  moreover have "unat a < 8192" if "a \<in> set (addr_range 4096 512)" for a
    using that by (auto simp: addr_range_upt unat_sample_addr)
  then have "8192 \<notin> set (addr_range 4096 512)" by fastforce
  ultimately show ?thesis
    by (simp add: read_request_def addr_range_upt distinct_map)
qed

theorem blk_request_disk_witness:
  "\<exists>m b disk m' b'. blk_request write_memory write_request sample_disk = Some (Completed m b disk)
     \<and> sector disk 0 = sector sample_disk 0 \<and> sector disk 1 = replicate 512 7
     \<and> blk_request ((\<lambda>_. 0)(8 := 1)) read_request disk = Some (Completed m' b' disk)
     \<and> map m' (flat (write_part read_request)) = replicate 512 7 @ [0] \<and> bytes_written b' = 513"
proof -
  have p: "span (read_part write_request) = 16 + 512 * 1" "span (write_part write_request) = 1"
    "span (read_part read_request) = 16" "span (write_part read_request) = 512 * 1 + 1"
    by (simp_all add: write_request_def read_request_def)
  obtain m b disk where w: "blk_request write_memory write_request sample_disk = Some (Completed m b disk)"
    "block_ok disk" "sectors disk = 2" "sector disk 0 = sector sample_disk 0" "sector disk 1 = replicate 512 7"
    using blk_request_disk [OF sample_requests(1) sample_disk_ok(1), of 1 write_memory 1] sample_requests(3) p
      sample_disk_ok(2) sample_data
    by (auto simp del: sector.simps)
  obtain m' where "blk_request ((\<lambda>_. 0)(8 := 1)) read_request disk = Some (Completed m' (read_request\<lparr> bytes_written := 513 \<rparr>) disk)"
    "map m' (flat (write_part read_request)) = replicate 512 7 @ [0]"
    using blk_request_disk [OF sample_requests(2) w(2), of 1 "(\<lambda>_. 0)(8 := 1)" 1] sample_requests(4) p w(3,5)
      sample_reply
    by (auto simp del: flat_simps)
  then show ?thesis using w by fastforce
qed

text \<open>After a write of less than a sector, reading that sector of a shadow fails.\<close>

lemma shadow_short_write: "read_exact_at (write_all_at sample_disk [1] 0) 512 0 = None"
  by (simp add: sample_disk_def shadow_new_def write_all_at_def shadow_write.simps shadow_read.simps)

end
