(* ===== verification/Virtio_Tasks.thy ===== *)
theory Virtio_Tasks
  imports Virtio_Block
begin

text \<open>
  The tasks of the other virtio devices: transmission and reception of \<open>network.rs\<close> and \<open>console.rs\<close>, and
  the entropy source of \<open>rng.rs\<close>.

  \<^item> Each definition is one pass of the loop of a task for a buffer that was taken; \<open>None\<close> is a panic. The
    packet, the bytes typed at the console and the random bytes come from the host: they are arguments.
  \<^item> The buffer that is dropped at the end of a pass is put back by \<open>put\<close>.
\<close>

section \<open>Network\<close>

definition net_hdr_len :: nat where
  "net_hdr_len = 12"

text \<open>\<open>VirtioNetHeader\<close>, with \<open>num_buffers\<close> one\<close>

definition net_header :: "u8 list" where
  "net_header = replicate 10 0 @ [1, 0]"

text \<open>The packet that is sent. A buffer that is too short is reported and then used all the same.\<close>

definition net_tx :: "memory \<Rightarrow> Buffer \<Rightarrow> u8 list option" where
  "net_tx m b =
    (let len = total_len (reader b) in
     if len < net_hdr_len then None
     else map_option fst (read_exact m (len - net_hdr_len) (snd (seek (SeekStart (of_nat net_hdr_len)) (reader b)))))"

datatype (plugins only: code size) net_received = RxDiscarded | RxEnds | RxDone

text \<open>A packet that arrives: dropped when there is no buffer, the end of the task when the queue is not
  ready or the buffer is too small, which puts it back unused.\<close>

definition net_rx :: "u8 list \<Rightarrow> memory \<Rightarrow> QueueInner \<Rightarrow> (net_received \<times> memory \<times> QueueInner) option" where
  "net_rx packet m q =
    Option.bind (try_take m q) (\<lambda>(r, q).
      case r of
        QueueNotReady \<Rightarrow> Some (RxEnds, m, q)
      | NoBuffer \<Rightarrow> Some (RxDiscarded, m, q)
      | Taken b \<Rightarrow>
          if total_len (writer b) < length net_header + length packet
          then (let (m, q) = put b m q in Some (RxEnds, m, q))
          else
            Option.bind (write_all net_header (m, bytes_written b, writer b)) (\<lambda>w.
              Option.bind (write_all packet w) (\<lambda>(m, n, _).
                let (m, q) = put (b\<lparr> bytes_written := n \<rparr>) m q in Some (RxDone, m, q))))"

section \<open>Console and entropy\<close>

definition console_tx :: "memory \<Rightarrow> Buffer \<Rightarrow> u8 list option" where
  "console_tx m b = map_option fst (read_exact m (total_len (reader b)) (reader b))"

definition console_rx :: "u8 list \<Rightarrow> memory \<Rightarrow> Buffer \<Rightarrow> (memory \<times> Buffer) option" where
  "console_rx bs m b =
    map_option (\<lambda>(m, n, _). (m, b\<lparr> bytes_written := n \<rparr>)) (write_all bs (m, bytes_written b, writer b))"

text \<open>\<open>io::copy\<close> from the generator limited to the length of the writer; \<open>random n\<close> are its next bytes.\<close>

definition rng_fill :: "(nat \<Rightarrow> u8 list) \<Rightarrow> memory \<Rightarrow> Buffer \<Rightarrow> (memory \<times> Buffer) option" where
  "rng_fill random m b = console_rx (random (total_len (writer b))) m b"

section \<open>What they transfer\<close>

lemma total_len_halves: "buffer_ok b \<Longrightarrow> total_len (reader b) = span (read_part b)"
  "buffer_ok b \<Longrightarrow> total_len (writer b) = span (write_part b)"
  by (simp_all add: buffer_ok_def reader_def writer_def new_cursor_def)

lemma net_tx_packet:
  assumes "buffer_ok b"
  shows "net_tx m b = (if span (read_part b) < 12 then None else Some (drop 12 (request_bytes m b)))"
proof -
  have sl: "slices_ok (read_part b)" using assms by (simp add: buffer_ok_def)
  have "map_option fst (read_exact m (span (read_part b) - 12) (snd (seek (SeekStart 12) (reader b))))
      = Some (drop 12 (request_bytes m b))"
    using read_half_at_eq [OF sl, of m 12 "span (read_part b) - 12"]
    by (simp add: read_half_at_def request_bytes_def drop_map)
  then show ?thesis by (simp add: net_tx_def total_len_halves [OF assms] net_hdr_len_def)
qed

lemma console_tx_bytes:
  assumes "buffer_ok b"
  shows "console_tx m b = Some (request_bytes m b)"
proof -
  have c: "cursor_ok (reader b)" using assms by (simp add: buffer_ok_def reader_def new_cursor_ok)
  show ?thesis
    using read_exact_spec [OF c, of "span (read_part b)" m]
    unfolding console_tx_def total_len_halves [OF assms]
    by (auto simp: request_bytes_def reader_def rest_new_cursor split: option.splits)
qed

lemma console_rx_bytes:
  assumes "buffer_ok b" "bs \<noteq> []"
  shows "console_rx bs m b =
    (if length bs \<le> span (write_part b)
     then Some (write_at (take (length bs) (flat (write_part b))) bs m, b\<lparr> bytes_written := length bs \<rparr>)
     else None)"
proof -
  have c: "cursor_ok (writer b)" using assms(1) by (simp add: buffer_ok_def writer_def new_cursor_ok)
  show ?thesis
    using write_all_spec [OF c, of bs m "bytes_written b"] assms
    by (auto simp: console_rx_def writer_def rest_new_cursor buffer_ok_def split: option.splits)
qed

text \<open>A packet that fits is received behind its header, and nothing else in memory but the used ring
  changes.\<close>

lemma net_rx_packet:
  assumes "try_take m q = Some (Taken b, q')" "buffer_ok b" "12 + length packet \<le> span (write_part b)" "packet \<noteq> []"
  shows "net_rx packet m q =
    (let (m', q'') = put (b\<lparr> bytes_written := 12 + length packet \<rparr>)
           (write_at (take (12 + length packet) (flat (write_part b))) (net_header @ packet) m) q'
     in Some (RxDone, m', q''))"
proof -
  have c: "cursor_ok (writer b)" using assms(2) by (simp add: buffer_ok_def writer_def new_cursor_ok)
  have l: "length net_header = 12" "net_header \<noteq> []" by (simp_all add: net_header_def)
  obtain m1 c1 where w1: "write_all net_header (m, bytes_written b, writer b) = Some (m1, 12, c1)"
    "m1 = write_at (take 12 (flat (write_part b))) net_header m" "cursor_ok c1" "pos c1 = 12" "slices c1 = write_part b"
    using write_all_spec [OF c, of net_header m "bytes_written b"] assms(2,3) l
    by (auto simp: writer_def rest_new_cursor buffer_ok_def split: option.splits)
  have r1: "rest c1 = drop 12 (flat (write_part b))" using w1 by (simp add: rest_def)
  obtain c2 where w2: "write_all packet (m1, 12, c1)
      = Some (write_at (take (length packet) (drop 12 (flat (write_part b)))) packet m1, 12 + length packet, c2)"
    using write_all_spec [OF w1(3), of packet m1 12] assms(3,4) r1 w1(4) by (auto split: option.splits)
  have "write_at (take (12 + length packet) (flat (write_part b))) (net_header @ packet) m
      = write_at (take (length packet) (drop 12 (flat (write_part b)))) packet m1"
    unfolding take_add w1(2) using assms(3) l(1) by (intro write_at_append) simp
  then show ?thesis
    using assms(1,3) w1(1) w2 total_len_halves(2) [OF assms(2)] l(1) by (simp add: net_rx_def split_beta Let_def)
qed

end
