(* ===== verification/P9_Server.thy ===== *)
theory P9_Server
  imports P9_Wire Virtio_Tasks
begin

text \<open>
  The 9P file server, \<open>lib/p9/src/lib.rs\<close>, and the task of the virtio device that runs it,
  \<open>lib/io/src/hw/virtio/p9.rs\<close>.

  \<^item> The file system is the trait \<open>FileSystem\<close>, a record of functions on its state and on that of a
    file; its implementation works on the host and is a parameter. An error is the error number of the
    operating system, if it has one.
  \<^item> \<open>None\<close> is a panic: the \<open>unwrap\<close> of an unknown fid.
\<close>

section \<open>The file system\<close>

type_synonym 'r io = "u32 option + 'r"

record ('f, 'i) FileSystem =
  fs_qid :: "'i \<Rightarrow> Qid"
  fs_mode :: "'i \<Rightarrow> u32"
  fs_clone :: "'i \<Rightarrow> 'i"
  fs_statfs :: "'i \<Rightarrow> 'f \<Rightarrow> StatFs io \<times> 'i \<times> 'f"
  fs_attach :: "'f \<Rightarrow> 'i io \<times> 'f"
  fs_readlink :: "'i \<Rightarrow> 'f \<Rightarrow> u8 list io \<times> 'i \<times> 'f"
  fs_getattr :: "'i \<Rightarrow> 'f \<Rightarrow> Stat io \<times> 'i \<times> 'f"
  fs_walk :: "u8 list \<Rightarrow> 'i \<Rightarrow> 'f \<Rightarrow> 'i io \<times> 'i \<times> 'f"
  fs_open :: "u32 \<Rightarrow> 'i \<Rightarrow> 'f \<Rightarrow> unit io \<times> 'i \<times> 'f"
  fs_create :: "u8 list \<Rightarrow> u32 \<Rightarrow> u32 \<Rightarrow> u32 \<Rightarrow> 'i \<Rightarrow> 'f \<Rightarrow> 'i io \<times> 'i \<times> 'f"
  fs_symlink :: "u8 list \<Rightarrow> u8 list \<Rightarrow> u32 \<Rightarrow> 'i \<Rightarrow> 'f \<Rightarrow> 'i io \<times> 'i \<times> 'f"
  fs_readdir :: "u64 \<Rightarrow> 'i \<Rightarrow> 'f \<Rightarrow> (u8 list \<times> 'i) option io \<times> 'i \<times> 'f"
  fs_mkdir :: "u8 list \<Rightarrow> u32 \<Rightarrow> u32 \<Rightarrow> 'i \<Rightarrow> 'f \<Rightarrow> 'i io \<times> 'i \<times> 'f"
  fs_renameat :: "'i \<Rightarrow> u8 list \<Rightarrow> u8 list \<Rightarrow> 'i \<Rightarrow> 'f \<Rightarrow> unit io \<times> 'i \<times> 'f"
  fs_unlinkat :: "u8 list \<Rightarrow> 'i \<Rightarrow> 'f \<Rightarrow> unit io \<times> 'i \<times> 'f"
  fs_read :: "u64 \<Rightarrow> nat \<Rightarrow> 'i \<Rightarrow> 'f \<Rightarrow> u8 list io \<times> 'i \<times> 'f"
  fs_write :: "u64 \<Rightarrow> u8 list \<Rightarrow> 'i \<Rightarrow> 'f \<Rightarrow> nat io \<times> 'i \<times> 'f"
  fs_fsync :: "'i \<Rightarrow> 'f \<Rightarrow> unit io \<times> 'i \<times> 'f"
  fs_setattr :: "u32 \<Rightarrow> SetAttr \<Rightarrow> 'i \<Rightarrow> 'f \<Rightarrow> unit io \<times> 'i \<times> 'f"

section \<open>The handler\<close>

record ('f, 'i) P9Handler =
  fs :: 'f
  iounit :: u32
  fids :: "u32 \<Rightarrow> 'i option"

definition p9_handler_new :: "'f \<Rightarrow> ('f, 'i) P9Handler" where
  "p9_handler_new f = \<lparr> fs = f, iounit = 0, fids = (\<lambda>_. None) \<rparr>"

definition ENOTSUP :: u32 where
  "ENOTSUP = 95"

text \<open>\<open>get_mut(&fid).unwrap()\<close> and an operation on the file; \<open>?\<close> returns its error, \<open>k\<close> makes the reply
  from the file after the operation.\<close>

definition on_fid :: "u32 \<Rightarrow> ('i \<Rightarrow> 'f \<Rightarrow> 'r io \<times> 'i \<times> 'f) \<Rightarrow> ('r \<Rightarrow> 'i \<Rightarrow> 'i \<times> Fcall) \<Rightarrow> ('f, 'i) P9Handler
    \<Rightarrow> (Fcall io \<times> ('f, 'i) P9Handler) option" where
  "on_fid fid act k h =
    map_option (\<lambda>i.
      case act i (fs h) of
        (Inl e, i, f) \<Rightarrow> (Inl e, h\<lparr> fs := f, fids := (fids h)(fid := Some i) \<rparr>)
      | (Inr v, i, f) \<Rightarrow> (let (i, reply) = k v i in (Inr reply, h\<lparr> fs := f, fids := (fids h)(fid := Some i) \<rparr>)))
    (fids h fid)"

text \<open>The loop of \<open>Treaddir\<close>.\<close>

function readdir_loop :: "('f, 'i) FileSystem \<Rightarrow> u32 \<Rightarrow> u64 \<Rightarrow> nat \<Rightarrow> DirEntry list \<Rightarrow> 'i \<Rightarrow> 'f
    \<Rightarrow> (nat \<times> DirEntry list) io \<times> 'i \<times> 'f" where
  "readdir_loop ops count off cur_len vec i f =
    (case fs_readdir ops off i f of
       (Inl e, i, f) \<Rightarrow> (Inl e, i, f)
     | (Inr None, i, f) \<Rightarrow> (Inr (cur_len, vec), i, f)
     | (Inr (Some (name, child)), i, f) \<Rightarrow>
         if unat count < cur_len + length name + 24 then (Inr (cur_len, vec), i, f)
         else readdir_loop ops count (off + 1) (cur_len + length name + 24)
           (vec @ [\<lparr> de_qid = fs_qid ops child, de_offset = off, de_type = ucast (drop_bit 12 (fs_mode ops child)),
                    de_name = name \<rparr>]) i f)"
  by pat_completeness auto
termination by (relation "measure (\<lambda>(ops, count, off, cur_len, vec, i, f). unat count - cur_len)") auto

text \<open>The loop of \<open>Twalk\<close>\<close>

fun walk_loop :: "('f, 'i) FileSystem \<Rightarrow> u8 list list \<Rightarrow> Qid list \<Rightarrow> 'i \<Rightarrow> 'f \<Rightarrow> ('i \<times> Qid list) io \<times> 'f" where
  "walk_loop ops [] qids i f = (Inr (i, qids), f)"
| "walk_loop ops (name # names) qids i f =
    (case fs_walk ops name i f of
       (Inl e, _, f) \<Rightarrow> (Inl e, f)
     | (Inr i, _, f) \<Rightarrow> walk_loop ops names (qids @ [fs_qid ops i]) i f)"

definition walk_fid :: "('f, 'i) FileSystem \<Rightarrow> u32 \<Rightarrow> u32 \<Rightarrow> u8 list list \<Rightarrow> ('f, 'i) P9Handler
    \<Rightarrow> (Fcall io \<times> ('f, 'i) P9Handler) option" where
  "walk_fid ops fid newfid wnames h =
    map_option (\<lambda>i.
      case walk_loop ops wnames [] (fs_clone ops i) (fs h) of
        (Inl e, f) \<Rightarrow> (Inl e, h\<lparr> fs := f \<rparr>)
      | (Inr (i, qids), f) \<Rightarrow> (Inr (Rwalk qids), h\<lparr> fs := f, fids := (fids h)(newfid := Some i) \<rparr>))
    (fids h fid)"

definition handle_fcall_internal :: "('f, 'i) FileSystem \<Rightarrow> Fcall \<Rightarrow> ('f, 'i) P9Handler
    \<Rightarrow> (Fcall io \<times> ('f, 'i) P9Handler) option" where
  "handle_fcall_internal ops fcall h =
    (case fcall of
       Tlopen fid flags \<Rightarrow>
         on_fid fid (fs_open ops (flags AND NOT 0x8000)) (\<lambda>_ i. (i, Rlopen (fs_qid ops i) (iounit h))) h
     | Tlcreate fid name flags mode gid \<Rightarrow>
         on_fid fid (fs_create ops name (flags AND NOT 0x8000) mode gid)
           (\<lambda>newfile _. (newfile, Rlcreate (fs_qid ops newfile) (iounit h))) h
     | Tsymlink fid name symtgt gid \<Rightarrow>
         on_fid fid (fs_symlink ops name symtgt gid) (\<lambda>newfile i. (i, Rsymlink (fs_qid ops newfile))) h
     | Tstatfs fid \<Rightarrow> on_fid fid (fs_statfs ops) (\<lambda>stat i. (i, Rstatfs stat)) h
     | Treadlink fid \<Rightarrow> on_fid fid (fs_readlink ops) (\<lambda>target i. (i, Rreadlink target)) h
     | Tgetattr fid request_mask \<Rightarrow>
         on_fid fid (fs_getattr ops) (\<lambda>stat i. (i, Rgetattr request_mask (fs_qid ops i) stat)) h
     | Tsetattr fid valid attr \<Rightarrow> on_fid fid (fs_setattr ops valid attr) (\<lambda>_ i. (i, Rsetattr)) h
     | Txattrwalk _ _ _ \<Rightarrow> Some (Inl (Some ENOTSUP), h)
     | Txattrcreate _ _ _ _ \<Rightarrow> Some (Inl (Some ENOTSUP), h)
     | Treaddir fid off count \<Rightarrow>
         (let off = (if off = 0 then 0 else off + 1) in
          on_fid fid (readdir_loop ops count off 0 []) (\<lambda>(cur_len, vec) i. (i, Rreaddir (of_nat cur_len) vec)) h)
     | Tmkdir dfid name mode gid \<Rightarrow>
         on_fid dfid (fs_mkdir ops name mode gid) (\<lambda>newfile i. (i, Rmkdir (fs_qid ops newfile))) h
     | Trenameat olddirfid oldname newdirfid newname \<Rightarrow>
         Option.bind (fids h olddirfid) (\<lambda>olddir.
           on_fid newdirfid (fs_renameat ops (fs_clone ops olddir) oldname newname) (\<lambda>_ i. (i, Rrenameat)) h)
     | Tunlinkat dirfd name _ \<Rightarrow> on_fid dirfd (fs_unlinkat ops name) (\<lambda>_ i. (i, Runlinkat)) h
     | Tversion msize _ \<Rightarrow>
         Some (Inr (Rversion msize [0x39, 0x50, 0x32, 0x30, 0x30, 0x30, 0x2E, 0x4C]), h\<lparr> iounit := msize - 24 \<rparr>)
     | Tattach fid _ _ _ _ \<Rightarrow>
         (case fs_attach ops (fs h) of
            (Inl e, f) \<Rightarrow> Some (Inl e, h\<lparr> fs := f \<rparr>)
          | (Inr i, f) \<Rightarrow> Some (Inr (Rattach (fs_qid ops i)), h\<lparr> fs := f, fids := (fids h)(fid := Some i) \<rparr>))
     | Tflush _ \<Rightarrow> Some (Inr Rflush, h)
     | Twalk fid newfid wnames \<Rightarrow>
         walk_fid ops fid newfid wnames h
     | Tread fid off count \<Rightarrow> on_fid fid (fs_read ops off (unat count)) (\<lambda>buf i. (i, Rread buf)) h
     | Twrite fid off dat \<Rightarrow> on_fid fid (fs_write ops off dat) (\<lambda>len i. (i, Rwrite (of_nat len))) h
     | Tfsync fid \<Rightarrow> on_fid fid (fs_fsync ops) (\<lambda>_ i. (i, Rfsync)) h
     | Tclunk fid \<Rightarrow> Some (Inr Rclunk, h\<lparr> fids := (fids h)(fid := None) \<rparr>)
     | _ \<Rightarrow> Some (Inr (Rlerror ENOTSUP), h))"

definition handle_fcall :: "('f, 'i) FileSystem \<Rightarrow> Fcall \<Rightarrow> ('f, 'i) P9Handler \<Rightarrow> (Fcall \<times> ('f, 'i) P9Handler) option" where
  "handle_fcall ops fcall h =
    map_option (\<lambda>(r, h).
      (case r of Inr f \<Rightarrow> f | Inl e \<Rightarrow> Rlerror (case e of Some n \<Rightarrow> n | None \<Rightarrow> ENOTSUP), h))
    (handle_fcall_internal ops fcall h)"

section \<open>The task of the device\<close>

text \<open>
  One pass for a buffer that was taken. The message is read from the bytes of the reader behind the size
  field; the reply is written behind its own, which is written last.
\<close>

definition p9_request :: "('f, 'i) FileSystem \<Rightarrow> memory \<Rightarrow> Buffer \<Rightarrow> ('f, 'i) P9Handler
    \<Rightarrow> (memory \<times> Buffer \<times> ('f, 'i) P9Handler) option" where
  "p9_request ops m b h =
    (case decode_fcall (map m (rest (snd (seek (SeekStart 4) (reader b))))) of
       Ok (tag, fcall) _ \<Rightarrow>
         Option.bind (handle_fcall ops fcall h) (\<lambda>(resp, h).
         Option.bind (encode_fcall (tag, resp)) (\<lambda>bs.
         Option.bind (write_all bs (m, bytes_written b, snd (seek (SeekStart 4) (writer b)))) (\<lambda>(m, n, c).
           let sz = fst (seek (SeekCurrent 0) c); c = snd (seek (SeekStart 0) c) in
           map_option (\<lambda>(m, n, _). (m, b\<lparr> bytes_written := n \<rparr>, h)) (write_all (encode_u32 (of_nat sz)) (m, n, c)))))
     | _ \<Rightarrow> None)"

section \<open>What the server answers\<close>

definition used_fids :: "Fcall \<Rightarrow> u32 list" where
  "used_fids f =
    (case f of
       Tlopen fid _ \<Rightarrow> [fid] | Tlcreate fid _ _ _ _ \<Rightarrow> [fid] | Tsymlink fid _ _ _ \<Rightarrow> [fid] | Tstatfs fid \<Rightarrow> [fid]
     | Treadlink fid \<Rightarrow> [fid] | Tgetattr fid _ \<Rightarrow> [fid] | Tsetattr fid _ _ \<Rightarrow> [fid] | Treaddir fid _ _ \<Rightarrow> [fid]
     | Tmkdir fid _ _ _ \<Rightarrow> [fid] | Trenameat odf _ ndf _ \<Rightarrow> [odf, ndf] | Tunlinkat fid _ _ \<Rightarrow> [fid]
     | Twalk fid _ _ \<Rightarrow> [fid] | Tread fid _ _ \<Rightarrow> [fid] | Twrite fid _ _ \<Rightarrow> [fid] | Tfsync fid \<Rightarrow> [fid] | _ \<Rightarrow> [])"

lemma on_fid_None [simp]: "on_fid fid act k h = None \<longleftrightarrow> fids h fid = None"
  by (simp add: on_fid_def)

lemma on_fid_Inr:
  assumes "on_fid fid act k h = Some (Inr reply, h')"
  shows "\<exists>i v j f. fids h fid = Some i \<and> act i (fs h) = (Inr v, j, f) \<and> reply = snd (k v j)"
proof -
  obtain i where i: "fids h fid = Some i" using assms by (auto simp: on_fid_def)
  obtain r j f where a: "act i (fs h) = (r, j, f)" by (metis prod_cases3)
  with assms i obtain v where "r = Inr v" by (cases r) (auto simp: on_fid_def)
  with assms i a show ?thesis by (auto simp: on_fid_def split_beta Let_def)
qed

lemma walk_fid_None [simp]: "walk_fid ops fid newfid ns h = None \<longleftrightarrow> fids h fid = None"
  by (simp add: walk_fid_def)

lemma walk_fid_Inr:
  assumes "walk_fid ops fid newfid ns h = Some (Inr reply, h')"
  shows "\<exists>qids. reply = Rwalk qids"
proof -
  obtain i where i: "fids h fid = Some i" using assms by (auto simp: walk_fid_def)
  obtain r f where w: "walk_loop ops ns [] (fs_clone ops i) (fs h) = (r, f)" by force
  show ?thesis using assms i w by (cases r) (auto simp: walk_fid_def)
qed

lemma handle_panics:
  "handle_fcall_internal ops f h = None \<longleftrightarrow> (\<exists>fid \<in> set (used_fids f). fids h fid = None)"
  by (cases f) (auto simp: handle_fcall_internal_def used_fids_def Let_def bind_eq_None_conv split: sum.splits prod.splits)

definition answers :: "Fcall \<Rightarrow> Fcall \<Rightarrow> bool" where
  "answers f reply \<longleftrightarrow> reply_type reply = Some 7 \<or> (\<exists>msg bs. request_wire f = Some (msg, bs) \<and> reply_type reply = Some (msg + 1))"

lemma handle_answers:
  assumes "handle_fcall_internal ops f h = Some (Inr reply, h')"
  shows "answers f reply"
  using assms
  by (cases f) (auto simp: handle_fcall_internal_def answers_def reply_type_def request_wire_def Let_def
      Option.bind_eq_Some_conv dest!: on_fid_Inr walk_fid_Inr split: sum.splits prod.splits if_splits)

lemma handle_encodable:
  assumes "handle_fcall_internal ops f h = Some (Inr reply, h')"
  shows "encode_body reply \<noteq> None \<or>
    (\<exists>v q st i g r. reply = Rgetattr v q st \<and> fs_getattr ops i g = (Inr st, r))"
  using assms
  by (cases f) (auto simp: handle_fcall_internal_def encode_body_def Let_def
      Option.bind_eq_Some_conv dest!: on_fid_Inr walk_fid_Inr split: sum.splits prod.splits if_splits)

definition entries_len :: "DirEntry list \<Rightarrow> nat" where
  "entries_len es = length (concat (map encode_dir_entry es))"

declare readdir_loop.simps [simp del]

lemma readdir_loop_len:
  "readdir_loop ops count off n es i f = (Inr (n', es'), j, g) \<Longrightarrow> n = entries_len es \<Longrightarrow> n \<le> unat count \<Longrightarrow>
    n' = entries_len es' \<and> n' \<le> unat count"
proof (induction ops count off n es i f rule: readdir_loop.induct)
  case (1 ops count off n es i f)
  obtain r j1 f1 where rd: "fs_readdir ops off i f = (r, j1, f1)" by (metis prod_cases3)
  show ?case
  proof (cases r)
    case (Inl e)
    then show ?thesis using 1(2) rd by (simp add: readdir_loop.simps [of ops count off])
  next
    case (Inr o')
    show ?thesis
    proof (cases o')
      case None
      then show ?thesis using 1(2,3,4) rd Inr by (auto simp: readdir_loop.simps [of ops count off])
    next
      case (Some nc)
      obtain name child where nc: "nc = (name, child)" by force
      let ?e = "\<lparr> de_qid = fs_qid ops child, de_offset = off, de_type = ucast (drop_bit 12 (fs_mode ops child)), de_name = name \<rparr>"
      show ?thesis
      proof (cases "unat count < n + length name + 24")
        case True
        then show ?thesis using 1(2,3,4) rd Inr Some nc by (auto simp: readdir_loop.simps [of ops count off])
      next
        case False
        have l: "readdir_loop ops count (off + 1) (n + length name + 24) (es @ [?e]) j1 f1 = (Inr (n', es'), j, g)"
          using 1(2) rd Inr Some nc False by (simp add: readdir_loop.simps [of ops count off])
        have e: "n + length name + 24 = entries_len (es @ [?e])"
          using 1(3) by (simp add: entries_len_def length_dir_entry)
        have c: "n + length name + 24 \<le> unat count" using False by simp
        show ?thesis by (rule 1(1) [OF rd [symmetric] Inr Some nc [symmetric] refl False l e c])
      qed
    qed
  qed
qed

lemma handle_readdir:
  assumes "handle_fcall_internal ops f h = Some (Inr (Rreaddir c es), h')"
  shows "\<exists>fid off count. f = Treaddir fid off count \<and> unat c = entries_len es \<and> entries_len es \<le> unat count"
proof -
  have "\<exists>fid off count. f = Treaddir fid off count"
    using assms
    by (cases f) (auto simp: handle_fcall_internal_def Let_def Option.bind_eq_Some_conv
        dest!: on_fid_Inr walk_fid_Inr split: sum.splits prod.splits)
  then obtain fid off count where f: "f = Treaddir fid off count" by blast
  then obtain i n j g where "c = of_nat n"
    "readdir_loop ops count (if off = 0 then 0 else off + 1) 0 [] i (fs h) = (Inr (n, es), j, g)"
    using assms by (auto simp: handle_fcall_internal_def Let_def dest!: on_fid_Inr split: prod.splits)
  moreover from this(2) have n: "n = entries_len es" "n \<le> unat count"
    using readdir_loop_len by (fastforce simp: entries_len_def)+
  moreover have "unat (of_nat n :: u32) = n"
    using order_le_less_trans [OF n(2) unat_16_32(2)] by (intro count_len(2)) simp
  ultimately show ?thesis using f by simp
qed

lemma error_reply: "answers f (Rlerror n)" "encode_body (Rlerror n) \<noteq> None"
  by (simp_all add: answers_def reply_type_def encode_body_def)

lemma getattr_reply: "encode_stat st \<noteq> None \<Longrightarrow> encode_body (Rgetattr v q st) \<noteq> None"
  by (simp add: encode_body_def)

lemma encode_stat_ok: "stat_ok st \<Longrightarrow> encode_stat st \<noteq> None"
  by (simp add: encode_stat_def stat_ok_def encode_time_ok epoch_ok)


text \<open>A file system with one directory of two entries, which permits nothing else.\<close>

definition sample_fs :: "(unit, nat) FileSystem" where
  "sample_fs =
    (let no = (\<lambda>i f. (Inl (Some 1), i, f)) in
     \<lparr> fs_qid = (\<lambda>i. \<lparr> q_type = 0, q_version = 0, q_path = of_nat i \<rparr>), fs_mode = (\<lambda>i. 0x81A4), fs_clone = id,
       fs_statfs = (\<lambda>i f. (Inl (Some 1), i, f)), fs_attach = (\<lambda>f. (Inr 0, f)), fs_readlink = (\<lambda>i f. (Inl None, i, f)),
       fs_getattr = (\<lambda>i f. (Inl (Some 1), i, f)), fs_walk = (\<lambda>s i f. (Inl (Some 2), i, f)), fs_open = (\<lambda>n. no),
       fs_create = (\<lambda>s n m g i f. (Inl (Some 1), i, f)), fs_symlink = (\<lambda>s t n i f. (Inl (Some 1), i, f)),
       fs_readdir = (\<lambda>n i f. (Inr (if n = 0 then Some ([0x61], 1) else if n = 1 then Some ([0x62, 0x63], 2) else None), i, f)),
       fs_mkdir = (\<lambda>s n m i f. (Inl (Some 1), i, f)), fs_renameat = (\<lambda>j s t. no), fs_unlinkat = (\<lambda>s. no),
       fs_read = (\<lambda>n m i f. (Inr [], i, f)), fs_write = (\<lambda>n d i f. (Inl (Some 1), i, f)), fs_fsync = no,
       fs_setattr = (\<lambda>n a. no) \<rparr>)"

definition sample_handler :: "(unit, nat) P9Handler" where
  "sample_handler = \<lparr> fs = (), iounit = 0, fids = (\<lambda>_. None)(7 := Some 0) \<rparr>"


section \<open>The reply in guest memory\<close>

lemma write_at_split:
  assumes "distinct (as @ as')" "length as = length bs" "length as' = length bs'"
  shows "map (write_at as bs (write_at as' bs' m)) (as @ as') = bs @ bs'"
proof -
  have "map (write_at as bs (write_at as' bs' m)) as' = map (write_at as' bs' m) as'"
    using assms(1) write_at_other by (intro map_cong refl) fastforce
  also have "\<dots> = bs'" using assms by (intro write_at_read) simp_all
  finally show ?thesis using assms write_at_read [of as bs] by simp
qed

lemma write_pair:
  assumes "slices_ok sl" "cursor_ok c" "slices c = sl" "4 + length bs \<le> span sl" "bs \<noteq> []" "pos c = 4" "length sz = 4"
  shows "\<exists>c1. write_all bs (m, 0, c) = Some (write_at (take (length bs) (drop 4 (flat sl))) bs m, 4 + length bs, c1)
      \<and> cursor_ok c1 \<and> slices c1 = sl \<and> pos c1 = 4 + length bs"
  using write_all_spec [OF assms(2), of bs m 0] assms(3-6) by (auto simp: rest_def split: option.splits)

text \<open>The reply of the device: its size, then the encoded answer, and nothing else in memory changes.\<close>

lemma p9_request_reply:
  assumes "buffer_ok b" "decode_fcall (drop 4 (request_bytes m b)) = Ok (tag, f) z"
    "handle_fcall ops f h = Some (reply, h')" "encode_fcall (tag, reply) = Some bs"
    "4 + length bs \<le> span (write_part b)" "4 + length bs < 2 ^ 32" "distinct (flat (write_part b))" "bs \<noteq> []"
  shows "\<exists>m'. p9_request ops m b h = Some (m', b\<lparr> bytes_written := 4 + length bs \<rparr>, h')
    \<and> map m' (take (4 + length bs) (flat (write_part b))) = encode_u32 (of_nat (4 + length bs)) @ bs
    \<and> (\<forall>a. a \<notin> set (flat (write_part b)) \<longrightarrow> m' a = m a)"
proof -
  let ?w = "flat (write_part b)" and ?sz = "encode_u32 (of_nat (4 + length bs))"
  have sl: "slices_ok (read_part b)" "slices_ok (write_part b)" and bw: "bytes_written b = 0"
    using assms(1) by (simp_all add: buffer_ok_def)
  have rd: "map m (rest (snd (seek (SeekStart 4) (reader b)))) = drop 4 (request_bytes m b)"
    unfolding reader_def seek_start(2) [OF sl(1)] by (simp add: request_bytes_def drop_map)
  let ?c = "snd (seek (SeekStart 4) (writer b))"
  have c: "cursor_ok ?c" "pos ?c = 4" "slices ?c = write_part b"
    using seek_start [OF sl(2), of 4 "write_len b"] seek_spec(3) [OF new_cursor_ok [OF sl(2)], of "SeekStart 4" "write_len b"]
    by (simp_all add: writer_def rest_new_cursor)
  obtain c1 where w1: "write_all bs (m, 0, ?c) = Some (write_at (take (length bs) (drop 4 ?w)) bs m, 4 + length bs, c1)"
    "cursor_ok c1" "slices c1 = write_part b" "pos c1 = 4 + length bs"
    using write_pair [OF sl(2) c(1,3) assms(5,8) c(2), of ?sz m] by auto
  let ?m1 = "write_at (take (length bs) (drop 4 ?w)) bs m"
  have t: "seek_target (SeekCurrent 0) c1 = of_nat (4 + length bs)" by (simp add: seek_target_def w1(4))
  have "unat (of_nat (4 + length bs) :: u64) = 4 + length bs"
    using assms(6) by (simp only: unat_of_nat) simp
  then have sz: "fst (seek (SeekCurrent 0) c1) = 4 + length bs" using seek_spec(5) [OF w1(2), of "SeekCurrent 0"] t by simp
  let ?c2 = "snd (seek (SeekStart 0) c1)"
  have c2: "cursor_ok ?c2" "pos ?c2 = 0" "slices ?c2 = write_part b"
    using seek_spec [OF w1(2), of "SeekStart 0"] w1(3) by (simp_all add: seek_target_def)
  obtain c3 where w2: "write_all ?sz (?m1, 4 + length bs, ?c2) = Some (write_at (take 4 ?w) ?sz ?m1, 4 + length bs, c3)"
    using write_all_spec [OF c2(1), of ?sz ?m1 "4 + length bs"] c2 assms(5) length_ints(3) [of "of_nat (4 + length bs)"]
    by (auto simp: rest_def simp del: length_ints split: option.splits)
  let ?m' = "write_at (take 4 ?w) ?sz ?m1"
  have "p9_request ops m b h = Some (?m', b\<lparr> bytes_written := 4 + length bs \<rparr>, h')"
    unfolding p9_request_def rd assms(2) using assms(3,4) w1(1) w2 sz bw by (simp add: Let_def)
  moreover have "map ?m' (take 4 ?w @ take (length bs) (drop 4 ?w)) = ?sz @ bs"
    using assms(5,7) distinct_take [of ?w "4 + length bs"] by (intro write_at_split) (simp_all add: take_add)
  moreover have "?m' a = m a" if "a \<notin> set ?w" for a
  proof -
    have "a \<notin> set (take 4 ?w)" "a \<notin> set (take (length bs) (drop 4 ?w))"
      using that by (meson in_set_takeD in_set_dropD)+
    then show ?thesis by (simp add: write_at_other)
  qed
  ultimately show ?thesis by (intro exI [of _ ?m']) (simp add: take_add)
qed

end
