(* ===== verification/X86_Op.thy ===== *)
theory X86_Op
  imports Rust_Prelude
begin

text \<open>
  The host instructions of \<open>lib/x86/src/op.rs\<close>: operand sizes, registers, memory operands and
  operations.

  \<^item> A \<open>Register\<close> of the source is a byte whose high half is a kind (\<open>REG_GPB\<close>, \<dots>) and whose low half
    is an index. Here the kind is the constructor and the index its argument; \<open>reg_num\<close> is the byte
    (\<open>as u8\<close>). \<open>GPB2\<close> is used for the indices 4 to 7 only, which is \<open>reg_valid\<close>.
  \<^item> The operations have the source's names with the suffix \<open>_x\<close>, since most of them are also names
    of guest instructions. Immediates are \<open>i64\<close>, displacements and jump offsets \<open>i32\<close>, as bit patterns.
  \<^item> An operator of the source that builds a memory operand (\<open>base + displacement\<close>, \<dots>) is a function
    with the source's operand types in its name.
\<close>

section \<open>Sizes\<close>

datatype (plugins only: code size) Size = Byte | Word | Dword | Qword

fun size_num :: "Size \<Rightarrow> nat" where
  "size_num Byte = 0"
| "size_num Word = 1"
| "size_num Dword = 2"
| "size_num Qword = 3"

instantiation Size :: linorder
begin

definition less_eq_Size :: "Size \<Rightarrow> Size \<Rightarrow> bool" where
  "less_eq_Size a b \<longleftrightarrow> size_num a \<le> size_num b"

definition less_Size :: "Size \<Rightarrow> Size \<Rightarrow> bool" where
  "less_Size a b \<longleftrightarrow> size_num a < size_num b"

instance
proof
  show "a = b" if "a \<le> b" "b \<le> a" for a b :: Size
    using that by (cases a; cases b) (simp_all add: less_eq_Size_def)
qed (auto simp: less_eq_Size_def less_Size_def)

end

definition cap_to_dword :: "Size \<Rightarrow> Size" where
  "cap_to_dword s = (case s of Qword \<Rightarrow> Dword | s' \<Rightarrow> s')"

definition size_bytes :: "Size \<Rightarrow> nat" where
  "size_bytes s = push_bit (size_num s) 1"

section \<open>Registers\<close>

type_synonym reg_index = "4 word"

datatype (plugins only: code size) Register =
  GPB reg_index | GPW reg_index | GPD reg_index | GPQ reg_index | GPB2 reg_index | RIP

definition REG_GPB :: u8 where "REG_GPB = 0x10"
definition REG_GPW :: u8 where "REG_GPW = 0x20"
definition REG_GPD :: u8 where "REG_GPD = 0x30"
definition REG_GPQ :: u8 where "REG_GPQ = 0x40"
definition REG_GPB2 :: u8 where "REG_GPB2 = 0x50"

fun reg_num :: "Register \<Rightarrow> u8" where
  "reg_num (GPB i) = ucast i OR REG_GPB"
| "reg_num (GPW i) = ucast i OR REG_GPW"
| "reg_num (GPD i) = ucast i OR REG_GPD"
| "reg_num (GPQ i) = ucast i OR REG_GPQ"
| "reg_num (GPB2 i) = ucast i OR REG_GPB2"
| "reg_num RIP = 0x60"

fun reg_valid :: "Register \<Rightarrow> bool" where
  "reg_valid (GPB2 i) = (4 \<le> i \<and> i \<le> 7)"
| "reg_valid r = True"

abbreviation AL :: Register where "AL \<equiv> GPB 0"
abbreviation CL :: Register where "CL \<equiv> GPB 1"
abbreviation AH :: Register where "AH \<equiv> GPB 4"
abbreviation BH :: Register where "BH \<equiv> GPB 7"
abbreviation EAX :: Register where "EAX \<equiv> GPD 0"
abbreviation ECX :: Register where "ECX \<equiv> GPD 1"
abbreviation EDX :: Register where "EDX \<equiv> GPD 2"
abbreviation EBX :: Register where "EBX \<equiv> GPD 3"
abbreviation ESI :: Register where "ESI \<equiv> GPD 6"
abbreviation RAX :: Register where "RAX \<equiv> GPQ 0"
abbreviation RCX :: Register where "RCX \<equiv> GPQ 1"
abbreviation RDX :: Register where "RDX \<equiv> GPQ 2"
abbreviation RBX :: Register where "RBX \<equiv> GPQ 3"
abbreviation RSP :: Register where "RSP \<equiv> GPQ 4"
abbreviation RBP :: Register where "RBP \<equiv> GPQ 5"
abbreviation RSI :: Register where "RSI \<equiv> GPQ 6"
abbreviation RDI :: Register where "RDI \<equiv> GPQ 7"
abbreviation R12 :: Register where "R12 \<equiv> GPQ 12"

text \<open>\<open>self as u8 >= Register::AH as u8 && self as u8 <= Register::BH as u8\<close>\<close>

definition is_high_byte :: "u8 \<Rightarrow> bool" where
  "is_high_byte n \<longleftrightarrow> reg_num AH \<le> n \<and> n \<le> reg_num BH"

text \<open>\<open>Register::size\<close> is \<open>unreachable!()\<close> for \<open>RIP\<close>.\<close>

fun reg_size :: "Register \<Rightarrow> Size option" where
  "reg_size (GPB i) = Some Byte"
| "reg_size (GPB2 i) = Some Byte"
| "reg_size (GPW i) = Some Word"
| "reg_size (GPD i) = Some Dword"
| "reg_size (GPQ i) = Some Qword"
| "reg_size RIP = None"

definition from_id_and_size :: "u8 \<Rightarrow> Size \<Rightarrow> Register" where
  "from_id_and_size id0 s =
    (let id1 = id0 AND 15; i = ucast id1 :: reg_index in
     case s of
       Byte \<Rightarrow> if 4 \<le> id1 \<and> id1 \<le> 7 then GPB2 i else GPB i
     | Word \<Rightarrow> GPW i
     | Dword \<Rightarrow> GPD i
     | Qword \<Rightarrow> GPQ i)"

definition reg_resize :: "Register \<Rightarrow> Size \<Rightarrow> Register option" where
  "reg_resize r s = (if is_high_byte (reg_num r) then None else Some (from_id_and_size (reg_num r) s))"

section \<open>Memory operands\<close>

record Memory =
  m_base :: "Register option"
  m_index :: "(Register \<times> u8) option"
  m_displacement :: i32
  m_size :: Size

definition mem_resize :: "Memory \<Rightarrow> Size \<Rightarrow> Memory" where
  "mem_resize m s = m\<lparr>m_size := s\<rparr>"

definition reg_mul_u8 :: "Register \<Rightarrow> u8 \<Rightarrow> Memory" where
  "reg_mul_u8 r k = \<lparr>m_base = None, m_index = Some (r, k), m_displacement = 0, m_size = Qword\<rparr>"

definition reg_add_mem :: "Register \<Rightarrow> Memory \<Rightarrow> Memory" where
  "reg_add_mem r m = m\<lparr>m_base := Some r\<rparr>"

definition reg_add_reg :: "Register \<Rightarrow> Register \<Rightarrow> Memory" where
  "reg_add_reg r r' = \<lparr>m_base = Some r, m_index = Some (r', 1), m_displacement = 0, m_size = Qword\<rparr>"

definition reg_add_i32 :: "Register \<Rightarrow> i32 \<Rightarrow> Memory" where
  "reg_add_i32 r d = \<lparr>m_base = Some r, m_index = None, m_displacement = d, m_size = Qword\<rparr>"

definition reg_sub_i32 :: "Register \<Rightarrow> i32 \<Rightarrow> Memory" where
  "reg_sub_i32 r d = \<lparr>m_base = Some r, m_index = None, m_displacement = - d, m_size = Qword\<rparr>"

definition mem_add_i32 :: "Memory \<Rightarrow> i32 \<Rightarrow> Memory" where
  "mem_add_i32 m d = m\<lparr>m_displacement := d\<rparr>"

definition mem_sub_i32 :: "Memory \<Rightarrow> i32 \<Rightarrow> Memory" where
  "mem_sub_i32 m d = m\<lparr>m_displacement := - d\<rparr>"

section \<open>Locations and operands\<close>

datatype (plugins only: code size) Location = LReg Register | LMem Memory

fun loc_size :: "Location \<Rightarrow> Size option" where
  "loc_size (LReg r) = reg_size r"
| "loc_size (LMem m) = Some (m_size m)"

fun loc_resize :: "Location \<Rightarrow> Size \<Rightarrow> Location option" where
  "loc_resize (LReg r) s = map_option LReg (reg_resize r s)"
| "loc_resize (LMem m) s = Some (LMem (mem_resize m s))"

datatype (plugins only: code size) Operand = OReg Register | OMem Memory | OImm i64

fun operand_of_loc :: "Location \<Rightarrow> Operand" where
  "operand_of_loc (LReg r) = OReg r"
| "operand_of_loc (LMem m) = OMem m"

fun as_loc :: "Operand \<Rightarrow> i64 + Location" where
  "as_loc (OReg r) = Inr (LReg r)"
| "as_loc (OMem m) = Inr (LMem m)"
| "as_loc (OImm i) = Inl i"

section \<open>Condition codes\<close>

datatype (plugins only: code size) ConditionCode =
  Overflow | NotOverflow | Below | AboveEqual | Equal | NotEqual | BelowEqual | Above
  | Sign | NotSign | Parity | NotParity | Less | GreaterEqual | LessEqual | Greater

definition all_cc :: "ConditionCode list" where
  "all_cc = [Overflow, NotOverflow, Below, AboveEqual, Equal, NotEqual, BelowEqual, Above,
    Sign, NotSign, Parity, NotParity, Less, GreaterEqual, LessEqual, Greater]"

fun cc_num :: "ConditionCode \<Rightarrow> u8" where
  "cc_num Overflow = 0x0"
| "cc_num NotOverflow = 0x1"
| "cc_num Below = 0x2"
| "cc_num AboveEqual = 0x3"
| "cc_num Equal = 0x4"
| "cc_num NotEqual = 0x5"
| "cc_num BelowEqual = 0x6"
| "cc_num Above = 0x7"
| "cc_num Sign = 0x8"
| "cc_num NotSign = 0x9"
| "cc_num Parity = 0xA"
| "cc_num NotParity = 0xB"
| "cc_num Less = 0xC"
| "cc_num GreaterEqual = 0xD"
| "cc_num LessEqual = 0xE"
| "cc_num Greater = 0xF"

fun cc_swap :: "ConditionCode \<Rightarrow> ConditionCode" where
  "cc_swap Less = Greater"
| "cc_swap GreaterEqual = LessEqual"
| "cc_swap Below = Above"
| "cc_swap AboveEqual = BelowEqual"
| "cc_swap cc = cc"

definition cc_try_from :: "u8 \<Rightarrow> ConditionCode option" where
  "cc_try_from v = (if v \<le> 0xF then Some (all_cc ! unat v) else None)"

definition cc_not :: "ConditionCode \<Rightarrow> ConditionCode" where
  "cc_not cc = all_cc ! unat (cc_num cc XOR 1)"

section \<open>Operations\<close>

datatype (plugins only: code size) X86Op =
    Illegal_x
  | Adc_x Location Operand
  | Add_x Location Operand
  | And_x Location Operand
  | Call_x Operand
  | Cdqe_x
  | Cmovcc_x Register Location ConditionCode
  | Cmp_x Location Operand
  | Cmpxchg_x Location Register
  | Cdq_x
  | Cqo_x
  | Div_x Location
  | Hlt_x
  | Idiv_x Location
  | Imul1_x Location
  | Imul2_x Register Location
  | Jcc_x i32 ConditionCode
  | Jmp_x Operand
  | Lea_x Register Memory
  | Lock_x
  | Mfence_x
  | Mov_x Location Operand
  | Movabs_x Operand Operand
  | Movsx_x Register Location
  | Movzx_x Register Location
  | Mul_x Location
  | Neg_x Location
  | Nop_x
  | Not_x Location
  | Or_x Location Operand
  | Pop_x Location
  | Push_x Operand
  | Ret_x u16
  | Sar_x Location Operand
  | Sbb_x Location Operand
  | Setcc_x Location ConditionCode
  | Shl_x Location Operand
  | Shr_x Location Operand
  | Sub_x Location Operand
  | Test_x Location Operand
  | Xadd_x Location Register
  | Xchg_x Location Location
  | Xor_x Location Operand

section \<open>Register numbers\<close>

lemma reg_index_cases:
  fixes i :: reg_index
  shows "i = 15 \<or> i = 14 \<or> i = 13 \<or> i = 12 \<or> i = 11 \<or> i = 10 \<or> i = 9 \<or> i = 8 \<or>
    i = 7 \<or> i = 6 \<or> i = 5 \<or> i = 4 \<or> i = 3 \<or> i = 2 \<or> i = 1 \<or> i = 0"
proof -
  have "unat i < 16" using unsigned_less [of i] by simp
  then have "unat i \<in> set [0..<16]" by (simp only: set_upt atLeastLessThan_iff) simp
  then have "i \<in> of_nat ` set [0..<16]" by (metis imageI of_nat_unat ucast_id)
  then show ?thesis
    by (simp add: upt_rec [of 0] upt_rec [of "Suc 0"] upt_rec_numeral del: set_upt flip: numeral_2_eq_2) blast
qed

lemmas reg_kinds = REG_GPB_def REG_GPW_def REG_GPD_def REG_GPQ_def REG_GPB2_def

text \<open>The parts of a register byte the encoder and the decoder look at.\<close>

lemma reg_num_kind [simp]:
  "reg_num (GPB i) AND 0xF0 = 0x10" "reg_num (GPW i) AND 0xF0 = 0x20"
  "reg_num (GPD i) AND 0xF0 = 0x30" "reg_num (GPQ i) AND 0xF0 = 0x40"
  "reg_num (GPB2 i) AND 0xF0 = 0x50" "reg_num RIP AND 0xF0 = 0x60"
  using reg_index_cases [of i] by (auto simp: reg_kinds)

fun reg_id :: "Register \<Rightarrow> reg_index" where
  "reg_id (GPB i) = i" | "reg_id (GPW i) = i" | "reg_id (GPD i) = i" | "reg_id (GPQ i) = i"
| "reg_id (GPB2 i) = i" | "reg_id RIP = 0"

lemma reg_num_id [simp]: "reg_num r AND 0xF = ucast (reg_id r)"
proof (cases r)
  case (GPB i) then show ?thesis using reg_index_cases [of i] by (auto simp: reg_kinds)
next
  case (GPW i) then show ?thesis using reg_index_cases [of i] by (auto simp: reg_kinds)
next
  case (GPD i) then show ?thesis using reg_index_cases [of i] by (auto simp: reg_kinds)
next
  case (GPQ i) then show ?thesis using reg_index_cases [of i] by (auto simp: reg_kinds)
next
  case (GPB2 i) then show ?thesis using reg_index_cases [of i] by (auto simp: reg_kinds)
qed simp

lemma reg_num_low [simp]: "reg_num r AND 7 = ucast (reg_id r) AND 7"
proof -
  have "reg_num r AND 7 = (reg_num r AND 0xF) AND 7" by (simp only: and.assoc) simp
  then show ?thesis by simp
qed

lemma reg_num_bit3 [simp]: "reg_num r AND 8 \<noteq> 0 \<longleftrightarrow> bit (reg_id r) 3" "reg_num r AND 8 = 0 \<longleftrightarrow> \<not> bit (reg_id r) 3"
proof -
  have "reg_num r AND 8 = (reg_num r AND 0xF) AND 8" by (simp only: and.assoc) simp
  then have e: "reg_num r AND 8 = ucast (reg_id r) AND 8" by simp
  show "reg_num r AND 8 \<noteq> 0 \<longleftrightarrow> bit (reg_id r) 3" "reg_num r AND 8 = 0 \<longleftrightarrow> \<not> bit (reg_id r) 3"
    using reg_index_cases [of "reg_id r"] unfolding e by auto
qed

lemma is_high_byte_reg [simp]:
  "is_high_byte (reg_num r) \<longleftrightarrow> (\<exists>i. r = GPB i \<and> 4 \<le> i \<and> i \<le> 7)"
proof (cases r)
  case (GPB i)
  then show ?thesis using reg_index_cases [of i]
    by (auto simp: reg_kinds is_high_byte_def word_le_nat_alt)
next
  case (GPW i) then show ?thesis using reg_index_cases [of i] by (auto simp: reg_kinds is_high_byte_def)
next
  case (GPD i) then show ?thesis using reg_index_cases [of i] by (auto simp: reg_kinds is_high_byte_def)
next
  case (GPQ i) then show ?thesis using reg_index_cases [of i] by (auto simp: reg_kinds is_high_byte_def)
next
  case (GPB2 i) then show ?thesis using reg_index_cases [of i] by (auto simp: reg_kinds is_high_byte_def)
qed (simp add: is_high_byte_def reg_kinds)

lemma cc_not_involution: "cc_not (cc_not cc) = cc"
  by (cases cc) (simp_all add: cc_not_def all_cc_def)

lemma cc_try_from_num [simp]: "cc_try_from (cc_num cc) = Some cc"
  by (cases cc) (simp_all add: cc_try_from_def all_cc_def)

end
