(* ===== verification/X86_Encode.thy ===== *)
theory X86_Encode
  imports X86_Op "HOL-Library.Monad_Syntax"
begin

text \<open>
  The encoder of host instructions, \<open>lib/x86/src/encode.rs\<close>. A method of \<open>Encoder\<close> hands its bytes
  to a callback; here it returns them, and \<^const>\<open>None\<close> is a panic (a failed \<open>assert!\<close>, an
  \<open>unwrap\<close> or an \<open>unreachable!\<close>). Bytes are little-endian. \<open>i8::try_from(imm).is_ok()\<close> and its
  relatives are the range tests \<open>fits_i8\<close>, \<dots> below.
\<close>

definition ensure :: "bool \<Rightarrow> unit option" where
  "ensure b = (if b then Some () else None)"

lemma ensure_simps [simp]: "ensure True = Some ()" "ensure False = None"
  by (simp_all add: ensure_def)

lemma ensure_eq_Some [simp]: "ensure b = Some u \<longleftrightarrow> b"
  by (cases b) simp_all

lemma bind_ensure_Some [simp]:
  "Option.bind (ensure b) f = Some y \<longleftrightarrow> b \<and> f () = Some y"
  by (cases b) simp_all

definition fits_i8 :: "'a::len word \<Rightarrow> bool" where "fits_i8 x \<longleftrightarrow> - 128 \<le> sint x \<and> sint x < 128"
definition fits_u8 :: "'a::len word \<Rightarrow> bool" where "fits_u8 x \<longleftrightarrow> 0 \<le> sint x \<and> sint x < 256"
definition fits_i16 :: "'a::len word \<Rightarrow> bool" where "fits_i16 x \<longleftrightarrow> - 32768 \<le> sint x \<and> sint x < 32768"
definition fits_u16 :: "'a::len word \<Rightarrow> bool" where "fits_u16 x \<longleftrightarrow> 0 \<le> sint x \<and> sint x < 65536"
definition fits_i32 :: "'a::len word \<Rightarrow> bool" where
  "fits_i32 x \<longleftrightarrow> - 2147483648 \<le> sint x \<and> sint x < 2147483648"
definition fits_u32 :: "'a::len word \<Rightarrow> bool" where "fits_u32 x \<longleftrightarrow> 0 \<le> sint x \<and> sint x < 4294967296"

definition check_imm_size :: "Size \<Rightarrow> i64 \<Rightarrow> unit option" where
  "check_imm_size s imm =
    (case s of
       Byte \<Rightarrow> ensure (fits_i8 imm \<or> fits_u8 imm)
     | Word \<Rightarrow> ensure (fits_i16 imm \<or> fits_u16 imm)
     | Dword \<Rightarrow> ensure (fits_i32 imm \<or> fits_u32 imm)
     | Qword \<Rightarrow> ensure (fits_i32 imm))"

section \<open>Constants\<close>

definition emit_u8 :: "u8 \<Rightarrow> u8 list" where
  "emit_u8 v = [v]"

definition emit_u16 :: "u16 \<Rightarrow> u8 list" where
  "emit_u16 v = [ucast v, ucast (drop_bit 8 v)]"

definition emit_u32 :: "u32 \<Rightarrow> u8 list" where
  "emit_u32 v = [ucast v, ucast (drop_bit 8 v), ucast (drop_bit 16 v), ucast (drop_bit 24 v)]"

definition emit_u64 :: "u64 \<Rightarrow> u8 list" where
  "emit_u64 v = [ucast v, ucast (drop_bit 8 v), ucast (drop_bit 16 v), ucast (drop_bit 24 v),
    ucast (drop_bit 32 v), ucast (drop_bit 40 v), ucast (drop_bit 48 v), ucast (drop_bit 56 v)]"

definition emit_imm :: "Size \<Rightarrow> i64 \<Rightarrow> u8 list" where
  "emit_imm s v =
    (case s of
       Byte \<Rightarrow> emit_u8 (ucast v)
     | Word \<Rightarrow> emit_u16 (ucast v)
     | Dword \<Rightarrow> emit_u32 (ucast v)
     | Qword \<Rightarrow> emit_u64 v)"

section \<open>Prefixes and operands\<close>

definition emit_rex :: "Location \<Rightarrow> u8 \<Rightarrow> u8 \<Rightarrow> u8 list option" where
  "emit_rex op regnum rex0 =
    (let rex1 = (if regnum AND 0xF0 = REG_GPB2 then rex0 OR 0x40 else rex0);
         rex2 = (if regnum AND 8 \<noteq> 0 then rex1 OR 0x4 else rex1) in
     do {
       rex \<leftarrow> (case op of
           LReg it \<Rightarrow>
             (let it_num = reg_num it;
                  rex3 = (if it_num AND 0xF0 = REG_GPB2 then rex2 OR 0x40 else rex2) in
              do {
                ensure (rex3 = 0 \<or> \<not> is_high_byte it_num);
                Some (if it_num AND 8 \<noteq> 0 then rex3 OR 0x1 else rex3)
              })
         | LMem it \<Rightarrow>
             (let rex3 = (case m_base it of
                            Some b \<Rightarrow> if reg_num b AND 8 \<noteq> 0 then rex2 OR 0x1 else rex2
                          | None \<Rightarrow> rex2) in
              Some (case m_index it of
                      Some (i, _) \<Rightarrow> if reg_num i AND 8 \<noteq> 0 then rex3 OR 0x2 else rex3
                    | None \<Rightarrow> rex3)));
       if rex \<noteq> 0 then do { ensure (\<not> is_high_byte regnum); Some [rex OR 0x40] } else Some []
     })"

definition scale_shift :: "u8 \<Rightarrow> u8 option" where
  "scale_shift s =
    (if s = 1 then Some 0 else if s = 2 then Some 1 else if s = 4 then Some 2
     else if s = 8 then Some 3 else None)"

text \<open>The part of a ModR/M sequence that depends on the displacement: none, 8 or 32 bits. \<open>rm\<close> is the
  low part of the first byte, \<open>sib\<close> the second byte where there is one, and \<open>none\<close> says whether the
  form without displacement exists.\<close>

definition emit_disp :: "u8 \<Rightarrow> u8 list \<Rightarrow> bool \<Rightarrow> i32 \<Rightarrow> u8 list" where
  "emit_disp rm sib none d =
    (if d = 0 \<and> none then rm # sib
     else if fits_i8 d then (0x40 OR rm) # sib @ emit_u8 (ucast d)
     else (0x80 OR rm) # sib @ emit_u32 d)"

definition emit_mem :: "Memory \<Rightarrow> u8 \<Rightarrow> u8 list option" where
  "emit_mem it r =
    do {
      shift \<leftarrow> (case m_index it of
                  Some (i, scale) \<Rightarrow> do {
                    ensure (reg_num i AND 0xF0 = REG_GPQ);
                    ensure (reg_num i AND 0xF \<noteq> 0b101);
                    scale_shift scale
                  }
                | None \<Rightarrow> Some 0);
      (case (m_base it, m_index it) of
         (None, None) \<Rightarrow> Some ([r OR 0b100, 0x25] @ emit_u32 (m_displacement it))
       | (None, Some (i, _)) \<Rightarrow>
           Some ([r OR 0b100, push_bit 6 shift OR push_bit 3 (reg_num i AND 7) OR 0b101]
                 @ emit_u32 (m_displacement it))
       | (Some b, None) \<Rightarrow>
           if b = RIP then Some ([r OR 0b101] @ emit_u32 (m_displacement it))
           else if b = RSP \<or> b = R12 then
             Some (emit_disp (r OR 0b100) [0x24] True (m_displacement it))
           else do {
             ensure (reg_num b AND 0xF0 = REG_GPQ);
             Some (emit_disp (r OR (reg_num b AND 7)) [] (reg_num b AND 7 \<noteq> 0b101) (m_displacement it))
           }
       | (Some b, Some (i, _)) \<Rightarrow> do {
           ensure (reg_num b AND 0xF0 = REG_GPQ);
           Some (emit_disp (r OR 0b100)
             [push_bit 6 shift OR push_bit 3 (reg_num i AND 7) OR (reg_num b AND 7)]
             (reg_num b AND 7 \<noteq> 0b101) (m_displacement it))
         })
    }"

definition emit_modrm :: "Location \<Rightarrow> u8 \<Rightarrow> u8 list option" where
  "emit_modrm op regnum =
    (let r = push_bit 3 (regnum AND 7) in
     case op of
       LReg it \<Rightarrow> Some [0xC0 OR r OR (reg_num it AND 7)]
     | LMem it \<Rightarrow> emit_mem it r)"

section \<open>Instruction formats\<close>

definition emit_opcode_prefix :: "u32 \<Rightarrow> u8 list" where
  "emit_opcode_prefix opcode =
    (if opcode AND 0xFF0000 \<noteq> 0 then [ucast (drop_bit 16 opcode)] else [])
    @ (if opcode AND 0xFF00 \<noteq> 0 then [ucast (drop_bit 8 opcode)] else [])"

definition emit_r_rm :: "Size \<Rightarrow> Location \<Rightarrow> u8 \<Rightarrow> u32 \<Rightarrow> u8 list option" where
  "emit_r_rm op_size mem regnum opcode =
    do {
      rex \<leftarrow> emit_rex mem regnum (if op_size = Qword then 0x08 else 0);
      modrm \<leftarrow> emit_modrm mem regnum;
      Some ((if op_size = Word then [0x66] else []) @ rex @ emit_opcode_prefix opcode
            @ emit_u8 (ucast opcode) @ modrm)
    }"

definition emit_plusr :: "Size \<Rightarrow> Register \<Rightarrow> u32 \<Rightarrow> u8 list option" where
  "emit_plusr op_size reg opcode =
    (let n = reg_num reg;
         rex0 = (if op_size = Qword then 0x08 else 0);
         rex1 = (if n AND 8 \<noteq> 0 then rex0 OR 0x01 else rex0);
         rex = (if n AND 0xF0 = REG_GPB2 then rex1 OR 0x40 else rex1) in
     do {
       p \<leftarrow> (if rex \<noteq> 0 then do { ensure (\<not> is_high_byte n); Some [rex OR 0x40] } else Some []);
       Some ((if op_size = Word then [0x66] else []) @ p @ emit_opcode_prefix opcode
             @ emit_u8 (ucast opcode OR (n AND 7)))
     })"

definition emit_rm :: "Location \<Rightarrow> u32 \<Rightarrow> u8 \<Rightarrow> u8 list option" where
  "emit_rm dst opcode id0 =
    do {
      op_size \<leftarrow> loc_size dst;
      emit_r_rm op_size dst id0 (if op_size \<noteq> Byte then opcode + 1 else opcode)
    }"

text \<open>The prefix of the short forms for the accumulator.\<close>

definition emit_acc_prefix :: "Size \<Rightarrow> u8 list" where
  "emit_acc_prefix op_size = (if op_size = Word then [0x66] else if op_size = Qword then [0x48] else [])"

definition emit_alu :: "Location \<Rightarrow> Operand \<Rightarrow> u8 \<Rightarrow> u8 list option" where
  "emit_alu dst src id0 =
    do {
      op_size \<leftarrow> loc_size dst;
      (case as_loc src of
         Inl imm \<Rightarrow> do {
           check_imm_size op_size imm;
           if op_size \<noteq> Byte \<and> fits_i8 imm then do {
             bs \<leftarrow> emit_r_rm op_size dst id0 0x83;
             Some (bs @ emit_u8 (ucast imm))
           }
           else (case dst of
             LReg reg \<Rightarrow>
               if reg_num reg AND 0xF = 0 then
                 Some (emit_acc_prefix op_size
                       @ emit_u8 (push_bit 3 id0 OR (if op_size = Byte then 0x04 else 0x05))
                       @ emit_imm (cap_to_dword op_size) imm)
               else do {
                 bs \<leftarrow> emit_r_rm op_size dst id0 (if op_size = Byte then 0x80 else 0x81);
                 Some (bs @ emit_imm (cap_to_dword op_size) imm)
               }
           | LMem _ \<Rightarrow> do {
               bs \<leftarrow> emit_r_rm op_size dst id0 (if op_size = Byte then 0x80 else 0x81);
               Some (bs @ emit_imm (cap_to_dword op_size) imm)
             })
         }
       | Inr src' \<Rightarrow> do {
           src_size \<leftarrow> loc_size src';
           ensure (src_size = op_size);
           (case (dst, src') of
              (_, LReg reg) \<Rightarrow>
                emit_r_rm op_size dst (reg_num reg)
                  (ucast (push_bit 3 id0) OR (if op_size = Byte then 0x00 else 0x01))
            | (LReg reg, _) \<Rightarrow>
                emit_r_rm op_size src' (reg_num reg)
                  (ucast (push_bit 3 id0) OR (if op_size = Byte then 0x02 else 0x03))
            | _ \<Rightarrow> None)
         })
    }"

definition emit_shift :: "Location \<Rightarrow> Operand \<Rightarrow> u8 \<Rightarrow> u8 list option" where
  "emit_shift dst src id0 =
    do {
      op_size \<leftarrow> loc_size dst;
      (case src of
         OReg r \<Rightarrow>
           if r = CL then emit_r_rm op_size dst id0 (if op_size = Byte then 0xD2 else 0xD3) else None
       | OImm imm \<Rightarrow>
           if imm = 1 then emit_r_rm op_size dst id0 (if op_size = Byte then 0xD0 else 0xD1)
           else do {
             bs \<leftarrow> emit_r_rm op_size dst id0 (if op_size = Byte then 0xC0 else 0xC1);
             ensure (fits_u8 imm);
             Some (bs @ emit_u8 (ucast imm))
           }
       | OMem _ \<Rightarrow> None)
    }"

section \<open>Instructions\<close>

text \<open>The indirect form of a call or jump: \<open>FF /id\<close>.\<close>

definition emit_indirect :: "Location \<Rightarrow> u8 \<Rightarrow> u8 list option" where
  "emit_indirect target id0 =
    do {
      s \<leftarrow> loc_size target;
      ensure (s = Qword);
      rex \<leftarrow> emit_rex target id0 0;
      modrm \<leftarrow> emit_modrm target id0;
      Some (rex @ emit_u8 0xFF @ modrm)
    }"

definition emit_call :: "Operand \<Rightarrow> u8 list option" where
  "emit_call target =
    (case as_loc target of
       Inr loc \<Rightarrow> emit_indirect loc 2
     | Inl imm \<Rightarrow> do { ensure (fits_i32 imm); Some (emit_u8 0xE8 @ emit_u32 (ucast imm)) })"

definition emit_jcc :: "i32 \<Rightarrow> ConditionCode \<Rightarrow> u8 list option" where
  "emit_jcc target cond =
    (if fits_i8 target then Some (emit_u8 (0x70 + cc_num cond) @ emit_u8 (ucast target))
     else Some (emit_u8 0x0F @ emit_u8 (0x80 + cc_num cond) @ emit_u32 target))"

definition emit_jmp :: "Operand \<Rightarrow> u8 list option" where
  "emit_jmp target =
    (case as_loc target of
       Inr loc \<Rightarrow> emit_indirect loc 4
     | Inl imm \<Rightarrow>
         if fits_i8 imm then Some (emit_u8 0xEB @ emit_u8 (ucast imm))
         else do { ensure (fits_i32 imm); Some (emit_u8 0xE9 @ emit_u32 (ucast imm)) })"

definition emit_lea :: "Register \<Rightarrow> Memory \<Rightarrow> u8 list option" where
  "emit_lea dst src =
    do {
      op_size \<leftarrow> reg_size dst;
      ensure (op_size \<noteq> Byte);
      emit_r_rm op_size (LMem src) (reg_num dst) 0x8D
    }"

definition emit_mov_imm_rm :: "Size \<Rightarrow> Location \<Rightarrow> i64 \<Rightarrow> u8 list option" where
  "emit_mov_imm_rm op_size dst imm =
    do {
      check_imm_size op_size imm;
      bs \<leftarrow> emit_r_rm op_size dst 0 (if op_size = Byte then 0xC6 else 0xC7);
      Some (bs @ emit_imm (cap_to_dword op_size) imm)
    }"

definition emit_mov :: "Location \<Rightarrow> Operand \<Rightarrow> u8 list option" where
  "emit_mov dst src =
    do {
      op_size0 \<leftarrow> loc_size dst;
      (case as_loc src of
         Inl imm \<Rightarrow>
           (case dst of
              LReg reg \<Rightarrow>
                (let op_size = (if op_size0 = Qword \<and> fits_u32 imm then Dword else op_size0) in
                 if op_size \<noteq> Qword \<or> \<not> fits_i32 imm then do {
                   bs \<leftarrow> emit_plusr op_size reg (if op_size = Byte then 0xB0 else 0xB8);
                   Some (bs @ emit_imm op_size imm)
                 }
                 else emit_mov_imm_rm op_size dst imm)
            | LMem _ \<Rightarrow> emit_mov_imm_rm op_size0 dst imm)
       | Inr src' \<Rightarrow> do {
           src_size \<leftarrow> loc_size src';
           ensure (src_size = op_size0);
           (case (dst, src') of
              (_, LReg reg) \<Rightarrow>
                emit_r_rm op_size0 dst (reg_num reg) (if op_size0 = Byte then 0x88 else 0x89)
            | (LReg reg, _) \<Rightarrow>
                emit_r_rm op_size0 src' (reg_num reg) (if op_size0 = Byte then 0x8A else 0x8B)
            | _ \<Rightarrow> None)
         })
    }"

definition emit_movabs :: "Operand \<Rightarrow> Operand \<Rightarrow> u8 list option" where
  "emit_movabs dst src =
    do {
      (imm, reg, opcode) \<leftarrow> (case (dst, src) of
          (OReg reg, OImm imm) \<Rightarrow> Some (imm, reg, 0xA0)
        | (OImm imm, OReg reg) \<Rightarrow> Some (imm, reg, 0xA2)
        | _ \<Rightarrow> None);
      ensure (reg_num reg AND 0xF = 0);
      op_size \<leftarrow> reg_size reg;
      Some (emit_acc_prefix op_size @ emit_u8 (if op_size = Byte then opcode else opcode + 1)
            @ emit_imm op_size imm)
    }"

definition emit_movsx :: "Register \<Rightarrow> Location \<Rightarrow> u8 list option" where
  "emit_movsx dst src =
    do {
      dst_size \<leftarrow> reg_size dst;
      src_size \<leftarrow> loc_size src;
      ensure (dst_size > src_size);
      opcode \<leftarrow> (case src_size of
          Byte \<Rightarrow> Some 0x0FBE | Word \<Rightarrow> Some 0x0FBF | Dword \<Rightarrow> Some 0x63 | Qword \<Rightarrow> None);
      emit_r_rm dst_size src (reg_num dst) opcode
    }"

definition emit_movzx :: "Register \<Rightarrow> Location \<Rightarrow> u8 list option" where
  "emit_movzx dst src =
    do {
      dst_size \<leftarrow> reg_size dst;
      src_size \<leftarrow> loc_size src;
      ensure (dst_size > src_size \<and> src_size \<noteq> Dword);
      emit_r_rm dst_size src (reg_num dst) (if src_size = Byte then 0x0FB6 else 0x0FB7)
    }"

definition emit_pop :: "Location \<Rightarrow> u8 list option" where
  "emit_pop dst =
    do {
      op_size0 \<leftarrow> loc_size dst;
      ensure (op_size0 = Word \<or> op_size0 = Qword);
      let op_size = (if op_size0 = Qword then Dword else op_size0);
      (case dst of
         LReg reg \<Rightarrow> emit_plusr op_size reg 0x58
       | LMem _ \<Rightarrow> emit_r_rm op_size dst 0 0x8F)
    }"

definition emit_push :: "Operand \<Rightarrow> u8 list option" where
  "emit_push src =
    (case as_loc src of
       Inl imm \<Rightarrow>
         if fits_i8 imm then Some (emit_u8 0x6A @ emit_u8 (ucast imm))
         else do { ensure (fits_i32 imm); Some (emit_u8 0x68 @ emit_u32 (ucast imm)) }
     | Inr loc \<Rightarrow> do {
         op_size0 \<leftarrow> loc_size loc;
         ensure (op_size0 = Word \<or> op_size0 = Qword);
         let op_size = (if op_size0 = Qword then Dword else op_size0);
         (case loc of
            LReg reg \<Rightarrow> emit_plusr op_size reg 0x50
          | LMem _ \<Rightarrow> emit_r_rm op_size loc 0 0xFF)
       })"

definition emit_ret :: "u16 \<Rightarrow> u8 list" where
  "emit_ret pop = (if pop = 0 then emit_u8 0xC3 else emit_u8 0xC2 @ emit_u16 pop)"

definition emit_setcc :: "Location \<Rightarrow> ConditionCode \<Rightarrow> u8 list option" where
  "emit_setcc dst cc =
    do {
      s \<leftarrow> loc_size dst;
      ensure (s = Byte);
      emit_r_rm Byte dst 0 (0x0F90 + ucast (cc_num cc))
    }"

definition emit_test :: "Location \<Rightarrow> Operand \<Rightarrow> u8 list option" where
  "emit_test dst src =
    do {
      op_size \<leftarrow> loc_size dst;
      (case src of
         OImm imm \<Rightarrow> do {
           check_imm_size op_size imm;
           (case dst of
              LReg reg \<Rightarrow>
                if reg_num reg AND 0xF = 0 then
                  Some (emit_acc_prefix op_size @ emit_u8 (if op_size = Byte then 0xA8 else 0xA9)
                        @ emit_imm (cap_to_dword op_size) imm)
                else do {
                  bs \<leftarrow> emit_r_rm op_size dst 0 (if op_size = Byte then 0xF6 else 0xF7);
                  Some (bs @ emit_imm (cap_to_dword op_size) imm)
                }
            | LMem _ \<Rightarrow> do {
                bs \<leftarrow> emit_r_rm op_size dst 0 (if op_size = Byte then 0xF6 else 0xF7);
                Some (bs @ emit_imm (cap_to_dword op_size) imm)
              })
         }
       | OReg reg \<Rightarrow> do {
           s \<leftarrow> reg_size reg;
           ensure (s = op_size);
           emit_r_rm op_size dst (reg_num reg) (if op_size = Byte then 0x84 else 0x85)
         }
       | OMem _ \<Rightarrow> None)
    }"

definition emit_xchg :: "Location \<Rightarrow> Location \<Rightarrow> u8 list option" where
  "emit_xchg dst0 src0 =
    do {
      (dst, src) \<leftarrow> (case (dst0, src0) of
          (LReg s, d) \<Rightarrow> Some (d, s)
        | (d, LReg s) \<Rightarrow> Some (d, s)
        | _ \<Rightarrow> None);
      op_size \<leftarrow> loc_size dst;
      src_size \<leftarrow> reg_size src;
      ensure (op_size = src_size);
      (case dst of
         LReg reg \<Rightarrow>
           if op_size \<noteq> Byte \<and> reg_num src AND 0xF = 0 then emit_plusr op_size reg 0x90
           else if op_size \<noteq> Byte \<and> reg_num reg AND 0xF = 0 then emit_plusr op_size src 0x90
           else emit_r_rm op_size dst (reg_num src) (if op_size = Byte then 0x86 else 0x87)
       | LMem _ \<Rightarrow> emit_r_rm op_size dst (reg_num src) (if op_size = Byte then 0x86 else 0x87))
    }"

text \<open>Operations on a register and a location of the same size: \<open>small\<close> says whether bytes are
  allowed.\<close>

definition emit_pair :: "bool \<Rightarrow> Register \<Rightarrow> Location \<Rightarrow> u32 \<Rightarrow> u32 \<Rightarrow> u8 list option" where
  "emit_pair small reg loc byte_opcode opcode =
    do {
      reg_sz \<leftarrow> reg_size reg;
      loc_sz \<leftarrow> loc_size loc;
      ensure (small \<or> reg_sz \<noteq> Byte);
      ensure (reg_sz = loc_sz);
      emit_r_rm reg_sz loc (reg_num reg) (if reg_sz = Byte then byte_opcode else opcode)
    }"

fun x86_encode :: "X86Op \<Rightarrow> u8 list option" where
  "x86_encode (Add_x dst src) = emit_alu dst src 0"
| "x86_encode (Or_x dst src) = emit_alu dst src 1"
| "x86_encode (Adc_x dst src) = emit_alu dst src 2"
| "x86_encode (Sbb_x dst src) = emit_alu dst src 3"
| "x86_encode (And_x dst src) = emit_alu dst src 4"
| "x86_encode (Sub_x dst src) = emit_alu dst src 5"
| "x86_encode (Xor_x dst src) = emit_alu dst src 6"
| "x86_encode (Cmp_x dst src) = emit_alu dst src 7"
| "x86_encode (Shl_x dst src) = emit_shift dst src 4"
| "x86_encode (Shr_x dst src) = emit_shift dst src 5"
| "x86_encode (Sar_x dst src) = emit_shift dst src 7"
| "x86_encode Illegal_x = Some (emit_u8 0x0F @ emit_u8 0x0B)"
| "x86_encode (Call_x target) = emit_call target"
| "x86_encode Cdqe_x = Some (emit_u8 0x48 @ emit_u8 0x98)"
| "x86_encode (Cmovcc_x dst src cc) = emit_pair False dst src 0 (0x0F40 + ucast (cc_num cc))"
| "x86_encode Cdq_x = Some (emit_u8 0x99)"
| "x86_encode (Cmpxchg_x dst src) = emit_pair True src dst 0x0FB0 0x0FB1"
| "x86_encode Cqo_x = Some (emit_u8 0x48 @ emit_u8 0x99)"
| "x86_encode (Div_x src) = emit_rm src 0xF6 6"
| "x86_encode Hlt_x = Some (emit_u8 0xF4)"
| "x86_encode (Idiv_x src) = emit_rm src 0xF6 7"
| "x86_encode (Imul1_x src) = emit_rm src 0xF6 5"
| "x86_encode (Imul2_x dst src) = emit_pair False dst src 0 0x0FAF"
| "x86_encode (Jcc_x target cc) = emit_jcc target cc"
| "x86_encode Lock_x = Some (emit_u8 0xF0)"
| "x86_encode (Jmp_x target) = emit_jmp target"
| "x86_encode (Lea_x dst src) = emit_lea dst src"
| "x86_encode Mfence_x = Some (emit_u8 0x0F @ emit_u8 0xAE @ emit_u8 0xF0)"
| "x86_encode (Mov_x dst src) = emit_mov dst src"
| "x86_encode (Movabs_x dst src) = emit_movabs dst src"
| "x86_encode (Movsx_x dst src) = emit_movsx dst src"
| "x86_encode (Movzx_x dst src) = emit_movzx dst src"
| "x86_encode (Mul_x src) = emit_rm src 0xF6 4"
| "x86_encode (Neg_x dst) = emit_rm dst 0xF6 3"
| "x86_encode Nop_x = Some (emit_u8 0x90)"
| "x86_encode (Not_x dst) = emit_rm dst 0xF6 2"
| "x86_encode (Pop_x dst) = emit_pop dst"
| "x86_encode (Push_x src) = emit_push src"
| "x86_encode (Ret_x pop) = Some (emit_ret pop)"
| "x86_encode (Setcc_x dst cc) = emit_setcc dst cc"
| "x86_encode (Test_x dst src) = emit_test dst src"
| "x86_encode (Xadd_x dst src) = emit_pair True src dst 0x0FC0 0x0FC1"
| "x86_encode (Xchg_x dst src) = emit_xchg dst src"

end
