(* ===== verification/X86_Decode.thy ===== *)
theory X86_Decode
  imports X86_Op "HOL-Library.Monad_Syntax"
begin

text \<open>
  The decoder of host instructions, \<open>lib/x86/src/decode.rs\<close>. The callback that yields the next byte
  is the list of bytes still to come; a method of \<open>Decoder\<close> returns its result and the bytes it has
  left, or \<^const>\<open>None\<close> where it panics or the bytes run out.
\<close>

type_synonym 'a decoder = "u8 list \<Rightarrow> ('a \<times> u8 list) option"

section \<open>Constants\<close>

fun decode_byte :: "u8 decoder" where
  "decode_byte [] = None"
| "decode_byte (b # bs) = Some (b, bs)"

definition decode_word :: "u16 decoder" where
  "decode_word bs = do {
     (b0, bs) \<leftarrow> decode_byte bs;
     (b1, bs) \<leftarrow> decode_byte bs;
     Some (ucast b0 OR push_bit 8 (ucast b1), bs)
   }"

definition decode_dword :: "u32 decoder" where
  "decode_dword bs = do {
     (b0, bs) \<leftarrow> decode_byte bs;
     (b1, bs) \<leftarrow> decode_byte bs;
     (b2, bs) \<leftarrow> decode_byte bs;
     (b3, bs) \<leftarrow> decode_byte bs;
     Some (ucast b0 OR push_bit 8 (ucast b1) OR push_bit 16 (ucast b2) OR push_bit 24 (ucast b3), bs)
   }"

definition decode_qword :: "u64 decoder" where
  "decode_qword bs = do {
     (b0, bs) \<leftarrow> decode_byte bs;
     (b1, bs) \<leftarrow> decode_byte bs;
     (b2, bs) \<leftarrow> decode_byte bs;
     (b3, bs) \<leftarrow> decode_byte bs;
     (b4, bs) \<leftarrow> decode_byte bs;
     (b5, bs) \<leftarrow> decode_byte bs;
     (b6, bs) \<leftarrow> decode_byte bs;
     (b7, bs) \<leftarrow> decode_byte bs;
     Some (ucast b0 OR push_bit 8 (ucast b1) OR push_bit 16 (ucast b2) OR push_bit 24 (ucast b3)
       OR push_bit 32 (ucast b4) OR push_bit 40 (ucast b5) OR push_bit 48 (ucast b6)
       OR push_bit 56 (ucast b7), bs)
   }"

definition decode_immediate :: "Size \<Rightarrow> i64 decoder" where
  "decode_immediate s bs =
    (case s of
       Byte \<Rightarrow> do { (v, bs) \<leftarrow> decode_byte bs; Some (scast v, bs) }
     | Word \<Rightarrow> do { (v, bs) \<leftarrow> decode_word bs; Some (scast v, bs) }
     | Dword \<Rightarrow> do { (v, bs) \<leftarrow> decode_dword bs; Some (scast v, bs) }
     | Qword \<Rightarrow> decode_qword bs)"

section \<open>Registers and ModR/M\<close>

definition register_of_size :: "u8 \<Rightarrow> Size \<Rightarrow> u8 \<Rightarrow> Register" where
  "register_of_size reg0 s rex =
    (let reg = reg0 AND 15; i = ucast reg :: reg_index in
     case s of
       Byte \<Rightarrow> if rex AND 0x40 \<noteq> 0 \<and> 4 \<le> reg \<and> reg \<le> 7 then GPB2 i else GPB i
     | Word \<Rightarrow> GPW i
     | Dword \<Rightarrow> GPD i
     | Qword \<Rightarrow> GPQ i)"

definition modrm_disp :: "u8 \<Rightarrow> i32 decoder" where
  "modrm_disp modb bs =
    (if modb = 0b00 then Some (0, bs)
     else if modb = 0b01 then do { (v, bs) \<leftarrow> decode_byte bs; Some (scast v, bs) }
     else decode_dword bs)"

text \<open>The operand of a SIB byte: base, index and the mode that selects the displacement.\<close>

definition modrm_sib :: "u8 \<Rightarrow> u8 \<Rightarrow> u8 \<Rightarrow> Register option \<times> (Register \<times> u8) option \<times> u8" where
  "modrm_sib rex modb sib =
    (let ss = drop_bit 6 sib;
         index = (if rex AND 0x2 \<noteq> 0 then 8 else 0) OR (drop_bit 3 sib AND 0b111);
         base = (if rex AND 0x1 \<noteq> 0 then 8 else 0) OR (sib AND 0b111);
         idx = (if index \<noteq> 0b100
                then Some (register_of_size index Qword 0, push_bit (unat ss) 1) else None) in
     if modb = 0 \<and> base AND 7 = 0b101 then (None, idx, 0b10)
     else (Some (register_of_size base Qword 0), idx, modb))"

definition decode_modrm :: "u8 \<Rightarrow> Size \<Rightarrow> (Location \<times> Register) decoder" where
  "decode_modrm rex s bs = do {
     (first_byte, bs) \<leftarrow> decode_byte bs;
     let modb = drop_bit 6 first_byte;
     let rm = first_byte AND 0b111;
     let reg_id0 = drop_bit 3 first_byte AND 0b111;
     let reg_id1 = (if rex AND 0x4 \<noteq> 0 then reg_id0 + 8 else reg_id0);
     let reg = register_of_size reg_id1 s rex;
     if modb = 0b11 then
       Some ((LReg (register_of_size (rm OR (if rex AND 0x1 \<noteq> 0 then 8 else 0)) s rex), reg), bs)
     else if modb = 0b00 \<and> rm = 0b101 then do {
       (d, bs) \<leftarrow> decode_dword bs;
       Some ((LMem (reg_add_i32 RIP d), reg), bs)
     }
     else if rm \<noteq> 0b100 then do {
       let base = register_of_size (rm OR (if rex AND 0x1 \<noteq> 0 then 8 else 0)) Qword 0;
       (d, bs) \<leftarrow> modrm_disp modb bs;
       Some ((LMem \<lparr>m_base = Some base, m_index = None, m_displacement = d, m_size = s\<rparr>, reg), bs)
     }
     else do {
       (sib, bs) \<leftarrow> decode_byte bs;
       let (base, index, modb) = modrm_sib rex modb sib;
       (d, bs) \<leftarrow> modrm_disp modb bs;
       Some ((LMem \<lparr>m_base = base, m_index = index, m_displacement = d, m_size = s\<rparr>, reg), bs)
     }
   }"

section \<open>Operations\<close>

definition decode_alu :: "Location \<Rightarrow> Operand \<Rightarrow> u8 \<Rightarrow> X86Op" where
  "decode_alu dst src id0 =
    (let k = id0 AND 7 in
     if k = 0 then Add_x dst src
     else if k = 1 then Or_x dst src
     else if k = 2 then Adc_x dst src
     else if k = 3 then Sbb_x dst src
     else if k = 4 then And_x dst src
     else if k = 5 then Sub_x dst src
     else if k = 6 then Xor_x dst src
     else Cmp_x dst src)"

definition decode_shift :: "Location \<Rightarrow> Operand \<Rightarrow> Register \<Rightarrow> X86Op option" where
  "decode_shift dst src reg =
    (let k = reg_num reg AND 7 in
     if k = 4 then Some (Shl_x dst src)
     else if k = 5 then Some (Shr_x dst src)
     else if k = 7 then Some (Sar_x dst src)
     else None)"

text \<open>The prefix loop of \<open>op\<close>: the REX prefix and operand size, and the first byte that is neither.\<close>

fun decode_prefixes :: "u8 \<Rightarrow> Size \<Rightarrow> (u8 \<times> Size \<times> u8) decoder" where
  "decode_prefixes rex opsize [] = None"
| "decode_prefixes rex opsize (prefix # bs) =
    (if prefix AND 0xF0 = 0x40 then
       decode_prefixes prefix (if prefix AND 0x08 \<noteq> 0 then Qword else opsize) bs
     else if prefix = 0x66 then decode_prefixes rex Word bs
     else Some ((rex, opsize, prefix), bs))"

text \<open>The opcodes whose byte-sized form is the number before.\<close>

definition byte_opcodes :: "u32 list" where
  "byte_opcodes =
    [0x00, 0x08, 0x10, 0x18, 0x20, 0x28, 0x30, 0x38, 0x02, 0x0A, 0x12, 0x1A, 0x22, 0x2A, 0x32, 0x3A,
     0x04, 0x0C, 0x14, 0x1C, 0x24, 0x2C, 0x34, 0x3C, 0x80, 0x84, 0x86, 0x88, 0x8A,
     0xC0, 0xC6, 0xD0, 0xD2, 0xF6, 0x0FB0, 0x0FC0]"

definition plus_reg_id :: "u8 \<Rightarrow> u32 \<Rightarrow> u8" where
  "plus_reg_id rex opcode = (if rex AND 0x1 \<noteq> 0 then 8 else 0) OR (ucast opcode AND 7)"

text \<open>Opcodes of two bytes.\<close>

definition decode_op_0f :: "u8 \<Rightarrow> Size \<Rightarrow> u32 \<Rightarrow> X86Op decoder" where
  "decode_op_0f rex opsize opcode bs =
    (if opcode = 0x0F0B then Some (Illegal_x, bs)
     else if 0x0F40 \<le> opcode \<and> opcode \<le> 0x0F4F then do {
       cc \<leftarrow> cc_try_from (ucast opcode AND 0xF);
       ((src, dst), bs) \<leftarrow> decode_modrm rex opsize bs;
       Some (Cmovcc_x dst src cc, bs)
     }
     else if 0x0F80 \<le> opcode \<and> opcode \<le> 0x0F8F then do {
       cc \<leftarrow> cc_try_from (ucast opcode AND 0xF);
       (d, bs) \<leftarrow> decode_dword bs;
       Some (Jcc_x d cc, bs)
     }
     else if 0x0F90 \<le> opcode \<and> opcode \<le> 0x0F9F then do {
       cc \<leftarrow> cc_try_from (ucast opcode AND 0xF);
       ((dst, reg), bs) \<leftarrow> decode_modrm rex Byte bs;
       if reg_num reg AND 7 = 0 then Some (Setcc_x dst cc, bs) else None
     }
     else if opcode = 0x0FAE then do {
       (b, bs) \<leftarrow> decode_byte bs;
       if b = 0xF0 then Some (Mfence_x, bs) else None
     }
     else if opcode = 0x0FAF then do {
       ((src, dst), bs) \<leftarrow> decode_modrm rex opsize bs;
       Some (Imul2_x dst src, bs)
     }
     else if opcode = 0x0FB1 then do {
       ((dst, src), bs) \<leftarrow> decode_modrm rex opsize bs;
       Some (Cmpxchg_x dst src, bs)
     }
     else if opcode = 0x0FB6 then do {
       ((src, dst), bs) \<leftarrow> decode_modrm rex opsize bs;
       src \<leftarrow> loc_resize src Byte;
       Some (Movzx_x dst src, bs)
     }
     else if opcode = 0x0FB7 then do {
       ((src, dst), bs) \<leftarrow> decode_modrm rex opsize bs;
       src \<leftarrow> loc_resize src Word;
       Some (Movzx_x dst src, bs)
     }
     else if opcode = 0x0FBE then do {
       ((src, dst), bs) \<leftarrow> decode_modrm rex opsize bs;
       src \<leftarrow> loc_resize src Byte;
       Some (Movsx_x dst src, bs)
     }
     else if opcode = 0x0FBF then do {
       ((src, dst), bs) \<leftarrow> decode_modrm rex opsize bs;
       src \<leftarrow> loc_resize src Word;
       Some (Movsx_x dst src, bs)
     }
     else if opcode = 0x0FC1 then do {
       ((dst, src), bs) \<leftarrow> decode_modrm rex opsize bs;
       Some (Xadd_x dst src, bs)
     }
     else None)"

text \<open>Opcodes of one byte, up to \<open>0x8B\<close>.\<close>

definition decode_op_low :: "u8 \<Rightarrow> Size \<Rightarrow> u32 \<Rightarrow> X86Op decoder" where
  "decode_op_low rex opsize opcode bs =
    (if opcode \<in> set [0x01, 0x09, 0x11, 0x19, 0x21, 0x29, 0x31, 0x39] then do {
       ((dst, src), bs) \<leftarrow> decode_modrm rex opsize bs;
       Some (decode_alu dst (OReg src) (drop_bit 3 (ucast opcode)), bs)
     }
     else if opcode \<in> set [0x03, 0x0B, 0x13, 0x1B, 0x23, 0x2B, 0x33, 0x3B] then do {
       ((src, dst), bs) \<leftarrow> decode_modrm rex opsize bs;
       Some (decode_alu (LReg dst) (operand_of_loc src) (drop_bit 3 (ucast opcode)), bs)
     }
     else if opcode \<in> set [0x05, 0x0D, 0x15, 0x1D, 0x25, 0x2D, 0x35, 0x3D] then do {
       (imm, bs) \<leftarrow> decode_immediate (cap_to_dword opsize) bs;
       Some (decode_alu (LReg (register_of_size 0 opsize rex)) (OImm imm) (drop_bit 3 (ucast opcode)), bs)
     }
     else if 0x50 \<le> opcode \<and> opcode \<le> 0x57 then
       Some (Push_x (OReg (register_of_size (plus_reg_id rex opcode)
               (if opsize = Dword then Qword else opsize) rex)), bs)
     else if 0x58 \<le> opcode \<and> opcode \<le> 0x5F then
       Some (Pop_x (LReg (register_of_size (plus_reg_id rex opcode)
               (if opsize = Dword then Qword else opsize) rex)), bs)
     else if opcode = 0x63 then do {
       ((src, dst), bs) \<leftarrow> decode_modrm rex opsize bs;
       src \<leftarrow> loc_resize src Dword;
       Some (Movsx_x dst src, bs)
     }
     else if 0x70 \<le> opcode \<and> opcode \<le> 0x7F then do {
       cc \<leftarrow> cc_try_from (ucast opcode AND 0xF);
       (d, bs) \<leftarrow> decode_byte bs;
       Some (Jcc_x (scast d) cc, bs)
     }
     else if opcode = 0x81 then do {
       ((operand, reg), bs) \<leftarrow> decode_modrm rex opsize bs;
       (imm, bs) \<leftarrow> decode_immediate (cap_to_dword opsize) bs;
       Some (decode_alu operand (OImm imm) (reg_num reg), bs)
     }
     else if opcode = 0x83 then do {
       ((operand, reg), bs) \<leftarrow> decode_modrm rex opsize bs;
       (b, bs) \<leftarrow> decode_byte bs;
       Some (decode_alu operand (OImm (scast b)) (reg_num reg), bs)
     }
     else if opcode = 0x85 then do {
       ((operand, reg), bs) \<leftarrow> decode_modrm rex opsize bs;
       Some (Test_x operand (OReg reg), bs)
     }
     else if opcode = 0x87 then do {
       ((operand, reg), bs) \<leftarrow> decode_modrm rex opsize bs;
       Some (Xchg_x (LReg reg) operand, bs)
     }
     else if opcode = 0x89 then do {
       ((operand, reg), bs) \<leftarrow> decode_modrm rex opsize bs;
       Some (Mov_x operand (OReg reg), bs)
     }
     else if opcode = 0x8B then do {
       ((operand, reg), bs) \<leftarrow> decode_modrm rex opsize bs;
       Some (Mov_x (LReg reg) (operand_of_loc operand), bs)
     }
     else None)"

text \<open>Opcodes of one byte from \<open>0x8D\<close>.\<close>

definition decode_op_high :: "u8 \<Rightarrow> Size \<Rightarrow> u32 \<Rightarrow> X86Op decoder" where
  "decode_op_high rex opsize opcode bs =
    (if opcode = 0x8D then do {
       ((operand, reg), bs) \<leftarrow> decode_modrm rex opsize bs;
       (case operand of
          LMem m \<Rightarrow> Some (Lea_x reg m, bs)
        | LReg _ \<Rightarrow> Some (Illegal_x, bs))
     }
     else if opcode = 0x90 then Some (Nop_x, bs)
     else if opcode = 0x98 then (if opsize = Qword then Some (Cdqe_x, bs) else None)
     else if opcode = 0x99 then
       (if opsize = Dword then Some (Cdq_x, bs) else if opsize = Qword then Some (Cqo_x, bs) else None)
     else if 0xB8 \<le> opcode \<and> opcode \<le> 0xBF then do {
       (imm, bs) \<leftarrow> decode_immediate opsize bs;
       Some (Mov_x (LReg (register_of_size (plus_reg_id rex opcode) opsize rex)) (OImm imm), bs)
     }
     else if opcode = 0xC1 then do {
       ((operand, reg), bs) \<leftarrow> decode_modrm rex opsize bs;
       (b, bs) \<leftarrow> decode_byte bs;
       op \<leftarrow> decode_shift operand (OImm (ucast b)) reg;
       Some (op, bs)
     }
     else if opcode = 0xC2 then do {
       (w, bs) \<leftarrow> decode_word bs;
       Some (Ret_x w, bs)
     }
     else if opcode = 0xC3 then Some (Ret_x 0, bs)
     else if opcode = 0xC7 then do {
       ((operand, reg), bs) \<leftarrow> decode_modrm rex opsize bs;
       if reg_num reg AND 7 \<noteq> 0 then None
       else do {
         (imm, bs) \<leftarrow> decode_immediate (cap_to_dword opsize) bs;
         Some (Mov_x operand (OImm imm), bs)
       }
     }
     else if opcode = 0xD1 then do {
       ((operand, reg), bs) \<leftarrow> decode_modrm rex opsize bs;
       op \<leftarrow> decode_shift operand (OImm 1) reg;
       Some (op, bs)
     }
     else if opcode = 0xD3 then do {
       ((operand, reg), bs) \<leftarrow> decode_modrm rex opsize bs;
       op \<leftarrow> decode_shift operand (OReg CL) reg;
       Some (op, bs)
     }
     else if opcode = 0xE8 then do { (d, bs) \<leftarrow> decode_dword bs; Some (Call_x (OImm (scast d)), bs) }
     else if opcode = 0xE9 then do { (d, bs) \<leftarrow> decode_dword bs; Some (Jmp_x (OImm (scast d)), bs) }
     else if opcode = 0xEB then do { (d, bs) \<leftarrow> decode_byte bs; Some (Jmp_x (OImm (scast d)), bs) }
     else if opcode = 0xF0 then Some (Lock_x, bs)
     else if opcode = 0xF4 then Some (Hlt_x, bs)
     else if opcode = 0xF7 then do {
       ((operand, reg), bs) \<leftarrow> decode_modrm rex opsize bs;
       let k = reg_num reg AND 7;
       if k = 0 then do {
         (imm, bs) \<leftarrow> decode_immediate (cap_to_dword opsize) bs;
         Some (Test_x operand (OImm imm), bs)
       }
       else if k = 2 then Some (Not_x operand, bs)
       else if k = 3 then Some (Neg_x operand, bs)
       else if k = 4 then Some (Mul_x operand, bs)
       else if k = 5 then Some (Imul1_x operand, bs)
       else if k = 6 then Some (Div_x operand, bs)
       else if k = 7 then Some (Idiv_x operand, bs)
       else None
     }
     else if opcode = 0xFF then do {
       ((operand, reg), bs) \<leftarrow> decode_modrm rex Qword bs;
       let k = reg_num reg AND 7;
       if k = 0 then Some (Push_x (operand_of_loc operand), bs)
       else if k = 2 then Some (Call_x (operand_of_loc operand), bs)
       else if k = 4 then Some (Jmp_x (operand_of_loc operand), bs)
       else None
     }
     else None)"

text \<open>\<open>op\<close> after the prefixes; \<open>b\<close> is the first byte of the opcode.\<close>

definition decode_opcode :: "u8 \<Rightarrow> Size \<Rightarrow> u8 \<Rightarrow> X86Op decoder" where
  "decode_opcode rex opsize0 b bs = do {
     (opcode0, bs) \<leftarrow> (if b = 0xF then do { (b', bs) \<leftarrow> decode_byte bs; Some (push_bit 8 0xF OR ucast b', bs) }
                       else Some (ucast b :: u32, bs));
     let (opcode, opsize) =
       (if opcode0 \<in> set byte_opcodes then (opcode0 + 1, Byte)
        else if opcode0 = 0xB0 then (opcode0 + 8, Byte)
        else (opcode0, opsize0));
     if b = 0xF then decode_op_0f rex opsize opcode bs
     else if opcode \<le> 0x8B then decode_op_low rex opsize opcode bs
     else decode_op_high rex opsize opcode bs
   }"

definition x86_decode :: "X86Op decoder" where
  "x86_decode bs = do {
     ((rex, opsize, b), bs) \<leftarrow> decode_prefixes 0 Dword bs;
     decode_opcode rex opsize b bs
   }"

end
