(* ===== verification/X86_Formats.thy ===== *)
theory X86_Formats
  imports X86_Encode X86_Decode
begin

text \<open>
  How the decoder of host instructions reads what the encoder writes, part by part: constants, prefixes,
  the ModR/M and SIB bytes with their operands, and the arm of the decoder for every opcode.
\<close>

section \<open>Constants\<close>

named_theorems x86_emit \<open>definitions of the encoder\<close>

declare emit_u8_def [x86_emit] emit_u16_def [x86_emit] emit_u32_def [x86_emit] emit_u64_def [x86_emit]

lemma decode_emit_u8 [simp]: "decode_byte (emit_u8 v @ rest) = Some (v, rest)"
  by (simp add: emit_u8_def)

lemma decode_emit_u16 [simp]: "decode_word (emit_u16 v @ rest) = Some (v, rest)"
  by (simp add: emit_u16_def decode_word_def, rule word16_eqI) (simp_all add: bit_simps)

lemma decode_emit_u32 [simp]: "decode_dword (emit_u32 v @ rest) = Some (v, rest)"
  by (simp add: emit_u32_def decode_dword_def, rule word32_eqI) (simp_all add: bit_simps)

lemma decode_emit_u64 [simp]: "decode_qword (emit_u64 v @ rest) = Some (v, rest)"
  by (simp add: emit_u64_def decode_qword_def, rule word64_eqI) (simp_all add: bit_simps)

text \<open>The value of an immediate of a given size.\<close>

definition imm_of_size :: "Size \<Rightarrow> i64 \<Rightarrow> i64" where
  "imm_of_size s v =
    (case s of
       Byte \<Rightarrow> scast (ucast v :: u8)
     | Word \<Rightarrow> scast (ucast v :: u16)
     | Dword \<Rightarrow> scast (ucast v :: u32)
     | Qword \<Rightarrow> v)"

lemma decode_emit_imm [simp]: "decode_immediate s (emit_imm s v @ rest) = Some (imm_of_size s v, rest)"
  by (cases s) (simp_all add: decode_immediate_def emit_imm_def imm_of_size_def)

lemma scast_ucast_fits:
  fixes v :: "'a::len word"
  assumes "- (2 ^ n) \<le> sint v" "sint v < 2 ^ n" "LENGTH('b::len) = Suc n" "Suc n \<le> LENGTH('a)"
  shows "scast (ucast v :: 'b word) = v"
proof -
  have "take_bit (Suc n) (uint v) = take_bit (Suc n) (sint v)"
    using assms(4) by (auto intro!: bit_eqI simp: bit_simps)
  then have "signed_take_bit n (uint v) = signed_take_bit n (sint v)"
    by (simp only: signed_take_bit_eq_iff_take_bit_eq)
  with assms have "sint (ucast v :: 'b word) = sint v"
    by (simp add: signed_ucast_eq signed_take_bit_int_eq_self)
  then show ?thesis by (simp add: scast_eq)
qed

lemma fits_i8_byte [simp]:
  fixes v :: "'a::len word"
  shows "fits_i8 v \<Longrightarrow> 8 \<le> LENGTH('a) \<Longrightarrow> scast (ucast v :: u8) = v"
  by (rule scast_ucast_fits [of 7]) (simp_all add: fits_i8_def)

lemma fits_i32_dword [simp]: "fits_i32 v \<Longrightarrow> scast (ucast v :: u32) = (v :: i64)"
  by (rule scast_ucast_fits [of 31]) (simp_all add: fits_i32_def)

lemma uint_sint_nonneg: "0 \<le> sint v \<Longrightarrow> uint v = sint v" for v :: "'a::len word"
  by (metis uint_sint take_bit_int_eq_self sint_lt order_less_le_trans power_increasing
      one_le_numeral diff_le_self)

lemma fits_u8_byte [simp]: "fits_u8 v \<Longrightarrow> ucast (ucast v :: u8) = (v :: i64)"
  by (rule word_uint_eq_iff [THEN iffD2])
    (simp add: unsigned_ucast_eq unsigned_take_bit_eq take_bit_int_eq_self fits_u8_def uint_sint_nonneg)

section \<open>Prefixes\<close>

text \<open>The REX prefix by its bits: operand size, the high bit of the register, of the index and of the
  base (or register operand), and whether the prefix is needed for \<open>spl\<close> to \<open>dil\<close>.\<close>

definition rex_val :: "bool \<Rightarrow> bool \<Rightarrow> bool \<Rightarrow> bool \<Rightarrow> bool \<Rightarrow> u8" where
  "rex_val w r x b f =
    (if w \<or> r \<or> x \<or> b \<or> f then
       0x40 OR (if w then 8 else 0) OR (if r then 4 else 0) OR (if x then 2 else 0) OR (if b then 1 else 0)
     else 0)"

definition rex_bytes :: "bool \<Rightarrow> bool \<Rightarrow> bool \<Rightarrow> bool \<Rightarrow> bool \<Rightarrow> u8 list" where
  "rex_bytes w r x b f = (if rex_val w r x b f = 0 then [] else [rex_val w r x b f])"

lemma rex_val_bits [simp]:
  "rex_val w r x b f AND 8 = 0 \<longleftrightarrow> \<not> w"
  "rex_val w r x b f AND 4 = 0 \<longleftrightarrow> \<not> r"
  "rex_val w r x b f AND 2 = 0 \<longleftrightarrow> \<not> x"
  "rex_val w r x b f AND 1 = 0 \<longleftrightarrow> \<not> b"
  "rex_val w r x b f AND 0x40 = 0 \<longleftrightarrow> \<not> (w \<or> r \<or> x \<or> b \<or> f)"
  "rex_val w r x b f = 0 \<longleftrightarrow> \<not> (w \<or> r \<or> x \<or> b \<or> f)"
  by (cases w; cases r; cases x; cases b; cases f; simp add: rex_val_def)+

lemma rex_val_kind: "w \<or> r \<or> x \<or> b \<or> f \<Longrightarrow> rex_val w r x b f AND 0xF0 = 0x40"
  by (cases w; cases r; cases x; cases b; cases f; simp add: rex_val_def)

definition size_prefix :: "Size \<Rightarrow> u8 list" where
  "size_prefix s = (if s = Word then [0x66] else [])"

lemma decode_prefixes_emitted:
  assumes "b AND 0xF0 \<noteq> 0x40" "b \<noteq> 0x66" "w \<longleftrightarrow> s = Qword"
  shows "decode_prefixes 0 Dword (size_prefix s @ rex_bytes w r x c f @ b # bs)
    = Some ((rex_val w r x c f, if s = Byte then Dword else s, b), bs)"
  using assms
  by (cases s; cases "w \<or> r \<or> x \<or> c \<or> f")
    (auto simp: size_prefix_def rex_bytes_def rex_val_kind)

text \<open>The bits of a location that go to the prefix.\<close>

fun loc_x :: "Location \<Rightarrow> bool" where
  "loc_x (LReg r) = False"
| "loc_x (LMem m) = (case m_index m of Some (i, _) \<Rightarrow> bit (reg_id i) 3 | None \<Rightarrow> False)"

fun loc_b :: "Location \<Rightarrow> bool" where
  "loc_b (LReg r) = bit (reg_id r) 3"
| "loc_b (LMem m) = (case m_base m of Some b \<Rightarrow> bit (reg_id b) 3 | None \<Rightarrow> False)"

definition is_gpb2 :: "u8 \<Rightarrow> bool" where
  "is_gpb2 n \<longleftrightarrow> n AND 0xF0 = REG_GPB2"

fun loc_gpb2 :: "Location \<Rightarrow> bool" where
  "loc_gpb2 (LReg r) = is_gpb2 (reg_num r)"
| "loc_gpb2 (LMem m) = False"

fun loc_high :: "Location \<Rightarrow> bool" where
  "loc_high (LReg r) = is_high_byte (reg_num r)"
| "loc_high (LMem m) = False"

text \<open>The prefix value of an instruction with a register number and a location.\<close>

definition rex_of :: "Size \<Rightarrow> Location \<Rightarrow> u8 \<Rightarrow> u8" where
  "rex_of s loc n = rex_val (s = Qword) (n AND 8 \<noteq> 0) (loc_x loc) (loc_b loc) (is_gpb2 n \<or> loc_gpb2 loc)"

lemma emit_rex_reg:
  "emit_rex (LReg it) n (if w then 8 else 0) =
    (let p = rex_bytes w (n AND 8 \<noteq> 0) False (bit (reg_id it) 3) (is_gpb2 n \<or> is_gpb2 (reg_num it)) in
     if (is_high_byte (reg_num it) \<longrightarrow> \<not> w \<and> n AND 8 = 0 \<and> \<not> is_gpb2 n) \<and> (is_high_byte n \<longrightarrow> p = [])
     then Some p else None)"
proof -
  have h: "is_high_byte (reg_num it) \<Longrightarrow> \<not> is_gpb2 (reg_num it)"
    by (auto simp: is_gpb2_def REG_GPB2_def simp del: reg_num.simps)
  show ?thesis
    using h unfolding emit_rex_def is_gpb2_def [symmetric] Let_def
    by (cases "n AND 8 = 0"; cases "is_gpb2 n"; cases w; cases "bit (reg_id it) 3";
        cases "is_gpb2 (reg_num it)"; cases "is_high_byte (reg_num it)"; cases "is_high_byte n")
      (simp_all add: rex_bytes_def rex_val_def del: is_high_byte_reg)
qed

lemma emit_rex_mem:
  "emit_rex (LMem m) n (if w then 8 else 0) =
    (let p = rex_bytes w (n AND 8 \<noteq> 0) (loc_x (LMem m)) (loc_b (LMem m)) (is_gpb2 n) in
     if is_high_byte n \<longrightarrow> p = [] then Some p else None)"
proof -
  have b: "(case m_base m of None \<Rightarrow> v | Some b \<Rightarrow> if reg_num b AND 8 \<noteq> 0 then v OR 1 else v)
    = (if loc_b (LMem m) then v OR 1 else v)" for v :: u8
    by (auto split: option.splits)
  have i: "(case m_index m of None \<Rightarrow> v | Some (i, _) \<Rightarrow> if reg_num i AND 8 \<noteq> 0 then v OR 2 else v)
    = (if loc_x (LMem m) then v OR 2 else v)" for v :: u8
    by (auto split: option.splits)
  show ?thesis
    unfolding emit_rex_def is_gpb2_def [symmetric] Let_def Location.case b i
    by (cases "n AND 8 = 0"; cases "is_gpb2 n"; cases w; cases "loc_b (LMem m)"; cases "loc_x (LMem m)";
        cases "is_high_byte n")
      (simp_all add: rex_bytes_def rex_val_def del: loc_x.simps loc_b.simps)
qed

lemma emit_rex_Some:
  assumes "emit_rex loc n (if w then 8 else 0) = Some p"
  shows "p = rex_bytes w (n AND 8 \<noteq> 0) (loc_x loc) (loc_b loc) (is_gpb2 n \<or> loc_gpb2 loc)"
    and "is_high_byte n \<Longrightarrow> p = []"
    and "loc_high loc \<Longrightarrow> \<not> w \<and> n AND 8 = 0 \<and> \<not> is_gpb2 n"
  using assms
  by (cases loc; simp add: emit_rex_reg emit_rex_mem Let_def del: is_high_byte_reg split: if_splits; fail)+

section \<open>ModR/M and SIB\<close>

definition modrm_byte :: "u8 \<Rightarrow> u8 \<Rightarrow> u8 \<Rightarrow> u8" where
  "modrm_byte m r x = push_bit 6 m OR push_bit 3 (r AND 7) OR (x AND 7)"

lemma bit_mask_u8: "bit (7 :: u8) k \<longleftrightarrow> k < 3" "bit (3 :: u8) k \<longleftrightarrow> k < 2" "bit (15 :: u8) k \<longleftrightarrow> k < 4"
  using bit_mask_iff [where 'a = "8 word", of 3 k] bit_mask_iff [where 'a = "8 word", of 2 k]
    bit_mask_iff [where 'a = "8 word", of 4 k]
  by (auto simp: mask_numeral dest: bit_imp_le_length)

lemma modrm_byte_fields [simp]:
  "modrm_byte m r x AND 7 = x AND 7"
  "drop_bit 3 (modrm_byte m r x) AND 7 = r AND 7"
  "drop_bit 6 (modrm_byte m r x) = m AND 3"
  unfolding modrm_byte_def
  by (rule word8_eqI; simp add: bit_simps bit_mask_u8)+

lemma reg_index_split [simp]:
  "(ucast i AND 7) OR (if bit i 3 then 8 else 0) = (ucast i :: u8)"
  "(if bit i 3 then 8 else 0) OR (ucast i AND 7) = (ucast i :: u8)"
  for i :: reg_index
  using reg_index_cases [of i] by auto

lemma reg_index_of_ucast [simp]: "ucast (ucast i :: u8) = i" "(ucast i :: u8) AND 15 = ucast i"
  for i :: reg_index
  using reg_index_cases [of i] by auto

lemma register_of_size_qword [simp]: "register_of_size (ucast i) Qword rex = GPQ i" for i :: reg_index
  by (simp add: register_of_size_def)

text \<open>What the decoder returns for a location it reads at size \<open>s\<close> with prefix \<open>rex\<close>.\<close>

fun loc_as :: "Size \<Rightarrow> u8 \<Rightarrow> Location \<Rightarrow> Location" where
  "loc_as s rex (LReg it) = LReg (register_of_size (ucast (reg_id it)) s rex)"
| "loc_as s rex (LMem m) = LMem (m\<lparr>m_size := if m_base m = Some RIP then Qword else s\<rparr>)"

fun index_ok :: "Location \<Rightarrow> bool" where
  "index_ok (LReg it) = True"
| "index_ok (LMem m) = (\<forall>k. m_index m \<noteq> Some (RSP, k))"

definition disp_bytes :: "u8 \<Rightarrow> i32 \<Rightarrow> u8 list" where
  "disp_bytes m d = (if m = 0 then [] else if m = 1 then emit_u8 (ucast d) else emit_u32 d)"

definition disp_ok :: "u8 \<Rightarrow> i32 \<Rightarrow> bool" where
  "disp_ok m d \<longleftrightarrow> m \<in> {0, 1, 2} \<and> (m = 0 \<longrightarrow> d = 0) \<and> (m = 1 \<longrightarrow> fits_i8 d)"

lemma decode_disp_bytes:
  "disp_ok m d \<Longrightarrow> modrm_disp m (disp_bytes m d @ rest) = Some (d, rest)"
  by (auto simp: modrm_disp_def disp_ok_def disp_bytes_def)

lemma emit_disp_shape:
  obtains m where
    "emit_disp (push_bit 3 (n AND 7) OR (x AND 7)) sib none d = modrm_byte m n x # sib @ disp_bytes m d"
    "disp_ok m d" "m = 0 \<Longrightarrow> none" "m AND 3 = m" "m \<noteq> 3"
proof -
  define m :: u8 where "m = (if d = 0 \<and> none then 0 else if fits_i8 d then 1 else 2)"
  show thesis
    by (rule that [of m])
      (auto simp: m_def emit_disp_def modrm_byte_def disp_bytes_def disp_ok_def split: if_splits)
qed

lemma scale_shift_cases:
  assumes "scale_shift k = Some sh"
  shows "sh AND 3 = sh" "push_bit (unat sh) 1 = k"
  using assms by (auto simp: scale_shift_def split: if_splits)

text \<open>The byte after the first one, for the forms with a SIB byte.\<close>

lemma modrm_sib_byte:
  assumes "rex AND 2 \<noteq> 0 \<longleftrightarrow> bit i 3" "rex AND 1 \<noteq> 0 \<longleftrightarrow> bit b 3" "m = 0 \<Longrightarrow> ucast b AND (7 :: u8) \<noteq> 5"
    "scale_shift k = Some sh" "i \<noteq> 4"
  shows "modrm_sib rex m (modrm_byte sh (ucast i) (ucast b)) = (Some (GPQ b), Some (GPQ i, k), m)"
proof -
  have "(ucast i :: u8) \<noteq> 4" using assms(5) reg_index_cases [of i] by auto
  moreover have "(if rex AND 2 \<noteq> 0 then 8 else 0) OR (ucast i AND 7) = (ucast i :: u8)"
    "(if rex AND 1 \<noteq> 0 then 8 else 0) OR (ucast b AND 7) = (ucast b :: u8)"
    unfolding assms(1,2) by simp_all
  ultimately show ?thesis
    using assms(3) scale_shift_cases [OF assms(4)]
    by (simp add: modrm_sib_def Let_def)
qed

lemma low_nibble:
  fixes n :: u8
  shows "(if n AND 8 \<noteq> 0 then (n AND 7) + 8 else n AND 7) = n AND 15"
proof -
  define i where "i = (ucast n :: reg_index)"
  have 1: "n AND 15 = ucast i"
    unfolding i_def by (rule word8_eqI) (simp_all add: bit_simps bit_mask_u8)
  have "n AND 7 = (n AND 15) AND 7" "n AND 8 = (n AND 15) AND 8" by (simp_all only: and.assoc) simp_all
  then show ?thesis unfolding 1 using reg_index_cases [of i] by auto
qed

text \<open>The three shapes of a sequence: a register, a base without SIB byte, and a SIB byte.\<close>

lemma decode_modrm_register:
  fixes i :: reg_index
  assumes "rex AND 4 \<noteq> 0 \<longleftrightarrow> n AND 8 \<noteq> 0" "rex AND 1 \<noteq> 0 \<longleftrightarrow> bit i 3"
  shows "decode_modrm rex s (modrm_byte 3 n (ucast i) # rest)
    = Some ((LReg (register_of_size (ucast i) s rex), register_of_size (n AND 15) s rex), rest)"
proof -
  have "(ucast i AND 7) OR (if rex AND 1 \<noteq> 0 then 8 else 0) = (ucast i :: u8)"
    unfolding assms(2) by simp
  moreover have "(if rex AND 4 \<noteq> 0 then (n AND 7) + 8 else n AND 7) = n AND 15"
    unfolding assms(1) by (rule low_nibble)
  ultimately show ?thesis by (auto simp: decode_modrm_def Let_def)
qed

lemma decode_modrm_base:
  assumes "rex AND 4 \<noteq> 0 \<longleftrightarrow> n AND 8 \<noteq> 0" "rex AND 1 \<noteq> 0 \<longleftrightarrow> bit b 3"
    "disp_ok m d" "m AND 3 = m" "m \<noteq> 3" "ucast b AND (7 :: u8) \<noteq> 4" "m = 0 \<Longrightarrow> ucast b AND (7 :: u8) \<noteq> 5"
  shows "decode_modrm rex s (modrm_byte m n (ucast b) # disp_bytes m d @ rest)
    = Some ((LMem \<lparr>m_base = Some (GPQ b), m_index = None, m_displacement = d, m_size = s\<rparr>,
             register_of_size (n AND 15) s rex), rest)"
proof -
  have "(ucast b AND 7) OR (if rex AND 1 \<noteq> 0 then 8 else 0) = (ucast b :: u8)"
    unfolding assms(2) by simp
  moreover have "(if rex AND 4 \<noteq> 0 then (n AND 7) + 8 else n AND 7) = n AND 15"
    unfolding assms(1) by (rule low_nibble)
  ultimately show ?thesis
    using assms(3-7) by (auto simp: decode_modrm_def Let_def decode_disp_bytes)
qed

lemma decode_modrm_with_sib:
  assumes "rex AND 4 \<noteq> 0 \<longleftrightarrow> n AND 8 \<noteq> 0" "m AND 3 = m" "m \<noteq> 3"
    "modrm_sib rex m sib = (base, index, m')" "disp_ok m' d"
  shows "decode_modrm rex s (modrm_byte m n 4 # sib # disp_bytes m' d @ rest)
    = Some ((LMem \<lparr>m_base = base, m_index = index, m_displacement = d, m_size = s\<rparr>,
             register_of_size (n AND 15) s rex), rest)"
proof -
  have "(if rex AND 4 \<noteq> 0 then (n AND 7) + 8 else n AND 7) = n AND 15"
    unfolding assms(1) by (rule low_nibble)
  then show ?thesis
    using assms(2-5) by (auto simp: decode_modrm_def Let_def decode_disp_bytes)
qed

lemma decode_modrm_rip:
  assumes "rex AND 4 \<noteq> 0 \<longleftrightarrow> n AND 8 \<noteq> 0"
  shows "decode_modrm rex s (modrm_byte 0 n 5 # emit_u32 d @ rest)
    = Some ((LMem (reg_add_i32 RIP d), register_of_size (n AND 15) s rex), rest)"
proof -
  have "(if rex AND 4 \<noteq> 0 then (n AND 7) + 8 else n AND 7) = n AND 15"
    unfolding assms(1) by (rule low_nibble)
  then show ?thesis by (auto simp: decode_modrm_def Let_def)
qed

lemma modrm_sib_no_base:
  assumes "rex AND 2 \<noteq> 0 \<longleftrightarrow> bit i 3" "scale_shift k = Some sh" "i \<noteq> 4"
  shows "modrm_sib rex 0 (modrm_byte sh (ucast i) 5) = (None, Some (GPQ i, k), 2)"
proof -
  have "(ucast i :: u8) \<noteq> 4" using assms(3) reg_index_cases [of i] by auto
  moreover have "(if rex AND 2 \<noteq> 0 then 8 else 0) OR (ucast i AND 7) = (ucast i :: u8)"
    unfolding assms(1) by simp
  moreover have "((if rex AND 1 \<noteq> 0 then 8 else 0) OR 5) AND (7 :: u8) = 5" by simp
  ultimately show ?thesis
    using scale_shift_cases [OF assms(2)] by (simp add: modrm_sib_def Let_def)
qed

lemma modrm_sib_displacement:
  assumes "rex AND 2 = 0"
  shows "modrm_sib rex 0 (modrm_byte 0 4 5) = (None, None, 2)"
proof -
  have "((if rex AND 1 \<noteq> 0 then 8 else 0) OR 5) AND (7 :: u8) = 5" by simp
  with assms show ?thesis by (simp add: modrm_sib_def Let_def)
qed

lemma modrm_sib_base_only:
  assumes "rex AND 2 = 0" "rex AND 1 \<noteq> 0 \<longleftrightarrow> bit b 3" "b = 4 \<or> b = 12"
  shows "modrm_sib rex m (modrm_byte 0 4 4) = (Some (GPQ b), None, m)"
  using assms by (auto simp: modrm_sib_def Let_def register_of_size_def)

lemma gpq_of_kind: "reg_num r AND 0xF0 = REG_GPQ \<Longrightarrow> \<exists>i. r = GPQ i"
  by (cases r) (simp_all add: reg_kinds del: reg_num.simps)

lemma memory_eqI:
  "m_base m = b \<Longrightarrow> m_index m = i \<Longrightarrow> m_displacement m = d \<Longrightarrow>
   \<lparr>m_base = b, m_index = i, m_displacement = d, m_size = s\<rparr> = m\<lparr>m_size := s\<rparr>"
  by simp

lemma decode_emit_mem:
  assumes e: "emit_mem m (push_bit 3 (n AND 7)) = Some bs" and ok: "index_ok (LMem m)"
    and r: "rex AND 4 \<noteq> 0 \<longleftrightarrow> n AND 8 \<noteq> 0"
    and x: "rex AND 2 \<noteq> 0 \<longleftrightarrow> loc_x (LMem m)" and b: "rex AND 1 \<noteq> 0 \<longleftrightarrow> loc_b (LMem m)"
  shows "decode_modrm rex s (bs @ rest)
    = Some ((loc_as s rex (LMem m), register_of_size (n AND 15) s rex), rest)"
proof (cases "m_base m")
  case None
  note base = this
  show ?thesis
  proof (cases "m_index m")
    case None
    have bs: "bs = modrm_byte 0 n 4 # modrm_byte 0 4 5 # disp_bytes 2 (m_displacement m)"
      using e None base by (simp add: emit_mem_def modrm_byte_def disp_bytes_def)
    have "rex AND 2 = 0" using x None by simp
    then show ?thesis
      unfolding bs using None base r
        decode_modrm_with_sib [OF r _ _ modrm_sib_displacement, of "m_displacement m" s rest]
      by (simp add: disp_ok_def memory_eqI)
  next
    case (Some p)
    obtain ri k where p: "p = (ri, k)" by (cases p)
    obtain i sh where i: "ri = GPQ i" and sh: "scale_shift k = Some sh"
      and bs: "bs = modrm_byte 0 n 4 # modrm_byte sh (reg_num ri) 5 # disp_bytes 2 (m_displacement m)"
      using e Some base p gpq_of_kind [of ri]
      by (auto simp: emit_mem_def modrm_byte_def disp_bytes_def bind_eq_Some_conv simp del: reg_num.simps)
    have i4: "i \<noteq> 4" and xi: "rex AND 2 \<noteq> 0 \<longleftrightarrow> bit i 3"
      using ok x Some p i by auto
    have "modrm_byte sh (reg_num ri) 5 = modrm_byte sh (ucast i) 5"
      by (simp add: i modrm_byte_def del: reg_num.simps)
    then show ?thesis
      unfolding bs using Some base p i
        decode_modrm_with_sib [OF r _ _ modrm_sib_no_base [OF xi sh i4], of "m_displacement m" s rest]
      by (simp add: disp_ok_def memory_eqI del: reg_num.simps)
  qed
next
  case (Some rb)
  note base = this
  show ?thesis
  proof (cases "m_index m")
    case None
    note noidx = this
    have x2: "rex AND 2 = 0" using x None by simp
    consider (rip) "rb = RIP" | (sp) "rb = RSP \<or> rb = R12" | (other) "rb \<noteq> RIP" "rb \<noteq> RSP" "rb \<noteq> R12"
      by blast
    then show ?thesis
    proof cases
      case rip
      have bs: "bs = modrm_byte 0 n 5 # emit_u32 (m_displacement m)"
        using e None base rip by (simp add: emit_mem_def modrm_byte_def)
      show ?thesis
        unfolding bs using None base rip decode_modrm_rip [OF r, of s "m_displacement m" rest]
        by (simp add: reg_add_i32_def memory_eqI)
    next
      case sp
      then obtain i where i: "rb = GPQ i" "i = 4 \<or> i = 12" by auto
      have bs0: "bs = emit_disp (push_bit 3 (n AND 7) OR (4 AND 7)) [modrm_byte 0 4 4] True (m_displacement m)"
        using e None base sp by (auto simp: emit_mem_def modrm_byte_def)
      obtain m' where m': "emit_disp (push_bit 3 (n AND 7) OR (4 AND 7)) [modrm_byte 0 4 4] True (m_displacement m)
            = modrm_byte m' n 4 # [modrm_byte 0 4 4] @ disp_bytes m' (m_displacement m)"
          "disp_ok m' (m_displacement m)" "m' AND 3 = m'" "m' \<noteq> 3"
        using emit_disp_shape [of n 4 "[modrm_byte 0 4 4]" True "m_displacement m"] by metis
      have bs: "bs = modrm_byte m' n 4 # modrm_byte 0 4 4 # disp_bytes m' (m_displacement m)"
        using bs0 m'(1) by simp
      have b3: "rex AND 1 \<noteq> 0 \<longleftrightarrow> bit i 3" using b base i by simp
      show ?thesis
        unfolding bs using None base i(1)
          decode_modrm_with_sib [OF r m'(3,4) modrm_sib_base_only [OF x2 b3 i(2)] m'(2), of s rest]
        by (simp add: memory_eqI)
    next
      case other
      obtain i where i: "rb = GPQ i"
        and bs0: "bs = emit_disp (push_bit 3 (n AND 7) OR (reg_num rb AND 7)) [] (reg_num rb AND 7 \<noteq> 5)
          (m_displacement m)"
        using e None base other gpq_of_kind [of rb]
        by (auto simp: emit_mem_def bind_eq_Some_conv simp del: reg_num.simps)
      obtain m' where m': "emit_disp (push_bit 3 (n AND 7) OR (reg_num rb AND 7)) [] (reg_num rb AND 7 \<noteq> 5) (m_displacement m)
            = modrm_byte m' n (reg_num rb) # [] @ disp_bytes m' (m_displacement m)"
          "disp_ok m' (m_displacement m)" "m' = 0 \<Longrightarrow> reg_num rb AND 7 \<noteq> 5" "m' AND 3 = m'" "m' \<noteq> 3"
        using emit_disp_shape [of n "reg_num rb" "[]" "reg_num rb AND 7 \<noteq> 5" "m_displacement m"] by metis
      have bs: "bs = modrm_byte m' n (ucast i) # disp_bytes m' (m_displacement m)"
        using bs0 m'(1) i by (simp add: modrm_byte_def del: reg_num.simps)
      have b3: "rex AND 1 \<noteq> 0 \<longleftrightarrow> bit i 3" using b base i by simp
      have n4: "ucast i AND (7 :: u8) \<noteq> 4" using other i reg_index_cases [of i] by auto
      have n5: "ucast i AND (7 :: u8) \<noteq> 5" if "m' = 0"
        using m'(3) [OF that] i by (simp del: reg_num.simps)
      show ?thesis
        unfolding bs using None base i decode_modrm_base [OF r b3 m'(2,4,5) n4 n5, of s rest]
        by (simp add: memory_eqI)
    qed
  next
    case (Some p)
    obtain ri k where p: "p = (ri, k)" by (cases p)
    obtain i j sh where i: "ri = GPQ i" and j: "rb = GPQ j" and sh: "scale_shift k = Some sh"
      and bs0: "bs = emit_disp (push_bit 3 (n AND 7) OR (4 AND 7)) [modrm_byte sh (reg_num ri) (reg_num rb)]
        (reg_num rb AND 7 \<noteq> 5) (m_displacement m)"
      using e Some base p gpq_of_kind [of ri] gpq_of_kind [of rb]
      by (auto simp: emit_mem_def modrm_byte_def bind_eq_Some_conv simp del: reg_num.simps)
    have sib: "modrm_byte sh (reg_num ri) (reg_num rb) = modrm_byte sh (ucast i) (ucast j)"
      by (simp add: i j modrm_byte_def del: reg_num.simps)
    obtain m' where m': "bs = modrm_byte m' n 4 # [modrm_byte sh (ucast i) (ucast j)] @ disp_bytes m' (m_displacement m)"
        "disp_ok m' (m_displacement m)" "m' = 0 \<Longrightarrow> reg_num rb AND 7 \<noteq> 5" "m' AND 3 = m'" "m' \<noteq> 3"
      unfolding bs0 sib
      using emit_disp_shape [of n 4 "[modrm_byte sh (ucast i) (ucast j)]" "reg_num rb AND 7 \<noteq> 5"
          "m_displacement m"] by metis
    have i4: "i \<noteq> 4" and xi: "rex AND 2 \<noteq> 0 \<longleftrightarrow> bit i 3" and bj: "rex AND 1 \<noteq> 0 \<longleftrightarrow> bit j 3"
      using ok x b Some p i base j by auto
    have n5: "ucast j AND (7 :: u8) \<noteq> 5" if "m' = 0"
      using m'(3) [OF that] j by (simp del: reg_num.simps)
    show ?thesis
      unfolding m'(1) using Some base i j p
        decode_modrm_with_sib [OF r m'(4,5) modrm_sib_byte [OF xi bj n5 sh i4] m'(2), of s rest]
      by (simp add: memory_eqI)
  qed
qed

lemma decode_emit_modrm:
  assumes "emit_modrm loc n = Some bs" "index_ok loc" "rex AND 4 \<noteq> 0 \<longleftrightarrow> n AND 8 \<noteq> 0"
    "rex AND 2 \<noteq> 0 \<longleftrightarrow> loc_x loc" "rex AND 1 \<noteq> 0 \<longleftrightarrow> loc_b loc"
  shows "decode_modrm rex s (bs @ rest)
    = Some ((loc_as s rex loc, register_of_size (n AND 15) s rex), rest)"
proof (cases loc)
  case (LReg it)
  have "bs = [modrm_byte 3 n (reg_num it)]"
    using assms(1) LReg by (simp add: emit_modrm_def modrm_byte_def Let_def)
  moreover have "modrm_byte 3 n (reg_num it) = modrm_byte 3 n (ucast (reg_id it))"
    by (simp add: modrm_byte_def)
  ultimately show ?thesis
    using LReg assms(3,5) decode_modrm_register [of rex n "reg_id it" s rest] by simp
next
  case (LMem m)
  then show ?thesis
    using assms decode_emit_mem [of m n bs rex s rest] by (simp add: emit_modrm_def Let_def)
qed

section \<open>Instruction formats\<close>

definition prefix_byte :: "u8 \<Rightarrow> bool" where
  "prefix_byte b \<longleftrightarrow> b AND 0xF0 = 0x40 \<or> b = 0x66"

definition opsize_of :: "Size \<Rightarrow> Size" where
  "opsize_of s = (if s = Byte then Dword else s)"

text \<open>The bytes of an instruction after the opcode.\<close>

definition modrm_of :: "Location \<Rightarrow> u8 \<Rightarrow> u8 list" where
  "modrm_of loc n = the (emit_modrm loc n)"

lemma emit_r_rm_bytes:
  assumes "emit_r_rm s loc n opcode = Some bs"
  shows "bs = size_prefix s
      @ rex_bytes (s = Qword) (n AND 8 \<noteq> 0) (loc_x loc) (loc_b loc) (is_gpb2 n \<or> loc_gpb2 loc)
      @ emit_opcode_prefix opcode @ [ucast opcode] @ modrm_of loc n"
    and "emit_modrm loc n = Some (modrm_of loc n)"
proof -
  obtain p mrm where p: "emit_rex loc n (if s = Qword then 8 else 0) = Some p"
    and m: "emit_modrm loc n = Some mrm"
    and bs: "bs = size_prefix s @ p @ emit_opcode_prefix opcode @ [ucast opcode] @ mrm"
    using assms by (auto simp: emit_r_rm_def bind_eq_Some_conv size_prefix_def emit_u8_def)
  show "emit_modrm loc n = Some (modrm_of loc n)" using m by (simp add: modrm_of_def)
  show "bs = size_prefix s
      @ rex_bytes (s = Qword) (n AND 8 \<noteq> 0) (loc_x loc) (loc_b loc) (is_gpb2 n \<or> loc_gpb2 loc)
      @ emit_opcode_prefix opcode @ [ucast opcode] @ modrm_of loc n"
    using bs emit_rex_Some(1) [OF p] m by (simp add: modrm_of_def)
qed

lemma decode_size_rex:
  assumes "\<not> prefix_byte b"
  shows "x86_decode (size_prefix s
      @ rex_bytes (s = Qword) (n AND 8 \<noteq> 0) (loc_x loc) (loc_b loc) (is_gpb2 n \<or> loc_gpb2 loc) @ b # bs)
    = decode_opcode (rex_of s loc n) (opsize_of s) b bs"
  using assms unfolding x86_decode_def prefix_byte_def
  by (subst decode_prefixes_emitted) (simp_all add: rex_of_def opsize_of_def)

lemma decode_r_rm_1:
  assumes "emit_r_rm s loc n opcode = Some bs" "emit_opcode_prefix opcode = []" "\<not> prefix_byte (ucast opcode)"
  shows "x86_decode (bs @ rest)
    = decode_opcode (rex_of s loc n) (opsize_of s) (ucast opcode) (modrm_of loc n @ rest)"
  using decode_size_rex [OF assms(3), where s = s and n = n and loc = loc and bs = "modrm_of loc n @ rest"]
  by (simp add: emit_r_rm_bytes(1) [OF assms(1)] assms(2))

lemma decode_r_rm_2:
  assumes "emit_r_rm s loc n opcode = Some bs" "emit_opcode_prefix opcode = [0xF]"
  shows "x86_decode (bs @ rest)
    = decode_opcode (rex_of s loc n) (opsize_of s) 0xF (ucast opcode # modrm_of loc n @ rest)"
  using decode_size_rex [where b = "0xF" and s = s and n = n and loc = loc and bs = "ucast opcode # modrm_of loc n @ rest"]
  by (simp add: emit_r_rm_bytes(1) [OF assms(1)] assms(2) prefix_byte_def)

lemma decode_modrm_of:
  assumes "emit_r_rm s loc n opcode = Some bs" "index_ok loc"
  shows "decode_modrm (rex_of s loc n) s' (modrm_of loc n @ rest)
    = Some ((loc_as s' (rex_of s loc n) loc, register_of_size (n AND 15) s' (rex_of s loc n)), rest)"
  by (rule decode_emit_modrm [OF emit_r_rm_bytes(2) [OF assms(1)] assms(2)]) (simp_all add: rex_of_def)

text \<open>Registers survive: the prefix is there for \<open>spl\<close> to \<open>dil\<close> and absent for \<open>ah\<close> to \<open>bh\<close>.\<close>

lemma register_of_size_same:
  assumes "reg_size r = Some s" "reg_valid r" "is_gpb2 (reg_num r) \<Longrightarrow> rex AND 0x40 \<noteq> 0"
    "is_high_byte (reg_num r) \<Longrightarrow> rex AND 0x40 = 0"
  shows "register_of_size (ucast (reg_id r)) s rex = r"
proof (cases r)
  case (GPB i)
  then show ?thesis using assms reg_index_cases [of i]
    by (auto simp: register_of_size_def word_le_nat_alt simp del: reg_num.simps)
next
  case (GPB2 i)
  then have "rex AND 0x40 \<noteq> 0" using assms(3) by (simp add: is_gpb2_def reg_kinds del: reg_num.simps)
  with GPB2 show ?thesis using assms reg_index_cases [of i]
    by (auto simp: register_of_size_def word_le_nat_alt simp del: reg_num.simps)
qed (use assms in \<open>auto simp: register_of_size_def\<close>)

fun loc_ok :: "Location \<Rightarrow> bool" where
  "loc_ok (LReg r) = reg_valid r"
| "loc_ok (LMem m) = (index_ok (LMem m) \<and> (m_base m = Some RIP \<longrightarrow> m_size m = Qword))"

lemma loc_ok_index [simp]: "loc_ok loc \<Longrightarrow> index_ok loc"
  by (cases loc) auto

lemma emit_r_rm_reg:
  assumes "emit_r_rm s loc (reg_num r) opcode = Some bs" "reg_size r = Some s" "reg_valid r"
  shows "register_of_size (ucast (reg_id r)) s (rex_of s loc (reg_num r)) = r"
proof -
  obtain p where p: "emit_rex loc (reg_num r) (if s = Qword then 8 else 0) = Some p"
    using assms(1) by (auto simp: emit_r_rm_def bind_eq_Some_conv)
  have "rex_of s loc (reg_num r) = 0" if "is_high_byte (reg_num r)"
    using emit_rex_Some(1,2) [OF p] that by (auto simp: rex_of_def rex_bytes_def split: if_splits)
  then show ?thesis
    using assms(2,3) by (intro register_of_size_same) (auto simp: rex_of_def)
qed

lemma high_byte_bits:
  assumes "is_high_byte (reg_num r)"
  shows "\<not> is_gpb2 (reg_num r)" "\<not> bit (reg_id r) 3"
proof -
  obtain i where i: "r = GPB i" "4 \<le> i" "i \<le> 7" using assms by auto
  show "\<not> is_gpb2 (reg_num r)" using i by (simp add: is_gpb2_def REG_GPB2_def del: reg_num.simps)
  show "\<not> bit (reg_id r) 3" using i reg_index_cases [of i] by (auto simp: word_le_nat_alt)
qed

lemma emit_r_rm_loc:
  assumes "emit_r_rm s loc n opcode = Some bs" "loc_size loc = Some s" "loc_ok loc"
  shows "loc_as s (rex_of s loc n) loc = loc"
proof (cases loc)
  case (LReg r)
  obtain p where p: "emit_rex loc n (if s = Qword then 8 else 0) = Some p"
    using assms(1) by (auto simp: emit_r_rm_def bind_eq_Some_conv)
  have "rex_of s loc n = 0" if h: "is_high_byte (reg_num r)"
  proof -
    have "\<not> loc_gpb2 loc" "\<not> loc_b loc"
      using LReg h high_byte_bits [of r] by simp_all
    then show ?thesis using emit_rex_Some(3) [OF p] h LReg by (auto simp: rex_of_def)
  qed
  then show ?thesis
    using assms(2,3) LReg by (auto intro!: register_of_size_same simp: rex_of_def)
next
  case (LMem m)
  then show ?thesis using assms(2,3) by auto
qed

section \<open>The opcode table\<close>

text \<open>The arm of the decoder for each opcode the encoder emits, with the byte-sized form of an opcode
  and the other one in one rule.\<close>

named_theorems x86_table \<open>arms of the decoder\<close>

lemmas x86_table_defs = decode_opcode_def decode_op_low_def decode_op_high_def decode_op_0f_def
  byte_opcodes_def opsize_of_def

abbreviation byte_or :: "Size \<Rightarrow> 'a \<Rightarrow> 'a \<Rightarrow> 'a" where
  "byte_or s a b \<equiv> (if s = Byte then a else b)"

lemma dispatch_alu_rm_reg [x86_table]:
  "k \<in> {0, 1, 2, 3, 4, 5, 6, 7} \<Longrightarrow>
   decode_opcode rex (opsize_of s) (push_bit 3 k OR byte_or s 0 1) bs = do {
     ((dst, src), bs) \<leftarrow> decode_modrm rex s bs;
     Some (decode_alu dst (OReg src) k, bs)
   }"
  by (elim insertE emptyE; cases s; simp add: x86_table_defs)

lemma dispatch_alu_reg_rm [x86_table]:
  "k \<in> {0, 1, 2, 3, 4, 5, 6, 7} \<Longrightarrow>
   decode_opcode rex (opsize_of s) (push_bit 3 k OR byte_or s 2 3) bs = do {
     ((src, dst), bs) \<leftarrow> decode_modrm rex s bs;
     Some (decode_alu (LReg dst) (operand_of_loc src) k, bs)
   }"
  by (elim insertE emptyE; cases s; simp add: x86_table_defs)

lemma dispatch_alu_acc [x86_table]:
  "k \<in> {0, 1, 2, 3, 4, 5, 6, 7} \<Longrightarrow>
   decode_opcode rex (opsize_of s) (push_bit 3 k OR byte_or s 4 5) bs = do {
     (imm, bs) \<leftarrow> decode_immediate (cap_to_dword s) bs;
     Some (decode_alu (LReg (register_of_size 0 s rex)) (OImm imm) k, bs)
   }"
  by (elim insertE emptyE; cases s; simp add: x86_table_defs)

lemma dispatch_alu_imm [x86_table]:
  "decode_opcode rex (opsize_of s) (byte_or s 0x80 0x81) bs = do {
     ((operand, reg), bs) \<leftarrow> decode_modrm rex s bs;
     (imm, bs) \<leftarrow> decode_immediate (cap_to_dword s) bs;
     Some (decode_alu operand (OImm imm) (reg_num reg), bs)
   }"
  by (induct s) (simp_all add: x86_table_defs)

lemma dispatch_alu_imm8 [x86_table]:
  "s \<noteq> Byte \<Longrightarrow> decode_opcode rex (opsize_of s) 0x83 bs = do {
     ((operand, reg), bs) \<leftarrow> decode_modrm rex s bs;
     (b, bs) \<leftarrow> decode_byte bs;
     Some (decode_alu operand (OImm (scast b)) (reg_num reg), bs)
   }"
  by (induct s) (simp_all add: x86_table_defs)

lemma dispatch_test [x86_table]:
  "decode_opcode rex (opsize_of s) (byte_or s 0x84 0x85) bs = do {
     ((operand, reg), bs) \<leftarrow> decode_modrm rex s bs;
     Some (Test_x operand (OReg reg), bs)
   }"
  by (induct s) (simp_all add: x86_table_defs)

lemma dispatch_xchg [x86_table]:
  "decode_opcode rex (opsize_of s) (byte_or s 0x86 0x87) bs = do {
     ((operand, reg), bs) \<leftarrow> decode_modrm rex s bs;
     Some (Xchg_x (LReg reg) operand, bs)
   }"
  by (induct s) (simp_all add: x86_table_defs)

lemma dispatch_mov_rm_reg [x86_table]:
  "decode_opcode rex (opsize_of s) (byte_or s 0x88 0x89) bs = do {
     ((operand, reg), bs) \<leftarrow> decode_modrm rex s bs;
     Some (Mov_x operand (OReg reg), bs)
   }"
  by (induct s) (simp_all add: x86_table_defs)

lemma dispatch_mov_reg_rm [x86_table]:
  "decode_opcode rex (opsize_of s) (byte_or s 0x8A 0x8B) bs = do {
     ((operand, reg), bs) \<leftarrow> decode_modrm rex s bs;
     Some (Mov_x (LReg reg) (operand_of_loc operand), bs)
   }"
  by (induct s) (simp_all add: x86_table_defs)

lemma dispatch_mov_imm [x86_table]:
  "decode_opcode rex (opsize_of s) (byte_or s 0xC6 0xC7) bs = do {
     ((operand, reg), bs) \<leftarrow> decode_modrm rex s bs;
     if reg_num reg AND 7 \<noteq> 0 then None
     else do {
       (imm, bs) \<leftarrow> decode_immediate (cap_to_dword s) bs;
       Some (Mov_x operand (OImm imm), bs)
     }
   }"
  by (induct s) (simp_all add: x86_table_defs)

lemma dispatch_shift_imm [x86_table]:
  "decode_opcode rex (opsize_of s) (byte_or s 0xC0 0xC1) bs = do {
     ((operand, reg), bs) \<leftarrow> decode_modrm rex s bs;
     (b, bs) \<leftarrow> decode_byte bs;
     op \<leftarrow> decode_shift operand (OImm (ucast b)) reg;
     Some (op, bs)
   }"
  by (induct s) (simp_all add: x86_table_defs)

lemma dispatch_shift_one [x86_table]:
  "decode_opcode rex (opsize_of s) (byte_or s 0xD0 0xD1) bs = do {
     ((operand, reg), bs) \<leftarrow> decode_modrm rex s bs;
     op \<leftarrow> decode_shift operand (OImm 1) reg;
     Some (op, bs)
   }"
  by (induct s) (simp_all add: x86_table_defs)

lemma dispatch_shift_cl [x86_table]:
  "decode_opcode rex (opsize_of s) (byte_or s 0xD2 0xD3) bs = do {
     ((operand, reg), bs) \<leftarrow> decode_modrm rex s bs;
     op \<leftarrow> decode_shift operand (OReg CL) reg;
     Some (op, bs)
   }"
  by (induct s) (simp_all add: x86_table_defs)

lemma dispatch_group3 [x86_table]:
  "decode_opcode rex (opsize_of s) (byte_or s 0xF6 0xF7) bs = do {
     ((operand, reg), bs) \<leftarrow> decode_modrm rex s bs;
     let k = reg_num reg AND 7;
     if k = 0 then do {
       (imm, bs) \<leftarrow> decode_immediate (cap_to_dword s) bs;
       Some (Test_x operand (OImm imm), bs)
     }
     else if k = 2 then Some (Not_x operand, bs)
     else if k = 3 then Some (Neg_x operand, bs)
     else if k = 4 then Some (Mul_x operand, bs)
     else if k = 5 then Some (Imul1_x operand, bs)
     else if k = 6 then Some (Div_x operand, bs)
     else if k = 7 then Some (Idiv_x operand, bs)
     else None
   }"
  by (induct s) (simp_all add: x86_table_defs)

lemma dispatch_group5 [x86_table]:
  "decode_opcode rex opsize 0xFF bs = do {
     ((operand, reg), bs) \<leftarrow> decode_modrm rex Qword bs;
     let k = reg_num reg AND 7;
     if k = 0 then Some (Push_x (operand_of_loc operand), bs)
     else if k = 2 then Some (Call_x (operand_of_loc operand), bs)
     else if k = 4 then Some (Jmp_x (operand_of_loc operand), bs)
     else None
   }"
  by (simp add: x86_table_defs)

lemma dispatch_lea [x86_table]:
  "decode_opcode rex opsize 0x8D bs = do {
     ((operand, reg), bs) \<leftarrow> decode_modrm rex opsize bs;
     (case operand of LMem m \<Rightarrow> Some (Lea_x reg m, bs) | LReg _ \<Rightarrow> Some (Illegal_x, bs))
   }"
  by (simp add: x86_table_defs)

lemma dispatch_movsxd [x86_table]:
  "decode_opcode rex opsize 0x63 bs = do {
     ((src, dst), bs) \<leftarrow> decode_modrm rex opsize bs;
     src \<leftarrow> loc_resize src Dword;
     Some (Movsx_x dst src, bs)
   }"
  by (simp add: x86_table_defs)

lemma dispatch_movx [x86_table]:
  "decode_opcode rex opsize 0xF (0xB6 # bs) = do {
     ((src, dst), bs) \<leftarrow> decode_modrm rex opsize bs; src \<leftarrow> loc_resize src Byte; Some (Movzx_x dst src, bs) }"
  "decode_opcode rex opsize 0xF (0xB7 # bs) = do {
     ((src, dst), bs) \<leftarrow> decode_modrm rex opsize bs; src \<leftarrow> loc_resize src Word; Some (Movzx_x dst src, bs) }"
  "decode_opcode rex opsize 0xF (0xBE # bs) = do {
     ((src, dst), bs) \<leftarrow> decode_modrm rex opsize bs; src \<leftarrow> loc_resize src Byte; Some (Movsx_x dst src, bs) }"
  "decode_opcode rex opsize 0xF (0xBF # bs) = do {
     ((src, dst), bs) \<leftarrow> decode_modrm rex opsize bs; src \<leftarrow> loc_resize src Word; Some (Movsx_x dst src, bs) }"
  by (simp_all add: x86_table_defs)

lemma dispatch_cmpxchg [x86_table]:
  "decode_opcode rex (opsize_of s) 0xF (byte_or s 0xB0 0xB1 # bs) = do {
     ((dst, src), bs) \<leftarrow> decode_modrm rex s bs; Some (Cmpxchg_x dst src, bs) }"
  by (induct s) (simp_all add: x86_table_defs)

lemma dispatch_xadd [x86_table]:
  "decode_opcode rex (opsize_of s) 0xF (byte_or s 0xC0 0xC1 # bs) = do {
     ((dst, src), bs) \<leftarrow> decode_modrm rex s bs; Some (Xadd_x dst src, bs) }"
  by (induct s) (simp_all add: x86_table_defs)

lemma dispatch_imul2 [x86_table]:
  "decode_opcode rex opsize 0xF (0xAF # bs) = do {
     ((src, dst), bs) \<leftarrow> decode_modrm rex opsize bs; Some (Imul2_x dst src, bs) }"
  by (simp add: x86_table_defs)

lemma dispatch_cmovcc [x86_table]:
  "decode_opcode rex opsize 0xF ((0x40 + cc_num cc) # bs) = do {
     ((src, dst), bs) \<leftarrow> decode_modrm rex opsize bs; Some (Cmovcc_x dst src cc, bs) }"
  by (induct cc) (simp_all add: x86_table_defs cc_try_from_def all_cc_def)

lemma dispatch_jcc_long [x86_table]:
  "decode_opcode rex opsize 0xF ((0x80 + cc_num cc) # bs) = do {
     (d, bs) \<leftarrow> decode_dword bs; Some (Jcc_x d cc, bs) }"
  by (induct cc) (simp_all add: x86_table_defs cc_try_from_def all_cc_def)

lemma dispatch_setcc [x86_table]:
  "decode_opcode rex opsize 0xF ((0x90 + cc_num cc) # bs) = do {
     ((dst, reg), bs) \<leftarrow> decode_modrm rex Byte bs;
     if reg_num reg AND 7 = 0 then Some (Setcc_x dst cc, bs) else None }"
  by (induct cc) (simp_all add: x86_table_defs cc_try_from_def all_cc_def)

lemma dispatch_jcc_short [x86_table]:
  "decode_opcode rex opsize (0x70 + cc_num cc) bs = do {
     (d, bs) \<leftarrow> decode_byte bs; Some (Jcc_x (scast d) cc, bs) }"
  by (induct cc) (simp_all add: x86_table_defs cc_try_from_def all_cc_def)

lemma dispatch_fixed [x86_table]:
  "decode_opcode rex opsize 0xF (0x0B # bs) = Some (Illegal_x, bs)"
  "decode_opcode rex opsize 0xF (0xAE # 0xF0 # bs) = Some (Mfence_x, bs)"
  "decode_opcode rex opsize 0x90 bs = Some (Nop_x, bs)"
  "decode_opcode rex Qword 0x98 bs = Some (Cdqe_x, bs)"
  "decode_opcode rex Dword 0x99 bs = Some (Cdq_x, bs)"
  "decode_opcode rex Qword 0x99 bs = Some (Cqo_x, bs)"
  "decode_opcode rex opsize 0xC2 bs = do { (w, bs) \<leftarrow> decode_word bs; Some (Ret_x w, bs) }"
  "decode_opcode rex opsize 0xC3 bs = Some (Ret_x 0, bs)"
  "decode_opcode rex opsize 0xE8 bs = do { (d, bs) \<leftarrow> decode_dword bs; Some (Call_x (OImm (scast d)), bs) }"
  "decode_opcode rex opsize 0xE9 bs = do { (d, bs) \<leftarrow> decode_dword bs; Some (Jmp_x (OImm (scast d)), bs) }"
  "decode_opcode rex opsize 0xEB bs = do { (d, bs) \<leftarrow> decode_byte bs; Some (Jmp_x (OImm (scast d)), bs) }"
  "decode_opcode rex opsize 0xF0 bs = Some (Lock_x, bs)"
  "decode_opcode rex opsize 0xF4 bs = Some (Hlt_x, bs)"
  by (simp_all add: x86_table_defs)

lemma dispatch_plus_reg [x86_table]:
  fixes i :: reg_index
  assumes "rex AND 1 \<noteq> 0 \<longleftrightarrow> bit i 3"
  shows "decode_opcode rex opsize (0x50 OR (ucast i AND 7)) bs
      = Some (Push_x (OReg (register_of_size (ucast i) (if opsize = Dword then Qword else opsize) rex)), bs)"
    and "decode_opcode rex opsize (0x58 OR (ucast i AND 7)) bs
      = Some (Pop_x (LReg (register_of_size (ucast i) (if opsize = Dword then Qword else opsize) rex)), bs)"
    and "decode_opcode rex opsize (0xB8 OR (ucast i AND 7)) bs = do {
        (imm, bs) \<leftarrow> decode_immediate opsize bs;
        Some (Mov_x (LReg (register_of_size (ucast i) opsize rex)) (OImm imm), bs) }"
  using assms reg_index_cases [of i]
  by (elim disjE; simp add: x86_table_defs plus_reg_id_def)+

lemma dispatch_mov_al [x86_table]:
  fixes i :: reg_index
  assumes "rex AND 1 \<noteq> 0 \<longleftrightarrow> bit i 3" "ucast i AND (7 :: u8) = 0"
  shows "decode_opcode rex opsize (0xB0 OR (ucast i AND 7)) bs = do {
        (imm, bs) \<leftarrow> decode_immediate Byte bs;
        Some (Mov_x (LReg (register_of_size (ucast i) Byte rex)) (OImm imm), bs) }"
  using assms reg_index_cases [of i]
  by (elim disjE; simp add: x86_table_defs plus_reg_id_def)

end
