(* ===== verification/X86_Roundtrip.thy ===== *)
theory X86_Roundtrip
  imports X86_Formats
begin

text \<open>
  Decoding the bytes of the encoder. The encoder and the decoder of host instructions are separate
  programs: the translator encodes, and the signal handlers decode the instruction that faulted.
  \<open>x86_canon\<close> is the operation the decoder returns for the bytes of an operation, and \<open>x86_decodable\<close>
  excludes the operations whose bytes the decoder does not know or reads as another operation.
\<close>

section \<open>What the decoder returns\<close>

definition canon_src :: "Location \<Rightarrow> Operand \<Rightarrow> Operand" where
  "canon_src dst src =
    (case (src, loc_size dst) of
       (OImm imm, Some s) \<Rightarrow> OImm (imm_of_size (cap_to_dword s) imm)
     | _ \<Rightarrow> src)"

definition canon_mov :: "Location \<Rightarrow> Operand \<Rightarrow> X86Op" where
  "canon_mov dst src =
    (case (dst, src) of
       (LReg (GPQ i), OImm imm) \<Rightarrow>
         if fits_u32 imm then Mov_x (LReg (GPD i)) (OImm (imm_of_size Dword imm)) else Mov_x dst src
     | _ \<Rightarrow> Mov_x dst (canon_src dst src))"

definition canon_lea :: "Register \<Rightarrow> Memory \<Rightarrow> X86Op" where
  "canon_lea r m =
    (case reg_size r of
       Some s \<Rightarrow> Lea_x r (m\<lparr>m_size := if m_base m = Some RIP then Qword else s\<rparr>)
     | None \<Rightarrow> Lea_x r m)"

fun x86_canon :: "X86Op \<Rightarrow> X86Op" where
  "x86_canon (Add_x d s) = Add_x d (canon_src d s)"
| "x86_canon (Or_x d s) = Or_x d (canon_src d s)"
| "x86_canon (Adc_x d s) = Adc_x d (canon_src d s)"
| "x86_canon (Sbb_x d s) = Sbb_x d (canon_src d s)"
| "x86_canon (And_x d s) = And_x d (canon_src d s)"
| "x86_canon (Sub_x d s) = Sub_x d (canon_src d s)"
| "x86_canon (Xor_x d s) = Xor_x d (canon_src d s)"
| "x86_canon (Cmp_x d s) = Cmp_x d (canon_src d s)"
| "x86_canon (Test_x d s) = Test_x d (canon_src d s)"
| "x86_canon (Mov_x d s) = canon_mov d s"
| "x86_canon (Lea_x r m) = canon_lea r m"
| "x86_canon (Xchg_x (LMem m) s) = Xchg_x s (LMem m)"
| "x86_canon op = op"

fun operand_ok :: "Operand \<Rightarrow> bool" where
  "operand_ok (OReg r) = reg_valid r"
| "operand_ok (OMem m) = loc_ok (LMem m)"
| "operand_ok (OImm i) = True"

text \<open>A location that the decoder resizes: \<open>ah\<close> to \<open>bh\<close> come back as \<open>spl\<close> to \<open>dil\<close>.\<close>

fun resizable :: "Location \<Rightarrow> bool" where
  "resizable (LReg r) = (reg_valid r \<and> \<not> is_high_byte (reg_num r))"
| "resizable (LMem m) = index_ok (LMem m)"

fun is_accumulator :: "Location \<Rightarrow> bool" where
  "is_accumulator (LReg r) = (reg_id r = 0)"
| "is_accumulator (LMem m) = False"

fun is_mem :: "Location \<Rightarrow> bool" where
  "is_mem (LReg r) = False"
| "is_mem (LMem m) = True"

lemma is_mem_iff [simp]: "is_mem l \<longleftrightarrow> (\<exists>m. l = LMem m)"
  by (cases l) simp_all

declare is_mem.simps [simp del]

lemma index_ok_code [code]:
  "index_ok (LReg it) = True"
  "index_ok (LMem m) = (case m_index m of None \<Rightarrow> True | Some (r, _) \<Rightarrow> r \<noteq> RSP)"
  by (auto split: option.splits)

fun x86_decodable :: "X86Op \<Rightarrow> bool" where
  "x86_decodable (Add_x d s) = (loc_ok d \<and> operand_ok s)"
| "x86_decodable (Or_x d s) = (loc_ok d \<and> operand_ok s)"
| "x86_decodable (Adc_x d s) = (loc_ok d \<and> operand_ok s)"
| "x86_decodable (Sbb_x d s) = (loc_ok d \<and> operand_ok s)"
| "x86_decodable (And_x d s) = (loc_ok d \<and> operand_ok s)"
| "x86_decodable (Sub_x d s) = (loc_ok d \<and> operand_ok s)"
| "x86_decodable (Xor_x d s) = (loc_ok d \<and> operand_ok s)"
| "x86_decodable (Cmp_x d s) = (loc_ok d \<and> operand_ok s)"
| "x86_decodable (Shl_x d s) = loc_ok d"
| "x86_decodable (Shr_x d s) = loc_ok d"
| "x86_decodable (Sar_x d s) = loc_ok d"
| "x86_decodable (Call_x t) = operand_ok t"
| "x86_decodable (Jmp_x t) = operand_ok t"
| "x86_decodable (Cmovcc_x r l cc) = (reg_valid r \<and> loc_ok l)"
| "x86_decodable (Cmpxchg_x l r) = (reg_valid r \<and> loc_ok l)"
| "x86_decodable (Xadd_x l r) = (reg_valid r \<and> loc_ok l)"
| "x86_decodable (Imul2_x r l) = (reg_valid r \<and> loc_ok l)"
| "x86_decodable (Div_x l) = loc_ok l"
| "x86_decodable (Idiv_x l) = loc_ok l"
| "x86_decodable (Imul1_x l) = loc_ok l"
| "x86_decodable (Mul_x l) = loc_ok l"
| "x86_decodable (Neg_x l) = loc_ok l"
| "x86_decodable (Not_x l) = loc_ok l"
| "x86_decodable (Setcc_x l cc) = loc_ok l"
| "x86_decodable (Lea_x r m) = (reg_valid r \<and> index_ok (LMem m))"
| "x86_decodable (Mov_x (LReg r) (OImm imm)) =
    (reg_valid r \<and> (reg_size r = Some Byte \<longrightarrow> ucast (reg_id r) AND (7 :: u8) = 0))"
| "x86_decodable (Mov_x d s) = (loc_ok d \<and> operand_ok s)"
| "x86_decodable (Movabs_x d s) = False"
| "x86_decodable (Movsx_x r l) = (reg_valid r \<and> resizable l)"
| "x86_decodable (Movzx_x r l) = (reg_valid r \<and> resizable l)"
| "x86_decodable (Pop_x (LReg r)) = reg_valid r"
| "x86_decodable (Pop_x (LMem m)) = False"
| "x86_decodable (Push_x (OReg r)) = reg_valid r"
| "x86_decodable (Push_x (OMem m)) = (loc_ok (LMem m) \<and> m_size m = Qword)"
| "x86_decodable (Push_x (OImm i)) = False"
| "x86_decodable (Test_x d (OImm imm)) = (loc_ok d \<and> \<not> is_accumulator d)"
| "x86_decodable (Test_x d s) = (loc_ok d \<and> operand_ok s)"
| "x86_decodable (Xchg_x d s) =
    (loc_ok d \<and> loc_ok s \<and>
     (loc_size d = Some Byte \<or> is_mem d \<or> is_mem s
      \<or> \<not> is_accumulator d \<and> \<not> is_accumulator s))"
| "x86_decodable op = True"

section \<open>Instruction by instruction\<close>

lemma imm8_of_size:
  assumes "fits_i8 imm" "s \<noteq> Byte"
  shows "imm_of_size (cap_to_dword s) imm = imm"
proof -
  have "scast (ucast imm :: u16) = imm"
    by (rule scast_ucast_fits [of 15]) (use assms in \<open>simp_all add: fits_i8_def\<close>)
  moreover have "scast (ucast imm :: u32) = imm"
    by (rule scast_ucast_fits [of 31]) (use assms in \<open>simp_all add: fits_i8_def\<close>)
  ultimately show ?thesis using assms by (cases s) (simp_all add: imm_of_size_def cap_to_dword_def)
qed

text \<open>One instruction with a ModR/M sequence: the arm of the decoder runs on the location and register
  that were encoded.\<close>

lemma decode_r_rm:
  assumes "emit_r_rm s loc n (byte_or s ob ow) = Some bs" "index_ok loc"
    "emit_opcode_prefix ob = []" "emit_opcode_prefix ow = []"
    "\<not> prefix_byte (ucast ob)" "\<not> prefix_byte (ucast ow)"
  shows "x86_decode (bs @ rest)
    = decode_opcode (rex_of s loc n) (opsize_of s) (byte_or s (ucast ob) (ucast ow)) (modrm_of loc n @ rest)"
    and "decode_modrm (rex_of s loc n) s (modrm_of loc n @ rest')
    = Some ((loc_as s (rex_of s loc n) loc, register_of_size (n AND 15) s (rex_of s loc n)), rest')"
  using decode_r_rm_1 [OF assms(1)] decode_modrm_of [OF assms(1,2)] assms(3-6) by auto

lemma reg_num_register_of_size: "k \<in> {0, 1, 2, 3, 4, 5, 6, 7} \<Longrightarrow>
  reg_num (register_of_size (k AND 15) s rex) AND 7 = k"
  by (cases s) (auto simp: register_of_size_def reg_kinds)

lemma decode_alu_num: "k \<in> {0, 1, 2, 3, 4, 5, 6, 7} \<Longrightarrow>
  decode_alu d s (reg_num (register_of_size (k AND 15) s' rex)) = decode_alu d s k"
  using reg_num_register_of_size [of k s' rex] by (auto simp: decode_alu_def simp del: reg_num_low)

lemma ucast_or_u8: "ucast (ucast a OR x :: u32) = a OR (ucast x :: u8)" for a :: u8
  by (rule bit_word_eqI) (simp add: bit_simps)

lemma ucast_u8_u32 [simp]: "ucast (ucast a :: u32) = (a :: u8)"
  by (rule bit_word_eqI) (auto simp: bit_simps)

lemma ucast_reg_index_0 [simp]: "(ucast i :: u8) = 0 \<longleftrightarrow> i = 0" for i :: reg_index
  using reg_index_cases [of i] by auto

lemma alu_opcode:
  assumes "k \<in> {0, 1, 2, 3, 4, 5, 6, 7 :: u8}"
  shows "emit_opcode_prefix (ucast (push_bit 3 k)) = []" "emit_opcode_prefix (ucast (push_bit 3 k) OR 1) = []"
    "emit_opcode_prefix (ucast (push_bit 3 k) OR 2) = []" "emit_opcode_prefix (ucast (push_bit 3 k) OR 3) = []"
    "\<not> prefix_byte (push_bit 3 k)" "\<not> prefix_byte (push_bit 3 k OR 1)" "\<not> prefix_byte (push_bit 3 k OR 2)"
    "\<not> prefix_byte (push_bit 3 k OR 3)" "\<not> prefix_byte (push_bit 3 k OR 4)" "\<not> prefix_byte (push_bit 3 k OR 5)"
  using assms by (elim insertE emptyE; simp add: emit_opcode_prefix_def prefix_byte_def)+

lemma decode_alu_rm_reg:
  assumes em: "emit_r_rm s loc (reg_num r) (ucast (push_bit 3 k) OR byte_or s 0 1) = Some bs"
    and k: "k \<in> {0, 1, 2, 3, 4, 5, 6, 7}"
    and ok: "loc_ok loc" "reg_valid r" "loc_size loc = Some s" "reg_size r = Some s"
  shows "x86_decode (bs @ rest) = Some (decode_alu loc (OReg r) k, rest)"
proof -
  have "x86_decode (bs @ rest) = decode_opcode (rex_of s loc (reg_num r)) (opsize_of s)
      (push_bit 3 k OR byte_or s 0 1) (modrm_of loc (reg_num r) @ rest)"
    using decode_r_rm_1 [OF em] alu_opcode [OF k] by (cases "s = Byte") (simp_all add: ucast_or_u8)
  then show ?thesis
    using emit_r_rm_loc [OF em ok(3,1)] emit_r_rm_reg [OF em ok(4,2)]
      decode_modrm_of [OF em loc_ok_index [OF ok(1)]]
    by (simp only: dispatch_alu_rm_reg [OF k]) simp
qed

lemma decode_alu_reg_rm:
  assumes em: "emit_r_rm s loc (reg_num r) (ucast (push_bit 3 k) OR byte_or s 2 3) = Some bs"
    and k: "k \<in> {0, 1, 2, 3, 4, 5, 6, 7}"
    and ok: "loc_ok loc" "reg_valid r" "loc_size loc = Some s" "reg_size r = Some s"
  shows "x86_decode (bs @ rest) = Some (decode_alu (LReg r) (operand_of_loc loc) k, rest)"
proof -
  have "x86_decode (bs @ rest) = decode_opcode (rex_of s loc (reg_num r)) (opsize_of s)
      (push_bit 3 k OR byte_or s 2 3) (modrm_of loc (reg_num r) @ rest)"
    using decode_r_rm_1 [OF em] alu_opcode [OF k] by (cases "s = Byte") (simp_all add: ucast_or_u8)
  then show ?thesis
    using emit_r_rm_loc [OF em ok(3,1)] emit_r_rm_reg [OF em ok(4,2)]
      decode_modrm_of [OF em loc_ok_index [OF ok(1)]]
    by (simp only: dispatch_alu_reg_rm [OF k]) simp
qed

text \<open>An immediate after a ModR/M sequence.\<close>

lemma decode_alu_imm:
  assumes em: "emit_r_rm s loc k (byte_or s 0x80 0x81) = Some bs" and k: "k \<in> {0, 1, 2, 3, 4, 5, 6, 7}"
    and ok: "loc_ok loc" "loc_size loc = Some s"
  shows "x86_decode (bs @ emit_imm (cap_to_dword s) imm @ rest)
    = Some (decode_alu loc (OImm (imm_of_size (cap_to_dword s) imm)) k, rest)"
proof -
  have "x86_decode (bs @ emit_imm (cap_to_dword s) imm @ rest)
      = decode_opcode (rex_of s loc k) (opsize_of s) (byte_or s 0x80 0x81)
        (modrm_of loc k @ emit_imm (cap_to_dword s) imm @ rest)"
    using decode_r_rm_1 [OF em] by (cases "s = Byte") (simp_all add: emit_opcode_prefix_def prefix_byte_def)
  then show ?thesis
    using emit_r_rm_loc [OF em ok(2,1)] decode_modrm_of [OF em loc_ok_index [OF ok(1)]]
    by (simp only: dispatch_alu_imm) (simp add: decode_alu_num [OF k])
qed

lemma decode_alu_imm8:
  assumes em: "emit_r_rm s loc k 0x83 = Some bs" and k: "k \<in> {0, 1, 2, 3, 4, 5, 6, 7}"
    and ok: "loc_ok loc" "loc_size loc = Some s" "s \<noteq> Byte" "fits_i8 imm"
  shows "x86_decode (bs @ emit_u8 (ucast imm) @ rest)
    = Some (decode_alu loc (OImm (imm_of_size (cap_to_dword s) imm)) k, rest)"
proof -
  have "x86_decode (bs @ emit_u8 (ucast imm) @ rest)
      = decode_opcode (rex_of s loc k) (opsize_of s) 0x83 (modrm_of loc k @ emit_u8 (ucast imm) @ rest)"
    using decode_r_rm_1 [OF em] by (simp add: emit_opcode_prefix_def prefix_byte_def)
  then show ?thesis
    using emit_r_rm_loc [OF em ok(2,1)] decode_modrm_of [OF em loc_ok_index [OF ok(1)]] ok(3,4)
    by (simp only: dispatch_alu_imm8 [OF ok(3)]) (simp add: decode_alu_num [OF k] imm8_of_size)
qed

text \<open>The short forms for the accumulator.\<close>

lemma decode_acc_prefix:
  assumes "\<not> prefix_byte b"
  shows "x86_decode (emit_acc_prefix s @ b # bs)
    = decode_opcode (if s = Qword then 0x48 else 0) (opsize_of s) b bs"
  using assms by (cases s) (auto simp: emit_acc_prefix_def x86_decode_def prefix_byte_def opsize_of_def)

lemma accumulator_register:
  assumes "reg_id r = 0" "reg_valid r" "reg_size r = Some s"
  shows "register_of_size 0 s rex = r"
  using assms by (cases r) (auto simp: register_of_size_def)

lemma decode_alu_acc:
  assumes k: "k \<in> {0, 1, 2, 3, 4, 5, 6, 7}" and r: "reg_id r = 0" "reg_valid r" "reg_size r = Some s"
  shows "x86_decode (emit_acc_prefix s @ emit_u8 (push_bit 3 k OR byte_or s 4 5) @ emit_imm (cap_to_dword s) imm @ rest)
    = Some (decode_alu (LReg r) (OImm (imm_of_size (cap_to_dword s) imm)) k, rest)"
proof -
  have "\<not> prefix_byte (push_bit 3 k OR byte_or s 4 5)" using alu_opcode [OF k] by simp
  then have "x86_decode (emit_acc_prefix s @ emit_u8 (push_bit 3 k OR byte_or s 4 5) @ emit_imm (cap_to_dword s) imm @ rest)
      = decode_opcode (if s = Qword then 0x48 else 0) (opsize_of s) (push_bit 3 k OR byte_or s 4 5)
        (emit_imm (cap_to_dword s) imm @ rest)"
    unfolding emit_u8_def append_Cons append_Nil by (rule decode_acc_prefix)
  then show ?thesis
    by (simp only: dispatch_alu_acc [OF k]) (simp add: accumulator_register [OF r])
qed

lemma decode_emit_alu:
  assumes e: "emit_alu dst src k = Some bs" and k: "k \<in> {0, 1, 2, 3, 4, 5, 6, 7}"
    and ok: "loc_ok dst" "operand_ok src"
  shows "x86_decode (bs @ rest) = Some (decode_alu dst (canon_src dst src) k, rest)"
proof -
  obtain s where s: "loc_size dst = Some s" using e by (auto simp: emit_alu_def bind_eq_Some_conv)
  show ?thesis
  proof (cases src)
    case (OReg r)
    have "reg_size r = Some s"
      "emit_r_rm s dst (reg_num r) (ucast (push_bit 3 k) OR byte_or s 0 1) = Some bs"
      using e s OReg by (auto simp: emit_alu_def bind_eq_Some_conv split: Location.splits)
    then show ?thesis using decode_alu_rm_reg k ok s OReg by (simp add: canon_src_def)
  next
    case (OMem m)
    obtain r where "dst = LReg r" "m_size m = s"
      "emit_r_rm s (LMem m) (reg_num r) (ucast (push_bit 3 k) OR byte_or s 2 3) = Some bs"
      using e s OMem by (auto simp: emit_alu_def bind_eq_Some_conv split: Location.splits)
    then show ?thesis using decode_alu_reg_rm [of s "LMem m"] k ok s OMem by (simp add: canon_src_def)
  next
    case (OImm imm)
    have c: "canon_src dst src = OImm (imm_of_size (cap_to_dword s) imm)"
      using OImm s by (simp add: canon_src_def)
    consider (short) bs' where "s \<noteq> Byte" "fits_i8 imm" "emit_r_rm s dst k 0x83 = Some bs'"
        "bs = bs' @ emit_u8 (ucast imm)"
      | (acc) r where "dst = LReg r" "reg_id r = 0"
        "bs = emit_acc_prefix s @ emit_u8 (push_bit 3 k OR byte_or s 4 5) @ emit_imm (cap_to_dword s) imm"
      | (long) bs' where "emit_r_rm s dst k (byte_or s 0x80 0x81) = Some bs'"
        "bs = bs' @ emit_imm (cap_to_dword s) imm"
      using e s OImm unfolding emit_alu_def
      by (cases "s \<noteq> Byte \<and> fits_i8 imm"; cases dst)
        (auto simp: bind_eq_Some_conv split: if_splits)
    then show ?thesis
    proof cases
      case short
      then show ?thesis using decode_alu_imm8 k ok s c by simp
    next
      case acc
      then show ?thesis using decode_alu_acc [OF k acc(2)] ok s c by simp
    next
      case long
      then show ?thesis using decode_alu_imm [OF long(1) k ok(1) s] c by simp
    qed
  qed
qed

lemma decode_shift_num: "k \<in> {4, 5, 7} \<Longrightarrow>
  decode_shift d s (register_of_size (k AND 15) s' rex)
    = Some (if k = 4 then Shl_x d s else if k = 5 then Shr_x d s else Sar_x d s)"
  using reg_num_register_of_size [of k s' rex] by (auto simp: decode_shift_def simp del: reg_num_low)

text \<open>The two parts of a proof about one instruction: the opcode, and what follows it.\<close>

lemmas r_rm_opcode = decode_r_rm_1 decode_r_rm_2

lemmas opcode_simps = emit_opcode_prefix_def prefix_byte_def

lemma decode_emit_shift:
  assumes e: "emit_shift dst src k = Some bs" and k: "k \<in> {4, 5, 7}" and ok: "loc_ok dst"
  shows "x86_decode (bs @ rest)
    = Some (if k = 4 then Shl_x dst src else if k = 5 then Shr_x dst src else Sar_x dst src, rest)"
proof -
  obtain s where s: "loc_size dst = Some s" using e by (auto simp: emit_shift_def bind_eq_Some_conv)
  consider (cl) "src = OReg CL" "emit_r_rm s dst k (byte_or s 0xD2 0xD3) = Some bs"
    | (one) "src = OImm 1" "emit_r_rm s dst k (byte_or s 0xD0 0xD1) = Some bs"
    | (imm) imm bs' where "src = OImm imm" "emit_r_rm s dst k (byte_or s 0xC0 0xC1) = Some bs'"
      "fits_u8 imm" "bs = bs' @ emit_u8 (ucast imm)"
    using e s by (auto simp: emit_shift_def bind_eq_Some_conv split: Operand.splits if_splits)
  then show ?thesis
  proof cases
    case cl
    have "x86_decode (bs @ rest) = decode_opcode (rex_of s dst k) (opsize_of s) (byte_or s 0xD2 0xD3)
        (modrm_of dst k @ rest)"
      using r_rm_opcode(1) [OF cl(2)] by (cases "s = Byte") (simp_all add: opcode_simps)
    then show ?thesis
      using emit_r_rm_loc [OF cl(2) s ok] decode_modrm_of [OF cl(2) loc_ok_index [OF ok]] cl(1)
      by (simp only: dispatch_shift_cl) (simp add: decode_shift_num [OF k])
  next
    case one
    have "x86_decode (bs @ rest) = decode_opcode (rex_of s dst k) (opsize_of s) (byte_or s 0xD0 0xD1)
        (modrm_of dst k @ rest)"
      using r_rm_opcode(1) [OF one(2)] by (cases "s = Byte") (simp_all add: opcode_simps)
    then show ?thesis
      using emit_r_rm_loc [OF one(2) s ok] decode_modrm_of [OF one(2) loc_ok_index [OF ok]] one(1)
      by (simp only: dispatch_shift_one) (simp add: decode_shift_num [OF k])
  next
    case imm
    have "x86_decode (bs @ rest) = decode_opcode (rex_of s dst k) (opsize_of s) (byte_or s 0xC0 0xC1)
        (modrm_of dst k @ emit_u8 (ucast imm) @ rest)"
      using r_rm_opcode(1) [OF imm(2)] imm(4) by (cases "s = Byte") (simp_all add: opcode_simps)
    then show ?thesis
      using emit_r_rm_loc [OF imm(2) s ok] decode_modrm_of [OF imm(2) loc_ok_index [OF ok]] imm(1,3)
      by (simp only: dispatch_shift_imm) (simp add: decode_shift_num [OF k])
  qed
qed

text \<open>\<open>F6\<close> and \<open>F7\<close>: the operations on one location, and \<open>test\<close> with an immediate.\<close>

lemma decode_group3:
  assumes em: "emit_r_rm s loc k (byte_or s 0xF6 0xF7) = Some bs" and ok: "loc_ok loc" "loc_size loc = Some s"
    and k: "k \<in> {0, 2, 3, 4, 5, 6, 7}"
  shows "x86_decode (bs @ rest) =
    (if k = 0 then do {
       (imm, bs) \<leftarrow> decode_immediate (cap_to_dword s) rest;
       Some (Test_x loc (OImm imm), bs)
     }
     else if k = 2 then Some (Not_x loc, rest)
     else if k = 3 then Some (Neg_x loc, rest)
     else if k = 4 then Some (Mul_x loc, rest)
     else if k = 5 then Some (Imul1_x loc, rest)
     else if k = 6 then Some (Div_x loc, rest)
     else Some (Idiv_x loc, rest))"
proof -
  have "x86_decode (bs @ rest) = decode_opcode (rex_of s loc k) (opsize_of s) (byte_or s 0xF6 0xF7)
      (modrm_of loc k @ rest)"
    using r_rm_opcode(1) [OF em] by (cases "s = Byte") (simp_all add: opcode_simps)
  moreover have "reg_num (register_of_size (k AND 15) s (rex_of s loc k)) AND 7 = k"
    using reg_num_register_of_size [of k] k by auto
  ultimately show ?thesis
    using emit_r_rm_loc [OF em ok(2,1)] decode_modrm_of [OF em loc_ok_index [OF ok(1)]] k
    by (simp only: dispatch_group3) (auto simp: Let_def simp del: reg_num_low)
qed

lemma decode_emit_rm:
  assumes "emit_rm loc 0xF6 k = Some bs" "loc_ok loc" "k \<in> {2, 3, 4, 5, 6, 7}"
  shows "x86_decode (bs @ rest) = Some (
     (if k = 2 then Not_x loc else if k = 3 then Neg_x loc else if k = 4 then Mul_x loc
      else if k = 5 then Imul1_x loc else if k = 6 then Div_x loc else Idiv_x loc), rest)"
proof -
  obtain s where s: "loc_size loc = Some s" "emit_r_rm s loc k (byte_or s 0xF6 0xF7) = Some bs"
    using assms(1) by (auto simp: emit_rm_def bind_eq_Some_conv split: if_splits)
  show ?thesis
    using decode_group3 [OF s(2) assms(2) s(1), of rest] assms(3) by auto
qed

lemma decode_emit_test:
  assumes e: "emit_test dst src = Some bs" and ok: "x86_decodable (Test_x dst src)"
  shows "x86_decode (bs @ rest) = Some (Test_x dst (canon_src dst src), rest)"
proof -
  obtain s where s: "loc_size dst = Some s" using e by (auto simp: emit_test_def bind_eq_Some_conv)
  show ?thesis
  proof (cases src)
    case (OReg r)
    have rs: "reg_size r = Some s" and em: "emit_r_rm s dst (reg_num r) (byte_or s 0x84 0x85) = Some bs"
      using e s OReg by (auto simp: emit_test_def bind_eq_Some_conv)
    have "x86_decode (bs @ rest) = decode_opcode (rex_of s dst (reg_num r)) (opsize_of s) (byte_or s 0x84 0x85)
        (modrm_of dst (reg_num r) @ rest)"
      using r_rm_opcode(1) [OF em] by (cases "s = Byte") (simp_all add: opcode_simps)
    then show ?thesis
      using emit_r_rm_loc [OF em s] emit_r_rm_reg [OF em rs] decode_modrm_of [OF em] ok OReg
      by (simp only: dispatch_test) (simp add: canon_src_def)
  next
    case (OImm imm)
    obtain bs' where em: "emit_r_rm s dst 0 (byte_or s 0xF6 0xF7) = Some bs'"
      and bs: "bs = bs' @ emit_imm (cap_to_dword s) imm"
      using e s OImm ok
      by (auto simp: emit_test_def bind_eq_Some_conv split: Location.splits if_splits)
    show ?thesis
      using decode_group3 [OF em _ s, of "emit_imm (cap_to_dword s) imm @ rest"] ok OImm s
      by (simp add: bs canon_src_def)
  next
    case (OMem m)
    then show ?thesis using e by (auto simp: emit_test_def bind_eq_Some_conv)
  qed
qed

text \<open>\<open>FF\<close>: indirect calls and jumps, and \<open>push\<close> of memory.\<close>

lemma decode_group5:
  assumes em: "emit_r_rm Dword loc k 0xFF = Some bs" and ok: "loc_ok loc" "loc_size loc = Some Qword"
    and k: "k \<in> {0, 2, 4}"
  shows "x86_decode (bs @ rest) = Some (
    (if k = 0 then Push_x (operand_of_loc loc) else if k = 2 then Call_x (operand_of_loc loc)
     else Jmp_x (operand_of_loc loc)), rest)"
proof -
  have "x86_decode (bs @ rest) = decode_opcode (rex_of Dword loc k) (opsize_of Dword) 0xFF (modrm_of loc k @ rest)"
    using r_rm_opcode(1) [OF em] by (simp add: opcode_simps)
  moreover have "reg_num (register_of_size (k AND 15) Qword (rex_of Dword loc k)) AND 7 = k"
    using reg_num_register_of_size [of k] k by auto
  moreover have "loc_as Qword (rex_of Dword loc k) loc = loc"
    using ok by (cases loc) (auto elim: reg_size.elims)
  ultimately show ?thesis
    using decode_modrm_of [OF em loc_ok_index [OF ok(1)]] k
    by (simp only: dispatch_group5) (auto simp: Let_def simp del: reg_num_low)
qed

lemma emit_indirect_r_rm:
  "emit_indirect loc k = do { s \<leftarrow> loc_size loc; ensure (s = Qword); emit_r_rm Dword loc k 0xFF }"
  by (simp add: emit_indirect_def emit_r_rm_def emit_opcode_prefix_def)

lemma decode_emit_call:
  assumes "emit_call t = Some bs" "operand_ok t"
  shows "x86_decode (bs @ rest) = Some (Call_x t, rest)"
proof (cases "as_loc t")
  case (Inl imm)
  then have t: "t = OImm imm" by (cases t) auto
  then have "fits_i32 imm" "bs = 0xE8 # emit_u32 (ucast imm)"
    using assms(1) by (auto simp: emit_call_def emit_u8_def)
  then show ?thesis by (simp add: x86_decode_def dispatch_fixed t)
next
  case (Inr loc)
  then have t: "t = operand_of_loc loc" and ok: "loc_ok loc" using assms(2) by (cases t; auto)+
  have "loc_size loc = Some Qword" "emit_r_rm Dword loc 2 0xFF = Some bs"
    using assms(1) Inr by (auto simp: emit_call_def emit_indirect_r_rm bind_eq_Some_conv)
  then show ?thesis using decode_group5 [of loc 2 bs rest] ok t by simp
qed

lemma decode_emit_jmp:
  assumes "emit_jmp t = Some bs" "operand_ok t"
  shows "x86_decode (bs @ rest) = Some (Jmp_x t, rest)"
proof (cases "as_loc t")
  case (Inl imm)
  then have t: "t = OImm imm" by (cases t) auto
  then have "fits_i8 imm \<and> bs = [0xEB, ucast imm] \<or> fits_i32 imm \<and> bs = 0xE9 # emit_u32 (ucast imm)"
    using assms(1) by (auto simp: emit_jmp_def emit_u8_def split: if_splits)
  then show ?thesis by (auto simp: x86_decode_def dispatch_fixed t)
next
  case (Inr loc)
  then have t: "t = operand_of_loc loc" and ok: "loc_ok loc" using assms(2) by (cases t; auto)+
  have "loc_size loc = Some Qword" "emit_r_rm Dword loc 4 0xFF = Some bs"
    using assms(1) Inr by (auto simp: emit_jmp_def emit_indirect_r_rm bind_eq_Some_conv)
  then show ?thesis using decode_group5 [of loc 4 bs rest] ok t by simp
qed

lemma cc_num_less: "0x70 + cc_num cc \<noteq> 0xF" "\<not> prefix_byte (0x70 + cc_num cc)"
  by (induct cc) (simp_all add: prefix_byte_def)

lemma decode_emit_jcc:
  assumes "emit_jcc d cc = Some bs"
  shows "x86_decode (bs @ rest) = Some (Jcc_x d cc, rest)"
proof (cases "fits_i8 d")
  case True
  then have "bs = [0x70 + cc_num cc, ucast d]" using assms by (simp add: emit_jcc_def emit_u8_def)
  then show ?thesis
    using cc_num_less [of cc] True by (simp add: x86_decode_def prefix_byte_def dispatch_jcc_short)
next
  case False
  then have "bs = 0x0F # (0x80 + cc_num cc) # emit_u32 d" using assms by (simp add: emit_jcc_def emit_u8_def)
  then show ?thesis by (simp add: x86_decode_def dispatch_jcc_long)
qed

text \<open>\<open>mov\<close>.\<close>

lemma emit_plusr_bytes:
  assumes "emit_plusr s r opcode = Some bs" "emit_opcode_prefix opcode = []"
  shows "bs = size_prefix s @ rex_bytes (s = Qword) False False (bit (reg_id r) 3) (is_gpb2 (reg_num r))
      @ [ucast opcode OR (ucast (reg_id r) AND 7)]"
    and "is_high_byte (reg_num r) \<Longrightarrow> s \<noteq> Qword \<and> \<not> bit (reg_id r) 3 \<and> \<not> is_gpb2 (reg_num r)"
  using assms unfolding emit_plusr_def is_gpb2_def [symmetric] Let_def
  by (cases "s = Qword"; cases "bit (reg_id r) 3"; cases "is_gpb2 (reg_num r)";
      simp add: size_prefix_def rex_bytes_def rex_val_def emit_u8_def bind_eq_Some_conv
        del: is_high_byte_reg; fail)+

lemma decode_plusr:
  fixes r :: Register and s :: Size
  defines "rex \<equiv> rex_val (s = Qword) False False (bit (reg_id r) 3) (is_gpb2 (reg_num r))"
  assumes "emit_plusr s r opcode = Some bs" "emit_opcode_prefix opcode = []"
    "\<not> prefix_byte (ucast opcode OR (ucast (reg_id r) AND 7))"
  shows "x86_decode (bs @ rest) = decode_opcode rex (opsize_of s) (ucast opcode OR (ucast (reg_id r) AND 7)) rest"
    and "rex AND 1 \<noteq> 0 \<longleftrightarrow> bit (reg_id r) 3"
    and "reg_size r = Some s' \<Longrightarrow> reg_valid r \<Longrightarrow> register_of_size (ucast (reg_id r)) s' rex = r"
proof -
  show "x86_decode (bs @ rest) = decode_opcode rex (opsize_of s) (ucast opcode OR (ucast (reg_id r) AND 7)) rest"
    using assms(4) unfolding emit_plusr_bytes(1) [OF assms(2,3)] x86_decode_def prefix_byte_def append_assoc
    by (simp only: append_Cons append_Nil)
      (subst decode_prefixes_emitted, simp_all add: rex_def opsize_of_def)
  show "rex AND 1 \<noteq> 0 \<longleftrightarrow> bit (reg_id r) 3" by (simp add: rex_def)
  show "register_of_size (ucast (reg_id r)) s' rex = r" if "reg_size r = Some s'" "reg_valid r"
    using that emit_plusr_bytes(2) [OF assms(2,3)]
    by (intro register_of_size_same) (auto simp: rex_def)
qed

lemma plus_opcode:
  "\<not> prefix_byte (0x50 OR (ucast i AND 7))" "\<not> prefix_byte (0x58 OR (ucast i AND 7))"
  "\<not> prefix_byte (0xB8 OR (ucast i AND 7))" "\<not> prefix_byte (0xB0 OR (ucast i AND 7))"
  for i :: reg_index
  using reg_index_cases [of i] by (elim disjE; simp add: prefix_byte_def)+

lemma decode_mov_plusr:
  assumes em: "emit_plusr s r (byte_or s 0xB0 0xB8) = Some bs" and ok: "reg_size r = Some s" "reg_valid r"
    "s = Byte \<Longrightarrow> ucast (reg_id r) AND (7 :: u8) = 0"
  shows "x86_decode (bs @ emit_imm s imm @ rest) = Some (Mov_x (LReg r) (OImm (imm_of_size s imm)), rest)"
proof (cases "s = Byte")
  case True
  note em' = em [unfolded True, simplified]
  show ?thesis
    using decode_plusr(1) [OF em', of "emit_imm Byte imm @ rest"] dispatch_mov_al [OF decode_plusr(2) [OF em'] ok(3) [OF True]]
      decode_plusr(3) [OF em' _ _ ok(1,2)] plus_opcode(4) [of "reg_id r"] True
    by (simp add: emit_opcode_prefix_def)
next
  case False
  then have em': "emit_plusr s r 0xB8 = Some bs" using em by simp
  show ?thesis
    using decode_plusr(1) [OF em', of "emit_imm s imm @ rest"] dispatch_plus_reg(3) [OF decode_plusr(2) [OF em']]
      decode_plusr(3) [OF em' _ _ ok(1,2)] plus_opcode(3) [of "reg_id r"] False
    by (simp add: emit_opcode_prefix_def opsize_of_def)
qed

lemma decode_mov_dword:
  assumes em: "emit_plusr Dword (GPQ i) 0xB8 = Some bs"
  shows "x86_decode (bs @ emit_imm Dword imm @ rest)
    = Some (Mov_x (LReg (GPD i)) (OImm (imm_of_size Dword imm)), rest)"
  using decode_plusr(1) [OF em, of "emit_imm Dword imm @ rest"]
    dispatch_plus_reg(3) [OF decode_plusr(2) [OF em]] plus_opcode(3) [of i]
  by (simp add: emit_opcode_prefix_def opsize_of_def register_of_size_def)

lemma decode_mov_imm_rm:
  assumes e: "emit_mov_imm_rm s dst imm = Some bs" and ok: "loc_ok dst" "loc_size dst = Some s"
  shows "x86_decode (bs @ rest) = Some (Mov_x dst (OImm (imm_of_size (cap_to_dword s) imm)), rest)"
proof -
  obtain bs' where em: "emit_r_rm s dst 0 (byte_or s 0xC6 0xC7) = Some bs'"
    and bs: "bs = bs' @ emit_imm (cap_to_dword s) imm"
    using e by (auto simp: emit_mov_imm_rm_def bind_eq_Some_conv)
  have "x86_decode (bs @ rest) = decode_opcode (rex_of s dst 0) (opsize_of s) (byte_or s 0xC6 0xC7)
      (modrm_of dst 0 @ emit_imm (cap_to_dword s) imm @ rest)"
    using r_rm_opcode(1) [OF em] by (cases "s = Byte") (simp_all add: opcode_simps bs)
  moreover have "reg_num (register_of_size 0 s (rex_of s dst 0)) AND 7 = 0"
    using reg_num_register_of_size [of 0] by simp
  ultimately show ?thesis
    using emit_r_rm_loc [OF em ok(2,1)] decode_modrm_of [OF em loc_ok_index [OF ok(1)]]
    by (simp only: dispatch_mov_imm) (simp del: reg_num_low)
qed

lemma imm_of_size_qword: "fits_i32 imm \<Longrightarrow> imm_of_size (cap_to_dword Qword) imm = imm"
  by (simp add: imm_of_size_def cap_to_dword_def)

lemma decode_mov_imm_reg:
  assumes e: "emit_mov (LReg r) (OImm imm) = Some bs" and ok: "x86_decodable (Mov_x (LReg r) (OImm imm))"
  shows "x86_decode (bs @ rest) = Some (canon_mov (LReg r) (OImm imm), rest)"
proof -
  obtain s where s: "reg_size r = Some s" using e by (auto simp: emit_mov_def bind_eq_Some_conv)
  consider (small) "s = Qword" "fits_u32 imm" | (full) "s = Qword" "\<not> fits_u32 imm" "\<not> fits_i32 imm"
    | (sext) "s = Qword" "\<not> fits_u32 imm" "fits_i32 imm" | (other) "s \<noteq> Qword" by blast
  then show ?thesis
  proof cases
    case small
    then obtain i where i: "r = GPQ i" using s by (cases r) auto
    show ?thesis
      using e small i by (auto simp: emit_mov_def bind_eq_Some_conv canon_mov_def intro: decode_mov_dword)
  next
    case full
    then obtain i where i: "r = GPQ i" using s by (cases r) auto
    obtain bs' where "emit_plusr Qword r (byte_or Qword 0xB0 0xB8) = Some bs'" "bs = bs' @ emit_imm Qword imm"
      using e full i by (auto simp: emit_mov_def bind_eq_Some_conv)
    then show ?thesis
      using decode_mov_plusr [of Qword r bs' imm rest] full i
      by (simp add: canon_mov_def imm_of_size_def)
  next
    case sext
    then obtain i where i: "r = GPQ i" using s by (cases r) auto
    have "emit_mov_imm_rm Qword (LReg r) imm = Some bs"
      using e sext i by (auto simp: emit_mov_def bind_eq_Some_conv)
    then show ?thesis
      using decode_mov_imm_rm [of Qword "LReg r" imm bs rest] sext i
      by (simp add: canon_mov_def imm_of_size_qword)
  next
    case other
    obtain bs' where "emit_plusr s r (byte_or s 0xB0 0xB8) = Some bs'" "bs = bs' @ emit_imm s imm"
      using e other s by (auto simp: emit_mov_def bind_eq_Some_conv)
    moreover have "canon_mov (LReg r) (OImm imm) = Mov_x (LReg r) (OImm (imm_of_size s imm))"
      using other s by (cases r) (auto simp: canon_mov_def canon_src_def cap_to_dword_def)
    ultimately show ?thesis
      using decode_mov_plusr [of s r bs' imm rest] s ok by simp
  qed
qed

lemma decode_emit_mov:
  assumes e: "emit_mov dst src = Some bs" and ok: "x86_decodable (Mov_x dst src)"
  shows "x86_decode (bs @ rest) = Some (canon_mov dst src, rest)"
proof -
  obtain s where s: "loc_size dst = Some s" using e by (auto simp: emit_mov_def bind_eq_Some_conv)
  have ok': "loc_ok dst" "operand_ok src" using ok by (cases dst; cases src; simp)+
  show ?thesis
  proof (cases src)
    case (OReg r)
    have rs: "reg_size r = Some s" and em: "emit_r_rm s dst (reg_num r) (byte_or s 0x88 0x89) = Some bs"
      using e s OReg by (auto simp: emit_mov_def bind_eq_Some_conv split: Location.splits)
    have "x86_decode (bs @ rest) = decode_opcode (rex_of s dst (reg_num r)) (opsize_of s) (byte_or s 0x88 0x89)
        (modrm_of dst (reg_num r) @ rest)"
      using r_rm_opcode(1) [OF em] by (cases "s = Byte") (simp_all add: opcode_simps)
    moreover have "canon_mov dst src = Mov_x dst src"
      using OReg by (simp add: canon_mov_def canon_src_def split: Location.splits Register.splits)
    ultimately show ?thesis
      using emit_r_rm_loc [OF em s] emit_r_rm_reg [OF em rs] decode_modrm_of [OF em] ok' OReg
      by (simp only: dispatch_mov_rm_reg) simp
  next
    case (OMem m)
    obtain r where r: "dst = LReg r" "m_size m = s"
      and em: "emit_r_rm s (LMem m) (reg_num r) (byte_or s 0x8A 0x8B) = Some bs"
      using e s OMem by (auto simp: emit_mov_def bind_eq_Some_conv split: Location.splits)
    have "x86_decode (bs @ rest) = decode_opcode (rex_of s (LMem m) (reg_num r)) (opsize_of s) (byte_or s 0x8A 0x8B)
        (modrm_of (LMem m) (reg_num r) @ rest)"
      using r_rm_opcode(1) [OF em] by (cases "s = Byte") (simp_all add: opcode_simps)
    moreover have "canon_mov dst src = Mov_x dst src"
      using OMem by (simp add: canon_mov_def canon_src_def split: Location.splits Register.splits)
    ultimately show ?thesis
      using emit_r_rm_loc [OF em] emit_r_rm_reg [OF em] decode_modrm_of [OF em] ok' OMem r s
      by (simp only: dispatch_mov_reg_rm) (simp del: loc_as.simps)
  next
    case (OImm imm)
    show ?thesis
    proof (cases dst)
      case (LReg r)
      then show ?thesis using decode_mov_imm_reg e ok OImm by blast
    next
      case (LMem m)
      then have "emit_mov_imm_rm s dst imm = Some bs"
        using e OImm s by (simp add: emit_mov_def)
      then show ?thesis
        using decode_mov_imm_rm ok' OImm s LMem by (simp add: canon_mov_def canon_src_def)
    qed
  qed
qed

text \<open>\<open>movsx\<close> and \<open>movzx\<close>: the decoder reads the source at the size of the destination and resizes it.\<close>

lemma resize_register:
  assumes "reg_valid r" "\<not> is_high_byte (reg_num r)" "reg_size r = Some s'" "s \<noteq> Byte"
  shows "reg_resize (register_of_size (ucast (reg_id r)) s rex) s' = Some r"
proof -
  define r0 where "r0 = register_of_size (ucast (reg_id r)) s rex"
  have "\<not> is_high_byte (reg_num r0)" and id0: "reg_id r0 = reg_id r"
    using assms(4) by (cases s; auto simp: r0_def register_of_size_def simp del: reg_num.simps)+
  then have "reg_resize r0 s' = Some (from_id_and_size (reg_num r0) s')" by (simp add: reg_resize_def)
  also have "from_id_and_size (reg_num r0) s' = r"
    using assms(1-3) reg_index_cases [of "reg_id r"]
    by (cases r) (auto simp: from_id_and_size_def id0 word_le_nat_alt simp del: reg_num.simps)
  finally show ?thesis by (simp add: r0_def)
qed

lemma resize_loc:
  assumes "resizable loc" "loc_size loc = Some s'" "s \<noteq> Byte"
  shows "loc_resize (loc_as s rex loc) s' = Some loc"
  using assms resize_register by (cases loc) (auto simp: mem_resize_def simp del: is_high_byte_reg)

lemma resizable_index [simp]: "resizable loc \<Longrightarrow> index_ok loc"
  by (cases loc) auto

lemma second_bytes:
  "(0x0FB6 :: u8) = 0xB6" "(0x0FB7 :: u8) = 0xB7" "(0x0FBE :: u8) = 0xBE" "(0x0FBF :: u8) = 0xBF"
  "(0x0FB0 :: u8) = 0xB0" "(0x0FB1 :: u8) = 0xB1" "(0x0FC0 :: u8) = 0xC0" "(0x0FC1 :: u8) = 0xC1"
  "(0x0FAF :: u8) = 0xAF"
  by simp_all

lemma decode_emit_movsx:
  assumes e: "emit_movsx r loc = Some bs" and ok: "reg_valid r" "resizable loc"
  shows "x86_decode (bs @ rest) = Some (Movsx_x r loc, rest)"
proof -
  obtain s s' where s: "reg_size r = Some s" "loc_size loc = Some s'" "s' < s"
    using e by (auto simp: emit_movsx_def bind_eq_Some_conv)
  obtain opcode where op: "(s', opcode) \<in> {(Byte, 0x0FBE), (Word, 0x0FBF), (Dword, 0x63)}"
    and em: "emit_r_rm s loc (reg_num r) opcode = Some bs"
    using e s by (cases s') (auto simp: emit_movsx_def)
  have nb: "s \<noteq> Byte" "opsize_of s = s" using s(3) by (cases s; cases s'; simp add: less_Size_def opsize_of_def)+
  note d = decode_modrm_of [OF em resizable_index [OF ok(2)]] emit_r_rm_reg [OF em s(1) ok(1)]
    resize_loc [OF ok(2) s(2) nb(1)] nb
  show ?thesis
    using op d r_rm_opcode [OF em]
    by (auto simp: opcode_simps dispatch_movx dispatch_movsxd second_bytes)
qed

lemma decode_emit_movzx:
  assumes e: "emit_movzx r loc = Some bs" and ok: "reg_valid r" "resizable loc"
  shows "x86_decode (bs @ rest) = Some (Movzx_x r loc, rest)"
proof -
  obtain s s' where s: "reg_size r = Some s" "loc_size loc = Some s'" "s' < s"
    using e by (auto simp: emit_movzx_def bind_eq_Some_conv)
  obtain opcode where op: "(s', opcode) \<in> {(Byte, 0x0FB6), (Word, 0x0FB7)}"
    and em: "emit_r_rm s loc (reg_num r) opcode = Some bs"
    using e s by (cases s; cases s') (auto simp: emit_movzx_def less_Size_def)
  have nb: "s \<noteq> Byte" "opsize_of s = s" using s(3) by (cases s; cases s'; simp add: less_Size_def opsize_of_def)+
  note d = decode_modrm_of [OF em resizable_index [OF ok(2)]] emit_r_rm_reg [OF em s(1) ok(1)]
    resize_loc [OF ok(2) s(2) nb(1)] nb
  show ?thesis
    using op d r_rm_opcode [OF em]
    by (auto simp: opcode_simps dispatch_movx dispatch_movsxd second_bytes)
qed

text \<open>\<open>lea\<close>, \<open>push\<close>, \<open>pop\<close>, \<open>xchg\<close>, \<open>setcc\<close> and the instructions with a register and a location.\<close>

lemma decode_emit_lea:
  assumes e: "emit_lea r m = Some bs" and ok: "reg_valid r" "index_ok (LMem m)"
  shows "x86_decode (bs @ rest) = Some (canon_lea r m, rest)"
proof -
  obtain s where s: "reg_size r = Some s" "s \<noteq> Byte" and em: "emit_r_rm s (LMem m) (reg_num r) 0x8D = Some bs"
    using e by (auto simp: emit_lea_def bind_eq_Some_conv)
  have "x86_decode (bs @ rest)
      = decode_opcode (rex_of s (LMem m) (reg_num r)) s 0x8D (modrm_of (LMem m) (reg_num r) @ rest)"
    using r_rm_opcode(1) [OF em] s(2) by (simp add: opcode_simps opsize_of_def)
  then show ?thesis
    using decode_modrm_of [OF em ok(2)] emit_r_rm_reg [OF em s(1) ok(1)] s(1)
    by (simp add: dispatch_lea canon_lea_def)
qed

lemma decode_emit_pop:
  assumes e: "emit_pop (LReg r) = Some bs" and ok: "reg_valid r"
  shows "x86_decode (bs @ rest) = Some (Pop_x (LReg r), rest)"
proof -
  obtain s where s: "reg_size r = Some s" "s = Word \<or> s = Qword"
    and em: "emit_plusr (if s = Qword then Dword else s) r 0x58 = Some bs"
    using e by (auto simp: emit_pop_def bind_eq_Some_conv Let_def)
  show ?thesis
    using decode_plusr(1) [OF em, of rest] dispatch_plus_reg(2) [OF decode_plusr(2) [OF em]]
      decode_plusr(3) [OF em _ _ s(1) ok] plus_opcode(2) [of "reg_id r"] s(2)
    by (auto simp: emit_opcode_prefix_def opsize_of_def)
qed

lemma decode_emit_push:
  assumes e: "emit_push src = Some bs" and ok: "x86_decodable (Push_x src)"
  shows "x86_decode (bs @ rest) = Some (Push_x src, rest)"
proof (cases src)
  case (OReg r)
  obtain s where s: "reg_size r = Some s" "s = Word \<or> s = Qword"
    and em: "emit_plusr (if s = Qword then Dword else s) r 0x50 = Some bs"
    using e OReg by (auto simp: emit_push_def bind_eq_Some_conv Let_def)
  show ?thesis
    using decode_plusr(1) [OF em, of rest] dispatch_plus_reg(1) [OF decode_plusr(2) [OF em]]
      decode_plusr(3) [OF em _ _ s(1)] plus_opcode(1) [of "reg_id r"] s(2) ok OReg
    by (auto simp: emit_opcode_prefix_def opsize_of_def)
next
  case (OMem m)
  have "emit_r_rm Dword (LMem m) 0 0xFF = Some bs"
    using e ok OMem by (auto simp: emit_push_def bind_eq_Some_conv Let_def)
  then show ?thesis using decode_group5 [of "LMem m" 0 bs rest] ok OMem by simp
next
  case (OImm i)
  then show ?thesis using ok by simp
qed

lemma decode_emit_setcc:
  assumes e: "emit_setcc loc cc = Some bs" and ok: "loc_ok loc"
  shows "x86_decode (bs @ rest) = Some (Setcc_x loc cc, rest)"
proof -
  have s: "loc_size loc = Some Byte" and em: "emit_r_rm Byte loc 0 (0x0F90 + ucast (cc_num cc)) = Some bs"
    using e by (auto simp: emit_setcc_def bind_eq_Some_conv)
  have op: "emit_opcode_prefix (0x0F90 + ucast (cc_num cc)) = [0xF]"
    "ucast (0x0F90 + ucast (cc_num cc) :: u32) = 0x90 + cc_num cc"
    by (induct cc) (simp_all add: emit_opcode_prefix_def)
  have "reg_num (register_of_size 0 Byte (rex_of Byte loc 0)) AND 7 = 0"
    using reg_num_register_of_size [of 0] by simp
  then show ?thesis
    using r_rm_opcode(2) [OF em op(1), of rest] decode_modrm_of [OF em loc_ok_index [OF ok]]
      emit_r_rm_loc [OF em s ok]
    by (simp add: op(2) dispatch_setcc del: reg_num_low)
qed

lemma decode_emit_xchg:
  assumes e: "emit_xchg d s = Some bs" and ok: "x86_decodable (Xchg_x d s)"
  shows "x86_decode (bs @ rest) = Some (x86_canon (Xchg_x d s), rest)"
proof -
  obtain loc r where x: "x86_canon (Xchg_x d s) = Xchg_x (LReg r) loc" and okx: "loc_ok loc" "reg_valid r"
    and acc: "loc_size loc = Some Byte \<or> (\<exists>m. loc = LMem m) \<or> \<not> is_accumulator loc \<and> reg_id r \<noteq> 0"
    and e': "emit_xchg (LReg r) loc = Some bs"
  proof (cases d)
    case (LReg r)
    then show thesis using that [of r s] e ok by (auto simp: emit_xchg_def bind_eq_Some_conv)
  next
    case (LMem m)
    then obtain r where "s = LReg r" using e by (cases s) (auto simp: emit_xchg_def)
    then show thesis using that [of r d] e ok LMem by (auto simp: emit_xchg_def)
  qed
  obtain sz where sz: "loc_size loc = Some sz" "reg_size r = Some sz"
    and em: "emit_r_rm sz loc (reg_num r) (byte_or sz 0x86 0x87) = Some bs"
    using e' acc by (cases loc) (auto simp: emit_xchg_def bind_eq_Some_conv split: if_splits)
  have "x86_decode (bs @ rest) = decode_opcode (rex_of sz loc (reg_num r)) (opsize_of sz) (byte_or sz 0x86 0x87)
      (modrm_of loc (reg_num r) @ rest)"
    using r_rm_opcode(1) [OF em] by (cases "sz = Byte") (simp_all add: opcode_simps)
  then show ?thesis
    using emit_r_rm_loc [OF em sz(1) okx(1)] emit_r_rm_reg [OF em sz(2) okx(2)]
      decode_modrm_of [OF em loc_ok_index [OF okx(1)]]
    by (simp only: dispatch_xchg x) simp
qed

lemma emit_pair_size: "emit_pair small r loc ob ow = Some bs \<Longrightarrow> \<exists>s. reg_size r = Some s \<and> (small \<or> s \<noteq> Byte)"
  by (auto simp: emit_pair_def bind_eq_Some_conv)

lemma decode_emit_pair:
  assumes e: "emit_pair small r loc ob ow = Some bs" and ok: "reg_valid r" "loc_ok loc"
    and op: "small \<Longrightarrow> emit_opcode_prefix ob = [0xF]" "emit_opcode_prefix ow = [0xF]"
    and s: "reg_size r = Some s"
  shows "x86_decode (bs @ rest) = decode_opcode (rex_of s loc (reg_num r)) (opsize_of s) 0xF
      (byte_or s (ucast ob) (ucast ow) # modrm_of loc (reg_num r) @ rest)"
    and "decode_modrm (rex_of s loc (reg_num r)) s (modrm_of loc (reg_num r) @ rest) = Some ((loc, r), rest)"
proof -
  have s': "loc_size loc = Some s" "small \<or> s \<noteq> Byte"
    and em: "emit_r_rm s loc (reg_num r) (byte_or s ob ow) = Some bs"
    using e s by (auto simp: emit_pair_def bind_eq_Some_conv)
  show "x86_decode (bs @ rest) = decode_opcode (rex_of s loc (reg_num r)) (opsize_of s) 0xF
      (byte_or s (ucast ob) (ucast ow) # modrm_of loc (reg_num r) @ rest)"
    using r_rm_opcode(2) [OF em, of rest] op s'(2) by (cases "s = Byte") auto
  show "decode_modrm (rex_of s loc (reg_num r)) s (modrm_of loc (reg_num r) @ rest) = Some ((loc, r), rest)"
    using decode_modrm_of [OF em loc_ok_index [OF ok(2)]] emit_r_rm_loc [OF em s'(1) ok(2)]
      emit_r_rm_reg [OF em s ok(1)] by simp
qed

lemma decode_emit_cmovcc:
  assumes e: "emit_pair False r loc 0 (0x0F40 + ucast (cc_num cc)) = Some bs" and ok: "reg_valid r" "loc_ok loc"
  shows "x86_decode (bs @ rest) = Some (Cmovcc_x r loc cc, rest)"
proof -
  have op: "emit_opcode_prefix (0x0F40 + ucast (cc_num cc)) = [0xF]"
    "ucast (0x0F40 + ucast (cc_num cc) :: u32) = 0x40 + cc_num cc"
    by (induct cc) (simp_all add: emit_opcode_prefix_def)
  obtain s where s: "reg_size r = Some s" "s \<noteq> Byte" using emit_pair_size [OF e] by auto
  show ?thesis
    using decode_emit_pair [OF e ok _ op(1) s(1), of rest] s(2)
    by (simp add: op(2) dispatch_cmovcc opsize_of_def)
qed

lemma decode_emit_imul2:
  assumes e: "emit_pair False r loc 0 0x0FAF = Some bs" and ok: "reg_valid r" "loc_ok loc"
  shows "x86_decode (bs @ rest) = Some (Imul2_x r loc, rest)"
proof -
  have op: "emit_opcode_prefix 0x0FAF = [0xF]" by (simp add: emit_opcode_prefix_def)
  obtain s where s: "reg_size r = Some s" "s \<noteq> Byte" using emit_pair_size [OF e] by auto
  show ?thesis
    using decode_emit_pair [OF e ok _ op s(1), of rest] s(2)
    by (simp add: second_bytes dispatch_imul2 opsize_of_def)
qed

lemma decode_emit_cmpxchg:
  assumes e: "emit_pair True r loc 0x0FB0 0x0FB1 = Some bs" and ok: "reg_valid r" "loc_ok loc"
  shows "x86_decode (bs @ rest) = Some (Cmpxchg_x loc r, rest)"
proof -
  have op: "emit_opcode_prefix 0x0FB0 = [0xF]" "emit_opcode_prefix 0x0FB1 = [0xF]"
    by (simp_all add: emit_opcode_prefix_def)
  have lit: "ucast (0x0FB0 :: u32) = (0xB0 :: u8)" "ucast (0x0FB1 :: u32) = (0xB1 :: u8)" by simp_all
  obtain s where s: "reg_size r = Some s" using emit_pair_size [OF e] by auto
  show ?thesis
    using decode_emit_pair(2) [OF e ok op s, of rest]
    unfolding decode_emit_pair(1) [OF e ok op s] lit dispatch_cmpxchg by simp
qed

lemma decode_emit_xadd:
  assumes e: "emit_pair True r loc 0x0FC0 0x0FC1 = Some bs" and ok: "reg_valid r" "loc_ok loc"
  shows "x86_decode (bs @ rest) = Some (Xadd_x loc r, rest)"
proof -
  have op: "emit_opcode_prefix 0x0FC0 = [0xF]" "emit_opcode_prefix 0x0FC1 = [0xF]"
    by (simp_all add: emit_opcode_prefix_def)
  have lit: "ucast (0x0FC0 :: u32) = (0xC0 :: u8)" "ucast (0x0FC1 :: u32) = (0xC1 :: u8)" by simp_all
  obtain s where s: "reg_size r = Some s" using emit_pair_size [OF e] by auto
  show ?thesis
    using decode_emit_pair(2) [OF e ok op s, of rest]
    unfolding decode_emit_pair(1) [OF e ok op s] lit dispatch_xadd by simp
qed

section \<open>The round trip\<close>

lemma decode_emit_ret: "x86_decode (emit_ret pop @ rest) = Some (Ret_x pop, rest)"
  by (simp add: emit_ret_def x86_decode_def dispatch_fixed emit_u8_def)

lemma decode_fixed_bytes:
  "x86_decode (0x0F # 0x0B # rest) = Some (Illegal_x, rest)"
  "x86_decode (0x0F # 0xAE # 0xF0 # rest) = Some (Mfence_x, rest)"
  "x86_decode (0x90 # rest) = Some (Nop_x, rest)"
  "x86_decode (0x48 # 0x98 # rest) = Some (Cdqe_x, rest)"
  "x86_decode (0x99 # rest) = Some (Cdq_x, rest)"
  "x86_decode (0x48 # 0x99 # rest) = Some (Cqo_x, rest)"
  "x86_decode (0xF0 # rest) = Some (Lock_x, rest)"
  "x86_decode (0xF4 # rest) = Some (Hlt_x, rest)"
  by (simp_all add: x86_decode_def dispatch_fixed)

lemmas decode_emitted = decode_emit_alu decode_alu_def decode_emit_shift decode_emit_rm decode_emit_test
  decode_emit_call decode_emit_jmp decode_emit_jcc decode_emit_mov decode_emit_movsx decode_emit_movzx
  decode_emit_lea decode_emit_push decode_emit_pop decode_emit_setcc decode_emit_cmovcc decode_emit_imul2
  decode_emit_cmpxchg decode_emit_xadd decode_emit_ret decode_fixed_bytes emit_u8_def

lemma x86_decode_encoded:
  assumes "x86_encode op = Some bs" "x86_decodable op"
  shows "x86_decode (bs @ rest) = Some (x86_canon op, rest)"
proof (cases op)
  case (Xchg_x d s)
  then show ?thesis using assms decode_emit_xchg by simp
next
  case (Pop_x l)
  then show ?thesis using assms decode_emit_pop by (cases l) simp_all
next
  case (Mov_x d s)
  then show ?thesis using assms decode_emit_mov by simp
next
  case (Test_x d s)
  then show ?thesis using assms decode_emit_test by simp
next
  case (Push_x s)
  then show ?thesis using assms decode_emit_push by simp
qed (use assms in \<open>auto simp: decode_emitted\<close>)

section \<open>The round trip\<close>

text \<open>
  C14. The decoder inverts the encoder: whenever an operation of the host encodes (the encoder does not
  panic on its operands) and is not one of the forms that \<open>x86_decodable\<close> excludes, the decoder reads its
  bytes, whatever follows them, consumes exactly these bytes and returns the operation, up to the
  normal form \<open>x86_canon\<close> of its immediate.
\<close>

theorem x86_decode_encode:
  assumes "x86_encode op = Some bs" "x86_decodable op"
  shows "x86_decode (bs @ rest) = Some (x86_canon op, rest)"
  using assms by (rule x86_decode_encoded)

theorem x86_decode_encode_witness:
  "x86_decode ([0x48, 0x81, 0x44, 0xCD, 0x10, 0xF0, 0xDE, 0xBC, 0x0A] @ [0x90]) =
    Some (Add_x (LMem \<lparr>m_base = Some RBP, m_index = Some (RCX, 8), m_displacement = 0x10, m_size = Qword\<rparr>)
      (OImm 0x0ABCDEF0), [0x90])"
  using x86_decode_encode [where rest = "[0x90]" and
      op = "Add_x (LMem \<lparr>m_base = Some RBP, m_index = Some (RCX, 8), m_displacement = 0x10, m_size = Qword\<rparr>)
        (OImm 0x0ABCDEF0)" and bs = "[0x48, 0x81, 0x44, 0xCD, 0x10, 0xF0, 0xDE, 0xBC, 0x0A]"]
  by code_simp

end
