(* ===== verification/X86_Semantics.thy ===== *)
theory X86_Semantics
  imports X86_Roundtrip Interp_Memory
begin

text \<open>
  The specification the translator is checked against: what the host does with the operations of
  \<open>X86_Op\<close>, after the manual of the x86-64 architecture. It covers the operations the translator emits.

  \<^item> A state has the sixteen registers, the bytes of memory and the flags. \<open>None\<close> for the flags means
    that they are not known: the manual leaves them undefined, or no generated code reads them (after
    an addition, a shift, a multiplication). A condition on unknown flags is \<open>Undefined\<close>.
  \<^item> Values of every size are carried as 64 bits with zeros above. A write of 32 bits to a register clears
    the upper half, one of 16 or 8 bits keeps the rest.
  \<^item> A division by zero, or whose quotient does not fit, raises \<open>DivideError\<close> and changes nothing.
  \<^item> Code is a list of bytes, and a position in it stands for the instruction pointer. It is executed
    by decoding it with \<^const>\<open>x86_decode\<close>.
\<close>

section \<open>States\<close>

record x86_flags =
  cf :: bool
  zf :: bool
  sf :: bool
  of_x :: bool

record x86_state =
  gpr :: "reg_index \<Rightarrow> u64"
  xmem :: memory
  xflags :: "x86_flags option"

datatype (plugins only: code size) x86_outcome = Run x86_state | DivideError | Undefined

fun and_run :: "x86_outcome \<Rightarrow> (x86_state \<Rightarrow> x86_outcome) \<Rightarrow> x86_outcome" where
  "and_run (Run s) k = k s"
| "and_run DivideError k = DivideError"
| "and_run Undefined k = Undefined"

definition trunc :: "Size \<Rightarrow> u64 \<Rightarrow> u64" where
  "trunc s v =
    (case s of
       Byte \<Rightarrow> ucast (ucast v :: u8) | Word \<Rightarrow> ucast (ucast v :: u16)
     | Dword \<Rightarrow> ucast (ucast v :: u32) | Qword \<Rightarrow> v)"

definition sign_extend :: "Size \<Rightarrow> u64 \<Rightarrow> u64" where
  "sign_extend s v =
    (case s of
       Byte \<Rightarrow> scast (ucast v :: u8) | Word \<Rightarrow> scast (ucast v :: u16)
     | Dword \<Rightarrow> scast (ucast v :: u32) | Qword \<Rightarrow> v)"

section \<open>Operands\<close>

fun get_register :: "Register \<Rightarrow> x86_state \<Rightarrow> u64" where
  "get_register (GPQ i) s = gpr s i"
| "get_register (GPD i) s = trunc Dword (gpr s i)"
| "get_register (GPW i) s = trunc Word (gpr s i)"
| "get_register (GPB2 i) s = trunc Byte (gpr s i)"
| "get_register (GPB i) s =
    (if 4 \<le> i \<and> i \<le> 7 then trunc Byte (drop_bit 8 (gpr s (i - 4))) else trunc Byte (gpr s i))"
| "get_register RIP s = 0"

fun set_register :: "Register \<Rightarrow> u64 \<Rightarrow> x86_state \<Rightarrow> x86_state" where
  "set_register (GPQ i) v s = s\<lparr>gpr := (gpr s)(i := v)\<rparr>"
| "set_register (GPD i) v s = s\<lparr>gpr := (gpr s)(i := trunc Dword v)\<rparr>"
| "set_register (GPW i) v s = s\<lparr>gpr := (gpr s)(i := (gpr s i AND NOT 0xFFFF) OR trunc Word v)\<rparr>"
| "set_register (GPB2 i) v s = s\<lparr>gpr := (gpr s)(i := (gpr s i AND NOT 0xFF) OR trunc Byte v)\<rparr>"
| "set_register (GPB i) v s =
    (if 4 \<le> i \<and> i \<le> 7
     then s\<lparr>gpr := (gpr s)(i - 4 := (gpr s (i - 4) AND NOT 0xFF00) OR push_bit 8 (trunc Byte v))\<rparr>
     else s\<lparr>gpr := (gpr s)(i := (gpr s i AND NOT 0xFF) OR trunc Byte v)\<rparr>)"
| "set_register RIP v s = s"

text \<open>The address of a memory operand whose base is not the instruction pointer.\<close>

definition effective_address :: "Memory \<Rightarrow> x86_state \<Rightarrow> u64" where
  "effective_address m s =
    (case m_base m of None \<Rightarrow> 0 | Some b \<Rightarrow> gpr s (reg_id b))
    + (case m_index m of None \<Rightarrow> 0 | Some (i, scale) \<Rightarrow> gpr s (reg_id i) * ucast scale)
    + scast (m_displacement m)"

fun get_loc :: "Location \<Rightarrow> x86_state \<Rightarrow> u64" where
  "get_loc (LReg r) s = get_register r s"
| "get_loc (LMem m) s = load_bytes (size_bytes (m_size m)) (xmem s) (effective_address m s)"

fun set_loc :: "Location \<Rightarrow> u64 \<Rightarrow> x86_state \<Rightarrow> x86_state" where
  "set_loc (LReg r) v s = set_register r v s"
| "set_loc (LMem m) v s =
    s\<lparr>xmem := store_bytes (size_bytes (m_size m)) (effective_address m s) v (xmem s)\<rparr>"

fun get_operand :: "Size \<Rightarrow> Operand \<Rightarrow> x86_state \<Rightarrow> u64" where
  "get_operand z (OReg r) s = get_register r s"
| "get_operand z (OMem m) s = get_loc (LMem m) s"
| "get_operand z (OImm imm) s = trunc z imm"

section \<open>Arithmetic\<close>

datatype (plugins only: code size) alu = Alu_add | Alu_sub | Alu_and | Alu_or | Alu_xor | Alu_mul

fun alu_value :: "alu \<Rightarrow> 'a::len word \<Rightarrow> 'a word \<Rightarrow> 'a word" where
  "alu_value Alu_add a b = a + b"
| "alu_value Alu_sub a b = a - b"
| "alu_value Alu_and a b = a AND b"
| "alu_value Alu_or a b = a OR b"
| "alu_value Alu_xor a b = a XOR b"
| "alu_value Alu_mul a b = a * b"

definition sub_flags :: "'a::len word \<Rightarrow> 'a word \<Rightarrow> x86_flags" where
  "sub_flags a b =
    \<lparr>cf = a < b, zf = (a = b), sf = a - b <s 0,
     of_x = ((a <s 0) \<noteq> (b <s 0) \<and> (a - b <s 0) \<noteq> (a <s 0))\<rparr>"

definition logic_flags :: "'a::len word \<Rightarrow> x86_flags" where
  "logic_flags r = \<lparr>cf = False, zf = (r = 0), sf = r <s 0, of_x = False\<rparr>"

fun alu_flags :: "alu \<Rightarrow> 'a::len word \<Rightarrow> 'a word \<Rightarrow> x86_flags option" where
  "alu_flags Alu_add a b = None"
| "alu_flags Alu_sub a b = Some (sub_flags a b)"
| "alu_flags Alu_and a b = Some (logic_flags (a AND b))"
| "alu_flags Alu_or a b = Some (logic_flags (a OR b))"
| "alu_flags Alu_xor a b = Some (logic_flags (a XOR b))"
| "alu_flags Alu_mul a b = None"

definition alu_of_size :: "alu \<Rightarrow> Size \<Rightarrow> u64 \<Rightarrow> u64 \<Rightarrow> u64 \<times> x86_flags option" where
  "alu_of_size k z a b =
    (case z of
       Byte \<Rightarrow> (ucast (alu_value k (ucast a) (ucast b) :: u8), alu_flags k (ucast a :: u8) (ucast b))
     | Word \<Rightarrow> (ucast (alu_value k (ucast a) (ucast b) :: u16), alu_flags k (ucast a :: u16) (ucast b))
     | Dword \<Rightarrow> (ucast (alu_value k (ucast a) (ucast b) :: u32), alu_flags k (ucast a :: u32) (ucast b))
     | Qword \<Rightarrow> (alu_value k a b, alu_flags k a b))"

definition exec_alu :: "alu \<Rightarrow> bool \<Rightarrow> Location \<Rightarrow> Operand \<Rightarrow> x86_state \<Rightarrow> x86_outcome" where
  "exec_alu k write dst src s =
    (case loc_size dst of
       None \<Rightarrow> Undefined
     | Some z \<Rightarrow>
         (let (v, f) = alu_of_size k z (get_loc dst s) (get_operand z src s);
              s' = (if write then set_loc dst v s else s)
          in Run (s'\<lparr>xflags := f\<rparr>)))"

text \<open>Shifts take the count modulo 64 for 64 bits and modulo 32 otherwise.\<close>

datatype (plugins only: code size) shift = Shift_left | Shift_right | Shift_arith

fun shift_value :: "shift \<Rightarrow> nat \<Rightarrow> 'a::len word \<Rightarrow> 'a word" where
  "shift_value Shift_left n a = push_bit n a"
| "shift_value Shift_right n a = drop_bit n a"
| "shift_value Shift_arith n a = signed_drop_bit n a"

definition exec_shift :: "shift \<Rightarrow> Location \<Rightarrow> Operand \<Rightarrow> x86_state \<Rightarrow> x86_outcome" where
  "exec_shift k dst src s =
    (let n = unat (get_operand Byte src s); a = get_loc dst s in
     case loc_size dst of
       Some Qword \<Rightarrow> Run (set_loc dst (shift_value k (n mod 64) a) (s\<lparr>xflags := None\<rparr>))
     | Some Dword \<Rightarrow>
         Run (set_loc dst (ucast (shift_value k (n mod 32) (ucast a :: u32))) (s\<lparr>xflags := None\<rparr>))
     | _ \<Rightarrow> Undefined)"

definition exec_unary :: "bool \<Rightarrow> Location \<Rightarrow> x86_state \<Rightarrow> x86_outcome" where
  "exec_unary neg dst s =
    (case loc_size dst of
       None \<Rightarrow> Undefined
     | Some z \<Rightarrow>
         (let a = get_loc dst s; v = trunc z (if neg then - a else NOT a) in
          Run (if neg then (set_loc dst v s)\<lparr>xflags := None\<rparr> else set_loc dst v s)))"

text \<open>The widening multiplications of 64 bits, to \<open>rdx:rax\<close>.\<close>

definition exec_mul :: "bool \<Rightarrow> Location \<Rightarrow> x86_state \<Rightarrow> x86_outcome" where
  "exec_mul signd src s =
    (case loc_size src of
       Some Qword \<Rightarrow>
         (let a = gpr s 0; b = get_loc src s;
              p = (if signd then scast a * scast b else ucast a * ucast b) :: u128
          in Run (s\<lparr>gpr := (gpr s)(0 := ucast p, 2 := ucast (drop_bit 64 p)), xflags := None\<rparr>))
     | _ \<Rightarrow> Undefined)"

text \<open>Division of \<open>rdx:rax\<close> or \<open>edx:eax\<close>.\<close>

definition exec_div :: "bool \<Rightarrow> Location \<Rightarrow> x86_state \<Rightarrow> x86_outcome" where
  "exec_div signd src s =
    (case loc_size src of
       Some Qword \<Rightarrow>
         (let b = get_loc src s;
              n = (if signd then sint (gpr s 2) else uint (gpr s 2)) * 2 ^ 64 + uint (gpr s 0);
              d = (if signd then sint b else uint b);
              q = (if signd then n sdiv d else n div d);
              r = (if signd then n smod d else n mod d)
          in
          if d = 0 \<or> (if signd then q < - (2 ^ 63) \<or> 2 ^ 63 \<le> q else 2 ^ 64 \<le> q) then DivideError
          else Run (s\<lparr>gpr := (gpr s)(0 := word_of_int q, 2 := word_of_int r), xflags := None\<rparr>))
     | Some Dword \<Rightarrow>
         (let b = ucast (get_loc src s) :: u32;
              hi = ucast (gpr s 2) :: u32; lo = ucast (gpr s 0) :: u32;
              n = (if signd then sint hi else uint hi) * 2 ^ 32 + uint lo;
              d = (if signd then sint b else uint b);
              q = (if signd then n sdiv d else n div d);
              r = (if signd then n smod d else n mod d)
          in
          if d = 0 \<or> (if signd then q < - (2 ^ 31) \<or> 2 ^ 31 \<le> q else 2 ^ 32 \<le> q) then DivideError
          else Run (s\<lparr>gpr := (gpr s)(0 := ucast (word_of_int q :: u32), 2 := ucast (word_of_int r :: u32)),
                 xflags := None\<rparr>))
     | _ \<Rightarrow> Undefined)"

text \<open>The two operations that compare or add and exchange.\<close>

definition accumulator :: "Size \<Rightarrow> Register" where
  "accumulator z = (case z of Byte \<Rightarrow> GPB 0 | Word \<Rightarrow> GPW 0 | Dword \<Rightarrow> GPD 0 | Qword \<Rightarrow> GPQ 0)"

definition exec_cmpxchg :: "Location \<Rightarrow> Register \<Rightarrow> x86_state \<Rightarrow> x86_outcome" where
  "exec_cmpxchg dst src s =
    (case loc_size dst of
       None \<Rightarrow> Undefined
     | Some z \<Rightarrow>
         (let acc = get_register (accumulator z) s; cur = get_loc dst s;
              f = snd (alu_of_size Alu_sub z acc cur);
              s' = (if acc = cur then set_loc dst (get_register src s) s
                    else set_register (accumulator z) cur s)
          in Run (s'\<lparr>xflags := f\<rparr>)))"

definition exec_xadd :: "Location \<Rightarrow> Register \<Rightarrow> x86_state \<Rightarrow> x86_outcome" where
  "exec_xadd dst src s =
    (case loc_size dst of
       None \<Rightarrow> Undefined
     | Some z \<Rightarrow>
         (let old = get_loc dst s; v = fst (alu_of_size Alu_add z old (get_register src s)) in
          Run ((case dst of
                  LMem m \<Rightarrow> set_register src old (set_loc dst v s)
                | LReg r \<Rightarrow> set_register r v (set_register src old s))\<lparr>xflags := None\<rparr>)))"

section \<open>Conditions\<close>

fun condition :: "ConditionCode \<Rightarrow> x86_flags \<Rightarrow> bool option" where
  "condition ConditionCode.Overflow f = Some (of_x f)"
| "condition NotOverflow f = Some (\<not> of_x f)"
| "condition Below f = Some (cf f)"
| "condition AboveEqual f = Some (\<not> cf f)"
| "condition ConditionCode.Equal f = Some (zf f)"
| "condition NotEqual f = Some (\<not> zf f)"
| "condition BelowEqual f = Some (cf f \<or> zf f)"
| "condition Above f = Some (\<not> cf f \<and> \<not> zf f)"
| "condition Sign f = Some (sf f)"
| "condition NotSign f = Some (\<not> sf f)"
| "condition Parity f = None"
| "condition NotParity f = None"
| "condition ConditionCode.Less f = Some (sf f \<noteq> of_x f)"
| "condition GreaterEqual f = Some (sf f = of_x f)"
| "condition LessEqual f = Some (zf f \<or> sf f \<noteq> of_x f)"
| "condition ConditionCode.Greater f = Some (\<not> zf f \<and> sf f = of_x f)"

definition holds :: "ConditionCode \<Rightarrow> x86_state \<Rightarrow> bool option" where
  "holds cc s = Option.bind (xflags s) (condition cc)"

section \<open>Operations\<close>

text \<open>An operation that only sets registers, memory and flags and goes on with the next one.\<close>

fun x86_exec :: "X86Op \<Rightarrow> x86_state \<Rightarrow> x86_outcome" where
  "x86_exec (Add_x d v) s = exec_alu Alu_add True d v s"
| "x86_exec (Sub_x d v) s = exec_alu Alu_sub True d v s"
| "x86_exec (And_x d v) s = exec_alu Alu_and True d v s"
| "x86_exec (Or_x d v) s = exec_alu Alu_or True d v s"
| "x86_exec (Xor_x d v) s = exec_alu Alu_xor True d v s"
| "x86_exec (Cmp_x d v) s = exec_alu Alu_sub False d v s"
| "x86_exec (Test_x d v) s = exec_alu Alu_and False d v s"
| "x86_exec (Imul2_x r l) s = exec_alu Alu_mul True (LReg r) (operand_of_loc l) s"
| "x86_exec (Shl_x d v) s = exec_shift Shift_left d v s"
| "x86_exec (Shr_x d v) s = exec_shift Shift_right d v s"
| "x86_exec (Sar_x d v) s = exec_shift Shift_arith d v s"
| "x86_exec (Neg_x d) s = exec_unary True d s"
| "x86_exec (Not_x d) s = exec_unary False d s"
| "x86_exec (Mul_x l) s = exec_mul False l s"
| "x86_exec (Imul1_x l) s = exec_mul True l s"
| "x86_exec (Div_x l) s = exec_div False l s"
| "x86_exec (Idiv_x l) s = exec_div True l s"
| "x86_exec Cdqe_x s = Run (s\<lparr>gpr := (gpr s)(0 := sign_extend Dword (gpr s 0))\<rparr>)"
| "x86_exec Cdq_x s = Run (s\<lparr>gpr := (gpr s)(2 := if (ucast (gpr s 0) :: u32) <s 0 then 0xFFFFFFFF else 0)\<rparr>)"
| "x86_exec Cqo_x s = Run (s\<lparr>gpr := (gpr s)(2 := if gpr s 0 <s 0 then - 1 else 0)\<rparr>)"
| "x86_exec (Mov_x d v) s =
    (case loc_size d of None \<Rightarrow> Undefined | Some z \<Rightarrow> Run (set_loc d (get_operand z v s) s))"
| "x86_exec (Movsx_x r l) s =
    (case loc_size l of None \<Rightarrow> Undefined | Some z \<Rightarrow> Run (set_register r (sign_extend z (get_loc l s)) s))"
| "x86_exec (Movzx_x r l) s = Run (set_register r (get_loc l s) s)"
| "x86_exec (Lea_x r m) s =
    (if m_base m = Some RIP then Undefined else Run (set_register r (effective_address m s) s))"
| "x86_exec (Setcc_x l cc) s =
    (case holds cc s of None \<Rightarrow> Undefined | Some b \<Rightarrow> Run (set_loc l (of_flag b) s))"
| "x86_exec (Cmovcc_x r l cc) s =
    (case holds cc s of
       None \<Rightarrow> Undefined
     | Some b \<Rightarrow> Run (set_register r (if b then get_loc l s else get_register r s) s))"
| "x86_exec (Xchg_x (LMem m) b) s = Run (set_loc b (get_loc (LMem m) s) (set_loc (LMem m) (get_loc b s) s))"
| "x86_exec (Xchg_x (LReg r) b) s = Run (set_register r (get_loc b s) (set_loc b (get_register r s) s))"
| "x86_exec (Cmpxchg_x l r) s = exec_cmpxchg l r s"
| "x86_exec (Xadd_x l r) s = exec_xadd l r s"
| "x86_exec Mfence_x s = Run s"
| "x86_exec Lock_x s = Run s"
| "x86_exec Nop_x s = Run s"
| "x86_exec op s = Undefined"

section \<open>Normal forms\<close>

text \<open>What the decoder returns for the bytes of an operation has the effect of the operation.\<close>

lemma ucast_scast_same [simp]:
  fixes w :: "'a::len word"
  assumes "LENGTH('a) \<le> LENGTH('b)"
  shows "ucast (scast w :: 'b::len word) = w"
proof (rule bit_word_eqI)
  fix n
  assume "n < LENGTH('a)"
  then have "min n (LENGTH('a) - 1) = n" by simp
  then show "bit (ucast (scast w :: 'b word) :: 'a word) n = bit w n"
    using \<open>n < LENGTH('a)\<close> assms by (simp add: bit_simps)
qed

lemma trunc_canon: "check_imm_size z imm = Some u \<Longrightarrow> trunc z (imm_of_size (cap_to_dword z) imm) = trunc z imm"
  by (cases z) (simp_all add: trunc_def imm_of_size_def cap_to_dword_def check_imm_size_def
      imm_of_size_qword [unfolded cap_to_dword_def, simplified, unfolded imm_of_size_def, simplified])

lemma get_operand_canon:
  assumes "loc_size d = Some z" "\<And>imm. v = OImm imm \<Longrightarrow> \<exists>u. check_imm_size z imm = Some u"
  shows "get_operand z (canon_src d v) s = get_operand z v s"
  using assms trunc_canon by (cases v) (auto simp: canon_src_def)

lemma exec_alu_canon:
  assumes "\<And>z imm. loc_size d = Some z \<Longrightarrow> v = OImm imm \<Longrightarrow> \<exists>u. check_imm_size z imm = Some u"
  shows "exec_alu k w d (canon_src d v) s = exec_alu k w d v s"
  using assms get_operand_canon [of d _ v s] by (cases "loc_size d") (auto simp: exec_alu_def)

lemma emit_alu_imm:
  "emit_alu d (OImm imm) k = Some bs \<Longrightarrow> loc_size d = Some z \<Longrightarrow> \<exists>u. check_imm_size z imm = Some u"
  by (auto simp: emit_alu_def Option.bind_eq_Some_conv)

lemma emit_test_imm:
  "emit_test d (OImm imm) = Some bs \<Longrightarrow> loc_size d = Some z \<Longrightarrow> \<exists>u. check_imm_size z imm = Some u"
  by (auto simp: emit_test_def Option.bind_eq_Some_conv)

lemma fits_u32_ucast: "fits_u32 imm \<Longrightarrow> ucast (ucast imm :: u32) = imm" for imm :: u64
proof (rule bit_word_eqI)
  fix n
  assume f: "fits_u32 imm" and n: "n < LENGTH(64)"
  have "\<not> bit imm n" if "32 \<le> n"
  proof -
    have "uint imm = sint imm"
      using f uint_sint [of imm] by (auto simp: fits_u32_def word_sless_alt)
    then have "unat imm < 2 ^ 32" using f by (simp add: fits_u32_def unat_eq_nat_uint nat_less_iff)
    then show ?thesis using less_pow2_bit that by blast
  qed
  then show "bit (ucast (ucast imm :: u32) :: u64) n = bit imm n"
    using n by (cases "n < 32") (simp_all add: bit_simps)
qed

lemma exec_mov_canon:
  assumes "emit_mov d v = Some bs"
  shows "x86_exec (canon_mov d v) s = x86_exec (Mov_x d v) s"
proof (cases "\<exists>imm. v = OImm imm")
  case True
  then obtain imm where v: "v = OImm imm" by blast
  show ?thesis
  proof (cases d)
    case (LMem m)
    then show ?thesis
      using assms v get_operand_canon [of d "m_size m" v s]
      by (auto simp: canon_mov_def emit_mov_def emit_mov_imm_rm_def Option.bind_eq_Some_conv)
  next
    case (LReg r)
    show ?thesis
      using assms v LReg
      by (cases r) (auto simp: canon_mov_def canon_src_def trunc_def imm_of_size_def cap_to_dword_def
          fits_u32_ucast)
  qed
next
  case False
  then have "canon_mov d v = Mov_x d v"
    by (cases v; cases d) (auto simp: canon_mov_def canon_src_def split: Register.splits)
  then show ?thesis by simp
qed

lemma x86_exec_canon:
  assumes "x86_encode op = Some bs" "x86_decodable op"
  shows "x86_exec (x86_canon op) s = x86_exec op s"
proof (cases op)
  case (Xchg_x d v)
  then show ?thesis using assms by (cases d; cases v) (simp_all add: emit_xchg_def)
next
  case (Lea_x r m)
  then show ?thesis
    by (simp add: canon_lea_def effective_address_def split: option.split)
next
  case (Mov_x d v)
  then show ?thesis using assms exec_mov_canon by simp
next
  case (Test_x d v)
  then show ?thesis using assms emit_test_imm by (auto intro!: exec_alu_canon)
qed (use assms emit_alu_imm in \<open>auto intro!: exec_alu_canon\<close>)

end
