(* ===== verification/Signal.thy ===== *)
theory Signal
  imports X86_Semantics
begin

text \<open>
  The signal handlers of \<open>src/emu/signal.rs\<close>. Translated code divides with the host's instructions and
  touches device addresses with plain loads and stores; the host then raises \<open>SIGFPE\<close> or \<open>SIGSEGV\<close>, and
  the handlers decode the instruction and do what the guest instruction means.

  \<^item> \<open>ucontext\<close> is the part of \<open>ucontext_t\<close> the handlers touch. The registers are indexed by their number
    in an instruction, as through \<open>REG_LIST\<close>; \<open>umem\<close> is host memory.
  \<^item> \<open>MemReader\<close> reads the bytes at the instruction pointer; here they are the argument \<open>code\<close>, and
    \<open>reader.0\<close> is the pointer plus the number of bytes the decoder took.
  \<^item> \<open>None\<close> is a panic: of the decoder, \<open>unimplemented!\<close> and \<open>unreachable!\<close>. \<open>Register::size\<close> of \<open>RIP\<close> is
    one of them.
  \<^item> \<open>host_step\<close> and \<open>host_steps\<close> are the specification of a host with these handlers installed.
\<close>

record ucontext =
  gregs :: "reg_index \<Rightarrow> u64"
  greg_rip :: u64
  umem :: memory

section \<open>Operands\<close>

text \<open>The sum of base and index is multiplied by the scale, as in the code.\<close>

definition eval_memory_location :: "ucontext \<Rightarrow> Memory \<Rightarrow> u64" where
  "eval_memory_location ctx m =
    (let a0 = scast (m_displacement m);
         a1 = (case m_base m of None \<Rightarrow> a0 | Some b \<Rightarrow> a0 + gregs ctx (reg_id b))
     in case m_index m of None \<Rightarrow> a1 | Some (i, scale) \<Rightarrow> (a1 + gregs ctx (reg_id i)) * ucast scale)"

definition read_location :: "ucontext \<Rightarrow> Location \<Rightarrow> u64 option" where
  "read_location ctx loc =
    (case loc of
       LReg reg \<Rightarrow>
         map_option (\<lambda>z. case z of
             Qword \<Rightarrow> gregs ctx (reg_id reg)
           | Dword \<Rightarrow> ucast (ucast (gregs ctx (reg_id reg)) :: u32)
           | Word \<Rightarrow> ucast (ucast (gregs ctx (reg_id reg)) :: u16)
           | Byte \<Rightarrow>
               if is_high_byte (reg_num reg)
               then ucast (ucast (signed_drop_bit 8 (gregs ctx (reg_id reg AND 7))) :: u8)
               else ucast (ucast (gregs ctx (reg_id reg)) :: u8)) (reg_size reg)
     | LMem m \<Rightarrow> Some (load_bytes (size_bytes (m_size m)) (umem ctx) (eval_memory_location ctx m)))"

definition write_location :: "ucontext \<Rightarrow> Location \<Rightarrow> u64 \<Rightarrow> ucontext option" where
  "write_location ctx loc val =
    (case loc of
       LReg reg \<Rightarrow>
         map_option (\<lambda>z.
           let i = (if z = Byte \<and> is_high_byte (reg_num reg) then reg_id reg AND 7 else reg_id reg);
               slot = gregs ctx i;
               v = (case z of
                      Qword \<Rightarrow> val
                    | Dword \<Rightarrow> ucast (ucast val :: u32)
                    | Word \<Rightarrow> (slot AND NOT 0xFFFF) OR (val AND 0xFFFF)
                    | Byte \<Rightarrow>
                        if is_high_byte (reg_num reg)
                        then (slot AND NOT 0xFF00) OR push_bit 8 (val AND 0xFF)
                        else (slot AND NOT 0xFF) OR (val AND 0xFF))
           in ctx\<lparr>gregs := (gregs ctx)(i := v)\<rparr>) (reg_size reg)
     | LMem m \<Rightarrow>
         Some (ctx\<lparr>umem := store_bytes (size_bytes (m_size m)) (eval_memory_location ctx m) val (umem ctx)\<rparr>))"

section \<open>Handlers\<close>

definition resume_at :: "u8 list \<Rightarrow> u8 list \<Rightarrow> ucontext \<Rightarrow> ucontext" where
  "resume_at code left ctx = ctx\<lparr>greg_rip := greg_rip ctx + of_nat (length code - length left)\<rparr>"

text \<open>The result of a division that faulted, for the divisor \<open>opr\<close>.\<close>

definition divide_fixup :: "Location \<Rightarrow> ucontext \<Rightarrow> ucontext option" where
  "divide_fixup opr ctx = do {
     opsize \<leftarrow> loc_size opr;
     divisor \<leftarrow> read_location ctx opr;
     let dividend = (if opsize = Dword then ucast (ucast (gregs ctx 0) :: u32) else gregs ctx 0);
     Some (if divisor = 0
       then ctx\<lparr>gregs := (gregs ctx)(0 := if opsize = Qword then - 1 else 0xFFFFFFFF, 2 := dividend)\<rparr>
       else ctx\<lparr>gregs := (gregs ctx)(0 := dividend, 2 := 0)\<rparr>)
   }"

definition handle_fpe :: "u8 list \<Rightarrow> ucontext \<Rightarrow> ucontext option" where
  "handle_fpe code ctx = do {
     (op, left) \<leftarrow> x86_decode code;
     opr \<leftarrow> (case op of Div_x opr \<Rightarrow> Some opr | Idiv_x opr \<Rightarrow> Some opr | _ \<Rightarrow> None);
     ctx \<leftarrow> divide_fixup opr ctx;
     Some (resume_at code left ctx)
   }"

text \<open>The access of a device: a load or a store that touched an address below \<open>IO_BOUNDARY\<close>.\<close>

definition io_load :: "Env \<Rightarrow> Devices \<Rightarrow> u64 \<Rightarrow> Size \<Rightarrow> System \<Rightarrow> (u64 \<times> System) option" where
  "io_load env dev addr z sys =
    (case io_read env dev addr (size_bytes z) sys of Ok v sys \<Rightarrow> Some (v, sys) | _ \<Rightarrow> None)"

definition handle_segv ::
    "Env \<Rightarrow> Devices \<Rightarrow> u8 list \<Rightarrow> ucontext \<Rightarrow> System \<Rightarrow> (ucontext \<times> System) option" where
  "handle_segv env dev code ctx sys = do {
     (op, left) \<leftarrow> x86_decode code;
     (ctx, sys) \<leftarrow>
       (case op of
          Mov_x (LReg reg) (OMem m) \<Rightarrow> do {
            (v, sys) \<leftarrow> io_load env dev (eval_memory_location ctx m) (m_size m) sys;
            ctx \<leftarrow> write_location ctx (LReg reg) v;
            Some (ctx, sys)
          }
        | Movzx_x reg (LMem m) \<Rightarrow> do {
            (v, sys) \<leftarrow> io_load env dev (eval_memory_location ctx m) (m_size m) sys;
            ctx \<leftarrow> write_location ctx (LReg reg) v;
            Some (ctx, sys)
          }
        | Mov_x (LMem m) (OReg reg) \<Rightarrow> do {
            v \<leftarrow> read_location ctx (LReg reg);
            (case io_write env dev (eval_memory_location ctx m) v (size_bytes (m_size m)) sys of
               Ok u sys \<Rightarrow> Some (ctx, sys)
             | _ \<Rightarrow> None)
          }
        | Movsx_x reg (LMem m) \<Rightarrow> do {
            (v, sys) \<leftarrow> io_load env dev (eval_memory_location ctx m) (m_size m) sys;
            v \<leftarrow> (case m_size m of
                    Qword \<Rightarrow> None
                  | Dword \<Rightarrow> Some (scast (ucast v :: u32))
                  | Word \<Rightarrow> Some (scast (ucast v :: u16))
                  | Byte \<Rightarrow> Some (scast (ucast v :: u8)));
            ctx \<leftarrow> write_location ctx (LReg reg) v;
            Some (ctx, sys)
          }
        | _ \<Rightarrow> None);
     Some (resume_at code left ctx, sys)
   }"

section \<open>The host with the handlers\<close>

definition deliver_fpe :: "u8 list \<Rightarrow> nat \<Rightarrow> x86_state \<Rightarrow> (nat \<times> x86_state) option" where
  "deliver_fpe code pos s =
    map_option (\<lambda>u. (unat (greg_rip u), s\<lparr>gpr := gregs u\<rparr>))
      (handle_fpe (drop pos code) \<lparr>gregs = gpr s, greg_rip = of_nat pos, umem = xmem s\<rparr>)"

text \<open>One step at a position of the code. Jumps inside the code are taken; a position outside of it is
  the end of the run. A call leaves the code, for a helper, and has no step.\<close>

definition jump_to :: "u8 list \<Rightarrow> nat \<Rightarrow> i64 \<Rightarrow> x86_state \<Rightarrow> (nat \<times> x86_state) option" where
  "jump_to code pos d s =
    (let t = int pos + sint d in if 0 \<le> t \<and> t \<le> int (length code) then Some (nat t, s) else None)"

definition host_step :: "u8 list \<Rightarrow> nat \<times> x86_state \<Rightarrow> (nat \<times> x86_state) option" where
  "host_step code ps =
    (let (pos, s) = ps in
     case x86_decode (drop pos code) of
       None \<Rightarrow> None
     | Some (op, left) \<Rightarrow>
         (let pos' = length code - length left in
          case op of
            Jcc_x d cc \<Rightarrow>
              (case holds cc s of
                 None \<Rightarrow> None
               | Some b \<Rightarrow> if b then jump_to code pos' (scast d) s else Some (pos', s))
          | Jmp_x (OImm d) \<Rightarrow> jump_to code pos' d s
          | _ \<Rightarrow>
              (case x86_exec op s of
                 Run s' \<Rightarrow> Some (pos', s')
               | DivideError \<Rightarrow> deliver_fpe code pos s
               | Undefined \<Rightarrow> None)))"

inductive host_steps :: "u8 list \<Rightarrow> nat \<times> x86_state \<Rightarrow> nat \<times> x86_state \<Rightarrow> bool" for code where
  refl: "host_steps code ps ps"
| step: "host_step code ps = Some qs \<Longrightarrow> host_steps code qs rs \<Longrightarrow> host_steps code ps rs"

section \<open>Running encoded operations\<close>

text \<open>The effect of an operation when a divide error is handled.\<close>

definition exec_handled :: "X86Op \<Rightarrow> x86_state \<Rightarrow> x86_state option" where
  "exec_handled op s =
    (case x86_exec op s of
       Run s' \<Rightarrow> Some s'
     | DivideError \<Rightarrow>
         (case op of
            Div_x opr \<Rightarrow>
              map_option (\<lambda>u. s\<lparr>gpr := gregs u\<rparr>) (divide_fixup opr \<lparr>gregs = gpr s, greg_rip = 0, umem = xmem s\<rparr>)
          | Idiv_x opr \<Rightarrow>
              map_option (\<lambda>u. s\<lparr>gpr := gregs u\<rparr>) (divide_fixup opr \<lparr>gregs = gpr s, greg_rip = 0, umem = xmem s\<rparr>)
          | _ \<Rightarrow> None)
     | Undefined \<Rightarrow> None)"

primrec exec_all :: "X86Op list \<Rightarrow> x86_state \<Rightarrow> x86_state option" where
  "exec_all [] s = Some s"
| "exec_all (op # ops) s = Option.bind (exec_handled op s) (exec_all ops)"

lemma exec_all_append: "exec_all (xs @ ys) s = Option.bind (exec_all xs s) (exec_all ys)"
proof (induction xs arbitrary: s)
  case (Cons op xs)
  then show ?case by (cases "exec_handled op s") simp_all
qed simp

lemma host_steps_trans: "host_steps code a b \<Longrightarrow> host_steps code b d \<Longrightarrow> host_steps code a d"
  by (induction rule: host_steps.induct) (auto intro: host_steps.step)

lemma read_location_rip:
  "read_location \<lparr>gregs = g, greg_rip = r, umem = m\<rparr> opr = read_location \<lparr>gregs = g, greg_rip = 0, umem = m\<rparr> opr"
  by (cases opr) (simp_all add: read_location_def eval_memory_location_def Let_def split: option.split del: is_high_byte_reg)

lemma divide_fixup_rip:
  "divide_fixup opr \<lparr>gregs = g, greg_rip = r, umem = m\<rparr> =
    map_option (\<lambda>u. u\<lparr>greg_rip := r\<rparr>) (divide_fixup opr \<lparr>gregs = g, greg_rip = 0, umem = m\<rparr>)"
  using read_location_rip [of g r m opr]
  by (cases "loc_size opr"; cases "read_location \<lparr>gregs = g, greg_rip = 0, umem = m\<rparr> opr")
    (simp_all add: divide_fixup_def Let_def)

lemma host_step_plain:
  assumes "x86_decode (drop pos code) = Some (op, left)" "x86_exec op s \<noteq> Undefined"
  shows "host_step code (pos, s) =
    (case x86_exec op s of
       Run s' \<Rightarrow> Some (length code - length left, s')
     | DivideError \<Rightarrow> deliver_fpe code pos s
     | Undefined \<Rightarrow> None)"
  using assms by (cases op) (simp_all add: host_step_def Let_def)

lemma host_step_encoded:
  assumes enc: "x86_encode op = Some bs" and dec: "x86_decodable op"
    and ex: "exec_handled op s = Some s'" and len: "length (pre @ bs @ post) < 2 ^ 64"
  shows "host_step (pre @ bs @ post) (length pre, s) = Some (length pre + length bs, s')"
proof -
  have d: "x86_decode (drop (length pre) (pre @ bs @ post)) = Some (x86_canon op, post)"
    using x86_decode_encoded [OF enc dec] by simp
  have pos: "length (pre @ bs @ post) - length post = length pre + length bs" by simp
  have x: "x86_exec (x86_canon op) s = x86_exec op s" using enc dec by (rule x86_exec_canon)
  have plain: "host_step (pre @ bs @ post) (length pre, s) =
      (case x86_exec op s of
         Run s' \<Rightarrow> Some (length pre + length bs, s')
       | DivideError \<Rightarrow> deliver_fpe (pre @ bs @ post) (length pre) s
       | Undefined \<Rightarrow> None)"
  proof -
    have nd: "x86_exec (x86_canon op) s \<noteq> Undefined" unfolding x using ex by (auto simp: exec_handled_def)
    show ?thesis using host_step_plain [OF d nd] unfolding x pos .
  qed
  show ?thesis
  proof (cases "x86_exec op s")
    case (Run t)
    then show ?thesis using plain ex by (simp add: exec_handled_def)
  next
    case DivideError
    obtain opr u where o: "op = Div_x opr \<or> op = Idiv_x opr" and s': "s' = s\<lparr>gpr := gregs u\<rparr>"
      and u: "divide_fixup opr \<lparr>gregs = gpr s, greg_rip = 0, umem = xmem s\<rparr> = Some u"
      using ex DivideError by (auto simp: exec_handled_def split: X86Op.splits)
    have "greg_rip u = 0"
      using u by (auto simp: divide_fixup_def Let_def Option.bind_eq_Some_conv)
    moreover have "unat (of_nat (length pre) + of_nat (length bs) :: u64) = length pre + length bs"
      using len by (simp flip: of_nat_add add: unat_of_nat)
    ultimately have "deliver_fpe (pre @ bs @ post) (length pre) s = Some (length pre + length bs, s')"
      using o d u s' divide_fixup_rip [of opr "gpr s" "of_nat (length pre)" "xmem s"]
      by (auto simp: deliver_fpe_def handle_fpe_def resume_at_def)
    then show ?thesis using plain DivideError by simp
  next
    case Undefined
    then show ?thesis using ex by (simp add: exec_handled_def)
  qed
qed

end
