(* ===== verification/Pipeline.thy ===== *)
theory Pipeline
  imports Riscv_Op
begin

text \<open>
  The pipeline models of \<open>src/sim/pipeline\<close>: how many cycles the translator accounts for an
  instruction. A hook calls \<open>compiler.insert_cycle_count\<close> at most once; here it returns the count,
  0 when it does not call it, together with the model it leaves behind.
\<close>

datatype (plugins only: code size) PipelineModel =
  AtomicPipeline | SimplePipeline | InOrderModel u8

definition can_fuse_cond_op :: "PipelineModel \<Rightarrow> bool" where
  "can_fuse_cond_op pm = (case pm of InOrderModel _ \<Rightarrow> False | _ \<Rightarrow> True)"

definition begin_block :: "PipelineModel \<Rightarrow> u64 \<Rightarrow> u64" where
  "begin_block pm pc = (case pm of InOrderModel _ \<Rightarrow> if pc mod 4 \<noteq> 0 then 1 else 0 | _ \<Rightarrow> 0)"

definition before_instruction :: "PipelineModel \<Rightarrow> Op \<Rightarrow> u64 \<times> PipelineModel" where
  "before_instruction pm op =
    (case pm of
       InOrderModel stall_reg \<Rightarrow>
         (let (rd, rs1, rs2) = get_regs op in
          (if stall_reg \<noteq> 0 \<and> (stall_reg = rs1 \<or> stall_reg = rs2) then 1 else 0, InOrderModel rd))
     | _ \<Rightarrow> (0, pm))"

text \<open>The cycles of an instruction, and whether its result stalls the next instruction that reads it.\<close>

definition op_cycle :: "Op \<Rightarrow> u64 \<times> bool" where
  "op_cycle op =
    (case op of
       Illegal \<Rightarrow> (1, False)
     | Lui _ _ \<Rightarrow> (1, False)
     | Auipc _ _ \<Rightarrow> (1, False)
     | Jal _ _ \<Rightarrow> (1, False)
     | OpBranch _ _ _ imm \<Rightarrow> (if 0 \<le>s imm then 1 else 4, False)
     | OpLoad _ _ _ _ \<Rightarrow> (1, True)
     | Jalr _ _ _ \<Rightarrow> (4, False)
     | Fence \<Rightarrow> (1, False)
     | FenceI \<Rightarrow> (5, False)
     | Ecall \<Rightarrow> (1, False)
     | Ebreak \<Rightarrow> (1, False)
     | Mret \<Rightarrow> (5, False)
     | Sret \<Rightarrow> (5, False)
     | Wfi \<Rightarrow> (1, False)
     | SfenceVma _ _ \<Rightarrow> (1, False)
     | OpStore _ _ _ _ \<Rightarrow> (1, False)
     | OpImm _ _ _ _ \<Rightarrow> (1, False)
     | OpImm32 _ _ _ _ \<Rightarrow> (1, False)
     | OpReg _ _ _ _ \<Rightarrow> (1, False)
     | OpReg32 _ _ _ _ \<Rightarrow> (1, False)
     | OpMul k _ _ _ \<Rightarrow>
         (case k of Mul_k \<Rightarrow> 11 | Mulh_k \<Rightarrow> 17 | Mulhsu_k \<Rightarrow> 17 | Mulhu_k \<Rightarrow> 17 | _ \<Rightarrow> 65, True)
     | OpMul32 k _ _ _ \<Rightarrow> (case k of Mulw_k \<Rightarrow> 4 | _ \<Rightarrow> 33, True)
     | OpCsr _ _ _ _ \<Rightarrow> (1, True)
     | OpCsrI _ _ _ _ \<Rightarrow> (1, True)
     | OpLr _ _ _ _ \<Rightarrow> (1, True)
     | OpAmo _ _ _ _ _ _ \<Rightarrow> (1, True)
     | _ \<Rightarrow> (1000, False))"

definition after_instruction :: "PipelineModel \<Rightarrow> Op \<Rightarrow> u64 \<times> PipelineModel" where
  "after_instruction pm op =
    (case pm of
       AtomicPipeline \<Rightarrow> (0, pm)
     | SimplePipeline \<Rightarrow> (1, pm)
     | InOrderModel rd \<Rightarrow> (let (n, stall) = op_cycle op in (n, InOrderModel (if stall then rd else 0))))"

text \<open>\<open>None\<close> is \<open>unreachable!()\<close>: the in-order model is asked about a branch only.\<close>

definition after_taken_branch :: "PipelineModel \<Rightarrow> Op \<Rightarrow> u64 option" where
  "after_taken_branch pm op =
    (case pm of
       AtomicPipeline \<Rightarrow> Some 0
     | SimplePipeline \<Rightarrow> Some 1
     | InOrderModel _ \<Rightarrow>
         (case op of OpBranch _ _ _ imm \<Rightarrow> Some (if imm <s 0 then 1 else 4) | _ \<Rightarrow> None))"

section \<open>Stalls\<close>

text \<open>
  The cycles the in-order model counts for a sequence of instructions that is executed without a taken
  branch. The specification looks back at the instruction before: one cycle more when that one was
  a load, a multiplication, an atomic or a CSR access of a register this one reads.
\<close>

fun sequence_cycles :: "PipelineModel \<Rightarrow> Op list \<Rightarrow> u64" where
  "sequence_cycles pm [] = 0"
| "sequence_cycles pm (op # ops) =
    (let (n, pm) = before_instruction pm op; (k, pm) = after_instruction pm op in
     n + k + sequence_cycles pm ops)"

definition depends_on :: "Op \<Rightarrow> Op \<Rightarrow> bool" where
  "depends_on op prev \<longleftrightarrow>
    (let (rd, _, _) = get_regs prev; (_, rs1, rs2) = get_regs op in
     snd (op_cycle prev) \<and> rd \<noteq> 0 \<and> (rd = rs1 \<or> rd = rs2))"

fun spec_cycles :: "Op option \<Rightarrow> Op list \<Rightarrow> u64" where
  "spec_cycles prev [] = 0"
| "spec_cycles prev (op # ops) =
    (case prev of None \<Rightarrow> 0 | Some p \<Rightarrow> if depends_on op p then 1 else 0)
    + fst (op_cycle op) + spec_cycles (Some op) ops"

lemma sequence_cycles_after:
  "sequence_cycles (InOrderModel (if snd (op_cycle p) then fst (get_regs p) else 0)) ops
    = spec_cycles (Some p) ops"
proof (induction ops arbitrary: p)
  case (Cons op ops)
  obtain rd rs1 rs2 where r: "get_regs op = (rd, rs1, rs2)" by (cases "get_regs op") auto
  obtain n st where o: "op_cycle op = (n, st)" by (cases "op_cycle op") auto
  obtain pd p1 p2 where p: "get_regs p = (pd, p1, p2)" by (cases "get_regs p") auto
  show ?case
    using Cons.IH [of op]
    by (auto simp: before_instruction_def after_instruction_def depends_on_def r o p Let_def)
qed simp

lemma sequence_cycles_spec: "sequence_cycles (InOrderModel 0) ops = spec_cycles None ops"
proof (cases ops)
  case (Cons op ops')
  obtain rd rs1 rs2 where r: "get_regs op = (rd, rs1, rs2)" by (cases "get_regs op") auto
  obtain n st where o: "op_cycle op = (n, st)" by (cases "op_cycle op") auto
  show ?thesis
    using sequence_cycles_after [of op ops']
    by (cases st) (simp_all add: Cons before_instruction_def after_instruction_def r o Let_def)
qed simp

end
