(* ===== verification/Dbt.thy ===== *)
theory Dbt
  imports X86_Encode Pipeline
begin

text \<open>
  The binary translator, \<open>src/emu/dbt.rs\<close>: the compiler state, the emission and patching of host code,
  and the code of the integer instructions. \<open>Dbt_Memory\<close> goes on with memory accesses and atomics,
  \<open>Dbt_Block\<close> with jumps, whole instructions and blocks.

  \<^item> The slice \<open>buffer\<close> with the fill \<open>len\<close> is the list \<open>dc_code\<close> of the bytes written so far, with
    \<open>dc_capacity\<close> the length of the slice and \<open>dc_ptr\<close> its address: \<open>self.len\<close> is the length of the list.
  \<^item> A method takes the compiler last and returns it; \<open>None\<close> is a panic (the buffer is full, the encoder
    refuses an operand, an offset does not fit, \<open>unreachable!\<close>).
  \<^item> \<open>DbtEnv\<close> has what the translator takes from its surroundings: the addresses of the helpers written in
    assembly, the bits of an operation (\<open>transmute\<close>), features and flags, the size of a cache line, and
    the offsets in \<open>Context\<close> that depend on the layout of other types.
  \<^item> The fields of \<open>Context\<close> before \<open>fp_registers\<close> have the offsets their \<open>repr(C)\<close> layout gives.
\<close>

section \<open>State\<close>

datatype (plugins only: code size) helper =
    Helper_read_csr | Helper_write_csr | Helper_riscv_step | Helper_trap | Helper_misalign
  | Helper_translate_cache_miss | Helper_insn_translate_cache_miss | Helper_icache_cross_miss
  | Helper_patch_direct_jump | Helper_check_interrupt | Helper_san_fail | Helper_pred_miss
  | Helper_fiber_yield | Helper_fiber_sleep

record DbtEnv =
  helper_addr :: "helper \<Rightarrow> u64"
  op_bits :: "Op \<Rightarrow> i64"
  dbt_threaded :: bool
  dbt_direct :: bool
  dbt_sanitize :: bool
  dbt_wfi_nop :: bool
  line_log2 :: nat
  off_lr_addr :: i32
  off_lr_value :: i32

type_synonym Label = nat

datatype (plugins only: code size) PlaceHolder = PByte nat | PDword nat

datatype (plugins only: code size) SlowPath =
    SlowDCache u32 bool "PlaceHolder option" PlaceHolder Label
  | SlowICache u32 PlaceHolder Label
  | SlowTrap u32 PlaceHolder

record DbtCompiler =
  dc_code :: "u8 list"
  dc_capacity :: nat
  dc_ptr :: u64
  dc_slow_path :: "SlowPath list"
  dc_pc_start :: u64
  dc_pc_cur :: i64
  dc_pc_end :: i64
  dc_instret :: i32
  dc_minstret :: u32
  dc_cycles :: u64
  dc_model :: PipelineModel
  dc_speculative_len :: nat

definition dbt_new :: "PipelineModel \<Rightarrow> u64 \<Rightarrow> nat \<Rightarrow> DbtCompiler" where
  "dbt_new pm ptr capacity =
    \<lparr>dc_code = [], dc_capacity = capacity, dc_ptr = ptr, dc_slow_path = [], dc_pc_start = 0, dc_pc_cur = 0,
     dc_pc_end = 0, dc_instret = 0, dc_minstret = 0, dc_cycles = 0, dc_model = pm, dc_speculative_len = 0\<rparr>"

definition insert_cycle_count :: "u64 \<Rightarrow> DbtCompiler \<Rightarrow> DbtCompiler" where
  "insert_cycle_count n c = c\<lparr>dc_cycles := dc_cycles c + n\<rparr>"

text \<open>The hooks of the pipeline model, through \<open>with_model\<close>.\<close>

definition model_begin_block :: "u64 \<Rightarrow> DbtCompiler \<Rightarrow> DbtCompiler" where
  "model_begin_block pc c = insert_cycle_count (begin_block (dc_model c) pc) c"

definition model_before_instruction :: "Op \<Rightarrow> DbtCompiler \<Rightarrow> DbtCompiler" where
  "model_before_instruction op c =
    (let (n, pm) = before_instruction (dc_model c) op in insert_cycle_count n (c\<lparr>dc_model := pm\<rparr>))"

definition model_after_instruction :: "Op \<Rightarrow> DbtCompiler \<Rightarrow> DbtCompiler" where
  "model_after_instruction op c =
    (let (n, pm) = after_instruction (dc_model c) op in insert_cycle_count n (c\<lparr>dc_model := pm\<rparr>))"

definition model_after_taken_branch :: "Op \<Rightarrow> DbtCompiler \<Rightarrow> DbtCompiler option" where
  "model_after_taken_branch op c =
    map_option (\<lambda>n. insert_cycle_count n c) (after_taken_branch (dc_model c) op)"

section \<open>Emission\<close>

abbreviation PAGE_CROSS_RESERVATION :: nat where "PAGE_CROSS_RESERVATION \<equiv> 256"

abbreviation off_pc :: i32 where "off_pc \<equiv> 0x100"
abbreviation off_instret :: i32 where "off_instret \<equiv> 0x108"
abbreviation off_minstret :: i32 where "off_minstret \<equiv> 0x120"
abbreviation off_cycle_offset :: i32 where "off_cycle_offset \<equiv> 0x128"
abbreviation off_alarm :: i32 where "off_alarm \<equiv> 0x130"
abbreviation off_line :: i32 where "off_line \<equiv> 0x140"
abbreviation off_i_line :: i32 where "off_i_line \<equiv> 0x4140"

definition memory_of :: "i32 \<Rightarrow> Memory" where
  "memory_of off = reg_add_i32 RBP off"

definition loc_of_register :: "u8 \<Rightarrow> Memory" where
  "loc_of_register reg = reg_add_i32 RBP (ucast reg * 8)"

definition same_page :: "u64 \<Rightarrow> u64 \<Rightarrow> bool" where
  "same_page a b \<longleftrightarrow> drop_bit 12 a = drop_bit 12 b"

definition same_cache_line :: "DbtEnv \<Rightarrow> u64 \<Rightarrow> u64 \<Rightarrow> bool" where
  "same_cache_line de a b \<longleftrightarrow> drop_bit (line_log2 de) a = drop_bit (line_log2 de) b"

definition emit :: "X86Op \<Rightarrow> DbtCompiler \<Rightarrow> DbtCompiler option" where
  "emit op c = do {
     bs \<leftarrow> x86_encode op;
     ensure (length (dc_code c) + length bs \<le> dc_capacity c);
     Some (c\<lparr>dc_code := dc_code c @ bs\<rparr>)
   }"

definition emit_jcc_short :: "ConditionCode \<Rightarrow> DbtCompiler \<Rightarrow> (PlaceHolder \<times> DbtCompiler) option" where
  "emit_jcc_short cc c = do { c \<leftarrow> emit (Jcc_x 0 cc) c; Some (PByte (length (dc_code c)), c) }"

definition emit_jcc_long :: "ConditionCode \<Rightarrow> DbtCompiler \<Rightarrow> (PlaceHolder \<times> DbtCompiler) option" where
  "emit_jcc_long cc c = do { c \<leftarrow> emit (Jcc_x 0x80 cc) c; Some (PDword (length (dc_code c)), c) }"

definition emit_jmp_short :: "DbtCompiler \<Rightarrow> (PlaceHolder \<times> DbtCompiler) option" where
  "emit_jmp_short c = do { c \<leftarrow> emit (Jmp_x (OImm 0)) c; Some (PByte (length (dc_code c)), c) }"

definition emit_jmp_long :: "DbtCompiler \<Rightarrow> (PlaceHolder \<times> DbtCompiler) option" where
  "emit_jmp_long c = do { c \<leftarrow> emit (Jmp_x (OImm 0x77777777)) c; Some (PDword (length (dc_code c)), c) }"

definition label :: "DbtCompiler \<Rightarrow> Label" where
  "label c = length (dc_code c)"

text \<open>\<open>copy_from_slice\<close> over the bytes \<open>pos\<close> to \<open>pos + length bs\<close>.\<close>

definition overwrite :: "nat \<Rightarrow> u8 list \<Rightarrow> u8 list \<Rightarrow> u8 list" where
  "overwrite pos bs xs = take pos xs @ bs @ drop (pos + length bs) xs"

definition patch :: "PlaceHolder \<Rightarrow> Label \<Rightarrow> DbtCompiler \<Rightarrow> DbtCompiler option" where
  "patch place l c =
    (case place of
       PByte ptr \<Rightarrow> do {
         let off = int l - int ptr;
         ensure (- 128 \<le> off \<and> off < 128);
         Some (c\<lparr>dc_code := overwrite (ptr - 1) [word_of_int off] (dc_code c)\<rparr>)
       }
     | PDword ptr \<Rightarrow> do {
         let off = int l - int ptr;
         ensure (- (2 ^ 31) \<le> off \<and> off < 2 ^ 31);
         Some (c\<lparr>dc_code := overwrite (ptr - 4) (emit_u32 (word_of_int off)) (dc_code c)\<rparr>)
       })"

definition patch_absolute :: "PlaceHolder \<Rightarrow> u64 \<Rightarrow> DbtCompiler \<Rightarrow> DbtCompiler option" where
  "patch_absolute place target c =
    (case place of
       PByte _ \<Rightarrow> None
     | PDword ptr \<Rightarrow> do {
         let off = target - (dc_ptr c + of_nat ptr);
         ensure (fits_i32 off);
         Some (c\<lparr>dc_code := overwrite (ptr - 4) (emit_u32 (ucast off)) (dc_code c)\<rparr>)
       })"

section \<open>Registers\<close>

text \<open>A location of the register file, in the given size.\<close>

definition reg_slot :: "Size \<Rightarrow> u8 \<Rightarrow> Memory" where
  "reg_slot z r = mem_resize (loc_of_register r) z"

definition load_reg :: "Register \<Rightarrow> u8 \<Rightarrow> DbtCompiler \<Rightarrow> DbtCompiler option" where
  "load_reg reg rs c =
    (if rs = 0 then do {
       reg \<leftarrow> reg_resize reg Dword;
       emit (Xor_x (LReg reg) (OReg reg)) c
     }
     else do {
       z \<leftarrow> reg_size reg;
       emit (Mov_x (LReg reg) (OMem (reg_slot z rs))) c
     })"

definition store_reg :: "u8 \<Rightarrow> Register \<Rightarrow> DbtCompiler \<Rightarrow> DbtCompiler option" where
  "store_reg rd reg c =
    (if rd = 0 then Some c
     else do {
       qreg \<leftarrow> reg_resize reg Qword;
       z \<leftarrow> reg_size reg;
       c \<leftarrow> (case z of
               Qword \<Rightarrow> Some c
             | Dword \<Rightarrow> if reg = EAX then emit Cdqe_x c else emit (Movsx_x qreg (LReg reg)) c
             | _ \<Rightarrow> None);
       emit (Mov_x (LMem (loc_of_register rd)) (OReg qreg)) c
     })"

definition emit_load_imm :: "u8 \<Rightarrow> i32 \<Rightarrow> DbtCompiler \<Rightarrow> DbtCompiler option" where
  "emit_load_imm rd imm c =
    (if rd = 0 then Some c else emit (Mov_x (LMem (loc_of_register rd)) (OImm (scast imm))) c)"

definition emit_move :: "u8 \<Rightarrow> u8 \<Rightarrow> DbtCompiler \<Rightarrow> DbtCompiler option" where
  "emit_move rd rs c =
    (if rd = 0 \<or> rd = rs then Some c
     else if rs = 0 then emit_load_imm rd 0 c
     else do {
       c \<leftarrow> emit (Mov_x (LReg RAX) (OMem (loc_of_register rs))) c;
       emit (Mov_x (LMem (loc_of_register rd)) (OReg RAX)) c
     })"

definition emit_move32 :: "u8 \<Rightarrow> u8 \<Rightarrow> DbtCompiler \<Rightarrow> DbtCompiler option" where
  "emit_move32 rd rs c =
    (if rd = 0 then Some c
     else if rs = 0 then emit_load_imm rd 0 c
     else do {
       c \<leftarrow> emit (Movsx_x RAX (LMem (reg_slot Dword rs))) c;
       emit (Mov_x (LMem (loc_of_register rd)) (OReg RAX)) c
     })"

section \<open>OP-IMM\<close>

definition emit_addi :: "u8 \<Rightarrow> u8 \<Rightarrow> i32 \<Rightarrow> DbtCompiler \<Rightarrow> DbtCompiler option" where
  "emit_addi rd rs1 imm c =
    (if rd = 0 then Some c
     else if rs1 = 0 then emit_load_imm rd imm c
     else if imm = 0 then emit_move rd rs1 c
     else if rd = rs1 then emit (Add_x (LMem (loc_of_register rd)) (OImm (scast imm))) c
     else do {
       c \<leftarrow> emit (Mov_x (LReg RAX) (OMem (loc_of_register rs1))) c;
       c \<leftarrow> emit (Add_x (LReg RAX) (OImm (scast imm))) c;
       emit (Mov_x (LMem (loc_of_register rd)) (OReg RAX)) c
     })"

definition emit_slli :: "u8 \<Rightarrow> u8 \<Rightarrow> i32 \<Rightarrow> DbtCompiler \<Rightarrow> DbtCompiler option" where
  "emit_slli rd rs1 imm c =
    (if rd = 0 then Some c
     else if rs1 = 0 then emit_load_imm rd 0 c
     else if imm = 0 then emit_move rd rs1 c
     else if rd = rs1 then emit (Shl_x (LMem (loc_of_register rd)) (OImm (scast imm))) c
     else do {
       c \<leftarrow> emit (Mov_x (LReg RAX) (OMem (loc_of_register rs1))) c;
       c \<leftarrow> (if imm = 1 then emit (Add_x (LReg RAX) (OReg RAX)) c
             else emit (Shl_x (LReg RAX) (OImm (scast imm))) c);
       emit (Mov_x (LMem (loc_of_register rd)) (OReg RAX)) c
     })"

text \<open>The code does not return after the constant of \<open>rs1 = 0\<close>; nor does \<open>emit_sltiu\<close>.\<close>

definition emit_slti :: "u8 \<Rightarrow> u8 \<Rightarrow> i32 \<Rightarrow> DbtCompiler \<Rightarrow> DbtCompiler option" where
  "emit_slti rd rs1 imm c =
    (if rd = 0 then Some c
     else do {
       c \<leftarrow> (if rs1 = 0 then emit_load_imm rd (if 0 <s imm then 1 else 0) c else Some c);
       if imm = 0 then
         (if rd = rs1 then emit (Shr_x (LMem (loc_of_register rd)) (OImm 63)) c
          else do {
            c \<leftarrow> load_reg RAX rs1 c;
            c \<leftarrow> emit (Shr_x (LReg RAX) (OImm 63)) c;
            store_reg rd RAX c
          })
       else do {
         let (imm, cc) = (if 0 <s imm then (imm - 1, LessEqual) else (imm, ConditionCode.Less));
         c \<leftarrow> emit (Xor_x (LReg EAX) (OReg EAX)) c;
         c \<leftarrow> emit (Cmp_x (LMem (loc_of_register rs1)) (OImm (scast imm))) c;
         c \<leftarrow> emit (Setcc_x (LReg AL) cc) c;
         store_reg rd RAX c
       }
     })"

definition emit_sltiu :: "u8 \<Rightarrow> u8 \<Rightarrow> i32 \<Rightarrow> DbtCompiler \<Rightarrow> DbtCompiler option" where
  "emit_sltiu rd rs1 imm c =
    (if rd = 0 then Some c
     else do {
       c \<leftarrow> (if rs1 = 0 then emit_load_imm rd (if imm \<noteq> 0 then 1 else 0) c else Some c);
       c \<leftarrow> (if imm = 0 then emit_load_imm rd 0 c else Some c);
       let (imm, cc) =
         (if 0 <s imm then (imm - 1, if imm - 1 = 0 then ConditionCode.Equal else BelowEqual)
          else (imm, if imm = - 1 then NotEqual else Below));
       c \<leftarrow> emit (Xor_x (LReg EAX) (OReg EAX)) c;
       c \<leftarrow> emit (Cmp_x (LMem (loc_of_register rs1)) (OImm (scast imm))) c;
       c \<leftarrow> emit (Setcc_x (LReg AL) cc) c;
       store_reg rd RAX c
     })"

definition emit_xori :: "u8 \<Rightarrow> u8 \<Rightarrow> i32 \<Rightarrow> DbtCompiler \<Rightarrow> DbtCompiler option" where
  "emit_xori rd rs1 imm c =
    (if rd = 0 then Some c
     else if rs1 = 0 then emit_load_imm rd imm c
     else if imm = 0 then emit_move rd rs1 c
     else if imm = - 1 then
       (if rd = rs1 then emit (Not_x (LMem (loc_of_register rd))) c
        else do {
          c \<leftarrow> load_reg RAX rs1 c;
          c \<leftarrow> emit (Not_x (LReg RAX)) c;
          store_reg rd RAX c
        })
     else if rd = rs1 then emit (Xor_x (LMem (loc_of_register rd)) (OImm (scast imm))) c
     else do {
       c \<leftarrow> load_reg RAX rs1 c;
       c \<leftarrow> emit (Xor_x (LReg RAX) (OImm (scast imm))) c;
       store_reg rd RAX c
     })"

definition emit_srli :: "u8 \<Rightarrow> u8 \<Rightarrow> i32 \<Rightarrow> DbtCompiler \<Rightarrow> DbtCompiler option" where
  "emit_srli rd rs1 imm c =
    (if rd = 0 then Some c
     else if rs1 = 0 then emit_load_imm rd 0 c
     else if imm = 0 then emit_move rd rs1 c
     else if rd = rs1 then emit (Shr_x (LMem (loc_of_register rd)) (OImm (scast imm))) c
     else do {
       c \<leftarrow> emit (Mov_x (LReg RAX) (OMem (loc_of_register rs1))) c;
       c \<leftarrow> emit (Shr_x (LReg RAX) (OImm (scast imm))) c;
       emit (Mov_x (LMem (loc_of_register rd)) (OReg RAX)) c
     })"

definition emit_srai :: "u8 \<Rightarrow> u8 \<Rightarrow> i32 \<Rightarrow> DbtCompiler \<Rightarrow> DbtCompiler option" where
  "emit_srai rd rs1 imm c =
    (if rd = 0 then Some c
     else if rs1 = 0 then emit_load_imm rd 0 c
     else if imm = 0 then emit_move rd rs1 c
     else if rd = rs1 then emit (Sar_x (LMem (loc_of_register rd)) (OImm (scast imm))) c
     else do {
       c \<leftarrow> emit (Mov_x (LReg RAX) (OMem (loc_of_register rs1))) c;
       c \<leftarrow> emit (Sar_x (LReg RAX) (OImm (scast imm))) c;
       emit (Mov_x (LMem (loc_of_register rd)) (OReg RAX)) c
     })"

definition emit_ori :: "u8 \<Rightarrow> u8 \<Rightarrow> i32 \<Rightarrow> DbtCompiler \<Rightarrow> DbtCompiler option" where
  "emit_ori rd rs1 imm c =
    (if rd = 0 then Some c
     else if rs1 = 0 then emit_load_imm rd imm c
     else if imm = 0 then emit_move rd rs1 c
     else if imm = - 1 then emit_load_imm rd (- 1) c
     else if rd = rs1 then emit (Or_x (LMem (loc_of_register rd)) (OImm (scast imm))) c
     else do {
       c \<leftarrow> load_reg RAX rs1 c;
       c \<leftarrow> emit (Or_x (LReg RAX) (OImm (scast imm))) c;
       store_reg rd RAX c
     })"

definition emit_andi :: "u8 \<Rightarrow> u8 \<Rightarrow> i32 \<Rightarrow> DbtCompiler \<Rightarrow> DbtCompiler option" where
  "emit_andi rd rs1 imm c =
    (if rd = 0 then Some c
     else if rs1 = 0 then emit_load_imm rd 0 c
     else if imm = 0 then emit_load_imm rd 0 c
     else if imm = - 1 then emit_move rd rs1 c
     else if rd = rs1 then emit (And_x (LMem (loc_of_register rd)) (OImm (scast imm))) c
     else do {
       c \<leftarrow> load_reg RAX rs1 c;
       c \<leftarrow> emit (And_x (LReg RAX) (OImm (scast imm))) c;
       store_reg rd RAX c
     })"

section \<open>OP-IMM-32\<close>

definition emit_addiw :: "u8 \<Rightarrow> u8 \<Rightarrow> i32 \<Rightarrow> DbtCompiler \<Rightarrow> DbtCompiler option" where
  "emit_addiw rd rs1 imm c =
    (if rd = 0 then Some c
     else if rs1 = 0 then emit_load_imm rd imm c
     else if imm = 0 then emit_move32 rd rs1 c
     else do {
       c \<leftarrow> load_reg EAX rs1 c;
       c \<leftarrow> emit (Add_x (LReg EAX) (OImm (scast imm))) c;
       store_reg rd EAX c
     })"

definition emit_slliw :: "u8 \<Rightarrow> u8 \<Rightarrow> i32 \<Rightarrow> DbtCompiler \<Rightarrow> DbtCompiler option" where
  "emit_slliw rd rs1 imm c =
    (if rd = 0 then Some c
     else if rs1 = 0 then emit_load_imm rd 0 c
     else if imm = 0 then emit_move32 rd rs1 c
     else do {
       c \<leftarrow> load_reg EAX rs1 c;
       c \<leftarrow> (if imm = 1 then emit (Add_x (LReg EAX) (OReg EAX)) c
             else emit (Shl_x (LReg EAX) (OImm (scast imm))) c);
       store_reg rd EAX c
     })"

definition emit_srliw :: "u8 \<Rightarrow> u8 \<Rightarrow> i32 \<Rightarrow> DbtCompiler \<Rightarrow> DbtCompiler option" where
  "emit_srliw rd rs1 imm c =
    (if rd = 0 then Some c
     else if rs1 = 0 then emit_load_imm rd 0 c
     else if imm = 0 then emit_move32 rd rs1 c
     else do {
       c \<leftarrow> load_reg EAX rs1 c;
       c \<leftarrow> emit (Shr_x (LReg EAX) (OImm (scast imm))) c;
       store_reg rd EAX c
     })"

definition emit_sraiw :: "u8 \<Rightarrow> u8 \<Rightarrow> i32 \<Rightarrow> DbtCompiler \<Rightarrow> DbtCompiler option" where
  "emit_sraiw rd rs1 imm c =
    (if rd = 0 then Some c
     else if rs1 = 0 then emit_load_imm rd 0 c
     else if imm = 0 then emit_move32 rd rs1 c
     else do {
       c \<leftarrow> load_reg EAX rs1 c;
       c \<leftarrow> emit (Sar_x (LReg EAX) (OImm (scast imm))) c;
       store_reg rd EAX c
     })"

section \<open>OP\<close>

definition emit_add :: "u8 \<Rightarrow> u8 \<Rightarrow> u8 \<Rightarrow> DbtCompiler \<Rightarrow> DbtCompiler option" where
  "emit_add rd rs1 rs2 c =
    (if rd = 0 then Some c
     else if rs1 = 0 then emit_move rd rs2 c
     else if rs2 = 0 then emit_move rd rs1 c
     else if rd = rs1 \<and> rd = rs2 then emit (Shl_x (LMem (loc_of_register rd)) (OImm 1)) c
     else if rd = rs1 then do {
       c \<leftarrow> load_reg RAX rs2 c;
       emit (Add_x (LMem (loc_of_register rd)) (OReg RAX)) c
     }
     else if rd = rs2 then do {
       c \<leftarrow> load_reg RAX rs1 c;
       emit (Add_x (LMem (loc_of_register rd)) (OReg RAX)) c
     }
     else if rs1 = rs2 then do {
       c \<leftarrow> load_reg RAX rs1 c;
       c \<leftarrow> emit (Add_x (LReg RAX) (OReg RAX)) c;
       store_reg rd RAX c
     }
     else do {
       c \<leftarrow> load_reg RAX rs1 c;
       c \<leftarrow> emit (Add_x (LReg RAX) (OMem (loc_of_register rs2))) c;
       store_reg rd RAX c
     })"

definition emit_sub :: "u8 \<Rightarrow> u8 \<Rightarrow> u8 \<Rightarrow> DbtCompiler \<Rightarrow> DbtCompiler option" where
  "emit_sub rd rs1 rs2 c =
    (if rd = 0 then Some c
     else if rs2 = 0 then emit_move rd rs1 c
     else if rs1 = rs2 then emit_load_imm rd 0 c
     else if rd = rs1 then do {
       c \<leftarrow> load_reg RAX rs2 c;
       emit (Sub_x (LMem (loc_of_register rd)) (OReg RAX)) c
     }
     else if rd = rs2 \<and> rs1 = 0 then emit (Neg_x (LMem (loc_of_register rd))) c
     else if rs1 = 0 then do {
       c \<leftarrow> load_reg RAX rs2 c;
       c \<leftarrow> emit (Neg_x (LReg RAX)) c;
       store_reg rd RAX c
     }
     else do {
       c \<leftarrow> load_reg RAX rs1 c;
       c \<leftarrow> emit (Sub_x (LReg RAX) (OMem (loc_of_register rs2))) c;
       store_reg rd RAX c
     })"

definition emit_sll :: "u8 \<Rightarrow> u8 \<Rightarrow> u8 \<Rightarrow> DbtCompiler \<Rightarrow> DbtCompiler option" where
  "emit_sll rd rs1 rs2 c =
    (if rd = 0 then Some c
     else if rs1 = 0 then emit_load_imm rd 0 c
     else if rs2 = 0 then emit_move rd rs1 c
     else if rd = rs1 then do {
       c \<leftarrow> emit (Mov_x (LReg CL) (OMem (reg_slot Byte rs2))) c;
       emit (Shl_x (LMem (loc_of_register rd)) (OReg CL)) c
     }
     else do {
       c \<leftarrow> load_reg RAX rs1 c;
       c \<leftarrow> emit (Mov_x (LReg CL) (OMem (reg_slot Byte rs2))) c;
       c \<leftarrow> emit (Shl_x (LReg RAX) (OReg CL)) c;
       store_reg rd RAX c
     })"

definition emit_slt :: "u8 \<Rightarrow> u8 \<Rightarrow> u8 \<Rightarrow> DbtCompiler \<Rightarrow> DbtCompiler option" where
  "emit_slt rd rs1 rs2 c =
    (if rd = 0 then Some c
     else if rs1 = rs2 then emit_load_imm rd 0 c
     else if rs1 = 0 then do {
       c \<leftarrow> emit (Xor_x (LReg EAX) (OReg EAX)) c;
       c \<leftarrow> emit (Cmp_x (LMem (loc_of_register rs2)) (OImm 0)) c;
       c \<leftarrow> emit (Setcc_x (LReg AL) ConditionCode.Greater) c;
       store_reg rd RAX c
     }
     else if rs2 = 0 then
       (if rd = rs1 then emit (Shr_x (LMem (loc_of_register rd)) (OImm 63)) c
        else do {
          c \<leftarrow> load_reg RAX rs1 c;
          c \<leftarrow> emit (Shr_x (LReg RAX) (OImm 63)) c;
          store_reg rd RAX c
        })
     else do {
       c \<leftarrow> load_reg RAX rs1 c;
       c \<leftarrow> emit (Cmp_x (LReg RAX) (OMem (loc_of_register rs2))) c;
       c \<leftarrow> emit (Setcc_x (LReg AL) ConditionCode.Less) c;
       c \<leftarrow> emit (Movzx_x EAX (LReg AL)) c;
       store_reg rd RAX c
     })"

definition emit_sltu :: "u8 \<Rightarrow> u8 \<Rightarrow> u8 \<Rightarrow> DbtCompiler \<Rightarrow> DbtCompiler option" where
  "emit_sltu rd rs1 rs2 c =
    (if rd = 0 then Some c
     else if rs2 = 0 \<or> rs1 = rs2 then emit_load_imm rd 0 c
     else if rs1 = 0 then do {
       c \<leftarrow> emit (Xor_x (LReg EAX) (OReg EAX)) c;
       c \<leftarrow> emit (Cmp_x (LMem (loc_of_register rs2)) (OImm 0)) c;
       c \<leftarrow> emit (Setcc_x (LReg AL) NotEqual) c;
       store_reg rd RAX c
     }
     else do {
       c \<leftarrow> load_reg RAX rs1 c;
       c \<leftarrow> emit (Cmp_x (LReg RAX) (OMem (loc_of_register rs2))) c;
       c \<leftarrow> emit (Setcc_x (LReg AL) Below) c;
       c \<leftarrow> emit (Movzx_x EAX (LReg AL)) c;
       store_reg rd RAX c
     })"

definition emit_xor :: "u8 \<Rightarrow> u8 \<Rightarrow> u8 \<Rightarrow> DbtCompiler \<Rightarrow> DbtCompiler option" where
  "emit_xor rd rs1 rs2 c =
    (if rd = 0 then Some c
     else if rs1 = 0 then emit_move rd rs2 c
     else if rs2 = 0 then emit_move rd rs1 c
     else if rs1 = rs2 then emit_load_imm rd 0 c
     else if rd = rs1 then do {
       c \<leftarrow> load_reg RAX rs2 c;
       emit (Xor_x (LMem (loc_of_register rd)) (OReg RAX)) c
     }
     else if rd = rs2 then do {
       c \<leftarrow> load_reg RAX rs1 c;
       emit (Xor_x (LMem (loc_of_register rd)) (OReg RAX)) c
     }
     else do {
       c \<leftarrow> load_reg RAX rs1 c;
       c \<leftarrow> emit (Xor_x (LReg RAX) (OMem (loc_of_register rs2))) c;
       store_reg rd RAX c
     })"

definition emit_srl :: "u8 \<Rightarrow> u8 \<Rightarrow> u8 \<Rightarrow> DbtCompiler \<Rightarrow> DbtCompiler option" where
  "emit_srl rd rs1 rs2 c =
    (if rd = 0 then Some c
     else if rs1 = 0 then emit_load_imm rd 0 c
     else if rs2 = 0 then emit_move rd rs1 c
     else if rd = rs1 then do {
       c \<leftarrow> emit (Mov_x (LReg CL) (OMem (reg_slot Byte rs2))) c;
       emit (Shr_x (LMem (loc_of_register rd)) (OReg CL)) c
     }
     else do {
       c \<leftarrow> load_reg RAX rs1 c;
       c \<leftarrow> emit (Mov_x (LReg CL) (OMem (reg_slot Byte rs2))) c;
       c \<leftarrow> emit (Shr_x (LReg RAX) (OReg CL)) c;
       store_reg rd RAX c
     })"

definition emit_sra :: "u8 \<Rightarrow> u8 \<Rightarrow> u8 \<Rightarrow> DbtCompiler \<Rightarrow> DbtCompiler option" where
  "emit_sra rd rs1 rs2 c =
    (if rd = 0 then Some c
     else if rs1 = 0 then emit_load_imm rd 0 c
     else if rs2 = 0 then emit_move rd rs1 c
     else if rd = rs1 then do {
       c \<leftarrow> emit (Mov_x (LReg CL) (OMem (reg_slot Byte rs2))) c;
       emit (Sar_x (LMem (loc_of_register rd)) (OReg CL)) c
     }
     else do {
       c \<leftarrow> load_reg RAX rs1 c;
       c \<leftarrow> emit (Mov_x (LReg CL) (OMem (reg_slot Byte rs2))) c;
       c \<leftarrow> emit (Sar_x (LReg RAX) (OReg CL)) c;
       store_reg rd RAX c
     })"

definition emit_or :: "u8 \<Rightarrow> u8 \<Rightarrow> u8 \<Rightarrow> DbtCompiler \<Rightarrow> DbtCompiler option" where
  "emit_or rd rs1 rs2 c =
    (if rd = 0 then Some c
     else if rs1 = 0 then emit_move rd rs2 c
     else if rs2 = 0 then emit_move rd rs1 c
     else if rs1 = rs2 then emit_move rd rs1 c
     else if rd = rs1 then do {
       c \<leftarrow> load_reg RAX rs2 c;
       emit (Or_x (LMem (loc_of_register rd)) (OReg RAX)) c
     }
     else if rd = rs2 then do {
       c \<leftarrow> load_reg RAX rs1 c;
       emit (Or_x (LMem (loc_of_register rd)) (OReg RAX)) c
     }
     else do {
       c \<leftarrow> load_reg RAX rs1 c;
       c \<leftarrow> emit (Or_x (LReg RAX) (OMem (loc_of_register rs2))) c;
       store_reg rd RAX c
     })"

definition emit_and :: "u8 \<Rightarrow> u8 \<Rightarrow> u8 \<Rightarrow> DbtCompiler \<Rightarrow> DbtCompiler option" where
  "emit_and rd rs1 rs2 c =
    (if rd = 0 then Some c
     else if rs1 = 0 \<or> rs2 = 0 then emit_load_imm rd 0 c
     else if rs1 = rs2 then emit_move rd rs1 c
     else if rd = rs1 then do {
       c \<leftarrow> load_reg RAX rs2 c;
       emit (And_x (LMem (loc_of_register rd)) (OReg RAX)) c
     }
     else if rd = rs2 then do {
       c \<leftarrow> load_reg RAX rs1 c;
       emit (And_x (LMem (loc_of_register rd)) (OReg RAX)) c
     }
     else do {
       c \<leftarrow> load_reg RAX rs1 c;
       c \<leftarrow> emit (And_x (LReg RAX) (OMem (loc_of_register rs2))) c;
       store_reg rd RAX c
     })"

section \<open>OP-32\<close>

definition emit_addw :: "u8 \<Rightarrow> u8 \<Rightarrow> u8 \<Rightarrow> DbtCompiler \<Rightarrow> DbtCompiler option" where
  "emit_addw rd rs1 rs2 c =
    (if rd = 0 then Some c
     else if rs1 = 0 then emit_move32 rd rs2 c
     else if rs2 = 0 then emit_move32 rd rs1 c
     else do {
       c \<leftarrow> load_reg EAX rs1 c;
       c \<leftarrow> (if rs1 = rs2 then emit (Add_x (LReg EAX) (OReg EAX)) c
             else emit (Add_x (LReg EAX) (OMem (reg_slot Dword rs2))) c);
       store_reg rd EAX c
     })"

definition emit_subw :: "u8 \<Rightarrow> u8 \<Rightarrow> u8 \<Rightarrow> DbtCompiler \<Rightarrow> DbtCompiler option" where
  "emit_subw rd rs1 rs2 c =
    (if rd = 0 then Some c
     else if rs2 = 0 then emit_move32 rd rs1 c
     else if rs1 = rs2 then emit_load_imm rd 0 c
     else do {
       c \<leftarrow> (if rs1 = 0 then do {
               c \<leftarrow> load_reg EAX rs2 c;
               emit (Neg_x (LReg EAX)) c
             }
             else do {
               c \<leftarrow> load_reg EAX rs1 c;
               emit (Sub_x (LReg EAX) (OMem (reg_slot Dword rs2))) c
             });
       store_reg rd EAX c
     })"

definition emit_sllw :: "u8 \<Rightarrow> u8 \<Rightarrow> u8 \<Rightarrow> DbtCompiler \<Rightarrow> DbtCompiler option" where
  "emit_sllw rd rs1 rs2 c =
    (if rd = 0 then Some c
     else if rs1 = 0 then emit_load_imm rd 0 c
     else if rs2 = 0 then emit_move32 rd rs1 c
     else do {
       c \<leftarrow> load_reg EAX rs1 c;
       c \<leftarrow> emit (Mov_x (LReg CL) (OMem (reg_slot Byte rs2))) c;
       c \<leftarrow> emit (Shl_x (LReg EAX) (OReg CL)) c;
       store_reg rd EAX c
     })"

definition emit_srlw :: "u8 \<Rightarrow> u8 \<Rightarrow> u8 \<Rightarrow> DbtCompiler \<Rightarrow> DbtCompiler option" where
  "emit_srlw rd rs1 rs2 c =
    (if rd = 0 then Some c
     else if rs1 = 0 then emit_load_imm rd 0 c
     else if rs2 = 0 then emit_move32 rd rs1 c
     else do {
       c \<leftarrow> load_reg EAX rs1 c;
       c \<leftarrow> emit (Mov_x (LReg CL) (OMem (reg_slot Byte rs2))) c;
       c \<leftarrow> emit (Shr_x (LReg EAX) (OReg CL)) c;
       store_reg rd EAX c
     })"

definition emit_sraw :: "u8 \<Rightarrow> u8 \<Rightarrow> u8 \<Rightarrow> DbtCompiler \<Rightarrow> DbtCompiler option" where
  "emit_sraw rd rs1 rs2 c =
    (if rd = 0 then Some c
     else if rs1 = 0 then emit_load_imm rd 0 c
     else if rs2 = 0 then emit_move32 rd rs1 c
     else do {
       c \<leftarrow> load_reg EAX rs1 c;
       c \<leftarrow> emit (Mov_x (LReg CL) (OMem (reg_slot Byte rs2))) c;
       c \<leftarrow> emit (Sar_x (LReg EAX) (OReg CL)) c;
       store_reg rd EAX c
     })"

section \<open>M extension\<close>

definition emit_mul :: "u8 \<Rightarrow> u8 \<Rightarrow> u8 \<Rightarrow> DbtCompiler \<Rightarrow> DbtCompiler option" where
  "emit_mul rd rs1 rs2 c =
    (if rd = 0 then Some c
     else if rs1 = 0 \<or> rs2 = 0 then emit_load_imm rd 0 c
     else do {
       c \<leftarrow> load_reg RAX rs1 c;
       c \<leftarrow> (if rs1 = rs2 then emit (Imul2_x RAX (LReg RAX)) c
             else emit (Imul2_x RAX (LMem (loc_of_register rs2))) c);
       store_reg rd RAX c
     })"

definition emit_mulh :: "u8 \<Rightarrow> u8 \<Rightarrow> u8 \<Rightarrow> bool \<Rightarrow> DbtCompiler \<Rightarrow> DbtCompiler option" where
  "emit_mulh rd rs1 rs2 unsignd c =
    (if rd = 0 then Some c
     else if rs1 = 0 \<or> rs2 = 0 then emit_load_imm rd 0 c
     else do {
       c \<leftarrow> load_reg RAX rs1 c;
       let loc = (if rs1 = rs2 then LReg RAX else LMem (loc_of_register rs2));
       c \<leftarrow> (if unsignd then emit (Mul_x loc) c else emit (Imul1_x loc) c);
       emit (Mov_x (LMem (loc_of_register rd)) (OReg RDX)) c
     })"

definition emit_mulhsu :: "u8 \<Rightarrow> u8 \<Rightarrow> u8 \<Rightarrow> DbtCompiler \<Rightarrow> DbtCompiler option" where
  "emit_mulhsu rd rs1 rs2 c =
    (if rd = 0 then Some c
     else if rs1 = 0 \<or> rs2 = 0 then emit_load_imm rd 0 c
     else do {
       c \<leftarrow> emit (Mov_x (LReg RCX) (OMem (loc_of_register rs1))) c;
       c \<leftarrow> emit (Mov_x (LReg RSI) (OMem (loc_of_register rs2))) c;
       c \<leftarrow> emit (Mov_x (LReg RAX) (OReg RCX)) c;
       c \<leftarrow> emit (Mul_x (LReg RSI)) c;
       c \<leftarrow> emit (Sar_x (LReg RCX) (OImm 63)) c;
       c \<leftarrow> emit (And_x (LReg RCX) (OReg RSI)) c;
       c \<leftarrow> emit (Sub_x (LReg RDX) (OReg RCX)) c;
       emit (Mov_x (LMem (loc_of_register rd)) (OReg RDX)) c
     })"

definition emit_mulw :: "u8 \<Rightarrow> u8 \<Rightarrow> u8 \<Rightarrow> DbtCompiler \<Rightarrow> DbtCompiler option" where
  "emit_mulw rd rs1 rs2 c =
    (if rd = 0 then Some c
     else if rs1 = 0 \<or> rs2 = 0 then emit_load_imm rd 0 c
     else do {
       c \<leftarrow> load_reg EAX rs1 c;
       c \<leftarrow> (if rs1 = rs2 then emit (Imul2_x EAX (LReg EAX)) c
             else emit (Imul2_x EAX (LMem (reg_slot Dword rs2))) c);
       store_reg rd EAX c
     })"

definition emit_div :: "u8 \<Rightarrow> u8 \<Rightarrow> u8 \<Rightarrow> bool \<Rightarrow> bool \<Rightarrow> DbtCompiler \<Rightarrow> DbtCompiler option" where
  "emit_div rd rs1 rs2 unsignd rem c =
    (if rd = 0 then Some c
     else if rs2 = 0 then (if rem then emit_move rd rs1 c else emit_load_imm rd (- 1) c)
     else do {
       c \<leftarrow> load_reg RAX rs1 c;
       c \<leftarrow> (if unsignd then do {
               c \<leftarrow> emit (Xor_x (LReg EDX) (OReg EDX)) c;
               emit (Div_x (LMem (loc_of_register rs2))) c
             }
             else do {
               c \<leftarrow> emit Cqo_x c;
               emit (Idiv_x (LMem (loc_of_register rs2))) c
             });
       if rem then emit (Mov_x (LMem (loc_of_register rd)) (OReg RDX)) c
       else store_reg rd RAX c
     })"

definition emit_divw :: "u8 \<Rightarrow> u8 \<Rightarrow> u8 \<Rightarrow> bool \<Rightarrow> bool \<Rightarrow> DbtCompiler \<Rightarrow> DbtCompiler option" where
  "emit_divw rd rs1 rs2 unsignd rem c =
    (if rd = 0 then Some c
     else if rs2 = 0 then (if rem then emit_move32 rd rs1 c else emit_load_imm rd (- 1) c)
     else do {
       c \<leftarrow> load_reg EAX rs1 c;
       c \<leftarrow> (if unsignd then do {
               c \<leftarrow> emit (Xor_x (LReg EDX) (OReg EDX)) c;
               emit (Div_x (LMem (reg_slot Dword rs2))) c
             }
             else do {
               c \<leftarrow> emit Cdq_x c;
               emit (Idiv_x (LMem (reg_slot Dword rs2))) c
             });
       if rem then do {
         c \<leftarrow> emit (Movsx_x RAX (LReg EDX)) c;
         store_reg rd RAX c
       }
       else store_reg rd EAX c
     })"

end
