(* ===== verification/Dbt_Memory.thy ===== *)
theory Dbt_Memory
  imports Dbt
begin

text \<open>
  The translator, continued (\<open>src/emu/dbt.rs\<close>): calls of helpers, accesses through the L0 caches with
  their slow paths, loads, stores, atomics and CSR accesses.
\<close>

section \<open>Helpers\<close>

definition get_ebx :: "DbtCompiler \<Rightarrow> u32" where
  "get_ebx c =
    push_bit 16 (ucast (ucast (dc_instret c) :: u16)) OR ucast (ucast (dc_pc_cur c) :: u16)"

definition emit_helper_call :: "DbtEnv \<Rightarrow> helper \<Rightarrow> DbtCompiler \<Rightarrow> DbtCompiler option" where
  "emit_helper_call de h c = do {
     c \<leftarrow> emit (Call_x (OImm 0x77777777)) c;
     patch_absolute (PDword (length (dc_code c))) (helper_addr de h) c
   }"

definition emit_helper_jmp :: "DbtEnv \<Rightarrow> helper \<Rightarrow> DbtCompiler \<Rightarrow> DbtCompiler option" where
  "emit_helper_jmp de h c = do {
     c \<leftarrow> emit (Jmp_x (OImm 0x77777777)) c;
     patch_absolute (PDword (length (dc_code c))) (helper_addr de h) c
   }"

definition emit_helper_jcc :: "DbtEnv \<Rightarrow> ConditionCode \<Rightarrow> helper \<Rightarrow> DbtCompiler \<Rightarrow> DbtCompiler option" where
  "emit_helper_jcc de cc h c = do {
     (place, c) \<leftarrow> emit_jcc_long cc c;
     patch_absolute place (helper_addr de h) c
   }"

definition before_side_effect :: "DbtEnv \<Rightarrow> DbtCompiler \<Rightarrow> DbtCompiler option" where
  "before_side_effect de c =
    (if dc_cycles c = 0 then Some c
     else do {
       c \<leftarrow> (if dbt_threaded de then emit (Add_x (LMem (memory_of off_cycle_offset)) (OImm (dc_cycles c))) c
             else if dc_cycles c = 1 then emit_helper_call de Helper_fiber_yield c
             else do {
               c \<leftarrow> emit (Mov_x (LReg RDI) (OImm (dc_cycles c - 1))) c;
               emit_helper_call de Helper_fiber_sleep c
             });
       Some (c\<lparr>dc_cycles := 0\<rparr>)
     })"

definition push_slow_path :: "SlowPath \<Rightarrow> DbtCompiler \<Rightarrow> DbtCompiler" where
  "push_slow_path p c = c\<lparr>dc_slow_path := dc_slow_path c @ [p]\<rparr>"

definition emit_trap_check :: "DbtCompiler \<Rightarrow> DbtCompiler option" where
  "emit_trap_check c = do {
     c \<leftarrow> emit (Test_x (LReg AL) (OReg AL)) c;
     (trap, c) \<leftarrow> emit_jcc_long NotEqual c;
     Some (push_slow_path (SlowTrap (get_ebx c) trap) c)
   }"

definition emit_step_call :: "DbtEnv \<Rightarrow> Op \<Rightarrow> DbtCompiler \<Rightarrow> DbtCompiler option" where
  "emit_step_call de op c = do {
     c \<leftarrow> before_side_effect de c;
     c \<leftarrow> emit (Mov_x (LReg RDI) (OReg RBP)) c;
     c \<leftarrow> emit (Mov_x (LReg RSI) (OImm (op_bits de op))) c;
     c \<leftarrow> emit_helper_call de Helper_riscv_step c;
     c \<leftarrow> emit (Test_x (LReg AL) (OReg AL)) c;
     (jcc_trap, c) \<leftarrow> emit_jcc_long NotEqual c;
     Some (push_slow_path (SlowTrap (get_ebx c) jcc_trap) c)
   }"

section \<open>L0 caches\<close>

text \<open>\<open>Register::RBP + Register::RAX + displacement\<close>\<close>

definition line_mem :: "i32 \<Rightarrow> Memory" where
  "line_mem off = mem_add_i32 (reg_add_reg RBP RAX) off"

text \<open>\<open>RCX = addr >> CACHE_LINE_SIZE_LOG2; EAX = (RCX & 1023) * 16\<close>\<close>

definition emit_line_index :: "DbtEnv \<Rightarrow> DbtCompiler \<Rightarrow> DbtCompiler option" where
  "emit_line_index de c = do {
     c \<leftarrow> emit (Mov_x (LReg RCX) (OReg RSI)) c;
     c \<leftarrow> emit (Shr_x (LReg RCX) (OImm (of_nat (line_log2 de)))) c;
     c \<leftarrow> emit (Mov_x (LReg EAX) (OReg ECX)) c;
     c \<leftarrow> emit (And_x (LReg EAX) (OImm 1023)) c;
     emit (Shl_x (LReg EAX) (OImm 4)) c
   }"

definition emit_icache_access :: "DbtEnv \<Rightarrow> i64 \<Rightarrow> bool \<Rightarrow> DbtCompiler \<Rightarrow> DbtCompiler option" where
  "emit_icache_access de pc_offset set_rsi c = do {
     c \<leftarrow> before_side_effect de c;
     c \<leftarrow> emit (Mov_x (LReg RSI) (OMem (memory_of off_pc))) c;
     c \<leftarrow> (if pc_offset \<noteq> 0 then emit (Add_x (LReg RSI) (OImm pc_offset)) c else Some c);
     if dbt_direct de then Some c
     else do {
       c \<leftarrow> emit_line_index de c;
       c \<leftarrow> emit (Cmp_x (LReg RCX) (OMem (line_mem off_i_line))) c;
       (jcc_miss, c) \<leftarrow> emit_jcc_long NotEqual c;
       c \<leftarrow> (if set_rsi then emit (Xor_x (LReg RSI) (OMem (line_mem (off_i_line + 8)))) c else Some c);
       let label_fin = label c;
       Some (push_slow_path (SlowICache (get_ebx c) jcc_miss label_fin) c)
     }
   }"

text \<open>The end of both slow paths of a cache miss.\<close>

definition emit_miss_result :: "DbtEnv \<Rightarrow> u32 \<Rightarrow> Label \<Rightarrow> DbtCompiler \<Rightarrow> DbtCompiler option" where
  "emit_miss_result de ebx label_fin c = do {
     c \<leftarrow> emit (Mov_x (LReg RSI) (OReg RDX)) c;
     c \<leftarrow> emit (Test_x (LReg AL) (OReg AL)) c;
     (jcc_fin, c) \<leftarrow> emit_jcc_long ConditionCode.Equal c;
     c \<leftarrow> patch jcc_fin label_fin c;
     c \<leftarrow> emit (Mov_x (LReg EBX) (OImm (ucast ebx))) c;
     emit_helper_jmp de Helper_trap c
   }"

definition emit_icache_slow :: "DbtEnv \<Rightarrow> u32 \<Rightarrow> PlaceHolder \<Rightarrow> Label \<Rightarrow> DbtCompiler \<Rightarrow> DbtCompiler option" where
  "emit_icache_slow de ebx jcc_miss label_fin c = do {
     let label_miss = label c;
     c \<leftarrow> patch jcc_miss label_miss c;
     c \<leftarrow> emit (Mov_x (LReg RDI) (OReg RBP)) c;
     c \<leftarrow> emit_helper_call de Helper_insn_translate_cache_miss c;
     emit_miss_result de ebx label_fin c
   }"

definition emit_trap :: "DbtEnv \<Rightarrow> u32 \<Rightarrow> PlaceHolder \<Rightarrow> DbtCompiler \<Rightarrow> DbtCompiler option" where
  "emit_trap de ebx jcc_trap c = do {
     let label_trap = label c;
     c \<leftarrow> patch jcc_trap label_trap c;
     c \<leftarrow> emit (Mov_x (LReg EBX) (OImm (ucast ebx))) c;
     emit_helper_jmp de Helper_trap c
   }"

definition dcache_access :: "DbtEnv \<Rightarrow> Size \<Rightarrow> bool \<Rightarrow> DbtCompiler \<Rightarrow> DbtCompiler option" where
  "dcache_access de z write c =
    (if dbt_direct de then Some c
     else do {
       (jcc_misalign, c) \<leftarrow>
         (if z \<noteq> Byte then do {
            c \<leftarrow> emit (Test_x (LReg ESI) (OImm (of_nat (size_bytes z) - 1))) c;
            (place, c) \<leftarrow> emit_jcc_long NotEqual c;
            Some (Some place, c)
          }
          else Some (None, c));
       c \<leftarrow> emit_line_index de c;
       c \<leftarrow> (if write then do {
               c \<leftarrow> emit (Add_x (LReg RCX) (OReg RCX)) c;
               emit (Cmp_x (LReg RCX) (OMem (line_mem off_line))) c
             }
             else do {
               c \<leftarrow> emit (Mov_x (LReg RDX) (OMem (line_mem off_line))) c;
               c \<leftarrow> emit (Shr_x (LReg RDX) (OImm 1)) c;
               emit (Cmp_x (LReg RDX) (OReg RCX)) c
             });
       (jcc_miss, c) \<leftarrow> emit_jcc_long NotEqual c;
       c \<leftarrow> emit (Xor_x (LReg RSI) (OMem (line_mem (off_line + 8)))) c;
       let label_fin = label c;
       Some (push_slow_path (SlowDCache (get_ebx c) write jcc_misalign jcc_miss label_fin) c)
     })"

definition dcache_access_slow ::
    "DbtEnv \<Rightarrow> u32 \<Rightarrow> bool \<Rightarrow> PlaceHolder option \<Rightarrow> PlaceHolder \<Rightarrow> Label \<Rightarrow> DbtCompiler \<Rightarrow> DbtCompiler option" where
  "dcache_access_slow de ebx write jcc_misalign jcc_miss label_fin c = do {
     c \<leftarrow> (case jcc_misalign of
             None \<Rightarrow> Some c
           | Some place \<Rightarrow> do {
               let label_misalign = label c;
               c \<leftarrow> patch place label_misalign c;
               c \<leftarrow> emit (Mov_x (LReg EBX) (OImm (ucast ebx))) c;
               emit_helper_jmp de Helper_misalign c
             });
     let label_miss = label c;
     c \<leftarrow> patch jcc_miss label_miss c;
     c \<leftarrow> emit (Mov_x (LReg RDI) (OReg RBP)) c;
     c \<leftarrow> (if write then emit (Mov_x (LReg EDX) (OImm 1)) c
           else emit (Xor_x (LReg EDX) (OReg EDX)) c);
     c \<leftarrow> emit_helper_call de Helper_translate_cache_miss c;
     emit_miss_result de ebx label_fin c
   }"

section \<open>Loads and stores\<close>

definition count_minstret :: "DbtCompiler \<Rightarrow> DbtCompiler" where
  "count_minstret c = c\<lparr>dc_minstret := dc_minstret c + 1\<rparr>"

text \<open>\<open>RSI = rs1 + imm\<close>\<close>

definition emit_address :: "u8 \<Rightarrow> i32 \<Rightarrow> DbtCompiler \<Rightarrow> DbtCompiler option" where
  "emit_address rs1 imm c = do {
     c \<leftarrow> emit (Mov_x (LReg RSI) (OMem (loc_of_register rs1))) c;
     if imm \<noteq> 0 then emit (Add_x (LReg RSI) (OImm (scast imm))) c else Some c
   }"

definition emit_load :: "DbtEnv \<Rightarrow> u8 \<Rightarrow> i32 \<Rightarrow> Size \<Rightarrow> DbtCompiler \<Rightarrow> DbtCompiler option" where
  "emit_load de rs1 imm z c = do {
     c \<leftarrow> before_side_effect de c;
     let c = count_minstret c;
     c \<leftarrow> emit_address rs1 imm c;
     dcache_access de z False c
   }"

text \<open>\<open>Register::RSI + 0\<close> in a size: the operand at the physical address.\<close>

definition at_rsi :: "Size \<Rightarrow> Memory" where
  "at_rsi z = mem_resize (reg_add_i32 RSI 0) z"

definition emit_store :: "DbtEnv \<Rightarrow> u8 \<Rightarrow> u8 \<Rightarrow> i32 \<Rightarrow> Size \<Rightarrow> DbtCompiler \<Rightarrow> DbtCompiler option" where
  "emit_store de rs1 rs2 imm z c = do {
     c \<leftarrow> before_side_effect de c;
     let c = count_minstret c;
     c \<leftarrow> emit_address rs1 imm c;
     c \<leftarrow> dcache_access de z True c;
     reg \<leftarrow> reg_resize RDX z;
     c \<leftarrow> emit (Mov_x (LReg reg) (OMem (reg_slot z rs2))) c;
     emit (Mov_x (LMem (at_rsi z)) (OReg reg)) c
   }"

text \<open>The load instructions of \<open>emit_op\<close>.\<close>

definition emit_load_op :: "DbtEnv \<Rightarrow> load_op \<Rightarrow> u8 \<Rightarrow> u8 \<Rightarrow> i32 \<Rightarrow> DbtCompiler \<Rightarrow> DbtCompiler option" where
  "emit_load_op de k rd rs1 imm c =
    (case k of
       Lb_k \<Rightarrow> do {
         c \<leftarrow> emit_load de rs1 imm Byte c;
         c \<leftarrow> emit (Movsx_x RAX (LMem (at_rsi Byte))) c;
         store_reg rd RAX c
       }
     | Lh_k \<Rightarrow> do {
         c \<leftarrow> emit_load de rs1 imm Word c;
         c \<leftarrow> emit (Movsx_x RAX (LMem (at_rsi Word))) c;
         store_reg rd RAX c
       }
     | Lw_k \<Rightarrow> do {
         c \<leftarrow> emit_load de rs1 imm Dword c;
         c \<leftarrow> emit (Movsx_x RAX (LMem (at_rsi Dword))) c;
         store_reg rd RAX c
       }
     | Ld_k \<Rightarrow> do {
         c \<leftarrow> emit_load de rs1 imm Qword c;
         c \<leftarrow> emit (Mov_x (LReg RAX) (OMem (at_rsi Qword))) c;
         store_reg rd RAX c
       }
     | Lbu_k \<Rightarrow> do {
         c \<leftarrow> emit_load de rs1 imm Byte c;
         c \<leftarrow> emit (Movzx_x RAX (LMem (at_rsi Byte))) c;
         store_reg rd RAX c
       }
     | Lhu_k \<Rightarrow> do {
         c \<leftarrow> emit_load de rs1 imm Word c;
         c \<leftarrow> emit (Movzx_x RAX (LMem (at_rsi Word))) c;
         store_reg rd RAX c
       }
     | Lwu_k \<Rightarrow> do {
         c \<leftarrow> emit_load de rs1 imm Dword c;
         c \<leftarrow> emit (Mov_x (LReg EAX) (OMem (at_rsi Dword))) c;
         store_reg rd RAX c
       })"

definition store_size :: "store_op \<Rightarrow> Size" where
  "store_size k = (case k of Sb_k \<Rightarrow> Byte | Sh_k \<Rightarrow> Word | Sw_k \<Rightarrow> Dword | Sd_k \<Rightarrow> Qword)"

section \<open>Atomics\<close>

definition amo_size :: "amo_width \<Rightarrow> Size" where
  "amo_size w = (case w of W32 \<Rightarrow> Dword | D64 \<Rightarrow> Qword)"

text \<open>The registers \<open>EAX\<close>, \<open>ECX\<close>, \<open>EDX\<close> or \<open>RAX\<close>, \<open>RCX\<close>, \<open>RDX\<close> of the two widths.\<close>

definition amo_reg :: "amo_width \<Rightarrow> reg_index \<Rightarrow> Register" where
  "amo_reg w i = (case w of W32 \<Rightarrow> GPD i | D64 \<Rightarrow> GPQ i)"

text \<open>\<open>amo_op_w\<close> and \<open>amo_op_d\<close>\<close>

definition emit_amo ::
    "DbtEnv \<Rightarrow> amo_width \<Rightarrow> u8 \<Rightarrow> u8 \<Rightarrow> u8 \<Rightarrow> (DbtCompiler \<Rightarrow> DbtCompiler option) \<Rightarrow> DbtCompiler \<Rightarrow> DbtCompiler option" where
  "emit_amo de w rd rs1 rs2 action c = do {
     c \<leftarrow> before_side_effect de c;
     let c = count_minstret c;
     c \<leftarrow> load_reg RSI rs1 c;
     c \<leftarrow> dcache_access de (amo_size w) True c;
     c \<leftarrow> load_reg (amo_reg w 0) rs2 c;
     c \<leftarrow> action c;
     store_reg rd (amo_reg w 0) c
   }"

text \<open>\<open>cmpxchg_w\<close> and \<open>cmpxchg_d\<close>\<close>

definition emit_cmpxchg ::
    "DbtEnv \<Rightarrow> amo_width \<Rightarrow> u8 \<Rightarrow> u8 \<Rightarrow> u8 \<Rightarrow> (DbtCompiler \<Rightarrow> DbtCompiler option) \<Rightarrow> DbtCompiler \<Rightarrow> DbtCompiler option" where
  "emit_cmpxchg de w rd rs1 rs2 action c = do {
     c \<leftarrow> before_side_effect de c;
     let c = count_minstret c;
     c \<leftarrow> load_reg RSI rs1 c;
     c \<leftarrow> dcache_access de (amo_size w) True c;
     c \<leftarrow> load_reg (amo_reg w 2) rs2 c;
     let m = at_rsi (amo_size w);
     c \<leftarrow> emit (Mov_x (LReg (amo_reg w 0)) (OMem m)) c;
     let label_retry = label c;
     c \<leftarrow> emit (Mov_x (LReg (amo_reg w 1)) (OReg (amo_reg w 0))) c;
     c \<leftarrow> action c;
     c \<leftarrow> emit Lock_x c;
     c \<leftarrow> emit (Cmpxchg_x (LMem m) (amo_reg w 1)) c;
     (jcc_retry, c) \<leftarrow> emit_jcc_short NotEqual c;
     c \<leftarrow> patch jcc_retry label_retry c;
     store_reg rd (amo_reg w 0) c
   }"

definition emit_lr :: "DbtEnv \<Rightarrow> amo_width \<Rightarrow> u8 \<Rightarrow> u8 \<Rightarrow> DbtCompiler \<Rightarrow> DbtCompiler option" where
  "emit_lr de w rd rs1 c = do {
     c \<leftarrow> before_side_effect de c;
     let c = count_minstret c;
     c \<leftarrow> load_reg RSI rs1 c;
     c \<leftarrow> emit (Mov_x (LReg RBX) (OReg RSI)) c;
     c \<leftarrow> dcache_access de (amo_size w) True c;
     c \<leftarrow> (case w of
             W32 \<Rightarrow> emit (Movsx_x RAX (LMem (at_rsi Dword))) c
           | D64 \<Rightarrow> emit (Mov_x (LReg RAX) (OMem (at_rsi Qword))) c);
     c \<leftarrow> store_reg rd RAX c;
     c \<leftarrow> emit (Mov_x (LMem (memory_of (off_lr_addr de))) (OReg RBX)) c;
     emit (Mov_x (LMem (memory_of (off_lr_value de))) (OReg RAX)) c
   }"

definition emit_sc :: "DbtEnv \<Rightarrow> amo_width \<Rightarrow> u8 \<Rightarrow> u8 \<Rightarrow> u8 \<Rightarrow> DbtCompiler \<Rightarrow> DbtCompiler option" where
  "emit_sc de w rd rs1 rs2 c = do {
     c \<leftarrow> before_side_effect de c;
     c \<leftarrow> load_reg RSI rs1 c;
     c \<leftarrow> emit (Cmp_x (LMem (memory_of (off_lr_addr de))) (OReg RSI)) c;
     (jcc_addr_mismatch, c) \<leftarrow> emit_jcc_short NotEqual c;
     c \<leftarrow> dcache_access de (amo_size w) True c;
     c \<leftarrow> emit (Mov_x (LReg (amo_reg w 0)) (OMem (mem_resize (memory_of (off_lr_value de)) (amo_size w)))) c;
     c \<leftarrow> load_reg (amo_reg w 2) rs2 c;
     c \<leftarrow> emit Lock_x c;
     c \<leftarrow> emit (Cmpxchg_x (LMem (at_rsi (amo_size w))) (amo_reg w 2)) c;
     let l = label c;
     c \<leftarrow> patch jcc_addr_mismatch l c;
     c \<leftarrow> emit (Setcc_x (LReg CL) NotEqual) c;
     c \<leftarrow> emit (Movsx_x ECX (LReg CL)) c;
     store_reg rd RCX c
   }"

text \<open>An update of memory in place, for \<open>rd = 0\<close>.\<close>

definition emit_locked :: "(Location \<Rightarrow> Operand \<Rightarrow> X86Op) \<Rightarrow> amo_width \<Rightarrow> DbtCompiler \<Rightarrow> DbtCompiler option" where
  "emit_locked mk w c = do {
     c \<leftarrow> emit Lock_x c;
     emit (mk (LMem (at_rsi (amo_size w))) (OReg (amo_reg w 0))) c
   }"

text \<open>The actions of the compare-and-swap loop on \<open>RCX\<close> and \<open>RDX\<close>.\<close>

definition emit_combine :: "(Location \<Rightarrow> Operand \<Rightarrow> X86Op) \<Rightarrow> amo_width \<Rightarrow> DbtCompiler \<Rightarrow> DbtCompiler option" where
  "emit_combine mk w = emit (mk (LReg (amo_reg w 1)) (OReg (amo_reg w 2)))"

definition emit_select :: "ConditionCode \<Rightarrow> amo_width \<Rightarrow> DbtCompiler \<Rightarrow> DbtCompiler option" where
  "emit_select cc w c = do {
     c \<leftarrow> emit (Cmp_x (LReg (amo_reg w 2)) (OReg (amo_reg w 1))) c;
     emit (Cmovcc_x (amo_reg w 1) (LReg (amo_reg w 2)) cc) c
   }"

definition emit_logic ::
    "DbtEnv \<Rightarrow> (Location \<Rightarrow> Operand \<Rightarrow> X86Op) \<Rightarrow> amo_width \<Rightarrow> u8 \<Rightarrow> u8 \<Rightarrow> u8 \<Rightarrow> DbtCompiler \<Rightarrow> DbtCompiler option" where
  "emit_logic de mk w rd rs1 rs2 =
    (if rd = 0 then emit_amo de w 0 rs1 rs2 (emit_locked mk w)
     else emit_cmpxchg de w rd rs1 rs2 (emit_combine mk w))"

text \<open>The atomic instructions of \<open>emit_op\<close>.\<close>

definition emit_amo_op ::
    "DbtEnv \<Rightarrow> amo_op \<Rightarrow> amo_width \<Rightarrow> u8 \<Rightarrow> u8 \<Rightarrow> u8 \<Rightarrow> DbtCompiler \<Rightarrow> DbtCompiler option" where
  "emit_amo_op de k w rd rs1 rs2 =
    (case k of
       Sc_k \<Rightarrow> emit_sc de w rd rs1 rs2
     | Amoswap_k \<Rightarrow>
         emit_amo de w rd rs1 rs2 (emit (Xchg_x (LReg (amo_reg w 0)) (LMem (at_rsi (amo_size w)))))
     | Amoadd_k \<Rightarrow>
         if rd = 0 then emit_amo de w 0 rs1 rs2 (emit_locked Add_x w)
         else emit_amo de w rd rs1 rs2 (\<lambda>c. do {
           c \<leftarrow> emit Lock_x c;
           emit (Xadd_x (LMem (at_rsi (amo_size w))) (amo_reg w 0)) c
         })
     | Amoand_k \<Rightarrow> emit_logic de And_x w rd rs1 rs2
     | Amoor_k \<Rightarrow> emit_logic de Or_x w rd rs1 rs2
     | Amoxor_k \<Rightarrow> emit_logic de Xor_x w rd rs1 rs2
     | Amomin_k \<Rightarrow> emit_cmpxchg de w rd rs1 rs2 (emit_select ConditionCode.Less w)
     | Amomax_k \<Rightarrow> emit_cmpxchg de w rd rs1 rs2 (emit_select ConditionCode.Greater w)
     | Amominu_k \<Rightarrow> emit_cmpxchg de w rd rs1 rs2 (emit_select Below w)
     | Amomaxu_k \<Rightarrow> emit_cmpxchg de w rd rs1 rs2 (emit_select Above w))"

section \<open>CSR accesses\<close>

definition emit_read_csr :: "DbtEnv \<Rightarrow> Csr \<Rightarrow> DbtCompiler \<Rightarrow> DbtCompiler option" where
  "emit_read_csr de csr c = do {
     c \<leftarrow> emit (Mov_x (LReg RDI) (OReg RBP)) c;
     c \<leftarrow> emit (Mov_x (LReg ESI) (OImm (ucast csr))) c;
     emit_helper_call de Helper_read_csr c
   }"

definition emit_write_csr :: "DbtEnv \<Rightarrow> Csr \<Rightarrow> DbtCompiler \<Rightarrow> DbtCompiler option" where
  "emit_write_csr de csr c = do {
     c \<leftarrow> emit (Mov_x (LReg RDI) (OReg RBP)) c;
     c \<leftarrow> emit (Mov_x (LReg ESI) (OImm (ucast csr))) c;
     emit_helper_call de Helper_write_csr c
   }"

text \<open>A read without a write: \<open>csrrs\<close> and its relatives with \<open>x0\<close> or 0.\<close>

definition emit_csr_read_op :: "DbtEnv \<Rightarrow> u8 \<Rightarrow> Csr \<Rightarrow> DbtCompiler \<Rightarrow> DbtCompiler option" where
  "emit_csr_read_op de rd csr c = do {
     c \<leftarrow> before_side_effect de c;
     c \<leftarrow> emit_read_csr de csr c;
     c \<leftarrow> emit_trap_check c;
     if rd \<noteq> 0 then store_reg rd RDX c else Some c
   }"

end
