(* ===== verification/Dbt_Block.thy ===== *)
theory Dbt_Block
  imports Dbt_Memory Riscv_Decode
begin

text \<open>
  The translator, continued (\<open>src/emu/dbt.rs\<close>): branches and jumps, the dispatch on an instruction,
  blocks from \<open>begin\<close> to \<open>end\<close> with their slow paths, and the instruction that spans two pages. The
  listing of the generated code (\<open>--disassemble\<close>) is not modelled.
\<close>

section \<open>Counters\<close>

definition insn_size :: "bool \<Rightarrow> i64" where
  "insn_size compressed = (if compressed then 2 else 4)"

definition emit_add_minstret :: "DbtCompiler \<Rightarrow> DbtCompiler option" where
  "emit_add_minstret c =
    (if dc_minstret c \<noteq> 0 then emit (Add_x (LMem (memory_of off_minstret)) (OImm (ucast (dc_minstret c)))) c
     else Some c)"

definition pre_adjust_instret :: "DbtCompiler \<Rightarrow> DbtCompiler option" where
  "pre_adjust_instret c = do {
     let instret_offset = scast (dc_instret c) + 1;
     c \<leftarrow> (if instret_offset \<noteq> 0 then emit (Add_x (LMem (memory_of off_instret)) (OImm instret_offset)) c
           else Some c);
     emit_add_minstret c
   }"

definition pre_adjust_pc_instret :: "bool \<Rightarrow> DbtCompiler \<Rightarrow> DbtCompiler option" where
  "pre_adjust_pc_instret compressed c = do {
     let pc_offset = dc_pc_cur c + insn_size compressed;
     c \<leftarrow> (if pc_offset \<noteq> 0 then emit (Add_x (LMem (memory_of off_pc)) (OImm pc_offset)) c else Some c);
     pre_adjust_instret c
   }"

definition post_adjust_pc_instret :: "DbtCompiler \<Rightarrow> DbtCompiler option" where
  "post_adjust_pc_instret c = do {
     c \<leftarrow> (if dc_pc_cur c \<noteq> 0 then emit (Add_x (LMem (memory_of off_pc)) (OImm (dc_pc_cur c))) c else Some c);
     c \<leftarrow> (if dc_instret c \<noteq> 0
           then emit (Add_x (LMem (memory_of off_instret)) (OImm (scast (dc_instret c)))) c else Some c);
     emit_add_minstret c
   }"

section \<open>Leaving a block\<close>

definition emit_chain_tail :: "DbtEnv \<Rightarrow> DbtCompiler \<Rightarrow> DbtCompiler option" where
  "emit_chain_tail de c = do {
     ensure (dc_cycles c = 0);
     c \<leftarrow> emit (Lea_x RBX (reg_add_i32 RIP 5)) c;
     emit_helper_jmp de Helper_pred_miss c
   }"

definition emit_interrupt_check :: "DbtEnv \<Rightarrow> DbtCompiler \<Rightarrow> DbtCompiler option" where
  "emit_interrupt_check de c = do {
     c \<leftarrow> before_side_effect de c;
     c \<leftarrow> emit (Cmp_x (LMem (memory_of off_alarm)) (OImm 0)) c;
     emit_helper_jcc de NotEqual Helper_check_interrupt c
   }"

section \<open>Branches and jumps\<close>

fun branch_cc :: "branch_op \<Rightarrow> ConditionCode" where
  "branch_cc Beq_k = ConditionCode.Equal"
| "branch_cc Bne_k = NotEqual"
| "branch_cc Blt_k = ConditionCode.Less"
| "branch_cc Bge_k = GreaterEqual"
| "branch_cc Bltu_k = Below"
| "branch_cc Bgeu_k = AboveEqual"

text \<open>The comparison of a branch, and the condition code that goes with it.\<close>

definition emit_compare ::
    "u8 \<Rightarrow> u8 \<Rightarrow> ConditionCode \<Rightarrow> DbtCompiler \<Rightarrow> (ConditionCode \<times> DbtCompiler) option" where
  "emit_compare rs1 rs2 cc c =
    (if rs2 = 0 then do {
       c \<leftarrow> emit (Cmp_x (LMem (loc_of_register rs1)) (OImm 0)) c;
       Some (cc, c)
     }
     else if rs1 = 0 then do {
       c \<leftarrow> emit (Cmp_x (LMem (loc_of_register rs2)) (OImm 0)) c;
       Some (cc_swap cc, c)
     }
     else do {
       c \<leftarrow> emit (Mov_x (LReg RDX) (OMem (loc_of_register rs1))) c;
       c \<leftarrow> emit (Cmp_x (LReg RDX) (OMem (loc_of_register rs2))) c;
       Some (cc, c)
     })"

definition emit_branch ::
    "DbtEnv \<Rightarrow> u8 \<Rightarrow> u8 \<Rightarrow> i32 \<Rightarrow> ConditionCode \<Rightarrow> Op \<Rightarrow> bool \<Rightarrow> DbtCompiler \<Rightarrow> DbtCompiler option" where
  "emit_branch de rs1 rs2 imm cc op compressed c = do {
     (cc, c) \<leftarrow> emit_compare rs1 rs2 cc c;
     (jcc_not, c) \<leftarrow> emit_jcc_long (cc_not cc) c;
     let pre_pc_offset = dc_pc_end c - insn_size compressed;
     let pc_offset = pre_pc_offset + scast imm;
     c \<leftarrow> emit (Add_x (LMem (memory_of off_pc)) (OImm pc_offset)) c;
     c \<leftarrow> pre_adjust_instret c;
     let old_cycles = dc_cycles c;
     c \<leftarrow> model_after_taken_branch op c;
     c \<leftarrow> emit_interrupt_check de c;
     let target = dc_pc_start c + pc_offset;
     let old_pc_cur = dc_pc_cur c;
     let old_instret = dc_instret c;
     let c = c\<lparr>dc_pc_cur := 0, dc_instret := 0\<rparr>;
     c \<leftarrow> (if same_page (dc_pc_start c) target then do {
             c \<leftarrow> (if \<not> same_cache_line de (dc_pc_start c + dc_pc_end c - 1) target then do {
                     ensure (get_ebx c = 0);
                     emit_icache_access de 0 False c
                   }
                   else Some c);
             emit_helper_call de Helper_patch_direct_jump c
           }
           else emit_chain_tail de c);
     let c = c\<lparr>dc_pc_cur := old_pc_cur, dc_instret := old_instret, dc_cycles := old_cycles\<rparr>;
     let label_not = label c;
     patch jcc_not label_not c
   }"

definition emit_jalr ::
    "DbtEnv \<Rightarrow> u8 \<Rightarrow> u8 \<Rightarrow> i32 \<Rightarrow> Op \<Rightarrow> bool \<Rightarrow> DbtCompiler \<Rightarrow> DbtCompiler option" where
  "emit_jalr de rd rs1 imm op compressed c = do {
     c \<leftarrow> pre_adjust_instret c;
     c \<leftarrow> load_reg RAX rs1 c;
     c \<leftarrow> (if imm \<noteq> 0 then emit (Add_x (LReg RAX) (OImm (scast imm))) c else Some c);
     c \<leftarrow> emit (And_x (LReg RAX) (OImm (NOT 1))) c;
     c \<leftarrow> (if rd \<noteq> 0 then do {
             c \<leftarrow> emit (Mov_x (LReg RDX) (OMem (memory_of off_pc))) c;
             c \<leftarrow> emit (Add_x (LReg RDX) (OImm (dc_pc_cur c + insn_size compressed))) c;
             emit (Mov_x (LMem (loc_of_register rd)) (OReg RDX)) c
           }
           else Some c);
     c \<leftarrow> emit (Mov_x (LMem (memory_of off_pc)) (OReg RAX)) c;
     let c = model_after_instruction op c;
     c \<leftarrow> emit_interrupt_check de c;
     emit_chain_tail de c
   }"

definition emit_jal :: "DbtEnv \<Rightarrow> u8 \<Rightarrow> i32 \<Rightarrow> Op \<Rightarrow> bool \<Rightarrow> DbtCompiler \<Rightarrow> DbtCompiler option" where
  "emit_jal de rd imm op compressed c = do {
     c \<leftarrow> pre_adjust_instret c;
     let pc_offset = dc_pc_cur c + insn_size compressed;
     let imm_from_end = scast imm - insn_size compressed;
     c \<leftarrow> (if rd \<noteq> 0 then do {
             c \<leftarrow> emit (Mov_x (LReg RAX) (OMem (memory_of off_pc))) c;
             c \<leftarrow> emit (Lea_x RDX (reg_add_i32 RAX (ucast pc_offset))) c;
             c \<leftarrow> store_reg rd RDX c;
             c \<leftarrow> emit (Add_x (LReg RAX) (OImm (imm_from_end + pc_offset))) c;
             emit (Mov_x (LMem (memory_of off_pc)) (OReg RAX)) c
           }
           else emit (Add_x (LMem (memory_of off_pc)) (OImm (imm_from_end + pc_offset))) c);
     let c = model_after_instruction op c;
     c \<leftarrow> emit_interrupt_check de c;
     let pc_end = dc_pc_start c + dc_pc_end c;
     let target = pc_end + imm_from_end;
     if same_cache_line de pc_end target then emit_helper_call de Helper_patch_direct_jump c
     else emit_chain_tail de c
   }"

section \<open>Instructions\<close>

text \<open>An instruction that is left to the interpreter and may change the flow of control.\<close>

definition emit_disrupting_step :: "DbtEnv \<Rightarrow> Op \<Rightarrow> bool \<Rightarrow> DbtCompiler \<Rightarrow> DbtCompiler option" where
  "emit_disrupting_step de op compressed c = do {
     c \<leftarrow> pre_adjust_pc_instret compressed c;
     let backup = (dc_pc_cur c, dc_instret c);
     let c = c\<lparr>dc_pc_cur := - insn_size compressed, dc_instret := - 1\<rparr>;
     c \<leftarrow> emit_step_call de op c;
     let c = c\<lparr>dc_pc_cur := fst backup, dc_instret := snd backup\<rparr>;
     let c = model_after_instruction op c;
     c \<leftarrow> emit_interrupt_check de c;
     emit_chain_tail de c
   }"

definition special_csr :: "Csr \<Rightarrow> bool" where
  "special_csr csr \<longleftrightarrow>
    csr = Csr_Instret \<or> csr = Csr_Instreth \<or> csr = Csr_Satp \<or> csr = 0x800 \<or> csr = 0x801"

definition emit_csr_op :: "DbtEnv \<Rightarrow> csr_op \<Rightarrow> u8 \<Rightarrow> u8 \<Rightarrow> Csr \<Rightarrow> bool \<Rightarrow> DbtCompiler \<Rightarrow> DbtCompiler option" where
  "emit_csr_op de k rd rs1 csr compressed c =
    (if special_csr csr then emit_disrupting_step de (OpCsr k rd rs1 csr) compressed c
     else if k = Csrrw_k \<and> rd = 0 then do {
       c \<leftarrow> before_side_effect de c;
       c \<leftarrow> load_reg RDX rs1 c;
       c \<leftarrow> emit_write_csr de csr c;
       emit_trap_check c
     }
     else if k \<noteq> Csrrw_k \<and> rs1 = 0 then emit_csr_read_op de rd csr c
     else emit_step_call de (OpCsr k rd rs1 csr) c)"

definition emit_csri_op :: "DbtEnv \<Rightarrow> csri_op \<Rightarrow> u8 \<Rightarrow> u8 \<Rightarrow> Csr \<Rightarrow> bool \<Rightarrow> DbtCompiler \<Rightarrow> DbtCompiler option" where
  "emit_csri_op de k rd imm csr compressed c =
    (if special_csr csr then emit_disrupting_step de (OpCsrI k rd imm csr) compressed c
     else if k = Csrrwi_k \<and> rd = 0 then do {
       c \<leftarrow> before_side_effect de c;
       c \<leftarrow> emit (Mov_x (LReg RDX) (OImm (ucast imm))) c;
       c \<leftarrow> emit_write_csr de csr c;
       emit_trap_check c
     }
     else if k \<noteq> Csrrwi_k \<and> imm = 0 then emit_csr_read_op de rd csr c
     else emit_step_call de (OpCsrI k rd imm csr) c)"

definition emit_auipc :: "u8 \<Rightarrow> i32 \<Rightarrow> DbtCompiler \<Rightarrow> DbtCompiler option" where
  "emit_auipc rd imm c = do {
     let imm = scast imm + dc_pc_cur c;
     c \<leftarrow> emit (Mov_x (LReg RAX) (OMem (memory_of off_pc))) c;
     c \<leftarrow> emit (Add_x (LReg RAX) (OImm imm)) c;
     store_reg rd RAX c
   }"

text \<open>The instructions that only compute on registers.\<close>

definition emit_imm_op :: "imm_op \<Rightarrow> u8 \<Rightarrow> u8 \<Rightarrow> i32 \<Rightarrow> DbtCompiler \<Rightarrow> DbtCompiler option" where
  "emit_imm_op k =
    (case k of
       Addi_k \<Rightarrow> emit_addi | Slli_k \<Rightarrow> emit_slli | Slti_k \<Rightarrow> emit_slti | Sltiu_k \<Rightarrow> emit_sltiu
     | Xori_k \<Rightarrow> emit_xori | Srli_k \<Rightarrow> emit_srli | Srai_k \<Rightarrow> emit_srai | Ori_k \<Rightarrow> emit_ori | Andi_k \<Rightarrow> emit_andi)"

definition emit_imm32_op :: "imm32_op \<Rightarrow> u8 \<Rightarrow> u8 \<Rightarrow> i32 \<Rightarrow> DbtCompiler \<Rightarrow> DbtCompiler option" where
  "emit_imm32_op k =
    (case k of Addiw_k \<Rightarrow> emit_addiw | Slliw_k \<Rightarrow> emit_slliw | Srliw_k \<Rightarrow> emit_srliw | Sraiw_k \<Rightarrow> emit_sraiw)"

definition emit_reg_op :: "reg_op \<Rightarrow> u8 \<Rightarrow> u8 \<Rightarrow> u8 \<Rightarrow> DbtCompiler \<Rightarrow> DbtCompiler option" where
  "emit_reg_op k =
    (case k of
       Add_k \<Rightarrow> emit_add | Sub_k \<Rightarrow> emit_sub | Sll_k \<Rightarrow> emit_sll | Slt_k \<Rightarrow> emit_slt | Sltu_k \<Rightarrow> emit_sltu
     | Xor_k \<Rightarrow> emit_xor | Srl_k \<Rightarrow> emit_srl | Sra_k \<Rightarrow> emit_sra | Or_k \<Rightarrow> emit_or | And_k \<Rightarrow> emit_and)"

definition emit_reg32_op :: "reg32_op \<Rightarrow> u8 \<Rightarrow> u8 \<Rightarrow> u8 \<Rightarrow> DbtCompiler \<Rightarrow> DbtCompiler option" where
  "emit_reg32_op k =
    (case k of Addw_k \<Rightarrow> emit_addw | Subw_k \<Rightarrow> emit_subw | Sllw_k \<Rightarrow> emit_sllw | Srlw_k \<Rightarrow> emit_srlw
     | Sraw_k \<Rightarrow> emit_sraw)"

definition emit_mul_op :: "mul_op \<Rightarrow> u8 \<Rightarrow> u8 \<Rightarrow> u8 \<Rightarrow> DbtCompiler \<Rightarrow> DbtCompiler option" where
  "emit_mul_op k rd rs1 rs2 =
    (case k of
       Mul_k \<Rightarrow> emit_mul rd rs1 rs2
     | Mulh_k \<Rightarrow> emit_mulh rd rs1 rs2 False
     | Mulhsu_k \<Rightarrow> emit_mulhsu rd rs1 rs2
     | Mulhu_k \<Rightarrow> emit_mulh rd rs1 rs2 True
     | Div_k \<Rightarrow> emit_div rd rs1 rs2 False False
     | Divu_k \<Rightarrow> emit_div rd rs1 rs2 True False
     | Rem_k \<Rightarrow> emit_div rd rs1 rs2 False True
     | Remu_k \<Rightarrow> emit_div rd rs1 rs2 True True)"

definition emit_mul32_op :: "mul32_op \<Rightarrow> u8 \<Rightarrow> u8 \<Rightarrow> u8 \<Rightarrow> DbtCompiler \<Rightarrow> DbtCompiler option" where
  "emit_mul32_op k rd rs1 rs2 =
    (case k of
       Mulw_k \<Rightarrow> emit_mulw rd rs1 rs2
     | Divw_k \<Rightarrow> emit_divw rd rs1 rs2 False False
     | Divuw_k \<Rightarrow> emit_divw rd rs1 rs2 True False
     | Remw_k \<Rightarrow> emit_divw rd rs1 rs2 False True
     | Remuw_k \<Rightarrow> emit_divw rd rs1 rs2 True True)"

definition emit_op :: "DbtEnv \<Rightarrow> Op \<Rightarrow> bool \<Rightarrow> DbtCompiler \<Rightarrow> DbtCompiler option" where
  "emit_op de op compressed c =
    (case op of
       OpLoad k rd rs1 imm \<Rightarrow> emit_load_op de k rd rs1 imm c
     | OpImm k rd rs1 imm \<Rightarrow> emit_imm_op k rd rs1 imm c
     | Fence \<Rightarrow> emit Mfence_x c
     | OpImm32 k rd rs1 imm \<Rightarrow> emit_imm32_op k rd rs1 imm c
     | OpStore k rs1 rs2 imm \<Rightarrow> emit_store de rs1 rs2 imm (store_size k) c
     | OpReg k rd rs1 rs2 \<Rightarrow> emit_reg_op k rd rs1 rs2 c
     | Lui rd imm \<Rightarrow> emit_load_imm rd imm c
     | OpReg32 k rd rs1 rs2 \<Rightarrow> emit_reg32_op k rd rs1 rs2 c
     | Auipc rd imm \<Rightarrow> emit_auipc rd imm c
     | OpBranch k rs1 rs2 imm \<Rightarrow> emit_branch de rs1 rs2 imm (branch_cc k) op compressed c
     | Jalr rd rs1 imm \<Rightarrow> emit_jalr de rd rs1 imm op compressed c
     | Jal rd imm \<Rightarrow> emit_jal de rd imm op compressed c
     | OpCsr k rd rs1 csr \<Rightarrow> emit_csr_op de k rd rs1 csr compressed c
     | OpCsrI k rd imm csr \<Rightarrow> emit_csri_op de k rd imm csr compressed c
     | OpMul k rd rs1 rs2 \<Rightarrow> emit_mul_op k rd rs1 rs2 c
     | OpMul32 k rd rs1 rs2 \<Rightarrow> emit_mul32_op k rd rs1 rs2 c
     | OpLr w rd rs1 _ \<Rightarrow> emit_lr de w rd rs1 c
     | OpAmo k w rd rs1 rs2 _ \<Rightarrow> emit_amo_op de k w rd rs1 rs2 c
     | Wfi \<Rightarrow> if dbt_threaded de \<or> \<not> dbt_wfi_nop de then emit_step_call de op c else Some c
     | Mret \<Rightarrow> emit_disrupting_step de op compressed c
     | Sret \<Rightarrow> emit_disrupting_step de op compressed c
     | Ecall \<Rightarrow> emit_disrupting_step de op compressed c
     | Ebreak \<Rightarrow> emit_disrupting_step de op compressed c
     | Illegal \<Rightarrow> emit_disrupting_step de op compressed c
     | FenceI \<Rightarrow> emit_disrupting_step de op compressed c
     | SfenceVma _ _ \<Rightarrow> emit_disrupting_step de op compressed c
     | _ \<Rightarrow> emit_step_call de op c)"

section \<open>Blocks\<close>

definition compile_op :: "DbtEnv \<Rightarrow> Op \<Rightarrow> bool \<Rightarrow> u32 \<Rightarrow> DbtCompiler \<Rightarrow> DbtCompiler option" where
  "compile_op de op compressed bits c = do {
     let c = c\<lparr>dc_pc_end := dc_pc_cur c + insn_size compressed\<rparr>;
     c \<leftarrow> (if dbt_sanitize de then do {
             c \<leftarrow> emit_icache_access de (dc_pc_end c - 1) True c;
             if bits \<noteq> 0 then do {
               let m = reg_sub_i32 RSI (if compressed then 1 else 3);
               let m = mem_resize m (if compressed then Word else Dword);
               c \<leftarrow> emit (Cmp_x (LMem m) (OImm (ucast bits))) c;
               emit_helper_jcc de NotEqual Helper_san_fail c
             }
             else Some c
           }
           else if \<not> same_cache_line de (dc_pc_start c + dc_pc_cur c - 1) (dc_pc_start c + dc_pc_end c - 1)
               \<and> dc_pc_cur c \<noteq> 0
             then emit_icache_access de (dc_pc_end c - 1) False c
           else Some c);
     let c = model_before_instruction op c;
     c \<leftarrow> emit_op de op compressed c;
     let c = model_after_instruction op c;
     Some (c\<lparr>dc_pc_cur := dc_pc_end c, dc_instret := dc_instret c + 1\<rparr>)
   }"

definition compile_cond_op :: "DbtEnv \<Rightarrow> Op \<Rightarrow> bool \<Rightarrow> Op \<Rightarrow> bool \<Rightarrow> DbtCompiler \<Rightarrow> DbtCompiler option" where
  "compile_cond_op de bop bcompressed op compressed c = do {
     let c = c\<lparr>dc_pc_end := dc_pc_cur c + insn_size bcompressed + insn_size compressed\<rparr>;
     c \<leftarrow> (if \<not> same_cache_line de (dc_pc_start c + dc_pc_cur c - 1) (dc_pc_start c + dc_pc_end c - 1)
           then emit_icache_access de (dc_pc_end c - 1) False c else Some c);
     (rs1, rs2, cc) \<leftarrow> (case bop of OpBranch k rs1 rs2 _ \<Rightarrow> Some (rs1, rs2, branch_cc k) | _ \<Rightarrow> None);
     let c = model_after_instruction bop (model_before_instruction bop c);
     c \<leftarrow> before_side_effect de c;
     (cc, c) \<leftarrow> emit_compare rs1 rs2 cc c;
     (jcc, c) \<leftarrow> emit_jcc_long cc c;
     c \<leftarrow> emit (Add_x (LMem (memory_of off_instret)) (OImm 1)) c;
     let c = c\<lparr>dc_pc_cur := dc_pc_cur c + insn_size bcompressed\<rparr>;
     let c = model_before_instruction op c;
     c \<leftarrow> emit_op de op compressed c;
     let c = model_after_instruction op c;
     c \<leftarrow> before_side_effect de c;
     let label_fin = label c;
     c \<leftarrow> patch jcc label_fin c;
     Some (c\<lparr>dc_pc_cur := dc_pc_end c, dc_instret := dc_instret c + 1\<rparr>)
   }"

definition dbt_begin :: "DbtEnv \<Rightarrow> u64 \<Rightarrow> DbtCompiler \<Rightarrow> DbtCompiler option" where
  "dbt_begin de pc c = do {
     let c = c\<lparr>dc_pc_start := pc\<rparr>;
     c \<leftarrow> emit_icache_access de 0 True c;
     c \<leftarrow> (if fits_i32 pc then emit (Cmp_x (LReg RSI) (OImm pc)) c
           else do {
             c \<leftarrow> emit (Mov_x (LReg RAX) (OImm pc)) c;
             emit (Cmp_x (LReg RSI) (OReg RAX)) c
           });
     c \<leftarrow> emit_helper_jcc de NotEqual Helper_pred_miss c;
     let c = c\<lparr>dc_speculative_len := length (dc_code c)\<rparr>;
     Some (model_begin_block pc c)
   }"

definition emit_slow :: "DbtEnv \<Rightarrow> SlowPath \<Rightarrow> DbtCompiler \<Rightarrow> DbtCompiler option" where
  "emit_slow de slow c =
    (case slow of
       SlowDCache ebx write jcc_misalign jcc_miss label_fin \<Rightarrow>
         dcache_access_slow de ebx write jcc_misalign jcc_miss label_fin c
     | SlowICache ebx jcc_miss label_fin \<Rightarrow> emit_icache_slow de ebx jcc_miss label_fin c
     | SlowTrap ebx jcc_trap \<Rightarrow> emit_trap de ebx jcc_trap c)"

fun emit_slows :: "DbtEnv \<Rightarrow> SlowPath list \<Rightarrow> DbtCompiler \<Rightarrow> DbtCompiler option" where
  "emit_slows de [] c = Some c"
| "emit_slows de (p # ps) c = do { c \<leftarrow> emit_slow de p c; emit_slows de ps c }"

definition emit_slow_path :: "DbtEnv \<Rightarrow> DbtCompiler \<Rightarrow> DbtCompiler option" where
  "emit_slow_path de c = emit_slows de (dc_slow_path c) (c\<lparr>dc_slow_path := []\<rparr>)"

fun emit_nops :: "nat \<Rightarrow> DbtCompiler \<Rightarrow> DbtCompiler option" where
  "emit_nops 0 c = Some c"
| "emit_nops (Suc n) c = do { c \<leftarrow> emit Nop_x c; emit_nops n c }"

definition end_cross :: "DbtEnv \<Rightarrow> u16 \<Rightarrow> DbtCompiler \<Rightarrow> DbtCompiler option" where
  "end_cross de lo_bits c = do {
     c \<leftarrow> pre_adjust_pc_instret False c;
     let c = c\<lparr>dc_pc_cur := - 4, dc_instret := - 1\<rparr>;
     c \<leftarrow> emit_icache_access de (- 2) True c;
     c \<leftarrow> emit (Cmp_x (LMem (at_rsi Word)) (OImm 0xCCCC)) c;
     (jcc_miss, c) \<leftarrow> emit_jcc_long NotEqual c;
     let label_fin = label c;
     (jmp_miss, c) \<leftarrow> emit_jmp_long c;
     c \<leftarrow> emit_nops (PAGE_CROSS_RESERVATION - 5) c;
     let label_miss = label c;
     c \<leftarrow> patch jcc_miss label_miss c;
     c \<leftarrow> patch jmp_miss label_miss c;
     c \<leftarrow> emit (Mov_x (LReg ECX) (OImm (ucast lo_bits))) c;
     c \<leftarrow> emit_helper_call de Helper_icache_cross_miss c;
     (jmp_fin, c) \<leftarrow> emit_jmp_long c;
     c \<leftarrow> patch jmp_fin label_fin c;
     emit_slow_path de c
   }"

definition dbt_end :: "DbtEnv \<Rightarrow> DbtCompiler \<Rightarrow> DbtCompiler option" where
  "dbt_end de c = do {
     c \<leftarrow> post_adjust_pc_instret c;
     c \<leftarrow> emit_interrupt_check de c;
     let pc_end = dc_pc_start c + dc_pc_cur c;
     c \<leftarrow> (if same_cache_line de (pc_end - 1) pc_end then emit_helper_call de Helper_patch_direct_jump c
           else emit_chain_tail de c);
     emit_slow_path de c
   }"

definition end_unreachable :: "DbtEnv \<Rightarrow> DbtCompiler \<Rightarrow> DbtCompiler option" where
  "end_unreachable de c = emit_slow_path de c"

text \<open>
  \<open>icache_cross_miss\<close>: compiles the instruction that spans two pages into the \<open>PAGE_CROSS_RESERVATION\<close> bytes at
  \<open>patch\<close>. The result is the code for that place and the half-word written before it.
\<close>

definition icache_cross_miss ::
    "DbtEnv \<Rightarrow> PipelineModel \<Rightarrow> u64 \<Rightarrow> u64 \<Rightarrow> u64 \<Rightarrow> u32 \<Rightarrow> (u8 list \<times> u16) option" where
  "icache_cross_miss de pm prv pc ptr insn = do {
     op \<leftarrow> decode insn;
     let op = (if (ucast prv :: u8) < min_prv_level op then Illegal else op);
     let c = (dbt_new pm ptr PAGE_CROSS_RESERVATION)\<lparr>dc_pc_start := pc + 2, dc_pc_cur := - 4, dc_pc_end := 0,
               dc_instret := - 1\<rparr>;
     let c = model_before_instruction op (model_begin_block pc c);
     c \<leftarrow> emit_op de op False c;
     let unreachable = (case op of OpBranch _ _ _ _ \<Rightarrow> False | _ \<Rightarrow> can_change_control_flow op);
     c \<leftarrow> (if \<not> unreachable then do {
             let c = model_after_instruction op c;
             c \<leftarrow> emit_interrupt_check de c;
             emit_chain_tail de c
           }
           else Some c);
     c \<leftarrow> end_unreachable de c;
     Some (dc_code c, ucast (drop_bit 16 insn))
   }"

end
