(* ===== verification/Dbt_Correct.thy ===== *)
theory Dbt_Correct
  imports Signal Dbt_Block
begin

text \<open>
  The generated code of the integer instructions computes what the interpreter computes. \<open>guest p \<rho> s\<close>
  says that the host state \<open>s\<close> has the guest registers \<open>\<rho>\<close> in the register file at the address \<open>p\<close> that
  \<open>RBP\<close> holds. \<open>computes f rd val\<close> is the contract of a generator \<open>f\<close>: it emits a fixed sequence of at
  most eight operations that encode and decode, and in every state that represents \<open>\<rho>\<close> this sequence stores \<open>val \<rho>\<close> as
  register \<open>rd\<close> and changes nothing else but scratch registers and flags.
\<close>

section \<open>Straight-line code\<close>

primrec emit_ops :: "X86Op list \<Rightarrow> DbtCompiler \<Rightarrow> DbtCompiler option" where
  "emit_ops [] c = Some c"
| "emit_ops (op # ops) c = Option.bind (emit op c) (emit_ops ops)"

lemma emit_ops_append: "emit_ops (xs @ ys) c = Option.bind (emit_ops xs c) (emit_ops ys)"
proof (induction xs arbitrary: c)
  case (Cons op xs)
  then show ?case by (cases "emit op c") simp_all
qed simp

text \<open>Rewriting a generator to the list it emits.\<close>

lemma emit_as_ops: "emit op = emit_ops [op]"
proof
  fix c show "emit op c = emit_ops [op] c" by (cases "emit op c") simp_all
qed

lemma bind_emit_ops: "Option.bind (emit_ops xs c) (emit_ops ys) = emit_ops (xs @ ys) c"
  by (simp add: emit_ops_append)

lemma emit_ops_if: "(if b then emit_ops xs c else emit_ops ys c) = emit_ops (if b then xs else ys) c"
  by simp

lemma Some_as_ops: "Some c = emit_ops [] c"
  by simp

lemmas to_ops = emit_as_ops bind_emit_ops emit_ops_if Some_as_ops

definition op_ok :: "X86Op \<Rightarrow> bool" where
  "op_ok op \<longleftrightarrow> x86_encode op \<noteq> None \<and> x86_decodable op"

definition code_of :: "X86Op list \<Rightarrow> u8 list" where
  "code_of ops = concat (map (\<lambda>op. the (x86_encode op)) ops)"

lemma emit_ops_code:
  assumes "emit_ops ops c = Some c'"
  shows "c' = c\<lparr>dc_code := dc_code c @ code_of ops\<rparr>"
  using assms
proof (induction ops arbitrary: c)
  case (Cons op ops)
  then obtain bs where "x86_encode op = Some bs"
    "emit_ops ops (c\<lparr>dc_code := dc_code c @ bs\<rparr>) = Some c'"
    by (auto simp: emit_def Option.bind_eq_Some_conv)
  then show ?case using Cons.IH by (fastforce simp: code_of_def)
qed (simp add: code_of_def)

lemma emit_ops_fits:
  assumes "list_all op_ok ops" "length (dc_code c) + length (code_of ops) \<le> dc_capacity c"
  shows "emit_ops ops c = Some (c\<lparr>dc_code := dc_code c @ code_of ops\<rparr>)"
  using assms
proof (induction ops arbitrary: c)
  case (Cons op ops)
  then obtain bs where bs: "x86_encode op = Some bs" by (auto simp: op_ok_def)
  have "emit op c = Some (c\<lparr>dc_code := dc_code c @ bs\<rparr>)"
    using Cons.prems bs by (simp add: emit_def code_of_def)
  then show ?case
    using Cons.IH [of "c\<lparr>dc_code := dc_code c @ bs\<rparr>"] Cons.prems bs by (simp add: code_of_def)
qed (simp add: code_of_def)

lemma exec_all_steps:
  assumes "list_all op_ok ops" "exec_all ops s = Some s'" "length (pre @ code_of ops @ post) < 2 ^ 64"
  shows "host_steps (pre @ code_of ops @ post) (length pre, s) (length pre + length (code_of ops), s')"
  using assms
proof (induction ops arbitrary: pre s)
  case Nil
  then show ?case by (simp add: code_of_def host_steps.refl)
next
  case (Cons op ops)
  obtain bs where bs: "x86_encode op = Some bs" "x86_decodable op" using Cons.prems(1) by (auto simp: op_ok_def)
  obtain s1 where s1: "exec_handled op s = Some s1" "exec_all ops s1 = Some s'"
    using Cons.prems(2) by (auto simp: Option.bind_eq_Some_conv)
  have code: "code_of (op # ops) = bs @ code_of ops" by (simp add: code_of_def bs)
  have "host_step (pre @ bs @ (code_of ops @ post)) (length pre, s) = Some (length pre + length bs, s1)"
    using bs s1(1) Cons.prems(3) code by (intro host_step_encoded) simp_all
  moreover have "host_steps ((pre @ bs) @ code_of ops @ post) (length (pre @ bs), s1)
      (length (pre @ bs) + length (code_of ops), s')"
    using Cons.prems s1(2) code by (intro Cons.IH) simp_all
  ultimately show ?case by (auto simp: code add.assoc intro: host_steps.step)
qed

section \<open>The register file\<close>

definition slot :: "u64 \<Rightarrow> u8 \<Rightarrow> u64" where
  "slot p r = p + 8 * ucast r"

definition guest :: "u64 \<Rightarrow> (u8 \<Rightarrow> u64) \<Rightarrow> x86_state \<Rightarrow> bool" where
  "guest p \<rho> s \<longleftrightarrow> gpr s 5 = p \<and> \<rho> 0 = 0 \<and> (\<forall>r < 32. load_bytes 8 (xmem s) (slot p r) = \<rho> r)"

definition wrote :: "u64 \<Rightarrow> u8 \<Rightarrow> u64 \<Rightarrow> x86_state \<Rightarrow> x86_state \<Rightarrow> bool" where
  "wrote p rd v s s' \<longleftrightarrow>
    xmem s' = (if rd = 0 then xmem s else store_bytes 8 (slot p rd) v (xmem s)) \<and>
    (\<forall>i. i \<notin> {0, 1, 2, 6} \<longrightarrow> gpr s' i = gpr s i)"

lemma scast_slot: "scast (ucast r * 8 :: i32) = (8 * ucast r :: u64)" for r :: u8
proof -
  have r: "0 \<le> uint r" "uint r < 256" using uint_lt2p [of r] by simp_all
  have "(ucast r * 8 :: i32) = word_of_int (uint r * 8)" by simp
  moreover have "signed_take_bit 31 (uint r * 8) = uint r * 8"
    by (rule signed_take_bit_int_eq_self; simp; use r in linarith)
  ultimately have "sint (ucast r * 8 :: i32) = uint r * 8" by (simp only: sint_sbintrunc') simp
  then have "scast (ucast r * 8 :: i32) = (word_of_int (uint r * 8) :: u64)"
    by (simp only: scast_eq)
  then show ?thesis by (simp add: mult.commute)
qed

lemma effective_slot [simp]:
  "effective_address (loc_of_register r) s = slot (gpr s 5) r"
  "effective_address (reg_slot z r) s = slot (gpr s 5) r"
  by (simp_all add: effective_address_def loc_of_register_def reg_slot_def mem_resize_def reg_add_i32_def
      scast_slot slot_def)

lemma slot_parts [simp]:
  "m_size (loc_of_register r) = Qword" "m_size (reg_slot z r) = z"
  "m_base (loc_of_register r) = Some RBP" "m_base (reg_slot z r) = Some RBP"
  "m_index (loc_of_register r) = None" "m_index (reg_slot z r) = None"
  by (simp_all add: loc_of_register_def reg_slot_def mem_resize_def reg_add_i32_def)

lemma load_bytes_cong:
  "(\<And>k. k < n \<Longrightarrow> m (a + of_nat k) = m' (a + of_nat k)) \<Longrightarrow> load_bytes n m a = load_bytes n m' a"
proof (induction n arbitrary: a)
  case (Suc n)
  have "m a = m' a" using Suc.prems [of 0] by simp
  moreover have "load_bytes n m (a + 1) = load_bytes n m' (a + 1)"
    using Suc.prems [of "Suc _"] by (intro Suc.IH) (simp add: ac_simps)
  ultimately show ?case by simp
qed simp

lemma store_bytes_at:
  "k < n \<Longrightarrow> n < 2 ^ 64 \<Longrightarrow> store_bytes n a v m (a + of_nat k) = ucast (drop_bit (8 * k) v)"
proof (induction n arbitrary: a v m k)
  case (Suc n)
  show ?case
  proof (cases k)
    case 0
    have "store_bytes n (a + 1) (drop_bit 8 v) (m(a := ucast v)) a = ucast v"
      using of_nat_Suc_nonzero [of _ n] Suc.prems by (subst store_bytes_other) (auto simp: add.assoc)
    then show ?thesis using 0 by simp
  next
    case (Suc j)
    then show ?thesis
      using Suc.IH [of j "a + 1" "drop_bit 8 v"] Suc.prems by (simp add: ac_simps)
  qed
qed simp

lemma slots_apart:
  assumes "slot p r + of_nat j = slot p r' + of_nat k" "j < 8" "k < 8"
  shows "r = r'"
proof -
  have u: "unat r < 256" "unat r' < 256" using unsigned_less [of r] unsigned_less [of r'] by simp_all
  have "(of_nat (8 * unat r + j) :: u64) = of_nat (8 * unat r' + k)"
    using assms(1) by (simp add: slot_def)
  then have "unat (of_nat (8 * unat r + j) :: u64) = unat (of_nat (8 * unat r' + k) :: u64)" by (rule arg_cong)
  then have "8 * unat r + j = 8 * unat r' + k" using u assms(2,3) by (simp only: unat_of_nat) simp
  then show ?thesis using assms(2,3) by (simp add: word_unat_eq_iff)
qed

lemma load_bytes_8: "load_bytes 8 (store_bytes 8 a v m) a = v"
  using load_store_bytes [of 8 a v m] by (simp add: take_bit_word_eq_self)

lemma load_slot_other: "r \<noteq> r' \<Longrightarrow> load_bytes 8 (store_bytes 8 (slot p r) v m) (slot p r') = load_bytes 8 m (slot p r')"
  by (intro load_bytes_cong store_bytes_other) (metis slots_apart)

lemma load_slot [simp]:
  "load_bytes 8 (store_bytes 8 (slot p r) v m) (slot p r') = (if r = r' then v else load_bytes 8 m (slot p r'))"
  using load_bytes_8 load_slot_other by simp

lemma store_twice [simp]: "store_bytes 8 a v (store_bytes 8 a w m) = store_bytes 8 a v m"
proof
  fix b
  show "store_bytes 8 a v (store_bytes 8 a w m) b = store_bytes 8 a v m b"
  proof (cases "\<exists>k < 8. b = a + of_nat k")
    case True
    then show ?thesis by (auto simp: store_bytes_at)
  next
    case False
    then have "store_bytes 8 a x m' b = m' b" for x m' by (intro store_bytes_other) blast
    then show ?thesis by simp
  qed
qed

lemma load_bytes_at: "k < n \<Longrightarrow> n \<le> 8 \<Longrightarrow> ucast (drop_bit (8 * k) (load_bytes n m a)) = m (a + of_nat k)"
proof (induction n arbitrary: a k)
  case (Suc n)
  show ?case
  proof (cases k)
    case 0
    show ?thesis by (rule bit_word_eqI) (auto simp: 0 bit_simps)
  next
    case (Suc j)
    have "ucast (drop_bit (8 * k) (load_bytes (Suc n) m a)) =
        (ucast (drop_bit (8 * j) (load_bytes n m (a + 1))) :: u8)"
      using Suc Suc.prems by (intro bit_word_eqI) (auto simp: bit_simps ac_simps dest: bit_imp_le_length)
    also have "\<dots> = m (a + 1 + of_nat j)" using Suc Suc.prems by (intro Suc.IH) simp_all
    finally show ?thesis by (simp add: Suc ac_simps)
  qed
qed simp

lemma store_same: "load_bytes 8 m a = v \<Longrightarrow> store_bytes 8 a v m = m"
proof
  fix b
  assume v: "load_bytes 8 m a = v"
  show "store_bytes 8 a v m b = m b"
  proof (cases "\<exists>k < 8. b = a + of_nat k")
    case True
    then show ?thesis using load_bytes_at [of _ 8 m a] v by (auto simp: store_bytes_at)
  next
    case False
    then show ?thesis by (intro store_bytes_other) blast
  qed
qed

lemma load_bytes_take: "n \<le> k \<Longrightarrow> load_bytes n m a = take_bit (8 * n) (load_bytes k m a)"
proof (induction n arbitrary: k a)
  case (Suc n)
  then obtain j where k: "k = Suc j" "n \<le> j" by (cases k) auto
  have "load_bytes n m (a + 1) = take_bit (8 * n) (load_bytes j m (a + 1))" using Suc.IH k(2) by blast
  then show ?case
    by (simp add: k) (rule bit_word_eqI, auto simp: bit_simps dest: bit_imp_le_length)
qed simp

lemma load_bytes_dword: "load_bytes 4 m a = ucast (ucast (load_bytes 8 m a) :: u32)"
  by (rule bit_word_eqI) (auto simp: load_bytes_take [of 4 8] bit_simps)

lemma load_bytes_byte: "load_bytes (Suc 0) m a = ucast (ucast (load_bytes 8 m a) :: u8)"
  by (rule bit_word_eqI) (auto simp: load_bytes_take [of "Suc 0" 8] bit_simps simp del: load_bytes.simps)

lemma guest_wrote:
  assumes "guest p \<rho> s" "wrote p rd v s s'" "rd \<noteq> 0 \<or> v = 0"
  shows "guest p (\<rho>(rd := v)) s'"
  using assms by (auto simp: guest_def wrote_def)

section \<open>The contract of a generator\<close>

definition computes :: "(DbtCompiler \<Rightarrow> DbtCompiler option) \<Rightarrow> u8 \<Rightarrow> ((u8 \<Rightarrow> u64) \<Rightarrow> u64) \<Rightarrow> bool" where
  "computes f rd val \<longleftrightarrow>
    (\<exists>ops. (\<forall>c. f c = emit_ops ops c) \<and> list_all op_ok ops \<and> length ops \<le> 8 \<and>
      (\<forall>p \<rho> s. guest p \<rho> s \<longrightarrow> (\<exists>s'. exec_all ops s = Some s' \<and> wrote p rd (val \<rho>) s s')))"

lemma computesI:
  assumes "\<And>c. f c = emit_ops ops c" "list_all op_ok ops \<and> length ops \<le> 8"
    "\<And>p \<rho> s. gpr s 5 = p \<Longrightarrow> \<rho> 0 = 0 \<Longrightarrow> (\<And>r. r < 32 \<Longrightarrow> load_bytes 8 (xmem s) (slot p r) = \<rho> r)
      \<Longrightarrow> \<exists>s'. exec_all ops s = Some s' \<and> wrote p rd (val \<rho>) s s'"
  shows "computes f rd val"
  using assms unfolding computes_def guest_def by blast

lemma computes_none: "computes Some 0 val"
  by (rule computesI [of _ "[]"]) (simp_all add: wrote_def)

section \<open>Operations that encode\<close>

lemma rex_encodes:
  "\<not> is_high_byte n \<Longrightarrow> \<exists>bs. emit_rex (LMem m) n rex = Some bs"
  "\<not> is_high_byte n \<Longrightarrow> \<not> is_high_byte (reg_num r) \<Longrightarrow> \<exists>bs. emit_rex (LReg r) n rex = Some bs"
  by (auto simp: emit_rex_def Let_def simp del: is_high_byte_reg)

lemma r_rm_encodes_mem:
  assumes "m_base m = Some RBP" "m_index m = None" "\<not> is_high_byte n"
  shows "emit_r_rm z (LMem m) n opcode \<noteq> None"
proof -
  obtain bs where "emit_rex (LMem m) n (if z = Qword then 8 else 0) = Some bs"
    using rex_encodes(1) assms(3) by blast
  then show ?thesis using assms(1,2) by (simp add: emit_r_rm_def emit_modrm_def emit_mem_def Let_def reg_kinds)
qed

lemma r_rm_encodes_reg:
  assumes "\<not> is_high_byte n" "\<not> is_high_byte (reg_num r)"
  shows "emit_r_rm z (LReg r) n opcode \<noteq> None"
proof -
  obtain bs where "emit_rex (LReg r) n (if z = Qword then 8 else 0) = Some bs"
    using rex_encodes(2) assms by blast
  then show ?thesis by (simp add: emit_r_rm_def emit_modrm_def)
qed

lemma high_byte_small [simp]: "n < 0x14 \<Longrightarrow> \<not> is_high_byte n"
  by (auto simp: is_high_byte_def reg_kinds dest: leD)

lemma high_byte_low [simp]: "\<not> is_high_byte (reg_num CL)" "\<not> is_high_byte (reg_num AL)"
  by (simp_all add: is_high_byte_def reg_kinds del: is_high_byte_reg)

lemma high_byte_wide [simp]: "\<not> is_high_byte (reg_num (GPQ i))" "\<not> is_high_byte (reg_num (GPD i))"
  by (simp_all del: reg_num.simps)

lemma fits_i32_scast [simp]: "fits_i32 (scast (imm :: i32) :: i64)"
proof -
  have b: "- (2 ^ 31) \<le> sint imm" "sint imm < 2 ^ 31"
    using sint_greater_eq [of imm] sint_less [of imm] by simp_all
  have "sint (scast imm :: i64) = sint imm" by (rule sint_up_scast) (simp add: is_up)
  then show ?thesis using b by (simp add: fits_i32_def)
qed

lemma size_bytes_simps [simp]:
  "size_bytes Byte = Suc 0" "size_bytes Word = 2" "size_bytes Dword = 4" "size_bytes Qword = 8"
  by (simp_all add: size_bytes_def)

lemmas encode_defs = emit_alu_def emit_mov_def emit_mov_imm_rm_def emit_shift_def emit_rm_def emit_movsx_def emit_movzx_def
  emit_setcc_def emit_pair_def emit_plusr_def check_imm_size_def less_Size_def cap_to_dword_def

lemma ensure_None [simp]: "ensure b = None \<longleftrightarrow> \<not> b"
  by (simp add: ensure_def)

lemma slot_qword: "loc_of_register r = reg_slot Qword r"
  by (simp add: reg_slot_def mem_resize_def loc_of_register_def reg_add_i32_def)

lemmas op_ok_simps = op_ok_def encode_defs r_rm_encodes_mem r_rm_encodes_reg Option.bind_eq_None_conv

lemma op_ok_mov:
  "op_ok (Mov_x (LReg (GPQ i)) (OMem (reg_slot Qword r)))"
  "op_ok (Mov_x (LReg (GPD i)) (OMem (reg_slot Dword r)))"
  "op_ok (Mov_x (LReg CL) (OMem (reg_slot Byte r)))"
  "op_ok (Mov_x (LReg (GPQ i)) (OReg (GPQ j)))"
  "op_ok (Mov_x (LMem (reg_slot Qword r)) (OReg (GPQ i)))"
  "op_ok (Mov_x (LMem (reg_slot Qword r)) (OImm (scast (imm :: i32))))"
  "op_ok (Movsx_x (GPQ i) (LMem (reg_slot Dword r)))"
  "op_ok (Movsx_x (GPQ i) (LReg (GPD j)))"
  "op_ok (Movzx_x EAX (LReg AL))"
  "op_ok (Setcc_x (LReg AL) cc)"
  "op_ok Cdqe_x" "op_ok Cdq_x" "op_ok Cqo_x"
  by (simp_all add: op_ok_simps del: reg_num.simps not_None_eq is_high_byte_reg)

lemma op_ok_alu_imm:
  fixes imm :: i32
  assumes "mk \<in> {Add_x, And_x, Or_x, Xor_x, Cmp_x}" "loc = LReg (GPQ i) \<or> loc = LReg (GPD i) \<or> loc = LMem (reg_slot Qword r)"
  shows "op_ok (mk loc (OImm (scast imm)))"
  using assms by (elim insertE emptyE disjE exE conjE; simp add: op_ok_simps del: reg_num.simps not_None_eq is_high_byte_reg)

lemma op_ok_alu:
  assumes "mk \<in> {Add_x, Sub_x, And_x, Or_x, Xor_x, Cmp_x}"
    "(loc, opr) \<in> {(LReg (GPQ i), OReg (GPQ j)), (LReg (GPD i), OReg (GPD j)), (LReg (GPQ i), OMem (reg_slot Qword r)),
      (LReg (GPD i), OMem (reg_slot Dword r)), (LMem (reg_slot Qword r), OReg (GPQ i))}"
  shows "op_ok (mk loc opr)"
  using assms by (elim insertE emptyE disjE exE conjE; simp add: op_ok_simps del: reg_num.simps not_None_eq is_high_byte_reg)

lemma op_ok_shift:
  assumes "mk \<in> {Shl_x, Shr_x, Sar_x}" "loc = LReg (GPQ i) \<or> loc = LReg (GPD i) \<or> loc = LMem (reg_slot Qword r)"
    "opr = OReg CL \<or> (\<exists>imm. opr = OImm imm \<and> fits_u8 imm)"
  shows "op_ok (mk loc opr)"
  using assms by (elim insertE emptyE disjE exE conjE; simp add: op_ok_simps del: reg_num.simps not_None_eq is_high_byte_reg)

lemma op_ok_unary:
  assumes "mk \<in> {Neg_x, Not_x, Mul_x, Imul1_x, Div_x, Idiv_x}"
    "loc = LReg (GPQ i) \<or> loc = LReg (GPD i) \<or> loc = LMem (reg_slot z r)"
  shows "op_ok (mk loc)"
  using assms by (elim insertE emptyE disjE exE conjE; simp add: op_ok_simps del: reg_num.simps not_None_eq is_high_byte_reg)

lemma op_ok_imul:
  assumes "(reg, loc) \<in> {(GPQ i, LReg (GPQ j)), (GPD i, LReg (GPD j)), (GPQ i, LMem (reg_slot Qword r)), (GPD i, LMem (reg_slot Dword r))}"
  shows "op_ok (Imul2_x reg loc)"
  using assms by (elim insertE emptyE disjE exE conjE; simp add: op_ok_simps del: reg_num.simps not_None_eq is_high_byte_reg)

section \<open>Generators\<close>

lemma resize_simps [simp]:
  "reg_resize (GPQ i) Dword = Some (GPD i)" "reg_resize (GPQ i) Qword = Some (GPQ i)"
  "reg_resize (GPD i) Dword = Some (GPD i)" "reg_resize (GPD i) Qword = Some (GPQ i)"
  by (simp_all add: reg_resize_def from_id_and_size_def del: reg_num.simps is_high_byte_reg)

lemmas gen_defs = load_reg_def store_reg_def emit_load_imm_def emit_move_def emit_move32_def slot_qword to_ops

lemmas op_oks = op_ok_mov op_ok_alu_imm op_ok_alu op_ok_shift op_ok_unary op_ok_imul

lemmas run_defs = exec_handled_def exec_alu_def exec_shift_def exec_unary_def exec_mul_def alu_of_size_def
  trunc_def sign_extend_def holds_def Let_def wrote_def load_bytes_dword load_bytes_byte store_same

declare emit_ops.simps [simp del] load_bytes.simps [simp del] store_bytes.simps [simp del]

end
