(* ===== verification/Dbt_Alu.thy ===== *)
theory Dbt_Alu
  imports Dbt_Correct
begin

text \<open>
  The contract \<^const>\<open>computes\<close> for every generator of an integer instruction: the value is that of the
  interpreter (\<open>Interp_Alu\<close>).
\<close>

section \<open>OP-IMM\<close>

lemma op_ok_const:
  "op_ok (Mov_x (LMem (reg_slot Qword r)) (OImm 0))" "op_ok (Mov_x (LMem (reg_slot Qword r)) (OImm 1))"
  "op_ok (Mov_x (LMem (reg_slot Qword r)) (OImm (- 1)))"
  "op_ok (Cmp_x (LMem (reg_slot Qword r)) (OImm 0))" "op_ok (Cmp_x (LMem (reg_slot Qword r)) (OImm (- 1)))"
  using op_ok_mov(6) [of r 0] op_ok_mov(6) [of r 1] op_ok_mov(6) [of r "- 1"]
    op_ok_alu_imm [of Cmp_x "LMem (reg_slot Qword r)" _ _ 0] op_ok_alu_imm [of Cmp_x "LMem (reg_slot Qword r)" _ _ "- 1"]
  by simp_all

lemma fits_u8_simps [simp]: "fits_u8 (1 :: i64)" "fits_u8 (63 :: i64)"
  by (simp_all add: fits_u8_def)

lemma scast_small:
  assumes "imm < 64"
  shows "scast (imm :: i32) = (ucast imm :: u64)"
proof (rule bit_word_eqI)
  fix n
  have "\<not> bit imm k" if "6 \<le> k" for k
    using assms that by (intro less_pow2_bit [of imm 6]) (simp_all add: word_less_nat_alt)
  then show "bit (scast imm :: u64) n = bit (ucast imm :: u64) n" if "n < LENGTH(64)"
    using that by (auto simp: bit_simps min_def)
qed

lemma fits_shamt: "imm < 64 \<Longrightarrow> fits_u8 (scast (imm :: i32) :: i64)"
proof -
  assume i: "imm < 64"
  then have u: "uint imm < 64" by (simp add: word_less_def)
  have "(ucast imm :: i64) = word_of_int (uint imm)" by simp
  moreover have "signed_take_bit 63 (uint imm) = uint imm"
    using u by (intro signed_take_bit_int_eq_self) (simp_all add: order_trans [OF _ uint_ge_0])
  ultimately have "sint (ucast imm :: i64) = uint imm" by (simp only: sint_sbintrunc') simp
  then show "fits_u8 (scast (imm :: i32) :: i64)" using u by (simp add: scast_small [OF i] fits_u8_def)
qed

lemma shamt: "imm < 64 \<Longrightarrow> unat (ucast (ucast (scast (imm :: i32) :: u64) :: u8) :: u64) = unat imm"
proof -
  assume i: "imm < 64"
  have z: "k < 8" if "bit imm k" for k
    using i that less_pow2_bit [of imm 6 k] by (fastforce simp: word_less_nat_alt)
  have "(ucast (ucast (scast imm :: u64) :: u8) :: u64) = ucast imm"
    unfolding scast_small [OF i] by (rule bit_word_eqI) (auto simp: bit_simps dest: z)
  then show ?thesis using i by (simp add: unsigned_ucast_eq take_bit_nat_eq_self word_less_nat_alt)
qed

lemma shamt_wide: "imm < 64 \<Longrightarrow> unat (scast (imm :: i32) :: u64) = unat imm"
  by (subst scast_small, assumption) (simp add: unsigned_ucast_eq take_bit_nat_eq_self word_less_nat_alt)

lemma shamt32:
  "imm < 32 \<Longrightarrow> unat (scast (imm :: i32) :: u64) = unat imm"
  "imm < 32 \<Longrightarrow> unat (ucast (ucast (scast (imm :: i32) :: u64) :: u8) :: u64) = unat imm"
  "imm < 32 \<Longrightarrow> fits_u8 (scast (imm :: i32) :: i64)"
  using shamt [of imm] shamt_wide [of imm] fits_shamt [of imm] order.strict_trans [of imm 32 64] by simp_all

lemmas oks = op_oks op_ok_const fits_shamt shamt32(3)

lemma less_flags: "(a - b <s 0) \<noteq> ((a <s 0) \<noteq> (b <s 0) \<and> (a - b <s 0) \<noteq> (a <s 0)) \<longleftrightarrow> a <s b"
  for a b :: "'a::len word"
proof -
  define n where "n = LENGTH('a) - 1"
  define z where "z = sint a - sint b"
  have p: "2 ^ LENGTH('a) = (2 * 2 ^ n :: int)" "LENGTH('a) = Suc n"
    unfolding power_Suc [symmetric] using len_gt_0 [where 'a = 'a] by (simp_all add: n_def)
  have b: "- (2 ^ n) \<le> sint a" "sint a < 2 ^ n" "- (2 ^ n) \<le> sint b" "sint b < 2 ^ n"
    using sint_greater_eq [of a] sint_less [of a] sint_greater_eq [of b] sint_less [of b] by (simp_all add: n_def)
  have "a - b = word_of_int z" by (simp add: z_def)
  then have s: "sint (a - b) = (z + 2 ^ n) mod (2 * 2 ^ n) - 2 ^ n"
    by (simp only: sint_sbintrunc') (simp add: p signed_take_bit_eq_take_bit_shift take_bit_eq_mod)
  consider "z < - (2 ^ n)" | "- (2 ^ n) \<le> z" "z < 2 ^ n" | "2 ^ n \<le> z" by linarith
  then show ?thesis
  proof cases
    case 1
    have "(z + 2 ^ n + 2 * 2 ^ n) mod (2 * 2 ^ n) = z + 2 ^ n + 2 * 2 ^ n"
      using 1 b by (intro mod_pos_pos_trivial) (auto simp: z_def)
    then have "(z + 2 ^ n) mod (2 * 2 ^ n) = z + 2 ^ n + 2 * 2 ^ n" by (metis mod_add_self2)
    then show ?thesis using 1 b s by (auto simp: word_sless_alt z_def)
  next
    case 2
    then have "(z + 2 ^ n) mod (2 * 2 ^ n) = z + 2 ^ n" by (intro mod_pos_pos_trivial) auto
    then show ?thesis using 2 b s by (auto simp: word_sless_alt z_def)
  next
    case 3
    have "(z + 2 ^ n - 2 * 2 ^ n) mod (2 * 2 ^ n) = z + 2 ^ n - 2 * 2 ^ n"
      using 3 b by (intro mod_pos_pos_trivial) (auto simp: z_def)
    then have "(z + 2 ^ n) mod (2 * 2 ^ n) = z + 2 ^ n - 2 * 2 ^ n" by (metis minus_mod_self2)
    then show ?thesis using 3 b s by (auto simp: word_sless_alt z_def)
  qed
qed

lemma u64_comm: "a + b = b + a" "a * 2 = 2 * a" "a AND b = b AND a" "a OR b = b OR a" "a XOR b = b XOR a"
  "c * 2 = 2 * c" for a b :: u64 and c :: u32
  by (simp_all add: ac_simps)

lemma ucast_widen [simp]:
  fixes x :: "'a::len word"
  assumes "LENGTH('a) \<le> LENGTH('b)"
  shows "ucast (ucast x :: 'b::len word) = x"
  using assms by (intro bit_word_eqI) (simp add: bit_simps)

lemma of_int_mod_2p: "(word_of_int (x mod 2 ^ LENGTH(64)) :: u32) = word_of_int x"
  unfolding take_bit_eq_mod [symmetric] by (rule bit_word_eqI) (simp add: bit_simps)

lemma ucast_minus [simp]: "(ucast (- w :: u64) :: u32) = - ucast w"
proof -
  have "(ucast (- w) :: u32) = word_of_int (uint (- w))" by simp
  also have "\<dots> = word_of_int (- uint w)"
    by (simp only: uint_word_ariths of_int_mod_2p)
  finally show ?thesis by simp
qed

lemma flag_byte [simp]: "ucast (ucast (of_flag b) :: u8) = of_flag b" "ucast (ucast (of_flag b) :: u32) = of_flag b"
  by (simp_all add: of_flag_def)

lemma scast_pred:
  assumes "0 <s imm"
  shows "a \<le>s (scast (imm - 1 :: i32) :: u64) \<longleftrightarrow> a <s scast imm"
    "a \<le> (scast (imm - 1 :: i32) :: u64) \<longleftrightarrow> a < scast imm"
    "(0 :: u64) < scast imm" "imm \<noteq> 0"
proof -
  have b: "0 < sint imm" "sint imm < 2 ^ 31"
    using assms sint_less [of imm] by (simp_all add: word_sless_alt)
  have "imm - 1 = word_of_int (sint imm - 1)" by simp
  moreover have "signed_take_bit 31 (sint imm - 1) = sint imm - 1"
    using b by (intro signed_take_bit_int_eq_self) simp_all
  ultimately have p: "sint (imm - 1) = sint imm - 1" by (simp only: sint_sbintrunc') simp
  have s: "sint (scast w :: u64) = sint w" for w :: i32 by (rule sint_up_scast) (simp add: is_up)
  have "uint (scast w :: u64) = sint w" if "0 \<le> sint w" for w :: i32
    using that s [of w] uint_sint [of "scast w :: u64"] by (simp add: word_sless_alt)
  then have "uint (scast (imm - 1) :: u64) = sint imm - 1" "uint (scast imm :: u64) = sint imm"
    using b p by simp_all
  then show "a \<le>s (scast (imm - 1) :: u64) \<longleftrightarrow> a <s scast imm" "a \<le> (scast (imm - 1) :: u64) \<longleftrightarrow> a < scast imm"
    "(0 :: u64) < scast imm" "imm \<noteq> 0"
    using b by (auto simp: word_sle_eq word_sless_alt s p word_le_def word_less_def)
qed

lemma flag_simps [simp]: "of_flag True = 1" "of_flag False = 0" "drop_bit 63 a = of_flag (a <s 0)"
proof -
  have "drop_bit 63 a = of_bool (bit a 63)"
  proof (rule bit_word_eqI)
    fix n show "bit (drop_bit 63 a) n \<longleftrightarrow> bit (of_bool (bit a 63) :: u64) n"
      using bit_imp_le_length [of a "63 + n"] by (cases n) (auto simp: bit_simps)
  qed
  moreover have "bit a 63 \<longleftrightarrow> a <s 0" using bit_last_iff [of a] by (simp add: word_sless_alt)
  ultimately show "drop_bit 63 a = of_flag (a <s 0)" by (simp add: of_flag_def)
qed (simp_all add: of_flag_def)

lemma byte_insert [simp]:
  "(ucast (a AND (- 256) OR b :: u64) :: u8) = ucast b" "(ucast (b OR a AND (- 256) :: u64) :: u8) = ucast b"
proof -
  have m: "(- 256 :: u64) = NOT (mask 8)" by (simp add: mask_eq_exp_minus_1 not_eq_complement)
  have "\<not> bit (- 256 :: u64) n" if "n < 8" for n
    using that unfolding m by (simp add: bit_simps)
  then show "(ucast (a AND (- 256) OR b :: u64) :: u8) = ucast b" "(ucast (b OR a AND (- 256) :: u64) :: u8) = ucast b"
    by (intro bit_word_eqI; simp add: bit_simps)+
qed

lemma less_minus_1: "a < - 1 \<longleftrightarrow> a \<noteq> - 1" for a :: u64
  using word_n1_ge [of a] by (auto simp: less_le)

lemma count_mod:
  "unat (ucast (ucast b :: u8) :: u64) mod 64 = unat (b AND 63) mod 64"
  "unat (ucast (ucast b :: u8) :: u64) mod 32 = unat (b AND 31) mod 32" for b :: u64
proof -
  have "unat (b AND mask n) mod 2 ^ n = unat b mod 2 ^ n" if "n < 64" for n
    using that by (simp flip: take_bit_eq_mask take_bit_eq_mod add: unsigned_take_bit_eq)
  moreover have "unat (ucast (ucast b :: u8) :: u64) mod 2 ^ n = unat b mod 2 ^ n" if "n < 8" for n
    using that by (simp flip: take_bit_eq_mod add: unsigned_ucast_eq unsigned_take_bit_eq min_def)
  ultimately have e: "unat (ucast (ucast b :: u8) :: u64) mod 2 ^ n = unat (b AND mask n) mod 2 ^ n" if "n < 8" for n
    using that by simp
  show "unat (ucast (ucast b :: u8) :: u64) mod 64 = unat (b AND 63) mod 64"
    "unat (ucast (ucast b :: u8) :: u64) mod 32 = unat (b AND 31) mod 32"
    using e [of 6] e [of 5] by (simp_all add: mask_eq_exp_minus_1)
qed

lemma low_reg [simp]: "\<not> 4 \<le> (1 :: reg_index)" "\<not> 4 \<le> (0 :: reg_index)"
  by (simp_all add: word_le_nat_alt)

lemma condition_sub [simp]:
  "condition ConditionCode.Less (sub_flags a b) = Some (a <s b)"
  "condition GreaterEqual (sub_flags a b) = Some (b \<le>s a)"
  "condition LessEqual (sub_flags a b) = Some (a \<le>s b)"
  "condition ConditionCode.Greater (sub_flags a b) = Some (b <s a)"
  "condition Below (sub_flags a b) = Some (a < b)"
  "condition AboveEqual (sub_flags a b) = Some (b \<le> a)"
  "condition BelowEqual (sub_flags a b) = Some (a \<le> b)"
  "condition Above (sub_flags a b) = Some (b < a)"
  "condition ConditionCode.Equal (sub_flags a b) = Some (a = b)"
  "condition NotEqual (sub_flags a b) = Some (a \<noteq> b)"
  using less_flags [of a b] signed_word_eqI [of a b]
  by (auto simp: sub_flags_def word_sle_eq word_sless_alt)

declare condition.simps [simp del]

lemma emit_addi_computes:
  "rs1 < 32 \<Longrightarrow> computes (emit_addi rd rs1 imm) rd (\<lambda>\<rho>. imm_result Addi_k (\<rho> rs1) imm)"
  by (rule computesI, simp add: emit_addi_def gen_defs cong: if_cong split del: if_split, simp add: oks,
      simp add: run_defs imm_result_def)

lemma emit_xori_computes:
  "rs1 < 32 \<Longrightarrow> computes (emit_xori rd rs1 imm) rd (\<lambda>\<rho>. imm_result Xori_k (\<rho> rs1) imm)"
  by (rule computesI, simp add: emit_xori_def gen_defs cong: if_cong split del: if_split, simp add: oks,
      simp add: run_defs imm_result_def)

lemma emit_ori_computes:
  "rs1 < 32 \<Longrightarrow> computes (emit_ori rd rs1 imm) rd (\<lambda>\<rho>. imm_result Ori_k (\<rho> rs1) imm)"
  by (rule computesI, simp add: emit_ori_def gen_defs cong: if_cong split del: if_split, simp add: oks,
      simp add: run_defs imm_result_def)

lemma emit_andi_computes:
  "rs1 < 32 \<Longrightarrow> computes (emit_andi rd rs1 imm) rd (\<lambda>\<rho>. imm_result Andi_k (\<rho> rs1) imm)"
  by (rule computesI, simp add: emit_andi_def gen_defs cong: if_cong split del: if_split, simp add: oks,
      simp add: run_defs imm_result_def)

lemma emit_slli_computes:
  "rs1 < 32 \<Longrightarrow> imm < 64 \<Longrightarrow> computes (emit_slli rd rs1 imm) rd (\<lambda>\<rho>. imm_result Slli_k (\<rho> rs1) imm)"
  by (rule computesI, simp add: emit_slli_def gen_defs cong: if_cong split del: if_split, simp add: oks,
      simp add: run_defs imm_result_def rust_shl_def shamt u64_comm)

lemma emit_add_computes:
  "rs1 < 32 \<Longrightarrow> rs2 < 32 \<Longrightarrow> computes (emit_add rd rs1 rs2) rd (\<lambda>\<rho>. reg_result Add_k (\<rho> rs1) (\<rho> rs2))"
  by (rule computesI, simp add: emit_add_def gen_defs cong: if_cong split del: if_split,
      simp add: oks, simp add: run_defs reg_result_def u64_comm)

lemma emit_sub_computes:
  "rs1 < 32 \<Longrightarrow> rs2 < 32 \<Longrightarrow> computes (emit_sub rd rs1 rs2) rd (\<lambda>\<rho>. reg_result Sub_k (\<rho> rs1) (\<rho> rs2))"
  by (rule computesI, simp add: emit_sub_def gen_defs cong: if_cong split del: if_split, simp add: oks,
      simp add: run_defs reg_result_def u64_comm)

lemma emit_xor_computes:
  "rs1 < 32 \<Longrightarrow> rs2 < 32 \<Longrightarrow> computes (emit_xor rd rs1 rs2) rd (\<lambda>\<rho>. reg_result Xor_k (\<rho> rs1) (\<rho> rs2))"
  by (rule computesI, simp add: emit_xor_def gen_defs cong: if_cong split del: if_split, simp add: oks,
      simp add: run_defs reg_result_def u64_comm)

lemma emit_or_computes:
  "rs1 < 32 \<Longrightarrow> rs2 < 32 \<Longrightarrow> computes (emit_or rd rs1 rs2) rd (\<lambda>\<rho>. reg_result Or_k (\<rho> rs1) (\<rho> rs2))"
  by (rule computesI, simp add: emit_or_def gen_defs cong: if_cong split del: if_split, simp add: oks,
      simp add: run_defs reg_result_def u64_comm)

lemma emit_and_computes:
  "rs1 < 32 \<Longrightarrow> rs2 < 32 \<Longrightarrow> computes (emit_and rd rs1 rs2) rd (\<lambda>\<rho>. reg_result And_k (\<rho> rs1) (\<rho> rs2))"
  by (rule computesI, simp add: emit_and_def gen_defs cong: if_cong split del: if_split, simp add: oks,
      simp add: run_defs reg_result_def u64_comm)

lemma emit_addw_computes:
  "rs1 < 32 \<Longrightarrow> rs2 < 32 \<Longrightarrow> computes (emit_addw rd rs1 rs2) rd (\<lambda>\<rho>. reg32_result Addw_k (\<rho> rs1) (\<rho> rs2))"
  by (rule computesI, simp add: emit_addw_def gen_defs cong: if_cong split del: if_split, simp add: oks,
      simp add: run_defs reg32_result_def)

lemma emit_subw_computes:
  "rs1 < 32 \<Longrightarrow> rs2 < 32 \<Longrightarrow> computes (emit_subw rd rs1 rs2) rd (\<lambda>\<rho>. reg32_result Subw_k (\<rho> rs1) (\<rho> rs2))"
  by (rule computesI, simp add: emit_subw_def gen_defs cong: if_cong split del: if_split, simp add: oks,
      simp add: run_defs reg32_result_def)


lemma emit_slti_computes:
  "rs1 < 32 \<Longrightarrow> computes (emit_slti rd rs1 imm) rd (\<lambda>\<rho>. imm_result Slti_k (\<rho> rs1) imm)"
proof (cases "0 <s imm")
  case True
  then show "rs1 < 32 \<Longrightarrow> ?thesis"
    by (intro computesI, simp add: emit_slti_def gen_defs cong: if_cong split del: if_split, simp add: oks,
        simp add: run_defs imm_result_def scast_pred)
next
  case False
  then show "rs1 < 32 \<Longrightarrow> ?thesis"
    by (intro computesI, simp add: emit_slti_def gen_defs cong: if_cong split del: if_split, simp add: oks,
        simp add: run_defs imm_result_def)
qed

lemma emit_sltiu_computes:
  "rs1 < 32 \<Longrightarrow> computes (emit_sltiu rd rs1 imm) rd (\<lambda>\<rho>. imm_result Sltiu_k (\<rho> rs1) imm)"
proof (cases "0 <s imm")
  case True
  then show "rs1 < 32 \<Longrightarrow> ?thesis"
    by (intro computesI, simp add: emit_sltiu_def gen_defs cong: if_cong split del: if_split, simp add: oks,
        simp add: run_defs imm_result_def scast_pred)
next
  case False
  then show "rs1 < 32 \<Longrightarrow> ?thesis"
    by (intro computesI, simp add: emit_sltiu_def gen_defs cong: if_cong split del: if_split, simp add: oks,
        simp add: run_defs imm_result_def less_minus_1)
qed

lemma emit_srli_computes:
  "rs1 < 32 \<Longrightarrow> imm < 64 \<Longrightarrow> computes (emit_srli rd rs1 imm) rd (\<lambda>\<rho>. imm_result Srli_k (\<rho> rs1) imm)"
  by (rule computesI, simp add: emit_srli_def gen_defs cong: if_cong split del: if_split, simp add: oks,
   simp add: run_defs imm_result_def rust_shr_def shamt shamt32 shamt_wide u64_comm)

lemma emit_srai_computes:
  "rs1 < 32 \<Longrightarrow> imm < 64 \<Longrightarrow> computes (emit_srai rd rs1 imm) rd (\<lambda>\<rho>. imm_result Srai_k (\<rho> rs1) imm)"
  by (rule computesI, simp add: emit_srai_def gen_defs cong: if_cong split del: if_split, simp add: oks,
   simp add: run_defs imm_result_def rust_sar_def shamt shamt32 shamt_wide u64_comm)

lemma emit_addiw_computes:
  "rs1 < 32 \<Longrightarrow> computes (emit_addiw rd rs1 imm) rd (\<lambda>\<rho>. imm32_result Addiw_k (\<rho> rs1) imm)"
  by (rule computesI, simp add: emit_addiw_def gen_defs cong: if_cong split del: if_split, simp add: oks,
      simp add: run_defs imm32_result_def)

lemma emit_slliw_computes:
  "rs1 < 32 \<Longrightarrow> imm < 32 \<Longrightarrow> computes (emit_slliw rd rs1 imm) rd (\<lambda>\<rho>. imm32_result Slliw_k (\<rho> rs1) imm)"
  by (rule computesI, simp add: emit_slliw_def gen_defs cong: if_cong split del: if_split, simp add: oks,
      simp add: run_defs imm32_result_def rust_shl_def shamt shamt32 shamt_wide u64_comm)

lemma emit_srliw_computes:
  "rs1 < 32 \<Longrightarrow> imm < 32 \<Longrightarrow> computes (emit_srliw rd rs1 imm) rd (\<lambda>\<rho>. imm32_result Srliw_k (\<rho> rs1) imm)"
  by (rule computesI, simp add: emit_srliw_def gen_defs cong: if_cong split del: if_split, simp add: oks,
      simp add: run_defs imm32_result_def rust_shr_def shamt shamt32 shamt_wide u64_comm)
lemma emit_sraiw_computes:
  "rs1 < 32 \<Longrightarrow> imm < 32 \<Longrightarrow> computes (emit_sraiw rd rs1 imm) rd (\<lambda>\<rho>. imm32_result Sraiw_k (\<rho> rs1) imm)"
  by (rule computesI, simp add: emit_sraiw_def gen_defs cong: if_cong split del: if_split, simp add: oks,
      simp add: run_defs imm32_result_def rust_sar_def shamt shamt32 shamt_wide u64_comm)
lemma emit_slt_computes:
  "rs1 < 32 \<Longrightarrow> rs2 < 32 \<Longrightarrow> computes (emit_slt rd rs1 rs2) rd (\<lambda>\<rho>. reg_result Slt_k (\<rho> rs1) (\<rho> rs2))"
  by (rule computesI, simp add: emit_slt_def gen_defs cong: if_cong split del: if_split, simp add: oks,
      simp add: run_defs reg_result_def u64_comm word_neq_0_conv [where 'a = 64])
lemma emit_sltu_computes:
  "rs1 < 32 \<Longrightarrow> rs2 < 32 \<Longrightarrow> computes (emit_sltu rd rs1 rs2) rd (\<lambda>\<rho>. reg_result Sltu_k (\<rho> rs1) (\<rho> rs2))"
  by (rule computesI, simp add: emit_sltu_def gen_defs cong: if_cong split del: if_split, simp add: oks,
      simp add: run_defs reg_result_def u64_comm word_neq_0_conv [where 'a = 64])
lemma emit_sll_computes:
  "rs1 < 32 \<Longrightarrow> rs2 < 32 \<Longrightarrow> computes (emit_sll rd rs1 rs2) rd (\<lambda>\<rho>. reg_result Sll_k (\<rho> rs1) (\<rho> rs2))"
  by (rule computesI, simp add: emit_sll_def gen_defs cong: if_cong split del: if_split, simp add: oks,
      simp add: run_defs reg_result_def rust_shl_def count_mod)
lemma emit_sllw_computes:
  "rs1 < 32 \<Longrightarrow> rs2 < 32 \<Longrightarrow> computes (emit_sllw rd rs1 rs2) rd (\<lambda>\<rho>. reg32_result Sllw_k (\<rho> rs1) (\<rho> rs2))"
  by (rule computesI, simp add: emit_sllw_def gen_defs cong: if_cong split del: if_split, simp add: oks,
      simp add: run_defs reg32_result_def rust_shl_def count_mod)

lemma emit_srl_computes:
  "rs1 < 32 \<Longrightarrow> rs2 < 32 \<Longrightarrow> computes (emit_srl rd rs1 rs2) rd (\<lambda>\<rho>. reg_result Srl_k (\<rho> rs1) (\<rho> rs2))"
  by (rule computesI, simp add: emit_srl_def gen_defs cong: if_cong split del: if_split, simp add: oks,
      simp add: run_defs reg_result_def rust_shr_def count_mod)

lemma emit_sra_computes:
  "rs1 < 32 \<Longrightarrow> rs2 < 32 \<Longrightarrow> computes (emit_sra rd rs1 rs2) rd (\<lambda>\<rho>. reg_result Sra_k (\<rho> rs1) (\<rho> rs2))"
  by (rule computesI, simp add: emit_sra_def gen_defs cong: if_cong split del: if_split, simp add: oks,
      simp add: run_defs reg_result_def rust_sar_def count_mod)

lemma emit_srlw_computes:
  "rs1 < 32 \<Longrightarrow> rs2 < 32 \<Longrightarrow> computes (emit_srlw rd rs1 rs2) rd (\<lambda>\<rho>. reg32_result Srlw_k (\<rho> rs1) (\<rho> rs2))"
  by (rule computesI, simp add: emit_srlw_def gen_defs cong: if_cong split del: if_split, simp add: oks,
      simp add: run_defs reg32_result_def rust_shr_def count_mod)

lemma emit_sraw_computes:
  "rs1 < 32 \<Longrightarrow> rs2 < 32 \<Longrightarrow> computes (emit_sraw rd rs1 rs2) rd (\<lambda>\<rho>. reg32_result Sraw_k (\<rho> rs1) (\<rho> rs2))"
  by (rule computesI, simp add: emit_sraw_def gen_defs cong: if_cong split del: if_split, simp add: oks,
      simp add: run_defs reg32_result_def rust_sar_def count_mod)

end
