(* ===== verification/Dbt_Mul.thy ===== *)
theory Dbt_Mul
  imports Dbt_Alu
begin

text \<open>
  The contract of the generators of the M extension. A division runs the host's instruction; where that
  one faults the handler of \<open>SIGFPE\<close> gives the result of the guest's.
\<close>

section \<open>Multiplication\<close>

lemma high_half: "(ucast (signed_drop_bit 64 p) :: u64) = ucast (drop_bit 64 p)" for p :: u128
  by (rule bit_word_eqI) (simp add: bit_simps)

lemma sign_mask: "b AND signed_drop_bit 63 a = (if a <s 0 then b else 0)" for a b :: u64
proof -
  have "bit a 63 \<longleftrightarrow> a <s 0" using bit_last_iff [of a] by (simp add: word_sless_alt)
  then have "bit (b AND signed_drop_bit 63 a) n \<longleftrightarrow> bit (if a <s 0 then b else 0) n" if "n < 64" for n
    using that by (cases n) (auto simp: bit_simps)
  then show ?thesis by (intro bit_word_eqI) simp
qed

lemma emit_mul_computes:
  "rs1 < 32 \<Longrightarrow> rs2 < 32 \<Longrightarrow> computes (emit_mul rd rs1 rs2) rd (\<lambda>\<rho>. mul_result Mul_k (\<rho> rs1) (\<rho> rs2))"
  by (rule computesI, simp add: emit_mul_def gen_defs cong: if_cong split del: if_split, simp add: oks,
      simp add: run_defs mul_result_def u64_comm)

lemma emit_mulw_computes:
  "rs1 < 32 \<Longrightarrow> rs2 < 32 \<Longrightarrow> computes (emit_mulw rd rs1 rs2) rd (\<lambda>\<rho>. mul32_result Mulw_k (\<rho> rs1) (\<rho> rs2))"
  by (rule computesI, simp add: emit_mulw_def gen_defs cong: if_cong split del: if_split, simp add: oks,
      simp add: run_defs mul32_result_def u64_comm)

lemma emit_mulh_computes:
  "rs1 < 32 \<Longrightarrow> rs2 < 32 \<Longrightarrow> computes (emit_mulh rd rs1 rs2 False) rd (\<lambda>\<rho>. mul_result Mulh_k (\<rho> rs1) (\<rho> rs2))"
  by (rule computesI, simp add: emit_mulh_def gen_defs cong: if_cong split del: if_split, simp add: oks,
      simp add: run_defs mul_result_def rust_sar_def high_half)

lemma emit_mulhu_computes:
  "rs1 < 32 \<Longrightarrow> rs2 < 32 \<Longrightarrow> computes (emit_mulh rd rs1 rs2 True) rd (\<lambda>\<rho>. mul_result Mulhu_k (\<rho> rs1) (\<rho> rs2))"
  by (rule computesI, simp add: emit_mulh_def gen_defs cong: if_cong split del: if_split, simp add: oks,
      simp add: run_defs mul_result_def rust_shr_def u64_comm)

lemma emit_mulhsu_computes:
  "rs1 < 32 \<Longrightarrow> rs2 < 32 \<Longrightarrow> computes (emit_mulhsu rd rs1 rs2) rd (\<lambda>\<rho>. mul_result Mulhsu_k (\<rho> rs1) (\<rho> rs2))"
  by (rule computesI, simp add: emit_mulhsu_def gen_defs cong: if_cong split del: if_split, simp add: oks,
      simp add: run_defs mul_result_def rust_shr_def u64_comm(3) sign_mask)

section \<open>Division\<close>

text \<open>The sign extension of the dividend to twice its width.\<close>

lemma sint_extended:
  fixes a :: "'a::len word"
  shows "sint (if a <s 0 then - 1 else 0 :: 'a word) * 2 ^ LENGTH('a) + uint a = sint a"
proof -
  have "uint a = sint a mod 2 ^ LENGTH('a)" using uint_word_of_int [of "sint a", where 'a = 'a] by (simp add: scast_id)
  moreover have p: "(2 :: int) ^ (LENGTH('a) - Suc 0) \<le> 2 ^ LENGTH('a)" by (rule power_increasing) simp_all
  have "0 \<le> sint a + 2 ^ LENGTH('a)" "sint a < 2 ^ LENGTH('a)"
    using sint_greater_eq [of a] sint_less [of a] p by linarith+
  then have "sint a mod 2 ^ LENGTH('a) = (if sint a < 0 then sint a + 2 ^ LENGTH('a) else sint a)"
    using mod_pos_pos_trivial [of "sint a + 2 ^ LENGTH('a)" "2 ^ LENGTH('a)"] by simp
  ultimately show ?thesis by (simp add: word_sless_alt)
qed

lemma slot_address [simp]: "eval_memory_location ctx (reg_slot z r) = slot (gregs ctx 5) r"
  by (simp add: eval_memory_location_def reg_slot_def loc_of_register_def mem_resize_def reg_add_i32_def
      scast_slot slot_def)

text \<open>The quotient of two signed integers of \<open>w\<close> bits fits, but for one pair.\<close>

lemma sdiv_fits:
  fixes a b :: "'a::len word"
  assumes "sint b \<noteq> 0"
  shows "(sint a sdiv sint b < - (2 ^ (LENGTH('a) - 1)) \<or> 2 ^ (LENGTH('a) - 1) \<le> sint a sdiv sint b) \<longleftrightarrow>
    sint a = - (2 ^ (LENGTH('a) - 1)) \<and> sint b = - 1"
proof -
  define x y where "x = sint a" "y = sint b"
  define M where "M = (2 :: int) ^ (LENGTH('a) - 1)"
  have b: "- M \<le> x" "x < M" "y \<noteq> 0" "0 < M"
    using sint_greater_eq [of a] sint_less [of a] assms by (simp_all add: x_y_def M_def)
  have le: "\<bar>x\<bar> div \<bar>y\<bar> \<le> \<bar>x\<bar>" "0 \<le> \<bar>x\<bar> div \<bar>y\<bar>"
    using b zdiv_mono2 [of "\<bar>x\<bar>" 1 "\<bar>y\<bar>"] by (auto simp: pos_imp_zdiv_nonneg_iff)
  have q: "x sdiv y = (if sgn x = sgn y then \<bar>x\<bar> div \<bar>y\<bar> else - (\<bar>x\<bar> div \<bar>y\<bar>))"
    using le b by (auto simp: signed_divide_int_def sgn_if)
  have "x = - M \<and> y = - 1" if "M \<le> x sdiv y"
  proof -
    have "M \<le> \<bar>x\<bar> div \<bar>y\<bar>" and s: "sgn x = sgn y" using that q le b by (auto split: if_splits)
    then have x: "x = - M" using le b by linarith
    then have "y < 0" using s b by (auto simp: sgn_if split: if_splits)
    moreover have "\<bar>y\<bar> < 2"
    proof (rule ccontr)
      assume "\<not> \<bar>y\<bar> < 2"
      then have "\<bar>x\<bar> div \<bar>y\<bar> \<le> \<bar>x\<bar> div 2" by (intro zdiv_mono2) auto
      then show False using \<open>M \<le> \<bar>x\<bar> div \<bar>y\<bar>\<close> x b by linarith
    qed
    ultimately show ?thesis using x by simp
  qed
  moreover have "M \<le> x sdiv y" if "x = - M" "y = - 1" using that b by (simp add: signed_divide_int_def)
  moreover have "- M \<le> x sdiv y" using q le b by (auto split: if_splits)
  ultimately show ?thesis unfolding x_y_def [symmetric] M_def [symmetric] by linarith
qed

text \<open>The signed results of both widths, for a dividend whose sign extension is in \<open>rdx\<close>.\<close>

lemma sdiv_overflow:
  fixes a b :: "'a::len word"
  assumes "sint a = - (2 ^ (LENGTH('a) - 1))" "sint b = - 1"
  shows "wrapping_div a b = a" "wrapping_rem a b = 0"
proof -
  have "sint a sdiv - 1 = - sint a" "sint a smod - 1 = 0"
    by (simp_all add: signed_divide_int_def signed_modulo_int_def sgn_if)
  moreover have "(word_of_int (- sint a) :: 'a word) = a"
  proof -
    have "- sint a = sint a + 2 ^ LENGTH('a)"
      using assms(1) power_Suc [of "2 :: int" "LENGTH('a) - 1"] by simp
    then have "(word_of_int (- sint a) :: 'a word) = word_of_int (sint a) + word_of_int (2 ^ LENGTH('a))"
      by (simp only: of_int_add)
    then show ?thesis by (simp add: scast_id)
  qed
  ultimately show "wrapping_div a b = a" "wrapping_rem a b = 0"
    using assms(2) by (simp_all add: wrapping_div_def wrapping_rem_def)
qed

definition quotient :: "bool \<Rightarrow> 'a::len word \<Rightarrow> 'a word \<Rightarrow> 'a word" where
  "quotient signd a b = (if b = 0 then - 1 else if signd then wrapping_div a b else a div b)"

definition remainder :: "bool \<Rightarrow> 'a::len word \<Rightarrow> 'a word \<Rightarrow> 'a word" where
  "remainder signd a b = (if b = 0 then a else if signd then wrapping_rem a b else a mod b)"

lemma ucast_ones [simp]: "(ucast (- 1 :: u32) :: u64) = 0xFFFFFFFF" "(ucast (0xFFFFFFFF :: u64) :: u32) = - 1"
  by code_simp+

lemma ucast_zero [simp]: "(ucast w :: u64) = 0 \<longleftrightarrow> w = 0" for w :: u32
proof
  assume "(ucast w :: u64) = 0"
  then have "(ucast (ucast w :: u64) :: u32) = 0" by (simp only:) simp
  then show "w = 0" by simp
qed simp

lemma idiv_qword:
  fixes s r
  defines "b \<equiv> load_bytes 8 (xmem s) (slot (gpr s 5) r)"
  assumes "gpr s 2 = (if gpr s 0 <s 0 then - 1 else 0)"
  shows "exec_handled (Idiv_x (LMem (reg_slot Qword r))) s =
    Some (s\<lparr>gpr := (gpr s)(0 := quotient True (gpr s 0) b, 2 := remainder True (gpr s 0) b),
      xflags := if b = 0 \<or> sint (gpr s 0) = - (2 ^ 63) \<and> sint b = - 1 then xflags s else None\<rparr>)"
proof -
  define a where "a = gpr s 0"
  have n: "sint (gpr s 2) * 2 ^ 64 + uint a = sint a"
    using sint_extended [of a] by (cases "a <s 0") (simp_all add: assms(2) flip: a_def b_def)
  show ?thesis
  proof (cases "b = 0 \<or> sint a = - (2 ^ 63) \<and> sint b = - 1")
    case True
    then have "x86_exec (Idiv_x (LMem (reg_slot Qword r))) s = DivideError"
      using n sdiv_fits [of b a] by (auto simp: exec_div_def Let_def simp flip: a_def b_def)
    then show ?thesis using True sdiv_overflow [of a b]
      by (auto simp: exec_handled_def divide_fixup_def read_location_def quotient_def remainder_def Let_def
          simp flip: a_def b_def)
  next
    case False
    then have "sint b \<noteq> 0" using signed_word_eqI [of b 0] by auto
    then have "x86_exec (Idiv_x (LMem (reg_slot Qword r))) s =
        Run (s\<lparr>gpr := (gpr s)(0 := wrapping_div a b, 2 := wrapping_rem a b), xflags := None\<rparr>)"
      using n sdiv_fits [of b a] False
      by (simp add: exec_div_def Let_def wrapping_div_def wrapping_rem_def flip: a_def b_def)
    then show ?thesis using False by (auto simp: exec_handled_def quotient_def remainder_def simp flip: a_def b_def)
  qed
qed

lemma div_qword:
  fixes s r
  defines "b \<equiv> load_bytes 8 (xmem s) (slot (gpr s 5) r)"
  assumes "gpr s 2 = 0"
  shows "exec_handled (Div_x (LMem (reg_slot Qword r))) s =
    Some (s\<lparr>gpr := (gpr s)(0 := quotient False (gpr s 0) b, 2 := remainder False (gpr s 0) b),
      xflags := if b = 0 then xflags s else None\<rparr>)"
proof (cases "b = 0")
  case True
  then have "x86_exec (Div_x (LMem (reg_slot Qword r))) s = DivideError"
    using assms(2) by (simp add: exec_div_def Let_def flip: b_def)
  then show ?thesis using True
    by (auto simp: exec_handled_def divide_fixup_def read_location_def quotient_def remainder_def Let_def simp flip: b_def)
next
  case False
  have "uint (gpr s 0) div uint b < 2 ^ 64"
    using uint_lt2p [of "gpr s 0 div b"] by (simp add: uint_div)
  then have "x86_exec (Div_x (LMem (reg_slot Qword r))) s =
        Run (s\<lparr>gpr := (gpr s)(0 := gpr s 0 div b, 2 := gpr s 0 mod b), xflags := None\<rparr>)"
    using assms(2) False by (simp add: exec_div_def Let_def word_div_def word_mod_def uint_0_iff flip: b_def)
  then show ?thesis using False by (auto simp: exec_handled_def quotient_def remainder_def)
qed

lemma idiv_dword:
  fixes s r
  defines "b \<equiv> (ucast (load_bytes 8 (xmem s) (slot (gpr s 5) r)) :: u32)"
  assumes "gpr s 2 = (if (ucast (gpr s 0) :: u32) <s 0 then 0xFFFFFFFF else 0)"
  shows "exec_handled (Idiv_x (LMem (reg_slot Dword r))) s =
    Some (s\<lparr>gpr := (gpr s)(0 := ucast (quotient True (ucast (gpr s 0)) b),
        2 := ucast (remainder True (ucast (gpr s 0)) b)),
      xflags := if b = 0 \<or> sint (ucast (gpr s 0) :: u32) = - (2 ^ 31) \<and> sint b = - 1 then xflags s else None\<rparr>)"
proof -
  define a :: u32 where "a = ucast (gpr s 0)"
  have n: "sint (ucast (gpr s 2) :: u32) * 2 ^ 32 + uint a = sint a"
    using sint_extended [of a] by (cases "a <s 0") (simp_all add: assms(2) flip: a_def b_def)
  show ?thesis
  proof (cases "b = 0 \<or> sint a = - (2 ^ 31) \<and> sint b = - 1")
    case True
    then have "x86_exec (Idiv_x (LMem (reg_slot Dword r))) s = DivideError"
      using n sdiv_fits [of b a] by (auto simp: exec_div_def load_bytes_dword Let_def
          simp flip: a_def b_def)
    then show ?thesis using True sdiv_overflow [of a b]
      by (auto simp: exec_handled_def divide_fixup_def read_location_def quotient_def remainder_def load_bytes_dword Let_def
          simp flip: a_def b_def)
  next
    case False
    then have "sint b \<noteq> 0" using signed_word_eqI [of b 0] by auto
    then have "x86_exec (Idiv_x (LMem (reg_slot Dword r))) s =
        Run (s\<lparr>gpr := (gpr s)(0 := ucast (wrapping_div a b), 2 := ucast (wrapping_rem a b)), xflags := None\<rparr>)"
      using n sdiv_fits [of b a] False
      by (simp add: exec_div_def load_bytes_dword Let_def wrapping_div_def wrapping_rem_def flip: a_def b_def)
    then show ?thesis using False by (auto simp: exec_handled_def quotient_def remainder_def simp flip: a_def b_def)
  qed
qed

lemma div_dword:
  fixes s r
  defines "b \<equiv> (ucast (load_bytes 8 (xmem s) (slot (gpr s 5) r)) :: u32)"
  assumes "gpr s 2 = 0"
  shows "exec_handled (Div_x (LMem (reg_slot Dword r))) s =
    Some (s\<lparr>gpr := (gpr s)(0 := ucast (quotient False (ucast (gpr s 0)) b),
        2 := ucast (remainder False (ucast (gpr s 0)) b)),
      xflags := if b = 0 then xflags s else None\<rparr>)"
proof (cases "b = 0")
  case True
  then have "x86_exec (Div_x (LMem (reg_slot Dword r))) s = DivideError"
    using assms(2) by (simp add: exec_div_def load_bytes_dword Let_def flip: b_def)
  then show ?thesis using True
    by (auto simp: exec_handled_def divide_fixup_def read_location_def quotient_def remainder_def load_bytes_dword Let_def
        simp flip: b_def)
next
  case False
  have "uint (ucast (gpr s 0) :: u32) div uint b < 2 ^ 32"
    using uint_lt2p [of "ucast (gpr s 0) div b"] by (simp add: uint_div)
  then have "x86_exec (Div_x (LMem (reg_slot Dword r))) s =
        Run (s\<lparr>gpr := (gpr s)(0 := ucast (ucast (gpr s 0) div b), 2 := ucast (ucast (gpr s 0) mod b)), xflags := None\<rparr>)"
    using assms(2) False by (simp add: exec_div_def load_bytes_dword Let_def word_div_def word_mod_def uint_0_iff flip: b_def)
  then show ?thesis using False by (auto simp: exec_handled_def quotient_def remainder_def)
qed

text \<open>The other operations of these sequences do not fault.\<close>

lemma plain_handled:
  "exec_handled (Mov_x d v) s = (case x86_exec (Mov_x d v) s of Run t \<Rightarrow> Some t | _ \<Rightarrow> None)"
  "exec_handled (Xor_x d v) s = (case x86_exec (Xor_x d v) s of Run t \<Rightarrow> Some t | _ \<Rightarrow> None)"
  "exec_handled (Movsx_x r l) s = (case x86_exec (Movsx_x r l) s of Run t \<Rightarrow> Some t | _ \<Rightarrow> None)"
  "exec_handled Cqo_x s = (case x86_exec Cqo_x s of Run t \<Rightarrow> Some t | _ \<Rightarrow> None)"
  "exec_handled Cdq_x s = (case x86_exec Cdq_x s of Run t \<Rightarrow> Some t | _ \<Rightarrow> None)"
  "exec_handled Cdqe_x s = (case x86_exec Cdqe_x s of Run t \<Rightarrow> Some t | _ \<Rightarrow> None)"
  by (simp_all only: exec_handled_def X86Op.case split: x86_outcome.split)

lemmas run_div = plain_handled idiv_qword div_qword idiv_dword div_dword exec_alu_def alu_of_size_def
  trunc_def sign_extend_def Let_def wrote_def load_bytes_dword store_same

lemma emit_div_computes:
  "rs1 < 32 \<Longrightarrow> rs2 < 32 \<Longrightarrow>
    computes (emit_div rd rs1 rs2 u rem) rd (\<lambda>\<rho>. (if rem then remainder else quotient) (\<not> u) (\<rho> rs1) (\<rho> rs2))"
  by (rule computesI, simp add: emit_div_def gen_defs cong: if_cong split del: if_split, simp add: oks,
      simp add: run_div quotient_def remainder_def)

lemma emit_divw_computes:
  "rs1 < 32 \<Longrightarrow> rs2 < 32 \<Longrightarrow>
    computes (emit_divw rd rs1 rs2 u rem) rd
      (\<lambda>\<rho>. scast ((if rem then remainder else quotient) (\<not> u) (ucast (\<rho> rs1) :: u32) (ucast (\<rho> rs2))))"
  by (rule computesI, simp add: emit_divw_def gen_defs cong: if_cong split del: if_split, simp add: oks,
      simp add: run_div quotient_def remainder_def)

end
