(* ===== verification/X86_Length.thy ===== *)
theory X86_Length
  imports X86_Encode
begin

text \<open>
  The length of an encoded host instruction: at most 15 bytes, which is the limit of the architecture.
  The bound of a format is the sum of its parts: prefix, REX, opcode, ModR/M with SIB and displacement,
  immediate.
\<close>

lemma length_emit_imm: "length (emit_imm z v) \<le> 8" "length (emit_imm (cap_to_dword z) v) \<le> 4"
  by (cases z; simp add: emit_imm_def cap_to_dword_def emit_u8_def emit_u16_def emit_u32_def emit_u64_def)+

lemma length_emit_rex: "emit_rex loc r rex = Some bs \<Longrightarrow> length bs \<le> 1"
  by (auto simp: emit_rex_def Let_def Option.bind_eq_Some_conv split: if_splits)

lemma length_emit_disp: "length (emit_disp rm sib none d) \<le> 5 + length sib"
  by (simp add: emit_disp_def emit_u8_def emit_u32_def)

lemma length_emit_mem: "emit_mem m r = Some bs \<Longrightarrow> length bs \<le> 6"
  using length_emit_disp [of _ "[]"] length_emit_disp [of _ "[_]"]
  by (fastforce simp: emit_mem_def emit_u32_def Option.bind_eq_Some_conv split: option.splits if_splits
      intro: order_trans)

lemma length_emit_modrm: "emit_modrm loc r = Some bs \<Longrightarrow> length bs \<le> 6"
  using length_emit_mem by (auto simp: emit_modrm_def Let_def split: Location.splits)

lemma length_opcode_prefix: "length (emit_opcode_prefix opcode) \<le> 2"
  by (simp add: emit_opcode_prefix_def)

lemma length_emit_r_rm:
  assumes "emit_r_rm z loc r opcode = Some bs"
  shows "length bs \<le> 11"
proof -
  obtain rex modrm where "emit_rex loc r (if z = Qword then 8 else 0) = Some rex" "emit_modrm loc r = Some modrm"
    and "bs = (if z = Word then [0x66] else []) @ rex @ emit_opcode_prefix opcode @ emit_u8 (ucast opcode) @ modrm"
    using assms by (auto simp: emit_r_rm_def Option.bind_eq_Some_conv)
  then show ?thesis
    using length_emit_rex [of loc] length_emit_modrm [of loc] length_opcode_prefix [of opcode]
    by (fastforce simp: emit_u8_def)
qed

lemma length_emit_plusr: "emit_plusr z r opcode = Some bs \<Longrightarrow> length bs \<le> 5"
  using length_opcode_prefix [of opcode]
  by (auto simp: emit_plusr_def emit_u8_def Let_def Option.bind_eq_Some_conv split: if_splits)

section \<open>Operations\<close>

text \<open>A possible encoding has at most 15 bytes.\<close>

definition short :: "u8 list option \<Rightarrow> bool" where
  "short r = (case r of None \<Rightarrow> True | Some bs \<Rightarrow> length bs \<le> 15)"

lemma short_simps [simp]: "short None" "short (Some bs) \<longleftrightarrow> length bs \<le> 15"
  by (simp_all add: short_def)

lemma short_bind: "(\<And>x. r = Some x \<Longrightarrow> short (k x)) \<Longrightarrow> short (Option.bind r k)"
  by (cases r) simp_all

lemma short_if: "(b \<Longrightarrow> short x) \<Longrightarrow> (\<not> b \<Longrightarrow> short y) \<Longrightarrow> short (if b then x else y)"
  by simp

lemma short_r_rm: "short (emit_r_rm z loc r opcode)" "short (emit_plusr z reg opcode)"
  by (cases "emit_r_rm z loc r opcode"; use length_emit_r_rm in \<open>force simp del: not_None_eq\<close>)
    (cases "emit_plusr z reg opcode"; use length_emit_plusr in force)

lemma short_r_rm_imm:
  "emit_r_rm z loc r opcode = Some bs \<Longrightarrow> length (bs @ emit_imm (cap_to_dword z') v) \<le> 15"
  "emit_r_rm z loc r opcode = Some bs \<Longrightarrow> length (bs @ emit_u8 w) \<le> 15"
  "emit_plusr z reg opcode = Some bs \<Longrightarrow> length (bs @ emit_imm z' v) \<le> 15"
  using length_emit_r_rm [of z loc r opcode bs] length_emit_imm [of z' v] length_emit_plusr [of z reg opcode bs]
  by (simp_all add: emit_u8_def)

lemma short_acc: "length (emit_acc_prefix z @ emit_u8 w @ emit_imm z' v) \<le> 15"
  using length_emit_imm(1) [of z' v] by (simp add: emit_acc_prefix_def emit_u8_def)

lemma short_modrm:
  "emit_rex loc r rex = Some p \<Longrightarrow> emit_modrm loc r' = Some bs \<Longrightarrow> length (p @ emit_u8 w @ bs) \<le> 15"
  using length_emit_rex [of loc r rex p] length_emit_modrm [of loc r' bs] by (simp add: emit_u8_def)

lemmas short_intros = short_bind short_if short_r_rm short_r_rm_imm short_acc short_modrm

lemma short_alu: "short (emit_alu d v k)"
  by (cases d; cases v) (simp_all add: emit_alu_def short_intros del: length_append)

lemma short_shift: "short (emit_shift d v k)"
  by (cases v) (simp_all add: emit_shift_def short_intros del: length_append)

lemma short_rm: "short (emit_rm d opcode k)" "short (emit_pair b r d o1 o2)"
  by (simp_all add: emit_rm_def emit_pair_def short_intros del: length_append)

lemma short_indirect: "short (emit_indirect d k)"
  by (simp add: emit_indirect_def short_intros del: length_append)

lemma short_jump: "short (emit_call v)" "short (emit_jmp v)" "short (emit_jcc t cc)"
  by (cases v; simp add: emit_call_def emit_jmp_def emit_jcc_def short_indirect short_bind emit_u8_def emit_u32_def)+

lemma short_mov_imm: "short (emit_mov_imm_rm z d v)"
  by (simp add: emit_mov_imm_rm_def short_intros del: length_append)

lemma short_mov: "short (emit_mov d v)"
proof (cases "\<exists>r imm. d = LReg r \<and> v = OImm imm")
  case True
  then show ?thesis
    unfolding emit_mov_def Let_def
    by (auto simp del: length_append intro!: short_bind short_if short_mov_imm short_r_rm_imm)
next
  case False
  then show ?thesis
    by (cases d; cases v; simp add: emit_mov_def short_mov_imm short_intros del: length_append)
qed

lemma short_movs: "short (emit_movabs v w)" "short (emit_movsx r d)" "short (emit_movzx r d)"
  by (simp add: emit_movabs_def emit_movsx_def emit_movzx_def short_intros del: length_append split: prod.split)+

lemma short_stack: "short (emit_pop d)" "short (emit_push v)" "length (emit_ret n) \<le> 15"
  by (cases d; cases v; simp add: emit_pop_def emit_push_def emit_ret_def Let_def short_intros
      emit_u8_def emit_u16_def emit_u32_def del: length_append)+

lemma short_other: "short (emit_lea r m)" "short (emit_setcc d cc)" "short (emit_test d v)" "short (emit_xchg d d')"
  by (cases d; cases d'; cases v; simp add: emit_lea_def emit_setcc_def emit_test_def emit_xchg_def
      Let_def short_intros del: length_append)+

lemma short_encode: "short (x86_encode op)"
  by (cases op) (simp_all add: short_alu short_shift short_rm short_indirect short_jump short_mov short_movs short_stack short_other emit_u8_def)

text \<open>
  C22. An encoded host instruction has at most 15 bytes, the longest instruction the architecture executes.
\<close>

theorem x86_encode_length:
  assumes "x86_encode op = Some bs"
  shows "length bs \<le> 15"
  using short_encode [of op] assms by simp

text \<open>\<open>add qword [rax + 8 * r9 + 0x11223344], 0x55667788\<close> has twelve bytes.\<close>

definition long_add :: X86Op where
  "long_add = Add_x (LMem \<lparr>m_base = Some RAX, m_index = Some (GPQ 9, 8), m_displacement = 0x11223344, m_size = Qword\<rparr>)
     (OImm 0x55667788)"

theorem x86_encode_length_witness: "\<exists>bs. x86_encode long_add = Some bs \<and> length bs \<le> 15"
proof -
  have "x86_encode long_add \<noteq> None" by code_simp
  then obtain bs where bs: "x86_encode long_add = Some bs" by blast
  show ?thesis using bs x86_encode_length [OF bs] by blast
qed

end
