(* ===== verification/Dbt_Translate.thy ===== *)
theory Dbt_Translate
  imports Dbt_Mul X86_Length Interp_Invariant
begin

text \<open>
  The translator against the interpreter: for every decoded instruction that computes on integer
  registers, the bytes \<open>emit_op\<close> appends, run by the host, have the effect of \<open>step\<close>. And the
  instructions the decoder should have refused and the translator cannot take.
\<close>

section \<open>Instructions on registers\<close>

fun integer_op :: "Op \<Rightarrow> bool" where
  "integer_op (OpImm k rd rs1 imm) = True"
| "integer_op (OpImm32 k rd rs1 imm) = True"
| "integer_op (OpReg k rd rs1 rs2) = True"
| "integer_op (OpReg32 k rd rs1 rs2) = True"
| "integer_op (OpMul k rd rs1 rs2) = True"
| "integer_op (OpMul32 k rd rs1 rs2) = True"
| "integer_op (Lui rd imm) = True"
| "integer_op op = False"

fun op_dest :: "Op \<Rightarrow> u8" where
  "op_dest (OpImm k rd rs1 imm) = rd"
| "op_dest (OpImm32 k rd rs1 imm) = rd"
| "op_dest (OpReg k rd rs1 rs2) = rd"
| "op_dest (OpReg32 k rd rs1 rs2) = rd"
| "op_dest (OpMul k rd rs1 rs2) = rd"
| "op_dest (OpMul32 k rd rs1 rs2) = rd"
| "op_dest (Lui rd imm) = rd"
| "op_dest op = 0"

fun op_value :: "Op \<Rightarrow> (u8 \<Rightarrow> u64) \<Rightarrow> u64" where
  "op_value (OpImm k rd rs1 imm) = (\<lambda>\<rho>. imm_result k (\<rho> rs1) imm)"
| "op_value (OpImm32 k rd rs1 imm) = (\<lambda>\<rho>. imm32_result k (\<rho> rs1) imm)"
| "op_value (OpReg k rd rs1 rs2) = (\<lambda>\<rho>. reg_result k (\<rho> rs1) (\<rho> rs2))"
| "op_value (OpReg32 k rd rs1 rs2) = (\<lambda>\<rho>. reg32_result k (\<rho> rs1) (\<rho> rs2))"
| "op_value (OpMul k rd rs1 rs2) = (\<lambda>\<rho>. mul_result k (\<rho> rs1) (\<rho> rs2))"
| "op_value (OpMul32 k rd rs1 rs2) = (\<lambda>\<rho>. mul32_result k (\<rho> rs1) (\<rho> rs2))"
| "op_value (Lui rd imm) = (\<lambda>\<rho>. scast imm)"
| "op_value op = (\<lambda>\<rho>. 0)"

lemma step_integer:
  assumes "integer_op op" "encodable op"
  shows "step env dev h op compressed sys = write_reg h (op_dest op) (op_value op (registers (ctxs sys h))) sys"
  using assms
  by (cases op) (simp_all add: step_def step_unary_def step_binary_def read_reg_def encodable_def reg_ok_def not_le [symmetric])

lemmas computes_imm = emit_addi_computes emit_slli_computes emit_slti_computes emit_sltiu_computes emit_xori_computes
  emit_srli_computes emit_srai_computes emit_ori_computes emit_andi_computes emit_addiw_computes emit_slliw_computes
  emit_srliw_computes emit_sraiw_computes

lemmas computes_reg = emit_add_computes emit_sub_computes emit_sll_computes emit_slt_computes emit_sltu_computes
  emit_xor_computes emit_srl_computes emit_sra_computes emit_or_computes emit_and_computes emit_addw_computes
  emit_subw_computes emit_sllw_computes emit_srlw_computes emit_sraw_computes emit_mul_computes emit_mulw_computes
  emit_mulh_computes emit_mulhu_computes emit_mulhsu_computes

lemma emit_lui_computes: "computes (emit_load_imm rd imm) rd (\<lambda>\<rho>. scast imm)"
  by (rule computesI, simp add: gen_defs cong: if_cong split del: if_split, simp add: oks, simp add: run_defs)

lemma div_results:
  "mul_result Div_k a b = quotient True a b" "mul_result Divu_k a b = quotient False a b"
  "mul_result Rem_k a b = remainder True a b" "mul_result Remu_k a b = remainder False a b"
  "mul32_result Divw_k a b = scast (quotient True (ucast a :: u32) (ucast b))"
  "mul32_result Divuw_k a b = scast (quotient False (ucast a :: u32) (ucast b))"
  "mul32_result Remw_k a b = scast (remainder True (ucast a :: u32) (ucast b))"
  "mul32_result Remuw_k a b = scast (remainder False (ucast a :: u32) (ucast b))"
  by (simp_all add: mul_result_def mul32_result_def quotient_def remainder_def Let_def)

lemma emit_op_integer:
  "emit_op de (OpImm k rd rs1 imm) compressed = emit_imm_op k rd rs1 imm"
  "emit_op de (OpImm32 k32 rd rs1 imm) compressed = emit_imm32_op k32 rd rs1 imm"
  "emit_op de (OpReg r rd rs1 rs2) compressed = emit_reg_op r rd rs1 rs2"
  "emit_op de (OpReg32 r32 rd rs1 rs2) compressed = emit_reg32_op r32 rd rs1 rs2"
  "emit_op de (OpMul m rd rs1 rs2) compressed = emit_mul_op m rd rs1 rs2"
  "emit_op de (OpMul32 m32 rd rs1 rs2) compressed = emit_mul32_op m32 rd rs1 rs2"
  "emit_op de (Lui rd imm) compressed = emit_load_imm rd imm"
  by (simp_all add: emit_op_def fun_eq_iff)

lemma emit_op_computes:
  assumes "integer_op op" "encodable op"
  shows "computes (emit_op de op compressed) (op_dest op) (op_value op)"
proof (cases op)
  case (OpImm k rd rs1 imm)
  then show ?thesis using assms
    by (cases k) (simp_all add: emit_op_integer emit_imm_op_def encodable_def reg_ok_def imm_op_ok_def computes_imm)
next
  case (OpImm32 k rd rs1 imm)
  then show ?thesis using assms
    by (cases k) (simp_all add: emit_op_integer emit_imm32_op_def encodable_def reg_ok_def imm32_op_ok_def computes_imm)
next
  case (OpReg k rd rs1 rs2)
  then show ?thesis using assms
    by (cases k) (simp_all add: emit_op_integer emit_reg_op_def encodable_def reg_ok_def computes_reg)
next
  case (OpReg32 k rd rs1 rs2)
  then show ?thesis using assms
    by (cases k) (simp_all add: emit_op_integer emit_reg32_op_def encodable_def reg_ok_def computes_reg)
next
  case (OpMul k rd rs1 rs2)
  note d = emit_div_computes [of rs1 rs2 rd]
  show ?thesis using assms OpMul d [of False False] d [of False True] d [of True False] d [of True True]
    by (cases k) (simp_all add: emit_op_integer emit_mul_op_def encodable_def reg_ok_def computes_reg div_results)
next
  case (OpMul32 k rd rs1 rs2)
  note d = emit_divw_computes [of rs1 rs2 rd]
  show ?thesis using assms OpMul32 d [of False False] d [of False True] d [of True False] d [of True True]
    by (cases k) (simp_all add: emit_op_integer emit_mul32_op_def encodable_def reg_ok_def computes_reg div_results)
next
  case (Lui rd imm)
  then show ?thesis by (simp add: emit_op_integer emit_lui_computes)
qed (use assms in simp_all)

section \<open>Refinement\<close>

lemma length_encode: "x86_encode op = Some bs \<Longrightarrow> length bs \<le> 15"
  using short_encode [of op] by simp

lemma computes_runs:
  assumes "computes f rd val" "guest p \<rho> s" "rd < 32"
    and "length (dc_code c) + 120 \<le> dc_capacity c" "length (dc_code c) + 120 + length post < 2 ^ 64"
  shows "\<exists>code s'. f c = Some (c\<lparr>dc_code := dc_code c @ code\<rparr>) \<and> length code \<le> 120 \<and>
    host_steps (dc_code c @ code @ post) (length (dc_code c), s) (length (dc_code c @ code), s') \<and>
    wrote p rd (val \<rho>) s s'"
proof -
  obtain ops s' where ops: "f c = emit_ops ops c" "list_all op_ok ops" "length ops \<le> 8"
    and run: "exec_all ops s = Some s'" "wrote p rd (val \<rho>) s s'"
    using assms(1,2) unfolding computes_def by blast
  have "length (code_of ops) \<le> length ops * 15"
    using ops(2) by (induction ops) (auto simp: code_of_def op_ok_def intro!: add_mono length_encode)
  then have len: "length (code_of ops) \<le> 120" using ops(3) by linarith
  moreover have "f c = Some (c\<lparr>dc_code := dc_code c @ code_of ops\<rparr>)"
    using emit_ops_fits [OF ops(2), of c] ops(1) len assms(4) by simp
  moreover have "host_steps (dc_code c @ code_of ops @ post) (length (dc_code c), s) (length (dc_code c @ code_of ops), s')"
    using exec_all_steps [OF ops(2) run(1), of "dc_code c" post] len assms(5) by simp
  ultimately show ?thesis using run(2) by blast
qed

lemma write_reg_registers:
  assumes "rd < 32"
  shows "\<exists>sys'. write_reg h rd v sys = Ok () sys' \<and>
    registers (ctxs sys' h) = (if rd = 0 then registers (ctxs sys h) else (registers (ctxs sys h))(rd := v))"
proof -
  have "\<not> 32 \<le> rd" using assms by simp
  then show ?thesis by (simp add: write_reg_def put_hart_def)
qed

text \<open>What generated code leaves alone: every register but \<open>rax\<close>, \<open>rcx\<close>, \<open>rdx\<close> and \<open>rsi\<close>, and the memory
  outside of the register file.\<close>

definition undisturbed :: "u64 \<Rightarrow> x86_state \<Rightarrow> x86_state \<Rightarrow> bool" where
  "undisturbed p s s' \<longleftrightarrow>
    (\<forall>i. i \<notin> {0, 1, 2, 6} \<longrightarrow> gpr s' i = gpr s i) \<and>
    (\<forall>a. (\<forall>r < 32. \<forall>k < 8. a \<noteq> slot p r + of_nat k) \<longrightarrow> xmem s' a = xmem s a)"

lemma wrote_undisturbed: "wrote p rd v s s' \<Longrightarrow> rd < 32 \<Longrightarrow> undisturbed p s s'"
  using store_bytes_other [of 8] by (fastforce simp: wrote_def undisturbed_def)

lemma integer_dest: "integer_op op \<Longrightarrow> encodable op \<Longrightarrow> op_dest op < 32"
  by (cases op) (simp_all add: encodable_def reg_ok_def)

text \<open>
  C3. Translated code refines the interpreter. Take an instruction that either decoder returns, that computes
  on integer registers, multiplication and division included, and that is no shift by a negative amount.
  With room for 120 bytes the translator does not panic and appends at most that many. In a host state
  whose memory holds the registers of the hart, the host runs from the first appended byte to the end of the
  appended code, through the handler of \<open>SIGFPE\<close> where a division faults, and then its memory holds the
  registers the interpreter's \<open>step\<close> leaves; other memory and the callee's registers are as before.
\<close>

theorem translated_instruction_refines:
  assumes "bits AND 3 = 3 \<and> decode bits = Some op \<or> half AND 3 \<noteq> 3 \<and> decode_compressed half = Some op"
    and "integer_op op" and "\<not> bad_shift op"
    and "guest p (registers (ctxs sys h)) s"
    and "length (dc_code c) + 120 \<le> dc_capacity c" and "length (dc_code c) + 120 + length post < 2 ^ 64"
  shows "\<exists>code s' sys'.
    emit_op de op compressed c = Some (c\<lparr>dc_code := dc_code c @ code\<rparr>) \<and> length code \<le> 120 \<and>
    step env dev h op compressed sys = Ok () sys' \<and>
    host_steps (dc_code c @ code @ post) (length (dc_code c), s) (length (dc_code c @ code), s') \<and>
    guest p (registers (ctxs sys' h)) s' \<and> undisturbed p s s'"
proof -
  have e: "encodable op"
    using decoded_operands(1) [of bits op] decoded_operands(2) [of half op] assms(1-3) by (auto simp: operands_ok_def)
  note d = integer_dest [OF assms(2) e]
  obtain code s' where code: "emit_op de op compressed c = Some (c\<lparr>dc_code := dc_code c @ code\<rparr>)" "length code \<le> 120"
    and run: "host_steps (dc_code c @ code @ post) (length (dc_code c), s) (length (dc_code c @ code), s')"
    and w: "wrote p (op_dest op) (op_value op (registers (ctxs sys h))) s s'"
    using computes_runs [OF emit_op_computes [OF assms(2) e] assms(4) d assms(5,6)] by blast
  obtain sys' where sys': "step env dev h op compressed sys = Ok () sys'"
    and regs: "registers (ctxs sys' h) = (if op_dest op = 0 then registers (ctxs sys h)
      else (registers (ctxs sys h))(op_dest op := op_value op (registers (ctxs sys h))))"
    using write_reg_registers [OF d] step_integer [OF assms(2) e] by metis
  have "guest p (registers (ctxs sys' h)) s'"
    using guest_wrote [OF assms(4) w] assms(4) w unfolding regs by (auto simp: guest_def wrote_def)
  then show ?thesis using code run sys' wrote_undisturbed [OF w d] by blast
qed

text \<open>\<open>div x3, x1, x2\<close> with all registers zero: the host's division faults.\<close>

definition zero_hart :: System where
  "zero_hart = sample_system\<lparr>ctxs := (\<lambda>i. (initial_context i False)\<lparr>registers := (\<lambda>_. 0)\<rparr>)\<rparr>"

definition zero_host :: x86_state where
  "zero_host = \<lparr>gpr = (\<lambda>i. if i = 5 then 0x1000 else 0), xmem = (\<lambda>_. 0), xflags = None\<rparr>"

definition sample_dbt :: DbtEnv where
  "sample_dbt = \<lparr>helper_addr = (\<lambda>_. 0x20000), op_bits = (\<lambda>_. 0), dbt_threaded = False, dbt_direct = True,
     dbt_sanitize = False, dbt_wfi_nop = False, line_log2 = 12, off_lr_addr = 0x8140, off_lr_value = 0x8148\<rparr>"

definition sample_compiler :: DbtCompiler where
  "sample_compiler = dbt_new AtomicPipeline 0x10000 4096"

lemma load_zero: "load_bytes n (\<lambda>_. 0) a = 0"
  by (induction n arbitrary: a) (simp_all add: load_bytes.simps)

theorem translated_instruction_refines_witness:
  "\<exists>code s' sys'.
    emit_op sample_dbt (Div 3 1 2) False sample_compiler =
      Some (sample_compiler\<lparr>dc_code := dc_code sample_compiler @ code\<rparr>) \<and>
    length code \<le> 120 \<and> step sample_env no_devices 0 (Div 3 1 2) False zero_hart = Ok () sys' \<and>
    host_steps (dc_code sample_compiler @ code @ [])
      (length (dc_code sample_compiler), zero_host)
      (length (dc_code sample_compiler @ code), s') \<and>
    guest 0x1000 (registers (ctxs sys' 0)) s' \<and> undisturbed 0x1000 zero_host s'"
proof (rule translated_instruction_refines)
  show "0x0220C1B3 AND 3 = (3 :: u32) \<and> decode 0x0220C1B3 = Some (Div 3 1 2)
      \<or> (3 :: u16) AND 3 \<noteq> 3 \<and> decode_compressed 3 = Some (Div 3 1 2)"
    by code_simp
  show "integer_op (Div 3 1 2)" "\<not> bad_shift (Div 3 1 2)" by (simp_all add: bad_shift_def)
  show "guest 0x1000 (registers (ctxs zero_hart 0)) zero_host"
    by (simp add: guest_def zero_hart_def zero_host_def load_zero)
qed (simp_all add: sample_compiler_def dbt_new_def)

section \<open>Shifts by a negative amount\<close>

text \<open>The shifts of \<open>bad_shift\<close> that reach the encoder: neither register is \<open>x0\<close>.\<close>

definition shifts_register :: "Op \<Rightarrow> bool" where
  "shifts_register op =
    (case op of
       OpImm k rd rs1 imm \<Rightarrow> rd \<noteq> 0 \<and> rs1 \<noteq> 0
     | OpImm32 k rd rs1 imm \<Rightarrow> rd \<noteq> 0 \<and> rs1 \<noteq> 0
     | _ \<Rightarrow> False)"

lemma negative_shift_encode:
  assumes "sint (imm :: i32) < 0" "mk \<in> {Shl_x, Shr_x, Sar_x}"
  shows "x86_encode (mk loc (OImm (scast imm))) = None"
proof -
  have s: "sint (scast imm :: i64) = sint imm" by (rule sint_up_scast) (simp add: is_up)
  then have "\<not> fits_u8 (scast imm :: i64)" "(scast imm :: i64) \<noteq> 1"
    using assms(1) by (auto simp: fits_u8_def)
  then show ?thesis using assms(2) by (auto simp: emit_shift_def ensure_def split: option.splits)
qed

lemma negative_shift_emit:
  assumes "sint (imm :: i32) < 0" "mk \<in> {Shl_x, Shr_x, Sar_x}"
  shows "emit (mk loc (OImm (scast imm))) c = None"
  using negative_shift_encode [OF assms] by (simp add: emit_def)

lemma bad_shift_emit:
  assumes "bad_shift op" "shifts_register op"
  shows "emit_op de op compressed c = None"
proof -
  have n: "imm \<noteq> 0" "imm \<noteq> 1" if "sint (imm :: i32) < 0" for imm using that by auto
  note d = bad_shift_def shifts_register_def emit_op_def emit_slli_def emit_srli_def emit_srai_def
    emit_slliw_def emit_srliw_def emit_sraiw_def negative_shift_emit Let_def
  show ?thesis
  proof (cases op)
    case (OpImm k rd rs1 imm)
    then show ?thesis using assms n [of imm] by (cases k) (auto simp: d emit_imm_op_def)
  next
    case (OpImm32 k rd rs1 imm)
    then show ?thesis using assms n [of imm] by (cases k) (auto simp: d emit_imm32_op_def)
  qed (use assms in \<open>simp_all add: bad_shift_def\<close>)
qed

text \<open>
  C33. A reserved encoding ends the simulator. The words whose shift amount the decoder reads as negative, such as
  \<open>slli x1, x1, -64\<close>, decode to a shift that the translator hands to the assembler, and that panics on the
  conversion of the amount to a byte, in every state of the translator.
\<close>

theorem reserved_shift_panics:
  assumes "decode bits = Some op" and "bad_shift op" and "shifts_register op"
  shows "compile_op de op False bits c = None"
  using bad_shift_emit [OF assms(2,3)] by (simp add: compile_op_def Let_def)

theorem reserved_shift_panics_witness:
  "compile_op sample_dbt (Slli 1 1 (- 64)) False 0xFC009093 sample_compiler = None"
proof (rule reserved_shift_panics)
  show "decode 0xFC009093 = Some (Slli 1 1 (- 64))" by code_simp
  show "bad_shift (Slli 1 1 (- 64))" by code_simp
  show "shifts_register (Slli 1 1 (- 64))" by code_simp
qed

end
