(* ===== verification/Spec2Isabelle.thy ===== *)
theory Spec2Isabelle
  imports Riscv_Compressed L0_Cache Softfp_Theorems Code_Coherence P9_Server Dbt_Translate
begin

text \<open>
  R2VM is a simulator of RISC-V machines in Rust. A hart runs guest code either instruction by
  instruction (the interpreter) or through blocks of host code (the binary translator); both go through
  small L0 caches in front of address translation, share guest memory and the control and status
  registers, and are driven by two interrupt controllers and by virtio devices behind an I/O memory map.
  The theories of this development follow these parts, from the library crates under \<open>src/lib\<close> up to the
  emulator under \<open>src/src/emu\<close>. Each theory opens with its own conventions; C1 to C40 number the
  properties.

  \<^bold>\<open>Conventions.\<close> \<open>Rust_Prelude\<close> has the machine integers as words of their width, Rust's casts and
  shifts, and the outcome \<open>res\<close> of a function with a mutable state: \<open>Ok\<close>, \<open>Err\<close> or \<open>Panic\<close>. A panic is
  \<open>Panic\<close> or \<open>None\<close> throughout, so that "does not panic" is a statement about the model. Arithmetic is
  that of a release build: it wraps.

  \<^bold>\<open>Instruction set\<close> (\<open>lib/riscv\<close>). \<open>Riscv_Op\<close>: the instructions and CSR numbers of \<open>op.rs\<close> and
  \<open>csr.rs\<close>; constructors of the same shape are factored through enumerations and keep their names as
  abbreviations. \<open>Riscv_Decode\<close>: the extractors and both decoders of \<open>decode.rs\<close>. \<open>Riscv_Encode\<close> is the
  specification, the formats of the manual as an encoder. \<open>Riscv_Decode_Correct\<close> and \<open>Riscv_Decode_Exact\<close>
  show that decoding inverts encoding, what else the decoder accepts (C1, C2), and that operations have
  one word; \<open>Riscv_Compressed\<close> that compressed instructions are instructions of the base set (C4).
  \<open>Riscv_Mmu\<close>: the Sv39 walk and the permission check of \<open>mmu.rs\<close>, against the algorithm and the tables
  of the manual (C5 to C7).

  \<^bold>\<open>Floating point\<close> (\<open>lib/softfp\<close>). \<open>Softfp\<close> and \<open>Softfp_Arith\<close> are \<open>fp.rs\<close> and \<open>int.rs\<close>, generic in the
  format. \<open>Softfp_Round\<close>, \<open>Softfp_Format\<close>, \<open>Softfp_Correct\<close>, \<open>Softfp_Order\<close>, \<open>Softfp_Add\<close> and
  \<open>Softfp_Sqrt\<close> prove them correctly rounded over a locale of formats; \<open>Softfp_Theorems\<close> states the
  results for both formats and all rounding modes, that no operation panics or loops (C15 to C21), and
  where the conversion to an integer wraps.

  \<^bold>\<open>Interrupt controllers and I/O map.\<close> \<open>Clint\<close> (\<open>hw/intc/clint.rs\<close>): registers, pins and timer tasks as
  a step relation, safe and live (C23). \<open>Plic\<close> (\<open>hw/intc/plic.rs\<close>): claims return the best interrupt, the
  outputs are current, no pending interrupt is lost (C24 to C26). \<open>Io_System\<close> (\<open>emu/mod.rs\<close>): the map of
  devices, the wiring of the pins and the dispatch of an access; the regions of a configuration are
  disjoint and each access reaches its device (C27).

  \<^bold>\<open>Harts.\<close> \<open>Hart\<close>: the records \<open>SharedContext\<close> and \<open>Context\<close> of \<open>emu/interp.rs\<close>, their methods, traps
  and interrupts. \<open>System\<close>: memory, all harts, the maps of translated code and its protection, address
  translation and cache misses. \<open>Csr_Access\<close>: \<open>read_csr\<close> and \<open>write_csr\<close>. \<open>L0_Cache\<close>: with coherent
  caches the fast path returns what a full translation returns; traps, returns and CSR writes keep the
  caches coherent, with one exception that is shown to leave a stale line (C9 to C13).

  \<^bold>\<open>Interpreter.\<close> \<open>Interp_Alu\<close>: integer results, multiplication and division against the manual (C28).
  \<open>Interp_Step\<close>: \<open>step\<close> and \<open>sbi_call\<close>, every instruction. \<open>Machine_Invariant\<close>: a locale of what a
  predicate on the machine must be closed under for every instruction to keep it. \<open>Interp_Invariant\<close> uses
  it for the registers, privilege levels and rounding modes of all reachable states, and shows that a
  decoded instruction returns (C29, C30). \<open>Interp_Memory\<close>: loads after stores, load-reserved and
  store-conditional (C31, C32), and the misaligned store that ends the simulator.

  \<^bold>\<open>Translated code.\<close> \<open>Interp_Exec\<close>: the front end of the translator, \<open>translate_code\<close>, \<open>find_block\<close> and
  \<open>handle_misalign\<close>, as the calls they make on the compiler (C34), and what the
  lookup of a block does not check of a fused instruction. \<open>Code_Coherence\<close>: the same locale
  used for the guarantee that a store removes the translated code of its page (C36).

  \<^bold>\<open>Host code\<close> (\<open>lib/x86\<close>, \<open>emu/signal.rs\<close>). \<open>X86_Op\<close>, \<open>X86_Encode\<close> and \<open>X86_Decode\<close>: operations, assembler and
  decoder of host instructions. \<open>X86_Formats\<close> and \<open>X86_Roundtrip\<close> show that decoding inverts
  encoding up to named normal forms (C14), \<open>X86_Length\<close> that no encoding is longer than the architecture
  allows (C22). \<open>X86_Semantics\<close> is a specification, the effect of the operations the translator emits on
  registers, memory and flags. \<open>Signal\<close>: the handlers that emulate a faulting division or a device access,
  and the host with these handlers installed as a step relation on positions in the code.

  \<^bold>\<open>Binary translator\<close> (\<open>emu/dbt.rs\<close>, \<open>sim/pipeline\<close>). \<open>Pipeline\<close>: the cycles each model charges, and that
  the in-order model charges a stall exactly for the use of a slow result by the next instruction.
  \<open>Dbt\<close>, \<open>Dbt_Memory\<close> and \<open>Dbt_Block\<close>: the whole compiler, from an instruction to the bytes of a block with its slow paths. \<open>Dbt_Correct\<close> states the
  contract \<open>computes\<close> of a generator, \<open>Dbt_Alu\<close> and \<open>Dbt_Mul\<close> prove it for every integer instruction,
  and \<open>Dbt_Translate\<close> concludes that translated code refines the interpreter (C3), and that the shifts by a
  negative amount which the decoder lets through end the simulator (C33).

  \<^bold>\<open>Virtio\<close> (\<open>hw/virtio\<close>, \<open>block\<close>). \<open>Virtio_Queue\<close>: rings, descriptor chains and the halves of a buffer,
  refining flat byte sequences and an inductive description of chains (C37, C38). \<open>Virtio_Mmio\<close>: the
  register transport over a heap of shared queues, and the device sides of the five devices, which
  interpret the locale \<open>virtio_device\<close> (C39). \<open>Virtio_Block\<close>: files, shadows and block requests, refining
  a disk of sectors (C40). \<open>Virtio_Tasks\<close>: the tasks of the network, console and entropy devices.

  \<^bold>\<open>9P\<close> (\<open>lib/p9\<close>). \<open>P9_Wire\<close>: the messages of \<open>serialize.rs\<close>, decoded and encoded, against the layout
  of the protocol (C8). \<open>P9_Server\<close>: the handler of \<open>lib.rs\<close> over a file system that is a parameter, and
  the request task of \<open>hw/virtio/p9.rs\<close> (C35).

  \<^bold>\<open>Loops and bounds.\<close> Loops over a range recurse over what is left of it. Four loops whose end
  is not plain are \<open>partial_function (option)\<close>, where not returning is \<open>None\<close>: the digit loops of division
  and square root, shown to end (C15, C18); the translation of a block, shown to end at the end of the
  page (C34); and the descriptor chain, shown to end exactly when the chain does, after at most as many
  descriptors as the queue has (C38). No definition has fuel. The 120 bytes of C3 are eight host
  instructions of at most 15 bytes (C22). Memory is a total function on 64-bit addresses; RAM starts at
  \<open>io_boundary\<close>.

  \<^bold>\<open>Parameters.\<close> The clock, the devices other than the interrupt controllers as the interpreter sees them,
  the console and the system calls of user-mode emulation are arguments, in the
  records \<open>Env\<close> and \<open>Devices\<close>, the served files in \<open>FileSystem\<close>, and the helpers in assembly, flags and
  offsets the translator uses in \<open>DbtEnv\<close>; what the theorems need of them is a hypothesis on those records. Virtio
  tasks take the packet, the typed bytes or the random bytes as arguments.

  \<^bold>\<open>Concurrency.\<close> Harts interleave at whole instructions, and tasks of devices at whole requests;
  locks and atomics inside one are not modelled. Invalidations that a hart asks of others are queued tasks,
  run when the other hart checks for interrupts, as in the code.

  \<^bold>\<open>Not modelled.\<close> The helpers in assembly that translated code calls, so that C3 is about instructions
  without memory accesses and jumps; the listing of generated code; system calls, their constants and the loader
  (\<open>emu/syscall.rs\<close>, \<open>abi.rs\<close>, \<open>loader.rs\<close>), which call the host kernel; the event loop and fibers, host
  scheduling; the installation of signal handlers; the directory of the host that 9P serves
  (\<open>passthrough.rs\<close>), the Ethernet MAC, the real-time clock, the device
  tree (\<open>lib/fdt\<close>), host network, console and entropy; the
  disassembler, configuration and \<open>main\<close> but for the initial state of a hart.
\<close>

end
